(* ===== verification/Obd_Prelude.thy ===== *)
theory Obd_Prelude
  imports Main "HOL-Library.Word"
begin

unbundle bit_operations_syntax

text \<open>
  Shared vocabulary of the development.

  The Go types used everywhere (\<^verbatim>\<open>byte\<close>, \<^verbatim>\<open>uint16\<close>, \<^verbatim>\<open>uint32\<close>, \<^verbatim>\<open>uint64\<close>) are words of
  their width, a byte slice or a byte array is a list of bytes.  The theory models what the
  code uses of Go's standard library: the big endian functions of \<^verbatim>\<open>encoding/binary\<close>,
  \<^verbatim>\<open>bytes.Buffer\<close> as the list of the bytes written so far, and an in-memory \<^verbatim>\<open>io.Reader\<close> as
  the list of the bytes not read yet, with \<^verbatim>\<open>io.ReadFull\<close>.

  The collections: \<open>wire_simps\<close> holds the equations that evaluate a writer or a reader,
  \<open>wire_defs\<close> the definitions that are only abbreviations of other writers and readers.
\<close>

named_theorems wire_simps
named_theorems wire_defs

type_synonym byte = "8 word"
type_synonym u16 = "16 word"
type_synonym u32 = "32 word"
type_synonym u64 = "64 word"
type_synonym bytes = "byte list"

subsection \<open>Big endian integers (encoding/binary)\<close>

definition PutUint16 :: "u16 \<Rightarrow> bytes" where
  "PutUint16 v = [ucast (drop_bit 8 v), ucast v]"

definition PutUint32 :: "u32 \<Rightarrow> bytes" where
  "PutUint32 v =
     [ucast (drop_bit 24 v), ucast (drop_bit 16 v), ucast (drop_bit 8 v), ucast v]"

definition PutUint64 :: "u64 \<Rightarrow> bytes" where
  "PutUint64 v =
     [ucast (drop_bit 56 v), ucast (drop_bit 48 v), ucast (drop_bit 40 v), ucast (drop_bit 32 v),
      ucast (drop_bit 24 v), ucast (drop_bit 16 v), ucast (drop_bit 8 v), ucast v]"

fun BigEndianUint16 :: "bytes \<Rightarrow> u16" where
  "BigEndianUint16 (b0 # b1 # _) = ucast b1 OR push_bit 8 (ucast b0)"
| "BigEndianUint16 _ = 0"

fun BigEndianUint32 :: "bytes \<Rightarrow> u32" where
  "BigEndianUint32 (b0 # b1 # b2 # b3 # _) =
     ucast b3 OR push_bit 8 (ucast b2) OR push_bit 16 (ucast b1) OR push_bit 24 (ucast b0)"
| "BigEndianUint32 _ = 0"

fun BigEndianUint64 :: "bytes \<Rightarrow> u64" where
  "BigEndianUint64 (b0 # b1 # b2 # b3 # b4 # b5 # b6 # b7 # _) =
     ucast b7 OR push_bit 8 (ucast b6) OR push_bit 16 (ucast b5) OR push_bit 24 (ucast b4) OR
     push_bit 32 (ucast b3) OR push_bit 40 (ucast b2) OR push_bit 48 (ucast b1) OR
     push_bit 56 (ucast b0)"
| "BigEndianUint64 _ = 0"

lemma length_PutUint [simp]:
  "length (PutUint16 a) = 2" "length (PutUint32 b) = 4" "length (PutUint64 c) = 8"
  by (simp_all add: PutUint16_def PutUint32_def PutUint64_def)

text \<open>
  Reassembling a word from its bytes, eight bits at a time: the bytes below \<open>k\<close> together are
  \<open>take_bit k v\<close>, and the next byte extends them to \<open>take_bit (k + 8) v\<close>.
\<close>

lemma ucast_byte_eq_take_bit:
  fixes v :: "'a::len word"
  assumes "8 \<le> LENGTH('a)"
  shows "ucast (ucast v :: byte) = take_bit 8 v"
  using assms by (intro bit_word_eqI) (auto simp: bit_simps)

lemma take_bit_or_byte:
  fixes v :: "'a::len word"
  shows "take_bit k v OR push_bit k (take_bit 8 (drop_bit k v)) = take_bit (k + 8) v"
  by (rule bit_word_eqI) (auto simp: bit_simps)

lemma take_bit_or_byte_assoc:
  fixes v :: "'a::len word"
  shows "take_bit k v OR (push_bit k (take_bit 8 (drop_bit k v)) OR r) = take_bit (k + 8) v OR r"
  by (simp add: take_bit_or_byte flip: or.assoc)

lemmas bytes_reassemble = ucast_byte_eq_take_bit take_bit_or_byte take_bit_or_byte_assoc

lemma take_bit_word_full: "take_bit LENGTH('a) (v :: 'a::len word) = v"
  by (rule bit_word_eqI) (auto simp: bit_simps)

lemma PutUint16_inverse [simp]: "BigEndianUint16 (PutUint16 v @ r) = v"
  using take_bit_word_full [of v]
  by (simp add: PutUint16_def bytes_reassemble)

lemma PutUint32_inverse [simp]: "BigEndianUint32 (PutUint32 v @ r) = v"
  using take_bit_word_full [of v]
  by (simp add: PutUint32_def bytes_reassemble)

lemma PutUint64_inverse [simp]: "BigEndianUint64 (PutUint64 v @ r) = v"
  using take_bit_word_full [of v]
  by (simp add: PutUint64_def bytes_reassemble)

lemma PutUint_inverse_Nil [simp]:
  "BigEndianUint16 (PutUint16 a) = a"
  "BigEndianUint32 (PutUint32 b) = b"
  "BigEndianUint64 (PutUint64 c) = c"
  using PutUint16_inverse [of a "[]"] PutUint32_inverse [of b "[]"] PutUint64_inverse [of c "[]"]
  by simp_all

subsection \<open>Errors of the wire protocol\<close>

datatype wire_error =
    EOF
  | ErrUnexpectedEOF
  | ErrNilFeatureVector
  | ErrPkScriptTooLong
  | ErrNilTCPAddress
  | ErrNilOnionAddress
  | ErrNilNetAddress
  | ErrNilPublicKey
  | ErrUnknownServiceLength
  | ErrOutpointIndexTooBig u32
  | ErrBlockHeightTooBig
  | ErrTxIndexTooBig
  | ErrDeliveryAddrTooLong u16
  | ErrUnknownAddrType byte
  | ErrInvalidNodeAlias
  | ErrAliasTooLarge nat
  | ErrMaxPongBytesExceeded
  | ErrWholeNumberOfShortChanIDs nat
  | ErrUnsortedSIDs u64 u64
  | ErrUnknownShortChanIDEncoding byte
  | ErrNotCustomRange
  | UnknownMessage u16
  | ErrorEncodeMessage wire_error
  | ErrorPayloadTooLarge nat
  | ErrParsePubKey
  | ErrTlv string
  | ErrZlib string
  | ErrBase32
  | ErrUnknownElement
  | ErrUnknownEncrypterType byte
  | ErrUnknownFailCode u16
  | ErrFailureTooLong nat
  | ErrOnionError wire_error
  | GoPanic

subsection \<open>Writers: a buffer passed through a sequence of writes\<close>

text \<open>
  A Go encoder appends to a \<^verbatim>\<open>bytes.Buffer\<close> and returns an error; what it wrote before the error
  stays in the buffer.  A writer therefore always returns the buffer, with \<open>None\<close> for a nil
  error.  \<open>wseq\<close> is the idiom \<^verbatim>\<open>if err := WriteX(w, x); err != nil { return err }\<close> repeated.
\<close>

type_synonym writer = "bytes \<Rightarrow> bytes \<times> wire_error option"

definition WriteBytes :: "bytes \<Rightarrow> writer" where
  "WriteBytes b buf = (buf @ b, None)"

definition wfail :: "wire_error \<Rightarrow> writer" where
  "wfail e buf = (buf, Some e)"

fun wseq :: "writer list \<Rightarrow> writer" where
  "wseq [] buf = (buf, None)"
| "wseq (w # ws) buf =
     (case w buf of (buf', None) \<Rightarrow> wseq ws buf' | (buf', Some e) \<Rightarrow> (buf', Some e))"

lemma WriteBytes_apply [wire_simps]: "WriteBytes b buf = (buf @ b, None)"
  by (simp add: WriteBytes_def)

lemma wseq_append:
  "wseq (ws @ vs) buf =
     (case wseq ws buf of (buf', None) \<Rightarrow> wseq vs buf' | (buf', Some e) \<Rightarrow> (buf', Some e))"
  by (induction ws arbitrary: buf) (auto split: prod.splits option.splits)

text \<open>Every writer of the protocol only appends.\<close>

definition appends :: "writer \<Rightarrow> bool" where
  "appends w \<longleftrightarrow> (\<forall>buf. \<exists>bs e. w buf = (buf @ bs, e) \<and> (\<forall>buf'. w buf' = (buf' @ bs, e)))"

lemma appendsI: "(\<And>buf. w buf = (buf @ bs, e)) \<Longrightarrow> appends w"
  by (auto simp: appends_def)

lemma appendsE:
  assumes "appends w"
  obtains bs e where "\<And>buf. w buf = (buf @ bs, e)"
  using assms by (auto simp: appends_def)

lemma appends_WriteBytes [simp, intro]: "appends (WriteBytes b)"
  by (rule appendsI) (rule WriteBytes_apply)

lemma appends_wfail [simp, intro]: "appends (wfail e)"
  by (rule appendsI [where bs = "[]"]) (simp add: wfail_def)

lemma appends_wseq [intro]: "list_all appends ws \<Longrightarrow> appends (wseq ws)"
proof (induction ws)
  case Nil
  show ?case by (rule appendsI [where bs = "[]" and e = None]) simp
next
  case (Cons w ws)
  then obtain bs e where w: "\<And>buf. w buf = (buf @ bs, e)"
    by (auto elim: appendsE)
  from Cons have "appends (wseq ws)" by simp
  then obtain bs' e' where ws: "\<And>buf. wseq ws buf = (buf @ bs', e')"
    by (auto elim: appendsE)
  show ?case
    by (rule appendsI [where bs = "bs @ (if e = None then bs' else [])"
          and e = "if e = None then e' else e"]) (auto simp: w ws split: option.splits)
qed

lemma appends_wseq_Cons [simp]: "appends w \<Longrightarrow> appends (wseq ws) \<Longrightarrow> appends (wseq (w # ws))"
proof -
  assume "appends w" and "appends (wseq ws)"
  then have "appends (wseq [w, wseq ws])" by (intro appends_wseq) simp
  moreover have "wseq [w, wseq ws] = wseq (w # ws)"
    by (rule ext) (auto split: prod.splits option.splits)
  ultimately show ?thesis by simp
qed

lemma appends_wseq_Nil [simp]: "appends (wseq [])"
  by (rule appends_wseq) simp

subsection \<open>Readers: the bytes that remain\<close>

type_synonym 'a reader = "bytes \<Rightarrow> wire_error + 'a \<times> bytes"

definition rret :: "'a \<Rightarrow> 'a reader" where
  "rret x bs = Inr (x, bs)"

definition rfail :: "wire_error \<Rightarrow> 'a reader" where
  "rfail e bs = Inl e"

definition rbind :: "'a reader \<Rightarrow> ('a \<Rightarrow> 'b reader) \<Rightarrow> 'b reader" where
  "rbind r f bs = (case r bs of Inl e \<Rightarrow> Inl e | Inr (x, bs') \<Rightarrow> f x bs')"

text \<open>
  \<^verbatim>\<open>io.ReadFull\<close>: the error is \<^verbatim>\<open>io.EOF\<close> only if no byte was read, and
  \<^verbatim>\<open>io.ErrUnexpectedEOF\<close> after a short read.
\<close>

definition ReadFull :: "nat \<Rightarrow> bytes reader" where
  "ReadFull n bs =
     (if n \<le> length bs then Inr (take n bs, drop n bs)
      else if bs = [] then Inl EOF else Inl ErrUnexpectedEOF)"

text \<open>A \<^verbatim>\<open>for i := 0; i < n; i++\<close> loop that reads one element per round.\<close>

fun rtimes :: "nat \<Rightarrow> 'a reader \<Rightarrow> 'a list reader" where
  "rtimes 0 r = rret []"
| "rtimes (Suc n) r = rbind r (\<lambda>x. rbind (rtimes n r) (\<lambda>xs. rret (x # xs)))"

lemma rret_apply [wire_simps]: "rret x bs = Inr (x, bs)"
  by (simp add: rret_def)

lemma rfail_apply [wire_simps]: "rfail e bs = Inl e"
  by (simp add: rfail_def)

lemma rbind_Inr [wire_simps]: "r bs = Inr (x, bs') \<Longrightarrow> rbind r f bs = f x bs'"
  by (simp add: rbind_def)

lemma rbind_Inl: "r bs = Inl e \<Longrightarrow> rbind r f bs = Inl e"
  by (simp add: rbind_def)

lemma rbind_assoc: "rbind (rbind r f) g = rbind r (\<lambda>x. rbind (f x) g)"
  by (rule ext) (auto simp: rbind_def split: sum.splits)

lemma rbind_Inr_iff:
  "rbind r f bs = Inr z \<longleftrightarrow> (\<exists>x bs'. r bs = Inr (x, bs') \<and> f x bs' = Inr z)"
  by (auto simp: rbind_def split: sum.splits)

lemma ReadFull_append [wire_simps]: "length b = n \<Longrightarrow> ReadFull n (b @ rest) = Inr (b, rest)"
  by (auto simp: ReadFull_def)

lemma ReadFull_Nil: "0 < n \<Longrightarrow> ReadFull n [] = Inl EOF"
  by (simp add: ReadFull_def)

lemma ReadFull_Inr_iff:
  "ReadFull n bs = Inr (b, rest) \<longleftrightarrow> bs = b @ rest \<and> length b = n"
  by (auto simp: ReadFull_def)

subsection \<open>The contract of an encoder and its decoder\<close>

text \<open>
  What a message relies on of the codec of each of its fields.  \<open>ser\<close> is the layout the
  protocol prescribes for a value: on a well-formed value the encoder appends exactly that
  layout and reports no error, and the decoder consumes exactly the layout and gives the value
  back.
\<close>

locale wire_codec =
  fixes enc :: "'a \<Rightarrow> writer"
    and ser :: "'a \<Rightarrow> bytes"
    and dec :: "'a reader"
    and wf :: "'a \<Rightarrow> bool"
  assumes enc_wf: "wf x \<Longrightarrow> enc x buf = (buf @ ser x, None)"
    and dec_ser: "wf x \<Longrightarrow> dec (ser x @ rest) = Inr (x, rest)"
begin

text \<open>No layout is a prefix of another one: a concatenation of fields parses one way only.\<close>

lemma ser_prefix_free:
  assumes "wf x" "wf y" and "ser x @ r = ser y @ s"
  shows "x = y \<and> r = s"
proof -
  have "Inr (x, r) = dec (ser x @ r)" by (rule dec_ser [OF assms(1), symmetric])
  also have "\<dots> = dec (ser y @ s)" by (simp only: assms(3))
  also have "\<dots> = Inr (y, s)" by (rule dec_ser [OF assms(2)])
  finally show ?thesis by simp
qed

lemma enc_inject: "wf x \<Longrightarrow> wf y \<Longrightarrow> enc x buf = enc y buf \<Longrightarrow> x = y"
  using ser_prefix_free [of x y "[]" "[]"] by (simp add: enc_wf)

text \<open>\<open>n\<close> elements one after the other, as the loops over signatures and channel ids do.\<close>

lemma wseq_map_enc:
  "list_all wf xs \<Longrightarrow> wseq (map enc xs) buf = (buf @ concat (map ser xs), None)"
  by (induction xs arbitrary: buf) (simp_all add: enc_wf)

lemma rtimes_dec:
  "list_all wf xs \<Longrightarrow> rtimes (length xs) dec (concat (map ser xs) @ rest) = Inr (xs, rest)"
  by (induction xs) (simp_all add: dec_ser rbind_Inr rret_apply)

end

subsection \<open>The contract of a message\<close>

text \<open>
  What \<^verbatim>\<open>message.go\<close> relies on of every message type: its encoder only appends, even when it
  fails, and a well-formed message is written as one block of bytes, the same in any buffer, from
  which the decoder of an empty message takes everything.  \<open>norm\<close> is what comes back, which is
  not the message itself where the format leaves a field out.
\<close>

definition msg_roundtrip :: "('m \<Rightarrow> writer) \<Rightarrow> 'm reader \<Rightarrow> 'm \<Rightarrow> 'm \<Rightarrow> bool" where
  "msg_roundtrip enc dec m m' \<longleftrightarrow>
     (\<exists>bs. (\<forall>buf. enc m buf = (buf @ bs, None)) \<and> dec bs = Inr (m', []))"

locale wire_message =
  fixes enc :: "'m \<Rightarrow> writer"
    and dec :: "'m reader"
    and wf :: "'m \<Rightarrow> bool"
    and norm :: "'m \<Rightarrow> 'm"
  assumes enc_appends: "appends (enc m)"
    and roundtrip: "wf m \<Longrightarrow> msg_roundtrip enc dec m (norm m)"
begin

lemma payload:
  assumes "wf m"
  obtains bs where "\<And>buf. enc m buf = (buf @ bs, None)" and "dec bs = Inr (norm m, [])"
  using roundtrip [OF assms] by (auto simp: msg_roundtrip_def)

text \<open>Two messages with the same bytes are the same message, up to what is not sent.\<close>

lemma enc_determines_norm:
  assumes "wf m" "wf m'" and "enc m buf = enc m' buf"
  shows "norm m = norm m'"
proof -
  obtain bs bs' where "enc m buf = (buf @ bs, None)" "dec bs = Inr (norm m, [])"
    and "enc m' buf = (buf @ bs', None)" "dec bs' = Inr (norm m', [])"
    using payload [OF assms(1)] payload [OF assms(2)] by metis
  then show ?thesis using assms(3) by auto
qed

end

text \<open>Proving the contract: write the bytes with the field rules, then read them back.\<close>

lemma msg_roundtripI:
  assumes "\<And>buf. enc m buf = (buf @ bs, None)" and "dec bs = Inr (m', [])"
  shows "msg_roundtrip enc dec m m'"
  using assms by (auto simp: msg_roundtrip_def)

end
