(* ===== verification/Wire_Features.thy ===== *)
theory Wire_Features
  imports Obd_Prelude
begin

text \<open>
  The feature vectors of \<^verbatim>\<open>lnwire/features.go\<close>.

  A \<^verbatim>\<open>RawFeatureVector\<close> holds a Go map used as a set of 16-bit feature numbers and is modelled
  as a set of such words.  A loop \<^verbatim>\<open>for bit := range fv.features\<close> runs in an order Go does not
  fix; the model runs it in ascending order, and the lemmas below show that the result of each
  loop does not depend on it.  The byte layout of a vector is the bit string of its members,
  most significant byte first, in bytes that carry 8 bits (on the wire) or 5 bits (in an
  invoice).
\<close>

type_synonym FeatureBit = u16
type_synonym RawFeatureVector = "FeatureBit set"

subsection \<open>Known feature bits\<close>

definition DataLossProtectRequired :: FeatureBit where "DataLossProtectRequired = 0"
definition DataLossProtectOptional :: FeatureBit where "DataLossProtectOptional = 1"
definition InitialRoutingSync :: FeatureBit where "InitialRoutingSync = 3"
definition UpfrontShutdownScriptRequired :: FeatureBit where "UpfrontShutdownScriptRequired = 4"
definition UpfrontShutdownScriptOptional :: FeatureBit where "UpfrontShutdownScriptOptional = 5"
definition GossipQueriesRequired :: FeatureBit where "GossipQueriesRequired = 6"
definition GossipQueriesOptional :: FeatureBit where "GossipQueriesOptional = 7"
definition TLVOnionPayloadRequired :: FeatureBit where "TLVOnionPayloadRequired = 8"
definition TLVOnionPayloadOptional :: FeatureBit where "TLVOnionPayloadOptional = 9"
definition StaticRemoteKeyRequired :: FeatureBit where "StaticRemoteKeyRequired = 12"
definition StaticRemoteKeyOptional :: FeatureBit where "StaticRemoteKeyOptional = 13"
definition PaymentAddrRequired :: FeatureBit where "PaymentAddrRequired = 14"
definition PaymentAddrOptional :: FeatureBit where "PaymentAddrOptional = 15"
definition MPPRequired :: FeatureBit where "MPPRequired = 16"
definition MPPOptional :: FeatureBit where "MPPOptional = 17"
definition WumboChannelsRequired :: FeatureBit where "WumboChannelsRequired = 18"
definition WumboChannelsOptional :: FeatureBit where "WumboChannelsOptional = 19"
definition AnchorsRequired :: FeatureBit where "AnchorsRequired = 20"
definition AnchorsOptional :: FeatureBit where "AnchorsOptional = 21"
definition AnchorsZeroFeeHtlcTxRequired :: FeatureBit where "AnchorsZeroFeeHtlcTxRequired = 22"
definition AnchorsZeroFeeHtlcTxOptional :: FeatureBit where "AnchorsZeroFeeHtlcTxOptional = 23"
definition AMPRequired :: FeatureBit where "AMPRequired = 30"
definition AMPOptional :: FeatureBit where "AMPOptional = 31"
definition ExplicitChannelTypeRequired :: FeatureBit where "ExplicitChannelTypeRequired = 44"
definition ExplicitChannelTypeOptional :: FeatureBit where "ExplicitChannelTypeOptional = 45"
definition ScriptEnforcedLeaseRequired :: FeatureBit where "ScriptEnforcedLeaseRequired = 2022"
definition ScriptEnforcedLeaseOptional :: FeatureBit where "ScriptEnforcedLeaseOptional = 2023"

lemmas feature_bit_defs =
  DataLossProtectRequired_def DataLossProtectOptional_def InitialRoutingSync_def
  UpfrontShutdownScriptRequired_def UpfrontShutdownScriptOptional_def GossipQueriesRequired_def
  GossipQueriesOptional_def TLVOnionPayloadRequired_def TLVOnionPayloadOptional_def
  StaticRemoteKeyRequired_def StaticRemoteKeyOptional_def PaymentAddrRequired_def
  PaymentAddrOptional_def MPPRequired_def MPPOptional_def WumboChannelsRequired_def
  WumboChannelsOptional_def AnchorsRequired_def AnchorsOptional_def
  AnchorsZeroFeeHtlcTxRequired_def AnchorsZeroFeeHtlcTxOptional_def AMPRequired_def
  AMPOptional_def ExplicitChannelTypeRequired_def ExplicitChannelTypeOptional_def
  ScriptEnforcedLeaseRequired_def ScriptEnforcedLeaseOptional_def

definition FeatureBit_IsRequired :: "FeatureBit \<Rightarrow> bool" where
  "FeatureBit_IsRequired b \<longleftrightarrow> b AND 1 = 0"

definition Features :: "FeatureBit \<rightharpoonup> string" where
  "Features = map_of
     [(DataLossProtectRequired, ''data-loss-protect''),
      (DataLossProtectOptional, ''data-loss-protect''),
      (InitialRoutingSync, ''initial-routing-sync''),
      (UpfrontShutdownScriptRequired, ''upfront-shutdown-script''),
      (UpfrontShutdownScriptOptional, ''upfront-shutdown-script''),
      (GossipQueriesRequired, ''gossip-queries''),
      (GossipQueriesOptional, ''gossip-queries''),
      (TLVOnionPayloadRequired, ''tlv-onion''),
      (TLVOnionPayloadOptional, ''tlv-onion''),
      (StaticRemoteKeyOptional, ''static-remote-key''),
      (StaticRemoteKeyRequired, ''static-remote-key''),
      (PaymentAddrOptional, ''payment-addr''),
      (PaymentAddrRequired, ''payment-addr''),
      (MPPOptional, ''multi-path-payments''),
      (MPPRequired, ''multi-path-payments''),
      (AnchorsRequired, ''anchor-commitments''),
      (AnchorsOptional, ''anchor-commitments''),
      (AnchorsZeroFeeHtlcTxRequired, ''anchors-zero-fee-htlc-tx''),
      (AnchorsZeroFeeHtlcTxOptional, ''anchors-zero-fee-htlc-tx''),
      (WumboChannelsRequired, ''wumbo-channels''),
      (WumboChannelsOptional, ''wumbo-channels''),
      (AMPRequired, ''amp''),
      (AMPOptional, ''amp''),
      (ExplicitChannelTypeOptional, ''explicit-commitment-type''),
      (ExplicitChannelTypeRequired, ''explicit-commitment-type''),
      (ScriptEnforcedLeaseRequired, ''script-enforced-lease''),
      (ScriptEnforcedLeaseOptional, ''script-enforced-lease'')]"

subsection \<open>Raw feature vectors\<close>

definition fv_Set :: "FeatureBit \<Rightarrow> RawFeatureVector \<Rightarrow> RawFeatureVector" where
  "fv_Set feature fv = insert feature fv"

definition fv_IsSet :: "RawFeatureVector \<Rightarrow> FeatureBit \<Rightarrow> bool" where
  "fv_IsSet fv feature \<longleftrightarrow> feature \<in> fv"

definition NewRawFeatureVector :: "FeatureBit list \<Rightarrow> RawFeatureVector" where
  "NewRawFeatureVector bits = fold fv_Set bits {}"

definition fv_IsEmpty :: "RawFeatureVector \<Rightarrow> bool" where
  "fv_IsEmpty fv \<longleftrightarrow> card fv = 0"

definition fv_OnlyContains :: "RawFeatureVector \<Rightarrow> FeatureBit list \<Rightarrow> bool" where
  "fv_OnlyContains fv bits \<longleftrightarrow>
     (if length bits \<noteq> card fv then False else list_all (fv_IsSet fv) bits)"

definition fv_Equals :: "RawFeatureVector \<Rightarrow> RawFeatureVector \<Rightarrow> bool" where
  "fv_Equals fv other \<longleftrightarrow>
     (if card fv \<noteq> card other then False
      else list_all (\<lambda>b. b \<in> other) (sorted_list_of_set fv))"

definition fv_SafeSet :: "FeatureBit \<Rightarrow> RawFeatureVector \<Rightarrow> RawFeatureVector option" where
  "fv_SafeSet feature fv = (if feature XOR 1 \<in> fv then None else Some (fv_Set feature fv))"

fun fv_SafeSet_all :: "FeatureBit list \<Rightarrow> RawFeatureVector \<Rightarrow> RawFeatureVector option" where
  "fv_SafeSet_all [] fv = Some fv"
| "fv_SafeSet_all (b # bits) fv =
     (case fv_SafeSet b fv of None \<Rightarrow> None | Some fv' \<Rightarrow> fv_SafeSet_all bits fv')"

definition fv_Merge :: "RawFeatureVector \<Rightarrow> RawFeatureVector \<Rightarrow> RawFeatureVector option" where
  "fv_Merge fv other = fv_SafeSet_all (sorted_list_of_set other) fv"

definition fv_Unset :: "FeatureBit \<Rightarrow> RawFeatureVector \<Rightarrow> RawFeatureVector" where
  "fv_Unset feature fv = fv - {feature}"

definition fv_Clone :: "RawFeatureVector \<Rightarrow> RawFeatureVector" where
  "fv_Clone fv = fold fv_Set (sorted_list_of_set fv) (NewRawFeatureVector [])"

subsection \<open>Serialization\<close>

definition fv_serializeSize :: "RawFeatureVector \<Rightarrow> nat \<Rightarrow> nat" where
  "fv_serializeSize fv width =
     (let m = fold (\<lambda>feature mx. if uint feature > mx then uint feature else mx)
                (sorted_list_of_set fv) (-1)
      in if m = -1 then 0 else nat m div width + 1)"

definition fv_SerializeSize :: "RawFeatureVector \<Rightarrow> nat" where
  "fv_SerializeSize fv = fv_serializeSize fv 8"

definition fv_SerializeSize32 :: "RawFeatureVector \<Rightarrow> nat" where
  "fv_SerializeSize32 fv = fv_serializeSize fv 5"

text \<open>
  \<open>fv_setbit\<close> is the body of the loop of \<^verbatim>\<open>encode\<close>; a feature whose byte index is not below the
  length indexes the slice out of range, which panics.
\<close>

definition fv_setbit :: "nat \<Rightarrow> nat \<Rightarrow> FeatureBit \<Rightarrow> bytes option \<Rightarrow> bytes option" where
  "fv_setbit len width feature data =
     (case data of None \<Rightarrow> None
      | Some d \<Rightarrow>
         let byteIndex = unat feature div width; bitIndex = unat feature mod width
         in if byteIndex < len
            then Some (d[len - byteIndex - 1 := d ! (len - byteIndex - 1) OR push_bit bitIndex 1])
            else None)"

definition fv_encode_data :: "RawFeatureVector \<Rightarrow> nat \<Rightarrow> nat \<Rightarrow> bytes option" where
  "fv_encode_data fv len width =
     fold (fv_setbit len width) (sorted_list_of_set fv) (Some (replicate len 0))"

definition fv_encode :: "RawFeatureVector \<Rightarrow> nat \<Rightarrow> nat \<Rightarrow> writer" where
  "fv_encode fv len width =
     (case fv_encode_data fv len width of None \<Rightarrow> wfail GoPanic | Some d \<Rightarrow> WriteBytes d)"

definition fv_Encode :: "RawFeatureVector \<Rightarrow> writer" where
  "fv_Encode fv =
     (let len = fv_SerializeSize fv
      in wseq [WriteBytes (PutUint16 (word_of_nat len)), fv_encode fv len 8])"

definition fv_EncodeBase256 :: "RawFeatureVector \<Rightarrow> writer" where
  "fv_EncodeBase256 fv = fv_encode fv (fv_SerializeSize fv) 8"

definition fv_EncodeBase32 :: "RawFeatureVector \<Rightarrow> writer" where
  "fv_EncodeBase32 fv = fv_encode fv (fv_SerializeSize32 fv) 5"

definition fv_getbit :: "bytes \<Rightarrow> nat \<Rightarrow> nat \<Rightarrow> nat \<Rightarrow> bool" where
  "fv_getbit data len width i \<longleftrightarrow>
     drop_bit (i mod width) (data ! (len - i div width - 1)) AND 1 = 1"

definition fv_decode_data :: "bytes \<Rightarrow> nat \<Rightarrow> nat \<Rightarrow> RawFeatureVector \<Rightarrow> RawFeatureVector" where
  "fv_decode_data data len width =
     fold (\<lambda>i fv. if fv_getbit data len width i then fv_Set (word_of_nat i) fv else fv)
       [0..<length data * width]"

definition fv_decode :: "nat \<Rightarrow> nat \<Rightarrow> RawFeatureVector \<Rightarrow> RawFeatureVector reader" where
  "fv_decode len width fv =
     rbind (ReadFull len) (\<lambda>data. rret (fv_decode_data data len width fv))"

definition fv_Decode :: "RawFeatureVector \<Rightarrow> RawFeatureVector reader" where
  "fv_Decode fv = rbind (ReadFull 2) (\<lambda>l. fv_decode (unat (BigEndianUint16 l)) 8 fv)"

definition fv_DecodeBase256 :: "nat \<Rightarrow> RawFeatureVector \<Rightarrow> RawFeatureVector reader" where
  "fv_DecodeBase256 len fv = fv_decode len 8 fv"

definition fv_DecodeBase32 :: "nat \<Rightarrow> RawFeatureVector \<Rightarrow> RawFeatureVector reader" where
  "fv_DecodeBase32 len fv = fv_decode len 5 fv"

subsection \<open>Named feature vectors\<close>

record FeatureVector =
  RawFV :: RawFeatureVector
  featureNames :: "FeatureBit \<rightharpoonup> string"

definition NewFeatureVector ::
  "RawFeatureVector option \<Rightarrow> (FeatureBit \<rightharpoonup> string) \<Rightarrow> FeatureVector" where
  "NewFeatureVector featureVector names =
     \<lparr>RawFV = (case featureVector of None \<Rightarrow> NewRawFeatureVector [] | Some fv \<Rightarrow> fv),
      featureNames = names\<rparr>"

definition EmptyFeatureVector :: FeatureVector where
  "EmptyFeatureVector = NewFeatureVector None Features"

definition fv_IsKnown :: "FeatureVector \<Rightarrow> FeatureBit \<Rightarrow> bool" where
  "fv_IsKnown fv b \<longleftrightarrow> featureNames fv b \<noteq> None"

definition fv_Name :: "FeatureVector \<Rightarrow> FeatureBit \<Rightarrow> string" where
  "fv_Name fv b = (case featureNames fv b of None \<Rightarrow> ''unknown'' | Some name \<Rightarrow> name)"

definition fv_isFeatureBitPair :: "FeatureVector \<Rightarrow> FeatureBit \<Rightarrow> bool" where
  "fv_isFeatureBitPair fv b =
     (case (featureNames fv b, featureNames fv (b XOR 1)) of
        (Some name1, Some name2) \<Rightarrow> name1 = name2 | _ \<Rightarrow> False)"

definition fv_HasFeature :: "FeatureVector \<Rightarrow> FeatureBit \<Rightarrow> bool" where
  "fv_HasFeature fv feature \<longleftrightarrow>
     fv_IsSet (RawFV fv) feature \<or>
     (fv_isFeatureBitPair fv feature \<and> fv_IsSet (RawFV fv) (feature XOR 1))"

definition fv_RequiresFeature :: "FeatureVector \<Rightarrow> FeatureBit \<Rightarrow> bool" where
  "fv_RequiresFeature fv feature =
     fv_IsSet (RawFV fv) (if FeatureBit_IsRequired feature then feature else feature XOR 1)"

definition fv_UnknownRequiredFeatures :: "FeatureVector \<Rightarrow> FeatureBit list" where
  "fv_UnknownRequiredFeatures fv =
     filter (\<lambda>feature. feature mod 2 = 0 \<and> \<not> fv_IsKnown fv feature)
       (sorted_list_of_set (RawFV fv))"

definition fv_FeatureVector_Clone :: "FeatureVector \<Rightarrow> FeatureVector" where
  "fv_FeatureVector_Clone fv = NewFeatureVector (Some (fv_Clone (RawFV fv))) (featureNames fv)"

subsection \<open>Lemmas\<close>

lemma finite_fv [simp]: "finite (fv :: RawFeatureVector)"
  by (rule finite_subset [OF subset_UNIV]) simp

lemma fold_fv_Set: "fold fv_Set bits fv = fv \<union> set bits"
  by (induction bits arbitrary: fv) (auto simp: fv_Set_def)

lemma NewRawFeatureVector_set [simp]: "NewRawFeatureVector bits = set bits"
  by (simp add: NewRawFeatureVector_def fold_fv_Set)

lemma fv_Clone_id [simp]: "fv_Clone fv = fv"
  by (simp add: fv_Clone_def fold_fv_Set)

lemma fv_Equals_iff: "fv_Equals fv other \<longleftrightarrow> fv = other"
proof -
  have "fv_Equals fv other \<longleftrightarrow> card fv = card other \<and> fv \<subseteq> other"
    by (auto simp: fv_Equals_def list_all_iff)
  then show ?thesis
    by (metis card_subset_eq finite_fv order_refl)
qed

text \<open>The largest member decides the number of bytes.\<close>

lemma fold_max_int:
  "fold (\<lambda>f mx. if g f > mx then g f else mx) fs (m :: int) = Max (insert m (g ` set fs))"
proof -
  have "(\<lambda>f mx. if g f > mx then g f else mx) = max \<circ> g"
    by (auto simp: fun_eq_iff max_def)
  then have "fold (\<lambda>f mx. if g f > mx then g f else mx) fs m = fold max (map g fs) m"
    by (simp add: fold_map)
  also have "\<dots> = Max (set (m # map g fs))"
    by (rule Max.set_eq_fold [symmetric])
  finally show ?thesis by simp
qed

lemma fv_serializeSize_bound:
  assumes "f \<in> fv" "0 < width"
  shows "unat f div width < fv_serializeSize fv width"
proof -
  let ?M = "Max (insert (-1) (uint ` fv))"
  have "uint f \<le> ?M" using assms by (intro Max_ge) auto
  then have "0 \<le> ?M" and "unat f \<le> nat ?M"
    using order_trans [OF uint_ge_0 [of f]] nat_mono [of "uint f" ?M] by (simp_all only: nat_uint_eq)
  then have "unat f div width \<le> nat ?M div width" and "?M \<noteq> -1"
    by (simp_all only: div_le_mono)
  then show ?thesis
    by (simp add: fv_serializeSize_def fold_max_int Let_def)
qed

lemma fv_serializeSize_le:
  assumes "0 < width"
  shows "fv_serializeSize fv width \<le> 65535 div width + 1"
proof -
  let ?M = "Max (insert (-1) (uint ` fv))"
  have "\<forall>x\<in>insert (-1) (uint ` fv). x \<le> 65535"
  proof -
    have "uint f \<le> 65535" for f :: u16
      using uint_lt2p [of f] by simp
    then show ?thesis by auto
  qed
  then have "?M \<le> 65535" by (subst Max_le_iff) auto
  then have "nat ?M \<le> 65535" by linarith
  then have "nat ?M div width \<le> 65535 div width" by (rule div_le_mono)
  then show ?thesis
    by (simp add: fv_serializeSize_def fold_max_int Let_def)
qed

text \<open>
  What the loop of \<^verbatim>\<open>encode\<close> computes, for the features in any order: no index is out of range,
  and bit \<open>r\<close> of the byte for index \<open>q\<close> is set exactly for the member \<open>q * width + r\<close>.
\<close>

lemma fold_fv_setbit_None: "fold (fv_setbit len width) fs None = None"
  by (induction fs) (simp_all add: fv_setbit_def)

lemma fold_fv_setbit:
  assumes "\<forall>f\<in>set fs. unat f div width < len" and "length d = len" and "width \<le> 8"
  shows "\<exists>d'. fold (fv_setbit len width) fs (Some d) = Some d' \<and> length d' = len \<and>
           (\<forall>q<len. \<forall>r. bit (d' ! (len - q - 1)) r \<longleftrightarrow>
              bit (d ! (len - q - 1)) r \<or>
              (\<exists>f\<in>set fs. unat f div width = q \<and> unat f mod width = r \<and> r < 8))"
  using assms(1,2)
proof (induction fs arbitrary: d)
  case Nil
  then show ?case by simp
next
  case (Cons f fs)
  let ?k = "len - unat f div width - 1"
  let ?d = "d[?k := d ! ?k OR push_bit (unat f mod width) 1]"
  have step: "fv_setbit len width f (Some d) = Some ?d"
    using Cons.prems by (simp add: fv_setbit_def Let_def)
  obtain d' where d': "fold (fv_setbit len width) fs (Some ?d) = Some d'" "length d' = len"
    and bits: "\<forall>q<len. \<forall>r. bit (d' ! (len - q - 1)) r \<longleftrightarrow> bit (?d ! (len - q - 1)) r \<or>
              (\<exists>f\<in>set fs. unat f div width = q \<and> unat f mod width = r \<and> r < 8)"
    using Cons.IH [of ?d] Cons.prems by auto
  have new: "bit (?d ! (len - q - 1)) r \<longleftrightarrow>
      bit (d ! (len - q - 1)) r \<or> (unat f div width = q \<and> unat f mod width = r \<and> r < 8)"
    if "q < len" for q r
  proof -
    have "?k = len - q - 1 \<longleftrightarrow> unat f div width = q"
      using that Cons.prems by auto
    then show ?thesis
      using that Cons.prems(2) by (auto simp: nth_list_update bit_simps)
  qed
  show ?case
    using d' bits new by (auto simp: step)
qed

lemma fv_getbit_iff: "fv_getbit data len width i \<longleftrightarrow> bit (data ! (len - i div width - 1)) (i mod width)"
  by (simp add: fv_getbit_def bit_iff_odd_drop_bit and_one_eq odd_iff_mod_2_eq_one)

lemma fv_decode_data_eq:
  "fv_decode_data data len width fv =
     fv \<union> word_of_nat ` {i. i < length data * width \<and> fv_getbit data len width i}"
proof -
  have "fold (\<lambda>i fv. if P i then fv_Set (g i) fv else fv) xs fv = fv \<union> g ` {i \<in> set xs. P i}"
    for xs and P :: "nat \<Rightarrow> bool" and g fv
    by (induction xs arbitrary: fv) (auto simp: fv_Set_def)
  then show ?thesis by (simp add: fv_decode_data_def)
qed

lemma fv_encode_data_decode:
  assumes "len = fv_serializeSize fv width" and "0 < width" "width \<le> 8"
  shows "\<exists>d. fv_encode_data fv len width = Some d \<and> length d = len \<and>
           fv_decode_data d len width {} = fv"
proof -
  have in_range: "\<forall>f\<in>set (sorted_list_of_set fv). unat f div width < len"
    using assms by (auto intro: fv_serializeSize_bound)
  obtain d where d: "fv_encode_data fv len width = Some d" "length d = len"
    and bits: "\<forall>q<len. \<forall>r. bit (d ! (len - q - 1)) r \<longleftrightarrow>
      (\<exists>f\<in>fv. unat f div width = q \<and> unat f mod width = r \<and> r < 8)"
    using fold_fv_setbit [OF in_range, of "replicate len 0"] assms(3)
    by (auto simp: fv_encode_data_def)
  have member: "fv_getbit d len width i \<longleftrightarrow> word_of_nat i \<in> fv \<and> i < 65536"
    if "i < len * width" for i
  proof -
    have "i div width < len" using that assms(2) by (simp add: less_mult_imp_div_less)
    moreover have "i mod width < 8"
      using assms(2,3) mod_less_divisor [of width i] by linarith
    ultimately have "fv_getbit d len width i \<longleftrightarrow>
        (\<exists>f\<in>fv. unat f div width = i div width \<and> unat f mod width = i mod width)"
      using bits by (auto simp: fv_getbit_iff)
    also have "\<dots> \<longleftrightarrow> (\<exists>f\<in>fv. unat f = i)"
      by (metis div_mult_mod_eq)
    also have "\<dots> \<longleftrightarrow> word_of_nat i \<in> fv \<and> i < 65536"
    proof
      assume "\<exists>f\<in>fv. unat f = i"
      then show "word_of_nat i \<in> fv \<and> i < 65536"
        using unsigned_less [where 'b = 16 and 'a = nat] by auto
    next
      assume "word_of_nat i \<in> fv \<and> i < 65536"
      moreover from this have "unat (word_of_nat i :: u16) = i" by (simp add: unat_of_nat)
      ultimately show "\<exists>f\<in>fv. unat f = i" by blast
    qed
    finally show ?thesis .
  qed
  have "f \<in> word_of_nat ` {i. i < len * width \<and> fv_getbit d len width i}" if "f \<in> fv" for f
  proof -
    have "unat f < len * width"
      using in_range that assms(2) by (simp add: div_less_iff_less_mult)
    then show ?thesis
      using that member [of "unat f"] unsigned_less [of f, where 'a = nat] by (intro image_eqI [of _ _ "unat f"]) auto
  qed
  then have "fv_decode_data d len width {} = fv"
    using member d(2) by (auto simp: fv_decode_data_eq)
  with d show ?thesis by blast
qed

text \<open>The layout of a vector on the wire: the number of bytes, then the bytes.\<close>

definition fv_bytes :: "RawFeatureVector \<Rightarrow> bytes" where
  "fv_bytes fv = the (fv_encode_data fv (fv_SerializeSize fv) 8)"

definition fv_ser :: "RawFeatureVector \<Rightarrow> bytes" where
  "fv_ser fv = PutUint16 (word_of_nat (fv_SerializeSize fv)) @ fv_bytes fv"

lemma fv_bytes_correct:
  shows fv_encode_data_bytes: "fv_encode_data fv (fv_SerializeSize fv) 8 = Some (fv_bytes fv)"
    and length_fv_bytes [simp]: "length (fv_bytes fv) = fv_SerializeSize fv"
    and fv_decode_data_bytes [simp]:
      "fv_decode_data (fv_bytes fv) (fv_SerializeSize fv) 8 {} = fv"
proof -
  obtain d where "fv_encode_data fv (fv_SerializeSize fv) 8 = Some d"
    and "length d = fv_SerializeSize fv" and "fv_decode_data d (fv_SerializeSize fv) 8 {} = fv"
    using fv_encode_data_decode [of "fv_SerializeSize fv" fv 8] fv_SerializeSize_def by auto
  then show "fv_encode_data fv (fv_SerializeSize fv) 8 = Some (fv_bytes fv)"
    and "length (fv_bytes fv) = fv_SerializeSize fv"
    and "fv_decode_data (fv_bytes fv) (fv_SerializeSize fv) 8 {} = fv"
    by (simp_all add: fv_bytes_def)
qed

lemma fv_SerializeSize_le: "fv_SerializeSize fv \<le> 8192"
  using fv_serializeSize_le [of 8 fv] by (simp add: fv_SerializeSize_def)

lemma unat_fv_SerializeSize [simp]:
  "unat (word_of_nat (fv_SerializeSize fv) :: u16) = fv_SerializeSize fv"
  using fv_SerializeSize_le [of fv] by (simp add: unat_of_nat)

lemma fv_Encode_apply [wire_simps]: "fv_Encode fv buf = (buf @ fv_ser fv, None)"
  by (simp add: fv_Encode_def Let_def fv_encode_def fv_encode_data_bytes WriteBytes_apply fv_ser_def)

lemma fv_Decode_ser [wire_simps]: "fv_Decode {} (fv_ser fv @ rest) = Inr (fv, rest)"
  by (simp add: fv_Decode_def fv_ser_def rbind_def fv_decode_def ReadFull_append rret_apply)

lemma appends_fv_Encode [simp]: "appends (fv_Encode fv)"
  by (rule appendsI) (rule fv_Encode_apply)

interpretation fv_codec: wire_codec fv_Encode fv_ser "fv_Decode {}" "\<lambda>_. True"
  by unfold_locales (simp_all add: wire_simps)

lemma xor_one_xor_one [simp]: "(b XOR 1) XOR 1 = (b :: FeatureBit)"
  by (simp add: xor.assoc)

lemma xor_one_neq [simp]: "b XOR 1 \<noteq> (b :: FeatureBit)"
proof
  assume "b XOR 1 = b"
  then have "b XOR (b XOR 1) = b XOR b" by simp
  then show False by (simp flip: xor.assoc)
qed

lemma xor_one_eq_iff: "b XOR 1 = c \<longleftrightarrow> b = c XOR (1 :: FeatureBit)"
  by auto

lemma fv_SafeSet_all_iff:
  "fv_SafeSet_all bits fv =
     (if \<exists>b\<in>set bits. b XOR 1 \<in> fv \<union> set bits then None else Some (fv \<union> set bits))"
proof (induction bits arbitrary: fv)
  case Nil
  then show ?case by simp
next
  case (Cons b bits)
  let ?clash = "\<lambda>bits fv. \<exists>b\<in>set bits. b XOR 1 \<in> fv \<union> set bits"
  have step: "?clash (b # bits) fv \<longleftrightarrow> b XOR 1 \<in> fv \<or> ?clash bits (insert b fv)"
    using xor_one_neq [of b] xor_one_xor_one by (simp, metis)
  show ?case
    by (simp only: step) (simp add: fv_SafeSet_def fv_Set_def Cons.IH)
qed

text \<open>At most one bit of each pair is set.\<close>

definition fv_pair_free :: "RawFeatureVector \<Rightarrow> bool" where
  "fv_pair_free fv \<longleftrightarrow> (\<forall>b\<in>fv. b XOR 1 \<notin> fv)"

subsection \<open>Properties\<close>

text \<open>
  Encoding a feature vector never indexes out of range or fails, and decoding gives back
  exactly the same set of bits and leaves the bytes that follow: on the wire (length prefix and 8
  bits per byte) and in the invoice format (5 bits per byte, length given).
\<close>
theorem feature_vector_roundtrip:
  "snd (fv_Encode fv buf) = None \<and>
   (\<exists>bs. fst (fv_Encode fv buf) = buf @ bs \<and> fv_Decode {} (bs @ rest) = Inr (fv, rest)) \<and>
   (\<exists>bs. fv_EncodeBase32 fv buf = (buf @ bs, None) \<and>
      fv_DecodeBase32 (length bs) {} (bs @ rest) = Inr (fv, rest))"
proof -
  obtain d where d: "fv_encode_data fv (fv_SerializeSize32 fv) 5 = Some d"
    "length d = fv_SerializeSize32 fv" "fv_decode_data d (fv_SerializeSize32 fv) 5 {} = fv"
    using fv_encode_data_decode [of "fv_SerializeSize32 fv" fv 5] fv_SerializeSize32_def by auto
  have "fv_EncodeBase32 fv buf = (buf @ d, None)"
    by (simp add: fv_EncodeBase32_def fv_encode_def d(1) WriteBytes_apply)
  moreover have "fv_DecodeBase32 (length d) {} (d @ rest) = Inr (fv, rest)"
    by (simp add: fv_DecodeBase32_def fv_decode_def rbind_def ReadFull_append rret_apply d(2,3))
  ultimately show ?thesis
    by (auto simp: wire_simps)
qed

text \<open>
  Merging two vectors succeeds exactly when no feature of the second one clashes with the
  other bit of its pair in either vector, in whatever order the map is ranged over; the result
  is the union, and it keeps the pairs exclusive.
\<close>
theorem fv_Merge_correct:
  "fv_Merge fv other =
     (if \<exists>b\<in>other. b XOR 1 \<in> fv \<union> other then None else Some (fv \<union> other)) \<and>
   (\<forall>bits. set bits = other \<longrightarrow> fv_SafeSet_all bits fv = fv_Merge fv other) \<and>
   (\<forall>fv'. fv_pair_free fv \<and> fv_Merge fv other = Some fv' \<longrightarrow> fv_pair_free fv')"
  by (auto simp: fv_Merge_def fv_SafeSet_all_iff fv_pair_free_def split: if_splits)

theorem fv_Merge_correct_witness:
  "fv_Merge {9, 14} {17} = Some {9, 14, 17} \<and> fv_Merge {9, 14} {15} = None \<and>
   fv_pair_free ({9, 14, 17} :: RawFeatureVector)"
proof -
  have pf: "fv_pair_free ({9, 14} :: RawFeatureVector)"
    by (simp add: fv_pair_free_def)
  have m: "fv_Merge {9, 14} {17} = Some {9, 14, 17}"
    using fv_Merge_correct [of "{9, 14}" "{17}"] by (auto split: if_splits)
  moreover have "fv_Merge {9, 14} {15} = None"
    using fv_Merge_correct [of "{9, 14}" "{15}"] by (simp split: if_splits)
  ultimately show ?thesis
    using fv_Merge_correct [of "{9, 14}" "{17}"] pf by blast
qed

text \<open>
  A feature vector on the wire may be longer than the 8192 bytes that hold all 16-bit feature
  numbers.  Its bit \<open>i\<close> is then read as feature \<open>i mod 65536\<close>, so a bit outside the range of
  \<^verbatim>\<open>FeatureBit\<close> is taken for a different feature instead of being reported.
\<close>
theorem fv_Decode_wraps_feature_numbers:
  assumes "length data \<le> 65535" and "i < length data * 8" and "fv_getbit data (length data) 8 i"
  shows "\<exists>fv. fv_Decode {} (PutUint16 (word_of_nat (length data)) @ data) = Inr (fv, []) \<and>
    word_of_nat (i mod 65536) \<in> fv"
proof -
  let ?fv = "fv_decode_data data (length data) 8 {}"
  have len: "unat (word_of_nat (length data) :: u16) = length data"
    using assms(1) by (simp add: unat_of_nat)
  have "fv_Decode {} (PutUint16 (word_of_nat (length data)) @ data) = Inr (?fv, [])"
    using ReadFull_append [of data "length data" "[]"]
    by (simp add: fv_Decode_def rbind_def fv_decode_def ReadFull_append rret_apply len)
  moreover have "(word_of_nat (i mod 65536) :: FeatureBit) = word_of_nat i"
    by (simp add: word_unat_eq_iff unat_of_nat)
  ultimately show ?thesis
    using assms(2,3) by (auto simp: fv_decode_data_eq)
qed

theorem fv_Decode_wraps_feature_numbers_witness:
  "\<exists>fv. fv_Decode {} (PutUint16 8193 @ 1 # replicate 8192 0) = Inr (fv, []) \<and> 0 \<in> fv"
proof -
  let ?d = "(1 :: byte) # replicate 8192 0"
  have "\<exists>fv. fv_Decode {} (PutUint16 (word_of_nat (length ?d)) @ ?d) = Inr (fv, []) \<and>
      word_of_nat (65536 mod 65536) \<in> fv"
    by (rule fv_Decode_wraps_feature_numbers) (simp_all add: fv_getbit_def)
  then show ?thesis by simp
qed

end
