(* ===== verification/Feature_Deps.thy ===== *)
theory Feature_Deps
  imports Wire_Features
begin

text \<open>
  The package \<^verbatim>\<open>feature\<close>: the dependency check of a feature vector (\<^verbatim>\<open>deps.go\<close>), the check for
  unknown required bits (\<^verbatim>\<open>required.go\<close>), the feature sets (\<^verbatim>\<open>set.go\<close>, \<^verbatim>\<open>default_sets.go\<close>) and
  the manager that builds them (\<^verbatim>\<open>manager.go\<close>).

  \<^verbatim>\<open>validateDeps\<close> recurses through the dependency graph and memoises in the map \<^verbatim>\<open>supported\<close>,
  which every call mutates; the model passes the map on.  A feature set that is ranged over is
  a list.  The abstract promise is \<open>deps_closed\<close>: every dependency of a member is a member,
  up to the required and the optional bit of a pair.
\<close>

type_synonym supportedFeatures = "FeatureBit \<rightharpoonup> bool"

datatype feature_error =
    ErrMissingFeatureDep FeatureBit
  | ErrUnknownRequired "FeatureBit list"
  | ErrSetFeature FeatureBit
  | ErrInvalidFeatureSet feature_error

subsection \<open>deps.go\<close>

definition deps_list :: "(FeatureBit \<times> FeatureBit list) list" where
  "deps_list =
     [(PaymentAddrOptional, [TLVOnionPayloadOptional]),
      (MPPOptional, [PaymentAddrOptional]),
      (AnchorsOptional, [StaticRemoteKeyOptional]),
      (AnchorsZeroFeeHtlcTxOptional, [StaticRemoteKeyOptional]),
      (AMPOptional, [PaymentAddrOptional]),
      (ExplicitChannelTypeOptional, []),
      (ScriptEnforcedLeaseOptional, [ExplicitChannelTypeOptional, AnchorsZeroFeeHtlcTxOptional])]"

text \<open>\<^verbatim>\<open>deps[bit]\<close>: a missing key gives the nil map, which has no members.\<close>

definition deps :: "FeatureBit \<Rightarrow> FeatureBit list" where
  "deps b = (case map_of deps_list b of None \<Rightarrow> [] | Some ds \<Rightarrow> ds)"

definition mapToOptional :: "FeatureBit \<Rightarrow> FeatureBit" where
  "mapToOptional b = (if FeatureBit_IsRequired b then b XOR 1 else b)"

definition initSupported :: "FeatureBit list \<Rightarrow> supportedFeatures" where
  "initSupported features = fold (\<lambda>b m. m(mapToOptional b \<mapsto> False)) features Map.empty"

text \<open>
  The recursion follows the graph down.  \<open>dep_weight\<close> outweighs the weights of all
  dependencies together, so the total weight of the features still to visit decreases.
\<close>

definition dep_weight :: "FeatureBit \<Rightarrow> nat" where
  "dep_weight b =
     (if b = PaymentAddrOptional \<or> b = AnchorsOptional \<or> b = AnchorsZeroFeeHtlcTxOptional then 2
      else if b = MPPOptional \<or> b = AMPOptional then 3
      else if b = ScriptEnforcedLeaseOptional then 4
      else 1)"

lemma mapToOptional_dep:
  "d \<in> set (deps b) \<Longrightarrow> mapToOptional d = d"
  by (auto simp: deps_def deps_list_def feature_bit_defs mapToOptional_def FeatureBit_IsRequired_def
      split: if_splits)

lemma mapToOptional_deps [simp]: "mapToOptional ` set (deps b) = set (deps b)"
proof -
  have "mapToOptional ` set (deps b) = id ` set (deps b)"
    by (rule image_cong) (auto intro: mapToOptional_dep)
  then show ?thesis by simp
qed

lemma dep_weight_pos [simp]: "0 < dep_weight b"
  by (simp add: dep_weight_def)

lemma dep_weight_deps: "sum_list (map dep_weight (map mapToOptional (deps b))) < dep_weight b"
  by (auto simp: deps_def deps_list_def feature_bit_defs mapToOptional_def FeatureBit_IsRequired_def
      dep_weight_def)

function validateDeps ::
  "FeatureBit list \<Rightarrow> supportedFeatures \<Rightarrow> feature_error + supportedFeatures" where
  "validateDeps [] supported = Inr supported"
| "validateDeps (b # features) supported =
     (case supported (mapToOptional b) of
        None \<Rightarrow> Inl (ErrMissingFeatureDep (mapToOptional b))
      | Some True \<Rightarrow> validateDeps features supported
      | Some False \<Rightarrow>
         (case validateDeps (deps (mapToOptional b)) supported of
            Inl e \<Rightarrow> Inl e
          | Inr supported' \<Rightarrow> validateDeps features (supported'(mapToOptional b \<mapsto> True))))"
  by pat_completeness auto
termination
  by (relation "measure (\<lambda>(fs, _). sum_list (map (dep_weight \<circ> mapToOptional) fs))")
    (use dep_weight_deps in \<open>auto simp: trans_less_add1\<close>)

definition ValidateDeps :: "FeatureVector \<Rightarrow> feature_error option" where
  "ValidateDeps fv =
     (let features = sorted_list_of_set (RawFV fv)
      in case validateDeps features (initSupported features) of
           Inl e \<Rightarrow> Some e | Inr _ \<Rightarrow> None)"

subsection \<open>required.go\<close>

definition ValidateRequired :: "FeatureVector \<Rightarrow> feature_error option" where
  "ValidateRequired fv =
     (let unknown = fv_UnknownRequiredFeatures fv
      in if length unknown > 0 then Some (ErrUnknownRequired unknown) else None)"

subsection \<open>The promise of validateDeps\<close>

definition deps_closed :: "FeatureBit set \<Rightarrow> bool" where
  "deps_closed S \<longleftrightarrow> (\<forall>b\<in>S. set (deps b) \<subseteq> S)"

lemma initSupported_eq:
  "initSupported features = (\<lambda>b. if b \<in> mapToOptional ` set features then Some False else None)"
proof -
  have "fold (\<lambda>b m. m(mapToOptional b \<mapsto> False)) features m =
      (\<lambda>b. if b \<in> mapToOptional ` set features then Some False else m b)" for m
    by (induction features arbitrary: m) (auto simp: fun_eq_iff)
  then show ?thesis by (simp add: initSupported_def)
qed

text \<open>
  The invariant of the memo table: a bit marked as checked has all its dependencies in the
  table, also marked as checked.
\<close>

definition memo_inv :: "supportedFeatures \<Rightarrow> bool" where
  "memo_inv m \<longleftrightarrow> (\<forall>b. m b = Some True \<longrightarrow> (\<forall>d\<in>set (deps b). m d = Some True))"

lemma validateDeps_sound:
  "validateDeps fs m = Inr m' \<Longrightarrow> memo_inv m \<Longrightarrow>
     memo_inv m' \<and> dom m' = dom m \<and> (\<forall>b. m b = Some True \<longrightarrow> m' b = Some True) \<and>
     (\<forall>b\<in>set fs. m' (mapToOptional b) = Some True)"
proof (induction fs m arbitrary: m' rule: validateDeps.induct)
  case (1 m)
  then show ?case by simp
next
  case (2 b fs m)
  let ?b = "mapToOptional b"
  consider (seen) "m ?b = Some True" | (fresh) "m ?b = Some False"
    using "2.prems"(1) by (cases "m ?b") (auto split: bool.splits)
  then show ?case
  proof cases
    case seen
    then show ?thesis using "2.IH"(1) "2.prems" by auto
  next
    case fresh
    obtain m1 where m1: "validateDeps (deps ?b) m = Inr m1"
      and rest: "validateDeps fs (m1(?b \<mapsto> True)) = Inr m'"
      using fresh "2.prems"(1) by (auto split: sum.splits)
    have A: "memo_inv m1" "dom m1 = dom m" "\<forall>c. m c = Some True \<longrightarrow> m1 c = Some True"
      "\<forall>d\<in>set (deps ?b). m1 (mapToOptional d) = Some True"
      using "2.IH"(2) [OF fresh _ m1] "2.prems"(2) by auto
    have deps_checked: "\<forall>d\<in>set (deps ?b). m1 d = Some True"
      using A(4) mapToOptional_dep [of _ ?b] by metis
    define m2 where "m2 = m1(?b \<mapsto> True)"
    have inv2: "memo_inv m2"
      using A(1) deps_checked by (auto simp: memo_inv_def m2_def)
    have "memo_inv m'" "dom m' = dom m2" "\<forall>c. m2 c = Some True \<longrightarrow> m' c = Some True"
      "\<forall>c\<in>set fs. m' (mapToOptional c) = Some True"
      using "2.IH"(3) [OF fresh _ m1, folded m2_def] rest [folded m2_def] inv2 by blast+
    moreover have "dom m2 = dom m"
      using A(2) fresh by (auto simp: m2_def)
    ultimately show ?thesis
      using A(3) by (simp add: m2_def)
  qed
qed

lemma validateDeps_complete:
  "deps_closed (dom m) \<Longrightarrow> mapToOptional ` set fs \<subseteq> dom m \<Longrightarrow>
     \<exists>m'. validateDeps fs m = Inr m' \<and> dom m' = dom m"
proof (induction fs m rule: validateDeps.induct)
  case (1 m)
  then show ?case by simp
next
  case (2 b fs m)
  let ?b = "mapToOptional b"
  consider (seen) "m ?b = Some True" | (fresh) "m ?b = Some False"
    using "2.prems"(2) by (cases "m ?b") (auto simp: subset_iff)
  then show ?case
  proof cases
    case seen
    then show ?thesis using "2.IH"(1) [OF seen _ "2.prems"(1)] "2.prems" by simp
  next
    case fresh
    have "mapToOptional ` set (deps ?b) \<subseteq> dom m"
      using "2.prems"(1) fresh by (auto simp only: mapToOptional_deps deps_closed_def)
    then obtain m1 where m1: "validateDeps (deps ?b) m = Inr m1" "dom m1 = dom m"
      using "2.IH"(2) [OF fresh _ "2.prems"(1)] by blast
    define m2 where "m2 = m1(?b \<mapsto> True)"
    have "dom m2 = dom m" using m1(2) fresh by (auto simp: m2_def)
    moreover from this obtain m' where "validateDeps fs m2 = Inr m'" "dom m' = dom m2"
      using "2.IH"(3) [OF fresh _ m1(1), folded m2_def] "2.prems" by auto
    ultimately show ?thesis
      using m1(1) fresh by (simp add: m2_def)
  qed
qed

lemma ValidateDeps_iff:
  "ValidateDeps fv = None \<longleftrightarrow> deps_closed (mapToOptional ` RawFV fv)"
proof -
  let ?fs = "sorted_list_of_set (RawFV fv)"
  let ?m = "initSupported ?fs"
  have dom: "dom ?m = mapToOptional ` RawFV fv"
    by (auto simp: initSupported_eq dom_def)
  have "memo_inv ?m" by (simp add: memo_inv_def initSupported_eq)
  show ?thesis
  proof
    assume "ValidateDeps fv = None"
    then obtain m' where "validateDeps ?fs ?m = Inr m'"
      by (auto simp: ValidateDeps_def Let_def split: sum.splits)
    from validateDeps_sound [OF this \<open>memo_inv ?m\<close>]
    have "memo_inv m'" "dom m' = mapToOptional ` RawFV fv"
      "\<forall>b\<in>mapToOptional ` RawFV fv. m' b = Some True"
      using dom by auto
    then show "deps_closed (mapToOptional ` RawFV fv)"
      by (fastforce simp: deps_closed_def memo_inv_def)
  next
    assume "deps_closed (mapToOptional ` RawFV fv)"
    then show "ValidateDeps fv = None"
      using validateDeps_complete [of ?m ?fs] dom
      by (auto simp: ValidateDeps_def Let_def)
  qed
qed

subsection \<open>set.go and default_sets.go\<close>

datatype Set = SetInit | SetLegacyGlobal | SetNodeAnn | SetInvoice | SetInvoiceAmp

type_synonym setDesc = "(FeatureBit \<times> Set list) list"

definition defaultSetDesc :: setDesc where
  "defaultSetDesc =
     [(DataLossProtectRequired, [SetInit, SetNodeAnn]),
      (GossipQueriesOptional, [SetInit, SetNodeAnn]),
      (TLVOnionPayloadOptional, [SetInit, SetNodeAnn, SetInvoice, SetInvoiceAmp, SetLegacyGlobal]),
      (StaticRemoteKeyRequired, [SetInit, SetNodeAnn, SetLegacyGlobal]),
      (UpfrontShutdownScriptOptional, [SetInit, SetNodeAnn]),
      (PaymentAddrRequired, [SetInit, SetNodeAnn, SetInvoice, SetInvoiceAmp]),
      (MPPOptional, [SetInit, SetNodeAnn, SetInvoice]),
      (AnchorsZeroFeeHtlcTxOptional, [SetInit, SetNodeAnn]),
      (WumboChannelsOptional, [SetInit, SetNodeAnn]),
      (AMPOptional, [SetInit, SetNodeAnn]),
      (AMPRequired, [SetInvoiceAmp]),
      (ExplicitChannelTypeOptional, [SetInit, SetNodeAnn]),
      (ScriptEnforcedLeaseOptional, [SetInit, SetNodeAnn])]"

subsection \<open>manager.go\<close>

record Config =
  NoTLVOnion :: bool
  NoStaticRemoteKey :: bool
  NoAnchors :: bool
  NoWumbo :: bool
  NoScriptEnforcementLease :: bool

type_synonym fsets = "Set \<rightharpoonup> RawFeatureVector"

definition addToSet :: "FeatureBit \<Rightarrow> Set \<Rightarrow> fsets \<Rightarrow> feature_error + fsets" where
  "addToSet b st fs =
     (let fv = (case fs st of None \<Rightarrow> NewRawFeatureVector [] | Some fv \<Rightarrow> fv)
      in case fv_SafeSet b fv of
           None \<Rightarrow> Inl (ErrSetFeature b)
         | Some fv' \<Rightarrow> Inr (fs(st \<mapsto> fv')))"

fun buildSets :: "(FeatureBit \<times> Set) list \<Rightarrow> fsets \<Rightarrow> feature_error + fsets" where
  "buildSets [] fs = Inr fs"
| "buildSets ((b, st) # rest) fs =
     (case addToSet b st fs of Inl e \<Rightarrow> Inl e | Inr fs' \<Rightarrow> buildSets rest fs')"

text \<open>The bits whose dependencies name the anchors bit, in the order of \<open>deps_list\<close>.\<close>

definition anchorDependents :: "FeatureBit list" where
  "anchorDependents =
     concat (map (\<lambda>(b, ds). map (\<lambda>_. b)
       (filter (\<lambda>d. d = AnchorsZeroFeeHtlcTxRequired \<or> d = AnchorsZeroFeeHtlcTxOptional) ds))
       deps_list)"

definition unsetBits :: "Config \<Rightarrow> FeatureBit list" where
  "unsetBits cfg =
     (if NoTLVOnion cfg
      then [TLVOnionPayloadOptional, TLVOnionPayloadRequired, PaymentAddrOptional,
            PaymentAddrRequired, MPPOptional, MPPRequired, AMPOptional, AMPRequired] else []) @
     (if NoStaticRemoteKey cfg then [StaticRemoteKeyOptional, StaticRemoteKeyRequired] else []) @
     (if NoAnchors cfg
      then [AnchorsZeroFeeHtlcTxOptional, AnchorsZeroFeeHtlcTxRequired] @ anchorDependents else []) @
     (if NoWumbo cfg then [WumboChannelsOptional, WumboChannelsRequired] else []) @
     (if NoScriptEnforcementLease cfg
      then [ScriptEnforcedLeaseOptional, ScriptEnforcedLeaseRequired] else [])"

definition applyConfig :: "Config \<Rightarrow> RawFeatureVector \<Rightarrow> feature_error + RawFeatureVector" where
  "applyConfig cfg raw =
     (let raw' = fold fv_Unset (unsetBits cfg) raw
      in case ValidateDeps (NewFeatureVector (Some raw') Features) of
           Some e \<Rightarrow> Inl (ErrInvalidFeatureSet e)
         | None \<Rightarrow> Inr raw')"

fun applyConfig_all :: "Config \<Rightarrow> Set list \<Rightarrow> fsets \<Rightarrow> feature_error + fsets" where
  "applyConfig_all cfg [] fs = Inr fs"
| "applyConfig_all cfg (st # rest) fs =
     (case fs st of
        None \<Rightarrow> applyConfig_all cfg rest fs
      | Some raw \<Rightarrow>
         (case applyConfig cfg raw of
            Inl e \<Rightarrow> Inl e
          | Inr raw' \<Rightarrow> applyConfig_all cfg rest (fs(st \<mapsto> raw'))))"

definition newManager :: "Config \<Rightarrow> setDesc \<Rightarrow> feature_error + fsets" where
  "newManager cfg desc =
     (case buildSets (concat (map (\<lambda>(b, sets). map (Pair b) sets) desc)) Map.empty of
        Inl e \<Rightarrow> Inl e
      | Inr fs \<Rightarrow>
         applyConfig_all cfg [SetInit, SetLegacyGlobal, SetNodeAnn, SetInvoice, SetInvoiceAmp] fs)"

definition NewManager :: "Config \<Rightarrow> feature_error + fsets" where
  "NewManager cfg = newManager cfg defaultSetDesc"

definition GetRaw :: "fsets \<Rightarrow> Set \<Rightarrow> RawFeatureVector" where
  "GetRaw m st = (case m st of Some fv \<Rightarrow> fv_Clone fv | None \<Rightarrow> NewRawFeatureVector [])"

definition Get :: "fsets \<Rightarrow> Set \<Rightarrow> FeatureVector" where
  "Get m st = NewFeatureVector (Some (GetRaw m st)) Features"

subsection \<open>What the manager hands out\<close>

lemma buildSets_pair_free:
  "buildSets todo fs = Inr fs' \<Longrightarrow> \<forall>s fv. fs s = Some fv \<longrightarrow> fv_pair_free fv \<Longrightarrow>
     fs' s = Some fv \<Longrightarrow> fv_pair_free fv"
proof (induction todo fs arbitrary: fs' rule: buildSets.induct)
  case (1 fs)
  then show ?case by auto
next
  case (2 b t rest fs)
  obtain fs1 where fs1: "addToSet b t fs = Inr fs1" and rest: "buildSets rest fs1 = Inr fs'"
    using "2.prems"(1) by (auto split: sum.splits)
  have "fv_pair_free fv" if "fs1 s = Some fv" for s fv
    using fs1 that "2.prems"(2) xor_one_xor_one [of b]
    by (auto simp: addToSet_def Let_def fv_SafeSet_def fv_Set_def fv_pair_free_def xor_one_eq_iff
        split: option.splits if_splits)
  then show ?case using "2.IH" [OF fs1 rest] "2.prems"(3) by auto
qed

lemma fold_fv_Unset: "fold fv_Unset bits fv = fv - set bits"
  by (induction bits arbitrary: fv) (auto simp: fv_Unset_def)

lemma applyConfig_Inr:
  assumes "applyConfig cfg raw = Inr raw'"
  shows "raw' = raw - set (unsetBits cfg)" and "deps_closed (mapToOptional ` raw')"
proof -
  have "raw' = fold fv_Unset (unsetBits cfg) raw \<and>
      ValidateDeps (NewFeatureVector (Some raw') Features) = None"
    using assms by (auto simp: applyConfig_def Let_def split: option.splits)
  then show "raw' = raw - set (unsetBits cfg)" and "deps_closed (mapToOptional ` raw')"
    by (auto simp: fold_fv_Unset ValidateDeps_iff NewFeatureVector_def)
qed

lemma applyConfig_all_Inr:
  "applyConfig_all cfg sets fs = Inr fs' \<Longrightarrow> distinct sets \<Longrightarrow> fs' s = Some fv \<Longrightarrow>
     (s \<notin> set sets \<and> fs s = Some fv) \<or>
     (s \<in> set sets \<and> (\<exists>raw. fs s = Some raw \<and> applyConfig cfg raw = Inr fv))"
proof (induction cfg sets fs arbitrary: fs' rule: applyConfig_all.induct)
  case (1 cfg fs)
  then show ?case by simp
next
  case (2 cfg t rest fs)
  show ?case
  proof (cases "fs t")
    case None
    then show ?thesis using "2.IH"(1) [OF None, of fs'] "2.prems" by auto
  next
    case (Some raw)
    obtain raw' where raw': "applyConfig cfg raw = Inr raw'"
      and rest: "applyConfig_all cfg rest (fs(t \<mapsto> raw')) = Inr fs'"
      using "2.prems"(1) Some by (auto split: sum.splits)
    have "(s \<notin> set rest \<and> (fs(t \<mapsto> raw')) s = Some fv) \<or>
        (s \<in> set rest \<and> (\<exists>raw. (fs(t \<mapsto> raw')) s = Some raw \<and> applyConfig cfg raw = Inr fv))"
      using "2.IH"(2) [OF Some raw' rest] "2.prems" by simp
    then show ?thesis
      using Some raw' "2.prems"(2) by (cases "s = t") auto
  qed
qed

lemma newManager_Inr:
  assumes "newManager cfg desc = Inr m" and "m s = Some fv"
  shows "deps_closed (mapToOptional ` fv) \<and> fv_pair_free fv \<and> fv \<inter> set (unsetBits cfg) = {}"
proof -
  obtain fs where fs: "buildSets (concat (map (\<lambda>(b, sets). map (Pair b) sets) desc)) Map.empty = Inr fs"
    and cfgd: "applyConfig_all cfg [SetInit, SetLegacyGlobal, SetNodeAnn, SetInvoice, SetInvoiceAmp] fs
      = Inr m"
    using assms(1) by (auto simp: newManager_def split: sum.splits)
  have "s \<in> set [SetInit, SetLegacyGlobal, SetNodeAnn, SetInvoice, SetInvoiceAmp]"
    by (cases s) auto
  then obtain raw where raw: "fs s = Some raw" and applied: "applyConfig cfg raw = Inr fv"
    using applyConfig_all_Inr [OF cfgd _ assms(2)] by auto
  have "fv_pair_free raw"
    using buildSets_pair_free [OF fs _ raw] by simp
  then show ?thesis
    using applyConfig_Inr [OF applied] by (auto simp: fv_pair_free_def)
qed

text \<open>The error of a failed dependency check names a bit that is really missing.\<close>

definition dep_rel :: "(FeatureBit \<times> FeatureBit) set" where
  "dep_rel = {(b, d). d \<in> set (deps b)}"

lemma validateDeps_error:
  "validateDeps fs m = Inl e \<Longrightarrow> memo_inv m \<Longrightarrow>
     \<exists>d. e = ErrMissingFeatureDep d \<and> m d = None \<and>
         (\<exists>b\<in>set fs. (mapToOptional b, d) \<in> dep_rel\<^sup>*)"
proof (induction fs m arbitrary: e rule: validateDeps.induct)
  case (1 m)
  then show ?case by simp
next
  case (2 b fs m)
  let ?b = "mapToOptional b"
  consider (missing) "m ?b = None" | (seen) "m ?b = Some True" | (fresh) "m ?b = Some False"
    by (cases "m ?b") auto
  then show ?case
  proof cases
    case missing
    then show ?thesis using "2.prems" by auto
  next
    case seen
    then show ?thesis using "2.IH"(1) [OF seen, of e] "2.prems" by auto
  next
    case fresh
    show ?thesis
    proof (cases "validateDeps (deps ?b) m")
      case (Inl e')
      then obtain d c where "e' = ErrMissingFeatureDep d" "m d = None"
        and c: "c \<in> set (deps ?b)" "(mapToOptional c, d) \<in> dep_rel\<^sup>*"
        using "2.IH"(2) [OF fresh _ Inl] "2.prems"(2) by blast
      moreover have "(?b, mapToOptional c) \<in> dep_rel"
        using c(1) mapToOptional_dep [OF c(1)] by (simp add: dep_rel_def)
      ultimately show ?thesis
        using fresh Inl "2.prems"(1)
        by (auto intro: converse_rtrancl_into_rtrancl)
    next
      case (Inr m1)
      define m2 where "m2 = m1(?b \<mapsto> True)"
      have m1: "memo_inv m1" "dom m1 = dom m"
        "\<forall>d\<in>set (deps ?b). m1 (mapToOptional d) = Some True"
        using validateDeps_sound [OF Inr "2.prems"(2)] by auto
      have "\<forall>d\<in>set (deps ?b). m1 d = Some True"
        using m1(3) mapToOptional_dep [of _ ?b] by metis
      then have "memo_inv m2" using m1(1) by (auto simp: memo_inv_def m2_def)
      moreover have "validateDeps fs m2 = Inl e"
        using "2.prems"(1) fresh Inr by (simp add: m2_def)
      ultimately obtain d where "e = ErrMissingFeatureDep d" "m2 d = None"
          "\<exists>c\<in>set fs. (mapToOptional c, d) \<in> dep_rel\<^sup>*"
        using "2.IH"(3) [OF fresh _ Inr, folded m2_def] by blast
      moreover have "m d = None"
        using \<open>m2 d = None\<close> m1(2) by (metis domIff fun_upd_apply m2_def option.distinct(1))
      ultimately show ?thesis by auto
    qed
  qed
qed

text \<open>The check on the default sets, as a Boolean condition on the configuration.\<close>

lemma mem_mapToOptional:
  assumes "\<not> FeatureBit_IsRequired b"
  shows "b \<in> mapToOptional ` S \<longleftrightarrow> b \<in> S \<or> b XOR 1 \<in> S"
proof -
  have "FeatureBit_IsRequired (b XOR 1)"
    using assms unfolding FeatureBit_IsRequired_def
    by (metis and_one_eq even_xor_iff odd_one one_and_eq zero_neq_one odd_iff_mod_2_eq_one even_iff_mod_2_eq_zero)
  then have "mapToOptional (b XOR 1) = b" and "mapToOptional b = b"
    using assms by (simp_all add: mapToOptional_def)
  moreover have "c = b \<or> c = b XOR 1" if "mapToOptional c = b" for c
    using that by (auto simp: mapToOptional_def xor_one_eq_iff split: if_splits)
  ultimately show ?thesis by force
qed

lemma deps_closed_iff_list:
  "deps_closed S \<longleftrightarrow> list_all (\<lambda>(b, ds). b \<in> S \<longrightarrow> set ds \<subseteq> S) deps_list"
proof -
  have "distinct (map fst deps_list)"
    by (simp add: deps_list_def feature_bit_defs)
  then have "(\<forall>b\<in>S. set (deps b) \<subseteq> S) \<longleftrightarrow> (\<forall>(b, ds)\<in>set deps_list. b \<in> S \<longrightarrow> set ds \<subseteq> S)"
    by (fastforce simp: deps_def dest: map_of_SomeD split: option.splits)
  then show ?thesis by (simp add: deps_closed_def list_all_iff)
qed

lemma applyConfig_isl_iff:
  "isl (applyConfig cfg raw) \<longleftrightarrow> \<not> deps_closed (mapToOptional ` (raw - set (unsetBits cfg)))"
proof -
  have "ValidateDeps (NewFeatureVector (Some (raw - set (unsetBits cfg))) Features) = None \<longleftrightarrow>
      deps_closed (mapToOptional ` (raw - set (unsetBits cfg)))"
    by (simp add: ValidateDeps_iff NewFeatureVector_def)
  then show ?thesis
    by (auto simp: applyConfig_def Let_def fold_fv_Unset split: option.splits)
qed

lemma applyConfig_all_isl_iff:
  "distinct sets \<Longrightarrow>
   isl (applyConfig_all cfg sets fs) \<longleftrightarrow> (\<exists>s\<in>set sets. \<exists>raw. fs s = Some raw \<and> isl (applyConfig cfg raw))"
proof (induction sets arbitrary: fs)
  case (Cons t sets)
  show ?case
  proof (cases "fs t")
    case (Some raw)
    show ?thesis
    proof (cases "applyConfig cfg raw")
      case (Inr raw')
      have "isl (applyConfig_all cfg sets (fs(t \<mapsto> raw'))) \<longleftrightarrow>
          (\<exists>s\<in>set sets. \<exists>raw. fs s = Some raw \<and> isl (applyConfig cfg raw))"
        using Cons by (auto simp: fun_upd_apply intro: rev_bexI)
      then show ?thesis using Some Inr by simp
    qed (use Some in simp)
  qed (use Cons in simp)
qed simp

definition defaultSets :: fsets where
  "defaultSets =
     [SetInit \<mapsto> {0, 7, 9, 12, 5, 14, 17, 23, 19, 31, 45, 2023},
      SetNodeAnn \<mapsto> {0, 7, 9, 12, 5, 14, 17, 23, 19, 31, 45, 2023},
      SetLegacyGlobal \<mapsto> {9, 12},
      SetInvoice \<mapsto> {9, 14, 17},
      SetInvoiceAmp \<mapsto> {9, 14, 30}]"

lemma buildSets_default:
  "buildSets (concat (map (\<lambda>(b, sets). map (Pair b) sets) defaultSetDesc)) Map.empty = Inr defaultSets"
  by (simp add: defaultSetDesc_def addToSet_def fv_SafeSet_def fv_Set_def feature_bit_defs Let_def)
    (auto simp: defaultSets_def fun_eq_iff)

lemma default_deps_closed:
  fixes cfg :: Config
  defines "U \<equiv> set (unsetBits cfg)"
  shows "deps_closed (mapToOptional ` ({9, 12} - U))"
    and "deps_closed (mapToOptional ` ({9, 14, 17} - U))"
    and "deps_closed (mapToOptional ` ({9, 14, 30} - U))"
    and "deps_closed (mapToOptional ` ({0, 7, 9, 12, 5, 14, 17, 23, 19, 31, 45, 2023} - U)) \<longleftrightarrow>
      \<not> (NoStaticRemoteKey cfg \<and> \<not> NoAnchors cfg)"
  unfolding U_def deps_closed_iff_list deps_list_def
  by (simp_all add: mem_mapToOptional feature_bit_defs FeatureBit_IsRequired_def unsetBits_def
      anchorDependents_def deps_list_def) blast

lemma NewManager_isl_iff:
  "isl (NewManager cfg) \<longleftrightarrow> NoStaticRemoteKey cfg \<and> \<not> NoAnchors cfg"
  by (auto simp: NewManager_def newManager_def buildSets_default applyConfig_all_isl_iff
      applyConfig_isl_iff default_deps_closed defaultSets_def simp del: applyConfig_all.simps)

subsection \<open>Properties\<close>

text \<open>
  C23: \<^verbatim>\<open>ValidateDeps\<close> accepts a feature vector exactly when, up to required and optional bits of a
  pair, every dependency of a set feature is set; when it rejects, the bit it reports is missing
  and is a transitive dependency of a feature that is set.
\<close>
theorem ValidateDeps_correct:
  "case ValidateDeps fv of
     None \<Rightarrow> deps_closed (mapToOptional ` RawFV fv)
   | Some e \<Rightarrow> \<not> deps_closed (mapToOptional ` RawFV fv) \<and>
       (\<exists>d. e = ErrMissingFeatureDep d \<and> d \<notin> mapToOptional ` RawFV fv \<and>
            (\<exists>b\<in>RawFV fv. (mapToOptional b, d) \<in> dep_rel\<^sup>+))"
proof (cases "ValidateDeps fv")
  case None
  then show ?thesis using ValidateDeps_iff [of fv] by simp
next
  case (Some e)
  let ?fs = "sorted_list_of_set (RawFV fv)"
  have err: "validateDeps ?fs (initSupported ?fs) = Inl e"
    using Some by (auto simp: ValidateDeps_def Let_def split: sum.splits)
  have "memo_inv (initSupported ?fs)" by (simp add: memo_inv_def initSupported_eq)
  from validateDeps_error [OF err this] obtain d b
    where "e = ErrMissingFeatureDep d" and d: "d \<notin> mapToOptional ` RawFV fv"
      and b: "b \<in> RawFV fv" "(mapToOptional b, d) \<in> dep_rel\<^sup>*"
    by (auto simp: initSupported_eq split: if_splits)
  moreover have "(mapToOptional b, d) \<in> dep_rel\<^sup>+"
    using b d by (auto simp: rtrancl_eq_or_trancl)
  ultimately show ?thesis using Some ValidateDeps_iff [of fv] by auto
qed

text \<open>
  C24: Every feature vector a successfully built manager hands out passes the dependency check,
  never sets both bits of a pair, and holds none of the bits the configuration removes.
\<close>
theorem NewManager_sets_valid:
  assumes "NewManager cfg = Inr m"
  shows "ValidateDeps (Get m s) = None \<and> fv_pair_free (GetRaw m s) \<and>
    GetRaw m s \<inter> set (unsetBits cfg) = {}"
proof (cases "m s")
  case None
  then show ?thesis
    by (simp add: GetRaw_def Get_def fv_pair_free_def ValidateDeps_iff NewFeatureVector_def
        deps_closed_def)
next
  case (Some fv)
  then show ?thesis
    using newManager_Inr [of cfg defaultSetDesc m s fv] assms
    by (simp add: NewManager_def GetRaw_def Get_def ValidateDeps_iff NewFeatureVector_def)
qed

definition defaultConfig :: Config where
  "defaultConfig = \<lparr>NoTLVOnion = False, NoStaticRemoteKey = False, NoAnchors = False,
     NoWumbo = False, NoScriptEnforcementLease = False\<rparr>"

theorem NewManager_sets_valid_witness:
  "\<exists>m. NewManager defaultConfig = Inr m \<and> ValidateDeps (Get m SetInvoiceAmp) = None \<and>
     fv_pair_free (GetRaw m SetInvoiceAmp)"
proof -
  have "\<not> isl (NewManager defaultConfig)"
    by (simp add: NewManager_isl_iff defaultConfig_def)
  then obtain m where "NewManager defaultConfig = Inr m"
    by (cases "NewManager defaultConfig") auto
  then show ?thesis using NewManager_sets_valid [of defaultConfig m SetInvoiceAmp] by simp
qed

text \<open>
  With the default sets, building a manager fails for exactly the configurations that disable
  static remote keys and keep the anchors that depend on them.
\<close>
theorem NewManager_fails_iff:
  "(\<exists>e. NewManager cfg = Inl e) \<longleftrightarrow> NoStaticRemoteKey cfg \<and> \<not> NoAnchors cfg"
  using NewManager_isl_iff [of cfg] by (cases "NewManager cfg") auto

end
