(* ===== verification/Wire_Ids.thy ===== *)
theory Wire_Ids
  imports Obd_Prelude
begin

text \<open>
  Amounts and identifiers of \<^verbatim>\<open>lnwire\<close>: \<^verbatim>\<open>msat.go\<close>, \<^verbatim>\<open>short_channel_id.go\<close> and \<^verbatim>\<open>channel_id.go\<close>.

  The Go types \<^verbatim>\<open>MilliSatoshi\<close>, \<^verbatim>\<open>UnitPrec11\<close> and \<^verbatim>\<open>UnitPrec8\<close> are \<^verbatim>\<open>uint64\<close>;
  \<^verbatim>\<open>btcutil.Amount\<close> and \<^verbatim>\<open>omnicore.Amount\<close> are \<^verbatim>\<open>int64\<close> and are kept as their 64 bits, so that
  the conversions between them are the identity on words.  A \<^verbatim>\<open>wire.OutPoint\<close> is a transaction
  hash and an output index.
\<close>

type_synonym MilliSatoshi = u64
type_synonym UnitPrec11 = u64
type_synonym UnitPrec8 = u64
type_synonym Amount = u64

subsection \<open>msat.go\<close>

definition mSatScale :: u64 where "mSatScale = 1000"
definition BtcAssetId :: u32 where "BtcAssetId = 0"
definition OmniGas :: Amount where "OmniGas = 546"
definition AssetMinHtlc :: UnitPrec11 where "AssetMinHtlc = 10000"

definition NewMSatFromSatoshis :: "Amount \<Rightarrow> MilliSatoshi" where
  "NewMSatFromSatoshis sat = sat * mSatScale"

definition MilliSatoshi_ToSatoshis :: "MilliSatoshi \<Rightarrow> Amount" where
  "MilliSatoshi_ToSatoshis m = m div mSatScale"

definition UnitPrec8_ToMsat :: "UnitPrec8 \<Rightarrow> MilliSatoshi" where
  "UnitPrec8_ToMsat i = NewMSatFromSatoshis i"

definition UnitPrec8_ToSat :: "UnitPrec8 \<Rightarrow> Amount" where
  "UnitPrec8_ToSat i = i"

definition UnitPrec11_ToMsat :: "UnitPrec11 \<Rightarrow> MilliSatoshi" where
  "UnitPrec11_ToMsat i = i"

definition UnitPrec11_ToSat :: "UnitPrec11 \<Rightarrow> Amount" where
  "UnitPrec11_ToSat i = i div 1000"

definition LoadDefaultMinHtlc :: "u32 \<Rightarrow> u64 \<Rightarrow> UnitPrec11" where
  "LoadDefaultMinHtlc assetId minHtlc =
     (if assetId = BtcAssetId then minHtlc else AssetMinHtlc)"

subsection \<open>short\_channel\_id.go\<close>

record ShortChannelID =
  BlockHeight :: u32
  TxIndex :: u32
  TxPosition :: u16

definition NewShortChanIDFromInt :: "u64 \<Rightarrow> ShortChannelID" where
  "NewShortChanIDFromInt chanID =
     \<lparr>BlockHeight = ucast (drop_bit 40 chanID),
      TxIndex = ucast (drop_bit 16 chanID) AND 0xFFFFFF,
      TxPosition = ucast chanID\<rparr>"

definition ToUint64 :: "ShortChannelID \<Rightarrow> u64" where
  "ToUint64 c =
     push_bit 40 (ucast (BlockHeight c)) OR push_bit 16 (ucast (TxIndex c)) OR
     ucast (TxPosition c)"

text \<open>The two fields the protocol limits to three bytes.\<close>

definition scid_wf :: "ShortChannelID \<Rightarrow> bool" where
  "scid_wf c \<longleftrightarrow> BlockHeight c < 2 ^ 24 \<and> TxIndex c < 2 ^ 24"

subsection \<open>channel\_id.go\<close>

type_synonym ChannelID = bytes
type_synonym Hash = bytes

record OutPoint =
  op_Hash :: Hash
  op_Index :: u32

definition MaxFundingTxOutputs :: nat where "MaxFundingTxOutputs = 65535"

definition ConnectionWideID :: ChannelID where
  "ConnectionWideID = replicate 32 0"

definition xorTxid :: "ChannelID \<Rightarrow> u16 \<Rightarrow> ChannelID" where
  "xorTxid cid outputIndex =
     (let buf = PutUint16 outputIndex; cid' = cid[30 := cid ! 30 XOR buf ! 0]
      in cid'[31 := cid' ! 31 XOR buf ! 1])"

definition NewChanIDFromOutPoint :: "OutPoint \<Rightarrow> ChannelID" where
  "NewChanIDFromOutPoint op = xorTxid (op_Hash op) (ucast (op_Index op))"

definition GenPossibleOutPoints :: "ChannelID \<Rightarrow> OutPoint list" where
  "GenPossibleOutPoints c =
     map (\<lambda>i. \<lparr>op_Hash = xorTxid c (word_of_nat i), op_Index = ucast (word_of_nat i :: u16)\<rparr>)
       [0..<MaxFundingTxOutputs]"

definition IsChanPoint :: "ChannelID \<Rightarrow> OutPoint \<Rightarrow> bool" where
  "IsChanPoint c op \<longleftrightarrow> NewChanIDFromOutPoint op = c"

subsection \<open>Lemmas\<close>

lemma unat_power_of_two:
  assumes "n < LENGTH('a)"
  shows "unat (2 ^ n :: 'a::len word) = 2 ^ n"
proof -
  have "(2 ^ n :: 'a word) = word_of_nat (2 ^ n)" by simp
  then have "unat (2 ^ n :: 'a word) = 2 ^ n mod 2 ^ LENGTH('a)"
    by (simp only: unat_of_nat)
  also have "\<dots> = 2 ^ n"
    using assms by (intro mod_less power_strict_increasing) simp_all
  finally show ?thesis .
qed

lemma word_less_power_bit:
  fixes v :: "'a::len word"
  assumes "v < 2 ^ n" and "n < LENGTH('a)" and "bit v i"
  shows "i < n"
proof -
  have "unat v < 2 ^ n"
    using assms(1) by (simp add: word_less_nat_alt unat_power_of_two [OF assms(2)])
  then have "take_bit n (unat v) = unat v"
    by (simp add: take_bit_nat_eq_self_iff)
  moreover have "bit (unat v) i"
    using assms(3) by (simp add: bit_unsigned_iff bit_imp_le_length)
  ultimately show ?thesis
    by (metis bit_take_bit_iff)
qed

lemma bit_ToUint64:
  "bit (ToUint64 c) n \<longleftrightarrow>
     n < 64 \<and> ((40 \<le> n \<and> bit (BlockHeight c) (n - 40)) \<or> (16 \<le> n \<and> bit (TxIndex c) (n - 16)) \<or>
       bit (TxPosition c) n)"
  using bit_imp_le_length [of "BlockHeight c" "n - 40"] bit_imp_le_length [of "TxIndex c" "n - 16"]
    bit_imp_le_length [of "TxPosition c" n]
  by (auto simp: ToUint64_def bit_simps)

lemma mask24: "(0xFFFFFF :: u32) = mask 24"
  by (simp add: mask_eq_exp_minus_1)

lemma bit_NewShortChanIDFromInt:
  "bit (BlockHeight (NewShortChanIDFromInt x)) n \<longleftrightarrow> n < 24 \<and> bit x (40 + n)"
  "bit (TxIndex (NewShortChanIDFromInt x)) n \<longleftrightarrow> n < 24 \<and> bit x (16 + n)"
  "bit (TxPosition (NewShortChanIDFromInt x)) n \<longleftrightarrow> n < 16 \<and> bit x n"
  using bit_imp_le_length [of x "40 + n"]
  by (auto simp: NewShortChanIDFromInt_def bit_simps mask24)

lemma ToUint64_NewShortChanIDFromInt: "ToUint64 (NewShortChanIDFromInt x) = x"
proof (rule bit_word_eqI)
  fix n :: nat
  assume "n < LENGTH(64)"
  then show "bit (ToUint64 (NewShortChanIDFromInt x)) n = bit x n"
    by (cases "n < 16"; cases "n < 40") (auto simp: bit_ToUint64 bit_NewShortChanIDFromInt)
qed

lemma NewShortChanIDFromInt_ToUint64:
  assumes "scid_wf c"
  shows "NewShortChanIDFromInt (ToUint64 c) = c"
proof -
  have B: "\<And>i. bit (BlockHeight c) i \<Longrightarrow> i < 24" and T: "\<And>i. bit (TxIndex c) i \<Longrightarrow> i < 24"
    using assms word_less_power_bit [of "BlockHeight c" 24] word_less_power_bit [of "TxIndex c" 24]
    by (simp_all add: scid_wf_def)
  have P: "\<And>i. bit (TxPosition c) i \<Longrightarrow> i < 16"
    using bit_imp_le_length by fastforce
  have "BlockHeight (NewShortChanIDFromInt (ToUint64 c)) = BlockHeight c"
    and "TxIndex (NewShortChanIDFromInt (ToUint64 c)) = TxIndex c"
    and "TxPosition (NewShortChanIDFromInt (ToUint64 c)) = TxPosition c"
    by (rule bit_word_eqI; use B T P in \<open>force simp: bit_NewShortChanIDFromInt bit_ToUint64\<close>)+
  then show ?thesis by simp
qed

lemma ToUint64_inject: "scid_wf c \<Longrightarrow> scid_wf d \<Longrightarrow> ToUint64 c = ToUint64 d \<longleftrightarrow> c = d"
  by (metis NewShortChanIDFromInt_ToUint64)

lemma xorTxid_involution [simp]: "length cid = 32 \<Longrightarrow> xorTxid (xorTxid cid i) i = cid"
  by (rule nth_equalityI) (auto simp: xorTxid_def Let_def xor.assoc nth_list_update)

lemma length_xorTxid [simp]: "length (xorTxid cid i) = length cid"
  by (simp add: xorTxid_def Let_def)

lemma word_less_power_bitI:
  fixes v :: "'a::len word"
  assumes "\<And>i. bit v i \<Longrightarrow> i < n" and "n < LENGTH('a)"
  shows "v < 2 ^ n"
proof -
  have "take_bit n v = v"
    using assms(1) by (intro bit_word_eqI) (auto simp: bit_simps)
  then have "unat v = take_bit n (unat v)"
    using assms(2) by (metis unsigned_take_bit_eq)
  then have "unat v < 2 ^ n"
    by (metis take_bit_nat_less_exp)
  then show ?thesis
    by (simp add: word_less_nat_alt unat_power_of_two [OF assms(2)])
qed

lemma scid_wf_NewShortChanIDFromInt: "scid_wf (NewShortChanIDFromInt x)"
  by (auto simp: scid_wf_def bit_NewShortChanIDFromInt intro!: word_less_power_bitI [where n = 24, simplified])

lemma ucast_u16_u32 [simp]: "ucast (ucast (x :: u16) :: u32) = x"
  by (rule bit_word_eqI) (simp add: bit_simps)

lemma u32_via_u16:
  assumes "unat (v :: u32) < 2 ^ 16"
  shows "word_of_nat (unat v) = (ucast v :: u16)" and "ucast (ucast v :: u16) = v"
proof -
  have "bit v i \<Longrightarrow> i < 16" for i
    using assms word_less_power_bit [of v 16 i]
    by (simp add: word_less_nat_alt)
  then show "ucast (ucast v :: u16) = v"
    by (intro bit_word_eqI) (auto simp: bit_simps)
  show "word_of_nat (unat v) = (ucast v :: u16)"
    by (rule bit_word_eqI) (auto simp: bit_simps)
qed

lemma NewChanIDFromOutPoint_Gen:
  assumes "length c = 32" and "i < MaxFundingTxOutputs"
  shows "NewChanIDFromOutPoint (GenPossibleOutPoints c ! i) = c"
  using assms by (simp add: GenPossibleOutPoints_def NewChanIDFromOutPoint_def)

subsection \<open>Properties\<close>

text \<open>
  The compact 64-bit form of a short channel id is a faithful code: every 64-bit number is the
  compact form of the id it unpacks to, that id respects the three-byte limits, and every id
  within the limits is recovered from its compact form.
\<close>
theorem short_channel_id_packing:
  "ToUint64 (NewShortChanIDFromInt x) = x \<and> scid_wf (NewShortChanIDFromInt x) \<and>
   (scid_wf c \<longrightarrow> NewShortChanIDFromInt (ToUint64 c) = c)"
  by (simp add: ToUint64_NewShortChanIDFromInt scid_wf_NewShortChanIDFromInt
      NewShortChanIDFromInt_ToUint64)

theorem short_channel_id_packing_witness:
  "NewShortChanIDFromInt (ToUint64 \<lparr>BlockHeight = 500000, TxIndex = 77, TxPosition = 3\<rparr>) =
     \<lparr>BlockHeight = 500000, TxIndex = 77, TxPosition = 3\<rparr>"
proof -
  have "scid_wf \<lparr>BlockHeight = 500000, TxIndex = 77, TxPosition = 3\<rparr>"
    by (simp add: scid_wf_def)
  then show ?thesis using short_channel_id_packing by blast
qed

text \<open>
  The brute-force reverse mapping from a channel id finds its funding outpoint: the outpoint
  at each allowed index is among the candidates, at the position of its index, and every
  candidate is indeed a funding outpoint of that channel id.
\<close>
theorem GenPossibleOutPoints_correct:
  assumes "length (op_Hash op) = 32" and "unat (op_Index op) < MaxFundingTxOutputs"
  shows "GenPossibleOutPoints (NewChanIDFromOutPoint op) ! unat (op_Index op) = op \<and>
    list_all (IsChanPoint (NewChanIDFromOutPoint op)) (GenPossibleOutPoints (NewChanIDFromOutPoint op))"
proof -
  let ?cid = "NewChanIDFromOutPoint op"
  have len: "length ?cid = 32" using assms(1) by (simp add: NewChanIDFromOutPoint_def)
  have idx: "unat (op_Index op) < 2 ^ 16" using assms(2) by (simp add: MaxFundingTxOutputs_def)
  have "GenPossibleOutPoints ?cid ! unat (op_Index op) = op"
    using assms u32_via_u16 [OF idx]
    by (simp add: GenPossibleOutPoints_def NewChanIDFromOutPoint_def)
  moreover have "length (GenPossibleOutPoints ?cid) = MaxFundingTxOutputs"
    by (simp add: GenPossibleOutPoints_def)
  ultimately show ?thesis
    using NewChanIDFromOutPoint_Gen [OF len] by (simp add: list_all_length IsChanPoint_def)
qed

theorem GenPossibleOutPoints_correct_witness:
  "GenPossibleOutPoints (NewChanIDFromOutPoint \<lparr>op_Hash = replicate 32 7, op_Index = 258\<rparr>) ! 258 =
     \<lparr>op_Hash = replicate 32 7, op_Index = 258\<rparr>"
  using GenPossibleOutPoints_correct [of "\<lparr>op_Hash = replicate 32 7, op_Index = 258\<rparr>"]
  by (simp add: MaxFundingTxOutputs_def)

text \<open>
  Converting satoshis to millisatoshis is exact, and converting back gives the same amount, as
  long as the amount is at most 18446744073709551 satoshis; beyond that the 64-bit product wraps
  around, as it does one satoshi later.
\<close>
theorem satoshi_conversion_exact:
  assumes "sat \<le> 18446744073709551"
  shows "unat (NewMSatFromSatoshis sat) = 1000 * unat sat \<and>
    MilliSatoshi_ToSatoshis (NewMSatFromSatoshis sat) = sat \<and>
    UnitPrec11_ToSat (UnitPrec8_ToMsat sat) = UnitPrec8_ToSat sat \<and>
    NewMSatFromSatoshis 18446744073709552 < NewMSatFromSatoshis 18446744073709551"
proof -
  have "unat sat * 1000 < 2 ^ 64"
    using assms by (simp add: word_le_nat_alt)
  then have exact: "unat (sat * 1000) = unat sat * 1000"
    by (simp add: unat_word_ariths)
  then have "unat (sat * 1000 div 1000) = unat sat"
    by (simp add: unat_div)
  then have "sat * 1000 div 1000 = sat"
    by (simp add: word_unat_eq_iff)
  with exact show ?thesis
    by (simp add: NewMSatFromSatoshis_def mSatScale_def MilliSatoshi_ToSatoshis_def
        UnitPrec11_ToSat_def UnitPrec8_ToMsat_def UnitPrec8_ToSat_def)
qed

theorem satoshi_conversion_exact_witness:
  "MilliSatoshi_ToSatoshis (NewMSatFromSatoshis 2100000000000000) = 2100000000000000"
  using satoshi_conversion_exact [of 2100000000000000] by simp

end
