(* ===== verification/Wire_Primitives.thy ===== *)
theory Wire_Primitives
  imports Wire_Features Wire_Ids
begin

text \<open>
  The field codecs of \<^verbatim>\<open>lnwire\<close>: the \<^verbatim>\<open>Write\<close> functions of \<^verbatim>\<open>writer.go\<close> and, for each type,
  the case of the type switch of \<^verbatim>\<open>ReadElement\<close> in \<^verbatim>\<open>lnwire.go\<close> that reads it back (named
  \<open>Read_\<close> and the Go type).  A reader that stores through a pointer takes the value the pointer
  had before where the code leaves it unchanged on some path.

  Code of other modules enters as the record \<open>ext\<close>: the compressed form of public keys
  (\<^verbatim>\<open>btcec\<close>), variable length byte strings (\<^verbatim>\<open>btcd/wire\<close>), the onion address encoding
  (\<^verbatim>\<open>lnd/tor\<close>), TLV streams (\<^verbatim>\<open>lnd/tlv\<close>) and the compression of \<^verbatim>\<open>compress/zlib\<close>.  What the
  message codecs rely on of them is stated by the predicates \<open>pubkey_ok\<close>, \<open>base32_ok\<close>,
  \<open>tlv_ok\<close> and \<open>zlib_ok\<close> in the theories that use them.

  Every codec is an interpretation of \<open>wire_codec\<close>, which gives that its layouts are prefix
  free and that loops over it are codecs again.
\<close>

datatype tlv_value =
    DeliveryAddressV bytes
  | ChannelTypeV RawFeatureVector
  | LeaseExpiryV u32

record 'pk ext =
  SerializeCompressed :: "'pk \<Rightarrow> bytes"
  ParsePubKey :: "bytes \<Rightarrow> 'pk option"
  wire_VarBytes :: "bytes \<Rightarrow> bytes"
  wire_ReadVarBytes :: "nat \<Rightarrow> bytes reader"
  tor_DecodeString :: "string \<Rightarrow> bytes option"
  tor_EncodeToString :: "bytes \<Rightarrow> string"
  tor_OnionSuffix :: string
  tor_V2Len :: nat
  tor_V3Len :: nat
  tor_V2DecodedLen :: nat
  tor_V3DecodedLen :: nat
  tlv_Encode :: "(u64 \<times> bytes) list \<Rightarrow> wire_error + bytes"
  tlv_DecodeWithParsedTypes ::
    "(u64 \<times> (bytes \<Rightarrow> wire_error + tlv_value)) list \<Rightarrow> bytes \<Rightarrow> wire_error + (u64 \<times> tlv_value) list"
  tlv_EVarBytes :: "bytes \<Rightarrow> bytes"
  tlv_DVarBytes :: "bytes \<Rightarrow> wire_error + bytes"
  tlv_EUint32T :: "u32 \<Rightarrow> bytes"
  tlv_DUint32 :: "bytes \<Rightarrow> wire_error + u32"
  zlib_Compress :: "bytes \<Rightarrow> bytes"
  zlib_NewReader :: "bytes \<Rightarrow> wire_error + bytes \<times> wire_error"

definition pubkey_ok :: "('pk, 'z) ext_scheme \<Rightarrow> bool" where
  "pubkey_ok x \<longleftrightarrow>
     (\<forall>k. length (SerializeCompressed x k) = 33 \<and> ParsePubKey x (SerializeCompressed x k) = Some k)"

text \<open>
  A TLV stream of records in strictly increasing order of their types, each at most 65535 bytes
  long, is encoded without an error, and a decoder that knows the types of all its records gives
  back what the record decoders make of the record bytes.
\<close>

definition tlv_ok :: "('pk, 'z) ext_scheme \<Rightarrow> bool" where
  "tlv_ok x \<longleftrightarrow>
     (\<forall>b. tlv_DVarBytes x (tlv_EVarBytes x b) = Inr b \<and> length (tlv_EVarBytes x b) = length b) \<and>
     (\<forall>v. tlv_DUint32 x (tlv_EUint32T x v) = Inr v \<and> length (tlv_EUint32T x v) = 4) \<and>
     (\<forall>recs decs vals.
        sorted_wrt (<) (map fst recs) \<and> sorted_wrt (<) (map fst decs) \<and>
        list_all2 (\<lambda>(t, b) (t', v). t = t' \<and> length b \<le> 65535 \<and>
          (\<exists>d. map_of decs t = Some d \<and> d b = Inr v)) recs vals \<longrightarrow>
        (\<exists>bs. tlv_Encode x recs = Inr bs \<and> tlv_DecodeWithParsedTypes x decs bs = Inr vals))"

text \<open>
  A zlib reader is the bytes it delivers and the error it ends with, \<^verbatim>\<open>io.EOF\<close> for a complete
  stream; creating it may already fail on the header.
\<close>

definition zlib_ok :: "('pk, 'z) ext_scheme \<Rightarrow> bool" where
  "zlib_ok x \<longleftrightarrow>
     (\<forall>b. zlib_Compress x b \<noteq> [] \<and> zlib_NewReader x (zlib_Compress x b) = Inr (b, EOF))"

subsection \<open>Integers, amounts, flags\<close>

definition WriteUint8 :: "byte \<Rightarrow> writer" where
  "WriteUint8 n = WriteBytes [n]"

definition WriteUint16 :: "u16 \<Rightarrow> writer" where
  "WriteUint16 n = WriteBytes (PutUint16 n)"

definition WriteUint32 :: "u32 \<Rightarrow> writer" where
  "WriteUint32 n = WriteBytes (PutUint32 n)"

definition WriteUint64 :: "u64 \<Rightarrow> writer" where
  "WriteUint64 n = WriteBytes (PutUint64 n)"

definition WriteSatoshi :: "Amount \<Rightarrow> writer" where
  "WriteSatoshi amount = WriteUint64 amount"

definition WriteAssetMinUnit :: "Amount \<Rightarrow> writer" where
  "WriteAssetMinUnit amount = WriteUint64 amount"

definition WriteMilliSatoshi :: "MilliSatoshi \<Rightarrow> writer" where
  "WriteMilliSatoshi amount = WriteUint64 amount"

definition WriteFailCode :: "u16 \<Rightarrow> writer" where
  "WriteFailCode e = WriteUint16 e"

definition WriteShortChanIDEncoding :: "byte \<Rightarrow> writer" where
  "WriteShortChanIDEncoding e = WriteUint8 e"

definition WriteFundingFlag :: "byte \<Rightarrow> writer" where
  "WriteFundingFlag flag = WriteUint8 flag"

definition WriteChanUpdateMsgFlags :: "byte \<Rightarrow> writer" where
  "WriteChanUpdateMsgFlags f = WriteUint8 f"

definition WriteChanUpdateChanFlags :: "byte \<Rightarrow> writer" where
  "WriteChanUpdateChanFlags f = WriteUint8 f"

definition WriteBool :: "bool \<Rightarrow> writer" where
  "WriteBool b = (if b then WriteBytes [1] else WriteBytes [0])"

definition Read_uint8 :: "byte reader" where
  "Read_uint8 = rbind (ReadFull 1) (\<lambda>b. rret (b ! 0))"

definition Read_uint16 :: "u16 reader" where
  "Read_uint16 = rbind (ReadFull 2) (\<lambda>b. rret (BigEndianUint16 b))"

definition Read_uint32 :: "u32 reader" where
  "Read_uint32 = rbind (ReadFull 4) (\<lambda>b. rret (BigEndianUint32 b))"

definition Read_uint64 :: "u64 reader" where
  "Read_uint64 = rbind (ReadFull 8) (\<lambda>b. rret (BigEndianUint64 b))"

definition Read_UnitPrec8 :: "UnitPrec8 reader" where
  "Read_UnitPrec8 = rbind (ReadFull 8) (\<lambda>b. rret (BigEndianUint64 b))"

definition Read_UnitPrec11 :: "UnitPrec11 reader" where
  "Read_UnitPrec11 = rbind (ReadFull 8) (\<lambda>b. rret (BigEndianUint64 b))"

definition Read_MilliSatoshi :: "MilliSatoshi reader" where
  "Read_MilliSatoshi = rbind (ReadFull 8) (\<lambda>b. rret (BigEndianUint64 b))"

definition Read_btcAmount :: "Amount reader" where
  "Read_btcAmount = rbind (ReadFull 8) (\<lambda>b. rret (BigEndianUint64 b))"

definition Read_omniAmount :: "Amount reader" where
  "Read_omniAmount = rbind (ReadFull 8) (\<lambda>b. rret (BigEndianUint64 b))"

definition Read_FailCode :: "u16 reader" where
  "Read_FailCode = Read_uint16"

definition Read_ShortChanIDEncoding :: "byte reader" where
  "Read_ShortChanIDEncoding = rbind (ReadFull 1) (\<lambda>b. rret (b ! 0))"

definition Read_FundingFlag :: "byte reader" where
  "Read_FundingFlag = rbind (ReadFull 1) (\<lambda>b. rret (b ! 0))"

definition Read_ChanUpdateMsgFlags :: "byte reader" where
  "Read_ChanUpdateMsgFlags = rbind (ReadFull 1) (\<lambda>b. rret (b ! 0))"

definition Read_ChanUpdateChanFlags :: "byte reader" where
  "Read_ChanUpdateChanFlags = rbind (ReadFull 1) (\<lambda>b. rret (b ! 0))"

text \<open>\<^verbatim>\<open>*e = true\<close> only if the byte is 1; otherwise the target keeps its value.\<close>

definition Read_bool :: "bool \<Rightarrow> bool reader" where
  "Read_bool old = rbind (ReadFull 1) (\<lambda>b. rret (if b ! 0 = 1 then True else old))"

lemmas int_codec_defs [wire_defs] =
  WriteUint8_def WriteUint16_def WriteUint32_def WriteUint64_def WriteSatoshi_def
  WriteAssetMinUnit_def WriteMilliSatoshi_def WriteFailCode_def WriteShortChanIDEncoding_def
  WriteFundingFlag_def WriteChanUpdateMsgFlags_def WriteChanUpdateChanFlags_def

lemmas int_read_defs [wire_defs] =
  Read_uint8_def Read_uint16_def Read_uint32_def Read_uint64_def Read_UnitPrec8_def
  Read_UnitPrec11_def Read_MilliSatoshi_def Read_btcAmount_def Read_omniAmount_def
  Read_FailCode_def Read_ShortChanIDEncoding_def Read_FundingFlag_def Read_ChanUpdateMsgFlags_def
  Read_ChanUpdateChanFlags_def

lemma Read_byte_Cons [wire_simps]:
  "Read_uint8 (n # rest) = Inr (n, rest)"
  "Read_ShortChanIDEncoding (n # rest) = Inr (n, rest)"
  "Read_FundingFlag (n # rest) = Inr (n, rest)"
  "Read_ChanUpdateMsgFlags (n # rest) = Inr (n, rest)"
  "Read_ChanUpdateChanFlags (n # rest) = Inr (n, rest)"
  using ReadFull_append [of "[n]" 1 rest]
  by (simp_all add: int_read_defs rbind_def rret_apply)

lemma Read_int_ser [wire_simps]:
  "Read_uint16 (PutUint16 a @ rest) = Inr (a, rest)"
  "Read_FailCode (PutUint16 a @ rest) = Inr (a, rest)"
  "Read_uint32 (PutUint32 b @ rest) = Inr (b, rest)"
  "Read_uint64 (PutUint64 c @ rest) = Inr (c, rest)"
  "Read_UnitPrec8 (PutUint64 c @ rest) = Inr (c, rest)"
  "Read_UnitPrec11 (PutUint64 c @ rest) = Inr (c, rest)"
  "Read_MilliSatoshi (PutUint64 c @ rest) = Inr (c, rest)"
  "Read_btcAmount (PutUint64 c @ rest) = Inr (c, rest)"
  "Read_omniAmount (PutUint64 c @ rest) = Inr (c, rest)"
  by (simp_all add: int_read_defs rbind_def rret_apply ReadFull_append)

interpretation uint8: wire_codec WriteUint8 "\<lambda>n. [n]" Read_uint8 "\<lambda>_. True"
  by unfold_locales (simp_all add: int_codec_defs wire_simps)

interpretation uint16: wire_codec WriteUint16 PutUint16 Read_uint16 "\<lambda>_. True"
  by unfold_locales (simp_all add: int_codec_defs wire_simps)

interpretation uint32: wire_codec WriteUint32 PutUint32 Read_uint32 "\<lambda>_. True"
  by unfold_locales (simp_all add: int_codec_defs wire_simps)

interpretation uint64: wire_codec WriteUint64 PutUint64 Read_uint64 "\<lambda>_. True"
  by unfold_locales (simp_all add: int_codec_defs wire_simps)

definition bool_ser :: "bool \<Rightarrow> bytes" where
  "bool_ser b = (if b then [1] else [0])"

lemma WriteBool_apply [wire_simps]: "WriteBool b buf = (buf @ bool_ser b, None)"
  by (simp add: WriteBool_def bool_ser_def WriteBytes_apply)

lemma Read_bool_ser [wire_simps]: "Read_bool old (bool_ser b @ rest) = Inr (b \<or> old, rest)"
  using ReadFull_append [of "[if b then 1 else 0]" 1 rest]
  by (simp add: Read_bool_def bool_ser_def rbind_def rret_apply split: if_splits)

interpretation boolean: wire_codec WriteBool bool_ser "Read_bool False" "\<lambda>_. True"
  by unfold_locales (simp_all add: wire_simps)

subsection \<open>Fixed-size byte arrays, signatures, public keys\<close>

type_synonym Sig = bytes

definition WriteChannelID :: "ChannelID \<Rightarrow> writer" where
  "WriteChannelID channelID = WriteBytes channelID"

definition WriteNodeAlias :: "bytes \<Rightarrow> writer" where
  "WriteNodeAlias alias = WriteBytes alias"

definition WriteSig :: "Sig \<Rightarrow> writer" where
  "WriteSig sig = WriteBytes sig"

definition WriteSigs :: "Sig list \<Rightarrow> writer" where
  "WriteSigs sigs = wseq (WriteUint16 (word_of_nat (length sigs)) # map WriteSig sigs)"

definition WritePublicKey :: "('pk, 'z) ext_scheme \<Rightarrow> 'pk option \<Rightarrow> writer" where
  "WritePublicKey x pub =
     (case pub of None \<Rightarrow> wfail ErrNilPublicKey | Some k \<Rightarrow> WriteBytes (SerializeCompressed x k))"

text \<open>The cases \<^verbatim>\<open>[]byte\<close> and \<^verbatim>\<open>*[33]byte\<close>: the length is that of the target.\<close>

definition Read_bytes :: "nat \<Rightarrow> bytes reader" where
  "Read_bytes n = ReadFull n"

definition Read_ChannelID :: "ChannelID reader" where
  "Read_ChannelID = ReadFull 32"

definition Read_Sig :: "Sig reader" where
  "Read_Sig = ReadFull 64"

definition Read_Sigs :: "Sig list reader" where
  "Read_Sigs = rbind (ReadFull 2) (\<lambda>l.
     let numSigs = BigEndianUint16 l
     in if numSigs > 0 then rtimes (unat numSigs) Read_Sig else rret [])"

definition Read_PublicKey :: "('pk, 'z) ext_scheme \<Rightarrow> 'pk option reader" where
  "Read_PublicKey x = rbind (ReadFull 33) (\<lambda>b.
     case ParsePubKey x b of None \<Rightarrow> rfail ErrParsePubKey | Some k \<Rightarrow> rret (Some k))"

lemmas array_codec_defs [wire_defs] =
  WriteChannelID_def WriteNodeAlias_def WriteSig_def Read_bytes_def Read_ChannelID_def Read_Sig_def

lemma Read_array_append [wire_simps]:
  "length b = n \<Longrightarrow> Read_bytes n (b @ rest) = Inr (b, rest)"
  "length c = 32 \<Longrightarrow> Read_ChannelID (c @ rest) = Inr (c, rest)"
  "length s = 64 \<Longrightarrow> Read_Sig (s @ rest) = Inr (s, rest)"
  by (simp_all add: array_codec_defs ReadFull_append)

interpretation channel_id: wire_codec WriteChannelID "\<lambda>c. c" Read_ChannelID "\<lambda>c. length c = 32"
  by unfold_locales (simp_all add: WriteChannelID_def wire_simps)

interpretation sig: wire_codec WriteSig "\<lambda>s. s" Read_Sig "\<lambda>s. length s = 64"
  by unfold_locales (simp_all add: WriteSig_def wire_simps)

definition sigs_wf :: "Sig list \<Rightarrow> bool" where
  "sigs_wf sigs \<longleftrightarrow> length sigs < 2 ^ 16 \<and> list_all (\<lambda>s. length s = 64) sigs"

definition sigs_ser :: "Sig list \<Rightarrow> bytes" where
  "sigs_ser sigs = PutUint16 (word_of_nat (length sigs)) @ concat sigs"

lemma appends_WriteSigs_loop: "wseq (map WriteSig sigs) buf = (buf @ concat sigs, None)"
  by (induction sigs arbitrary: buf) (simp_all add: WriteSig_def WriteBytes_apply)

lemma WriteSigs_apply [wire_simps]: "WriteSigs sigs buf = (buf @ sigs_ser sigs, None)"
  by (simp add: WriteSigs_def WriteUint16_def WriteBytes_apply appends_WriteSigs_loop sigs_ser_def)

lemma Read_Sigs_ser [wire_simps]:
  assumes "sigs_wf sigs"
  shows "Read_Sigs (sigs_ser sigs @ rest) = Inr (sigs, rest)"
proof -
  have n: "unat (word_of_nat (length sigs) :: u16) = length sigs"
    using assms by (simp add: sigs_wf_def unat_of_nat)
  have "rtimes (length sigs) Read_Sig (concat sigs @ rest) = Inr (sigs, rest)"
    using sig.rtimes_dec [of sigs rest] assms by (simp add: sigs_wf_def)
  then show ?thesis
    using n by (auto simp: Read_Sigs_def sigs_ser_def rbind_def ReadFull_append rret_apply Let_def
        word_gt_0 simp flip: word_unat_eq_iff)
qed

interpretation sigs: wire_codec WriteSigs sigs_ser Read_Sigs sigs_wf
  by unfold_locales (simp_all add: wire_simps)

definition pubkey_ser :: "('pk, 'z) ext_scheme \<Rightarrow> 'pk option \<Rightarrow> bytes" where
  "pubkey_ser x pub = (case pub of None \<Rightarrow> [] | Some k \<Rightarrow> SerializeCompressed x k)"

lemma WritePublicKey_Some [wire_simps]:
  "pub \<noteq> None \<Longrightarrow> WritePublicKey x pub buf = (buf @ pubkey_ser x pub, None)"
  by (auto simp: WritePublicKey_def pubkey_ser_def WriteBytes_apply)

lemma Read_PublicKey_ser [wire_simps]:
  assumes "pubkey_ok x" and "pub \<noteq> None"
  shows "Read_PublicKey x (pubkey_ser x pub @ rest) = Inr (pub, rest)"
proof -
  obtain k where "pub = Some k" using assms(2) by auto
  moreover have "length (SerializeCompressed x k) = 33"
    and "ParsePubKey x (SerializeCompressed x k) = Some k"
    using assms(1) by (simp_all add: pubkey_ok_def)
  ultimately show ?thesis
    by (simp add: Read_PublicKey_def pubkey_ser_def rbind_def ReadFull_append rret_apply)
qed

lemma pubkey_wire_codec:
  "pubkey_ok x \<Longrightarrow>
     wire_codec (WritePublicKey x) (pubkey_ser x) (Read_PublicKey x) (\<lambda>pub. pub \<noteq> None)"
  by unfold_locales (simp_all add: wire_simps)

subsection \<open>Outpoints and short channel ids\<close>

definition WriteOutPoint :: "OutPoint \<Rightarrow> writer" where
  "WriteOutPoint p =
     (if op_Index p > 0xFFFF then wfail (ErrOutpointIndexTooBig (op_Index p))
      else wseq [WriteBytes (op_Hash p), WriteUint16 (ucast (op_Index p))])"

definition Read_OutPoint :: "OutPoint reader" where
  "Read_OutPoint = rbind (ReadFull 32) (\<lambda>h. rbind (ReadFull 2) (\<lambda>idx.
     rret \<lparr>op_Hash = h, op_Index = ucast (BigEndianUint16 idx)\<rparr>))"

definition outpoint_wf :: "OutPoint \<Rightarrow> bool" where
  "outpoint_wf p \<longleftrightarrow> length (op_Hash p) = 32 \<and> op_Index p \<le> 0xFFFF"

definition outpoint_ser :: "OutPoint \<Rightarrow> bytes" where
  "outpoint_ser p = op_Hash p @ PutUint16 (ucast (op_Index p))"

definition WriteShortChannelID :: "ShortChannelID \<Rightarrow> writer" where
  "WriteShortChannelID c =
     (if BlockHeight c > 0xFFFFFF then wfail ErrBlockHeightTooBig
      else wseq [WriteBytes (drop 1 (PutUint32 (BlockHeight c))),
        (if TxIndex c > 0xFFFFFF then wfail ErrTxIndexTooBig
         else wseq [WriteBytes (drop 1 (PutUint32 (TxIndex c))), WriteUint16 (TxPosition c)])])"

definition Read_ShortChannelID :: "ShortChannelID reader" where
  "Read_ShortChannelID = rbind (ReadFull 3) (\<lambda>blockHeight. rbind (ReadFull 3) (\<lambda>txIndex.
     rbind (ReadFull 2) (\<lambda>txPosition.
       rret \<lparr>BlockHeight = BigEndianUint32 (0 # blockHeight),
             TxIndex = BigEndianUint32 (0 # txIndex),
             TxPosition = BigEndianUint16 txPosition\<rparr>)))"

definition scid_ser :: "ShortChannelID \<Rightarrow> bytes" where
  "scid_ser c = drop 1 (PutUint32 (BlockHeight c)) @ drop 1 (PutUint32 (TxIndex c)) @
     PutUint16 (TxPosition c)"

lemma length_scid_ser [simp]: "length (scid_ser c) = 8"
  by (simp add: scid_ser_def)

lemma u32_le_mask16: "v \<le> 0xFFFF \<Longrightarrow> ucast (ucast (v :: u32) :: u16) = v"
  using u32_via_u16(2) [of v] by (simp add: word_le_nat_alt)

text \<open>A value below \<open>2 ^ 24\<close> has a zero first byte, which is the one not written.\<close>

lemma three_byte_uint32:
  assumes "v \<le> 0xFFFFFF"
  shows "BigEndianUint32 (0 # drop 1 (PutUint32 v)) = v"
proof -
  have "v < 2 ^ 24" using assms by (simp add: word_le_nat_alt word_less_nat_alt)
  then have "bit v i \<Longrightarrow> i < 24" for i using word_less_power_bit [of v 24 i] by simp
  then have "(ucast (drop_bit 24 v) :: byte) = 0"
    by (intro bit_word_eqI) (auto simp: bit_simps)
  then have "PutUint32 v = 0 # drop 1 (PutUint32 v)"
    by (simp add: PutUint32_def)
  then show ?thesis
    by (metis PutUint_inverse_Nil(2))
qed

lemma scid_wf_iff: "scid_wf c \<longleftrightarrow> BlockHeight c \<le> 0xFFFFFF \<and> TxIndex c \<le> 0xFFFFFF"
proof -
  have "v < 2 ^ 24 \<longleftrightarrow> v \<le> 0xFFFFFF" for v :: u32
    by (simp add: word_le_nat_alt word_less_nat_alt) linarith
  then show ?thesis by (simp add: scid_wf_def)
qed

lemma WriteOutPoint_apply [wire_simps]:
  "outpoint_wf p \<Longrightarrow> WriteOutPoint p buf = (buf @ outpoint_ser p, None)"
  by (simp add: WriteOutPoint_def outpoint_wf_def outpoint_ser_def WriteBytes_apply WriteUint16_def
      leD)

lemma Read_OutPoint_ser [wire_simps]:
  "outpoint_wf p \<Longrightarrow> Read_OutPoint (outpoint_ser p @ rest) = Inr (p, rest)"
  by (simp add: Read_OutPoint_def outpoint_wf_def outpoint_ser_def rbind_def ReadFull_append
      rret_apply u32_le_mask16)

lemma WriteShortChannelID_apply [wire_simps]:
  "scid_wf c \<Longrightarrow> WriteShortChannelID c buf = (buf @ scid_ser c, None)"
  by (simp add: WriteShortChannelID_def scid_wf_iff scid_ser_def WriteBytes_apply WriteUint16_def
      leD)

lemma Read_ShortChannelID_ser [wire_simps]:
  "scid_wf c \<Longrightarrow> Read_ShortChannelID (scid_ser c @ rest) = Inr (c, rest)"
  using three_byte_uint32 [of "BlockHeight c"] three_byte_uint32 [of "TxIndex c"]
  by (simp add: Read_ShortChannelID_def scid_wf_iff scid_ser_def rbind_def ReadFull_append
      rret_apply)

interpretation outpoint: wire_codec WriteOutPoint outpoint_ser Read_OutPoint outpoint_wf
  by unfold_locales (simp_all add: wire_simps)

interpretation scid: wire_codec WriteShortChannelID scid_ser Read_ShortChannelID scid_wf
  by unfold_locales (simp_all add: wire_simps)

subsection \<open>Byte strings with a length prefix\<close>

definition writeDataWithLength :: "bytes \<Rightarrow> writer" where
  "writeDataWithLength data =
     wseq [WriteBytes (PutUint16 (word_of_nat (length data))), WriteBytes data]"

definition WriteDeliveryAddress :: "bytes \<Rightarrow> writer" where
  "WriteDeliveryAddress addr = writeDataWithLength addr"

definition WritePingPayload :: "bytes \<Rightarrow> writer" where
  "WritePingPayload payload = writeDataWithLength payload"

definition WritePongPayload :: "bytes \<Rightarrow> writer" where
  "WritePongPayload payload = writeDataWithLength payload"

definition WriteErrorData :: "bytes \<Rightarrow> writer" where
  "WriteErrorData data = writeDataWithLength data"

definition WriteOpaqueReason :: "bytes \<Rightarrow> writer" where
  "WriteOpaqueReason reason = writeDataWithLength reason"

text \<open>The cases of \<^verbatim>\<open>OpaqueReason\<close>, \<^verbatim>\<open>ErrorData\<close>, \<^verbatim>\<open>PingPayload\<close> and \<^verbatim>\<open>PongPayload\<close> read alike.\<close>

definition Read_OpaqueReason :: "bytes reader" where
  "Read_OpaqueReason = rbind (ReadFull 2) (\<lambda>l. ReadFull (unat (BigEndianUint16 l)))"

definition Read_ErrorData :: "bytes reader" where
  "Read_ErrorData = rbind (ReadFull 2) (\<lambda>l. ReadFull (unat (BigEndianUint16 l)))"

definition Read_PingPayload :: "bytes reader" where
  "Read_PingPayload = rbind (ReadFull 2) (\<lambda>l. ReadFull (unat (BigEndianUint16 l)))"

definition Read_PongPayload :: "bytes reader" where
  "Read_PongPayload = rbind (ReadFull 2) (\<lambda>l. ReadFull (unat (BigEndianUint16 l)))"

definition deliveryAddressMaxSize :: u16 where "deliveryAddressMaxSize = 34"

definition Read_DeliveryAddress :: "bytes reader" where
  "Read_DeliveryAddress = rbind (ReadFull 2) (\<lambda>addrLen.
     let len = BigEndianUint16 addrLen
     in if len > deliveryAddressMaxSize then rfail (ErrDeliveryAddrTooLong len)
        else ReadFull (unat len))"

definition data_ser :: "bytes \<Rightarrow> bytes" where
  "data_ser d = PutUint16 (word_of_nat (length d)) @ d"

definition data_wf :: "bytes \<Rightarrow> bool" where
  "data_wf d \<longleftrightarrow> length d < 2 ^ 16"

definition delivery_wf :: "bytes \<Rightarrow> bool" where
  "delivery_wf d \<longleftrightarrow> length d \<le> 34"

lemma writeDataWithLength_apply: "writeDataWithLength d buf = (buf @ data_ser d, None)"
  by (simp add: writeDataWithLength_def WriteBytes_apply data_ser_def)

lemma WriteData_apply [wire_simps]:
  "WriteDeliveryAddress d buf = (buf @ data_ser d, None)"
  "WritePingPayload d buf = (buf @ data_ser d, None)"
  "WritePongPayload d buf = (buf @ data_ser d, None)"
  "WriteErrorData d buf = (buf @ data_ser d, None)"
  "WriteOpaqueReason d buf = (buf @ data_ser d, None)"
  by (simp_all add: WriteDeliveryAddress_def WritePingPayload_def WritePongPayload_def
      WriteErrorData_def WriteOpaqueReason_def writeDataWithLength_apply)

lemma unat_data_len [simp]: "data_wf d \<Longrightarrow> unat (word_of_nat (length d) :: u16) = length d"
  by (simp add: data_wf_def unat_of_nat)

lemma Read_data_ser [wire_simps]:
  assumes "data_wf d"
  shows "Read_OpaqueReason (data_ser d @ rest) = Inr (d, rest)"
    and "Read_ErrorData (data_ser d @ rest) = Inr (d, rest)"
    and "Read_PingPayload (data_ser d @ rest) = Inr (d, rest)"
    and "Read_PongPayload (data_ser d @ rest) = Inr (d, rest)"
  using assms
  by (simp_all add: Read_OpaqueReason_def Read_ErrorData_def Read_PingPayload_def
      Read_PongPayload_def data_ser_def rbind_def ReadFull_append)

lemma Read_DeliveryAddress_ser [wire_simps]:
  assumes "delivery_wf d"
  shows "Read_DeliveryAddress (data_ser d @ rest) = Inr (d, rest)"
proof -
  have len: "unat (word_of_nat (length d) :: u16) = length d"
    using assms by (simp add: delivery_wf_def unat_of_nat)
  then have "\<not> word_of_nat (length d) > deliveryAddressMaxSize"
    using assms by (simp add: word_less_nat_alt deliveryAddressMaxSize_def delivery_wf_def)
  then show ?thesis
    by (simp add: Read_DeliveryAddress_def data_ser_def rbind_def ReadFull_append Let_def len)
qed

text \<open>An address the writer accepts and the reader refuses: longer than 34 bytes.\<close>

lemma Read_DeliveryAddress_too_long:
  assumes "34 < length d" and "data_wf d"
  shows "Read_DeliveryAddress (data_ser d @ rest) = Inl (ErrDeliveryAddrTooLong (word_of_nat (length d)))"
proof -
  have "word_of_nat (length d) > deliveryAddressMaxSize"
    using assms by (simp add: word_less_nat_alt deliveryAddressMaxSize_def)
  then show ?thesis
    by (simp add: Read_DeliveryAddress_def data_ser_def rbind_def ReadFull_append Let_def rfail_apply)
qed

interpretation opaque_reason: wire_codec WriteOpaqueReason data_ser Read_OpaqueReason data_wf
  by unfold_locales (simp_all add: wire_simps)

interpretation error_data: wire_codec WriteErrorData data_ser Read_ErrorData data_wf
  by unfold_locales (simp_all add: wire_simps)

interpretation ping_payload: wire_codec WritePingPayload data_ser Read_PingPayload data_wf
  by unfold_locales (simp_all add: wire_simps)

interpretation pong_payload: wire_codec WritePongPayload data_ser Read_PongPayload data_wf
  by unfold_locales (simp_all add: wire_simps)

interpretation delivery_address:
  wire_codec WriteDeliveryAddress data_ser Read_DeliveryAddress delivery_wf
  by unfold_locales (simp_all add: wire_simps)

subsection \<open>Scripts, colours, extra data\<close>

definition WritePkScript :: "('pk, 'z) ext_scheme \<Rightarrow> bytes \<Rightarrow> writer" where
  "WritePkScript x s =
     (if length s > 34 then wfail ErrPkScriptTooLong else WriteBytes (wire_VarBytes x s))"

definition Read_PkScript :: "('pk, 'z) ext_scheme \<Rightarrow> bytes reader" where
  "Read_PkScript x = wire_ReadVarBytes x 34"

record RGBA =
  col_R :: byte
  col_G :: byte
  col_B :: byte
  col_A :: byte

definition WriteColorRGBA :: "RGBA \<Rightarrow> writer" where
  "WriteColorRGBA e = wseq [WriteUint8 (col_R e), WriteUint8 (col_G e), WriteUint8 (col_B e)]"

definition Read_RGBA :: "RGBA \<Rightarrow> RGBA reader" where
  "Read_RGBA old = rbind Read_uint8 (\<lambda>r. rbind Read_uint8 (\<lambda>g. rbind Read_uint8 (\<lambda>b.
     rret (old\<lparr>col_R := r, col_G := g, col_B := b\<rparr>))))"

definition rgba_zero :: RGBA where
  "rgba_zero = \<lparr>col_R = 0, col_G = 0, col_B = 0, col_A = 0\<rparr>"

definition rgba_ser :: "RGBA \<Rightarrow> bytes" where
  "rgba_ser e = [col_R e, col_G e, col_B e]"

lemma WriteColorRGBA_apply [wire_simps]: "WriteColorRGBA e buf = (buf @ rgba_ser e, None)"
  by (simp add: WriteColorRGBA_def WriteUint8_def WriteBytes_apply rgba_ser_def)

lemma Read_RGBA_ser [wire_simps]:
  "col_A e = col_A old \<Longrightarrow> Read_RGBA old (rgba_ser e @ rest) = Inr (e, rest)"
  by (cases e; cases old) (simp add: Read_RGBA_def rgba_ser_def rbind_def Read_byte_Cons rret_apply)

interpretation rgba: wire_codec WriteColorRGBA rgba_ser "Read_RGBA rgba_zero" "\<lambda>e. col_A e = 0"
  by unfold_locales (simp_all add: wire_simps rgba_zero_def)

text \<open>
  \<^verbatim>\<open>ExtraOpaqueData\<close> takes the rest of the message; a nil slice and an empty one are both the
  empty list.
\<close>

definition ExtraOpaqueData_Encode :: "bytes \<Rightarrow> writer" where
  "ExtraOpaqueData_Encode e = WriteBytes e"

definition ExtraOpaqueData_Decode :: "bytes reader" where
  "ExtraOpaqueData_Decode bs = Inr (bs, [])"

lemma ExtraOpaqueData_Decode_apply [wire_simps]: "ExtraOpaqueData_Decode bs = Inr (bs, [])"
  by (simp add: ExtraOpaqueData_Decode_def)

lemma WriteRest_apply [wire_simps]:
  "WriteUint8 a buf = (buf @ [a], None)"
  "WriteUint16 b buf = (buf @ PutUint16 b, None)"
  "WriteUint32 c buf = (buf @ PutUint32 c, None)"
  "WriteUint64 d buf = (buf @ PutUint64 d, None)"
  "WriteSatoshi d buf = (buf @ PutUint64 d, None)"
  "WriteAssetMinUnit d buf = (buf @ PutUint64 d, None)"
  "WriteMilliSatoshi d buf = (buf @ PutUint64 d, None)"
  "WriteFailCode b buf = (buf @ PutUint16 b, None)"
  "WriteShortChanIDEncoding a buf = (buf @ [a], None)"
  "WriteFundingFlag a buf = (buf @ [a], None)"
  "WriteChanUpdateMsgFlags a buf = (buf @ [a], None)"
  "WriteChanUpdateChanFlags a buf = (buf @ [a], None)"
  "WriteChannelID e buf = (buf @ e, None)"
  "WriteNodeAlias e buf = (buf @ e, None)"
  "WriteSig e buf = (buf @ e, None)"
  by (simp_all add: int_codec_defs array_codec_defs WriteBytes_apply)

text \<open>Every field writer only appends, on its error paths too.\<close>

lemma appends_prims [simp]:
  "appends (WriteUint8 a)" "appends (WriteUint16 b)" "appends (WriteUint32 c)"
  "appends (WriteUint64 d)" "appends (WriteSatoshi d)" "appends (WriteAssetMinUnit d)"
  "appends (WriteMilliSatoshi d)" "appends (WriteFailCode b)"
  "appends (WriteShortChanIDEncoding a)" "appends (WriteFundingFlag a)"
  "appends (WriteChanUpdateMsgFlags a)" "appends (WriteChanUpdateChanFlags a)"
  "appends (WriteChannelID e)" "appends (WriteNodeAlias e)" "appends (WriteSig e)"
  "appends (WriteBool t)" "appends (WriteColorRGBA rgb)"
  by (simp_all add: int_codec_defs array_codec_defs WriteBool_def WriteColorRGBA_def)

lemma appends_prims2 [simp]:
  "appends (WriteSigs ss)" "appends (WriteDeliveryAddress e)" "appends (WritePingPayload e)"
  "appends (WritePongPayload e)" "appends (WriteErrorData e)" "appends (WriteOpaqueReason e)"
  "appends (WritePublicKey x pk)" "appends (WriteOutPoint p)" "appends (WriteShortChannelID sc)"
  by (auto simp: WriteSigs_def WriteDeliveryAddress_def WritePingPayload_def WritePongPayload_def
      WriteErrorData_def WriteOpaqueReason_def writeDataWithLength_def WritePublicKey_def
      WriteOutPoint_def WriteShortChannelID_def list_all_iff intro!: appends_wseq split: option.splits)

text \<open>The facts that evaluate the encoder and the decoder of a message on a well-formed value.\<close>

lemmas msg_roundtrip_simps = msg_roundtrip_def rbind_def

end
