(* ===== verification/Wire_Addrs.thy ===== *)
theory Wire_Addrs
  imports Wire_Primitives
begin

text \<open>
  The field codecs with more structure: optional feature vectors, node aliases (which have to be
  UTF-8), network addresses (TCP over IPv4 and IPv6, onion services of both versions) and lists
  of them; then \<^verbatim>\<open>WriteElement\<close> of \<^verbatim>\<open>lnwire.go\<close>, the older writer that switches on the type of
  its argument, with the theorem that it agrees with the typed writers of \<^verbatim>\<open>writer.go\<close>.
\<close>

subsection \<open>Feature vectors behind a pointer\<close>

definition WriteRawFeatureVector :: "RawFeatureVector option \<Rightarrow> writer" where
  "WriteRawFeatureVector feature =
     (case feature of None \<Rightarrow> wfail ErrNilFeatureVector | Some fv \<Rightarrow> fv_Encode fv)"

definition Read_RawFeatureVector :: "RawFeatureVector option reader" where
  "Read_RawFeatureVector = rbind (fv_Decode (NewRawFeatureVector [])) (\<lambda>fv. rret (Some fv))"

definition feature_ser :: "RawFeatureVector option \<Rightarrow> bytes" where
  "feature_ser feature = (case feature of None \<Rightarrow> [] | Some fv \<Rightarrow> fv_ser fv)"

lemma WriteRawFeatureVector_apply [wire_simps]:
  "feature \<noteq> None \<Longrightarrow> WriteRawFeatureVector feature buf = (buf @ feature_ser feature, None)"
  by (auto simp: WriteRawFeatureVector_def feature_ser_def wire_simps)

lemma Read_RawFeatureVector_ser [wire_simps]:
  "feature \<noteq> None \<Longrightarrow> Read_RawFeatureVector (feature_ser feature @ rest) = Inr (feature, rest)"
  by (auto simp: Read_RawFeatureVector_def feature_ser_def wire_simps)

lemma appends_WriteRawFeatureVector [simp]: "appends (WriteRawFeatureVector feature)"
  by (simp add: WriteRawFeatureVector_def split: option.split)

interpretation raw_feature_vector:
  wire_codec WriteRawFeatureVector feature_ser Read_RawFeatureVector "\<lambda>f. f \<noteq> None"
  by unfold_locales (simp_all add: wire_simps)

subsection \<open>Node aliases\<close>

text \<open>
  \<^verbatim>\<open>utf8.ValidString\<close> of the standard library: the first byte fixes the length of the sequence and
  the range of the second byte, which excludes overlong forms, surrogates and code points above
  \<open>0x10FFFF\<close>.
\<close>

definition utf8_accept :: "byte \<Rightarrow> (nat \<times> byte \<times> byte) option" where
  "utf8_accept b =
     (if 0xC2 \<le> b \<and> b \<le> 0xDF then Some (1, 0x80, 0xBF)
      else if b = 0xE0 then Some (2, 0xA0, 0xBF)
      else if 0xE1 \<le> b \<and> b \<le> 0xEC then Some (2, 0x80, 0xBF)
      else if b = 0xED then Some (2, 0x80, 0x9F)
      else if 0xEE \<le> b \<and> b \<le> 0xEF then Some (2, 0x80, 0xBF)
      else if b = 0xF0 then Some (3, 0x90, 0xBF)
      else if 0xF1 \<le> b \<and> b \<le> 0xF3 then Some (3, 0x80, 0xBF)
      else if b = 0xF4 then Some (3, 0x80, 0x8F)
      else None)"

function utf8_ValidString :: "bytes \<Rightarrow> bool" where
  "utf8_ValidString [] = True"
| "utf8_ValidString (b # bs) =
     (if b < 0x80 then utf8_ValidString bs
      else case utf8_accept b of
             None \<Rightarrow> False
           | Some (n, lo, hi) \<Rightarrow>
               n \<le> length bs \<and> lo \<le> bs ! 0 \<and> bs ! 0 \<le> hi \<and>
               list_all (\<lambda>c. 0x80 \<le> c \<and> c \<le> 0xBF) (take (n - 1) (drop 1 bs)) \<and>
               utf8_ValidString (drop n bs))"
  by pat_completeness auto
termination by (relation "measure length") auto

definition NewNodeAlias :: "bytes \<Rightarrow> wire_error + bytes" where
  "NewNodeAlias s =
     (if length s > 32 then Inl (ErrAliasTooLarge (length s))
      else if \<not> utf8_ValidString s then Inl ErrInvalidNodeAlias
      else Inr (s @ replicate (32 - length s) 0))"

definition Read_NodeAlias :: "bytes reader" where
  "Read_NodeAlias = rbind (ReadFull 32) (\<lambda>a.
     case NewNodeAlias a of Inl e \<Rightarrow> rfail e | Inr alias \<Rightarrow> rret alias)"

definition alias_wf :: "bytes \<Rightarrow> bool" where
  "alias_wf a \<longleftrightarrow> length a = 32 \<and> utf8_ValidString a"

lemma Read_NodeAlias_append [wire_simps]:
  "alias_wf a \<Longrightarrow> Read_NodeAlias (a @ rest) = Inr (a, rest)"
  by (simp add: Read_NodeAlias_def alias_wf_def NewNodeAlias_def rbind_def ReadFull_append
      rret_apply)

lemma utf8_ascii_append:
  "utf8_ValidString s \<Longrightarrow> utf8_ValidString (s @ replicate k 0)"
proof (induction s rule: utf8_ValidString.induct)
  case 1
  show ?case by (induction k) auto
next
  case (2 b bs)
  show ?case
  proof (cases "b < 0x80")
    case True
    then show ?thesis using 2 by simp
  next
    case False
    then obtain n lo hi where acc: "utf8_accept b = Some (n, lo, hi)"
      using "2.prems" by (auto split: option.splits)
    then have "0 < n" by (auto simp: utf8_accept_def split: if_splits)
    with False acc show ?thesis
      using 2 by (auto simp: nth_append take_append drop_append)
  qed
qed

text \<open>An alias built by \<^verbatim>\<open>NewNodeAlias\<close> is one the reader accepts.\<close>

lemma NewNodeAlias_wf: "NewNodeAlias s = Inr a \<Longrightarrow> alias_wf a"
  by (auto simp: NewNodeAlias_def alias_wf_def utf8_ascii_append split: if_splits)

interpretation node_alias: wire_codec WriteNodeAlias "\<lambda>a. a" Read_NodeAlias alias_wf
  by unfold_locales (simp_all add: wire_simps)

subsection \<open>Network addresses\<close>

record TCPAddr =
  tcp_IP :: bytes
  tcp_Port :: int

record OnionAddr =
  OnionService :: string
  onion_Port :: int

text \<open>
  A \<^verbatim>\<open>net.Addr\<close> is an interface value: one of the two pointers, either of which may be nil, or
  a value of another type (or no value).
\<close>

datatype NetAddr =
    TCPAddrPtr "TCPAddr option"
  | OnionAddrPtr "OnionAddr option"
  | OtherAddr

definition tcp4Addr :: byte where "tcp4Addr = 1"
definition tcp6Addr :: byte where "tcp6Addr = 2"
definition v2OnionAddr :: byte where "v2OnionAddr = 3"
definition v3OnionAddr :: byte where "v3OnionAddr = 4"
definition noAddr :: byte where "noAddr = 0"

lemmas addr_types = noAddr_def tcp4Addr_def tcp6Addr_def v2OnionAddr_def v3OnionAddr_def

definition AddrLen :: "byte \<Rightarrow> u16" where
  "AddrLen a =
     (if a = noAddr then 0 else if a = tcp4Addr then 6 else if a = tcp6Addr then 18
      else if a = v2OnionAddr then 12 else if a = v3OnionAddr then 37 else 0)"

text \<open>\<^verbatim>\<open>net.IP.To4\<close> and \<^verbatim>\<open>net.IP.To16\<close>; nil is the empty list.\<close>

definition v4InV6Prefix :: bytes where
  "v4InV6Prefix = replicate 10 0 @ [0xFF, 0xFF]"

definition IP_To4 :: "bytes \<Rightarrow> bytes option" where
  "IP_To4 ip =
     (if length ip = 4 then Some ip
      else if length ip = 16 \<and> take 12 ip = v4InV6Prefix then Some (drop 12 ip)
      else None)"

definition IP_To16 :: "bytes \<Rightarrow> bytes" where
  "IP_To16 ip =
     (if length ip = 4 then v4InV6Prefix @ ip else if length ip = 16 then ip else [])"

definition WriteTCPAddr :: "TCPAddr option \<Rightarrow> writer" where
  "WriteTCPAddr addr = (case addr of
       None \<Rightarrow> wfail ErrNilTCPAddress
     | Some a \<Rightarrow>
         let data = (case IP_To4 (tcp_IP a) of
                 Some ip \<Rightarrow> tcp4Addr # ip
               | None \<Rightarrow> tcp6Addr # IP_To16 (tcp_IP a))
         in wseq [WriteBytes data, WriteUint16 (word_of_int (tcp_Port a))])"

definition WriteOnionAddr :: "('pk, 'z) ext_scheme \<Rightarrow> OnionAddr option \<Rightarrow> writer" where
  "WriteOnionAddr x addr = (case addr of
       None \<Rightarrow> wfail ErrNilOnionAddress
     | Some a \<Rightarrow>
         let write = (\<lambda>descriptor suffixIndex.
               case tor_DecodeString x (take suffixIndex (OnionService a)) of
                 None \<Rightarrow> wfail ErrBase32
               | Some host \<Rightarrow>
                   wseq [WriteBytes [descriptor], WriteBytes host,
                     WriteUint16 (word_of_int (onion_Port a))])
         in if length (OnionService a) = tor_V2Len x
            then write v2OnionAddr (tor_V2Len x - length (tor_OnionSuffix x))
            else if length (OnionService a) = tor_V3Len x
            then write v3OnionAddr (tor_V3Len x - length (tor_OnionSuffix x))
            else wfail ErrUnknownServiceLength)"

definition WriteNetAddr :: "('pk, 'z) ext_scheme \<Rightarrow> NetAddr \<Rightarrow> writer" where
  "WriteNetAddr x address = (case address of
       TCPAddrPtr a \<Rightarrow> WriteTCPAddr a
     | OnionAddrPtr a \<Rightarrow> WriteOnionAddr x a
     | OtherAddr \<Rightarrow> wfail ErrNilNetAddress)"

definition WriteNetAddrs :: "('pk, 'z) ext_scheme \<Rightarrow> NetAddr list \<Rightarrow> writer" where
  "WriteNetAddrs x addresses =
     (case wseq (map (WriteNetAddr x) addresses) [] of
        (addrBuf, None) \<Rightarrow> writeDataWithLength addrBuf
      | (addrBuf, Some e) \<Rightarrow> wfail e)"

text \<open>One round of the loop of the case \<^verbatim>\<open>*[]net.Addr\<close>, after the descriptor has been read.\<close>

definition Read_host_port :: "nat \<Rightarrow> (bytes \<times> int) reader" where
  "Read_host_port n = rbind (ReadFull n) (\<lambda>h. rbind (ReadFull 2) (\<lambda>p.
     rret (h, uint (BigEndianUint16 p))))"

definition Read_NetAddr :: "('pk, 'z) ext_scheme \<Rightarrow> byte \<Rightarrow> NetAddr reader" where
  "Read_NetAddr x aType =
     (let tcp = (\<lambda>(ip, port). rret (TCPAddrPtr (Some \<lparr>tcp_IP = ip, tcp_Port = port\<rparr>)));
          onion = (\<lambda>(h, port). rret (OnionAddrPtr (Some
            \<lparr>OnionService = tor_EncodeToString x h @ tor_OnionSuffix x, onion_Port = port\<rparr>)))
      in if aType = tcp4Addr then rbind (Read_host_port 4) tcp
         else if aType = tcp6Addr then rbind (Read_host_port 16) tcp
         else if aType = v2OnionAddr then rbind (Read_host_port (tor_V2DecodedLen x)) onion
         else if aType = v3OnionAddr then rbind (Read_host_port (tor_V3DecodedLen x)) onion
         else rfail (ErrUnknownAddrType aType))"

lemma ReadFull_length: "ReadFull n bs = Inr (b, rest) \<Longrightarrow> length rest = length bs - n"
  by (auto simp: ReadFull_def split: if_splits)

lemma Read_NetAddr_length:
  "Read_NetAddr x t bs = Inr (a, rest) \<Longrightarrow> length rest \<le> length bs"
  by (auto simp: Read_NetAddr_def Read_host_port_def Let_def rbind_Inr_iff rret_def rfail_def
      dest!: ReadFull_length split: if_splits)

text \<open>
  \<^verbatim>\<open>for addrBytesRead < addrsLen\<close>, with the 16-bit counter of the code.  Every round consumes the
  descriptor, so the loop ends even where the counter wraps around.
\<close>

function readAddrs ::
  "('pk, 'z) ext_scheme \<Rightarrow> u16 \<Rightarrow> u16 \<Rightarrow> bytes \<Rightarrow> NetAddr list \<Rightarrow> wire_error + NetAddr list" where
  "readAddrs x addrsLen addrBytesRead addrBuf addresses =
     (if addrBytesRead < addrsLen then
        case ReadFull 1 addrBuf of
          Inl e \<Rightarrow> Inl e
        | Inr (descriptor, addrBuf') \<Rightarrow>
            let aType = descriptor ! 0;
                addrBytesRead' = addrBytesRead + 1 + AddrLen aType
            in if aType = noAddr then readAddrs x addrsLen addrBytesRead' addrBuf' addresses
               else case Read_NetAddr x aType addrBuf' of
                      Inl e \<Rightarrow> Inl e
                    | Inr (address, addrBuf'') \<Rightarrow>
                        readAddrs x addrsLen addrBytesRead' addrBuf'' (addresses @ [address])
      else Inr addresses)"
  by pat_completeness auto
termination
  by (relation "measure (\<lambda>(x, l, n, bs, as). length bs)")
     (auto simp: ReadFull_def split: if_splits dest: Read_NetAddr_length)

declare readAddrs.simps [simp del]

definition Read_NetAddrs :: "('pk, 'z) ext_scheme \<Rightarrow> NetAddr list reader" where
  "Read_NetAddrs x = rbind (ReadFull 2) (\<lambda>numAddrsBytes.
     let addrsLen = BigEndianUint16 numAddrsBytes
     in rbind (ReadFull (unat addrsLen)) (\<lambda>addrs.
          case readAddrs x addrsLen 0 addrs [] of
            Inl e \<Rightarrow> rfail e
          | Inr addresses \<Rightarrow> rret addresses))"

text \<open>
  What the code relies on of \<^verbatim>\<open>lnd/tor\<close>: the decoded lengths, which \<^verbatim>\<open>AddrLen\<close> repeats, and that
  the base 32 encoding of a host of such a length decodes to it and has the documented length.
\<close>

definition base32_ok :: "('pk, 'z) ext_scheme \<Rightarrow> bool" where
  "base32_ok x \<longleftrightarrow>
     tor_V2DecodedLen x = 10 \<and> tor_V3DecodedLen x = 35 \<and> tor_V2Len x \<noteq> tor_V3Len x \<and>
     (\<forall>h. tor_DecodeString x (tor_EncodeToString x h) = Some h) \<and>
     (\<forall>h. length h = 10 \<longrightarrow>
        length (tor_EncodeToString x h) + length (tor_OnionSuffix x) = tor_V2Len x) \<and>
     (\<forall>h. length h = 35 \<longrightarrow>
        length (tor_EncodeToString x h) + length (tor_OnionSuffix x) = tor_V3Len x)"

definition port_wf :: "int \<Rightarrow> bool" where
  "port_wf p \<longleftrightarrow> 0 \<le> p \<and> p < 2 ^ 16"

definition tcp_wf :: "TCPAddr \<Rightarrow> bool" where
  "tcp_wf a \<longleftrightarrow> port_wf (tcp_Port a) \<and>
     (length (tcp_IP a) = 4 \<or> length (tcp_IP a) = 16 \<and> take 12 (tcp_IP a) \<noteq> v4InV6Prefix)"

definition onion_wf :: "('pk, 'z) ext_scheme \<Rightarrow> OnionAddr \<Rightarrow> bool" where
  "onion_wf x a \<longleftrightarrow> port_wf (onion_Port a) \<and>
     (\<exists>h. (length h = 10 \<or> length h = 35) \<and>
        OnionService a = tor_EncodeToString x h @ tor_OnionSuffix x)"

definition addr_wf :: "('pk, 'z) ext_scheme \<Rightarrow> NetAddr \<Rightarrow> bool" where
  "addr_wf x address = (case address of
       TCPAddrPtr (Some a) \<Rightarrow> tcp_wf a
     | OnionAddrPtr (Some a) \<Rightarrow> onion_wf x a
     | _ \<Rightarrow> False)"

definition addr_ser :: "('pk, 'z) ext_scheme \<Rightarrow> NetAddr \<Rightarrow> bytes" where
  "addr_ser x address = fst (WriteNetAddr x address [])"

definition addrs_wf :: "('pk, 'z) ext_scheme \<Rightarrow> NetAddr list \<Rightarrow> bool" where
  "addrs_wf x as \<longleftrightarrow> list_all (addr_wf x) as \<and> length (concat (map (addr_ser x) as)) < 2 ^ 16"

definition addrs_ser :: "('pk, 'z) ext_scheme \<Rightarrow> NetAddr list \<Rightarrow> bytes" where
  "addrs_ser x as = data_ser (concat (map (addr_ser x) as))"

lemma port_roundtrip: "port_wf p \<Longrightarrow> uint (word_of_int p :: u16) = p"
  by (simp add: port_wf_def uint_word_of_int)

lemma Read_host_port_append:
  "length h = n \<Longrightarrow> port_wf p \<Longrightarrow>
     Read_host_port n (h @ PutUint16 (word_of_int p) @ rest) = Inr ((h, p), rest)"
  by (simp add: Read_host_port_def rbind_def ReadFull_append rret_apply port_roundtrip)

text \<open>
  The layout of one address: descriptor, host, port; the descriptor's length is the one
  \<^verbatim>\<open>AddrLen\<close> adds to the counter.
\<close>

lemma addr_layout:
  assumes "base32_ok x" and "addr_wf x a"
  obtains t h p where "\<And>buf. WriteNetAddr x a buf = (buf @ t # h @ PutUint16 (word_of_int p), None)"
    and "t \<noteq> noAddr" and "unat (AddrLen t) = length h + 2"
    and "\<And>rest. Read_NetAddr x t (h @ PutUint16 (word_of_int p) @ rest) = Inr (a, rest)"
proof (cases a)
  case (TCPAddrPtr o1)
  then obtain b where b: "a = TCPAddrPtr (Some b)" "tcp_wf b"
    using assms(2) by (auto simp: addr_wf_def split: option.splits)
  show ?thesis
  proof (cases "length (tcp_IP b) = 4")
    case True
    then show ?thesis
      using b by (intro that [of tcp4Addr "tcp_IP b" "tcp_Port b"])
        (simp_all add: WriteNetAddr_def WriteTCPAddr_def IP_To4_def Let_def wire_simps addr_types
          AddrLen_def Read_NetAddr_def tcp_wf_def rbind_def Read_host_port_append)
  next
    case False
    then show ?thesis
      using b by (intro that [of tcp6Addr "tcp_IP b" "tcp_Port b"])
        (simp_all add: WriteNetAddr_def WriteTCPAddr_def IP_To4_def IP_To16_def Let_def wire_simps
          addr_types AddrLen_def Read_NetAddr_def tcp_wf_def rbind_def Read_host_port_append)
  qed
next
  case (OnionAddrPtr o2)
  then obtain b h where b: "a = OnionAddrPtr (Some b)" "port_wf (onion_Port b)"
    and h: "length h = 10 \<or> length h = 35" "OnionService b = tor_EncodeToString x h @ tor_OnionSuffix x"
    using assms(2) by (auto simp: addr_wf_def onion_wf_def split: option.splits)
  have dec: "tor_DecodeString x (tor_EncodeToString x h) = Some h"
    and dlen: "tor_V2DecodedLen x = 10" "tor_V3DecodedLen x = 35"
    and vlen: "tor_V2Len x \<noteq> tor_V3Len x"
    using assms(1) by (simp_all add: base32_ok_def)
  have slen: "length (OnionService b) = (if length h = 10 then tor_V2Len x else tor_V3Len x)"
    using assms(1) h by (auto simp: base32_ok_def)
  then have host: "take (length (OnionService b) - length (tor_OnionSuffix x)) (OnionService b) =
      tor_EncodeToString x h"
    by (simp add: h(2))
  define t where "t = (if length h = 10 then v2OnionAddr else v3OnionAddr)"
  show ?thesis
  proof (rule that [of t h "onion_Port b"])
    show "WriteNetAddr x a buf = (buf @ t # h @ PutUint16 (word_of_int (onion_Port b)), None)" for buf
      using slen host vlen dec
      by (auto simp: b(1) WriteNetAddr_def WriteOnionAddr_def t_def wire_simps split: if_splits)
    show "t \<noteq> noAddr" and "unat (AddrLen t) = length h + 2"
      using h(1) by (auto simp: t_def addr_types AddrLen_def)
    show "Read_NetAddr x t (h @ PutUint16 (word_of_int (onion_Port b)) @ rest) = Inr (a, rest)" for rest
      using h b dlen
      by (auto simp: t_def addr_types Read_NetAddr_def Let_def rbind_def Read_host_port_append rret_apply)
  qed
next
  case OtherAddr
  then show ?thesis using assms(2) by (simp add: addr_wf_def)
qed

lemma WriteNetAddr_apply:
  "base32_ok x \<Longrightarrow> addr_wf x a \<Longrightarrow> WriteNetAddr x a buf = (buf @ addr_ser x a, None)"
  by (erule addr_layout, assumption) (simp only: addr_ser_def fst_conv append_Nil)

lemma WriteNetAddrs_apply [wire_simps]:
  assumes "base32_ok x" and "addrs_wf x as"
  shows "WriteNetAddrs x as buf = (buf @ addrs_ser x as, None)"
proof -
  have "wseq (map (WriteNetAddr x) as) b = (b @ concat (map (addr_ser x) as), None)"
    if "list_all (addr_wf x) as" for as b
    using that by (induction as arbitrary: b) (simp_all add: WriteNetAddr_apply [OF assms(1)])
  then show ?thesis
    using assms(2) by (simp add: WriteNetAddrs_def addrs_wf_def addrs_ser_def
        writeDataWithLength_apply)
qed

lemma readAddrs_ser:
  assumes "base32_ok x" and "list_all (addr_wf x) as"
    and "unat n + length (concat (map (addr_ser x) as)) = unat l"
  shows "readAddrs x l n (concat (map (addr_ser x) as)) acc = Inr (acc @ as)"
  using assms(2,3)
proof (induction as arbitrary: n acc)
  case Nil
  then show ?case by (simp add: readAddrs.simps word_less_nat_alt)
next
  case (Cons a as)
  obtain t h p where w: "\<And>buf. WriteNetAddr x a buf = (buf @ t # h @ PutUint16 (word_of_int p), None)"
    and t: "t \<noteq> noAddr" "unat (AddrLen t) = length h + 2"
    and r: "\<And>rest. Read_NetAddr x t (h @ PutUint16 (word_of_int p) @ rest) = Inr (a, rest)"
    using Cons.prems(1) by (auto elim: addr_layout [OF assms(1)])
  let ?rest = "concat (map (addr_ser x) as)"
  have ser: "addr_ser x a = t # h @ PutUint16 (word_of_int p)"
    by (simp add: addr_ser_def w)
  have lt: "n < l" using Cons.prems(2) by (simp add: ser word_less_nat_alt)
  have len: "unat n + (1 + (length h + 2)) + length ?rest = unat l"
    using Cons.prems(2) by (simp add: ser)
  then have "unat n + (1 + (length h + 2)) < 2 ^ 16"
    using unsigned_less [of l, where 'a = nat] by simp
  then have "unat (n + 1 + AddrLen t) = unat n + (1 + (length h + 2))"
    using t(2) by (simp add: unat_word_ariths)
  then have "readAddrs x l (n + 1 + AddrLen t) ?rest (acc @ [a]) = Inr ((acc @ [a]) @ as)"
    using Cons.prems(1) len by (intro Cons.IH) simp_all
  moreover have "ReadFull 1 (t # h @ PutUint16 (word_of_int p) @ ?rest) =
      Inr ([t], h @ PutUint16 (word_of_int p) @ ?rest)"
    by (simp add: ReadFull_def)
  ultimately show ?case
    using lt t(1) r by (subst readAddrs.simps) (simp add: ser Let_def)
qed

lemma Read_NetAddrs_ser [wire_simps]:
  assumes "base32_ok x" and "addrs_wf x as"
  shows "Read_NetAddrs x (addrs_ser x as @ rest) = Inr (as, rest)"
proof -
  let ?c = "concat (map (addr_ser x) as)"
  have wf: "list_all (addr_wf x) as" and len: "unat (word_of_nat (length ?c) :: u16) = length ?c"
    using assms(2) by (simp_all add: addrs_wf_def unat_of_nat)
  then have "readAddrs x (word_of_nat (length ?c)) 0 ?c [] = Inr as"
    using readAddrs_ser [OF assms(1) wf, of 0 "word_of_nat (length ?c)" "[]"] by simp
  then show ?thesis
    using len by (simp add: Read_NetAddrs_def addrs_ser_def data_ser_def rbind_def ReadFull_append
        Let_def rret_apply)
qed

lemma appends_WriteNetAddrs [simp]: "appends (WriteNetAddrs x as)"
  by (simp add: WriteNetAddrs_def writeDataWithLength_def split: prod.split option.split)

lemma addrs_wire_codec:
  "base32_ok x \<Longrightarrow> wire_codec (WriteNetAddrs x) (addrs_ser x) (Read_NetAddrs x) (addrs_wf x)"
  by unfold_locales (simp_all add: wire_simps)

end
