(* ===== verification/Wire_Sample.thy ===== *)
theory Wire_Sample
  imports Wire_Addrs
begin

text \<open>
  A concrete instance of the code outside the repository, which meets everything the message
  codecs rely on: the predicates \<open>pubkey_ok\<close>, \<open>base32_ok\<close>, \<open>tlv_ok\<close> and \<open>zlib_ok\<close> hold together.
  It has one public key, stores a host name without re-encoding it, writes a TLV record as type,
  length and value with fixed-size integers, and compresses by adding a marker.
\<close>

definition sample_tlv_encode :: "(u64 \<times> bytes) list \<Rightarrow> bytes" where
  "sample_tlv_encode recs =
     concat (map (\<lambda>(t, b). PutUint64 t @ PutUint16 (word_of_nat (length b)) @ b) recs)"

function sample_tlv_decode ::
  "(u64 \<times> (bytes \<Rightarrow> wire_error + tlv_value)) list \<Rightarrow> bytes \<Rightarrow> wire_error + (u64 \<times> tlv_value) list" where
  "sample_tlv_decode decs bs =
     (if length bs < 10 then (if bs = [] then Inr [] else Inl ErrUnexpectedEOF)
      else let t = BigEndianUint64 bs;
               n = unat (BigEndianUint16 (drop 8 bs));
               b = take n (drop 10 bs)
           in case map_of decs t of
                None \<Rightarrow> Inl (ErrTlv ''unknown type'')
              | Some d \<Rightarrow> (case d b of
                    Inl e \<Rightarrow> Inl e
                  | Inr v \<Rightarrow> (case sample_tlv_decode decs (drop (10 + n) bs) of
                        Inl e \<Rightarrow> Inl e
                      | Inr vs \<Rightarrow> Inr ((t, v) # vs))))"
  by pat_completeness auto
termination by (relation "measure (\<lambda>(d, bs). length bs)") auto

declare sample_tlv_decode.simps [simp del]

definition sample_ext :: "unit ext" where
  "sample_ext = \<lparr>
     SerializeCompressed = (\<lambda>_. replicate 33 2),
     ParsePubKey = (\<lambda>b. if length b = 33 then Some () else None),
     wire_VarBytes = data_ser,
     wire_ReadVarBytes = (\<lambda>n. Read_DeliveryAddress),
     tor_DecodeString = (\<lambda>s. Some (map (\<lambda>c. word_of_nat (of_char c)) s)),
     tor_EncodeToString = map (\<lambda>b. char_of (unat b)),
     tor_OnionSuffix = ''.onion'',
     tor_V2Len = 16, tor_V3Len = 41, tor_V2DecodedLen = 10, tor_V3DecodedLen = 35,
     tlv_Encode = (\<lambda>recs. Inr (sample_tlv_encode recs)),
     tlv_DecodeWithParsedTypes = sample_tlv_decode,
     tlv_EVarBytes = (\<lambda>b. b), tlv_DVarBytes = Inr,
     tlv_EUint32T = PutUint32, tlv_DUint32 = (\<lambda>b. Inr (BigEndianUint32 b)),
     zlib_Compress = (\<lambda>b. 0x78 # b),
     zlib_NewReader = (\<lambda>b. if b = [] then Inl (ErrZlib ''header'') else Inr (tl b, EOF))\<rparr>"

lemma sample_tlv_roundtrip:
  assumes "list_all2 (\<lambda>(t, b) (t', v). t = t' \<and> length b \<le> 65535 \<and>
    (\<exists>d. map_of decs t = Some d \<and> d b = Inr v)) recs vals"
  shows "sample_tlv_decode decs (sample_tlv_encode recs) = Inr vals"
  using assms
proof (induction recs vals rule: list_all2_induct)
  case Nil
  then show ?case by (simp add: sample_tlv_encode_def sample_tlv_decode.simps)
next
  case (Cons r recs w vals)
  obtain t b v d where r: "r = (t, b)" "w = (t, v)" and len: "length b \<le> 65535"
    and d: "map_of decs t = Some d" "d b = Inr v"
    using Cons.hyps(1) by (cases r; cases w) auto
  have n: "unat (word_of_nat (length b) :: u16) = length b"
    using len by (simp add: unat_of_nat)
  let ?bs = "PutUint64 t @ PutUint16 (word_of_nat (length b)) @ b @ sample_tlv_encode recs"
  have enc: "sample_tlv_encode (r # recs) = ?bs"
    by (simp add: r sample_tlv_encode_def)
  show ?case
    unfolding enc using Cons.IH d by (subst sample_tlv_decode.simps) (simp add: Let_def n r)
qed

lemma sample_ext_ok:
  shows pubkey_ok_sample: "pubkey_ok sample_ext"
    and base32_ok_sample: "base32_ok sample_ext"
    and tlv_ok_sample: "tlv_ok sample_ext"
    and zlib_ok_sample: "zlib_ok sample_ext"
proof -
  show "pubkey_ok sample_ext" and "zlib_ok sample_ext"
    by (simp_all add: pubkey_ok_def zlib_ok_def sample_ext_def)
  have "(word_of_nat (of_char (char_of (unat b :: nat) :: char)) :: byte) = b" for b :: byte
    using unsigned_less [of b, where 'a = nat] by (simp add: of_char_of)
  then show "base32_ok sample_ext"
    by (simp add: base32_ok_def sample_ext_def comp_def)
  show "tlv_ok sample_ext"
    using sample_tlv_roundtrip by (auto simp: tlv_ok_def sample_ext_def)
qed

end
