(* ===== verification/Wire_Elements.thy ===== *)
theory Wire_Elements
  imports Wire_Sample
begin

text \<open>
  \<^verbatim>\<open>WriteElement\<close> and \<^verbatim>\<open>WriteElements\<close> of \<^verbatim>\<open>lnwire.go\<close>, which the database and the onion errors
  still use, and their agreement with the typed writers of \<^verbatim>\<open>writer.go\<close>.  The argument, an
  empty interface in the code, is a value of \<open>element\<close> with one constructor per case of the
  type switch.
\<close>

datatype 'pk element =
    E_NodeAlias bytes
  | E_ShortChanIDEncoding byte
  | E_uint8 byte
  | E_FundingFlag byte
  | E_uint16 u16
  | E_ChanUpdateMsgFlags byte
  | E_ChanUpdateChanFlags byte
  | E_MilliSatoshi MilliSatoshi
  | E_omniAmount Amount
  | E_UnitPrec11 UnitPrec11
  | E_UnitPrec8 UnitPrec8
  | E_btcAmount Amount
  | E_uint32 u32
  | E_uint64 u64
  | E_PublicKey "'pk option"
  | E_Sigs "Sig list"
  | E_Sig Sig
  | E_PingPayload bytes
  | E_PongPayload bytes
  | E_ErrorData bytes
  | E_OpaqueReason bytes
  | E_array33 bytes
  | E_bytes bytes
  | E_PkScript bytes
  | E_RawFeatureVector "RawFeatureVector option"
  | E_OutPoint OutPoint
  | E_ChannelID ChannelID
  | E_FailCode u16
  | E_ShortChannelID ShortChannelID
  | E_NetAddr NetAddr
  | E_NetAddrs "NetAddr list"
  | E_RGBA RGBA
  | E_DeliveryAddress bytes
  | E_bool bool
  | E_ExtraOpaqueData bytes

text \<open>\<^verbatim>\<open>copy\<close> into a fresh array of \<open>n\<close> bytes.\<close>

definition copy_array :: "nat \<Rightarrow> bytes \<Rightarrow> bytes" where
  "copy_array n s = take n s @ replicate (n - length s) 0"

definition WriteElement_TCPAddr :: "TCPAddr option \<Rightarrow> writer" where
  "WriteElement_TCPAddr addr = (case addr of
       None \<Rightarrow> wfail ErrNilTCPAddress
     | Some e \<Rightarrow> wseq
         [(case IP_To4 (tcp_IP e) of
             Some ip \<Rightarrow> wseq [WriteBytes [tcp4Addr], WriteBytes (copy_array 4 ip)]
           | None \<Rightarrow> wseq [WriteBytes [tcp6Addr], WriteBytes (copy_array 16 (IP_To16 (tcp_IP e)))]),
          WriteBytes (PutUint16 (word_of_int (tcp_Port e)))])"

definition WriteElement_OnionAddr :: "('pk, 'z) ext_scheme \<Rightarrow> OnionAddr option \<Rightarrow> writer" where
  "WriteElement_OnionAddr x addr = (case addr of
       None \<Rightarrow> wfail ErrNilOnionAddress
     | Some e \<Rightarrow>
         let write = (\<lambda>descriptor suffixIndex. wseq
               [WriteBytes [descriptor],
                (case tor_DecodeString x (take suffixIndex (OnionService e)) of
                   None \<Rightarrow> wfail ErrBase32
                 | Some host \<Rightarrow>
                     wseq [WriteBytes host, WriteBytes (PutUint16 (word_of_int (onion_Port e)))])])
         in if length (OnionService e) = tor_V2Len x
            then write v2OnionAddr (tor_V2Len x - length (tor_OnionSuffix x))
            else if length (OnionService e) = tor_V3Len x
            then write v3OnionAddr (tor_V3Len x - length (tor_OnionSuffix x))
            else wfail ErrUnknownServiceLength)"

definition WriteElement_NetAddr :: "('pk, 'z) ext_scheme \<Rightarrow> NetAddr \<Rightarrow> writer" where
  "WriteElement_NetAddr x address = (case address of
       TCPAddrPtr a \<Rightarrow> WriteElement_TCPAddr a
     | OnionAddrPtr a \<Rightarrow> WriteElement_OnionAddr x a
     | OtherAddr \<Rightarrow> wfail ErrUnknownElement)"

definition WriteElement_NetAddrs :: "('pk, 'z) ext_scheme \<Rightarrow> NetAddr list \<Rightarrow> writer" where
  "WriteElement_NetAddrs x e =
     (case wseq (map (WriteElement_NetAddr x) e) [] of
        (addrBuf, Some err) \<Rightarrow> wfail err
      | (addrBuf, None) \<Rightarrow> wseq
          (WriteBytes (PutUint16 (word_of_nat (length addrBuf))) #
           (if length addrBuf > 0 then [WriteBytes addrBuf] else [])))"

definition WriteElement_ShortChannelID :: "ShortChannelID \<Rightarrow> writer" where
  "WriteElement_ShortChannelID e =
     (if BlockHeight e > push_bit 24 1 - 1 then wfail ErrBlockHeightTooBig
      else wseq [WriteBytes (drop 1 (PutUint32 (BlockHeight e))),
        (if TxIndex e > push_bit 24 1 - 1 then wfail ErrTxIndexTooBig
         else wseq [WriteBytes (drop 1 (PutUint32 (TxIndex e))),
           WriteBytes (PutUint16 (TxPosition e))])])"

definition WriteElement_OutPoint :: "OutPoint \<Rightarrow> writer" where
  "WriteElement_OutPoint e = wseq
     [WriteBytes (copy_array 32 (op_Hash e)),
      (if op_Index e > 0xFFFF then wfail (ErrOutpointIndexTooBig (op_Index e))
       else WriteBytes (PutUint16 (ucast (op_Index e))))]"

fun WriteElement :: "('pk, 'z) ext_scheme \<Rightarrow> 'pk element \<Rightarrow> writer" where
  "WriteElement x (E_NodeAlias e) = WriteBytes e"
| "WriteElement x (E_ShortChanIDEncoding e) = WriteBytes [e]"
| "WriteElement x (E_uint8 e) = WriteBytes [e]"
| "WriteElement x (E_FundingFlag e) = WriteBytes [e]"
| "WriteElement x (E_uint16 e) = WriteBytes (PutUint16 e)"
| "WriteElement x (E_ChanUpdateMsgFlags e) = WriteBytes [e]"
| "WriteElement x (E_ChanUpdateChanFlags e) = WriteBytes [e]"
| "WriteElement x (E_MilliSatoshi e) = WriteBytes (PutUint64 e)"
| "WriteElement x (E_omniAmount e) = WriteBytes (PutUint64 e)"
| "WriteElement x (E_UnitPrec11 e) = WriteBytes (PutUint64 e)"
| "WriteElement x (E_UnitPrec8 e) = WriteBytes (PutUint64 e)"
| "WriteElement x (E_btcAmount e) = WriteBytes (PutUint64 e)"
| "WriteElement x (E_uint32 e) = WriteBytes (PutUint32 e)"
| "WriteElement x (E_uint64 e) = WriteBytes (PutUint64 e)"
| "WriteElement x (E_PublicKey e) = (case e of
       None \<Rightarrow> wfail ErrNilPublicKey
     | Some k \<Rightarrow> WriteBytes (copy_array 33 (SerializeCompressed x k)))"
| "WriteElement x (E_Sigs e) =
     wseq (WriteBytes (PutUint16 (word_of_nat (length e))) # map WriteBytes e)"
| "WriteElement x (E_Sig e) = WriteBytes e"
| "WriteElement x (E_PingPayload e) =
     wseq [WriteBytes (PutUint16 (word_of_nat (length e))), WriteBytes e]"
| "WriteElement x (E_PongPayload e) =
     wseq [WriteBytes (PutUint16 (word_of_nat (length e))), WriteBytes e]"
| "WriteElement x (E_ErrorData e) =
     wseq [WriteBytes (PutUint16 (word_of_nat (length e))), WriteBytes e]"
| "WriteElement x (E_OpaqueReason e) =
     wseq [WriteBytes (PutUint16 (word_of_nat (length e))), WriteBytes e]"
| "WriteElement x (E_array33 e) = WriteBytes e"
| "WriteElement x (E_bytes e) = WriteBytes e"
| "WriteElement x (E_PkScript e) =
     (if length e > 34 then wfail ErrPkScriptTooLong else WriteBytes (wire_VarBytes x e))"
| "WriteElement x (E_RawFeatureVector e) =
     (case e of None \<Rightarrow> wfail ErrNilFeatureVector | Some fv \<Rightarrow> fv_Encode fv)"
| "WriteElement x (E_OutPoint e) = WriteElement_OutPoint e"
| "WriteElement x (E_ChannelID e) = WriteBytes e"
| "WriteElement x (E_FailCode e) = WriteBytes (PutUint16 e)"
| "WriteElement x (E_ShortChannelID e) = WriteElement_ShortChannelID e"
| "WriteElement x (E_NetAddr e) = WriteElement_NetAddr x e"
| "WriteElement x (E_NetAddrs e) = WriteElement_NetAddrs x e"
| "WriteElement x (E_RGBA e) = wseq [WriteBytes [col_R e], WriteBytes [col_G e], WriteBytes [col_B e]]"
| "WriteElement x (E_DeliveryAddress e) =
     wseq [WriteBytes (PutUint16 (word_of_nat (length e))), WriteBytes e]"
| "WriteElement x (E_bool e) = WriteBytes [if e then 1 else 0]"
| "WriteElement x (E_ExtraOpaqueData e) = ExtraOpaqueData_Encode e"

definition WriteElements :: "('pk, 'z) ext_scheme \<Rightarrow> 'pk element list \<Rightarrow> writer" where
  "WriteElements x elements = wseq (map (WriteElement x) elements)"

text \<open>The function of \<^verbatim>\<open>writer.go\<close> for each type.\<close>

fun WriteTyped :: "('pk, 'z) ext_scheme \<Rightarrow> 'pk element \<Rightarrow> writer" where
  "WriteTyped x (E_NodeAlias e) = WriteNodeAlias e"
| "WriteTyped x (E_ShortChanIDEncoding e) = WriteShortChanIDEncoding e"
| "WriteTyped x (E_uint8 e) = WriteUint8 e"
| "WriteTyped x (E_FundingFlag e) = WriteFundingFlag e"
| "WriteTyped x (E_uint16 e) = WriteUint16 e"
| "WriteTyped x (E_ChanUpdateMsgFlags e) = WriteChanUpdateMsgFlags e"
| "WriteTyped x (E_ChanUpdateChanFlags e) = WriteChanUpdateChanFlags e"
| "WriteTyped x (E_MilliSatoshi e) = WriteMilliSatoshi e"
| "WriteTyped x (E_omniAmount e) = WriteAssetMinUnit e"
| "WriteTyped x (E_UnitPrec11 e) = WriteUint64 e"
| "WriteTyped x (E_UnitPrec8 e) = WriteUint64 e"
| "WriteTyped x (E_btcAmount e) = WriteSatoshi e"
| "WriteTyped x (E_uint32 e) = WriteUint32 e"
| "WriteTyped x (E_uint64 e) = WriteUint64 e"
| "WriteTyped x (E_PublicKey e) = WritePublicKey x e"
| "WriteTyped x (E_Sigs e) = WriteSigs e"
| "WriteTyped x (E_Sig e) = WriteSig e"
| "WriteTyped x (E_PingPayload e) = WritePingPayload e"
| "WriteTyped x (E_PongPayload e) = WritePongPayload e"
| "WriteTyped x (E_ErrorData e) = WriteErrorData e"
| "WriteTyped x (E_OpaqueReason e) = WriteOpaqueReason e"
| "WriteTyped x (E_array33 e) = WriteBytes e"
| "WriteTyped x (E_bytes e) = WriteBytes e"
| "WriteTyped x (E_PkScript e) = WritePkScript x e"
| "WriteTyped x (E_RawFeatureVector e) = WriteRawFeatureVector e"
| "WriteTyped x (E_OutPoint e) = WriteOutPoint e"
| "WriteTyped x (E_ChannelID e) = WriteChannelID e"
| "WriteTyped x (E_FailCode e) = WriteFailCode e"
| "WriteTyped x (E_ShortChannelID e) = WriteShortChannelID e"
| "WriteTyped x (E_NetAddr e) = WriteNetAddr x e"
| "WriteTyped x (E_NetAddrs e) = WriteNetAddrs x e"
| "WriteTyped x (E_RGBA e) = WriteColorRGBA e"
| "WriteTyped x (E_DeliveryAddress e) = WriteDeliveryAddress e"
| "WriteTyped x (E_bool e) = WriteBool e"
| "WriteTyped x (E_ExtraOpaqueData e) = WriteBytes e"

text \<open>
  The values for which the Go types or the network stack guarantee a length: hashes of 32 bytes,
  IP addresses of 4 or 16.
\<close>

definition ip_ok :: "NetAddr \<Rightarrow> bool" where
  "ip_ok address = (case address of
       TCPAddrPtr (Some a) \<Rightarrow> length (tcp_IP a) = 4 \<or> length (tcp_IP a) = 16
     | _ \<Rightarrow> True)"

fun element_ok :: "'pk element \<Rightarrow> bool" where
  "element_ok (E_OutPoint e) \<longleftrightarrow> length (op_Hash e) = 32"
| "element_ok (E_NetAddr e) \<longleftrightarrow> ip_ok e"
| "element_ok (E_NetAddrs e) \<longleftrightarrow> list_all ip_ok e"
| "element_ok _ \<longleftrightarrow> True"

text \<open>
  Two writers agree if they fail on the same buffers and write the same bytes when they succeed;
  what they leave behind when they fail may differ.
\<close>

definition wagree :: "writer \<Rightarrow> writer \<Rightarrow> bool" where
  "wagree w v \<longleftrightarrow> (\<forall>buf. (snd (w buf) = None \<longleftrightarrow> snd (v buf) = None) \<and>
     (snd (w buf) = None \<longrightarrow> w buf = v buf))"

lemma wagree_refl [simp]: "wagree w w"
  by (simp add: wagree_def)

lemma wagree_wfail [simp]: "wagree (wfail e) (wfail e')"
  by (simp add: wagree_def wfail_def)

lemma wagreeI:
  "(\<And>buf. (\<exists>b. w buf = (b, None) \<and> v buf = (b, None)) \<or>
     (\<exists>b e b' e'. w buf = (b, Some e) \<and> v buf = (b', Some e'))) \<Longrightarrow> wagree w v"
  unfolding wagree_def by (metis fst_conv snd_conv option.distinct(1))

lemma wagreeE:
  assumes "wagree w v"
  obtains (ok) b where "w buf = (b, None)" and "v buf = (b, None)"
    | (err) b e b' e' where "w buf = (b, Some e)" and "v buf = (b', Some e')"
  using assms unfolding wagree_def by (metis prod.collapse option.collapse)

lemma wagree_wseq_Cons:
  assumes "wagree w v" and "wagree (wseq ws) (wseq vs)"
  shows "wagree (wseq (w # ws)) (wseq (v # vs))"
proof (rule wagreeI, goal_cases)
  case (1 buf)
  show ?case
    using assms(1)
  proof (cases rule: wagreeE [where buf = buf])
    case (ok b)
    then show ?thesis
      using wagreeE [OF assms(2), of b] by (simp, metis)
  qed simp
qed

lemma wagree_wseq_map:
  "list_all (\<lambda>a. wagree (f a) (g a)) as \<Longrightarrow> wagree (wseq (map f as)) (wseq (map g as))"
  by (induction as) (simp_all add: wagree_wseq_Cons del: wseq.simps)

lemma copy_array_id: "length s = n \<Longrightarrow> copy_array n s = s"
  by (simp add: copy_array_def)

lemma WriteElement_TCPAddr_eq:
  assumes "length (tcp_IP a) = 4 \<or> length (tcp_IP a) = 16"
  shows "WriteElement_TCPAddr (Some a) = WriteTCPAddr (Some a)"
proof (cases "IP_To4 (tcp_IP a)")
  case None
  then have "length (IP_To16 (tcp_IP a)) = 16"
    using assms by (auto simp: IP_To4_def IP_To16_def)
  then show ?thesis
    using None by (auto simp: WriteElement_TCPAddr_def WriteTCPAddr_def copy_array_id wire_simps)
next
  case (Some ip)
  then have "length ip = 4" by (auto simp: IP_To4_def split: if_splits)
  then show ?thesis
    using Some by (auto simp: WriteElement_TCPAddr_def WriteTCPAddr_def copy_array_id wire_simps)
qed

lemma WriteElement_TCPAddr_None: "WriteElement_TCPAddr None = WriteTCPAddr None"
  by (simp add: WriteElement_TCPAddr_def WriteTCPAddr_def)

lemma WriteElement_OnionAddr_agrees: "wagree (WriteElement_OnionAddr x a) (WriteOnionAddr x a)"
  by (rule wagreeI) (auto simp: WriteElement_OnionAddr_def WriteOnionAddr_def Let_def wfail_def
      wire_simps split: option.split)

lemma WriteElement_NetAddr_agrees: "ip_ok a \<Longrightarrow> wagree (WriteElement_NetAddr x a) (WriteNetAddr x a)"
  by (auto simp: ip_ok_def WriteElement_NetAddr_def WriteNetAddr_def WriteElement_TCPAddr_eq
      WriteElement_OnionAddr_agrees WriteElement_TCPAddr_None
      split: NetAddr.splits option.splits)

lemma WriteElement_NetAddrs_agrees:
  assumes "list_all ip_ok as"
  shows "wagree (WriteElement_NetAddrs x as) (WriteNetAddrs x as)"
proof (rule wagreeI, goal_cases)
  case (1 buf)
  have "wagree (wseq (map (WriteElement_NetAddr x) as)) (wseq (map (WriteNetAddr x) as))"
    using assms by (intro wagree_wseq_map) (auto simp: list_all_iff WriteElement_NetAddr_agrees)
  then show ?case
    by (cases rule: wagreeE [where buf = "[]"])
       (simp_all add: WriteElement_NetAddrs_def WriteNetAddrs_def writeDataWithLength_def wire_simps
         wfail_def)
qed

text \<open>
  \<^verbatim>\<open>WriteElement\<close> and the typed writers are the same encoder: for every element type, one
  succeeds exactly when the other does, and then both append the same bytes.  The type switch
  pads an IP address of an impossible length to 16 bytes where \<^verbatim>\<open>WriteTCPAddr\<close> writes none, so
  IP addresses are required to have a length that Go's parser gives them.
\<close>
theorem WriteElement_agrees:
  assumes "pubkey_ok x" and "element_ok e"
  shows "wagree (WriteElement x e) (WriteTyped x e)"
proof (cases e)
  case (E_PublicKey k)
  then show ?thesis
    using assms(1) by (auto simp: WritePublicKey_def pubkey_ok_def copy_array_id split: option.splits)
next
  case (E_OutPoint p)
  then show ?thesis
    using assms(2) by (simp add: WriteElement_OutPoint_def WriteOutPoint_def copy_array_id wagree_def
        wire_simps wfail_def)
next
  case (E_ShortChannelID c)
  then show ?thesis
    by (simp add: WriteElement_ShortChannelID_def WriteShortChannelID_def WriteUint16_def)
next
  case (E_NetAddr a)
  then show ?thesis using assms(2) by (simp add: WriteElement_NetAddr_agrees)
next
  case (E_NetAddrs as)
  then show ?thesis using assms(2) by (simp add: WriteElement_NetAddrs_agrees)
next
  case (E_Sigs s)
  then show ?thesis by (simp add: WriteSigs_def WriteUint16_def WriteSig_def [abs_def] eta_contract_eq)
qed (simp_all add: int_codec_defs array_codec_defs WriteSigs_def WritePingPayload_def
    WritePongPayload_def WriteErrorData_def WriteOpaqueReason_def WriteDeliveryAddress_def
    writeDataWithLength_def WritePkScript_def WriteRawFeatureVector_def WriteColorRGBA_def
    WriteBool_def ExtraOpaqueData_Encode_def)

theorem WriteElement_agrees_witness:
  "wagree (WriteElement sample_ext (E_NetAddrs [TCPAddrPtr (Some \<lparr>tcp_IP = [127, 0, 0, 1], tcp_Port = 9735\<rparr>)]))
     (WriteTyped sample_ext (E_NetAddrs [TCPAddrPtr (Some \<lparr>tcp_IP = [127, 0, 0, 1], tcp_Port = 9735\<rparr>)]))"
  using WriteElement_agrees [OF pubkey_ok_sample,
      of "E_NetAddrs [TCPAddrPtr (Some \<lparr>tcp_IP = [127, 0, 0, 1], tcp_Port = 9735\<rparr>)]"]
  by (simp add: ip_ok_def)

end
