(* ===== verification/Wire_Msg_Update.thy ===== *)
theory Wire_Msg_Update
  imports Wire_Primitives
begin

text \<open>
  The messages of the channel update protocol, one file of \<^verbatim>\<open>lnwire\<close> each: adding, settling and
  failing HTLCs, the fee update, the commitment signature, the revocation, and the
  reestablishment of a channel after a reconnect.  Each has its struct as a record, its zero
  value as \<^verbatim>\<open>makeEmptyMessage\<close> creates it, its \<^verbatim>\<open>Encode\<close> as the sequence of writes and its
  \<^verbatim>\<open>Decode\<close> as the sequence of reads into the receiver; each is an interpretation of
  \<open>wire_message\<close>.  The protocol version, which no codec looks at, is left out.
\<close>

definition OnionPacketSize :: nat where "OnionPacketSize = 1366"

subsection \<open>UpdateAddHTLC\<close>

record UpdateAddHTLC =
  ah_ChanID :: ChannelID
  ah_ID :: u64
  ah_Amount :: UnitPrec11
  ah_AssetID :: u32
  ah_PaymentHash :: bytes
  ah_Expiry :: u32
  ah_OnionBlob :: bytes
  ah_ExtraData :: bytes

definition UpdateAddHTLC_zero :: UpdateAddHTLC where
  "UpdateAddHTLC_zero = \<lparr>ah_ChanID = replicate 32 0,
     ah_ID = 0,
     ah_Amount = 0,
     ah_AssetID = 0,
     ah_PaymentHash = replicate 32 0,
     ah_Expiry = 0,
     ah_OnionBlob = replicate OnionPacketSize 0,
     ah_ExtraData = []\<rparr>"

definition UpdateAddHTLC_Encode :: "UpdateAddHTLC \<Rightarrow> writer" where
  "UpdateAddHTLC_Encode m = wseq
     [WriteChannelID (ah_ChanID m),
      WriteUint64 (ah_ID m),
      WriteUint32 (ah_AssetID m),
      WriteUint64 (ah_Amount m),
      WriteBytes (ah_PaymentHash m),
      WriteUint32 (ah_Expiry m),
      WriteBytes (ah_OnionBlob m),
      WriteBytes (ah_ExtraData m)]"

definition UpdateAddHTLC_Decode :: "UpdateAddHTLC \<Rightarrow> UpdateAddHTLC reader" where
  "UpdateAddHTLC_Decode m =
     rbind Read_ChannelID (\<lambda>v0.
     rbind Read_uint64 (\<lambda>v1.
     rbind Read_uint32 (\<lambda>v2.
     rbind Read_UnitPrec11 (\<lambda>v3.
     rbind (Read_bytes 32) (\<lambda>v4.
     rbind Read_uint32 (\<lambda>v5.
     rbind (Read_bytes OnionPacketSize) (\<lambda>v6.
     rbind ExtraOpaqueData_Decode (\<lambda>v7.
     rret (m\<lparr>ah_ChanID := v0,
       ah_ID := v1,
       ah_AssetID := v2,
       ah_Amount := v3,
       ah_PaymentHash := v4,
       ah_Expiry := v5,
       ah_OnionBlob := v6,
       ah_ExtraData := v7\<rparr>)))))))))"

definition UpdateAddHTLC_wf :: "UpdateAddHTLC \<Rightarrow> bool" where
  "UpdateAddHTLC_wf m \<longleftrightarrow> length (ah_ChanID m) = 32 \<and>
     length (ah_PaymentHash m) = 32 \<and>
     length (ah_OnionBlob m) = OnionPacketSize"

interpretation update_add_htlc:
  wire_message UpdateAddHTLC_Encode "UpdateAddHTLC_Decode UpdateAddHTLC_zero" UpdateAddHTLC_wf "\<lambda>m. m"
proof unfold_locales
  fix m :: UpdateAddHTLC
  show "appends (UpdateAddHTLC_Encode m)"
    by (simp add: UpdateAddHTLC_Encode_def)
  assume "UpdateAddHTLC_wf m"
  then show "msg_roundtrip UpdateAddHTLC_Encode (UpdateAddHTLC_Decode UpdateAddHTLC_zero) m m"
    by (simp add: msg_roundtrip_simps wire_simps UpdateAddHTLC_Encode_def UpdateAddHTLC_Decode_def
        UpdateAddHTLC_wf_def UpdateAddHTLC_zero_def)
qed

subsection \<open>UpdateFulfillHTLC\<close>

record UpdateFulfillHTLC =
  fh_ChanID :: ChannelID
  fh_ID :: u64
  fh_PaymentPreimage :: bytes
  fh_ExtraData :: bytes

definition UpdateFulfillHTLC_zero :: UpdateFulfillHTLC where
  "UpdateFulfillHTLC_zero = \<lparr>fh_ChanID = replicate 32 0,
     fh_ID = 0,
     fh_PaymentPreimage = replicate 32 0,
     fh_ExtraData = []\<rparr>"

definition UpdateFulfillHTLC_Encode :: "UpdateFulfillHTLC \<Rightarrow> writer" where
  "UpdateFulfillHTLC_Encode m = wseq
     [WriteChannelID (fh_ChanID m),
      WriteUint64 (fh_ID m),
      WriteBytes (fh_PaymentPreimage m),
      WriteBytes (fh_ExtraData m)]"

definition UpdateFulfillHTLC_Decode :: "UpdateFulfillHTLC \<Rightarrow> UpdateFulfillHTLC reader" where
  "UpdateFulfillHTLC_Decode m =
     rbind Read_ChannelID (\<lambda>v0.
     rbind Read_uint64 (\<lambda>v1.
     rbind (Read_bytes 32) (\<lambda>v2.
     rbind ExtraOpaqueData_Decode (\<lambda>v3.
     rret (m\<lparr>fh_ChanID := v0,
       fh_ID := v1,
       fh_PaymentPreimage := v2,
       fh_ExtraData := v3\<rparr>)))))"

definition UpdateFulfillHTLC_wf :: "UpdateFulfillHTLC \<Rightarrow> bool" where
  "UpdateFulfillHTLC_wf m \<longleftrightarrow> length (fh_ChanID m) = 32 \<and>
     length (fh_PaymentPreimage m) = 32"

interpretation update_fulfill_htlc:
  wire_message UpdateFulfillHTLC_Encode "UpdateFulfillHTLC_Decode UpdateFulfillHTLC_zero" UpdateFulfillHTLC_wf "\<lambda>m. m"
proof unfold_locales
  fix m :: UpdateFulfillHTLC
  show "appends (UpdateFulfillHTLC_Encode m)"
    by (simp add: UpdateFulfillHTLC_Encode_def)
  assume "UpdateFulfillHTLC_wf m"
  then show "msg_roundtrip UpdateFulfillHTLC_Encode (UpdateFulfillHTLC_Decode UpdateFulfillHTLC_zero) m m"
    by (simp add: msg_roundtrip_simps wire_simps UpdateFulfillHTLC_Encode_def UpdateFulfillHTLC_Decode_def
        UpdateFulfillHTLC_wf_def UpdateFulfillHTLC_zero_def)
qed

subsection \<open>UpdateFailHTLC\<close>

record UpdateFailHTLC =
  xh_ChanID :: ChannelID
  xh_ID :: u64
  xh_Reason :: bytes
  xh_ExtraData :: bytes

definition UpdateFailHTLC_zero :: UpdateFailHTLC where
  "UpdateFailHTLC_zero = \<lparr>xh_ChanID = replicate 32 0,
     xh_ID = 0,
     xh_Reason = [],
     xh_ExtraData = []\<rparr>"

definition UpdateFailHTLC_Encode :: "UpdateFailHTLC \<Rightarrow> writer" where
  "UpdateFailHTLC_Encode m = wseq
     [WriteChannelID (xh_ChanID m),
      WriteUint64 (xh_ID m),
      WriteOpaqueReason (xh_Reason m),
      WriteBytes (xh_ExtraData m)]"

definition UpdateFailHTLC_Decode :: "UpdateFailHTLC \<Rightarrow> UpdateFailHTLC reader" where
  "UpdateFailHTLC_Decode m =
     rbind Read_ChannelID (\<lambda>v0.
     rbind Read_uint64 (\<lambda>v1.
     rbind Read_OpaqueReason (\<lambda>v2.
     rbind ExtraOpaqueData_Decode (\<lambda>v3.
     rret (m\<lparr>xh_ChanID := v0,
       xh_ID := v1,
       xh_Reason := v2,
       xh_ExtraData := v3\<rparr>)))))"

definition UpdateFailHTLC_wf :: "UpdateFailHTLC \<Rightarrow> bool" where
  "UpdateFailHTLC_wf m \<longleftrightarrow> length (xh_ChanID m) = 32 \<and>
     data_wf (xh_Reason m)"

interpretation update_fail_htlc:
  wire_message UpdateFailHTLC_Encode "UpdateFailHTLC_Decode UpdateFailHTLC_zero" UpdateFailHTLC_wf "\<lambda>m. m"
proof unfold_locales
  fix m :: UpdateFailHTLC
  show "appends (UpdateFailHTLC_Encode m)"
    by (simp add: UpdateFailHTLC_Encode_def)
  assume "UpdateFailHTLC_wf m"
  then show "msg_roundtrip UpdateFailHTLC_Encode (UpdateFailHTLC_Decode UpdateFailHTLC_zero) m m"
    by (simp add: msg_roundtrip_simps wire_simps UpdateFailHTLC_Encode_def UpdateFailHTLC_Decode_def
        UpdateFailHTLC_wf_def UpdateFailHTLC_zero_def)
qed

subsection \<open>UpdateFailMalformedHTLC\<close>

record UpdateFailMalformedHTLC =
  mh_ChanID :: ChannelID
  mh_ID :: u64
  mh_ShaOnionBlob :: bytes
  mh_FailureCode :: u16
  mh_ExtraData :: bytes

definition UpdateFailMalformedHTLC_zero :: UpdateFailMalformedHTLC where
  "UpdateFailMalformedHTLC_zero = \<lparr>mh_ChanID = replicate 32 0,
     mh_ID = 0,
     mh_ShaOnionBlob = replicate 32 0,
     mh_FailureCode = 0,
     mh_ExtraData = []\<rparr>"

definition UpdateFailMalformedHTLC_Encode :: "UpdateFailMalformedHTLC \<Rightarrow> writer" where
  "UpdateFailMalformedHTLC_Encode m = wseq
     [WriteChannelID (mh_ChanID m),
      WriteUint64 (mh_ID m),
      WriteBytes (mh_ShaOnionBlob m),
      WriteFailCode (mh_FailureCode m),
      WriteBytes (mh_ExtraData m)]"

definition UpdateFailMalformedHTLC_Decode :: "UpdateFailMalformedHTLC \<Rightarrow> UpdateFailMalformedHTLC reader" where
  "UpdateFailMalformedHTLC_Decode m =
     rbind Read_ChannelID (\<lambda>v0.
     rbind Read_uint64 (\<lambda>v1.
     rbind (Read_bytes 32) (\<lambda>v2.
     rbind Read_FailCode (\<lambda>v3.
     rbind ExtraOpaqueData_Decode (\<lambda>v4.
     rret (m\<lparr>mh_ChanID := v0,
       mh_ID := v1,
       mh_ShaOnionBlob := v2,
       mh_FailureCode := v3,
       mh_ExtraData := v4\<rparr>))))))"

definition UpdateFailMalformedHTLC_wf :: "UpdateFailMalformedHTLC \<Rightarrow> bool" where
  "UpdateFailMalformedHTLC_wf m \<longleftrightarrow> length (mh_ChanID m) = 32 \<and>
     length (mh_ShaOnionBlob m) = 32"

interpretation update_fail_malformed_htlc:
  wire_message UpdateFailMalformedHTLC_Encode "UpdateFailMalformedHTLC_Decode UpdateFailMalformedHTLC_zero" UpdateFailMalformedHTLC_wf "\<lambda>m. m"
proof unfold_locales
  fix m :: UpdateFailMalformedHTLC
  show "appends (UpdateFailMalformedHTLC_Encode m)"
    by (simp add: UpdateFailMalformedHTLC_Encode_def)
  assume "UpdateFailMalformedHTLC_wf m"
  then show "msg_roundtrip UpdateFailMalformedHTLC_Encode (UpdateFailMalformedHTLC_Decode UpdateFailMalformedHTLC_zero) m m"
    by (simp add: msg_roundtrip_simps wire_simps UpdateFailMalformedHTLC_Encode_def UpdateFailMalformedHTLC_Decode_def
        UpdateFailMalformedHTLC_wf_def UpdateFailMalformedHTLC_zero_def)
qed

subsection \<open>UpdateFee\<close>

text \<open>The struct has an asset id that neither \<^verbatim>\<open>Encode\<close> nor \<^verbatim>\<open>Decode\<close> touches.\<close>


record UpdateFee =
  uf_ChanID :: ChannelID
  uf_AssetID :: u32
  uf_FeePerKw :: u32
  uf_ExtraData :: bytes

definition UpdateFee_zero :: UpdateFee where
  "UpdateFee_zero = \<lparr>uf_ChanID = replicate 32 0,
     uf_AssetID = 0,
     uf_FeePerKw = 0,
     uf_ExtraData = []\<rparr>"

definition UpdateFee_Encode :: "UpdateFee \<Rightarrow> writer" where
  "UpdateFee_Encode m = wseq
     [WriteChannelID (uf_ChanID m),
      WriteUint32 (uf_FeePerKw m),
      WriteBytes (uf_ExtraData m)]"

definition UpdateFee_Decode :: "UpdateFee \<Rightarrow> UpdateFee reader" where
  "UpdateFee_Decode m =
     rbind Read_ChannelID (\<lambda>v0.
     rbind Read_uint32 (\<lambda>v1.
     rbind ExtraOpaqueData_Decode (\<lambda>v2.
     rret (m\<lparr>uf_ChanID := v0,
       uf_FeePerKw := v1,
       uf_ExtraData := v2\<rparr>))))"

definition UpdateFee_wf :: "UpdateFee \<Rightarrow> bool" where
  "UpdateFee_wf m \<longleftrightarrow> length (uf_ChanID m) = 32"

interpretation update_fee:
  wire_message UpdateFee_Encode "UpdateFee_Decode UpdateFee_zero" UpdateFee_wf "\<lambda>m. m\<lparr>uf_AssetID := 0\<rparr>"
proof unfold_locales
  fix m :: UpdateFee
  show "appends (UpdateFee_Encode m)"
    by (simp add: UpdateFee_Encode_def)
  assume "UpdateFee_wf m"
  then show "msg_roundtrip UpdateFee_Encode (UpdateFee_Decode UpdateFee_zero) m ((\<lambda>m. m\<lparr>uf_AssetID := 0\<rparr>) m)"
    by (simp add: msg_roundtrip_simps wire_simps UpdateFee_Encode_def UpdateFee_Decode_def
        UpdateFee_wf_def UpdateFee_zero_def)
qed

subsection \<open>CommitSig\<close>

record CommitSig =
  cs_ChanID :: ChannelID
  cs_CommitSig :: Sig
  cs_HtlcSigs :: "Sig list"
  cs_ExtraData :: bytes

definition CommitSig_zero :: CommitSig where
  "CommitSig_zero = \<lparr>cs_ChanID = replicate 32 0,
     cs_CommitSig = replicate 64 0,
     cs_HtlcSigs = [],
     cs_ExtraData = []\<rparr>"

definition CommitSig_Encode :: "CommitSig \<Rightarrow> writer" where
  "CommitSig_Encode m = wseq
     [WriteChannelID (cs_ChanID m),
      WriteSig (cs_CommitSig m),
      WriteSigs (cs_HtlcSigs m),
      WriteBytes (cs_ExtraData m)]"

definition CommitSig_Decode :: "CommitSig \<Rightarrow> CommitSig reader" where
  "CommitSig_Decode m =
     rbind Read_ChannelID (\<lambda>v0.
     rbind Read_Sig (\<lambda>v1.
     rbind Read_Sigs (\<lambda>v2.
     rbind ExtraOpaqueData_Decode (\<lambda>v3.
     rret (m\<lparr>cs_ChanID := v0,
       cs_CommitSig := v1,
       cs_HtlcSigs := v2,
       cs_ExtraData := v3\<rparr>)))))"

definition CommitSig_wf :: "CommitSig \<Rightarrow> bool" where
  "CommitSig_wf m \<longleftrightarrow> length (cs_ChanID m) = 32 \<and>
     length (cs_CommitSig m) = 64 \<and>
     sigs_wf (cs_HtlcSigs m)"

interpretation commit_sig:
  wire_message CommitSig_Encode "CommitSig_Decode CommitSig_zero" CommitSig_wf "\<lambda>m. m"
proof unfold_locales
  fix m :: CommitSig
  show "appends (CommitSig_Encode m)"
    by (simp add: CommitSig_Encode_def)
  assume "CommitSig_wf m"
  then show "msg_roundtrip CommitSig_Encode (CommitSig_Decode CommitSig_zero) m m"
    by (simp add: msg_roundtrip_simps wire_simps CommitSig_Encode_def CommitSig_Decode_def
        CommitSig_wf_def CommitSig_zero_def)
qed

subsection \<open>RevokeAndAck\<close>

record 'pk RevokeAndAck =
  ra_ChanID :: ChannelID
  ra_Revocation :: bytes
  ra_NextRevocationKey :: "'pk option"
  ra_ExtraData :: bytes

definition RevokeAndAck_zero :: "'pk RevokeAndAck" where
  "RevokeAndAck_zero = \<lparr>ra_ChanID = replicate 32 0,
     ra_Revocation = replicate 32 0,
     ra_NextRevocationKey = None,
     ra_ExtraData = []\<rparr>"

definition RevokeAndAck_Encode :: "('pk, 'z) ext_scheme \<Rightarrow> 'pk RevokeAndAck \<Rightarrow> writer" where
  "RevokeAndAck_Encode x m = wseq
     [WriteChannelID (ra_ChanID m),
      WriteBytes (ra_Revocation m),
      WritePublicKey x (ra_NextRevocationKey m),
      WriteBytes (ra_ExtraData m)]"

definition RevokeAndAck_Decode :: "('pk, 'z) ext_scheme \<Rightarrow> 'pk RevokeAndAck \<Rightarrow> 'pk RevokeAndAck reader" where
  "RevokeAndAck_Decode x m =
     rbind Read_ChannelID (\<lambda>v0.
     rbind (Read_bytes 32) (\<lambda>v1.
     rbind (Read_PublicKey x) (\<lambda>v2.
     rbind ExtraOpaqueData_Decode (\<lambda>v3.
     rret (m\<lparr>ra_ChanID := v0,
       ra_Revocation := v1,
       ra_NextRevocationKey := v2,
       ra_ExtraData := v3\<rparr>)))))"

definition RevokeAndAck_wf :: "'pk RevokeAndAck \<Rightarrow> bool" where
  "RevokeAndAck_wf m \<longleftrightarrow> length (ra_ChanID m) = 32 \<and>
     length (ra_Revocation m) = 32 \<and>
     ra_NextRevocationKey m \<noteq> None"

lemma RevokeAndAck_message:
  fixes x :: "('pk, 'z) ext_scheme"
  assumes "pubkey_ok x"
  shows "wire_message (RevokeAndAck_Encode x) (RevokeAndAck_Decode x RevokeAndAck_zero) RevokeAndAck_wf (\<lambda>m. m)"
proof unfold_locales
  fix m :: "'pk RevokeAndAck"
  show "appends (RevokeAndAck_Encode x m)"
    by (simp add: RevokeAndAck_Encode_def)
  assume "RevokeAndAck_wf m"
  then show "msg_roundtrip (RevokeAndAck_Encode x) (RevokeAndAck_Decode x RevokeAndAck_zero) m m"
    using assms by (simp add: msg_roundtrip_simps wire_simps RevokeAndAck_Encode_def RevokeAndAck_Decode_def
        RevokeAndAck_wf_def RevokeAndAck_zero_def)
qed

subsection \<open>ChannelReestablish\<close>

record 'pk ChannelReestablish =
  cr_ChanID :: ChannelID
  cr_NextLocalCommitHeight :: u64
  cr_RemoteCommitTailHeight :: u64
  cr_LastRemoteCommitSecret :: bytes
  cr_LocalUnrevokedCommitPoint :: "'pk option"
  cr_ExtraData :: bytes

definition ChannelReestablish_zero :: "'pk ChannelReestablish" where
  "ChannelReestablish_zero = \<lparr>cr_ChanID = replicate 32 0,
     cr_NextLocalCommitHeight = 0,
     cr_RemoteCommitTailHeight = 0,
     cr_LastRemoteCommitSecret = replicate 32 0,
     cr_LocalUnrevokedCommitPoint = None,
     cr_ExtraData = []\<rparr>"

definition ChannelReestablish_Encode ::
  "('pk, 'z) ext_scheme \<Rightarrow> 'pk ChannelReestablish \<Rightarrow> writer" where
  "ChannelReestablish_Encode x m = wseq
     [WriteChannelID (cr_ChanID m),
      WriteUint64 (cr_NextLocalCommitHeight m),
      WriteUint64 (cr_RemoteCommitTailHeight m),
      (if cr_LocalUnrevokedCommitPoint m = None then WriteBytes (cr_ExtraData m)
       else wseq
         [WriteBytes (cr_LastRemoteCommitSecret m),
          WritePublicKey x (cr_LocalUnrevokedCommitPoint m),
          WriteBytes (cr_ExtraData m)])]"

definition ChannelReestablish_Decode ::
  "('pk, 'z) ext_scheme \<Rightarrow> 'pk ChannelReestablish \<Rightarrow> 'pk ChannelReestablish reader" where
  "ChannelReestablish_Decode x m =
     rbind Read_ChannelID (\<lambda>v0.
     rbind Read_uint64 (\<lambda>v1.
     rbind Read_uint64 (\<lambda>v2. \<lambda>bs.
       let m' = m\<lparr>cr_ChanID := v0, cr_NextLocalCommitHeight := v1, cr_RemoteCommitTailHeight := v2\<rparr>
       in case ReadFull 32 bs of
            Inl e \<Rightarrow> if e = EOF then Inr (m'\<lparr>cr_ExtraData := []\<rparr>, bs) else Inl e
          | Inr (buf, bs') \<Rightarrow>
              rbind (Read_PublicKey x) (\<lambda>v4.
              rbind ExtraOpaqueData_Decode (\<lambda>v5.
              rret (m'\<lparr>cr_LastRemoteCommitSecret := buf,
                cr_LocalUnrevokedCommitPoint := v4,
                cr_ExtraData := v5\<rparr>))) bs')))"

text \<open>
  Without a commitment point the receiver cannot tell extra data from the secret, so a message
  without a point is well formed only without extra data; its secret is not sent.
\<close>

definition ChannelReestablish_wf :: "'pk ChannelReestablish \<Rightarrow> bool" where
  "ChannelReestablish_wf m \<longleftrightarrow> length (cr_ChanID m) = 32 \<and>
     length (cr_LastRemoteCommitSecret m) = 32 \<and>
     (cr_LocalUnrevokedCommitPoint m = None \<longrightarrow> cr_ExtraData m = [])"

definition ChannelReestablish_norm :: "'pk ChannelReestablish \<Rightarrow> 'pk ChannelReestablish" where
  "ChannelReestablish_norm m =
     (if cr_LocalUnrevokedCommitPoint m = None then m\<lparr>cr_LastRemoteCommitSecret := replicate 32 0\<rparr>
      else m)"

lemma ReadFull_Nil_32: "ReadFull 32 [] = Inl EOF"
  by (simp add: ReadFull_def)

lemma Read_uint64_ser_Nil: "Read_uint64 (PutUint64 c) = Inr (c, [])"
  using Read_int_ser(4) [of c "[]"] by simp

lemma ChannelReestablish_message:
  fixes x :: "('pk, 'z) ext_scheme"
  assumes "pubkey_ok x"
  shows "wire_message (ChannelReestablish_Encode x)
    (ChannelReestablish_Decode x ChannelReestablish_zero)
    ChannelReestablish_wf ChannelReestablish_norm"
proof unfold_locales
  fix m :: "'pk ChannelReestablish"
  show "appends (ChannelReestablish_Encode x m)"
    by (simp add: ChannelReestablish_Encode_def)
  assume wf: "ChannelReestablish_wf m"
  show "msg_roundtrip (ChannelReestablish_Encode x)
      (ChannelReestablish_Decode x ChannelReestablish_zero) m (ChannelReestablish_norm m)"
  proof (cases "cr_LocalUnrevokedCommitPoint m = None")
    case True
    then show ?thesis
      using assms wf by (simp add: msg_roundtrip_simps wire_simps ChannelReestablish_Encode_def
          ChannelReestablish_Decode_def ChannelReestablish_wf_def ChannelReestablish_norm_def
          ChannelReestablish_zero_def ReadFull_Nil_32 Read_uint64_ser_Nil Let_def)
  next
    case False
    then obtain k where "cr_LocalUnrevokedCommitPoint m = Some k" by auto
    then show ?thesis
      using assms wf by (simp add: msg_roundtrip_simps wire_simps ChannelReestablish_Encode_def
          ChannelReestablish_Decode_def ChannelReestablish_wf_def ChannelReestablish_norm_def
          ChannelReestablish_zero_def Let_def)
  qed
qed

end
