(* ===== verification/Wire_Msg_Channel.thy ===== *)
theory Wire_Msg_Channel
  imports Wire_Addrs
begin

text \<open>
  The messages that open and close a channel.  \<^verbatim>\<open>OpenChannel\<close> and \<^verbatim>\<open>AcceptChannel\<close> end in a TLV
  stream: their \<^verbatim>\<open>Encode\<close> first overwrites the extra data of the message with the packed
  records of the upfront shutdown script, the channel type and the lease expiry, so what a peer
  decodes has that stream as its extra data.  The messages of the simple-send close of asset
  channels carry several signatures.
\<close>

subsection \<open>TLV records of the funding messages\<close>

definition DeliveryAddrType :: u64 where "DeliveryAddrType = 0"
definition ChannelTypeRecordType :: u64 where "ChannelTypeRecordType = 1"
definition LeaseExpiryRecordType :: u64 where "LeaseExpiryRecordType = push_bit 16 1"

lemmas record_types = DeliveryAddrType_def ChannelTypeRecordType_def LeaseExpiryRecordType_def

definition channelTypeEncoder :: "RawFeatureVector \<Rightarrow> bytes" where
  "channelTypeEncoder fv = fst (fv_encode fv (fv_SerializeSize fv) 8 [])"

definition channelTypeDecoder :: "bytes \<Rightarrow> wire_error + tlv_value" where
  "channelTypeDecoder b = (case fv_decode (length b) 8 (NewRawFeatureVector []) b of
       Inl e \<Rightarrow> Inl e
     | Inr (fv, _) \<Rightarrow> Inr (ChannelTypeV fv))"

definition leaseExpiryEncoder :: "('pk, 'z) ext_scheme \<Rightarrow> u32 \<Rightarrow> bytes" where
  "leaseExpiryEncoder x v = tlv_EUint32T x v"

definition leaseExpiryDecoder :: "('pk, 'z) ext_scheme \<Rightarrow> bytes \<Rightarrow> wire_error + tlv_value" where
  "leaseExpiryDecoder x b = map_sum id LeaseExpiryV (tlv_DUint32 x b)"

definition DeliveryAddress_Record :: "('pk, 'z) ext_scheme \<Rightarrow> bytes \<Rightarrow> u64 \<times> bytes" where
  "DeliveryAddress_Record x d = (DeliveryAddrType, tlv_EVarBytes x d)"

definition ChannelType_Record :: "RawFeatureVector \<Rightarrow> u64 \<times> bytes" where
  "ChannelType_Record c = (ChannelTypeRecordType, channelTypeEncoder c)"

definition LeaseExpiry_Record :: "('pk, 'z) ext_scheme \<Rightarrow> u32 \<Rightarrow> u64 \<times> bytes" where
  "LeaseExpiry_Record x l = (LeaseExpiryRecordType, leaseExpiryEncoder x l)"

definition PackRecords ::
  "('pk, 'z) ext_scheme \<Rightarrow> (u64 \<times> bytes) list \<Rightarrow> wire_error + bytes" where
  "PackRecords x records = tlv_Encode x (sort_key fst records)"

definition ExtractRecords ::
  "('pk, 'z) ext_scheme \<Rightarrow> (u64 \<times> (bytes \<Rightarrow> wire_error + tlv_value)) list \<Rightarrow> bytes \<Rightarrow>
     wire_error + (u64 \<times> tlv_value) list" where
  "ExtractRecords x records e = tlv_DecodeWithParsedTypes x records e"

definition EncodeMessageExtraData ::
  "('pk, 'z) ext_scheme \<Rightarrow> (u64 \<times> bytes) list \<Rightarrow> wire_error + bytes" where
  "EncodeMessageExtraData x records = PackRecords x records"

text \<open>The producers that both \<^verbatim>\<open>Encode\<close> functions assemble and both \<^verbatim>\<open>Decode\<close> functions pass.\<close>

definition recordProducers ::
  "('pk, 'z) ext_scheme \<Rightarrow> bytes \<Rightarrow> RawFeatureVector option \<Rightarrow> u32 option \<Rightarrow> (u64 \<times> bytes) list" where
  "recordProducers x script chanType lease =
     [DeliveryAddress_Record x script] @
     (case chanType of None \<Rightarrow> [] | Some c \<Rightarrow> [ChannelType_Record c]) @
     (case lease of None \<Rightarrow> [] | Some l \<Rightarrow> [LeaseExpiry_Record x l])"

definition recordDecoders ::
  "('pk, 'z) ext_scheme \<Rightarrow> (u64 \<times> (bytes \<Rightarrow> wire_error + tlv_value)) list" where
  "recordDecoders x =
     [(DeliveryAddrType, \<lambda>b. map_sum id DeliveryAddressV (tlv_DVarBytes x b)),
      (ChannelTypeRecordType, channelTypeDecoder),
      (LeaseExpiryRecordType, leaseExpiryDecoder x)]"

definition scriptOf :: "bytes \<Rightarrow> (u64 \<times> tlv_value) list \<Rightarrow> bytes" where
  "scriptOf old typeMap = (case map_of typeMap DeliveryAddrType of
       Some (DeliveryAddressV d) \<Rightarrow> d | _ \<Rightarrow> old)"

definition chanTypeOf :: "RawFeatureVector option \<Rightarrow> (u64 \<times> tlv_value) list \<Rightarrow> RawFeatureVector option" where
  "chanTypeOf old typeMap = (case map_of typeMap ChannelTypeRecordType of
       Some (ChannelTypeV c) \<Rightarrow> Some c | _ \<Rightarrow> old)"

definition leaseOf :: "u32 option \<Rightarrow> (u64 \<times> tlv_value) list \<Rightarrow> u32 option" where
  "leaseOf old typeMap = (case map_of typeMap LeaseExpiryRecordType of
       Some (LeaseExpiryV l) \<Rightarrow> Some l | _ \<Rightarrow> old)"

lemma channelTypeEncoder_bytes: "channelTypeEncoder fv = fv_bytes fv"
  by (simp add: channelTypeEncoder_def fv_encode_def fv_encode_data_bytes WriteBytes_apply)

lemma channelType_roundtrip: "channelTypeDecoder (channelTypeEncoder fv) = Inr (ChannelTypeV fv)"
  by (simp add: channelTypeEncoder_bytes channelTypeDecoder_def fv_decode_def rbind_def
      ReadFull_def rret_apply)

lemma length_channelTypeEncoder: "length (channelTypeEncoder fv) \<le> 65535"
  using fv_SerializeSize_le [of fv] by (simp add: channelTypeEncoder_bytes)

text \<open>The stream of the three records decodes to them, whichever of the optional ones are there.\<close>

lemma funding_records_roundtrip:
  assumes "tlv_ok x" and "length script \<le> 65535"
  obtains bs vals where
    "EncodeMessageExtraData x (recordProducers x script chanType lease) = Inr bs"
    and "ExtractRecords x (recordDecoders x) bs = Inr vals"
    and "scriptOf [] vals = script" "chanTypeOf None vals = chanType" "leaseOf None vals = lease"
proof -
  let ?recs = "recordProducers x script chanType lease"
  let ?vals = "[(DeliveryAddrType, DeliveryAddressV script)] @
     (case chanType of None \<Rightarrow> [] | Some c \<Rightarrow> [(ChannelTypeRecordType, ChannelTypeV c)]) @
     (case lease of None \<Rightarrow> [] | Some l \<Rightarrow> [(LeaseExpiryRecordType, LeaseExpiryV l)])"
  have dec: "tlv_DVarBytes x (tlv_EVarBytes x b) = Inr b" "length (tlv_EVarBytes x b) = length b"
    "tlv_DUint32 x (tlv_EUint32T x v) = Inr v" "length (tlv_EUint32T x v) = 4" for b v
    using assms(1) by (simp_all add: tlv_ok_def)
  have sorted: "sorted_wrt (<) (map fst ?recs)" "sorted_wrt (<) (map fst (recordDecoders x))"
    by (auto simp: recordProducers_def recordDecoders_def DeliveryAddress_Record_def
        ChannelType_Record_def LeaseExpiry_Record_def record_types split: option.split)
  have "list_all2 (\<lambda>(t, b) (t', v). t = t' \<and> length b \<le> 65535 \<and>
      (\<exists>d. map_of (recordDecoders x) t = Some d \<and> d b = Inr v)) ?recs ?vals"
    using assms(2) by (auto simp: recordProducers_def recordDecoders_def DeliveryAddress_Record_def
        ChannelType_Record_def LeaseExpiry_Record_def record_types channelType_roundtrip
        leaseExpiryEncoder_def leaseExpiryDecoder_def dec length_channelTypeEncoder
        split: option.split)
  then obtain bs where "tlv_Encode x ?recs = Inr bs"
    and "tlv_DecodeWithParsedTypes x (recordDecoders x) bs = Inr ?vals"
    using assms(1) sorted unfolding tlv_ok_def by blast
  moreover have "sort_key fst ?recs = ?recs"
    using sorted(1) by (intro sort_key_id_if_sorted strict_sorted_imp_sorted) simp
  ultimately show thesis
    by (intro that [of bs ?vals])
       (auto simp: EncodeMessageExtraData_def PackRecords_def ExtractRecords_def scriptOf_def
         chanTypeOf_def leaseOf_def record_types split: option.split)
qed

subsection \<open>OpenChannel\<close>

record 'pk OpenChannel =
  oc_ChainHash :: bytes
  oc_PendingChannelID :: bytes
  oc_FundingBtcAmount :: Amount
  oc_PushBtcAmount :: MilliSatoshi
  oc_FundingAssetAmount :: Amount
  oc_PushAssetAmount :: Amount
  oc_AssetId :: u32
  oc_DustLimit :: Amount
  oc_MaxValueInFlight :: UnitPrec11
  oc_ChannelReserve :: UnitPrec8
  oc_HtlcMinimum :: UnitPrec11
  oc_FeePerKiloWeight :: u32
  oc_CsvDelay :: u16
  oc_MaxAcceptedHTLCs :: u16
  oc_FundingKey :: "'pk option"
  oc_RevocationPoint :: "'pk option"
  oc_PaymentPoint :: "'pk option"
  oc_DelayedPaymentPoint :: "'pk option"
  oc_HtlcPoint :: "'pk option"
  oc_FirstCommitmentPoint :: "'pk option"
  oc_ChannelFlags :: byte
  oc_UpfrontShutdownScript :: bytes
  oc_ChannelType :: "RawFeatureVector option"
  oc_LeaseExpiry :: "u32 option"
  oc_ExtraData :: bytes

definition OpenChannel_zero :: "'pk OpenChannel" where
  "OpenChannel_zero = \<lparr>oc_ChainHash = replicate 32 0,
     oc_PendingChannelID = replicate 32 0,
     oc_FundingBtcAmount = 0,
     oc_PushBtcAmount = 0,
     oc_FundingAssetAmount = 0,
     oc_PushAssetAmount = 0,
     oc_AssetId = 0,
     oc_DustLimit = 0,
     oc_MaxValueInFlight = 0,
     oc_ChannelReserve = 0,
     oc_HtlcMinimum = 0,
     oc_FeePerKiloWeight = 0,
     oc_CsvDelay = 0,
     oc_MaxAcceptedHTLCs = 0,
     oc_FundingKey = None,
     oc_RevocationPoint = None,
     oc_PaymentPoint = None,
     oc_DelayedPaymentPoint = None,
     oc_HtlcPoint = None,
     oc_FirstCommitmentPoint = None,
     oc_ChannelFlags = 0,
     oc_UpfrontShutdownScript = [],
     oc_ChannelType = None,
     oc_LeaseExpiry = None,
     oc_ExtraData = []\<rparr>"

definition OpenChannel_records :: "('pk, 'z) ext_scheme \<Rightarrow> 'pk OpenChannel \<Rightarrow> wire_error + bytes" where
  "OpenChannel_records x m = EncodeMessageExtraData x (recordProducers x
     (oc_UpfrontShutdownScript m) (oc_ChannelType m) (oc_LeaseExpiry m))"

definition OpenChannel_Encode :: "('pk, 'z) ext_scheme \<Rightarrow> 'pk OpenChannel \<Rightarrow> writer" where
  "OpenChannel_Encode x m = (case OpenChannel_records x m of
       Inl e \<Rightarrow> wfail e
     | Inr extraData \<Rightarrow> wseq
        [WriteBytes (oc_ChainHash m),
         WriteBytes (oc_PendingChannelID m),
         WriteSatoshi (oc_FundingBtcAmount m),
         WriteMilliSatoshi (oc_PushBtcAmount m),
         WriteAssetMinUnit (oc_FundingAssetAmount m),
         WriteAssetMinUnit (oc_PushAssetAmount m),
         WriteUint32 (oc_AssetId m),
         WriteSatoshi (oc_DustLimit m),
         WriteUint64 (oc_MaxValueInFlight m),
         WriteUint64 (oc_ChannelReserve m),
         WriteUint64 (oc_HtlcMinimum m),
         WriteUint32 (oc_FeePerKiloWeight m),
         WriteUint16 (oc_CsvDelay m),
         WriteUint16 (oc_MaxAcceptedHTLCs m),
         WritePublicKey x (oc_FundingKey m),
         WritePublicKey x (oc_RevocationPoint m),
         WritePublicKey x (oc_PaymentPoint m),
         WritePublicKey x (oc_DelayedPaymentPoint m),
         WritePublicKey x (oc_HtlcPoint m),
         WritePublicKey x (oc_FirstCommitmentPoint m),
         WriteFundingFlag (oc_ChannelFlags m),
         WriteBytes extraData])"

definition OpenChannel_Decode :: "('pk, 'z) ext_scheme \<Rightarrow> 'pk OpenChannel \<Rightarrow> 'pk OpenChannel reader" where
  "OpenChannel_Decode x m =
     rbind (Read_bytes 32) (\<lambda>v0.
     rbind (Read_bytes 32) (\<lambda>v1.
     rbind Read_btcAmount (\<lambda>v2.
     rbind Read_MilliSatoshi (\<lambda>v3.
     rbind Read_omniAmount (\<lambda>v4.
     rbind Read_omniAmount (\<lambda>v5.
     rbind Read_uint32 (\<lambda>v6.
     rbind Read_btcAmount (\<lambda>v7.
     rbind Read_UnitPrec11 (\<lambda>v8.
     rbind Read_UnitPrec8 (\<lambda>v9.
     rbind Read_UnitPrec11 (\<lambda>v10.
     rbind Read_uint32 (\<lambda>v11.
     rbind Read_uint16 (\<lambda>v12.
     rbind Read_uint16 (\<lambda>v13.
     rbind (Read_PublicKey x) (\<lambda>v14.
     rbind (Read_PublicKey x) (\<lambda>v15.
     rbind (Read_PublicKey x) (\<lambda>v16.
     rbind (Read_PublicKey x) (\<lambda>v17.
     rbind (Read_PublicKey x) (\<lambda>v18.
     rbind (Read_PublicKey x) (\<lambda>v19.
     rbind Read_FundingFlag (\<lambda>v20.
     rbind ExtraOpaqueData_Decode (\<lambda>tlvRecords.
       case ExtractRecords x (recordDecoders x) tlvRecords of
         Inl e \<Rightarrow> rfail e
       | Inr typeMap \<Rightarrow> rret (m\<lparr>oc_ChainHash := v0,
         oc_PendingChannelID := v1,
         oc_FundingBtcAmount := v2,
         oc_PushBtcAmount := v3,
         oc_FundingAssetAmount := v4,
         oc_PushAssetAmount := v5,
         oc_AssetId := v6,
         oc_DustLimit := v7,
         oc_MaxValueInFlight := v8,
         oc_ChannelReserve := v9,
         oc_HtlcMinimum := v10,
         oc_FeePerKiloWeight := v11,
         oc_CsvDelay := v12,
         oc_MaxAcceptedHTLCs := v13,
         oc_FundingKey := v14,
         oc_RevocationPoint := v15,
         oc_PaymentPoint := v16,
         oc_DelayedPaymentPoint := v17,
         oc_HtlcPoint := v18,
         oc_FirstCommitmentPoint := v19,
         oc_ChannelFlags := v20,
         oc_UpfrontShutdownScript := scriptOf (oc_UpfrontShutdownScript m) typeMap,
         oc_ChannelType := chanTypeOf (oc_ChannelType m) typeMap,
         oc_LeaseExpiry := leaseOf (oc_LeaseExpiry m) typeMap,
         oc_ExtraData := tlvRecords\<rparr>)))))))))))))))))))))))"

definition OpenChannel_wf :: "'pk OpenChannel \<Rightarrow> bool" where
  "OpenChannel_wf m \<longleftrightarrow> length (oc_ChainHash m) = 32 \<and>
     length (oc_PendingChannelID m) = 32 \<and>
     oc_FundingKey m \<noteq> None \<and>
     oc_RevocationPoint m \<noteq> None \<and>
     oc_PaymentPoint m \<noteq> None \<and>
     oc_DelayedPaymentPoint m \<noteq> None \<and>
     oc_HtlcPoint m \<noteq> None \<and>
     oc_FirstCommitmentPoint m \<noteq> None \<and>
     length (oc_UpfrontShutdownScript m) \<le> 65535"

text \<open>What \<^verbatim>\<open>Encode\<close> leaves in the message, and the peer receives.\<close>

definition OpenChannel_norm :: "('pk, 'z) ext_scheme \<Rightarrow> 'pk OpenChannel \<Rightarrow> 'pk OpenChannel" where
  "OpenChannel_norm x m = (case OpenChannel_records x m of
       Inl _ \<Rightarrow> m
     | Inr extraData \<Rightarrow> m\<lparr>oc_ExtraData := extraData\<rparr>)"

lemma OpenChannel_message:
  fixes x :: "('pk, 'z) ext_scheme"
  assumes "pubkey_ok x" and "tlv_ok x"
  shows "wire_message (OpenChannel_Encode x) (OpenChannel_Decode x OpenChannel_zero) OpenChannel_wf
    (OpenChannel_norm x)"
proof unfold_locales
  fix m :: "'pk OpenChannel"
  show "appends (OpenChannel_Encode x m)"
    by (simp add: OpenChannel_Encode_def split: sum.split)
  assume wf: "OpenChannel_wf m"
  then obtain bs vals where
    recs: "EncodeMessageExtraData x (recordProducers x (oc_UpfrontShutdownScript m)
      (oc_ChannelType m) (oc_LeaseExpiry m)) = Inr bs"
      "ExtractRecords x (recordDecoders x) bs = Inr vals"
      "scriptOf [] vals = oc_UpfrontShutdownScript m"
      "chanTypeOf None vals = oc_ChannelType m" "leaseOf None vals = oc_LeaseExpiry m"
    using funding_records_roundtrip [OF assms(2)] unfolding OpenChannel_wf_def by metis
  show "msg_roundtrip (OpenChannel_Encode x) (OpenChannel_Decode x OpenChannel_zero) m (OpenChannel_norm x m)"
    using wf recs assms(1)
    by (simp add: msg_roundtrip_simps wire_simps OpenChannel_records_def OpenChannel_Encode_def OpenChannel_Decode_def
        OpenChannel_norm_def OpenChannel_wf_def OpenChannel_zero_def)
qed

subsection \<open>AcceptChannel\<close>

record 'pk AcceptChannel =
  ac_PendingChannelID :: bytes
  ac_DustLimit :: Amount
  ac_MaxValueInFlight :: UnitPrec11
  ac_ChannelReserve :: UnitPrec8
  ac_HtlcMinimum :: UnitPrec11
  ac_MinAcceptDepth :: u32
  ac_CsvDelay :: u16
  ac_MaxAcceptedHTLCs :: u16
  ac_FundingKey :: "'pk option"
  ac_RevocationPoint :: "'pk option"
  ac_PaymentPoint :: "'pk option"
  ac_DelayedPaymentPoint :: "'pk option"
  ac_HtlcPoint :: "'pk option"
  ac_FirstCommitmentPoint :: "'pk option"
  ac_UpfrontShutdownScript :: bytes
  ac_ChannelType :: "RawFeatureVector option"
  ac_LeaseExpiry :: "u32 option"
  ac_ExtraData :: bytes

definition AcceptChannel_zero :: "'pk AcceptChannel" where
  "AcceptChannel_zero = \<lparr>ac_PendingChannelID = replicate 32 0,
     ac_DustLimit = 0,
     ac_MaxValueInFlight = 0,
     ac_ChannelReserve = 0,
     ac_HtlcMinimum = 0,
     ac_MinAcceptDepth = 0,
     ac_CsvDelay = 0,
     ac_MaxAcceptedHTLCs = 0,
     ac_FundingKey = None,
     ac_RevocationPoint = None,
     ac_PaymentPoint = None,
     ac_DelayedPaymentPoint = None,
     ac_HtlcPoint = None,
     ac_FirstCommitmentPoint = None,
     ac_UpfrontShutdownScript = [],
     ac_ChannelType = None,
     ac_LeaseExpiry = None,
     ac_ExtraData = []\<rparr>"

definition AcceptChannel_records :: "('pk, 'z) ext_scheme \<Rightarrow> 'pk AcceptChannel \<Rightarrow> wire_error + bytes" where
  "AcceptChannel_records x m = EncodeMessageExtraData x (recordProducers x
     (ac_UpfrontShutdownScript m) (ac_ChannelType m) (ac_LeaseExpiry m))"

definition AcceptChannel_Encode :: "('pk, 'z) ext_scheme \<Rightarrow> 'pk AcceptChannel \<Rightarrow> writer" where
  "AcceptChannel_Encode x m = (case AcceptChannel_records x m of
       Inl e \<Rightarrow> wfail e
     | Inr extraData \<Rightarrow> wseq
        [WriteBytes (ac_PendingChannelID m),
         WriteSatoshi (ac_DustLimit m),
         WriteUint64 (ac_MaxValueInFlight m),
         WriteUint64 (ac_ChannelReserve m),
         WriteUint64 (ac_HtlcMinimum m),
         WriteUint32 (ac_MinAcceptDepth m),
         WriteUint16 (ac_CsvDelay m),
         WriteUint16 (ac_MaxAcceptedHTLCs m),
         WritePublicKey x (ac_FundingKey m),
         WritePublicKey x (ac_RevocationPoint m),
         WritePublicKey x (ac_PaymentPoint m),
         WritePublicKey x (ac_DelayedPaymentPoint m),
         WritePublicKey x (ac_HtlcPoint m),
         WritePublicKey x (ac_FirstCommitmentPoint m),
         WriteBytes extraData])"

definition AcceptChannel_Decode :: "('pk, 'z) ext_scheme \<Rightarrow> 'pk AcceptChannel \<Rightarrow> 'pk AcceptChannel reader" where
  "AcceptChannel_Decode x m =
     rbind (Read_bytes 32) (\<lambda>v0.
     rbind Read_btcAmount (\<lambda>v1.
     rbind Read_UnitPrec11 (\<lambda>v2.
     rbind Read_UnitPrec8 (\<lambda>v3.
     rbind Read_UnitPrec11 (\<lambda>v4.
     rbind Read_uint32 (\<lambda>v5.
     rbind Read_uint16 (\<lambda>v6.
     rbind Read_uint16 (\<lambda>v7.
     rbind (Read_PublicKey x) (\<lambda>v8.
     rbind (Read_PublicKey x) (\<lambda>v9.
     rbind (Read_PublicKey x) (\<lambda>v10.
     rbind (Read_PublicKey x) (\<lambda>v11.
     rbind (Read_PublicKey x) (\<lambda>v12.
     rbind (Read_PublicKey x) (\<lambda>v13.
     rbind ExtraOpaqueData_Decode (\<lambda>tlvRecords.
       case ExtractRecords x (recordDecoders x) tlvRecords of
         Inl e \<Rightarrow> rfail e
       | Inr typeMap \<Rightarrow> rret (m\<lparr>ac_PendingChannelID := v0,
         ac_DustLimit := v1,
         ac_MaxValueInFlight := v2,
         ac_ChannelReserve := v3,
         ac_HtlcMinimum := v4,
         ac_MinAcceptDepth := v5,
         ac_CsvDelay := v6,
         ac_MaxAcceptedHTLCs := v7,
         ac_FundingKey := v8,
         ac_RevocationPoint := v9,
         ac_PaymentPoint := v10,
         ac_DelayedPaymentPoint := v11,
         ac_HtlcPoint := v12,
         ac_FirstCommitmentPoint := v13,
         ac_UpfrontShutdownScript := scriptOf (ac_UpfrontShutdownScript m) typeMap,
         ac_ChannelType := chanTypeOf (ac_ChannelType m) typeMap,
         ac_LeaseExpiry := leaseOf (ac_LeaseExpiry m) typeMap,
         ac_ExtraData := tlvRecords\<rparr>))))))))))))))))"

definition AcceptChannel_wf :: "'pk AcceptChannel \<Rightarrow> bool" where
  "AcceptChannel_wf m \<longleftrightarrow> length (ac_PendingChannelID m) = 32 \<and>
     ac_FundingKey m \<noteq> None \<and>
     ac_RevocationPoint m \<noteq> None \<and>
     ac_PaymentPoint m \<noteq> None \<and>
     ac_DelayedPaymentPoint m \<noteq> None \<and>
     ac_HtlcPoint m \<noteq> None \<and>
     ac_FirstCommitmentPoint m \<noteq> None \<and>
     length (ac_UpfrontShutdownScript m) \<le> 65535"

text \<open>What \<^verbatim>\<open>Encode\<close> leaves in the message, and the peer receives.\<close>

definition AcceptChannel_norm :: "('pk, 'z) ext_scheme \<Rightarrow> 'pk AcceptChannel \<Rightarrow> 'pk AcceptChannel" where
  "AcceptChannel_norm x m = (case AcceptChannel_records x m of
       Inl _ \<Rightarrow> m
     | Inr extraData \<Rightarrow> m\<lparr>ac_ExtraData := extraData\<rparr>)"

lemma AcceptChannel_message:
  fixes x :: "('pk, 'z) ext_scheme"
  assumes "pubkey_ok x" and "tlv_ok x"
  shows "wire_message (AcceptChannel_Encode x) (AcceptChannel_Decode x AcceptChannel_zero) AcceptChannel_wf
    (AcceptChannel_norm x)"
proof unfold_locales
  fix m :: "'pk AcceptChannel"
  show "appends (AcceptChannel_Encode x m)"
    by (simp add: AcceptChannel_Encode_def split: sum.split)
  assume wf: "AcceptChannel_wf m"
  then obtain bs vals where
    recs: "EncodeMessageExtraData x (recordProducers x (ac_UpfrontShutdownScript m)
      (ac_ChannelType m) (ac_LeaseExpiry m)) = Inr bs"
      "ExtractRecords x (recordDecoders x) bs = Inr vals"
      "scriptOf [] vals = ac_UpfrontShutdownScript m"
      "chanTypeOf None vals = ac_ChannelType m" "leaseOf None vals = ac_LeaseExpiry m"
    using funding_records_roundtrip [OF assms(2)] unfolding AcceptChannel_wf_def by metis
  show "msg_roundtrip (AcceptChannel_Encode x) (AcceptChannel_Decode x AcceptChannel_zero) m (AcceptChannel_norm x m)"
    using wf recs assms(1)
    by (simp add: msg_roundtrip_simps wire_simps AcceptChannel_records_def AcceptChannel_Encode_def AcceptChannel_Decode_def
        AcceptChannel_norm_def AcceptChannel_wf_def AcceptChannel_zero_def)
qed

subsection \<open>FundingCreated\<close>

record FundingCreated =
  fc_PendingChannelID :: bytes
  fc_FundingPoint :: OutPoint
  fc_CommitSig :: Sig
  fc_ExtraData :: bytes

definition FundingCreated_zero :: FundingCreated where
  "FundingCreated_zero = \<lparr>fc_PendingChannelID = replicate 32 0,
     fc_FundingPoint = \<lparr>op_Hash = replicate 32 0, op_Index = 0\<rparr>,
     fc_CommitSig = replicate 64 0,
     fc_ExtraData = []\<rparr>"

definition FundingCreated_Encode :: "FundingCreated \<Rightarrow> writer" where
  "FundingCreated_Encode m = wseq
     [WriteBytes (fc_PendingChannelID m),
      WriteOutPoint (fc_FundingPoint m),
      WriteSig (fc_CommitSig m),
      WriteBytes (fc_ExtraData m)]"

definition FundingCreated_Decode :: "FundingCreated \<Rightarrow> FundingCreated reader" where
  "FundingCreated_Decode m =
     rbind (Read_bytes 32) (\<lambda>v0.
     rbind Read_OutPoint (\<lambda>v1.
     rbind Read_Sig (\<lambda>v2.
     rbind ExtraOpaqueData_Decode (\<lambda>v3.
     rret (m\<lparr>fc_PendingChannelID := v0,
       fc_FundingPoint := v1,
       fc_CommitSig := v2,
       fc_ExtraData := v3\<rparr>)))))"

definition FundingCreated_wf :: "FundingCreated \<Rightarrow> bool" where
  "FundingCreated_wf m \<longleftrightarrow> length (fc_PendingChannelID m) = 32 \<and>
     outpoint_wf (fc_FundingPoint m) \<and>
     length (fc_CommitSig m) = 64"

interpretation funding_created:
  wire_message FundingCreated_Encode "FundingCreated_Decode FundingCreated_zero" FundingCreated_wf "\<lambda>m. m"
proof unfold_locales
  fix m :: FundingCreated
  show "appends (FundingCreated_Encode m)"
    by (simp add: FundingCreated_Encode_def)
  assume "FundingCreated_wf m"
  then show "msg_roundtrip FundingCreated_Encode (FundingCreated_Decode FundingCreated_zero) m m"
    by (simp add: msg_roundtrip_simps wire_simps FundingCreated_Encode_def FundingCreated_Decode_def
        FundingCreated_wf_def FundingCreated_zero_def)
qed

subsection \<open>FundingSigned\<close>

record FundingSigned =
  fs_ChanID :: ChannelID
  fs_CommitSig :: Sig
  fs_ExtraData :: bytes

definition FundingSigned_zero :: FundingSigned where
  "FundingSigned_zero = \<lparr>fs_ChanID = replicate 32 0,
     fs_CommitSig = replicate 64 0,
     fs_ExtraData = []\<rparr>"

definition FundingSigned_Encode :: "FundingSigned \<Rightarrow> writer" where
  "FundingSigned_Encode m = wseq
     [WriteChannelID (fs_ChanID m),
      WriteSig (fs_CommitSig m),
      WriteBytes (fs_ExtraData m)]"

definition FundingSigned_Decode :: "FundingSigned \<Rightarrow> FundingSigned reader" where
  "FundingSigned_Decode m =
     rbind Read_ChannelID (\<lambda>v0.
     rbind Read_Sig (\<lambda>v1.
     rbind ExtraOpaqueData_Decode (\<lambda>v2.
     rret (m\<lparr>fs_ChanID := v0,
       fs_CommitSig := v1,
       fs_ExtraData := v2\<rparr>))))"

definition FundingSigned_wf :: "FundingSigned \<Rightarrow> bool" where
  "FundingSigned_wf m \<longleftrightarrow> length (fs_ChanID m) = 32 \<and>
     length (fs_CommitSig m) = 64"

interpretation funding_signed:
  wire_message FundingSigned_Encode "FundingSigned_Decode FundingSigned_zero" FundingSigned_wf "\<lambda>m. m"
proof unfold_locales
  fix m :: FundingSigned
  show "appends (FundingSigned_Encode m)"
    by (simp add: FundingSigned_Encode_def)
  assume "FundingSigned_wf m"
  then show "msg_roundtrip FundingSigned_Encode (FundingSigned_Decode FundingSigned_zero) m m"
    by (simp add: msg_roundtrip_simps wire_simps FundingSigned_Encode_def FundingSigned_Decode_def
        FundingSigned_wf_def FundingSigned_zero_def)
qed

subsection \<open>FundingLocked\<close>

record 'pk FundingLocked =
  fl_ChanID :: ChannelID
  fl_NextPerCommitmentPoint :: "'pk option"
  fl_ExtraData :: bytes

definition FundingLocked_zero :: "'pk FundingLocked" where
  "FundingLocked_zero = \<lparr>fl_ChanID = replicate 32 0,
     fl_NextPerCommitmentPoint = None,
     fl_ExtraData = []\<rparr>"

definition FundingLocked_Encode :: "('pk, 'z) ext_scheme \<Rightarrow> 'pk FundingLocked \<Rightarrow> writer" where
  "FundingLocked_Encode x m = wseq
     [WriteChannelID (fl_ChanID m),
      WritePublicKey x (fl_NextPerCommitmentPoint m),
      WriteBytes (fl_ExtraData m)]"

definition FundingLocked_Decode :: "('pk, 'z) ext_scheme \<Rightarrow> 'pk FundingLocked \<Rightarrow> 'pk FundingLocked reader" where
  "FundingLocked_Decode x m =
     rbind Read_ChannelID (\<lambda>v0.
     rbind (Read_PublicKey x) (\<lambda>v1.
     rbind ExtraOpaqueData_Decode (\<lambda>v2.
     rret (m\<lparr>fl_ChanID := v0,
       fl_NextPerCommitmentPoint := v1,
       fl_ExtraData := v2\<rparr>))))"

definition FundingLocked_wf :: "'pk FundingLocked \<Rightarrow> bool" where
  "FundingLocked_wf m \<longleftrightarrow> length (fl_ChanID m) = 32 \<and>
     fl_NextPerCommitmentPoint m \<noteq> None"

lemma FundingLocked_message:
  fixes x :: "('pk, 'z) ext_scheme"
  assumes "pubkey_ok x"
  shows "wire_message (FundingLocked_Encode x) (FundingLocked_Decode x FundingLocked_zero) FundingLocked_wf (\<lambda>m. m)"
proof unfold_locales
  fix m :: "'pk FundingLocked"
  show "appends (FundingLocked_Encode x m)"
    by (simp add: FundingLocked_Encode_def)
  assume "FundingLocked_wf m"
  then show "msg_roundtrip (FundingLocked_Encode x) (FundingLocked_Decode x FundingLocked_zero) m m"
    using assms by (simp add: msg_roundtrip_simps wire_simps FundingLocked_Encode_def FundingLocked_Decode_def
        FundingLocked_wf_def FundingLocked_zero_def)
qed

subsection \<open>Shutdown\<close>

record Shutdown =
  sd_ChannelID :: ChannelID
  sd_Address :: bytes
  sd_ExtraData :: bytes

definition Shutdown_zero :: Shutdown where
  "Shutdown_zero = \<lparr>sd_ChannelID = replicate 32 0,
     sd_Address = [],
     sd_ExtraData = []\<rparr>"

definition Shutdown_Encode :: "Shutdown \<Rightarrow> writer" where
  "Shutdown_Encode m = wseq
     [WriteChannelID (sd_ChannelID m),
      WriteDeliveryAddress (sd_Address m),
      WriteBytes (sd_ExtraData m)]"

definition Shutdown_Decode :: "Shutdown \<Rightarrow> Shutdown reader" where
  "Shutdown_Decode m =
     rbind Read_ChannelID (\<lambda>v0.
     rbind Read_DeliveryAddress (\<lambda>v1.
     rbind ExtraOpaqueData_Decode (\<lambda>v2.
     rret (m\<lparr>sd_ChannelID := v0,
       sd_Address := v1,
       sd_ExtraData := v2\<rparr>))))"

definition Shutdown_wf :: "Shutdown \<Rightarrow> bool" where
  "Shutdown_wf m \<longleftrightarrow> length (sd_ChannelID m) = 32 \<and>
     delivery_wf (sd_Address m)"

interpretation shutdown:
  wire_message Shutdown_Encode "Shutdown_Decode Shutdown_zero" Shutdown_wf "\<lambda>m. m"
proof unfold_locales
  fix m :: Shutdown
  show "appends (Shutdown_Encode m)"
    by (simp add: Shutdown_Encode_def)
  assume "Shutdown_wf m"
  then show "msg_roundtrip Shutdown_Encode (Shutdown_Decode Shutdown_zero) m m"
    by (simp add: msg_roundtrip_simps wire_simps Shutdown_Encode_def Shutdown_Decode_def
        Shutdown_wf_def Shutdown_zero_def)
qed

subsection \<open>ObShutdownSimpleSend\<close>

record ObShutdownSimpleSend =
  os_ChannelID :: ChannelID
  os_Address :: bytes
  os_ExtraData :: bytes

definition ObShutdownSimpleSend_zero :: ObShutdownSimpleSend where
  "ObShutdownSimpleSend_zero = \<lparr>os_ChannelID = replicate 32 0,
     os_Address = [],
     os_ExtraData = []\<rparr>"

definition ObShutdownSimpleSend_Encode :: "ObShutdownSimpleSend \<Rightarrow> writer" where
  "ObShutdownSimpleSend_Encode m = wseq
     [WriteChannelID (os_ChannelID m),
      WriteDeliveryAddress (os_Address m),
      WriteBytes (os_ExtraData m)]"

definition ObShutdownSimpleSend_Decode :: "ObShutdownSimpleSend \<Rightarrow> ObShutdownSimpleSend reader" where
  "ObShutdownSimpleSend_Decode m =
     rbind Read_ChannelID (\<lambda>v0.
     rbind Read_DeliveryAddress (\<lambda>v1.
     rbind ExtraOpaqueData_Decode (\<lambda>v2.
     rret (m\<lparr>os_ChannelID := v0,
       os_Address := v1,
       os_ExtraData := v2\<rparr>))))"

definition ObShutdownSimpleSend_wf :: "ObShutdownSimpleSend \<Rightarrow> bool" where
  "ObShutdownSimpleSend_wf m \<longleftrightarrow> length (os_ChannelID m) = 32 \<and>
     delivery_wf (os_Address m)"

interpretation ob_shutdown:
  wire_message ObShutdownSimpleSend_Encode "ObShutdownSimpleSend_Decode ObShutdownSimpleSend_zero" ObShutdownSimpleSend_wf "\<lambda>m. m"
proof unfold_locales
  fix m :: ObShutdownSimpleSend
  show "appends (ObShutdownSimpleSend_Encode m)"
    by (simp add: ObShutdownSimpleSend_Encode_def)
  assume "ObShutdownSimpleSend_wf m"
  then show "msg_roundtrip ObShutdownSimpleSend_Encode (ObShutdownSimpleSend_Decode ObShutdownSimpleSend_zero) m m"
    by (simp add: msg_roundtrip_simps wire_simps ObShutdownSimpleSend_Encode_def ObShutdownSimpleSend_Decode_def
        ObShutdownSimpleSend_wf_def ObShutdownSimpleSend_zero_def)
qed

subsection \<open>ClosingSigned\<close>

record ClosingSigned =
  cl_ChannelID :: ChannelID
  cl_FeeSatoshis :: Amount
  cl_Signature :: Sig
  cl_ExtraData :: bytes

definition ClosingSigned_zero :: ClosingSigned where
  "ClosingSigned_zero = \<lparr>cl_ChannelID = replicate 32 0,
     cl_FeeSatoshis = 0,
     cl_Signature = replicate 64 0,
     cl_ExtraData = []\<rparr>"

definition ClosingSigned_Encode :: "ClosingSigned \<Rightarrow> writer" where
  "ClosingSigned_Encode m = wseq
     [WriteChannelID (cl_ChannelID m),
      WriteSatoshi (cl_FeeSatoshis m),
      WriteSig (cl_Signature m),
      WriteBytes (cl_ExtraData m)]"

definition ClosingSigned_Decode :: "ClosingSigned \<Rightarrow> ClosingSigned reader" where
  "ClosingSigned_Decode m =
     rbind Read_ChannelID (\<lambda>v0.
     rbind Read_btcAmount (\<lambda>v1.
     rbind Read_Sig (\<lambda>v2.
     rbind ExtraOpaqueData_Decode (\<lambda>v3.
     rret (m\<lparr>cl_ChannelID := v0,
       cl_FeeSatoshis := v1,
       cl_Signature := v2,
       cl_ExtraData := v3\<rparr>)))))"

definition ClosingSigned_wf :: "ClosingSigned \<Rightarrow> bool" where
  "ClosingSigned_wf m \<longleftrightarrow> length (cl_ChannelID m) = 32 \<and>
     length (cl_Signature m) = 64"

interpretation closing_signed:
  wire_message ClosingSigned_Encode "ClosingSigned_Decode ClosingSigned_zero" ClosingSigned_wf "\<lambda>m. m"
proof unfold_locales
  fix m :: ClosingSigned
  show "appends (ClosingSigned_Encode m)"
    by (simp add: ClosingSigned_Encode_def)
  assume "ClosingSigned_wf m"
  then show "msg_roundtrip ClosingSigned_Encode (ClosingSigned_Decode ClosingSigned_zero) m m"
    by (simp add: msg_roundtrip_simps wire_simps ClosingSigned_Encode_def ClosingSigned_Decode_def
        ClosingSigned_wf_def ClosingSigned_zero_def)
qed

subsection \<open>ObClosingSignedSimpleSend\<close>

record ObClosingSignedSimpleSend =
  ol_ChannelID :: ChannelID
  ol_FeeSatoshis :: Amount
  ol_Signatures :: "Sig list"
  ol_ExtraData :: bytes
  ol_SigEnd :: bool

definition ObClosingSignedSimpleSend_zero :: ObClosingSignedSimpleSend where
  "ObClosingSignedSimpleSend_zero = \<lparr>ol_ChannelID = replicate 32 0,
     ol_FeeSatoshis = 0,
     ol_Signatures = [],
     ol_ExtraData = [],
     ol_SigEnd = False\<rparr>"

definition ObClosingSignedSimpleSend_Encode :: "ObClosingSignedSimpleSend \<Rightarrow> writer" where
  "ObClosingSignedSimpleSend_Encode m = wseq
     [WriteChannelID (ol_ChannelID m),
      WriteSatoshi (ol_FeeSatoshis m),
      WriteSigs (ol_Signatures m),
      WriteBool (ol_SigEnd m),
      WriteBytes (ol_ExtraData m)]"

definition ObClosingSignedSimpleSend_Decode :: "ObClosingSignedSimpleSend \<Rightarrow> ObClosingSignedSimpleSend reader" where
  "ObClosingSignedSimpleSend_Decode m =
     rbind Read_ChannelID (\<lambda>v0.
     rbind Read_btcAmount (\<lambda>v1.
     rbind Read_Sigs (\<lambda>v2.
     rbind (Read_bool (ol_SigEnd m)) (\<lambda>v3.
     rbind ExtraOpaqueData_Decode (\<lambda>v4.
     rret (m\<lparr>ol_ChannelID := v0,
       ol_FeeSatoshis := v1,
       ol_Signatures := v2,
       ol_SigEnd := v3,
       ol_ExtraData := v4\<rparr>))))))"

definition ObClosingSignedSimpleSend_wf :: "ObClosingSignedSimpleSend \<Rightarrow> bool" where
  "ObClosingSignedSimpleSend_wf m \<longleftrightarrow> length (ol_ChannelID m) = 32 \<and>
     sigs_wf (ol_Signatures m)"

interpretation ob_closing_signed:
  wire_message ObClosingSignedSimpleSend_Encode "ObClosingSignedSimpleSend_Decode ObClosingSignedSimpleSend_zero" ObClosingSignedSimpleSend_wf "\<lambda>m. m"
proof unfold_locales
  fix m :: ObClosingSignedSimpleSend
  show "appends (ObClosingSignedSimpleSend_Encode m)"
    by (simp add: ObClosingSignedSimpleSend_Encode_def)
  assume "ObClosingSignedSimpleSend_wf m"
  then show "msg_roundtrip ObClosingSignedSimpleSend_Encode (ObClosingSignedSimpleSend_Decode ObClosingSignedSimpleSend_zero) m m"
    by (simp add: msg_roundtrip_simps wire_simps ObClosingSignedSimpleSend_Encode_def ObClosingSignedSimpleSend_Decode_def
        ObClosingSignedSimpleSend_wf_def ObClosingSignedSimpleSend_zero_def)
qed

end
