(* ===== verification/Wire_Scids.thy ===== *)
theory Wire_Scids
  imports Wire_Sample
begin

text \<open>
  The encoding of sets of short channel ids in \<^verbatim>\<open>query_short_chan_ids.go\<close>: sorted, then either
  written out or compressed.  The decoder refuses an id that is not greater than the one before
  it, so a decoded set has no duplicates.
\<close>

definition EncodingSortedPlain :: byte where "EncodingSortedPlain = 0"
definition EncodingSortedZlib :: byte where "EncodingSortedZlib = 1"
definition maxZlibBufSize :: nat where "maxZlibBufSize = 67413630"

text \<open>The ids as they are written: \<^verbatim>\<open>sort.Slice\<close> sorts them in place unless \<^verbatim>\<open>noSort\<close> is set.\<close>

definition sortedShortChanIDs :: "ShortChannelID list \<Rightarrow> bool \<Rightarrow> ShortChannelID list" where
  "sortedShortChanIDs shortChanIDs noSort =
     (if noSort then shortChanIDs else sort_key ToUint64 shortChanIDs)"

definition encodeShortChanIDs ::
  "('pk, 'z) ext_scheme \<Rightarrow> byte \<Rightarrow> ShortChannelID list \<Rightarrow> bool \<Rightarrow> writer" where
  "encodeShortChanIDs x encodingType shortChanIDs noSort =
     (let ids = sortedShortChanIDs shortChanIDs noSort
      in if encodingType = EncodingSortedPlain then
           wseq (WriteUint16 (word_of_nat (length ids * 8) + 1) #
             WriteShortChanIDEncoding encodingType # map WriteShortChannelID ids)
         else if encodingType = EncodingSortedZlib then
           (case (if length ids > 0
                  then (case wseq (map WriteShortChannelID ids) [] of
                          (wb, None) \<Rightarrow> Inr (zlib_Compress x wb)
                        | (wb, Some e) \<Rightarrow> Inl e)
                  else Inr []) of
              Inl e \<Rightarrow> wfail e
            | Inr compressedPayload \<Rightarrow> wseq
                [WriteUint16 (word_of_nat (length compressedPayload + 1)),
                 WriteShortChanIDEncoding encodingType,
                 WriteBytes compressedPayload])
         else wfail (ErrUnknownShortChanIDEncoding encodingType))"

text \<open>
  The two decoding loops; \<open>prev\<close> is the last id, absent in the first round.  The plain loop runs
  a number of rounds fixed by the length; the loop over the compressed stream ends when the
  stream has no complete id left.
\<close>

fun decodePlain :: "nat \<Rightarrow> ShortChannelID option \<Rightarrow> bytes \<Rightarrow> wire_error + ShortChannelID list" where
  "decodePlain 0 prev body = Inr []"
| "decodePlain (Suc n) prev body = (case Read_ShortChannelID body of
       Inl e \<Rightarrow> Inl e
     | Inr (cid, body') \<Rightarrow>
         (case prev of
            Some lastChanID \<Rightarrow>
              if ToUint64 cid \<le> ToUint64 lastChanID
              then Inl (ErrUnsortedSIDs (ToUint64 lastChanID) (ToUint64 cid))
              else map_sum id (Cons cid) (decodePlain n (Some cid) body')
          | None \<Rightarrow> map_sum id (Cons cid) (decodePlain n (Some cid) body')))"

lemma Read_ShortChannelID_length:
  "Read_ShortChannelID bs = Inr (c, rest) \<Longrightarrow> length bs = 8 + length rest"
  by (auto simp: Read_ShortChannelID_def rbind_Inr_iff ReadFull_Inr_iff rret_def)

function decodeZlib ::
  "ShortChannelID option \<Rightarrow> bytes \<times> wire_error \<Rightarrow> wire_error + ShortChannelID list" where
  "decodeZlib prev (stream, err) = (case Read_ShortChannelID stream of
       Inl e \<Rightarrow> if err = EOF \<or> err = ErrUnexpectedEOF then Inr [] else Inl err
     | Inr (cid, stream') \<Rightarrow>
         (case prev of
            Some lastChanID \<Rightarrow>
              if ToUint64 cid \<le> ToUint64 lastChanID
              then Inl (ErrUnsortedSIDs (ToUint64 lastChanID) (ToUint64 cid))
              else map_sum id (Cons cid) (decodeZlib (Some cid) (stream', err))
          | None \<Rightarrow> map_sum id (Cons cid) (decodeZlib (Some cid) (stream', err))))"
  by pat_completeness auto
termination
  by (relation "measure (\<lambda>(prev, stream, err). length stream)")
     (auto dest: Read_ShortChannelID_length)

declare decodeZlib.simps [simp del]

definition decodeBody ::
  "('pk, 'z) ext_scheme \<Rightarrow> byte \<Rightarrow> bytes \<Rightarrow> wire_error + ShortChannelID list" where
  "decodeBody x encodingType queryBody =
     (if encodingType = EncodingSortedPlain then
        (if length queryBody mod 8 \<noteq> 0
         then Inl (ErrWholeNumberOfShortChanIDs (length queryBody))
         else decodePlain (length queryBody div 8) None queryBody)
      else if encodingType = EncodingSortedZlib then
        (if length queryBody = 0 then Inr []
         else case zlib_NewReader x (take maxZlibBufSize queryBody) of
                Inl e \<Rightarrow> Inl e
              | Inr limitedDecompressor \<Rightarrow> decodeZlib None limitedDecompressor)
      else Inl (ErrUnknownShortChanIDEncoding encodingType))"

definition decodeShortChanIDs ::
  "('pk, 'z) ext_scheme \<Rightarrow> (byte \<times> ShortChannelID list) reader" where
  "decodeShortChanIDs x = rbind Read_uint16 (\<lambda>numBytesResp.
     if numBytesResp = 0 then rret (0, [])
     else rbind (ReadFull (unat numBytesResp)) (\<lambda>queryBody.
       case decodeBody x (queryBody ! 0) (drop 1 queryBody) of
         Inl e \<Rightarrow> rfail e
       | Inr shortChanIDs \<Rightarrow> rret (queryBody ! 0, shortChanIDs)))"

subsection \<open>Sortedness of what is decoded\<close>

definition scids_increasing :: "ShortChannelID option \<Rightarrow> ShortChannelID list \<Rightarrow> bool" where
  "scids_increasing prev ids \<longleftrightarrow>
     sorted_wrt (<) (map ToUint64 ((case prev of None \<Rightarrow> [] | Some p \<Rightarrow> [p]) @ ids))"

lemma scids_increasing_Nil [simp]: "scids_increasing prev []"
  by (simp add: scids_increasing_def split: option.split)

lemma scids_increasing_Cons:
  "scids_increasing prev (c # cs) \<longleftrightarrow>
     (case prev of None \<Rightarrow> True | Some p \<Rightarrow> ToUint64 p < ToUint64 c) \<and> scids_increasing (Some c) cs"
  by (auto simp: scids_increasing_def split: option.split)

lemma decodePlain_increasing: "decodePlain n prev body = Inr ids \<Longrightarrow> scids_increasing prev ids"
proof (induction n prev body arbitrary: ids rule: decodePlain.induct)
  case (2 n prev body)
  obtain cid body' where r: "Read_ShortChannelID body = Inr (cid, body')"
    and rest: "map_sum id (Cons cid) (decodePlain n (Some cid) body') = Inr ids"
    and lt: "case prev of None \<Rightarrow> True | Some p \<Rightarrow> ToUint64 p < ToUint64 cid"
    using "2.prems" by (auto split: sum.splits option.splits if_splits)
  from rest obtain cs where cs: "decodePlain n (Some cid) body' = Inr cs" "ids = cid # cs"
    by (auto simp: map_sum_def split: sum.splits)
  have "scids_increasing (Some cid) cs"
    using 2 r cs(1) lt by (cases prev) (auto simp: not_le)
  then show ?case using lt by (simp add: cs(2) scids_increasing_Cons)
qed simp

lemma decodeZlib_increasing: "decodeZlib prev s = Inr ids \<Longrightarrow> scids_increasing prev ids"
proof (induction prev s arbitrary: ids rule: decodeZlib.induct)
  case (1 prev stream err)
  show ?case
  proof (cases "Read_ShortChannelID stream")
    case (Inl e)
    then show ?thesis using "1.prems" by (subst (asm) decodeZlib.simps) (auto split: if_splits)
  next
    case (Inr p)
    obtain cid stream' where p: "p = (cid, stream')" by (cases p)
    have rest: "map_sum id (Cons cid) (decodeZlib (Some cid) (stream', err)) = Inr ids"
      and lt: "case prev of None \<Rightarrow> True | Some p \<Rightarrow> ToUint64 p < ToUint64 cid"
      using "1.prems" Inr p by (subst (asm) decodeZlib.simps, auto split: option.splits if_splits)+
    from rest obtain cs where cs: "decodeZlib (Some cid) (stream', err) = Inr cs" "ids = cid # cs"
      by (auto simp: map_sum_def split: sum.splits)
    have "scids_increasing (Some cid) cs"
      using 1 Inr p cs(1) lt by (cases prev) (auto simp: not_le)
    then show ?thesis using lt by (simp add: cs(2) scids_increasing_Cons)
  qed
qed

lemma decodeBody_increasing: "decodeBody x e body = Inr ids \<Longrightarrow> scids_increasing None ids"
  by (auto simp: decodeBody_def decodePlain_increasing decodeZlib_increasing
      split: if_splits sum.splits)

subsection \<open>Round trip\<close>

lemma decodePlain_ser:
  "list_all scid_wf ids \<Longrightarrow> scids_increasing prev ids \<Longrightarrow>
     decodePlain (length ids) prev (concat (map scid_ser ids)) = Inr ids"
  by (induction ids arbitrary: prev)
     (auto simp: scids_increasing_Cons Read_ShortChannelID_ser not_le split: option.splits)

lemma Read_ShortChannelID_Nil: "Read_ShortChannelID [] = Inl EOF"
  by (simp add: Read_ShortChannelID_def rbind_def ReadFull_def)

lemma decodeZlib_ser:
  "list_all scid_wf ids \<Longrightarrow> scids_increasing prev ids \<Longrightarrow>
     decodeZlib prev (concat (map scid_ser ids), EOF) = Inr ids"
proof (induction ids arbitrary: prev)
  case Nil
  then show ?case by (simp add: decodeZlib.simps Read_ShortChannelID_Nil)
next
  case (Cons c cs)
  then show ?case
    by (subst decodeZlib.simps)
       (auto simp: scids_increasing_Cons Read_ShortChannelID_ser not_le split: option.splits)
qed

lemma wseq_scids: "list_all scid_wf ids \<Longrightarrow>
  wseq (map WriteShortChannelID ids) buf = (buf @ concat (map scid_ser ids), None)"
  by (rule scid.wseq_map_enc)

definition scids_payload :: "('pk, 'z) ext_scheme \<Rightarrow> byte \<Rightarrow> ShortChannelID list \<Rightarrow> bytes" where
  "scids_payload x e ids =
     (let plain = concat (map scid_ser ids)
      in if e = EncodingSortedPlain \<or> ids = [] then plain else zlib_Compress x plain)"

definition scids_ser :: "('pk, 'z) ext_scheme \<Rightarrow> byte \<Rightarrow> ShortChannelID list \<Rightarrow> bytes" where
  "scids_ser x e ids =
     PutUint16 (word_of_nat (length (scids_payload x e ids) + 1)) @ e # scids_payload x e ids"

text \<open>
  A set of ids that can be sent: fields within their bounds, no duplicates, a known encoding, and
  a payload whose length fits its 16-bit prefix.
\<close>

definition scids_wf :: "('pk, 'z) ext_scheme \<Rightarrow> byte \<Rightarrow> ShortChannelID list \<Rightarrow> bool \<Rightarrow> bool" where
  "scids_wf x e ids noSort \<longleftrightarrow>
     (e = EncodingSortedPlain \<or> e = EncodingSortedZlib) \<and>
     list_all scid_wf ids \<and>
     scids_increasing None (sortedShortChanIDs ids noSort) \<and>
     length (scids_payload x e (sortedShortChanIDs ids noSort)) + 1 < 2 ^ 16"

lemma scids_increasing_sort:
  assumes "list_all scid_wf ids" and "distinct ids"
  shows "scids_increasing None (sortedShortChanIDs ids False)"
proof -
  have "inj_on ToUint64 (set ids)"
    using assms(1) by (auto simp: inj_on_def list_all_iff ToUint64_inject)
  then have "sorted (map ToUint64 (sort_key ToUint64 ids)) \<and> distinct (map ToUint64 (sort_key ToUint64 ids))"
    using assms(2) by (simp add: distinct_map)
  then show ?thesis
    by (simp add: scids_increasing_def sortedShortChanIDs_def strict_sorted_iff)
qed

lemma list_all_sortedShortChanIDs [simp]:
  "list_all P (sortedShortChanIDs ids noSort) \<longleftrightarrow> list_all P ids"
  by (simp add: sortedShortChanIDs_def list_all_iff)

lemma length_concat_scid_ser: "length (concat (map scid_ser ids)) = 8 * length ids"
  by (induction ids) simp_all

lemma encodeShortChanIDs_apply [wire_simps]:
  assumes "scids_wf x e ids noSort"
  shows "encodeShortChanIDs x e ids noSort buf =
    (buf @ scids_ser x e (sortedShortChanIDs ids noSort), None)"
proof -
  have "list_all scid_wf (sortedShortChanIDs ids noSort)"
    using assms by (simp add: scids_wf_def)
  then have "wseq (map WriteShortChannelID (sortedShortChanIDs ids noSort)) b =
      (b @ concat (map scid_ser (sortedShortChanIDs ids noSort)), None)" for b
    by (rule wseq_scids)
  moreover have "e = EncodingSortedPlain \<or> e = EncodingSortedZlib"
    using assms by (simp add: scids_wf_def)
  ultimately show ?thesis
    by (auto simp: encodeShortChanIDs_def Let_def scids_ser_def scids_payload_def wire_simps
        EncodingSortedPlain_def EncodingSortedZlib_def length_concat_scid_ser mult.commute add.commute)
qed

lemma decodeBody_payload:
  assumes "zlib_ok x" and "e = EncodingSortedPlain \<or> e = EncodingSortedZlib"
    and "list_all scid_wf ids" and "scids_increasing None ids"
    and "length (scids_payload x e ids) \<le> maxZlibBufSize"
  shows "decodeBody x e (scids_payload x e ids) = Inr ids"
  using assms(2)
proof
  assume "e = EncodingSortedPlain"
  then show ?thesis
    using assms(3,4) by (simp add: decodeBody_def scids_payload_def length_concat_scid_ser decodePlain_ser)
next
  assume e: "e = EncodingSortedZlib"
  show ?thesis
  proof (cases "ids = []")
    case True
    then show ?thesis using e by (simp add: decodeBody_def scids_payload_def)
  next
    case False
    have ne: "EncodingSortedZlib \<noteq> EncodingSortedPlain"
      by (simp add: EncodingSortedPlain_def EncodingSortedZlib_def)
    have z: "zlib_Compress x b \<noteq> []" "zlib_NewReader x (zlib_Compress x b) = Inr (b, EOF)" for b
      using assms(1) by (simp_all add: zlib_ok_def)
    show ?thesis
      using False e ne assms(5) by (simp add: decodeBody_def scids_payload_def z
          decodeZlib_ser [OF assms(3,4)])
  qed
qed

lemma decodeShortChanIDs_ser [wire_simps]:
  assumes "zlib_ok x" and "scids_wf x e ids noSort"
  shows "decodeShortChanIDs x (scids_ser x e (sortedShortChanIDs ids noSort) @ rest) =
    Inr ((e, sortedShortChanIDs ids noSort), rest)"
proof -
  let ?ids = "sortedShortChanIDs ids noSort"
  let ?p = "scids_payload x e ?ids"
  have len: "length ?p + 1 < 2 ^ 16" using assms(2) by (simp add: scids_wf_def)
  then have n: "unat (word_of_nat (length ?p + 1) :: u16) = length ?p + 1"
    by (simp only: unat_of_nat) simp
  then have nz: "(word_of_nat (length ?p + 1) :: u16) \<noteq> 0"
    by (metis add_is_0 unat_eq_zero zero_neq_one)
  have "decodeBody x e ?p = Inr ?ids"
    using assms len by (intro decodeBody_payload) (auto simp: scids_wf_def maxZlibBufSize_def)
  then show ?thesis
    using n nz ReadFull_append [of "e # ?p" "length ?p + 1" rest]
    by (simp add: decodeShortChanIDs_def scids_ser_def rbind_def Read_int_ser rret_apply
        del: of_nat_add of_nat_Suc)
qed

lemma appends_encodeShortChanIDs [simp]: "appends (encodeShortChanIDs x e ids noSort)"
proof -
  have "appends (wseq (map WriteShortChannelID ids))" for ids
    by (intro appends_wseq) (simp add: list_all_iff)
  then show ?thesis
    by (auto simp: encodeShortChanIDs_def Let_def split: sum.split)
qed

text \<open>
  Whatever bytes a peer sends, a set of short channel ids that decodes without an error is
  strictly increasing in the 64-bit order of its ids, so it has no duplicates, for the plain and
  for the compressed encoding alike.
\<close>
theorem decodeShortChanIDs_sorted:
  assumes "decodeShortChanIDs x bs = Inr ((e, ids), rest)"
  shows "sorted_wrt (<) (map ToUint64 ids) \<and> distinct ids"
proof -
  have "ids = [] \<or> (\<exists>body. decodeBody x e body = Inr ids)"
    using assms by (auto simp: decodeShortChanIDs_def rbind_def rret_def rfail_def
        split: if_splits sum.splits)
  then have "scids_increasing None ids"
  proof
    assume "\<exists>body. decodeBody x e body = Inr ids"
    then show ?thesis by (elim exE) (rule decodeBody_increasing)
  qed simp
  then have "sorted_wrt (<) (map ToUint64 ids)" by (simp add: scids_increasing_def)
  then show ?thesis
    by (metis strict_sorted_iff distinct_map)
qed

theorem decodeShortChanIDs_sorted_witness:
  "decodeShortChanIDs sample_ext
     (PutUint16 17 @ EncodingSortedPlain # [0, 0, 1, 0, 0, 2, 0, 3, 0, 0, 1, 0, 0, 2, 0, 4]) =
     Inr ((EncodingSortedPlain,
       [\<lparr>BlockHeight = 1, TxIndex = 2, TxPosition = 3\<rparr>,
        \<lparr>BlockHeight = 1, TxIndex = 2, TxPosition = 4\<rparr>]), []) \<and>
   sorted_wrt (<) (map ToUint64
       [\<lparr>BlockHeight = 1, TxIndex = 2, TxPosition = 3\<rparr>,
        \<lparr>BlockHeight = 1, TxIndex = 2, TxPosition = 4\<rparr>]) \<and>
   distinct [\<lparr>BlockHeight = 1, TxIndex = 2, TxPosition = 3\<rparr>,
        \<lparr>BlockHeight = 1, TxIndex = 2, TxPosition = 4 :: u16\<rparr>]"
proof -
  let ?bs = "PutUint16 17 @ EncodingSortedPlain # [0, 0, 1, 0, 0, 2, 0, 3, 0, 0, 1, 0, 0, 2, 0, 4]"
  have "decodeShortChanIDs sample_ext ?bs =
     Inr ((EncodingSortedPlain,
       [\<lparr>BlockHeight = 1, TxIndex = 2, TxPosition = 3\<rparr>,
        \<lparr>BlockHeight = 1, TxIndex = 2, TxPosition = 4\<rparr>]), [])"
    by code_simp
  from this decodeShortChanIDs_sorted [OF this] show ?thesis by blast
qed

end
