(* ===== verification/Wire_Msg_Gossip.thy ===== *)
theory Wire_Msg_Gossip
  imports Wire_Scids
begin

text \<open>
  The gossip messages (announcements of channels and nodes, channel updates, the queries that
  synchronise the graph) and the control messages (init, error, ping, pong, custom).  The three
  signed announcements also have \<^verbatim>\<open>DataToSign\<close>, which serializes everything after the
  signatures a second time.
\<close>

definition bufferBytes :: "writer \<Rightarrow> wire_error + bytes" where
  "bufferBytes w = (case w [] of (buf, None) \<Rightarrow> Inr buf | (buf, Some e) \<Rightarrow> Inl e)"

subsection \<open>AnnounceSignatures\<close>

record AnnounceSignatures =
  as_ChannelID :: ChannelID
  as_ShortChannelID :: ShortChannelID
  as_NodeSignature :: Sig
  as_BitcoinSignature :: Sig
  as_ExtraOpaqueData :: bytes

definition AnnounceSignatures_zero :: AnnounceSignatures where
  "AnnounceSignatures_zero = \<lparr>as_ChannelID = replicate 32 0,
     as_ShortChannelID = \<lparr>BlockHeight = 0, TxIndex = 0, TxPosition = 0\<rparr>,
     as_NodeSignature = replicate 64 0,
     as_BitcoinSignature = replicate 64 0,
     as_ExtraOpaqueData = []\<rparr>"

definition AnnounceSignatures_Encode :: "AnnounceSignatures \<Rightarrow> writer" where
  "AnnounceSignatures_Encode m = wseq
     [WriteChannelID (as_ChannelID m),
      WriteShortChannelID (as_ShortChannelID m),
      WriteSig (as_NodeSignature m),
      WriteSig (as_BitcoinSignature m),
      WriteBytes (as_ExtraOpaqueData m)]"

definition AnnounceSignatures_Decode :: "AnnounceSignatures \<Rightarrow> AnnounceSignatures reader" where
  "AnnounceSignatures_Decode m =
     rbind Read_ChannelID (\<lambda>v0.
     rbind Read_ShortChannelID (\<lambda>v1.
     rbind Read_Sig (\<lambda>v2.
     rbind Read_Sig (\<lambda>v3.
     rbind ExtraOpaqueData_Decode (\<lambda>v4.
     rret (m\<lparr>as_ChannelID := v0,
       as_ShortChannelID := v1,
       as_NodeSignature := v2,
       as_BitcoinSignature := v3,
       as_ExtraOpaqueData := v4\<rparr>))))))"

definition AnnounceSignatures_wf :: "AnnounceSignatures \<Rightarrow> bool" where
  "AnnounceSignatures_wf m \<longleftrightarrow> length (as_ChannelID m) = 32 \<and>
     scid_wf (as_ShortChannelID m) \<and>
     length (as_NodeSignature m) = 64 \<and>
     length (as_BitcoinSignature m) = 64"

interpretation announce_signatures:
  wire_message AnnounceSignatures_Encode "AnnounceSignatures_Decode AnnounceSignatures_zero" AnnounceSignatures_wf "\<lambda>m. m"
proof unfold_locales
  fix m :: AnnounceSignatures
  show "appends (AnnounceSignatures_Encode m)"
    by (simp add: AnnounceSignatures_Encode_def)
  assume "AnnounceSignatures_wf m"
  then show "msg_roundtrip AnnounceSignatures_Encode (AnnounceSignatures_Decode AnnounceSignatures_zero) m m"
    by (simp add: msg_roundtrip_simps wire_simps AnnounceSignatures_Encode_def AnnounceSignatures_Decode_def
        AnnounceSignatures_wf_def AnnounceSignatures_zero_def)
qed

subsection \<open>ChannelAnnouncement\<close>

record ChannelAnnouncement =
  ca_NodeSig1 :: Sig
  ca_NodeSig2 :: Sig
  ca_BitcoinSig1 :: Sig
  ca_BitcoinSig2 :: Sig
  ca_Features :: "RawFeatureVector option"
  ca_ChainHash :: bytes
  ca_ShortChannelID :: ShortChannelID
  ca_AssetID :: u32
  ca_NodeID1 :: bytes
  ca_NodeID2 :: bytes
  ca_BitcoinKey1 :: bytes
  ca_BitcoinKey2 :: bytes
  ca_ExtraOpaqueData :: bytes

definition ChannelAnnouncement_zero :: ChannelAnnouncement where
  "ChannelAnnouncement_zero = \<lparr>ca_NodeSig1 = replicate 64 0,
     ca_NodeSig2 = replicate 64 0,
     ca_BitcoinSig1 = replicate 64 0,
     ca_BitcoinSig2 = replicate 64 0,
     ca_Features = None,
     ca_ChainHash = replicate 32 0,
     ca_ShortChannelID = \<lparr>BlockHeight = 0, TxIndex = 0, TxPosition = 0\<rparr>,
     ca_AssetID = 0,
     ca_NodeID1 = replicate 33 0,
     ca_NodeID2 = replicate 33 0,
     ca_BitcoinKey1 = replicate 33 0,
     ca_BitcoinKey2 = replicate 33 0,
     ca_ExtraOpaqueData = []\<rparr>"

definition ChannelAnnouncement_Encode :: "ChannelAnnouncement \<Rightarrow> writer" where
  "ChannelAnnouncement_Encode m = wseq
     [WriteSig (ca_NodeSig1 m),
      WriteSig (ca_NodeSig2 m),
      WriteSig (ca_BitcoinSig1 m),
      WriteSig (ca_BitcoinSig2 m),
      WriteRawFeatureVector (ca_Features m),
      WriteBytes (ca_ChainHash m),
      WriteShortChannelID (ca_ShortChannelID m),
      WriteUint32 (ca_AssetID m),
      WriteBytes (ca_NodeID1 m),
      WriteBytes (ca_NodeID2 m),
      WriteBytes (ca_BitcoinKey1 m),
      WriteBytes (ca_BitcoinKey2 m),
      WriteBytes (ca_ExtraOpaqueData m)]"

definition ChannelAnnouncement_Decode :: "ChannelAnnouncement \<Rightarrow> ChannelAnnouncement reader" where
  "ChannelAnnouncement_Decode m =
     rbind Read_Sig (\<lambda>v0.
     rbind Read_Sig (\<lambda>v1.
     rbind Read_Sig (\<lambda>v2.
     rbind Read_Sig (\<lambda>v3.
     rbind Read_RawFeatureVector (\<lambda>v4.
     rbind (Read_bytes 32) (\<lambda>v5.
     rbind Read_ShortChannelID (\<lambda>v6.
     rbind Read_uint32 (\<lambda>v7.
     rbind (Read_bytes 33) (\<lambda>v8.
     rbind (Read_bytes 33) (\<lambda>v9.
     rbind (Read_bytes 33) (\<lambda>v10.
     rbind (Read_bytes 33) (\<lambda>v11.
     rbind ExtraOpaqueData_Decode (\<lambda>v12.
     rret (m\<lparr>ca_NodeSig1 := v0,
       ca_NodeSig2 := v1,
       ca_BitcoinSig1 := v2,
       ca_BitcoinSig2 := v3,
       ca_Features := v4,
       ca_ChainHash := v5,
       ca_ShortChannelID := v6,
       ca_AssetID := v7,
       ca_NodeID1 := v8,
       ca_NodeID2 := v9,
       ca_BitcoinKey1 := v10,
       ca_BitcoinKey2 := v11,
       ca_ExtraOpaqueData := v12\<rparr>))))))))))))))"

definition ChannelAnnouncement_wf :: "ChannelAnnouncement \<Rightarrow> bool" where
  "ChannelAnnouncement_wf m \<longleftrightarrow> length (ca_NodeSig1 m) = 64 \<and>
     length (ca_NodeSig2 m) = 64 \<and>
     length (ca_BitcoinSig1 m) = 64 \<and>
     length (ca_BitcoinSig2 m) = 64 \<and>
     ca_Features m \<noteq> None \<and>
     length (ca_ChainHash m) = 32 \<and>
     scid_wf (ca_ShortChannelID m) \<and>
     length (ca_NodeID1 m) = 33 \<and>
     length (ca_NodeID2 m) = 33 \<and>
     length (ca_BitcoinKey1 m) = 33 \<and>
     length (ca_BitcoinKey2 m) = 33"

interpretation channel_announcement:
  wire_message ChannelAnnouncement_Encode "ChannelAnnouncement_Decode ChannelAnnouncement_zero" ChannelAnnouncement_wf "\<lambda>m. m"
proof unfold_locales
  fix m :: ChannelAnnouncement
  show "appends (ChannelAnnouncement_Encode m)"
    by (simp add: ChannelAnnouncement_Encode_def)
  assume "ChannelAnnouncement_wf m"
  then show "msg_roundtrip ChannelAnnouncement_Encode (ChannelAnnouncement_Decode ChannelAnnouncement_zero) m m"
    by (simp add: msg_roundtrip_simps wire_simps ChannelAnnouncement_Encode_def ChannelAnnouncement_Decode_def
        ChannelAnnouncement_wf_def ChannelAnnouncement_zero_def)
qed

definition ChannelAnnouncement_DataToSign :: "ChannelAnnouncement \<Rightarrow> wire_error + bytes" where
  "ChannelAnnouncement_DataToSign m = bufferBytes (wseq
     [WriteRawFeatureVector (ca_Features m),
      WriteBytes (ca_ChainHash m),
      WriteShortChannelID (ca_ShortChannelID m),
      WriteUint32 (ca_AssetID m),
      WriteBytes (ca_NodeID1 m),
      WriteBytes (ca_NodeID2 m),
      WriteBytes (ca_BitcoinKey1 m),
      WriteBytes (ca_BitcoinKey2 m),
      WriteBytes (ca_ExtraOpaqueData m)])"

subsection \<open>NodeAnnouncement\<close>

record NodeAnnouncement =
  na_Signature :: Sig
  na_Features :: "RawFeatureVector option"
  na_Timestamp :: u32
  na_NodeID :: bytes
  na_RGBColor :: RGBA
  na_Alias :: bytes
  na_Addresses :: "NetAddr list"
  na_ExtraOpaqueData :: bytes

definition NodeAnnouncement_zero :: NodeAnnouncement where
  "NodeAnnouncement_zero = \<lparr>na_Signature = replicate 64 0,
     na_Features = None,
     na_Timestamp = 0,
     na_NodeID = replicate 33 0,
     na_RGBColor = rgba_zero,
     na_Alias = replicate 32 0,
     na_Addresses = [],
     na_ExtraOpaqueData = []\<rparr>"

definition NodeAnnouncement_Encode :: "('pk, 'z) ext_scheme \<Rightarrow> NodeAnnouncement \<Rightarrow> writer" where
  "NodeAnnouncement_Encode x m = wseq
     [WriteSig (na_Signature m),
      WriteRawFeatureVector (na_Features m),
      WriteUint32 (na_Timestamp m),
      WriteBytes (na_NodeID m),
      WriteColorRGBA (na_RGBColor m),
      WriteNodeAlias (na_Alias m),
      WriteNetAddrs x (na_Addresses m),
      WriteBytes (na_ExtraOpaqueData m)]"

definition NodeAnnouncement_Decode :: "('pk, 'z) ext_scheme \<Rightarrow> NodeAnnouncement \<Rightarrow> NodeAnnouncement reader" where
  "NodeAnnouncement_Decode x m =
     rbind Read_Sig (\<lambda>v0.
     rbind Read_RawFeatureVector (\<lambda>v1.
     rbind Read_uint32 (\<lambda>v2.
     rbind (Read_bytes 33) (\<lambda>v3.
     rbind (Read_RGBA (na_RGBColor m)) (\<lambda>v4.
     rbind Read_NodeAlias (\<lambda>v5.
     rbind (Read_NetAddrs x) (\<lambda>v6.
     rbind ExtraOpaqueData_Decode (\<lambda>v7.
     rret (m\<lparr>na_Signature := v0,
       na_Features := v1,
       na_Timestamp := v2,
       na_NodeID := v3,
       na_RGBColor := v4,
       na_Alias := v5,
       na_Addresses := v6,
       na_ExtraOpaqueData := v7\<rparr>)))))))))"

definition NodeAnnouncement_wf :: "('pk, 'z) ext_scheme \<Rightarrow> NodeAnnouncement \<Rightarrow> bool" where
  "NodeAnnouncement_wf x m \<longleftrightarrow> length (na_Signature m) = 64 \<and>
     na_Features m \<noteq> None \<and>
     length (na_NodeID m) = 33 \<and>
     col_A (na_RGBColor m) = 0 \<and>
     alias_wf (na_Alias m) \<and>
     addrs_wf x (na_Addresses m)"

lemma NodeAnnouncement_message:
  fixes x :: "('pk, 'z) ext_scheme"
  assumes "base32_ok x"
  shows "wire_message (NodeAnnouncement_Encode x) (NodeAnnouncement_Decode x NodeAnnouncement_zero) (NodeAnnouncement_wf x) (\<lambda>m. m)"
proof unfold_locales
  fix m :: NodeAnnouncement
  show "appends (NodeAnnouncement_Encode x m)"
    by (simp add: NodeAnnouncement_Encode_def)
  assume "NodeAnnouncement_wf x m"
  then show "msg_roundtrip (NodeAnnouncement_Encode x) (NodeAnnouncement_Decode x NodeAnnouncement_zero) m m"
    using assms by (simp add: msg_roundtrip_simps wire_simps NodeAnnouncement_Encode_def NodeAnnouncement_Decode_def
        NodeAnnouncement_wf_def NodeAnnouncement_zero_def rgba_zero_def)
qed

definition NodeAnnouncement_DataToSign :: "('pk, 'z) ext_scheme \<Rightarrow> NodeAnnouncement \<Rightarrow> wire_error + bytes" where
  "NodeAnnouncement_DataToSign x m = bufferBytes (wseq
     [WriteRawFeatureVector (na_Features m),
      WriteUint32 (na_Timestamp m),
      WriteBytes (na_NodeID m),
      WriteColorRGBA (na_RGBColor m),
      WriteNodeAlias (na_Alias m),
      WriteNetAddrs x (na_Addresses m),
      WriteBytes (na_ExtraOpaqueData m)])"

subsection \<open>ChannelUpdate\<close>

record ChannelUpdate =
  cu_Signature :: Sig
  cu_ChainHash :: bytes
  cu_ShortChannelID :: ShortChannelID
  cu_Timestamp :: u32
  cu_MessageFlags :: byte
  cu_ChannelFlags :: byte
  cu_TimeLockDelta :: u16
  cu_HtlcMinimumMsat :: UnitPrec11
  cu_BaseFee :: u32
  cu_FeeRate :: UnitPrec11
  cu_HtlcMaximumMsat :: UnitPrec11
  cu_AssetId :: u32
  cu_ExtraOpaqueData :: bytes

definition ChannelUpdate_zero :: ChannelUpdate where
  "ChannelUpdate_zero = \<lparr>cu_Signature = replicate 64 0,
     cu_ChainHash = replicate 32 0,
     cu_ShortChannelID = \<lparr>BlockHeight = 0, TxIndex = 0, TxPosition = 0\<rparr>,
     cu_Timestamp = 0,
     cu_MessageFlags = 0,
     cu_ChannelFlags = 0,
     cu_TimeLockDelta = 0,
     cu_HtlcMinimumMsat = 0,
     cu_BaseFee = 0,
     cu_FeeRate = 0,
     cu_HtlcMaximumMsat = 0,
     cu_AssetId = 0,
     cu_ExtraOpaqueData = []\<rparr>"

definition ChanUpdateOptionMaxHtlc :: byte where "ChanUpdateOptionMaxHtlc = 1"
definition ChanUpdateDirection :: byte where "ChanUpdateDirection = 1"
definition ChanUpdateDisabled :: byte where "ChanUpdateDisabled = 2"

definition HasMaxHtlc :: "byte \<Rightarrow> bool" where
  "HasMaxHtlc c \<longleftrightarrow> c AND ChanUpdateOptionMaxHtlc \<noteq> 0"

definition IsDisabled :: "byte \<Rightarrow> bool" where
  "IsDisabled c \<longleftrightarrow> c AND ChanUpdateDisabled = ChanUpdateDisabled"

definition ChannelUpdate_Encode :: "ChannelUpdate \<Rightarrow> writer" where
  "ChannelUpdate_Encode m = wseq
     [WriteSig (cu_Signature m),
      WriteBytes (cu_ChainHash m),
      WriteShortChannelID (cu_ShortChannelID m),
      WriteUint32 (cu_Timestamp m),
      WriteChanUpdateMsgFlags (cu_MessageFlags m),
      WriteChanUpdateChanFlags (cu_ChannelFlags m),
      WriteUint16 (cu_TimeLockDelta m),
      WriteUint64 (cu_HtlcMinimumMsat m),
      WriteUint32 (cu_AssetId m),
      WriteUint32 (cu_BaseFee m),
      WriteUint64 (cu_FeeRate m),
      (if HasMaxHtlc (cu_MessageFlags m) then WriteUint64 (cu_HtlcMaximumMsat m) else WriteBytes []),
      WriteBytes (cu_ExtraOpaqueData m)]"

definition ChannelUpdate_Decode :: "ChannelUpdate \<Rightarrow> ChannelUpdate reader" where
  "ChannelUpdate_Decode m =
     rbind Read_Sig (\<lambda>v0.
     rbind (Read_bytes 32) (\<lambda>v1.
     rbind Read_ShortChannelID (\<lambda>v2.
     rbind Read_uint32 (\<lambda>v3.
     rbind Read_ChanUpdateMsgFlags (\<lambda>v4.
     rbind Read_ChanUpdateChanFlags (\<lambda>v5.
     rbind Read_uint16 (\<lambda>v6.
     rbind Read_UnitPrec11 (\<lambda>v7.
     rbind Read_uint32 (\<lambda>v8.
     rbind Read_uint32 (\<lambda>v9.
     rbind Read_UnitPrec11 (\<lambda>v10.
     rbind (if HasMaxHtlc v4 then Read_UnitPrec11 else rret (cu_HtlcMaximumMsat m)) (\<lambda>v11.
     rbind ExtraOpaqueData_Decode (\<lambda>v12.
     rret (m\<lparr>cu_Signature := v0,
       cu_ChainHash := v1,
       cu_ShortChannelID := v2,
       cu_Timestamp := v3,
       cu_MessageFlags := v4,
       cu_ChannelFlags := v5,
       cu_TimeLockDelta := v6,
       cu_HtlcMinimumMsat := v7,
       cu_AssetId := v8,
       cu_BaseFee := v9,
       cu_FeeRate := v10,
       cu_HtlcMaximumMsat := v11,
       cu_ExtraOpaqueData := v12\<rparr>))))))))))))))"

definition ChannelUpdate_DataToSign :: "ChannelUpdate \<Rightarrow> wire_error + bytes" where
  "ChannelUpdate_DataToSign m = bufferBytes (wseq
     [WriteBytes (cu_ChainHash m),
      WriteShortChannelID (cu_ShortChannelID m),
      WriteUint32 (cu_Timestamp m),
      WriteChanUpdateMsgFlags (cu_MessageFlags m),
      WriteChanUpdateChanFlags (cu_ChannelFlags m),
      WriteUint16 (cu_TimeLockDelta m),
      WriteUint64 (cu_HtlcMinimumMsat m),
      WriteUint32 (cu_AssetId m),
      WriteUint32 (cu_BaseFee m),
      WriteUint64 (cu_FeeRate m),
      (if HasMaxHtlc (cu_MessageFlags m) then WriteUint64 (cu_HtlcMaximumMsat m) else WriteBytes []),
      WriteBytes (cu_ExtraOpaqueData m)])"

definition ChannelUpdate_wf :: "ChannelUpdate \<Rightarrow> bool" where
  "ChannelUpdate_wf m \<longleftrightarrow> length (cu_Signature m) = 64 \<and> length (cu_ChainHash m) = 32 \<and>
     scid_wf (cu_ShortChannelID m)"

text \<open>The maximum amount travels only if the flag for it is set.\<close>

definition ChannelUpdate_norm :: "ChannelUpdate \<Rightarrow> ChannelUpdate" where
  "ChannelUpdate_norm m =
     (if HasMaxHtlc (cu_MessageFlags m) then m else m\<lparr>cu_HtlcMaximumMsat := 0\<rparr>)"

interpretation channel_update:
  wire_message ChannelUpdate_Encode "ChannelUpdate_Decode ChannelUpdate_zero" ChannelUpdate_wf
    ChannelUpdate_norm
proof unfold_locales
  fix m :: ChannelUpdate
  show "appends (ChannelUpdate_Encode m)"
    by (simp add: ChannelUpdate_Encode_def)
  assume "ChannelUpdate_wf m"
  then show "msg_roundtrip ChannelUpdate_Encode (ChannelUpdate_Decode ChannelUpdate_zero) m
      (ChannelUpdate_norm m)"
    by (cases "HasMaxHtlc (cu_MessageFlags m)")
       (simp_all add: msg_roundtrip_simps wire_simps ChannelUpdate_Encode_def ChannelUpdate_Decode_def
        ChannelUpdate_wf_def ChannelUpdate_zero_def ChannelUpdate_norm_def)
qed

subsection \<open>GossipTimestampRange\<close>

record GossipTimestampRange =
  gt_ChainHash :: bytes
  gt_FirstTimestamp :: u32
  gt_TimestampRange :: u32
  gt_ExtraData :: bytes

definition GossipTimestampRange_zero :: GossipTimestampRange where
  "GossipTimestampRange_zero = \<lparr>gt_ChainHash = replicate 32 0,
     gt_FirstTimestamp = 0,
     gt_TimestampRange = 0,
     gt_ExtraData = []\<rparr>"

definition GossipTimestampRange_Encode :: "GossipTimestampRange \<Rightarrow> writer" where
  "GossipTimestampRange_Encode m = wseq
     [WriteBytes (gt_ChainHash m),
      WriteUint32 (gt_FirstTimestamp m),
      WriteUint32 (gt_TimestampRange m),
      WriteBytes (gt_ExtraData m)]"

definition GossipTimestampRange_Decode :: "GossipTimestampRange \<Rightarrow> GossipTimestampRange reader" where
  "GossipTimestampRange_Decode m =
     rbind (Read_bytes 32) (\<lambda>v0.
     rbind Read_uint32 (\<lambda>v1.
     rbind Read_uint32 (\<lambda>v2.
     rbind ExtraOpaqueData_Decode (\<lambda>v3.
     rret (m\<lparr>gt_ChainHash := v0,
       gt_FirstTimestamp := v1,
       gt_TimestampRange := v2,
       gt_ExtraData := v3\<rparr>)))))"

definition GossipTimestampRange_wf :: "GossipTimestampRange \<Rightarrow> bool" where
  "GossipTimestampRange_wf m \<longleftrightarrow> length (gt_ChainHash m) = 32"

interpretation gossip_timestamp_range:
  wire_message GossipTimestampRange_Encode "GossipTimestampRange_Decode GossipTimestampRange_zero" GossipTimestampRange_wf "\<lambda>m. m"
proof unfold_locales
  fix m :: GossipTimestampRange
  show "appends (GossipTimestampRange_Encode m)"
    by (simp add: GossipTimestampRange_Encode_def)
  assume "GossipTimestampRange_wf m"
  then show "msg_roundtrip GossipTimestampRange_Encode (GossipTimestampRange_Decode GossipTimestampRange_zero) m m"
    by (simp add: msg_roundtrip_simps wire_simps GossipTimestampRange_Encode_def GossipTimestampRange_Decode_def
        GossipTimestampRange_wf_def GossipTimestampRange_zero_def)
qed

subsection \<open>QueryChannelRange\<close>

record QueryChannelRange =
  qc_ChainHash :: bytes
  qc_FirstBlockHeight :: u32
  qc_NumBlocks :: u32
  qc_ExtraData :: bytes

definition QueryChannelRange_zero :: QueryChannelRange where
  "QueryChannelRange_zero = \<lparr>qc_ChainHash = replicate 32 0,
     qc_FirstBlockHeight = 0,
     qc_NumBlocks = 0,
     qc_ExtraData = []\<rparr>"

definition QueryChannelRange_Encode :: "QueryChannelRange \<Rightarrow> writer" where
  "QueryChannelRange_Encode m = wseq
     [WriteBytes (qc_ChainHash m),
      WriteUint32 (qc_FirstBlockHeight m),
      WriteUint32 (qc_NumBlocks m),
      WriteBytes (qc_ExtraData m)]"

definition QueryChannelRange_Decode :: "QueryChannelRange \<Rightarrow> QueryChannelRange reader" where
  "QueryChannelRange_Decode m =
     rbind (Read_bytes 32) (\<lambda>v0.
     rbind Read_uint32 (\<lambda>v1.
     rbind Read_uint32 (\<lambda>v2.
     rbind ExtraOpaqueData_Decode (\<lambda>v3.
     rret (m\<lparr>qc_ChainHash := v0,
       qc_FirstBlockHeight := v1,
       qc_NumBlocks := v2,
       qc_ExtraData := v3\<rparr>)))))"

definition QueryChannelRange_wf :: "QueryChannelRange \<Rightarrow> bool" where
  "QueryChannelRange_wf m \<longleftrightarrow> length (qc_ChainHash m) = 32"

interpretation query_channel_range:
  wire_message QueryChannelRange_Encode "QueryChannelRange_Decode QueryChannelRange_zero" QueryChannelRange_wf "\<lambda>m. m"
proof unfold_locales
  fix m :: QueryChannelRange
  show "appends (QueryChannelRange_Encode m)"
    by (simp add: QueryChannelRange_Encode_def)
  assume "QueryChannelRange_wf m"
  then show "msg_roundtrip QueryChannelRange_Encode (QueryChannelRange_Decode QueryChannelRange_zero) m m"
    by (simp add: msg_roundtrip_simps wire_simps QueryChannelRange_Encode_def QueryChannelRange_Decode_def
        QueryChannelRange_wf_def QueryChannelRange_zero_def)
qed

definition QueryChannelRange_LastBlockHeight :: "QueryChannelRange \<Rightarrow> u32" where
  "QueryChannelRange_LastBlockHeight q =
     (let lastBlockHeight = ucast (qc_FirstBlockHeight q) + ucast (qc_NumBlocks q) - 1 :: u64
      in if lastBlockHeight > 0xFFFFFFFF then 0xFFFFFFFF else ucast lastBlockHeight)"

subsection \<open>QueryShortChanIDs\<close>

record QueryShortChanIDs =
  qs_ChainHash :: bytes
  qs_EncodingType :: byte
  qs_ShortChanIDs :: "ShortChannelID list"
  qs_ExtraData :: bytes
  qs_noSort :: bool

definition QueryShortChanIDs_zero :: QueryShortChanIDs where
  "QueryShortChanIDs_zero = \<lparr>qs_ChainHash = replicate 32 0,
     qs_EncodingType = 0,
     qs_ShortChanIDs = [],
     qs_ExtraData = [],
     qs_noSort = False\<rparr>"

definition QueryShortChanIDs_Encode :: "('pk, 'z) ext_scheme \<Rightarrow> QueryShortChanIDs \<Rightarrow> writer" where
  "QueryShortChanIDs_Encode x m = wseq
     [WriteBytes (qs_ChainHash m),
      encodeShortChanIDs x (qs_EncodingType m) (qs_ShortChanIDs m) (qs_noSort m),
      WriteBytes (qs_ExtraData m)]"

definition QueryShortChanIDs_Decode :: "('pk, 'z) ext_scheme \<Rightarrow> QueryShortChanIDs \<Rightarrow> QueryShortChanIDs reader" where
  "QueryShortChanIDs_Decode x m =
     rbind (Read_bytes 32) (\<lambda>v0.
     rbind (decodeShortChanIDs x) (\<lambda>(encodingType, shortChanIDs).
     rbind ExtraOpaqueData_Decode (\<lambda>extraData.
     rret (m\<lparr>qs_ChainHash := v0,
       qs_EncodingType := encodingType,
       qs_ShortChanIDs := shortChanIDs,
       qs_ExtraData := extraData\<rparr>))))"

definition QueryShortChanIDs_wf :: "('pk, 'z) ext_scheme \<Rightarrow> QueryShortChanIDs \<Rightarrow> bool" where
  "QueryShortChanIDs_wf x m \<longleftrightarrow> length (qs_ChainHash m) = 32 \<and>
     scids_wf x (qs_EncodingType m) (qs_ShortChanIDs m) (qs_noSort m)"

text \<open>Encoding sorts the ids in place; the flag of the test code is not sent.\<close>

definition QueryShortChanIDs_norm :: "QueryShortChanIDs \<Rightarrow> QueryShortChanIDs" where
  "QueryShortChanIDs_norm m = m\<lparr>qs_ShortChanIDs := sortedShortChanIDs (qs_ShortChanIDs m) (qs_noSort m),
     qs_noSort := False\<rparr>"

lemma QueryShortChanIDs_message:
  fixes x :: "('pk, 'z) ext_scheme"
  assumes "zlib_ok x"
  shows "wire_message (QueryShortChanIDs_Encode x) (QueryShortChanIDs_Decode x QueryShortChanIDs_zero) (QueryShortChanIDs_wf x)
    QueryShortChanIDs_norm"
proof unfold_locales
  fix m :: QueryShortChanIDs
  show "appends (QueryShortChanIDs_Encode x m)"
    by (simp add: QueryShortChanIDs_Encode_def)
  assume "QueryShortChanIDs_wf x m"
  then show "msg_roundtrip (QueryShortChanIDs_Encode x) (QueryShortChanIDs_Decode x QueryShortChanIDs_zero) m (QueryShortChanIDs_norm m)"
    using assms by (simp add: msg_roundtrip_simps wire_simps QueryShortChanIDs_Encode_def QueryShortChanIDs_Decode_def
        QueryShortChanIDs_wf_def QueryShortChanIDs_zero_def QueryShortChanIDs_norm_def)
qed

subsection \<open>ReplyChannelRange\<close>

record ReplyChannelRange =
  rc_ChainHash :: bytes
  rc_FirstBlockHeight :: u32
  rc_NumBlocks :: u32
  rc_Complete :: byte
  rc_EncodingType :: byte
  rc_ShortChanIDs :: "ShortChannelID list"
  rc_ExtraData :: bytes
  rc_noSort :: bool

definition ReplyChannelRange_zero :: ReplyChannelRange where
  "ReplyChannelRange_zero = \<lparr>rc_ChainHash = replicate 32 0,
     rc_FirstBlockHeight = 0,
     rc_NumBlocks = 0,
     rc_Complete = 0,
     rc_EncodingType = 0,
     rc_ShortChanIDs = [],
     rc_ExtraData = [],
     rc_noSort = False\<rparr>"

definition ReplyChannelRange_Encode :: "('pk, 'z) ext_scheme \<Rightarrow> ReplyChannelRange \<Rightarrow> writer" where
  "ReplyChannelRange_Encode x m = wseq
     [WriteBytes (rc_ChainHash m),
      WriteUint32 (rc_FirstBlockHeight m),
      WriteUint32 (rc_NumBlocks m),
      WriteUint8 (rc_Complete m),
      encodeShortChanIDs x (rc_EncodingType m) (rc_ShortChanIDs m) (rc_noSort m),
      WriteBytes (rc_ExtraData m)]"

definition ReplyChannelRange_Decode :: "('pk, 'z) ext_scheme \<Rightarrow> ReplyChannelRange \<Rightarrow> ReplyChannelRange reader" where
  "ReplyChannelRange_Decode x m =
     rbind (Read_bytes 32) (\<lambda>v0.
     rbind Read_uint32 (\<lambda>v1.
     rbind Read_uint32 (\<lambda>v2.
     rbind Read_uint8 (\<lambda>v3.
     rbind (decodeShortChanIDs x) (\<lambda>(encodingType, shortChanIDs).
     rbind ExtraOpaqueData_Decode (\<lambda>extraData.
     rret (m\<lparr>rc_ChainHash := v0,
       rc_FirstBlockHeight := v1,
       rc_NumBlocks := v2,
       rc_Complete := v3,
       rc_EncodingType := encodingType,
       rc_ShortChanIDs := shortChanIDs,
       rc_ExtraData := extraData\<rparr>)))))))"

definition ReplyChannelRange_wf :: "('pk, 'z) ext_scheme \<Rightarrow> ReplyChannelRange \<Rightarrow> bool" where
  "ReplyChannelRange_wf x m \<longleftrightarrow> length (rc_ChainHash m) = 32 \<and>
     scids_wf x (rc_EncodingType m) (rc_ShortChanIDs m) (rc_noSort m)"

text \<open>Encoding sorts the ids in place; the flag of the test code is not sent.\<close>

definition ReplyChannelRange_norm :: "ReplyChannelRange \<Rightarrow> ReplyChannelRange" where
  "ReplyChannelRange_norm m = m\<lparr>rc_ShortChanIDs := sortedShortChanIDs (rc_ShortChanIDs m) (rc_noSort m),
     rc_noSort := False\<rparr>"

lemma ReplyChannelRange_message:
  fixes x :: "('pk, 'z) ext_scheme"
  assumes "zlib_ok x"
  shows "wire_message (ReplyChannelRange_Encode x) (ReplyChannelRange_Decode x ReplyChannelRange_zero) (ReplyChannelRange_wf x)
    ReplyChannelRange_norm"
proof unfold_locales
  fix m :: ReplyChannelRange
  show "appends (ReplyChannelRange_Encode x m)"
    by (simp add: ReplyChannelRange_Encode_def)
  assume "ReplyChannelRange_wf x m"
  then show "msg_roundtrip (ReplyChannelRange_Encode x) (ReplyChannelRange_Decode x ReplyChannelRange_zero) m (ReplyChannelRange_norm m)"
    using assms by (simp add: msg_roundtrip_simps wire_simps ReplyChannelRange_Encode_def ReplyChannelRange_Decode_def
        ReplyChannelRange_wf_def ReplyChannelRange_zero_def ReplyChannelRange_norm_def)
qed

definition ReplyChannelRange_LastBlockHeight :: "ReplyChannelRange \<Rightarrow> u32" where
  "ReplyChannelRange_LastBlockHeight q =
     (let lastBlockHeight = ucast (rc_FirstBlockHeight q) + ucast (rc_NumBlocks q) - 1 :: u64
      in if lastBlockHeight > 0xFFFFFFFF then 0xFFFFFFFF else ucast lastBlockHeight)"

subsection \<open>ReplyShortChanIDsEnd\<close>

record ReplyShortChanIDsEnd =
  re_ChainHash :: bytes
  re_Complete :: byte
  re_ExtraData :: bytes

definition ReplyShortChanIDsEnd_zero :: ReplyShortChanIDsEnd where
  "ReplyShortChanIDsEnd_zero = \<lparr>re_ChainHash = replicate 32 0,
     re_Complete = 0,
     re_ExtraData = []\<rparr>"

definition ReplyShortChanIDsEnd_Encode :: "ReplyShortChanIDsEnd \<Rightarrow> writer" where
  "ReplyShortChanIDsEnd_Encode m = wseq
     [WriteBytes (re_ChainHash m),
      WriteUint8 (re_Complete m),
      WriteBytes (re_ExtraData m)]"

definition ReplyShortChanIDsEnd_Decode :: "ReplyShortChanIDsEnd \<Rightarrow> ReplyShortChanIDsEnd reader" where
  "ReplyShortChanIDsEnd_Decode m =
     rbind (Read_bytes 32) (\<lambda>v0.
     rbind Read_uint8 (\<lambda>v1.
     rbind ExtraOpaqueData_Decode (\<lambda>v2.
     rret (m\<lparr>re_ChainHash := v0,
       re_Complete := v1,
       re_ExtraData := v2\<rparr>))))"

definition ReplyShortChanIDsEnd_wf :: "ReplyShortChanIDsEnd \<Rightarrow> bool" where
  "ReplyShortChanIDsEnd_wf m \<longleftrightarrow> length (re_ChainHash m) = 32"

interpretation reply_short_chan_ids_end:
  wire_message ReplyShortChanIDsEnd_Encode "ReplyShortChanIDsEnd_Decode ReplyShortChanIDsEnd_zero" ReplyShortChanIDsEnd_wf "\<lambda>m. m"
proof unfold_locales
  fix m :: ReplyShortChanIDsEnd
  show "appends (ReplyShortChanIDsEnd_Encode m)"
    by (simp add: ReplyShortChanIDsEnd_Encode_def)
  assume "ReplyShortChanIDsEnd_wf m"
  then show "msg_roundtrip ReplyShortChanIDsEnd_Encode (ReplyShortChanIDsEnd_Decode ReplyShortChanIDsEnd_zero) m m"
    by (simp add: msg_roundtrip_simps wire_simps ReplyShortChanIDsEnd_Encode_def ReplyShortChanIDsEnd_Decode_def
        ReplyShortChanIDsEnd_wf_def ReplyShortChanIDsEnd_zero_def)
qed

subsection \<open>Init\<close>

record Init =
  it_GlobalFeatures :: "RawFeatureVector option"
  it_Features :: "RawFeatureVector option"
  it_ExtraData :: bytes

definition Init_zero :: Init where
  "Init_zero = \<lparr>it_GlobalFeatures = None,
     it_Features = None,
     it_ExtraData = []\<rparr>"

definition Init_Encode :: "Init \<Rightarrow> writer" where
  "Init_Encode m = wseq
     [WriteRawFeatureVector (it_GlobalFeatures m),
      WriteRawFeatureVector (it_Features m),
      WriteBytes (it_ExtraData m)]"

definition Init_Decode :: "Init \<Rightarrow> Init reader" where
  "Init_Decode m =
     rbind Read_RawFeatureVector (\<lambda>v0.
     rbind Read_RawFeatureVector (\<lambda>v1.
     rbind ExtraOpaqueData_Decode (\<lambda>v2.
     rret (m\<lparr>it_GlobalFeatures := v0,
       it_Features := v1,
       it_ExtraData := v2\<rparr>))))"

definition Init_wf :: "Init \<Rightarrow> bool" where
  "Init_wf m \<longleftrightarrow> it_GlobalFeatures m \<noteq> None \<and>
     it_Features m \<noteq> None"

interpretation init:
  wire_message Init_Encode "Init_Decode Init_zero" Init_wf "\<lambda>m. m"
proof unfold_locales
  fix m :: Init
  show "appends (Init_Encode m)"
    by (simp add: Init_Encode_def)
  assume "Init_wf m"
  then show "msg_roundtrip Init_Encode (Init_Decode Init_zero) m m"
    by (simp add: msg_roundtrip_simps wire_simps Init_Encode_def Init_Decode_def
        Init_wf_def Init_zero_def)
qed

subsection \<open>Error\<close>

record Error =
  er_ChanID :: ChannelID
  er_Data :: bytes

definition Error_zero :: Error where
  "Error_zero = \<lparr>er_ChanID = replicate 32 0,
     er_Data = []\<rparr>"

definition Error_Encode :: "Error \<Rightarrow> writer" where
  "Error_Encode m = wseq
     [WriteBytes (er_ChanID m),
      WriteErrorData (er_Data m)]"

definition Error_Decode :: "Error \<Rightarrow> Error reader" where
  "Error_Decode m =
     rbind Read_ChannelID (\<lambda>v0.
     rbind Read_ErrorData (\<lambda>v1.
     rret (m\<lparr>er_ChanID := v0,
       er_Data := v1\<rparr>)))"

definition Error_wf :: "Error \<Rightarrow> bool" where
  "Error_wf m \<longleftrightarrow> length (er_ChanID m) = 32 \<and>
     data_wf (er_Data m)"

interpretation error:
  wire_message Error_Encode "Error_Decode Error_zero" Error_wf "\<lambda>m. m"
proof unfold_locales
  fix m :: Error
  show "appends (Error_Encode m)"
    by (simp add: Error_Encode_def)
  assume "Error_wf m"
  then show "msg_roundtrip Error_Encode (Error_Decode Error_zero) m m"
    using error_data.dec_ser [of "er_Data m" "[]"] by (simp add: msg_roundtrip_simps wire_simps Error_Encode_def Error_Decode_def
        Error_wf_def Error_zero_def)
qed

definition isASCII :: "bytes \<Rightarrow> bool" where
  "isASCII data \<longleftrightarrow> list_all (\<lambda>c. \<not> (c < 32 \<or> c > 126)) data"

subsection \<open>Ping\<close>

text \<open>A ping that asks for more than the largest pong is refused after it has been read.\<close>

definition MaxPongBytes :: u16 where "MaxPongBytes = 65531"

record Ping =
  pi_NumPongBytes :: u16
  pi_PaddingBytes :: bytes

definition Ping_zero :: Ping where
  "Ping_zero = \<lparr>pi_NumPongBytes = 0,
     pi_PaddingBytes = []\<rparr>"

definition Ping_Encode :: "Ping \<Rightarrow> writer" where
  "Ping_Encode m = wseq
     [WriteUint16 (pi_NumPongBytes m),
      WritePingPayload (pi_PaddingBytes m)]"

definition Ping_Decode :: "Ping \<Rightarrow> Ping reader" where
  "Ping_Decode m =
     rbind Read_uint16 (\<lambda>v0.
     rbind Read_PingPayload (\<lambda>v1.
     if v0 > MaxPongBytes then rfail ErrMaxPongBytesExceeded
     else rret (m\<lparr>pi_NumPongBytes := v0,
       pi_PaddingBytes := v1\<rparr>)))"

definition Ping_wf :: "Ping \<Rightarrow> bool" where
  "Ping_wf m \<longleftrightarrow> pi_NumPongBytes m \<le> MaxPongBytes \<and> data_wf (pi_PaddingBytes m)"

interpretation ping:
  wire_message Ping_Encode "Ping_Decode Ping_zero" Ping_wf "\<lambda>m. m"
proof unfold_locales
  fix m :: Ping
  show "appends (Ping_Encode m)"
    by (simp add: Ping_Encode_def)
  assume "Ping_wf m"
  then show "msg_roundtrip Ping_Encode (Ping_Decode Ping_zero) m m"
    using ping_payload.dec_ser [of "pi_PaddingBytes m" "[]"] by (simp add: msg_roundtrip_simps wire_simps Ping_Encode_def Ping_Decode_def
        Ping_wf_def Ping_zero_def leD)
qed

subsection \<open>Pong\<close>

record Pong =
  po_PongBytes :: bytes

definition Pong_zero :: Pong where
  "Pong_zero = \<lparr>po_PongBytes = []\<rparr>"

definition Pong_Encode :: "Pong \<Rightarrow> writer" where
  "Pong_Encode m = wseq
     [WritePongPayload (po_PongBytes m)]"

definition Pong_Decode :: "Pong \<Rightarrow> Pong reader" where
  "Pong_Decode m =
     rbind Read_PongPayload (\<lambda>v0.
     rret (m\<lparr>po_PongBytes := v0\<rparr>))"

definition Pong_wf :: "Pong \<Rightarrow> bool" where
  "Pong_wf m \<longleftrightarrow> data_wf (po_PongBytes m)"

interpretation pong:
  wire_message Pong_Encode "Pong_Decode Pong_zero" Pong_wf "\<lambda>m. m"
proof unfold_locales
  fix m :: Pong
  show "appends (Pong_Encode m)"
    by (simp add: Pong_Encode_def)
  assume "Pong_wf m"
  then show "msg_roundtrip Pong_Encode (Pong_Decode Pong_zero) m m"
    using pong_payload.dec_ser [of "po_PongBytes m" "[]"] by (simp add: msg_roundtrip_simps wire_simps Pong_Encode_def Pong_Decode_def
        Pong_wf_def Pong_zero_def)
qed

subsection \<open>Custom\<close>

record Custom =
  cm_Type :: u16
  cm_Data :: bytes

definition CustomTypeStart :: u16 where "CustomTypeStart = 32768"

definition NewCustom :: "u16 \<Rightarrow> bytes \<Rightarrow> wire_error + Custom" where
  "NewCustom msgType data =
     (if msgType < CustomTypeStart then Inl ErrNotCustomRange
      else Inr \<lparr>cm_Type = msgType, cm_Data = data\<rparr>)"

definition Custom_Encode :: "Custom \<Rightarrow> writer" where
  "Custom_Encode m = WriteBytes (cm_Data m)"

definition Custom_Decode :: "Custom \<Rightarrow> Custom reader" where
  "Custom_Decode m bs = Inr (m\<lparr>cm_Data := bs\<rparr>, [])"

lemma appends_Custom_Encode [simp]: "appends (Custom_Encode m)"
  by (simp add: Custom_Encode_def)

end
