(* ===== verification/Wire_Protocol.thy ===== *)
theory Wire_Protocol
  imports Wire_Msg_Update Wire_Msg_Channel Wire_Msg_Gossip
begin

text \<open>
  The message layer of \<^verbatim>\<open>lnwire/message.go\<close>: the numbering of the message types, the empty
  message of a type, and \<^verbatim>\<open>WriteMessage\<close> and \<^verbatim>\<open>ReadMessage\<close>, which frame every message by its
  two-byte type.  The interface \<^verbatim>\<open>Message\<close> is the datatype of its thirty-one implementations.
  What the message layer needs of each of them is the contract \<open>wire_message\<close>, through which the
  theorems of this theory are proved once for all of them.
\<close>

definition MaxMsgBody :: nat where "MaxMsgBody = 65533"

subsection \<open>Message types\<close>

type_synonym MessageType = u16

definition MsgInit :: MessageType where "MsgInit = 1016"
definition MsgError :: MessageType where "MsgError = 1017"
definition MsgPing :: MessageType where "MsgPing = 1018"
definition MsgPong :: MessageType where "MsgPong = 1019"
definition MsgOpenChannel :: MessageType where "MsgOpenChannel = 1032"
definition MsgAcceptChannel :: MessageType where "MsgAcceptChannel = 1033"
definition MsgFundingCreated :: MessageType where "MsgFundingCreated = 1034"
definition MsgFundingSigned :: MessageType where "MsgFundingSigned = 1035"
definition MsgFundingLocked :: MessageType where "MsgFundingLocked = 1036"
definition MsgShutdown :: MessageType where "MsgShutdown = 1038"
definition MsgObShutdownSimpleSend :: MessageType where "MsgObShutdownSimpleSend = 10381"
definition MsgClosingSigned :: MessageType where "MsgClosingSigned = 1039"
definition MsgObClosingSignedSimpleSend :: MessageType where "MsgObClosingSignedSimpleSend = 10391"
definition MsgUpdateAddHTLC :: MessageType where "MsgUpdateAddHTLC = 1128"
definition MsgUpdateFulfillHTLC :: MessageType where "MsgUpdateFulfillHTLC = 1130"
definition MsgUpdateFailHTLC :: MessageType where "MsgUpdateFailHTLC = 1131"
definition MsgCommitSig :: MessageType where "MsgCommitSig = 1132"
definition MsgRevokeAndAck :: MessageType where "MsgRevokeAndAck = 1133"
definition MsgUpdateFee :: MessageType where "MsgUpdateFee = 1134"
definition MsgUpdateFailMalformedHTLC :: MessageType where "MsgUpdateFailMalformedHTLC = 1135"
definition MsgChannelReestablish :: MessageType where "MsgChannelReestablish = 1136"
definition MsgChannelAnnouncement :: MessageType where "MsgChannelAnnouncement = 1256"
definition MsgNodeAnnouncement :: MessageType where "MsgNodeAnnouncement = 1257"
definition MsgChannelUpdate :: MessageType where "MsgChannelUpdate = 1258"
definition MsgAnnounceSignatures :: MessageType where "MsgAnnounceSignatures = 1259"
definition MsgQueryShortChanIDs :: MessageType where "MsgQueryShortChanIDs = 1261"
definition MsgReplyShortChanIDsEnd :: MessageType where "MsgReplyShortChanIDsEnd = 1262"
definition MsgQueryChannelRange :: MessageType where "MsgQueryChannelRange = 1263"
definition MsgReplyChannelRange :: MessageType where "MsgReplyChannelRange = 1264"
definition MsgGossipTimestampRange :: MessageType where "MsgGossipTimestampRange = 1265"

lemmas message_types =
  MsgInit_def MsgError_def MsgPing_def MsgPong_def
  MsgOpenChannel_def MsgAcceptChannel_def MsgFundingCreated_def MsgFundingSigned_def
  MsgFundingLocked_def MsgShutdown_def MsgObShutdownSimpleSend_def MsgClosingSigned_def
  MsgObClosingSignedSimpleSend_def MsgUpdateAddHTLC_def MsgUpdateFulfillHTLC_def MsgUpdateFailHTLC_def
  MsgCommitSig_def MsgRevokeAndAck_def MsgUpdateFee_def MsgUpdateFailMalformedHTLC_def
  MsgChannelReestablish_def MsgChannelAnnouncement_def MsgNodeAnnouncement_def MsgChannelUpdate_def
  MsgAnnounceSignatures_def MsgQueryShortChanIDs_def MsgReplyShortChanIDsEnd_def MsgQueryChannelRange_def
  MsgReplyChannelRange_def MsgGossipTimestampRange_def

datatype 'pk Message =
    InitM Init
  | ErrorM Error
  | PingM Ping
  | PongM Pong
  | OpenChannelM "'pk OpenChannel"
  | AcceptChannelM "'pk AcceptChannel"
  | FundingCreatedM FundingCreated
  | FundingSignedM FundingSigned
  | FundingLockedM "'pk FundingLocked"
  | ShutdownM Shutdown
  | ObShutdownSimpleSendM ObShutdownSimpleSend
  | ClosingSignedM ClosingSigned
  | ObClosingSignedSimpleSendM ObClosingSignedSimpleSend
  | UpdateAddHTLCM UpdateAddHTLC
  | UpdateFulfillHTLCM UpdateFulfillHTLC
  | UpdateFailHTLCM UpdateFailHTLC
  | CommitSigM CommitSig
  | RevokeAndAckM "'pk RevokeAndAck"
  | UpdateFeeM UpdateFee
  | UpdateFailMalformedHTLCM UpdateFailMalformedHTLC
  | ChannelReestablishM "'pk ChannelReestablish"
  | ChannelAnnouncementM ChannelAnnouncement
  | NodeAnnouncementM NodeAnnouncement
  | ChannelUpdateM ChannelUpdate
  | AnnounceSignaturesM AnnounceSignatures
  | QueryShortChanIDsM QueryShortChanIDs
  | ReplyShortChanIDsEndM ReplyShortChanIDsEnd
  | QueryChannelRangeM QueryChannelRange
  | ReplyChannelRangeM ReplyChannelRange
  | GossipTimestampRangeM GossipTimestampRange
  | CustomM Custom

fun Message_MsgType :: "'pk Message \<Rightarrow> MessageType" where
  "Message_MsgType (InitM m) = MsgInit"
| "Message_MsgType (ErrorM m) = MsgError"
| "Message_MsgType (PingM m) = MsgPing"
| "Message_MsgType (PongM m) = MsgPong"
| "Message_MsgType (OpenChannelM m) = MsgOpenChannel"
| "Message_MsgType (AcceptChannelM m) = MsgAcceptChannel"
| "Message_MsgType (FundingCreatedM m) = MsgFundingCreated"
| "Message_MsgType (FundingSignedM m) = MsgFundingSigned"
| "Message_MsgType (FundingLockedM m) = MsgFundingLocked"
| "Message_MsgType (ShutdownM m) = MsgShutdown"
| "Message_MsgType (ObShutdownSimpleSendM m) = MsgObShutdownSimpleSend"
| "Message_MsgType (ClosingSignedM m) = MsgClosingSigned"
| "Message_MsgType (ObClosingSignedSimpleSendM m) = MsgObClosingSignedSimpleSend"
| "Message_MsgType (UpdateAddHTLCM m) = MsgUpdateAddHTLC"
| "Message_MsgType (UpdateFulfillHTLCM m) = MsgUpdateFulfillHTLC"
| "Message_MsgType (UpdateFailHTLCM m) = MsgUpdateFailHTLC"
| "Message_MsgType (CommitSigM m) = MsgCommitSig"
| "Message_MsgType (RevokeAndAckM m) = MsgRevokeAndAck"
| "Message_MsgType (UpdateFeeM m) = MsgUpdateFee"
| "Message_MsgType (UpdateFailMalformedHTLCM m) = MsgUpdateFailMalformedHTLC"
| "Message_MsgType (ChannelReestablishM m) = MsgChannelReestablish"
| "Message_MsgType (ChannelAnnouncementM m) = MsgChannelAnnouncement"
| "Message_MsgType (NodeAnnouncementM m) = MsgNodeAnnouncement"
| "Message_MsgType (ChannelUpdateM m) = MsgChannelUpdate"
| "Message_MsgType (AnnounceSignaturesM m) = MsgAnnounceSignatures"
| "Message_MsgType (QueryShortChanIDsM m) = MsgQueryShortChanIDs"
| "Message_MsgType (ReplyShortChanIDsEndM m) = MsgReplyShortChanIDsEnd"
| "Message_MsgType (QueryChannelRangeM m) = MsgQueryChannelRange"
| "Message_MsgType (ReplyChannelRangeM m) = MsgReplyChannelRange"
| "Message_MsgType (GossipTimestampRangeM m) = MsgGossipTimestampRange"
| "Message_MsgType (CustomM m) = cm_Type m"

fun Message_Encode :: "('pk, 'z) ext_scheme \<Rightarrow> 'pk Message \<Rightarrow> writer" where
  "Message_Encode x (InitM m) = Init_Encode m"
| "Message_Encode x (ErrorM m) = Error_Encode m"
| "Message_Encode x (PingM m) = Ping_Encode m"
| "Message_Encode x (PongM m) = Pong_Encode m"
| "Message_Encode x (OpenChannelM m) = OpenChannel_Encode x m"
| "Message_Encode x (AcceptChannelM m) = AcceptChannel_Encode x m"
| "Message_Encode x (FundingCreatedM m) = FundingCreated_Encode m"
| "Message_Encode x (FundingSignedM m) = FundingSigned_Encode m"
| "Message_Encode x (FundingLockedM m) = FundingLocked_Encode x m"
| "Message_Encode x (ShutdownM m) = Shutdown_Encode m"
| "Message_Encode x (ObShutdownSimpleSendM m) = ObShutdownSimpleSend_Encode m"
| "Message_Encode x (ClosingSignedM m) = ClosingSigned_Encode m"
| "Message_Encode x (ObClosingSignedSimpleSendM m) = ObClosingSignedSimpleSend_Encode m"
| "Message_Encode x (UpdateAddHTLCM m) = UpdateAddHTLC_Encode m"
| "Message_Encode x (UpdateFulfillHTLCM m) = UpdateFulfillHTLC_Encode m"
| "Message_Encode x (UpdateFailHTLCM m) = UpdateFailHTLC_Encode m"
| "Message_Encode x (CommitSigM m) = CommitSig_Encode m"
| "Message_Encode x (RevokeAndAckM m) = RevokeAndAck_Encode x m"
| "Message_Encode x (UpdateFeeM m) = UpdateFee_Encode m"
| "Message_Encode x (UpdateFailMalformedHTLCM m) = UpdateFailMalformedHTLC_Encode m"
| "Message_Encode x (ChannelReestablishM m) = ChannelReestablish_Encode x m"
| "Message_Encode x (ChannelAnnouncementM m) = ChannelAnnouncement_Encode m"
| "Message_Encode x (NodeAnnouncementM m) = NodeAnnouncement_Encode x m"
| "Message_Encode x (ChannelUpdateM m) = ChannelUpdate_Encode m"
| "Message_Encode x (AnnounceSignaturesM m) = AnnounceSignatures_Encode m"
| "Message_Encode x (QueryShortChanIDsM m) = QueryShortChanIDs_Encode x m"
| "Message_Encode x (ReplyShortChanIDsEndM m) = ReplyShortChanIDsEnd_Encode m"
| "Message_Encode x (QueryChannelRangeM m) = QueryChannelRange_Encode m"
| "Message_Encode x (ReplyChannelRangeM m) = ReplyChannelRange_Encode x m"
| "Message_Encode x (GossipTimestampRangeM m) = GossipTimestampRange_Encode m"
| "Message_Encode x (CustomM m) = Custom_Encode m"

definition rmap :: "('a \<Rightarrow> 'b) \<Rightarrow> 'a reader \<Rightarrow> 'b reader" where
  "rmap f r = rbind r (\<lambda>v. rret (f v))"

fun Message_Decode :: "('pk, 'z) ext_scheme \<Rightarrow> 'pk Message \<Rightarrow> 'pk Message reader" where
  "Message_Decode x (InitM m) = rmap InitM (Init_Decode m)"
| "Message_Decode x (ErrorM m) = rmap ErrorM (Error_Decode m)"
| "Message_Decode x (PingM m) = rmap PingM (Ping_Decode m)"
| "Message_Decode x (PongM m) = rmap PongM (Pong_Decode m)"
| "Message_Decode x (OpenChannelM m) = rmap OpenChannelM (OpenChannel_Decode x m)"
| "Message_Decode x (AcceptChannelM m) = rmap AcceptChannelM (AcceptChannel_Decode x m)"
| "Message_Decode x (FundingCreatedM m) = rmap FundingCreatedM (FundingCreated_Decode m)"
| "Message_Decode x (FundingSignedM m) = rmap FundingSignedM (FundingSigned_Decode m)"
| "Message_Decode x (FundingLockedM m) = rmap FundingLockedM (FundingLocked_Decode x m)"
| "Message_Decode x (ShutdownM m) = rmap ShutdownM (Shutdown_Decode m)"
| "Message_Decode x (ObShutdownSimpleSendM m) = rmap ObShutdownSimpleSendM (ObShutdownSimpleSend_Decode m)"
| "Message_Decode x (ClosingSignedM m) = rmap ClosingSignedM (ClosingSigned_Decode m)"
| "Message_Decode x (ObClosingSignedSimpleSendM m) = rmap ObClosingSignedSimpleSendM (ObClosingSignedSimpleSend_Decode m)"
| "Message_Decode x (UpdateAddHTLCM m) = rmap UpdateAddHTLCM (UpdateAddHTLC_Decode m)"
| "Message_Decode x (UpdateFulfillHTLCM m) = rmap UpdateFulfillHTLCM (UpdateFulfillHTLC_Decode m)"
| "Message_Decode x (UpdateFailHTLCM m) = rmap UpdateFailHTLCM (UpdateFailHTLC_Decode m)"
| "Message_Decode x (CommitSigM m) = rmap CommitSigM (CommitSig_Decode m)"
| "Message_Decode x (RevokeAndAckM m) = rmap RevokeAndAckM (RevokeAndAck_Decode x m)"
| "Message_Decode x (UpdateFeeM m) = rmap UpdateFeeM (UpdateFee_Decode m)"
| "Message_Decode x (UpdateFailMalformedHTLCM m) = rmap UpdateFailMalformedHTLCM (UpdateFailMalformedHTLC_Decode m)"
| "Message_Decode x (ChannelReestablishM m) = rmap ChannelReestablishM (ChannelReestablish_Decode x m)"
| "Message_Decode x (ChannelAnnouncementM m) = rmap ChannelAnnouncementM (ChannelAnnouncement_Decode m)"
| "Message_Decode x (NodeAnnouncementM m) = rmap NodeAnnouncementM (NodeAnnouncement_Decode x m)"
| "Message_Decode x (ChannelUpdateM m) = rmap ChannelUpdateM (ChannelUpdate_Decode m)"
| "Message_Decode x (AnnounceSignaturesM m) = rmap AnnounceSignaturesM (AnnounceSignatures_Decode m)"
| "Message_Decode x (QueryShortChanIDsM m) = rmap QueryShortChanIDsM (QueryShortChanIDs_Decode x m)"
| "Message_Decode x (ReplyShortChanIDsEndM m) = rmap ReplyShortChanIDsEndM (ReplyShortChanIDsEnd_Decode m)"
| "Message_Decode x (QueryChannelRangeM m) = rmap QueryChannelRangeM (QueryChannelRange_Decode m)"
| "Message_Decode x (ReplyChannelRangeM m) = rmap ReplyChannelRangeM (ReplyChannelRange_Decode x m)"
| "Message_Decode x (GossipTimestampRangeM m) = rmap GossipTimestampRangeM (GossipTimestampRange_Decode m)"
| "Message_Decode x (CustomM m) = rmap CustomM (Custom_Decode m)"

definition makeEmptyMessage :: "MessageType \<Rightarrow> wire_error + 'pk Message" where
  "makeEmptyMessage msgType =
     (if msgType = MsgInit then Inr (InitM Init_zero)
      else if msgType = MsgError then Inr (ErrorM Error_zero)
      else if msgType = MsgPing then Inr (PingM Ping_zero)
      else if msgType = MsgPong then Inr (PongM Pong_zero)
      else if msgType = MsgOpenChannel then Inr (OpenChannelM OpenChannel_zero)
      else if msgType = MsgAcceptChannel then Inr (AcceptChannelM AcceptChannel_zero)
      else if msgType = MsgFundingCreated then Inr (FundingCreatedM FundingCreated_zero)
      else if msgType = MsgFundingSigned then Inr (FundingSignedM FundingSigned_zero)
      else if msgType = MsgFundingLocked then Inr (FundingLockedM FundingLocked_zero)
      else if msgType = MsgShutdown then Inr (ShutdownM Shutdown_zero)
      else if msgType = MsgObShutdownSimpleSend then Inr (ObShutdownSimpleSendM ObShutdownSimpleSend_zero)
      else if msgType = MsgClosingSigned then Inr (ClosingSignedM ClosingSigned_zero)
      else if msgType = MsgObClosingSignedSimpleSend then Inr (ObClosingSignedSimpleSendM ObClosingSignedSimpleSend_zero)
      else if msgType = MsgUpdateAddHTLC then Inr (UpdateAddHTLCM UpdateAddHTLC_zero)
      else if msgType = MsgUpdateFulfillHTLC then Inr (UpdateFulfillHTLCM UpdateFulfillHTLC_zero)
      else if msgType = MsgUpdateFailHTLC then Inr (UpdateFailHTLCM UpdateFailHTLC_zero)
      else if msgType = MsgCommitSig then Inr (CommitSigM CommitSig_zero)
      else if msgType = MsgRevokeAndAck then Inr (RevokeAndAckM RevokeAndAck_zero)
      else if msgType = MsgUpdateFee then Inr (UpdateFeeM UpdateFee_zero)
      else if msgType = MsgUpdateFailMalformedHTLC then Inr (UpdateFailMalformedHTLCM UpdateFailMalformedHTLC_zero)
      else if msgType = MsgChannelReestablish then Inr (ChannelReestablishM ChannelReestablish_zero)
      else if msgType = MsgChannelAnnouncement then Inr (ChannelAnnouncementM ChannelAnnouncement_zero)
      else if msgType = MsgNodeAnnouncement then Inr (NodeAnnouncementM NodeAnnouncement_zero)
      else if msgType = MsgChannelUpdate then Inr (ChannelUpdateM ChannelUpdate_zero)
      else if msgType = MsgAnnounceSignatures then Inr (AnnounceSignaturesM AnnounceSignatures_zero)
      else if msgType = MsgQueryShortChanIDs then Inr (QueryShortChanIDsM QueryShortChanIDs_zero)
      else if msgType = MsgReplyShortChanIDsEnd then Inr (ReplyShortChanIDsEndM ReplyShortChanIDsEnd_zero)
      else if msgType = MsgQueryChannelRange then Inr (QueryChannelRangeM QueryChannelRange_zero)
      else if msgType = MsgReplyChannelRange then Inr (ReplyChannelRangeM ReplyChannelRange_zero)
      else if msgType = MsgGossipTimestampRange then Inr (GossipTimestampRangeM GossipTimestampRange_zero)
      else if msgType < CustomTypeStart then Inl (UnknownMessage msgType)
      else Inr (CustomM \<lparr>cm_Type = msgType, cm_Data = []\<rparr>))"

subsection \<open>Framing\<close>

text \<open>
  \<^verbatim>\<open>WriteMessage\<close> returns the buffer, the number of bytes written and the error; on every error
  path the buffer is truncated to its old size.
\<close>

definition WriteMessage ::
  "('pk, 'z) ext_scheme \<Rightarrow> bytes \<Rightarrow> 'pk Message \<Rightarrow> bytes \<times> nat \<times> wire_error option" where
  "WriteMessage x buf msg =
     (let oldByteSize = length buf;
          mType = PutUint16 (Message_MsgType msg);
          msgTypeBytes = length mType
      in case Message_Encode x msg (buf @ mType) of
           (buf', Some err) \<Rightarrow> (take oldByteSize buf', 0, Some (ErrorEncodeMessage err))
         | (buf', None) \<Rightarrow>
             let lenp = length buf' - oldByteSize - msgTypeBytes
             in if lenp > MaxMsgBody
                then (take oldByteSize buf', 0, Some (ErrorPayloadTooLarge lenp))
                else (buf', length buf' - oldByteSize, None))"

definition ReadMessage :: "('pk, 'z) ext_scheme \<Rightarrow> 'pk Message reader" where
  "ReadMessage x = rbind (ReadFull 2) (\<lambda>mType.
     case makeEmptyMessage (BigEndianUint16 mType) of
       Inl e \<Rightarrow> rfail e
     | Inr msg \<Rightarrow> Message_Decode x msg)"

subsection \<open>The contract of every message type\<close>

text \<open>
  \<open>Message_wf\<close>: the fields are within the bounds of the format (arrays of their length, pointers
  not nil, lengths that fit their prefix).  \<open>Message_norm\<close>: what the receiver gets.
\<close>

fun Message_wf :: "('pk, 'z) ext_scheme \<Rightarrow> 'pk Message \<Rightarrow> bool" where
  "Message_wf x (InitM m) \<longleftrightarrow> Init_wf m"
| "Message_wf x (ErrorM m) \<longleftrightarrow> Error_wf m"
| "Message_wf x (PingM m) \<longleftrightarrow> Ping_wf m"
| "Message_wf x (PongM m) \<longleftrightarrow> Pong_wf m"
| "Message_wf x (OpenChannelM m) \<longleftrightarrow> OpenChannel_wf m"
| "Message_wf x (AcceptChannelM m) \<longleftrightarrow> AcceptChannel_wf m"
| "Message_wf x (FundingCreatedM m) \<longleftrightarrow> FundingCreated_wf m"
| "Message_wf x (FundingSignedM m) \<longleftrightarrow> FundingSigned_wf m"
| "Message_wf x (FundingLockedM m) \<longleftrightarrow> FundingLocked_wf m"
| "Message_wf x (ShutdownM m) \<longleftrightarrow> Shutdown_wf m"
| "Message_wf x (ObShutdownSimpleSendM m) \<longleftrightarrow> ObShutdownSimpleSend_wf m"
| "Message_wf x (ClosingSignedM m) \<longleftrightarrow> ClosingSigned_wf m"
| "Message_wf x (ObClosingSignedSimpleSendM m) \<longleftrightarrow> ObClosingSignedSimpleSend_wf m"
| "Message_wf x (UpdateAddHTLCM m) \<longleftrightarrow> UpdateAddHTLC_wf m"
| "Message_wf x (UpdateFulfillHTLCM m) \<longleftrightarrow> UpdateFulfillHTLC_wf m"
| "Message_wf x (UpdateFailHTLCM m) \<longleftrightarrow> UpdateFailHTLC_wf m"
| "Message_wf x (CommitSigM m) \<longleftrightarrow> CommitSig_wf m"
| "Message_wf x (RevokeAndAckM m) \<longleftrightarrow> RevokeAndAck_wf m"
| "Message_wf x (UpdateFeeM m) \<longleftrightarrow> UpdateFee_wf m"
| "Message_wf x (UpdateFailMalformedHTLCM m) \<longleftrightarrow> UpdateFailMalformedHTLC_wf m"
| "Message_wf x (ChannelReestablishM m) \<longleftrightarrow> ChannelReestablish_wf m"
| "Message_wf x (ChannelAnnouncementM m) \<longleftrightarrow> ChannelAnnouncement_wf m"
| "Message_wf x (NodeAnnouncementM m) \<longleftrightarrow> NodeAnnouncement_wf x m"
| "Message_wf x (ChannelUpdateM m) \<longleftrightarrow> ChannelUpdate_wf m"
| "Message_wf x (AnnounceSignaturesM m) \<longleftrightarrow> AnnounceSignatures_wf m"
| "Message_wf x (QueryShortChanIDsM m) \<longleftrightarrow> QueryShortChanIDs_wf x m"
| "Message_wf x (ReplyShortChanIDsEndM m) \<longleftrightarrow> ReplyShortChanIDsEnd_wf m"
| "Message_wf x (QueryChannelRangeM m) \<longleftrightarrow> QueryChannelRange_wf m"
| "Message_wf x (ReplyChannelRangeM m) \<longleftrightarrow> ReplyChannelRange_wf x m"
| "Message_wf x (GossipTimestampRangeM m) \<longleftrightarrow> GossipTimestampRange_wf m"
| "Message_wf x (CustomM m) \<longleftrightarrow> CustomTypeStart \<le> cm_Type m"

fun Message_norm :: "('pk, 'z) ext_scheme \<Rightarrow> 'pk Message \<Rightarrow> 'pk Message" where
  "Message_norm x (InitM m) = InitM m"
| "Message_norm x (ErrorM m) = ErrorM m"
| "Message_norm x (PingM m) = PingM m"
| "Message_norm x (PongM m) = PongM m"
| "Message_norm x (OpenChannelM m) = OpenChannelM (OpenChannel_norm x m)"
| "Message_norm x (AcceptChannelM m) = AcceptChannelM (AcceptChannel_norm x m)"
| "Message_norm x (FundingCreatedM m) = FundingCreatedM m"
| "Message_norm x (FundingSignedM m) = FundingSignedM m"
| "Message_norm x (FundingLockedM m) = FundingLockedM m"
| "Message_norm x (ShutdownM m) = ShutdownM m"
| "Message_norm x (ObShutdownSimpleSendM m) = ObShutdownSimpleSendM m"
| "Message_norm x (ClosingSignedM m) = ClosingSignedM m"
| "Message_norm x (ObClosingSignedSimpleSendM m) = ObClosingSignedSimpleSendM m"
| "Message_norm x (UpdateAddHTLCM m) = UpdateAddHTLCM m"
| "Message_norm x (UpdateFulfillHTLCM m) = UpdateFulfillHTLCM m"
| "Message_norm x (UpdateFailHTLCM m) = UpdateFailHTLCM m"
| "Message_norm x (CommitSigM m) = CommitSigM m"
| "Message_norm x (RevokeAndAckM m) = RevokeAndAckM m"
| "Message_norm x (UpdateFeeM m) = UpdateFeeM ((\<lambda>m. m\<lparr>uf_AssetID := 0\<rparr>) m)"
| "Message_norm x (UpdateFailMalformedHTLCM m) = UpdateFailMalformedHTLCM m"
| "Message_norm x (ChannelReestablishM m) = ChannelReestablishM (ChannelReestablish_norm m)"
| "Message_norm x (ChannelAnnouncementM m) = ChannelAnnouncementM m"
| "Message_norm x (NodeAnnouncementM m) = NodeAnnouncementM m"
| "Message_norm x (ChannelUpdateM m) = ChannelUpdateM (ChannelUpdate_norm m)"
| "Message_norm x (AnnounceSignaturesM m) = AnnounceSignaturesM m"
| "Message_norm x (QueryShortChanIDsM m) = QueryShortChanIDsM (QueryShortChanIDs_norm m)"
| "Message_norm x (ReplyShortChanIDsEndM m) = ReplyShortChanIDsEndM m"
| "Message_norm x (QueryChannelRangeM m) = QueryChannelRangeM m"
| "Message_norm x (ReplyChannelRangeM m) = ReplyChannelRangeM (ReplyChannelRange_norm m)"
| "Message_norm x (GossipTimestampRangeM m) = GossipTimestampRangeM m"
| "Message_norm x (CustomM m) = CustomM m"

definition ext_ok :: "('pk, 'z) ext_scheme \<Rightarrow> bool" where
  "ext_ok x \<longleftrightarrow> pubkey_ok x \<and> base32_ok x \<and> tlv_ok x \<and> zlib_ok x"

lemma message_types_distinct:
  "distinct [MsgInit, MsgError, MsgPing, MsgPong, MsgOpenChannel, MsgAcceptChannel, MsgFundingCreated, MsgFundingSigned, MsgFundingLocked, MsgShutdown, MsgObShutdownSimpleSend, MsgClosingSigned, MsgObClosingSignedSimpleSend, MsgUpdateAddHTLC, MsgUpdateFulfillHTLC, MsgUpdateFailHTLC, MsgCommitSig, MsgRevokeAndAck, MsgUpdateFee, MsgUpdateFailMalformedHTLC, MsgChannelReestablish, MsgChannelAnnouncement, MsgNodeAnnouncement, MsgChannelUpdate, MsgAnnounceSignatures, MsgQueryShortChanIDs, MsgReplyShortChanIDsEnd, MsgQueryChannelRange, MsgReplyChannelRange, MsgGossipTimestampRange]"
  by (simp add: message_types)

lemma message_types_not_custom [simp]:
  "\<not> CustomTypeStart \<le> MsgInit"
  "\<not> CustomTypeStart \<le> MsgError"
  "\<not> CustomTypeStart \<le> MsgPing"
  "\<not> CustomTypeStart \<le> MsgPong"
  "\<not> CustomTypeStart \<le> MsgOpenChannel"
  "\<not> CustomTypeStart \<le> MsgAcceptChannel"
  "\<not> CustomTypeStart \<le> MsgFundingCreated"
  "\<not> CustomTypeStart \<le> MsgFundingSigned"
  "\<not> CustomTypeStart \<le> MsgFundingLocked"
  "\<not> CustomTypeStart \<le> MsgShutdown"
  "\<not> CustomTypeStart \<le> MsgObShutdownSimpleSend"
  "\<not> CustomTypeStart \<le> MsgClosingSigned"
  "\<not> CustomTypeStart \<le> MsgObClosingSignedSimpleSend"
  "\<not> CustomTypeStart \<le> MsgUpdateAddHTLC"
  "\<not> CustomTypeStart \<le> MsgUpdateFulfillHTLC"
  "\<not> CustomTypeStart \<le> MsgUpdateFailHTLC"
  "\<not> CustomTypeStart \<le> MsgCommitSig"
  "\<not> CustomTypeStart \<le> MsgRevokeAndAck"
  "\<not> CustomTypeStart \<le> MsgUpdateFee"
  "\<not> CustomTypeStart \<le> MsgUpdateFailMalformedHTLC"
  "\<not> CustomTypeStart \<le> MsgChannelReestablish"
  "\<not> CustomTypeStart \<le> MsgChannelAnnouncement"
  "\<not> CustomTypeStart \<le> MsgNodeAnnouncement"
  "\<not> CustomTypeStart \<le> MsgChannelUpdate"
  "\<not> CustomTypeStart \<le> MsgAnnounceSignatures"
  "\<not> CustomTypeStart \<le> MsgQueryShortChanIDs"
  "\<not> CustomTypeStart \<le> MsgReplyShortChanIDsEnd"
  "\<not> CustomTypeStart \<le> MsgQueryChannelRange"
  "\<not> CustomTypeStart \<le> MsgReplyChannelRange"
  "\<not> CustomTypeStart \<le> MsgGossipTimestampRange"
  by (simp_all add: message_types CustomTypeStart_def)

lemma makeEmptyMessage_known [simp]:
  "makeEmptyMessage MsgInit = Inr (InitM Init_zero)"
  "makeEmptyMessage MsgError = Inr (ErrorM Error_zero)"
  "makeEmptyMessage MsgPing = Inr (PingM Ping_zero)"
  "makeEmptyMessage MsgPong = Inr (PongM Pong_zero)"
  "makeEmptyMessage MsgOpenChannel = Inr (OpenChannelM OpenChannel_zero)"
  "makeEmptyMessage MsgAcceptChannel = Inr (AcceptChannelM AcceptChannel_zero)"
  "makeEmptyMessage MsgFundingCreated = Inr (FundingCreatedM FundingCreated_zero)"
  "makeEmptyMessage MsgFundingSigned = Inr (FundingSignedM FundingSigned_zero)"
  "makeEmptyMessage MsgFundingLocked = Inr (FundingLockedM FundingLocked_zero)"
  "makeEmptyMessage MsgShutdown = Inr (ShutdownM Shutdown_zero)"
  "makeEmptyMessage MsgObShutdownSimpleSend = Inr (ObShutdownSimpleSendM ObShutdownSimpleSend_zero)"
  "makeEmptyMessage MsgClosingSigned = Inr (ClosingSignedM ClosingSigned_zero)"
  "makeEmptyMessage MsgObClosingSignedSimpleSend = Inr (ObClosingSignedSimpleSendM ObClosingSignedSimpleSend_zero)"
  "makeEmptyMessage MsgUpdateAddHTLC = Inr (UpdateAddHTLCM UpdateAddHTLC_zero)"
  "makeEmptyMessage MsgUpdateFulfillHTLC = Inr (UpdateFulfillHTLCM UpdateFulfillHTLC_zero)"
  "makeEmptyMessage MsgUpdateFailHTLC = Inr (UpdateFailHTLCM UpdateFailHTLC_zero)"
  "makeEmptyMessage MsgCommitSig = Inr (CommitSigM CommitSig_zero)"
  "makeEmptyMessage MsgRevokeAndAck = Inr (RevokeAndAckM RevokeAndAck_zero)"
  "makeEmptyMessage MsgUpdateFee = Inr (UpdateFeeM UpdateFee_zero)"
  "makeEmptyMessage MsgUpdateFailMalformedHTLC = Inr (UpdateFailMalformedHTLCM UpdateFailMalformedHTLC_zero)"
  "makeEmptyMessage MsgChannelReestablish = Inr (ChannelReestablishM ChannelReestablish_zero)"
  "makeEmptyMessage MsgChannelAnnouncement = Inr (ChannelAnnouncementM ChannelAnnouncement_zero)"
  "makeEmptyMessage MsgNodeAnnouncement = Inr (NodeAnnouncementM NodeAnnouncement_zero)"
  "makeEmptyMessage MsgChannelUpdate = Inr (ChannelUpdateM ChannelUpdate_zero)"
  "makeEmptyMessage MsgAnnounceSignatures = Inr (AnnounceSignaturesM AnnounceSignatures_zero)"
  "makeEmptyMessage MsgQueryShortChanIDs = Inr (QueryShortChanIDsM QueryShortChanIDs_zero)"
  "makeEmptyMessage MsgReplyShortChanIDsEnd = Inr (ReplyShortChanIDsEndM ReplyShortChanIDsEnd_zero)"
  "makeEmptyMessage MsgQueryChannelRange = Inr (QueryChannelRangeM QueryChannelRange_zero)"
  "makeEmptyMessage MsgReplyChannelRange = Inr (ReplyChannelRangeM ReplyChannelRange_zero)"
  "makeEmptyMessage MsgGossipTimestampRange = Inr (GossipTimestampRangeM GossipTimestampRange_zero)"
  by (simp_all add: makeEmptyMessage_def message_types)

lemma makeEmptyMessage_custom:
  "CustomTypeStart \<le> t \<Longrightarrow> makeEmptyMessage t = Inr (CustomM \<lparr>cm_Type = t, cm_Data = []\<rparr>)"
  using message_types_not_custom by (auto simp: makeEmptyMessage_def)

text \<open>A message type whose codec meets the contract meets it inside the message datatype.\<close>

lemma lift_message:
  assumes "wire_message enc dec P norm" and "P m"
  shows "\<exists>bs. (\<forall>buf. enc m buf = (buf @ bs, None)) \<and> rmap C dec bs = Inr (C (norm m), [])"
proof -
  obtain bs where "\<And>buf. enc m buf = (buf @ bs, None)" and "dec bs = Inr (norm m, [])"
    using wire_message.payload [OF assms] by metis
  then show ?thesis by (auto simp: rmap_def rbind_def rret_apply)
qed

lemma Message_roundtrip:
  fixes x :: "('pk, 'z) ext_scheme"
  assumes "pubkey_ok x" "base32_ok x" "tlv_ok x" "zlib_ok x" and wf: "Message_wf x msg"
  shows "\<exists>bs m0. makeEmptyMessage (Message_MsgType msg) = Inr m0 \<and>
    (\<forall>buf. Message_Encode x msg buf = (buf @ bs, None)) \<and>
    Message_Decode x m0 bs = Inr (Message_norm x msg, [])"
proof (cases msg)
  case (CustomM m)
  then show ?thesis
    using wf by (auto simp: makeEmptyMessage_custom Custom_Encode_def Custom_Decode_def rmap_def
        rbind_def rret_apply WriteBytes_apply)
next
  case (InitM m)
  then show ?thesis
    using wf lift_message [OF init.wire_message_axioms, of m InitM] by simp
next
  case (ErrorM m)
  then show ?thesis
    using wf lift_message [OF error.wire_message_axioms, of m ErrorM] by simp
next
  case (PingM m)
  then show ?thesis
    using wf lift_message [OF ping.wire_message_axioms, of m PingM] by simp
next
  case (PongM m)
  then show ?thesis
    using wf lift_message [OF pong.wire_message_axioms, of m PongM] by simp
next
  case (OpenChannelM m)
  then show ?thesis
    using wf lift_message [OF OpenChannel_message [OF assms(1,3)], of m OpenChannelM] by simp
next
  case (AcceptChannelM m)
  then show ?thesis
    using wf lift_message [OF AcceptChannel_message [OF assms(1,3)], of m AcceptChannelM] by simp
next
  case (FundingCreatedM m)
  then show ?thesis
    using wf lift_message [OF funding_created.wire_message_axioms, of m FundingCreatedM] by simp
next
  case (FundingSignedM m)
  then show ?thesis
    using wf lift_message [OF funding_signed.wire_message_axioms, of m FundingSignedM] by simp
next
  case (FundingLockedM m)
  then show ?thesis
    using wf lift_message [OF FundingLocked_message [OF assms(1)], of m FundingLockedM] by simp
next
  case (ShutdownM m)
  then show ?thesis
    using wf lift_message [OF shutdown.wire_message_axioms, of m ShutdownM] by simp
next
  case (ObShutdownSimpleSendM m)
  then show ?thesis
    using wf lift_message [OF ob_shutdown.wire_message_axioms, of m ObShutdownSimpleSendM] by simp
next
  case (ClosingSignedM m)
  then show ?thesis
    using wf lift_message [OF closing_signed.wire_message_axioms, of m ClosingSignedM] by simp
next
  case (ObClosingSignedSimpleSendM m)
  then show ?thesis
    using wf lift_message [OF ob_closing_signed.wire_message_axioms, of m ObClosingSignedSimpleSendM] by simp
next
  case (UpdateAddHTLCM m)
  then show ?thesis
    using wf lift_message [OF update_add_htlc.wire_message_axioms, of m UpdateAddHTLCM] by simp
next
  case (UpdateFulfillHTLCM m)
  then show ?thesis
    using wf lift_message [OF update_fulfill_htlc.wire_message_axioms, of m UpdateFulfillHTLCM] by simp
next
  case (UpdateFailHTLCM m)
  then show ?thesis
    using wf lift_message [OF update_fail_htlc.wire_message_axioms, of m UpdateFailHTLCM] by simp
next
  case (CommitSigM m)
  then show ?thesis
    using wf lift_message [OF commit_sig.wire_message_axioms, of m CommitSigM] by simp
next
  case (RevokeAndAckM m)
  then show ?thesis
    using wf lift_message [OF RevokeAndAck_message [OF assms(1)], of m RevokeAndAckM] by simp
next
  case (UpdateFeeM m)
  then show ?thesis
    using wf lift_message [OF update_fee.wire_message_axioms, of m UpdateFeeM] by simp
next
  case (UpdateFailMalformedHTLCM m)
  then show ?thesis
    using wf lift_message [OF update_fail_malformed_htlc.wire_message_axioms, of m UpdateFailMalformedHTLCM] by simp
next
  case (ChannelReestablishM m)
  then show ?thesis
    using wf lift_message [OF ChannelReestablish_message [OF assms(1)], of m ChannelReestablishM] by simp
next
  case (ChannelAnnouncementM m)
  then show ?thesis
    using wf lift_message [OF channel_announcement.wire_message_axioms, of m ChannelAnnouncementM] by simp
next
  case (NodeAnnouncementM m)
  then show ?thesis
    using wf lift_message [OF NodeAnnouncement_message [OF assms(2)], of m NodeAnnouncementM] by simp
next
  case (ChannelUpdateM m)
  then show ?thesis
    using wf lift_message [OF channel_update.wire_message_axioms, of m ChannelUpdateM] by simp
next
  case (AnnounceSignaturesM m)
  then show ?thesis
    using wf lift_message [OF announce_signatures.wire_message_axioms, of m AnnounceSignaturesM] by simp
next
  case (QueryShortChanIDsM m)
  then show ?thesis
    using wf lift_message [OF QueryShortChanIDs_message [OF assms(4)], of m QueryShortChanIDsM] by simp
next
  case (ReplyShortChanIDsEndM m)
  then show ?thesis
    using wf lift_message [OF reply_short_chan_ids_end.wire_message_axioms, of m ReplyShortChanIDsEndM] by simp
next
  case (QueryChannelRangeM m)
  then show ?thesis
    using wf lift_message [OF query_channel_range.wire_message_axioms, of m QueryChannelRangeM] by simp
next
  case (ReplyChannelRangeM m)
  then show ?thesis
    using wf lift_message [OF ReplyChannelRange_message [OF assms(4)], of m ReplyChannelRangeM] by simp
next
  case (GossipTimestampRangeM m)
  then show ?thesis
    using wf lift_message [OF gossip_timestamp_range.wire_message_axioms, of m GossipTimestampRangeM] by simp
qed

lemma appends_Message_Encode: "appends (Message_Encode x msg)"
  by (cases msg) (simp_all add: init.enc_appends
      error.enc_appends
      ping.enc_appends
      pong.enc_appends
      funding_created.enc_appends
      funding_signed.enc_appends
      shutdown.enc_appends
      ob_shutdown.enc_appends
      closing_signed.enc_appends
      ob_closing_signed.enc_appends
      update_add_htlc.enc_appends
      update_fulfill_htlc.enc_appends
      update_fail_htlc.enc_appends
      commit_sig.enc_appends
      update_fee.enc_appends
      update_fail_malformed_htlc.enc_appends
      channel_announcement.enc_appends
      channel_update.enc_appends
      announce_signatures.enc_appends
      reply_short_chan_ids_end.enc_appends
      query_channel_range.enc_appends
      gossip_timestamp_range.enc_appends
      OpenChannel_Encode_def
      AcceptChannel_Encode_def
      FundingLocked_Encode_def
      RevokeAndAck_Encode_def
      ChannelReestablish_Encode_def
      NodeAnnouncement_Encode_def
      QueryShortChanIDs_Encode_def
      ReplyChannelRange_Encode_def
      split: sum.split)

lemma WriteMessage_payload:
  assumes "\<And>b. Message_Encode x msg b = (b @ bs, None)"
  shows "WriteMessage x buf msg =
    (if length bs > MaxMsgBody then (buf, 0, Some (ErrorPayloadTooLarge (length bs)))
     else (buf @ PutUint16 (Message_MsgType msg) @ bs, length bs + 2, None))"
  by (simp add: WriteMessage_def Let_def assms)

lemma ReadMessage_frame:
  "makeEmptyMessage t = Inr m0 \<Longrightarrow> ReadMessage x (PutUint16 t @ bs) = Message_Decode x m0 bs"
  by (simp add: ReadMessage_def rbind_def ReadFull_append)

lemma rmap_Inr: "rmap f r bs = Inr (y, rest) \<longleftrightarrow> (\<exists>v. r bs = Inr (v, rest) \<and> y = f v)"
  by (auto simp: rmap_def rbind_def rret_def split: sum.splits)

lemma Message_Decode_type:
  "Message_Decode x m0 bs = Inr (msg, rest) \<Longrightarrow> Message_MsgType msg = Message_MsgType m0"
  by (cases m0) (auto simp: rmap_Inr Custom_Decode_def)

lemma makeEmptyMessage_type: "makeEmptyMessage t = Inr m0 \<Longrightarrow> Message_MsgType m0 = t"
  by (auto simp: makeEmptyMessage_def split: if_splits)

definition knownMessageTypes :: "MessageType list" where
  "knownMessageTypes =
     [MsgInit, MsgError, MsgPing, MsgPong,
      MsgOpenChannel, MsgAcceptChannel, MsgFundingCreated, MsgFundingSigned,
      MsgFundingLocked, MsgShutdown, MsgObShutdownSimpleSend, MsgClosingSigned,
      MsgObClosingSignedSimpleSend, MsgUpdateAddHTLC, MsgUpdateFulfillHTLC, MsgUpdateFailHTLC,
      MsgCommitSig, MsgRevokeAndAck, MsgUpdateFee, MsgUpdateFailMalformedHTLC,
      MsgChannelReestablish, MsgChannelAnnouncement, MsgNodeAnnouncement, MsgChannelUpdate,
      MsgAnnounceSignatures, MsgQueryShortChanIDs, MsgReplyShortChanIDsEnd, MsgQueryChannelRange,
      MsgReplyChannelRange, MsgGossipTimestampRange]"

subsection \<open>Theorems\<close>

text \<open>
  C9: every well-formed message survives the wire.  \<^verbatim>\<open>WriteMessage\<close> appends its type and a
  payload to the buffer and reports exactly that many bytes, and \<^verbatim>\<open>ReadMessage\<close> on these bytes
  gives the message back (up to what the format does not carry) and leaves nothing unread; unless
  the payload is over the limit of 65533 bytes, in which case the error says how long it is and
  the buffer is as before.
\<close>
theorem message_roundtrip:
  assumes "ext_ok x" and "Message_wf x msg"
  shows "\<exists>bs. if length bs \<le> MaxMsgBody
    then WriteMessage x buf msg = (buf @ PutUint16 (Message_MsgType msg) @ bs, length bs + 2, None) \<and>
      ReadMessage x (PutUint16 (Message_MsgType msg) @ bs) = Inr (Message_norm x msg, [])
    else WriteMessage x buf msg = (buf, 0, Some (ErrorPayloadTooLarge (length bs)))"
proof -
  obtain bs m0 where m0: "makeEmptyMessage (Message_MsgType msg) = Inr m0"
    and enc: "\<And>b. Message_Encode x msg b = (b @ bs, None)"
    and dec: "Message_Decode x m0 bs = Inr (Message_norm x msg, [])"
    using Message_roundtrip [of x msg] assms by (auto simp: ext_ok_def)
  show ?thesis
    by (rule exI [of _ bs]) (simp add: WriteMessage_payload [OF enc] ReadMessage_frame [OF m0] dec)
qed

theorem message_roundtrip_witness:
  "\<exists>bs. WriteMessage sample_ext [9]
       (FundingLockedM \<lparr>fl_ChanID = replicate 32 7, fl_NextPerCommitmentPoint = Some (),
          fl_ExtraData = [1, 2]\<rparr>) = ([9] @ PutUint16 1036 @ bs, length bs + 2, None) \<and>
     ReadMessage sample_ext (PutUint16 1036 @ bs) =
       Inr (FundingLockedM \<lparr>fl_ChanID = replicate 32 7, fl_NextPerCommitmentPoint = Some (),
          fl_ExtraData = [1, 2]\<rparr>, [])"
proof -
  let ?m = "\<lparr>fl_ChanID = replicate 32 7, fl_NextPerCommitmentPoint = Some (), fl_ExtraData = [1, 2]\<rparr>"
  have ok: "ext_ok sample_ext" by (simp add: ext_ok_def sample_ext_ok)
  have wf: "Message_wf sample_ext (FundingLockedM ?m)" by (simp add: FundingLocked_wf_def)
  have "snd (snd (WriteMessage sample_ext [9] (FundingLockedM ?m))) = None" by code_simp
  then show ?thesis
    using message_roundtrip [OF ok wf, of "[9]"]
    by (auto simp: MsgFundingLocked_def split: if_splits)
qed

text \<open>
  C30: \<^verbatim>\<open>WriteMessage\<close> is all or nothing, for every message, well formed or not: after an error the
  buffer is what it was before the call and the count is 0; otherwise the old content is followed
  by the message type and a payload within the limit, and the count is the number of bytes added.
\<close>
theorem WriteMessage_all_or_nothing:
  "case WriteMessage x buf msg of
     (buf', n, Some e) \<Rightarrow> buf' = buf \<and> n = 0
   | (buf', n, None) \<Rightarrow>
       \<exists>bs. buf' = buf @ PutUint16 (Message_MsgType msg) @ bs \<and> n = length bs + 2 \<and>
         length bs \<le> MaxMsgBody"
proof -
  obtain bs e where "\<And>b. Message_Encode x msg b = (b @ bs, e)"
    using appends_Message_Encode [of x msg] by (auto elim: appendsE)
  then show ?thesis
    by (cases e) (simp_all add: WriteMessage_def Let_def not_less)
qed

text \<open>
  The dispatch on the message type is exact: \<^verbatim>\<open>makeEmptyMessage\<close> of a type gives a message
  whose \<^verbatim>\<open>MsgType\<close> is that type, for the thirty known types and for the custom range, and the
  error \<^verbatim>\<open>UnknownMessage\<close> with the type for every other number.
\<close>
theorem makeEmptyMessage_dispatch:
  "case makeEmptyMessage t of
     Inl e \<Rightarrow> e = UnknownMessage t \<and> t \<notin> set knownMessageTypes \<and> t < CustomTypeStart
   | Inr m \<Rightarrow> Message_MsgType m = t \<and> (t \<in> set knownMessageTypes \<or> CustomTypeStart \<le> t)"
  by (simp add: makeEmptyMessage_def knownMessageTypes_def not_less)

text \<open>
  A message that \<^verbatim>\<open>ReadMessage\<close> returns always has the type of the first two bytes of the
  stream: no decoder turns a message into one of another type.
\<close>
theorem ReadMessage_type:
  assumes "ReadMessage x bs = Inr (msg, rest)"
  shows "2 \<le> length bs \<and> Message_MsgType msg = BigEndianUint16 (take 2 bs)"
proof -
  obtain m0 where "2 \<le> length bs" and m0: "makeEmptyMessage (BigEndianUint16 (take 2 bs)) = Inr m0"
    and "Message_Decode x m0 (drop 2 bs) = Inr (msg, rest)"
    using assms by (auto simp: ReadMessage_def rbind_def rfail_def ReadFull_def
        split: sum.splits if_splits)
  then show ?thesis
    using Message_Decode_type makeEmptyMessage_type [OF m0] by metis
qed

theorem ReadMessage_type_witness:
  "ReadMessage sample_ext ([3, 250] @ [0, 5] @ [0, 1] @ [7]) =
     Inr (PingM \<lparr>pi_NumPongBytes = 5, pi_PaddingBytes = [7]\<rparr>, []) \<and>
   Message_MsgType (PingM \<lparr>pi_NumPongBytes = 5, pi_PaddingBytes = [7]\<rparr> :: unit Message) =
     BigEndianUint16 (take 2 ([3, 250] @ [0, 5] @ [0, 1] @ [7]))"
proof -
  have "ReadMessage sample_ext ([3, 250] @ [0, 5] @ [0, 1] @ [7]) =
      Inr (PingM \<lparr>pi_NumPongBytes = 5, pi_PaddingBytes = [7]\<rparr>, [])"
    by code_simp
  from this ReadMessage_type [OF this] show ?thesis by blast
qed

lemma wseq_WriteSig: "wseq (WriteSig s # ws) buf = wseq ws (buf @ s)"
  by (simp add: wire_simps)

lemma bufferBytes_iff:
  assumes "appends w"
  shows "bufferBytes w = Inr d \<longleftrightarrow> w buf = (buf @ d, None)"
proof -
  obtain bs e where "\<And>b. w b = (b @ bs, e)" using assms by (auto elim: appendsE)
  then show ?thesis by (auto simp: bufferBytes_def split: option.splits)
qed

text \<open>
  C34: what is signed is what is sent.  For each of the three signed announcements, \<^verbatim>\<open>DataToSign\<close>
  succeeds exactly when \<^verbatim>\<open>Encode\<close> does, and the encoded message is the signatures followed by
  exactly the signed bytes: no field escapes the signature, and none is signed differently from
  how it is sent.
\<close>
theorem announcements_sign_wire_bytes:
  "(ChannelAnnouncement_DataToSign ca = Inr d \<longleftrightarrow> ChannelAnnouncement_Encode ca buf =
      (buf @ ca_NodeSig1 ca @ ca_NodeSig2 ca @ ca_BitcoinSig1 ca @ ca_BitcoinSig2 ca @ d, None)) \<and>
   (NodeAnnouncement_DataToSign x na = Inr d \<longleftrightarrow>
      NodeAnnouncement_Encode x na buf = (buf @ na_Signature na @ d, None)) \<and>
   (ChannelUpdate_DataToSign cu = Inr d \<longleftrightarrow>
      ChannelUpdate_Encode cu buf = (buf @ cu_Signature cu @ d, None))"
proof (intro conjI)
  let ?b = "buf @ ca_NodeSig1 ca @ ca_NodeSig2 ca @ ca_BitcoinSig1 ca @ ca_BitcoinSig2 ca"
  show "ChannelAnnouncement_DataToSign ca = Inr d \<longleftrightarrow> ChannelAnnouncement_Encode ca buf =
      (buf @ ca_NodeSig1 ca @ ca_NodeSig2 ca @ ca_BitcoinSig1 ca @ ca_BitcoinSig2 ca @ d, None)"
    by (simp add: ChannelAnnouncement_DataToSign_def ChannelAnnouncement_Encode_def wseq_WriteSig
        bufferBytes_iff [where buf = ?b] del: wseq.simps)
  show "NodeAnnouncement_DataToSign x na = Inr d \<longleftrightarrow>
      NodeAnnouncement_Encode x na buf = (buf @ na_Signature na @ d, None)"
    by (simp add: NodeAnnouncement_DataToSign_def NodeAnnouncement_Encode_def wseq_WriteSig
        bufferBytes_iff [where buf = "buf @ na_Signature na"] del: wseq.simps)
  show "ChannelUpdate_DataToSign cu = Inr d \<longleftrightarrow>
      ChannelUpdate_Encode cu buf = (buf @ cu_Signature cu @ d, None)"
    by (simp add: ChannelUpdate_DataToSign_def ChannelUpdate_Encode_def wseq_WriteSig
        bufferBytes_iff [where buf = "buf @ cu_Signature cu"] del: wseq.simps)
qed

text \<open>
  C35: the last block of a channel range query is \<open>first + num - 1\<close>, capped at the largest 32-bit
  height, so it never wraps around; the exception is the empty range that starts at 0, where the
  64-bit subtraction wraps and the range becomes the whole chain.
\<close>
theorem LastBlockHeight_correct:
  "unat (QueryChannelRange_LastBlockHeight q) =
     (let n = unat (qc_FirstBlockHeight q) + unat (qc_NumBlocks q)
      in if n = 0 then 2 ^ 32 - 1 else min (n - 1) (2 ^ 32 - 1))"
proof -
  let ?f = "unat (qc_FirstBlockHeight q)" and ?k = "unat (qc_NumBlocks q)"
  define s where "s = (ucast (qc_FirstBlockHeight q) + ucast (qc_NumBlocks q) :: u64)"
  have b: "?f < 2 ^ 32" "?k < 2 ^ 32"
    using unsigned_less [of "qc_FirstBlockHeight q", where 'a = nat]
      unsigned_less [of "qc_NumBlocks q", where 'a = nat] by simp_all
  have s: "unat s = ?f + ?k"
    using b by (simp add: s_def unat_word_ariths unsigned_ucast_eq take_bit_nat_eq_self)
  show ?thesis
  proof (cases "?f + ?k = 0")
    case True
    then have "s = 0" using s by (simp add: unat_eq_zero)
    then show ?thesis
      using True by (simp add: QueryChannelRange_LastBlockHeight_def Let_def flip: s_def)
  next
    case False
    then have "s \<noteq> 0" using s by auto
    then have s1: "unat (s - 1) = ?f + ?k - 1"
      using s by (simp add: unat_minus_one)
    then show ?thesis
      using False b by (auto simp: QueryChannelRange_LastBlockHeight_def Let_def word_less_nat_alt
          unsigned_ucast_eq take_bit_nat_def min_def simp flip: s_def)
  qed
qed

end
