(* ===== verification/Omni_Opreturn.thy ===== *)
theory Omni_Opreturn
  imports Wire_Primitives "HOL-Library.Multiset"
begin

text \<open>
  The asset layer of the fork: \<^verbatim>\<open>lnwallet/omnicore/op/opreturn.go\<close> builds the OP\_RETURN output
  that tells the Omni layer how many units of an asset each output of a Bitcoin transaction
  receives.  \<^verbatim>\<open>Opreturn\<close> is the send-to-many payload (type 7, at most seven receivers),
  \<^verbatim>\<open>OpreturnSimple\<close> the simple send (type 0), \<^verbatim>\<open>PksAmounts\<close> collects the receivers by their
  scripts, and \<^verbatim>\<open>AddOpReturnToTx\<close> resolves the scripts to output numbers and puts the payload in
  front of the outputs, which moves every output up by one.
\<close>

subsection \<open>Transactions\<close>

record TxOut =
  to_Value :: u64
  to_PkScript :: bytes

record TxIn =
  ti_PreviousOutPoint :: OutPoint
  ti_SignatureScript :: bytes
  ti_Witness :: "bytes list"
  ti_Sequence :: u32

record MsgTx =
  tx_Version :: u32
  tx_TxIn :: "TxIn list"
  tx_TxOut :: "TxOut list"
  tx_LockTime :: u32

text \<open>\<^verbatim>\<open>input.FindScriptOutputIndex\<close>: the first output with the script; \<open>(False, 0)\<close> if none.\<close>

fun findScriptFrom :: "nat \<Rightarrow> TxOut list \<Rightarrow> bytes \<Rightarrow> bool \<times> u32" where
  "findScriptFrom i [] script = (False, 0)"
| "findScriptFrom i (txOut # outs) script =
     (if to_PkScript txOut = script then (True, word_of_nat i)
      else findScriptFrom (Suc i) outs script)"

definition FindScriptOutputIndex :: "'t MsgTx_scheme \<Rightarrow> bytes \<Rightarrow> bool \<times> u32" where
  "FindScriptOutputIndex tx script = findScriptFrom 0 (tx_TxOut tx) script"

subsection \<open>Payloads\<close>

datatype op_error =
    MissAssetId
  | TooManyReceivers
  | OmniPayloadTooLong
  | ScriptNotFound bytes Amount
  | OpWire wire_error
  | SlicePanic

record Output =
  out_Index :: byte
  out_Amount :: u64

record Opreturn =
  opr_Ver :: u16
  opr_TranType :: u16
  opr_Outputs :: "Output list"
  opr_PropertyId :: u32

record OpreturnSimple =
  ops_Ver :: u16
  ops_TranType :: u16
  ops_PropertyId :: u32
  ops_Amount :: u64

definition max_receivers :: nat where "max_receivers = 7"

text \<open>The opcodes of Bitcoin script that the code takes from \<^verbatim>\<open>txscript\<close>.\<close>

definition OP_RETURN :: byte where "OP_RETURN = 0x6A"
definition OP_PUSHDATA1 :: byte where "OP_PUSHDATA1 = 0x4C"

definition wlift :: "writer \<Rightarrow> bytes \<Rightarrow> bytes \<times> op_error option" where
  "wlift w buf = (case w buf of (buf', e) \<Rightarrow> (buf', map_option OpWire e))"

definition Opreturn_Encode :: "Opreturn \<Rightarrow> bytes \<Rightarrow> bytes \<times> op_error option" where
  "Opreturn_Encode p w =
     (if opr_PropertyId p = 0 then (w, Some MissAssetId)
      else if length (opr_Outputs p) > max_receivers then (w, Some TooManyReceivers)
      else wlift (wseq
        ([WriteUint16 0, WriteUint16 7, WriteUint32 (opr_PropertyId p),
          WriteUint8 (word_of_nat (length (opr_Outputs p)))] @
         concat (map (\<lambda>out. [WriteUint8 (out_Index out), WriteUint64 (out_Amount out)])
           (opr_Outputs p)))) w)"

definition Read_Output :: "Output reader" where
  "Read_Output = rbind Read_uint8 (\<lambda>i. rbind Read_uint64 (\<lambda>a.
     rret \<lparr>out_Index = i, out_Amount = a\<rparr>))"

definition Opreturn_Decode :: "Opreturn \<Rightarrow> bytes \<Rightarrow> wire_error + Opreturn" where
  "Opreturn_Decode o' bs =
     (case rbind Read_uint16 (\<lambda>ver. rbind Read_uint16 (\<lambda>typ. rbind Read_uint32 (\<lambda>prop.
           rbind Read_uint8 (\<lambda>count. rbind (rtimes (unat count) Read_Output) (\<lambda>outs.
             rret (o'\<lparr>opr_Ver := ver, opr_TranType := typ, opr_PropertyId := prop,
               opr_Outputs := opr_Outputs o' @ outs\<rparr>)))))) bs of
        Inl e \<Rightarrow> Inl e
      | Inr (r, _) \<Rightarrow> Inr r)"

definition addOpCodeData :: "bytes \<Rightarrow> bytes" where
  "addOpCodeData data =
     (if length data < unat OP_PUSHDATA1 then word_of_nat (length data) # data
      else if length data \<le> 0xFF then OP_PUSHDATA1 # word_of_nat (length data) # data
      else [])"

text \<open>The marker \<^verbatim>\<open>"omni"\<close>.\<close>

definition omniMarker :: bytes where "omniMarker = [0x6F, 0x6D, 0x6E, 0x69]"

definition getOpPKs :: "bytes \<Rightarrow> op_error + bytes" where
  "getOpPKs data =
     (let payload = omniMarker @ data
      in if length payload > 83 then Inl OmniPayloadTooLong
         else Inr (OP_RETURN # addOpCodeData payload))"

definition GetOpReturnOut :: "u32 \<Rightarrow> Output list \<Rightarrow> op_error + TxOut" where
  "GetOpReturnOut assetID outs =
     (let op = \<lparr>opr_Ver = 0, opr_TranType = 0, opr_Outputs = outs, opr_PropertyId = assetID\<rparr>
      in case Opreturn_Encode op [] of
           (w, Some e) \<Rightarrow> Inl e
         | (w, None) \<Rightarrow> (case getOpPKs w of
               Inl e \<Rightarrow> Inl e
             | Inr opPks \<Rightarrow> Inr \<lparr>to_Value = 0, to_PkScript = opPks\<rparr>))"

subsection \<open>Simple send\<close>

definition OpreturnSimple_Encode :: "OpreturnSimple \<Rightarrow> op_error + bytes" where
  "OpreturnSimple_Encode p =
     (if ops_PropertyId p = 0 then Inl MissAssetId
      else case wlift (wseq [WriteUint16 0, WriteUint16 0, WriteUint32 (ops_PropertyId p),
                 WriteUint64 (ops_Amount p)]) [] of
             (w, Some e) \<Rightarrow> Inl e
           | (w, None) \<Rightarrow> getOpPKs w)"

definition OpreturnSimple_AddOpReturnToTx ::
  "OpreturnSimple \<Rightarrow> 't MsgTx_scheme \<Rightarrow> op_error + 't MsgTx_scheme" where
  "OpreturnSimple_AddOpReturnToTx op tx = (case OpreturnSimple_Encode op of
       Inl e \<Rightarrow> Inl e
     | Inr bs \<Rightarrow> Inr (tx\<lparr>tx_TxOut := \<lparr>to_Value = 0, to_PkScript = bs\<rparr> # tx_TxOut tx\<rparr>))"

text \<open>\<^verbatim>\<open>pkScirpt[6:]\<close> panics on a script of fewer than six bytes.\<close>

definition OpreturnSimple_Decode :: "OpreturnSimple \<Rightarrow> bytes \<Rightarrow> op_error + OpreturnSimple" where
  "OpreturnSimple_Decode o' pkScript =
     (if length pkScript < 6 then Inl SlicePanic
      else case rbind Read_uint16 (\<lambda>ver. rbind Read_uint16 (\<lambda>typ. rbind Read_uint32 (\<lambda>prop.
             rbind Read_uint64 (\<lambda>amt.
               rret (o'\<lparr>ops_Ver := ver, ops_TranType := typ, ops_PropertyId := prop,
                 ops_Amount := amt\<rparr>))))) (drop 6 pkScript) of
             Inl e \<Rightarrow> Inl (OpWire e)
           | Inr (r, _) \<Rightarrow> Inr r)"

subsection \<open>Receivers by script\<close>

record PksAmounts =
  pa_AssetID :: u32
  pa_pksAmounts :: "(bytes \<times> Amount) list"

definition NewPksAmounts :: "u32 \<Rightarrow> PksAmounts" where
  "NewPksAmounts assetId = \<lparr>pa_AssetID = assetId, pa_pksAmounts = []\<rparr>"

definition PksAmounts_Len :: "PksAmounts \<Rightarrow> nat" where
  "PksAmounts_Len p = length (pa_pksAmounts p)"

definition PksAmounts_Add :: "PksAmounts \<Rightarrow> bytes \<Rightarrow> Amount \<Rightarrow> PksAmounts" where
  "PksAmounts_Add p pks amount =
     (if pa_AssetID p = 0 \<or> pa_AssetID p = BtcAssetId then p
      else if amount = 0 then p
      else p\<lparr>pa_pksAmounts := pa_pksAmounts p @ [(pks, amount)]\<rparr>)"

fun resolveOutputs :: "'t MsgTx_scheme \<Rightarrow> (bytes \<times> Amount) list \<Rightarrow> op_error + Output list" where
  "resolveOutputs tx [] = Inr []"
| "resolveOutputs tx ((pks, amount) # pas) =
     (case FindScriptOutputIndex tx pks of
        (False, _) \<Rightarrow> Inl (ScriptNotFound pks amount)
      | (True, assetOutIndex) \<Rightarrow>
          map_sum id (Cons \<lparr>out_Index = ucast assetOutIndex + 1, out_Amount = amount\<rparr>)
            (resolveOutputs tx pas))"

definition AddOpReturnToTx :: "'t MsgTx_scheme \<Rightarrow> PksAmounts \<Rightarrow> op_error + 't MsgTx_scheme" where
  "AddOpReturnToTx tx p =
     (if pa_AssetID p = 0 \<or> pa_AssetID p = BtcAssetId then Inr tx
      else if pa_pksAmounts p = [] then Inr tx
      else case resolveOutputs tx (pa_pksAmounts p) of
             Inl e \<Rightarrow> Inl e
           | Inr opOutPuts \<Rightarrow> (case GetOpReturnOut (pa_AssetID p) (sort_key out_Index opOutPuts) of
                 Inl e \<Rightarrow> Inl e
               | Inr txOut \<Rightarrow> Inr (tx\<lparr>tx_TxOut := txOut # tx_TxOut tx\<rparr>)))"

subsection \<open>Lemmas\<close>

definition output_ser :: "Output \<Rightarrow> bytes" where
  "output_ser out = out_Index out # PutUint64 (out_Amount out)"

definition payload_ser :: "u32 \<Rightarrow> Output list \<Rightarrow> bytes" where
  "payload_ser prop outs = PutUint16 0 @ PutUint16 7 @ PutUint32 prop @
     word_of_nat (length outs) # concat (map output_ser outs)"

lemma length_output_ser [simp]: "length (output_ser out) = 9"
  by (simp add: output_ser_def)

lemma length_payload_ser: "length (payload_ser prop outs) = 9 + 9 * length outs"
  by (induction outs) (simp_all add: payload_ser_def)

lemma wseq_outputs:
  "wseq (concat (map (\<lambda>out. [WriteUint8 (out_Index out), WriteUint64 (out_Amount out)]) outs)) buf =
     (buf @ concat (map output_ser outs), None)"
  by (induction outs arbitrary: buf) (simp_all add: wire_simps output_ser_def)

lemma Opreturn_Encode_ok:
  assumes "opr_PropertyId p \<noteq> 0" and "length (opr_Outputs p) \<le> max_receivers"
  shows "Opreturn_Encode p w = (w @ payload_ser (opr_PropertyId p) (opr_Outputs p), None)"
  using assms by (simp add: Opreturn_Encode_def wlift_def wire_simps wseq_outputs payload_ser_def)

lemma Read_Output_ser: "Read_Output (output_ser out @ rest) = Inr (out, rest)"
  by (simp add: Read_Output_def output_ser_def rbind_def wire_simps)

lemma rtimes_Read_Output:
  "rtimes (length outs) Read_Output (concat (map output_ser outs) @ rest) = Inr (outs, rest)"
  by (induction outs) (simp_all add: rret_apply rbind_def Read_Output_ser)

lemma rtimes_Read_Output_Nil:
  "rtimes (length outs) Read_Output (concat (map output_ser outs)) = Inr (outs, [])"
  using rtimes_Read_Output [of outs "[]"] by simp

lemma Opreturn_Decode_payload:
  assumes "length outs \<le> max_receivers"
  shows "Opreturn_Decode o' (payload_ser prop outs) =
    Inr (o'\<lparr>opr_Ver := 0, opr_TranType := 7, opr_PropertyId := prop,
      opr_Outputs := opr_Outputs o' @ outs\<rparr>)"
proof -
  have "unat (word_of_nat (length outs) :: byte) = length outs"
    using assms by (simp add: max_receivers_def unat_of_nat)
  then show ?thesis
    by (simp add: Opreturn_Decode_def payload_ser_def rbind_def wire_simps rtimes_Read_Output_Nil)
qed

lemma GetOpReturnOut_ok:
  assumes "assetID \<noteq> 0" and "length outs \<le> max_receivers"
  shows "GetOpReturnOut assetID outs =
    Inr \<lparr>to_Value = 0, to_PkScript = OP_RETURN # addOpCodeData (omniMarker @ payload_ser assetID outs)\<rparr>"
  using assms by (simp add: GetOpReturnOut_def Let_def Opreturn_Encode_ok getOpPKs_def omniMarker_def
      length_payload_ser max_receivers_def)

lemma GetOpReturnOut_cases:
  "case GetOpReturnOut assetID outs of
     Inl e \<Rightarrow> (assetID = 0 \<and> e = MissAssetId) \<or> (7 < length outs \<and> e = TooManyReceivers)
   | Inr txOut \<Rightarrow> assetID \<noteq> 0 \<and> length outs \<le> 7 \<and> length (to_PkScript txOut) \<le> 79 \<and>
       to_Value txOut = 0"
proof (cases "assetID \<noteq> 0 \<and> length outs \<le> max_receivers")
  case True
  then show ?thesis
    by (auto simp: GetOpReturnOut_ok max_receivers_def addOpCodeData_def OP_PUSHDATA1_def
        omniMarker_def length_payload_ser)
next
  case False
  then show ?thesis
    by (auto simp: GetOpReturnOut_def Let_def Opreturn_Encode_def max_receivers_def)
qed

lemma findScriptFrom_spec:
  assumes "i + length outs < 2 ^ 32" and "findScriptFrom i outs script = (found, idx)"
  shows "if found then i \<le> unat idx \<and> unat idx - i < length outs \<and>
      to_PkScript (outs ! (unat idx - i)) = script \<and>
      (\<forall>j < unat idx - i. to_PkScript (outs ! j) \<noteq> script)
    else script \<notin> to_PkScript ` set outs"
  using assms
proof (induction i outs script rule: findScriptFrom.induct)
  case (2 i txOut outs script)
  show ?case
  proof (cases "to_PkScript txOut = script")
    case True
    then show ?thesis using 2 by (auto simp: unat_of_nat)
  next
    case False
    with 2 have IH: "if found then Suc i \<le> unat idx \<and> unat idx - Suc i < length outs \<and>
        to_PkScript (outs ! (unat idx - Suc i)) = script \<and>
        (\<forall>j < unat idx - Suc i. to_PkScript (outs ! j) \<noteq> script)
      else script \<notin> to_PkScript ` set outs" by simp
    have shift: "Suc i \<le> n \<Longrightarrow> n - i = Suc (n - Suc i)" for n :: nat by simp
    show ?thesis
      using IH False by (auto simp: shift less_Suc_eq_0_disj split: if_splits)
  qed
qed simp

text \<open>One receiver: the number written into the payload is that of the output, counted after the
  payload output has been put in front.\<close>

lemma resolved_index:
  assumes "length (tx_TxOut tx) \<le> 255" and "FindScriptOutputIndex tx pks = (True, idx)"
  shows "unat (ucast idx + 1 :: byte) = Suc (unat idx) \<and> unat idx < length (tx_TxOut tx) \<and>
    to_PkScript (tx_TxOut tx ! unat idx) = pks"
proof -
  have spec: "unat idx < length (tx_TxOut tx)" "to_PkScript (tx_TxOut tx ! unat idx) = pks"
    using findScriptFrom_spec [of 0 "tx_TxOut tx" pks True idx] assms
    by (simp_all add: FindScriptOutputIndex_def)
  then have "unat (ucast idx :: byte) = unat idx"
    using assms(1) by (simp add: unsigned_ucast_eq take_bit_nat_eq_self)
  then show ?thesis
    using spec assms(1) by (simp add: unat_word_ariths)
qed

lemma resolveOutputs_correct:
  assumes "length (tx_TxOut tx) \<le> 255" and "resolveOutputs tx pas = Inr outs"
  shows "map (\<lambda>out. (to_PkScript ((t0 # tx_TxOut tx) ! unat (out_Index out)), out_Amount out)) outs = pas"
  using assms(2)
proof (induction pas arbitrary: outs)
  case (Cons pa pas)
  obtain pks amount where pa: "pa = (pks, amount)" by (cases pa)
  obtain idx rest where idx: "FindScriptOutputIndex tx pks = (True, idx)"
    and rest: "resolveOutputs tx pas = Inr rest"
    and outs: "outs = \<lparr>out_Index = ucast idx + 1, out_Amount = amount\<rparr> # rest"
    using Cons.prems by (auto simp: pa map_sum_def split: prod.splits bool.splits sum.splits)
  show ?case
    using resolved_index [OF assms(1) idx] Cons.IH [OF rest] by (simp add: outs pa)
qed simp

lemma resolveOutputs_length: "resolveOutputs tx pas = Inr outs \<Longrightarrow> length outs = length pas"
  by (induction tx pas arbitrary: outs rule: resolveOutputs.induct)
     (auto simp: map_sum_def split: prod.splits bool.splits sum.splits)

lemma resolveOutputs_isl:
  "isl (resolveOutputs tx pas) \<longleftrightarrow> (\<exists>pa \<in> set pas. \<not> fst (FindScriptOutputIndex tx (fst pa)))"
proof (induction pas)
  case (Cons pa pas)
  obtain pks amount f idx where "pa = (pks, amount)" and "FindScriptOutputIndex tx pks = (f, idx)"
    by (cases pa; cases "FindScriptOutputIndex tx (fst pa)") auto
  then show ?case
    using Cons.IH by (cases f; cases "resolveOutputs tx pas") simp_all
qed simp

subsection \<open>Properties\<close>

text \<open>
  C32: the send-to-many payload round-trips: an \<^verbatim>\<open>Opreturn\<close> with an asset and at most seven
  receivers is encoded into nine bytes plus nine per receiver, and decoding the bytes gives the
  version 0, the type 7, the same asset and the same receivers in the same order.
\<close>
theorem Opreturn_roundtrip:
  assumes "opr_PropertyId p \<noteq> 0" and "length (opr_Outputs p) \<le> max_receivers"
  shows "\<exists>bs. Opreturn_Encode p w = (w @ bs, None) \<and> length bs = 9 + 9 * length (opr_Outputs p) \<and>
    Opreturn_Decode \<lparr>opr_Ver = 0, opr_TranType = 0, opr_Outputs = [], opr_PropertyId = 0\<rparr> bs =
      Inr (p\<lparr>opr_Ver := 0, opr_TranType := 7\<rparr>)"
  by (rule exI [of _ "payload_ser (opr_PropertyId p) (opr_Outputs p)"])
     (simp add: Opreturn_Encode_ok [OF assms] Opreturn_Decode_payload [OF assms(2)]
       length_payload_ser)

theorem Opreturn_roundtrip_witness:
  "Opreturn_Encode \<lparr>opr_Ver = 0, opr_TranType = 0, opr_Outputs = [\<lparr>out_Index = 2, out_Amount = 1050000000\<rparr>,
      \<lparr>out_Index = 3, out_Amount = 50000000\<rparr>, \<lparr>out_Index = 5, out_Amount = 1500000000\<rparr>], opr_PropertyId = 31\<rparr> [] =
     ([0x00, 0x00, 0x00, 0x07, 0x00, 0x00, 0x00, 0x1f, 0x03,
       0x02, 0x00, 0x00, 0x00, 0x00, 0x3e, 0x95, 0xba, 0x80,
       0x03, 0x00, 0x00, 0x00, 0x00, 0x02, 0xfa, 0xf0, 0x80,
       0x05, 0x00, 0x00, 0x00, 0x00, 0x59, 0x68, 0x2f, 0x00], None) \<and>
   Opreturn_Decode \<lparr>opr_Ver = 0, opr_TranType = 0, opr_Outputs = [], opr_PropertyId = 0\<rparr>
     (fst (Opreturn_Encode \<lparr>opr_Ver = 0, opr_TranType = 0, opr_Outputs = [\<lparr>out_Index = 2, out_Amount = 1050000000\<rparr>,
      \<lparr>out_Index = 3, out_Amount = 50000000\<rparr>, \<lparr>out_Index = 5, out_Amount = 1500000000\<rparr>], opr_PropertyId = 31\<rparr> [])) =
     Inr \<lparr>opr_Ver = 0, opr_TranType = 7, opr_Outputs = [\<lparr>out_Index = 2, out_Amount = 1050000000\<rparr>,
      \<lparr>out_Index = 3, out_Amount = 50000000\<rparr>, \<lparr>out_Index = 5, out_Amount = 1500000000\<rparr>], opr_PropertyId = 31\<rparr>"
  (is "Opreturn_Encode ?p [] = (?bs, None) \<and> _")
proof -
  have enc: "Opreturn_Encode ?p [] = (?bs, None)" by code_simp
  have "opr_PropertyId ?p \<noteq> 0" and "length (opr_Outputs ?p) \<le> max_receivers"
    by (simp_all add: max_receivers_def)
  from Opreturn_roundtrip [OF this, of "[]"] enc show ?thesis by auto
qed

text \<open>
  \<^verbatim>\<open>GetOpReturnOut\<close> fails exactly for the asset number 0 and for more than seven receivers, and
  the script it builds is at most 79 bytes long, so the check of the payload length, and the
  83-byte limit of a standard OP\_RETURN output, are never hit.
\<close>
theorem GetOpReturnOut_bounds:
  "case GetOpReturnOut assetID outs of
     Inl e \<Rightarrow> (assetID = 0 \<and> e = MissAssetId) \<or> (7 < length outs \<and> e = TooManyReceivers)
   | Inr txOut \<Rightarrow> assetID \<noteq> 0 \<and> length outs \<le> 7 \<and> length (to_PkScript txOut) \<le> 79 \<and>
       to_Value txOut = 0"
  by (rule GetOpReturnOut_cases)

text \<open>
  C18: \<^verbatim>\<open>AddOpReturnToTx\<close> assigns the assets to the right outputs.  For a transaction with at most
  255 outputs and a non-empty collection of an asset, success means that the new transaction is
  the payload output followed by the old outputs; that the payload lists, in the order of the
  output numbers, receivers which, when their numbers are looked up in the new transaction, are
  exactly the collected scripts with their amounts, none added, lost or changed.
\<close>
theorem AddOpReturnToTx_correct:
  fixes tx :: "'t MsgTx_scheme"
  assumes "AddOpReturnToTx tx p = Inr tx'" and "pa_AssetID p \<noteq> 0" and "pa_pksAmounts p \<noteq> []"
    and "length (tx_TxOut tx) \<le> 255"
  shows "\<exists>outs.
    tx_TxOut tx' = \<lparr>to_Value = 0, to_PkScript = OP_RETURN # addOpCodeData (omniMarker @
      fst (Opreturn_Encode \<lparr>opr_Ver = 0, opr_TranType = 0, opr_Outputs = outs,
        opr_PropertyId = pa_AssetID p\<rparr> []))\<rparr> # tx_TxOut tx \<and>
    sorted (map out_Index outs) \<and>
    mset (map (\<lambda>out. (to_PkScript (tx_TxOut tx' ! unat (out_Index out)), out_Amount out)) outs) =
      mset (pa_pksAmounts p)"
proof -
  have btc: "pa_AssetID p \<noteq> BtcAssetId" using assms(2) by (simp add: BtcAssetId_def)
  obtain os where os: "resolveOutputs tx (pa_pksAmounts p) = Inr os"
    and out: "\<exists>t. GetOpReturnOut (pa_AssetID p) (sort_key out_Index os) = Inr t \<and>
      tx' = tx\<lparr>tx_TxOut := t # tx_TxOut tx\<rparr>"
    using assms(1-3) btc by (auto simp: AddOpReturnToTx_def split: sum.splits)
  let ?outs = "sort_key out_Index os"
  have len: "length ?outs \<le> max_receivers"
    using out GetOpReturnOut_cases [of "pa_AssetID p" ?outs] by (auto simp: max_receivers_def)
  define t where "t = \<lparr>to_Value = 0, to_PkScript = OP_RETURN # addOpCodeData (omniMarker @
      payload_ser (pa_AssetID p) ?outs)\<rparr>"
  have tx': "tx_TxOut tx' = t # tx_TxOut tx"
    using out GetOpReturnOut_ok [OF assms(2) len] by (auto simp: t_def)
  let ?f = "\<lambda>out. (to_PkScript ((t # tx_TxOut tx) ! unat (out_Index out)), out_Amount out)"
  have "mset (map ?f ?outs) = mset (map ?f os)"
    by (simp only: mset_map mset_sort)
  also have "\<dots> = mset (pa_pksAmounts p)"
    using resolveOutputs_correct [OF assms(4) os, of t] by simp
  finally have m: "mset (map ?f ?outs) = mset (pa_pksAmounts p)" .
  show ?thesis
  proof (intro exI [of _ ?outs] conjI)
    show "tx_TxOut tx' = \<lparr>to_Value = 0, to_PkScript = OP_RETURN # addOpCodeData (omniMarker @
      fst (Opreturn_Encode \<lparr>opr_Ver = 0, opr_TranType = 0, opr_Outputs = ?outs,
        opr_PropertyId = pa_AssetID p\<rparr> []))\<rparr> # tx_TxOut tx"
      using len assms(2) by (simp add: tx' t_def Opreturn_Encode_ok)
    show "sorted (map out_Index ?outs)" by simp
    show "mset (map (\<lambda>out. (to_PkScript (tx_TxOut tx' ! unat (out_Index out)), out_Amount out)) ?outs) =
      mset (pa_pksAmounts p)"
      using m by (simp add: tx')
  qed
qed

definition sample_tx :: MsgTx where
  "sample_tx = \<lparr>tx_Version = 2, tx_TxIn = [], tx_TxOut = [\<lparr>to_Value = 546, to_PkScript = [1]\<rparr>, \<lparr>to_Value = 546, to_PkScript = [2]\<rparr>], tx_LockTime = 0\<rparr>"

definition sample_pks :: PksAmounts where
  "sample_pks = PksAmounts_Add (PksAmounts_Add (NewPksAmounts 31) [2] 70) [1] 30"

theorem AddOpReturnToTx_correct_witness:
  "\<exists>(outs :: Output list) tx'. AddOpReturnToTx sample_tx sample_pks = Inr tx' \<and> sorted (map out_Index outs) \<and>
    mset (map (\<lambda>out. (to_PkScript (tx_TxOut tx' ! unat (out_Index out)), out_Amount out)) outs) =
      {#([1], 30), ([2], 70)#}"
proof -
  have "\<not> isl (AddOpReturnToTx sample_tx sample_pks)" by code_simp
  then obtain tx' where tx': "AddOpReturnToTx sample_tx sample_pks = Inr tx'"
    by (cases "AddOpReturnToTx sample_tx sample_pks") auto
  have p: "pa_AssetID sample_pks \<noteq> 0" "pa_pksAmounts sample_pks = [([2], 70), ([1], 30)]"
    and l: "length (tx_TxOut sample_tx) \<le> 255"
    by (simp_all add: sample_pks_def sample_tx_def PksAmounts_Add_def NewPksAmounts_def BtcAssetId_def)
  have ne: "pa_pksAmounts sample_pks \<noteq> []" by (simp add: p(2))
  have "\<exists>outs :: Output list. sorted (map out_Index outs) \<and>
    mset (map (\<lambda>out. (to_PkScript (tx_TxOut tx' ! unat (out_Index out)), out_Amount out)) outs) =
      mset (pa_pksAmounts sample_pks)"
    using AddOpReturnToTx_correct [OF tx' p(1) ne l] by blast
  then show ?thesis using tx' by (auto simp: p(2) add_mset_commute)
qed

text \<open>
  \<^verbatim>\<open>AddOpReturnToTx\<close> refuses a transaction exactly when a collected script is not among its
  outputs or there are more than seven receivers; in particular it never builds a payload that
  leaves a receiver out.
\<close>
theorem AddOpReturnToTx_fails_iff:
  assumes "pa_AssetID p \<noteq> 0" and "pa_pksAmounts p \<noteq> []" and "length (tx_TxOut tx) < 2 ^ 32"
  shows "isl (AddOpReturnToTx tx p) \<longleftrightarrow>
    (\<exists>pa \<in> set (pa_pksAmounts p). fst pa \<notin> to_PkScript ` set (tx_TxOut tx)) \<or>
    7 < length (pa_pksAmounts p)"
proof -
  have btc: "pa_AssetID p \<noteq> BtcAssetId" using assms(1) by (simp add: BtcAssetId_def)
  have found: "fst (FindScriptOutputIndex tx pks) \<longleftrightarrow> pks \<in> to_PkScript ` set (tx_TxOut tx)" for pks
  proof -
    obtain f i where fi: "findScriptFrom 0 (tx_TxOut tx) pks = (f, i)" by fastforce
    have "if f then unat i < length (tx_TxOut tx) \<and> to_PkScript (tx_TxOut tx ! unat i) = pks
      else pks \<notin> to_PkScript ` set (tx_TxOut tx)"
      using findScriptFrom_spec [OF _ fi] assms(3) by (cases f) simp_all
    then show ?thesis
      using fi by (cases f) (auto simp: FindScriptOutputIndex_def intro: rev_image_eqI)
  qed
  show ?thesis
  proof (cases "resolveOutputs tx (pa_pksAmounts p)")
    case (Inl e)
    then have "isl (resolveOutputs tx (pa_pksAmounts p))" by simp
    then have "\<exists>pa \<in> set (pa_pksAmounts p). fst pa \<notin> to_PkScript ` set (tx_TxOut tx)"
      by (simp add: resolveOutputs_isl found)
    moreover have "isl (AddOpReturnToTx tx p)"
      using Inl assms(1,2) btc by (simp add: AddOpReturnToTx_def)
    ultimately show ?thesis by simp
  next
    case (Inr outs)
    then have "\<not> isl (resolveOutputs tx (pa_pksAmounts p))" by simp
    then have "\<not> (\<exists>pa \<in> set (pa_pksAmounts p). fst pa \<notin> to_PkScript ` set (tx_TxOut tx))"
      by (simp add: resolveOutputs_isl found)
    moreover have "isl (AddOpReturnToTx tx p) \<longleftrightarrow>
        isl (GetOpReturnOut (pa_AssetID p) (sort_key out_Index outs))"
      using Inr assms(1,2) btc by (simp add: AddOpReturnToTx_def split: sum.splits)
    moreover have "\<dots> \<longleftrightarrow> 7 < length (pa_pksAmounts p)"
      using GetOpReturnOut_cases [of "pa_AssetID p" "sort_key out_Index outs"] assms(1)
        resolveOutputs_length [OF Inr] by (auto split: sum.splits)
    ultimately show ?thesis by simp
  qed
qed

theorem AddOpReturnToTx_fails_iff_witness:
  "isl (AddOpReturnToTx sample_tx (PksAmounts_Add sample_pks [3] 5))"
proof -
  let ?p = "PksAmounts_Add sample_pks [3] 5"
  have "pa_AssetID ?p \<noteq> 0" "pa_pksAmounts ?p = [([2], 70), ([1], 30), ([3], 5)]"
    and "length (tx_TxOut sample_tx) < 2 ^ 32"
    by (simp_all add: sample_pks_def sample_tx_def PksAmounts_Add_def NewPksAmounts_def BtcAssetId_def)
  then show ?thesis
    using AddOpReturnToTx_fails_iff [of ?p sample_tx] by (simp add: sample_tx_def)
qed

text \<open>
  the simple send round-trips: for every asset but 0 the script is 22 bytes, and decoding it
  gives version 0, type 0 and the same asset and amount.
\<close>
theorem OpreturnSimple_roundtrip:
  assumes "ops_PropertyId p \<noteq> 0"
  shows "\<exists>script. OpreturnSimple_Encode p = Inr script \<and> length script = 22 \<and>
    OpreturnSimple_Decode o' script = Inr (p\<lparr>ops_Ver := 0, ops_TranType := 0\<rparr>)"
proof -
  have nil: "Read_uint64 (PutUint64 v) = Inr (v, [])" for v
    using Read_int_ser(4) [of v "[]"] by simp
  let ?s = "OP_RETURN # addOpCodeData (omniMarker @ PutUint16 0 @ PutUint16 0 @
    PutUint32 (ops_PropertyId p) @ PutUint64 (ops_Amount p))"
  have "OpreturnSimple_Encode p = Inr ?s"
    using assms by (simp add: OpreturnSimple_Encode_def wlift_def wire_simps getOpPKs_def
        omniMarker_def)
  moreover have "length ?s = 22" and "drop 6 ?s = PutUint16 0 @ PutUint16 0 @
      PutUint32 (ops_PropertyId p) @ PutUint64 (ops_Amount p)"
    by (simp_all add: addOpCodeData_def OP_PUSHDATA1_def omniMarker_def)
  ultimately show ?thesis
    by (intro exI [of _ ?s])
       (simp add: OpreturnSimple_Decode_def rbind_def wire_simps nil)
qed

theorem OpreturnSimple_roundtrip_witness:
  "OpreturnSimple_Encode \<lparr>ops_Ver = 0, ops_TranType = 0, ops_PropertyId = 2, ops_Amount = 10000000\<rparr> =
     Inr [0x6a, 0x14, 0x6f, 0x6d, 0x6e, 0x69, 0, 0, 0, 0, 0, 0, 0, 2, 0, 0, 0, 0, 0, 0x98, 0x96, 0x80] \<and>
   OpreturnSimple_Decode \<lparr>ops_Ver = 9, ops_TranType = 9, ops_PropertyId = 9, ops_Amount = 9\<rparr>
     [0x6a, 0x14, 0x6f, 0x6d, 0x6e, 0x69, 0, 0, 0, 0, 0, 0, 0, 2, 0, 0, 0, 0, 0, 0x98, 0x96, 0x80] =
     Inr \<lparr>ops_Ver = 0, ops_TranType = 0, ops_PropertyId = 2, ops_Amount = 10000000\<rparr>"
  (is "OpreturnSimple_Encode ?p = Inr ?s \<and> _")
proof -
  have enc: "OpreturnSimple_Encode ?p = Inr ?s" by code_simp
  have "ops_PropertyId ?p \<noteq> 0" by simp
  from OpreturnSimple_roundtrip [OF this, of "\<lparr>ops_Ver = 9, ops_TranType = 9, ops_PropertyId = 9, ops_Amount = 9\<rparr>"]
    enc show ?thesis by auto
qed

end
