(* ===== verification/Lnwallet_Fees.thy ===== *)
theory Lnwallet_Fees
  imports Wire_Ids "HOL-Library.Signed_Division"
begin

text \<open>
  Fee rates (\<^verbatim>\<open>lnwallet/chainfee/rates.go\<close>), the transaction weights of \<^verbatim>\<open>input/size.go\<close> that
  the channel state machine uses, channel types (\<^verbatim>\<open>channeldb/channel.go\<close>), and the dust rule of
  \<^verbatim>\<open>lnwallet/channel.go\<close>.  Amounts and fee rates are \<^verbatim>\<open>int64\<close>: they are words whose
  comparisons are signed, and whose division rounds towards zero.
\<close>

type_synonym int64 = "64 word"
type_synonym SatPerKWeight = int64

definition sless64 :: "int64 \<Rightarrow> int64 \<Rightarrow> bool" where
  "sless64 a b \<longleftrightarrow> sint a < sint b"

definition sdiv64 :: "int64 \<Rightarrow> int64 \<Rightarrow> int64" where
  "sdiv64 a b = word_of_int (sint a sdiv sint b)"

subsection \<open>Fee rates\<close>

definition FeePerKwFloor :: SatPerKWeight where "FeePerKwFloor = 253"

definition FeeForWeight :: "SatPerKWeight \<Rightarrow> int64 \<Rightarrow> Amount" where
  "FeeForWeight s wu = sdiv64 (s * wu) 1000"

subsection \<open>Weights\<close>

definition witnessScaleFactor :: int64 where "witnessScaleFactor = 4"
definition P2WPKHSize :: int64 where "P2WPKHSize = 1 + 1 + 20"
definition P2WSHSize :: int64 where "P2WSHSize = 1 + 1 + 32"
definition MultiSigSize :: int64 where "MultiSigSize = 1 + 1 + 33 + 1 + 33 + 1 + 1"
definition MultiSigWitnessSize :: int64 where
  "MultiSigWitnessSize = 1 + 1 + 1 + 73 + 1 + 73 + 1 + MultiSigSize"
definition InputSize :: int64 where "InputSize = 32 + 4 + 1 + 4"
definition FundingInputSize :: int64 where "FundingInputSize = InputSize"
definition CommitmentDelayOutput :: int64 where "CommitmentDelayOutput = 8 + 1 + P2WSHSize"
definition CommitmentKeyHashOutput :: int64 where "CommitmentKeyHashOutput = 8 + 1 + P2WPKHSize"
definition CommitmentAnchorOutput :: int64 where "CommitmentAnchorOutput = 8 + 1 + P2WSHSize"
definition HTLCSize :: int64 where "HTLCSize = 8 + 1 + P2WSHSize"
definition WitnessHeaderSize :: int64 where "WitnessHeaderSize = 1 + 1"
definition BaseCommitmentTxSize :: int64 where
  "BaseCommitmentTxSize = 4 + 1 + FundingInputSize + 1 + CommitmentDelayOutput +
     CommitmentKeyHashOutput + 4"
definition BaseCommitmentTxWeight :: int64 where
  "BaseCommitmentTxWeight = witnessScaleFactor * BaseCommitmentTxSize"
definition WitnessCommitmentTxWeight :: int64 where
  "WitnessCommitmentTxWeight = WitnessHeaderSize + MultiSigWitnessSize"
definition BaseAnchorCommitmentTxSize :: int64 where
  "BaseAnchorCommitmentTxSize = 4 + 1 + FundingInputSize + 3 + 2 * CommitmentDelayOutput +
     2 * CommitmentAnchorOutput + 4"
definition BaseAnchorCommitmentTxWeight :: int64 where
  "BaseAnchorCommitmentTxWeight = witnessScaleFactor * BaseAnchorCommitmentTxSize"
definition CommitWeightConst :: int64 where
  "CommitWeightConst = BaseCommitmentTxWeight + WitnessCommitmentTxWeight"
definition AnchorCommitWeight :: int64 where
  "AnchorCommitWeight = BaseAnchorCommitmentTxWeight + WitnessCommitmentTxWeight"
definition HTLCWeight :: int64 where "HTLCWeight = witnessScaleFactor * HTLCSize"
definition HtlcTimeoutWeight :: int64 where "HtlcTimeoutWeight = 663"
definition HtlcSuccessWeight :: int64 where "HtlcSuccessWeight = 703"
definition HtlcConfirmedScriptOverhead :: int64 where "HtlcConfirmedScriptOverhead = 3"
definition HtlcTimeoutWeightConfirmed :: int64 where
  "HtlcTimeoutWeightConfirmed = HtlcTimeoutWeight + HtlcConfirmedScriptOverhead"
definition HtlcSuccessWeightConfirmed :: int64 where
  "HtlcSuccessWeightConfirmed = HtlcSuccessWeight + HtlcConfirmedScriptOverhead"

lemmas weight_defs = witnessScaleFactor_def P2WPKHSize_def P2WSHSize_def MultiSigSize_def
  MultiSigWitnessSize_def InputSize_def FundingInputSize_def CommitmentDelayOutput_def
  CommitmentKeyHashOutput_def CommitmentAnchorOutput_def HTLCSize_def WitnessHeaderSize_def
  BaseCommitmentTxSize_def BaseCommitmentTxWeight_def WitnessCommitmentTxWeight_def
  BaseAnchorCommitmentTxSize_def BaseAnchorCommitmentTxWeight_def CommitWeightConst_def
  AnchorCommitWeight_def HTLCWeight_def HtlcTimeoutWeight_def HtlcSuccessWeight_def
  HtlcConfirmedScriptOverhead_def HtlcTimeoutWeightConfirmed_def HtlcSuccessWeightConfirmed_def

text \<open>The values the comments of \<^verbatim>\<open>size.go\<close> give.\<close>

lemma weight_values [simp]:
  "CommitWeightConst = 724" "AnchorCommitWeight = 1124" "HTLCWeight = 172"
  "HtlcTimeoutWeight = 663" "HtlcSuccessWeight = 703"
  "HtlcTimeoutWeightConfirmed = 666" "HtlcSuccessWeightConfirmed = 706"
  by (simp_all add: weight_defs)

subsection \<open>Channel types\<close>

type_synonym ChannelType = byte

definition AnchorOutputsBit :: ChannelType where "AnchorOutputsBit = push_bit 3 1"
definition ZeroHtlcTxFeeBit :: ChannelType where "ZeroHtlcTxFeeBit = push_bit 5 1"

definition HasAnchors :: "ChannelType \<Rightarrow> bool" where
  "HasAnchors c \<longleftrightarrow> c AND AnchorOutputsBit = AnchorOutputsBit"

definition ZeroHtlcTxFee :: "ChannelType \<Rightarrow> bool" where
  "ZeroHtlcTxFee c \<longleftrightarrow> c AND ZeroHtlcTxFeeBit = ZeroHtlcTxFeeBit"

definition CommitWeight :: "ChannelType \<Rightarrow> int64" where
  "CommitWeight chanType = (if HasAnchors chanType then AnchorCommitWeight else CommitWeightConst)"

definition HtlcTimeoutFee :: "ChannelType \<Rightarrow> SatPerKWeight \<Rightarrow> Amount" where
  "HtlcTimeoutFee chanType feePerKw =
     (if ZeroHtlcTxFee chanType then 0
      else if HasAnchors chanType then FeeForWeight feePerKw HtlcTimeoutWeightConfirmed
      else FeeForWeight feePerKw HtlcTimeoutWeight)"

definition HtlcSuccessFee :: "ChannelType \<Rightarrow> SatPerKWeight \<Rightarrow> Amount" where
  "HtlcSuccessFee chanType feePerKw =
     (if ZeroHtlcTxFee chanType then 0
      else if HasAnchors chanType then FeeForWeight feePerKw HtlcSuccessWeightConfirmed
      else FeeForWeight feePerKw HtlcSuccessWeight)"

subsection \<open>Dust\<close>

definition HtlcIsDust ::
  "ChannelType \<Rightarrow> bool \<Rightarrow> bool \<Rightarrow> SatPerKWeight \<Rightarrow> Amount \<Rightarrow> Amount \<Rightarrow> u32 \<Rightarrow> bool" where
  "HtlcIsDust chanType incoming ourCommit feePerKw htlcAmt dustLimit assetId =
     (let htlcAmt = (if assetId \<noteq> BtcAssetId then OmniGas * 3 else htlcAmt);
          htlcFee = (if incoming \<and> ourCommit then HtlcSuccessFee chanType feePerKw
                     else if incoming \<and> \<not> ourCommit then HtlcTimeoutFee chanType feePerKw
                     else if \<not> incoming \<and> ourCommit then HtlcTimeoutFee chanType feePerKw
                     else HtlcSuccessFee chanType feePerKw)
      in sless64 (htlcAmt - htlcFee) dustLimit)"

text \<open>
  For rates and weights whose product fits, the fee is the product divided by 1000, rounded
  down.
\<close>

lemma signed_take_bit_63: "0 \<le> x \<Longrightarrow> x < 2 ^ 63 \<Longrightarrow> signed_take_bit 63 x = (x :: int)"
  by (rule signed_take_bit_int_eq_self) simp_all

lemma sdiv_nonneg: "0 \<le> x \<Longrightarrow> x sdiv 1000 = x div (1000 :: int)"
  by (cases "x = 0") (simp_all add: signed_divide_int_def sgn_if)

lemma sint_small_prod:
  fixes s w :: int64
  assumes "0 \<le> sint s * sint w" "sint s * sint w < 2 ^ 63"
  shows "sint (s * w) = sint s * sint w"
  using signed_take_bit_63 [OF assms] by (simp add: sint_word_ariths)

lemma FeeForWeight_exact:
  assumes "0 \<le> sint s" "0 \<le> sint w" "sint s * sint w < 2 ^ 63"
  shows "sint (FeeForWeight s w) = sint s * sint w div 1000"
proof -
  have pos: "0 \<le> sint s * sint w" using assms(1,2) by simp
  have q: "0 \<le> sint s * sint w div 1000" using pos by (simp add: pos_imp_zdiv_nonneg_iff)
  have "sint s * sint w div 1000 \<le> sint s * sint w" using pos by linarith
  then have r: "signed_take_bit 63 (sint s * sint w div 1000) = sint s * sint w div 1000"
    using q assms(3) by (intro signed_take_bit_63) simp_all
  have "sint s * sint w sdiv 1000 = sint s * sint w div 1000"
    using pos by (rule sdiv_nonneg)
  then show ?thesis
    unfolding FeeForWeight_def sdiv64_def sint_small_prod [OF pos assms(3)]
    using r by (simp add: sint_sbintrunc')
qed

end
