(* ===== verification/Lnwallet_UpdateLog.thy ===== *)
theory Lnwallet_UpdateLog
  imports Wire_Ids
begin

text \<open>
  The update logs and commitment chains of \<^verbatim>\<open>lnwallet/channel.go\<close>.  An update log is a linked
  list of payment descriptors with two indexes into it: fee updates, settles and fails by their
  log index, offered HTLCs by their HTLC index.  Go's list elements are pointers: here every
  element has a number that is never reused, the list holds the numbers with the descriptors,
  and the indexes map to the numbers.  Removing an entry that is not indexed dereferences a nil
  element, which is the result \<open>None\<close>.

  A script is its bytes, and a signature its serialization.
\<close>

subsection \<open>Payment descriptors\<close>

datatype updateType = Add | Fail | MalformedFail | Settle | FeeUpdate

record AddRef =
  ar_Height :: u64
  ar_Index :: u16

record SettleFailRef =
  sf_Source :: ShortChannelID
  sf_Height :: u64
  sf_Index :: u16

record CircuitKey =
  ck_ChanID :: ShortChannelID
  ck_HtlcID :: u64

record PaymentDescriptor =
  pd_RHash :: bytes
  pd_RPreimage :: bytes
  pd_Timeout :: u32
  pd_BtcAmount :: MilliSatoshi
  pd_AssetAmount :: Amount
  pd_AssetID :: u32
  pd_LogIndex :: u64
  pd_HtlcIndex :: u64
  pd_ParentIndex :: u64
  pd_SourceRef :: "AddRef option"
  pd_DestRef :: "SettleFailRef option"
  pd_OpenCircuitKey :: "CircuitKey option"
  pd_ClosedCircuitKey :: "CircuitKey option"
  localOutputIndex :: u32
  remoteOutputIndex :: u32
  pd_sig :: "bytes option"
  addCommitHeightRemote :: u64
  addCommitHeightLocal :: u64
  removeCommitHeightRemote :: u64
  removeCommitHeightLocal :: u64
  pd_OnionBlob :: bytes
  pd_ShaOnionBlob :: bytes
  pd_FailReason :: bytes
  pd_FailCode :: u16
  ourPkScript :: bytes
  ourWitnessScript :: bytes
  theirPkScript :: bytes
  theirWitnessScript :: bytes
  EntryType :: updateType
  isForwarded :: bool

text \<open>\<^verbatim>\<open>&PaymentDescriptor{}\<close>: the fields a literal leaves out are zero.\<close>

definition pd_zero :: PaymentDescriptor where
  "pd_zero = \<lparr>pd_RHash = replicate 32 0, pd_RPreimage = replicate 32 0, pd_Timeout = 0,
     pd_BtcAmount = 0, pd_AssetAmount = 0, pd_AssetID = 0, pd_LogIndex = 0, pd_HtlcIndex = 0,
     pd_ParentIndex = 0, pd_SourceRef = None, pd_DestRef = None, pd_OpenCircuitKey = None,
     pd_ClosedCircuitKey = None, localOutputIndex = 0, remoteOutputIndex = 0, pd_sig = None, addCommitHeightRemote = 0, addCommitHeightLocal = 0,
     removeCommitHeightRemote = 0, removeCommitHeightLocal = 0, pd_OnionBlob = [],
     pd_ShaOnionBlob = replicate 32 0, pd_FailReason = [], pd_FailCode = 0, ourPkScript = [],
     ourWitnessScript = [], theirPkScript = [], theirWitnessScript = [], EntryType = Add,
     isForwarded = False\<rparr>"

subsection \<open>Update logs\<close>

type_synonym log_elem = "nat \<times> PaymentDescriptor"

record updateLog =
  logIndex :: u64
  htlcCounter :: u64
  ul_List :: "log_elem list"
  ul_next :: nat
  updateIndex :: "u64 \<rightharpoonup> nat"
  htlcIndex :: "u64 \<rightharpoonup> nat"
  modifiedHtlcs :: "u64 set"

definition newUpdateLog :: "u64 \<Rightarrow> u64 \<Rightarrow> updateLog" where
  "newUpdateLog li hc = \<lparr>logIndex = li, htlcCounter = hc, ul_List = [], ul_next = 0,
     updateIndex = Map.empty, htlcIndex = Map.empty, modifiedHtlcs = {}\<rparr>"

definition pushBack :: "PaymentDescriptor \<Rightarrow> updateLog \<Rightarrow> updateLog" where
  "pushBack pd u = u\<lparr>ul_List := ul_List u @ [(ul_next u, pd)], ul_next := Suc (ul_next u)\<rparr>"

definition restoreHtlc :: "PaymentDescriptor \<Rightarrow> updateLog \<Rightarrow> updateLog" where
  "restoreHtlc pd u =
     (if htlcIndex u (pd_HtlcIndex pd) \<noteq> None then u
      else (pushBack pd u)\<lparr>htlcIndex := (htlcIndex u)(pd_HtlcIndex pd \<mapsto> ul_next u)\<rparr>)"

definition appendUpdate :: "PaymentDescriptor \<Rightarrow> updateLog \<Rightarrow> updateLog" where
  "appendUpdate pd u = (pushBack pd u)\<lparr>updateIndex := (updateIndex u)(logIndex u \<mapsto> ul_next u),
     logIndex := logIndex u + 1\<rparr>"

definition restoreUpdate :: "PaymentDescriptor \<Rightarrow> updateLog \<Rightarrow> updateLog" where
  "restoreUpdate pd u =
     (pushBack pd u)\<lparr>updateIndex := (updateIndex u)(pd_LogIndex pd \<mapsto> ul_next u)\<rparr>"

definition appendHtlc :: "PaymentDescriptor \<Rightarrow> updateLog \<Rightarrow> updateLog" where
  "appendHtlc pd u = (pushBack pd u)\<lparr>htlcIndex := (htlcIndex u)(htlcCounter u \<mapsto> ul_next u),
     htlcCounter := htlcCounter u + 1, logIndex := logIndex u + 1\<rparr>"

definition lookupHtlc :: "updateLog \<Rightarrow> u64 \<Rightarrow> PaymentDescriptor option" where
  "lookupHtlc u i = (case htlcIndex u i of
       None \<Rightarrow> None
     | Some k \<Rightarrow> map_of (ul_List u) k)"

definition removeElem :: "nat \<Rightarrow> updateLog \<Rightarrow> updateLog" where
  "removeElem k u = u\<lparr>ul_List := filter (\<lambda>e. fst e \<noteq> k) (ul_List u)\<rparr>"

definition removeUpdate :: "u64 \<Rightarrow> updateLog \<Rightarrow> updateLog option" where
  "removeUpdate i u = (case updateIndex u i of
       None \<Rightarrow> None
     | Some k \<Rightarrow> Some ((removeElem k u)\<lparr>updateIndex := (updateIndex u)(i := None)\<rparr>))"

definition removeHtlc :: "u64 \<Rightarrow> updateLog \<Rightarrow> updateLog option" where
  "removeHtlc i u = (case htlcIndex u i of
       None \<Rightarrow> None
     | Some k \<Rightarrow> Some ((removeElem k u)\<lparr>htlcIndex := (htlcIndex u)(i := None),
         modifiedHtlcs := modifiedHtlcs u - {i}\<rparr>))"

definition htlcHasModification :: "updateLog \<Rightarrow> u64 \<Rightarrow> bool" where
  "htlcHasModification u i \<longleftrightarrow> i \<in> modifiedHtlcs u"

definition markHtlcModified :: "u64 \<Rightarrow> updateLog \<Rightarrow> updateLog" where
  "markHtlcModified i u = u\<lparr>modifiedHtlcs := insert i (modifiedHtlcs u)\<rparr>"

text \<open>A write through the pointer to a descriptor in the log.\<close>

definition setElem :: "nat \<Rightarrow> PaymentDescriptor \<Rightarrow> updateLog \<Rightarrow> updateLog" where
  "setElem k pd u = u\<lparr>ul_List := map (\<lambda>e. if fst e = k then (k, pd) else e) (ul_List u)\<rparr>"

subsection \<open>Garbage collection\<close>

text \<open>
  One round of the loop of \<^verbatim>\<open>compactLog\<close>; \<open>None\<close> once a removal has failed.  The loop runs over
  the elements the log had at its start: a round removes from its own log only the element it
  looks at.
\<close>

definition compactStep ::
  "u64 \<Rightarrow> u64 \<Rightarrow> PaymentDescriptor \<Rightarrow> updateLog \<times> updateLog \<Rightarrow> (updateLog \<times> updateLog) option" where
  "compactStep localChainTail remoteChainTail htlc = (\<lambda>(logA, logB).
     if EntryType htlc = Add then Some (logA, logB)
     else if removeCommitHeightRemote htlc = 0 \<or> removeCommitHeightLocal htlc = 0
     then Some (logA, logB)
     else if remoteChainTail \<ge> removeCommitHeightRemote htlc \<and>
             localChainTail \<ge> removeCommitHeightLocal htlc
     then (case removeUpdate (pd_LogIndex htlc) logA of
             None \<Rightarrow> None
           | Some logA' \<Rightarrow>
               if EntryType htlc = FeeUpdate then Some (logA', logB)
               else (case removeHtlc (pd_ParentIndex htlc) logB of
                       None \<Rightarrow> None
                     | Some logB' \<Rightarrow> Some (logA', logB')))
     else Some (logA, logB))"

fun compactLoop ::
  "u64 \<Rightarrow> u64 \<Rightarrow> log_elem list \<Rightarrow> updateLog \<times> updateLog \<Rightarrow> (updateLog \<times> updateLog) option" where
  "compactLoop lt rt [] logs = Some logs"
| "compactLoop lt rt (e # es) logs = (case compactStep lt rt (snd e) logs of
       None \<Rightarrow> None
     | Some logs' \<Rightarrow> compactLoop lt rt es logs')"

definition compactLog ::
  "u64 \<Rightarrow> u64 \<Rightarrow> updateLog \<times> updateLog \<Rightarrow> (updateLog \<times> updateLog) option" where
  "compactLog lt rt logs = compactLoop lt rt (ul_List (fst logs)) logs"

definition compactLogs ::
  "updateLog \<Rightarrow> updateLog \<Rightarrow> u64 \<Rightarrow> u64 \<Rightarrow> (updateLog \<times> updateLog) option" where
  "compactLogs ourLog theirLog localChainTail remoteChainTail =
     (case compactLog localChainTail remoteChainTail (ourLog, theirLog) of
        None \<Rightarrow> None
      | Some (ourLog', theirLog') \<Rightarrow>
          map_option (\<lambda>(t, o'). (o', t))
            (compactLog localChainTail remoteChainTail (theirLog', ourLog')))"

subsection \<open>The invariant of a log\<close>

text \<open>
  The two indexes are exactly the functions from log indexes and HTLC indexes to the elements;
  all indexes in the log are below the counters.
\<close>

definition log_inv :: "updateLog \<Rightarrow> bool" where
  "log_inv u \<longleftrightarrow>
     distinct (map fst (ul_List u)) \<and>
     (\<forall>e \<in> set (ul_List u). fst e < ul_next u) \<and>
     (\<forall>i k. updateIndex u i = Some k \<longleftrightarrow>
        (\<exists>pd. (k, pd) \<in> set (ul_List u) \<and> EntryType pd \<noteq> Add \<and> pd_LogIndex pd = i)) \<and>
     (\<forall>i k. htlcIndex u i = Some k \<longleftrightarrow>
        (\<exists>pd. (k, pd) \<in> set (ul_List u) \<and> EntryType pd = Add \<and> pd_HtlcIndex pd = i)) \<and>
     (\<forall>e \<in> set (ul_List u). pd_LogIndex (snd e) < logIndex u \<and>
        (EntryType (snd e) = Add \<longrightarrow> pd_HtlcIndex (snd e) < htlcCounter u)) \<and>
     modifiedHtlcs u \<subseteq> dom (htlcIndex u)"

lemma log_invD:
  assumes "log_inv u"
  shows log_distinct: "distinct (map fst (ul_List u))"
    and log_fresh: "\<And>e. e \<in> set (ul_List u) \<Longrightarrow> fst e < ul_next u"
    and log_updateIndex: "\<And>i k. updateIndex u i = Some k \<longleftrightarrow>
        (\<exists>pd. (k, pd) \<in> set (ul_List u) \<and> EntryType pd \<noteq> Add \<and> pd_LogIndex pd = i)"
    and log_htlcIndex: "\<And>i k. htlcIndex u i = Some k \<longleftrightarrow>
        (\<exists>pd. (k, pd) \<in> set (ul_List u) \<and> EntryType pd = Add \<and> pd_HtlcIndex pd = i)"
    and log_bounds: "\<And>e. e \<in> set (ul_List u) \<Longrightarrow> pd_LogIndex (snd e) < logIndex u"
    and log_htlc_bounds: "\<And>e. e \<in> set (ul_List u) \<Longrightarrow> EntryType (snd e) = Add \<Longrightarrow>
        pd_HtlcIndex (snd e) < htlcCounter u"
    and log_modified: "modifiedHtlcs u \<subseteq> dom (htlcIndex u)"
  using assms unfolding log_inv_def by blast+

lemma log_inv_new [simp]: "log_inv (newUpdateLog li hc)"
  by (simp add: log_inv_def newUpdateLog_def)

lemma elem_unique:
  "log_inv u \<Longrightarrow> (k, p) \<in> set (ul_List u) \<Longrightarrow> (k, q) \<in> set (ul_List u) \<Longrightarrow> p = q"
  using log_distinct [of u] by (metis eq_key_imp_eq_value)

lemma map_of_elem: "log_inv u \<Longrightarrow> map_of (ul_List u) k = Some p \<longleftrightarrow> (k, p) \<in> set (ul_List u)"
  using log_distinct [of u] by simp

lemma lookupHtlc_iff:
  assumes "log_inv u"
  shows "lookupHtlc u i = Some pd \<longleftrightarrow>
    (\<exists>k. (k, pd) \<in> set (ul_List u) \<and> EntryType pd = Add \<and> pd_HtlcIndex pd = i)"
proof
  assume "lookupHtlc u i = Some pd"
  then obtain k where k: "htlcIndex u i = Some k" "(k, pd) \<in> set (ul_List u)"
    by (auto simp: lookupHtlc_def map_of_elem [OF assms] split: option.splits)
  from k(1) obtain pd' where "(k, pd') \<in> set (ul_List u)" "EntryType pd' = Add" "pd_HtlcIndex pd' = i"
    unfolding log_htlcIndex [OF assms] by blast
  with k(2) show "\<exists>k. (k, pd) \<in> set (ul_List u) \<and> EntryType pd = Add \<and> pd_HtlcIndex pd = i"
    using elem_unique [OF assms] by metis
next
  assume "\<exists>k. (k, pd) \<in> set (ul_List u) \<and> EntryType pd = Add \<and> pd_HtlcIndex pd = i"
  then obtain k where k: "(k, pd) \<in> set (ul_List u)" "EntryType pd = Add" "pd_HtlcIndex pd = i"
    by blast
  then have "htlcIndex u i = Some k" unfolding log_htlcIndex [OF assms] by blast
  then show "lookupHtlc u i = Some pd"
    using k(1) by (simp add: lookupHtlc_def map_of_elem [OF assms])
qed

text \<open>An element has one entry in one of the two indexes.\<close>

lemma updateIndex_inj:
  assumes "log_inv u" and "updateIndex u i = Some k" "updateIndex u j = Some k"
  shows "i = j"
  using assms(2,3) elem_unique [OF assms(1)] unfolding log_updateIndex [OF assms(1)] by metis

lemma htlcIndex_inj:
  assumes "log_inv u" and "htlcIndex u i = Some k" "htlcIndex u j = Some k"
  shows "i = j"
  using assms(2,3) elem_unique [OF assms(1)] unfolding log_htlcIndex [OF assms(1)] by metis

lemma index_disjoint:
  assumes "log_inv u" and "updateIndex u i = Some k" "htlcIndex u j = Some k"
  shows False
  using assms(2,3) elem_unique [OF assms(1)]
  unfolding log_updateIndex [OF assms(1)] log_htlcIndex [OF assms(1)] by metis

lemma lookupHtlc_dom: "log_inv u \<Longrightarrow> lookupHtlc u i \<noteq> None \<longleftrightarrow> i \<in> dom (htlcIndex u)"
  using lookupHtlc_iff [of u i] log_htlcIndex [of u i] by fastforce

subsection \<open>Preservation\<close>

lemma word_less_Suc:
  fixes a b :: u64
  assumes "b \<noteq> - 1" and "a < b \<or> a = b"
  shows "a < b + 1"
proof -
  have "unat (b + 1) = Suc (unat b)"
    using assms(1) by (metis add.inverse_inverse add_diff_cancel eq_neg_iff_add_eq_0 unatSuc add.commute)
  then show ?thesis using assms(2) by (auto simp: word_less_nat_alt)
qed

lemma log_inv_appendHtlc:
  assumes "log_inv u" and "EntryType pd = Add" "pd_LogIndex pd = logIndex u"
    "pd_HtlcIndex pd = htlcCounter u"
    and "logIndex u \<noteq> - 1" "htlcCounter u \<noteq> - 1"
  shows "log_inv (appendHtlc pd u)"
proof -
  note inv = log_invD [OF assms(1)]
  have fresh: "(ul_next u, q) \<notin> set (ul_List u)" for q
    using inv(2) by fastforce
  have nodup: "(k, q) \<in> set (ul_List u) \<Longrightarrow> EntryType q = Add \<Longrightarrow> pd_HtlcIndex q \<noteq> htlcCounter u" for k q
    using inv(6) [of "(k, q)"] by auto
  show ?thesis
    unfolding log_inv_def
  proof (intro conjI)
    show "distinct (map fst (ul_List (appendHtlc pd u)))"
      using inv(1) fresh by (auto simp: appendHtlc_def pushBack_def)
    show "\<forall>e\<in>set (ul_List (appendHtlc pd u)). fst e < ul_next (appendHtlc pd u)"
      using inv(2) by (auto simp: appendHtlc_def pushBack_def less_Suc_eq)
    show "\<forall>i k. updateIndex (appendHtlc pd u) i = Some k \<longleftrightarrow> (\<exists>q. (k, q) \<in>
        set (ul_List (appendHtlc pd u)) \<and> EntryType q \<noteq> Add \<and> pd_LogIndex q = i)"
      using inv(3) assms(2) by (auto simp: appendHtlc_def pushBack_def)
    show "\<forall>i k. htlcIndex (appendHtlc pd u) i = Some k \<longleftrightarrow> (\<exists>q. (k, q) \<in>
        set (ul_List (appendHtlc pd u)) \<and> EntryType q = Add \<and> pd_HtlcIndex q = i)"
      using inv(4) assms(2,4) nodup by (auto simp: appendHtlc_def pushBack_def)
    show "\<forall>e\<in>set (ul_List (appendHtlc pd u)). pd_LogIndex (snd e) < logIndex (appendHtlc pd u) \<and>
        (EntryType (snd e) = Add \<longrightarrow> pd_HtlcIndex (snd e) < htlcCounter (appendHtlc pd u))"
      using inv(5,6) assms(3,4) word_less_Suc [OF assms(5)] word_less_Suc [OF assms(6)]
      by (auto simp: appendHtlc_def pushBack_def)
    show "modifiedHtlcs (appendHtlc pd u) \<subseteq> dom (htlcIndex (appendHtlc pd u))"
      using inv(7) by (auto simp: appendHtlc_def pushBack_def)
  qed
qed

lemma log_inv_appendUpdate:
  assumes "log_inv u" and "EntryType pd \<noteq> Add" "pd_LogIndex pd = logIndex u"
    and "logIndex u \<noteq> - 1"
  shows "log_inv (appendUpdate pd u)"
proof -
  note inv = log_invD [OF assms(1)]
  have fresh: "(ul_next u, q) \<notin> set (ul_List u)" for q
    using inv(2) by fastforce
  have nodup: "(k, q) \<in> set (ul_List u) \<Longrightarrow> pd_LogIndex q \<noteq> logIndex u" for k q
    using inv(5) [of "(k, q)"] by auto
  show ?thesis
    unfolding log_inv_def
  proof (intro conjI)
    show "distinct (map fst (ul_List (appendUpdate pd u)))"
      using inv(1) fresh by (auto simp: appendUpdate_def pushBack_def)
    show "\<forall>e\<in>set (ul_List (appendUpdate pd u)). fst e < ul_next (appendUpdate pd u)"
      using inv(2) by (auto simp: appendUpdate_def pushBack_def less_Suc_eq)
    show "\<forall>i k. updateIndex (appendUpdate pd u) i = Some k \<longleftrightarrow> (\<exists>q. (k, q) \<in>
        set (ul_List (appendUpdate pd u)) \<and> EntryType q \<noteq> Add \<and> pd_LogIndex q = i)"
      using inv(3) assms(2,3) nodup by (auto simp: appendUpdate_def pushBack_def)
    show "\<forall>i k. htlcIndex (appendUpdate pd u) i = Some k \<longleftrightarrow> (\<exists>q. (k, q) \<in>
        set (ul_List (appendUpdate pd u)) \<and> EntryType q = Add \<and> pd_HtlcIndex q = i)"
      using inv(4) assms(2) by (auto simp: appendUpdate_def pushBack_def)
    show "\<forall>e\<in>set (ul_List (appendUpdate pd u)). pd_LogIndex (snd e) < logIndex (appendUpdate pd u) \<and>
        (EntryType (snd e) = Add \<longrightarrow> pd_HtlcIndex (snd e) < htlcCounter (appendUpdate pd u))"
      using inv(5,6) assms(2,3) word_less_Suc [OF assms(4)]
      by (auto simp: appendUpdate_def pushBack_def)
    show "modifiedHtlcs (appendUpdate pd u) \<subseteq> dom (htlcIndex (appendUpdate pd u))"
      using inv(7) by (auto simp: appendUpdate_def pushBack_def)
  qed
qed

lemma log_inv_removeUpdate:
  assumes "log_inv u" and "removeUpdate i u = Some u'"
  shows "log_inv u'"
proof -
  note inv = log_invD [OF assms(1)]
  obtain k where k: "updateIndex u i = Some k"
    and u': "u' = (removeElem k u)\<lparr>updateIndex := (updateIndex u)(i := None)\<rparr>"
    using assms(2) by (auto simp: removeUpdate_def split: option.splits)
  have ne: "updateIndex u j = Some k \<Longrightarrow> j = i" "htlcIndex u j \<noteq> Some k" for j
    using updateIndex_inj [OF assms(1) k] index_disjoint [OF assms(1) k] by auto
  have R: "(\<exists>q. (l, q) \<in> set (ul_List u') \<and> P q) \<longleftrightarrow>
      l \<noteq> k \<and> (\<exists>q. (l, q) \<in> set (ul_List u) \<and> P q)" for l P
    by (auto simp: u' removeElem_def)
  show ?thesis
    unfolding log_inv_def
  proof (intro conjI allI)
    show "distinct (map fst (ul_List u'))"
      using inv(1) by (simp add: u' removeElem_def distinct_map_filter)
    show "\<forall>e\<in>set (ul_List u'). fst e < ul_next u'"
      using inv(2) by (simp add: u' removeElem_def)
    show "updateIndex u' j = Some l \<longleftrightarrow>
        (\<exists>q. (l, q) \<in> set (ul_List u') \<and> EntryType q \<noteq> Add \<and> pd_LogIndex q = j)" for j l
      unfolding R inv(3) [symmetric] using ne [of j] k by (cases "j = i") (auto simp: u' removeElem_def)
    show "htlcIndex u' j = Some l \<longleftrightarrow>
        (\<exists>q. (l, q) \<in> set (ul_List u') \<and> EntryType q = Add \<and> pd_HtlcIndex q = j)" for j l
      unfolding R inv(4) [symmetric] using ne [of j] k by (cases "j = i") (auto simp: u' removeElem_def)
    show "\<forall>e\<in>set (ul_List u'). pd_LogIndex (snd e) < logIndex u' \<and>
        (EntryType (snd e) = Add \<longrightarrow> pd_HtlcIndex (snd e) < htlcCounter u')"
      using inv(5,6) by (simp add: u' removeElem_def)
    show "modifiedHtlcs u' \<subseteq> dom (htlcIndex u')"
      using inv(7) by (auto simp: u' removeElem_def)
  qed
qed

lemma log_inv_removeHtlc:
  assumes "log_inv u" and "removeHtlc i u = Some u'"
  shows "log_inv u'"
proof -
  note inv = log_invD [OF assms(1)]
  obtain k where k: "htlcIndex u i = Some k"
    and u': "u' = (removeElem k u)\<lparr>htlcIndex := (htlcIndex u)(i := None),
      modifiedHtlcs := modifiedHtlcs u - {i}\<rparr>"
    using assms(2) by (auto simp: removeHtlc_def split: option.splits)
  have ne: "htlcIndex u j = Some k \<Longrightarrow> j = i" "updateIndex u j \<noteq> Some k" for j
    using htlcIndex_inj [OF assms(1) k] index_disjoint [OF assms(1) _ k] by auto
  have R: "(\<exists>q. (l, q) \<in> set (ul_List u') \<and> P q) \<longleftrightarrow>
      l \<noteq> k \<and> (\<exists>q. (l, q) \<in> set (ul_List u) \<and> P q)" for l P
    by (auto simp: u' removeElem_def)
  show ?thesis
    unfolding log_inv_def
  proof (intro conjI allI)
    show "distinct (map fst (ul_List u'))"
      using inv(1) by (simp add: u' removeElem_def distinct_map_filter)
    show "\<forall>e\<in>set (ul_List u'). fst e < ul_next u'"
      using inv(2) by (simp add: u' removeElem_def)
    show "updateIndex u' j = Some l \<longleftrightarrow>
        (\<exists>q. (l, q) \<in> set (ul_List u') \<and> EntryType q \<noteq> Add \<and> pd_LogIndex q = j)" for j l
      unfolding R inv(3) [symmetric] using ne [of j] k by (cases "j = i") (auto simp: u' removeElem_def)
    show "htlcIndex u' j = Some l \<longleftrightarrow>
        (\<exists>q. (l, q) \<in> set (ul_List u') \<and> EntryType q = Add \<and> pd_HtlcIndex q = j)" for j l
      unfolding R inv(4) [symmetric] using ne [of j] k by (cases "j = i") (auto simp: u' removeElem_def)
    show "\<forall>e\<in>set (ul_List u'). pd_LogIndex (snd e) < logIndex u' \<and>
        (EntryType (snd e) = Add \<longrightarrow> pd_HtlcIndex (snd e) < htlcCounter u')"
      using inv(5,6) by (simp add: u' removeElem_def)
    show "modifiedHtlcs u' \<subseteq> dom (htlcIndex u')"
      using inv(7) by (auto simp: u' removeElem_def)
  qed
qed

lemma log_inv_mark:
  "log_inv u \<Longrightarrow> i \<in> dom (htlcIndex u) \<Longrightarrow> log_inv (markHtlcModified i u)"
  by (simp add: log_inv_def markHtlcModified_def)

text \<open>A write that keeps the type and the indexes of a descriptor.\<close>

definition same_key :: "PaymentDescriptor \<Rightarrow> PaymentDescriptor \<Rightarrow> bool" where
  "same_key p q \<longleftrightarrow> EntryType p = EntryType q \<and> pd_LogIndex p = pd_LogIndex q \<and>
     pd_HtlcIndex p = pd_HtlcIndex q \<and> pd_ParentIndex p = pd_ParentIndex q \<and>
     pd_AssetID p = pd_AssetID q \<and>
     pd_BtcAmount p = pd_BtcAmount q \<and> pd_AssetAmount p = pd_AssetAmount q"

lemma fst_setElem: "map fst (ul_List (setElem k p u)) = map fst (ul_List u)"
  by (auto simp: setElem_def comp_def)

lemma mem_setElem:
  "(j, q) \<in> set (ul_List (setElem k p u)) \<longleftrightarrow>
     (if j = k then q = p \<and> k \<in> fst ` set (ul_List u) else (j, q) \<in> set (ul_List u))"
  by (force simp: setElem_def)

lemma log_inv_setElem:
  assumes "log_inv u" and "\<And>q. (k, q) \<in> set (ul_List u) \<Longrightarrow> same_key p q"
  shows "log_inv (setElem k p u)"
proof -
  note inv = log_invD [OF assms(1)]
  have keys: "logIndex (setElem k p u) = logIndex u" "htlcCounter (setElem k p u) = htlcCounter u"
    "ul_next (setElem k p u) = ul_next u" "updateIndex (setElem k p u) = updateIndex u"
    "htlcIndex (setElem k p u) = htlcIndex u" "modifiedHtlcs (setElem k p u) = modifiedHtlcs u"
    by (simp_all add: setElem_def)
  have transfer: "(\<exists>q. (j, q) \<in> set (ul_List (setElem k p u)) \<and> P q) \<longleftrightarrow>
      (\<exists>q. (j, q) \<in> set (ul_List u) \<and> P q)" if "\<And>q. same_key p q \<Longrightarrow> P p \<longleftrightarrow> P q" for j P
  proof (cases "j = k")
    case True
    show ?thesis
    proof
      assume "\<exists>q. (j, q) \<in> set (ul_List (setElem k p u)) \<and> P q"
      then have "P p" and "k \<in> fst ` set (ul_List u)" using True by (auto simp: mem_setElem)
      then obtain q where "(k, q) \<in> set (ul_List u)" by force
      then show "\<exists>q. (j, q) \<in> set (ul_List u) \<and> P q"
        using True that assms(2) \<open>P p\<close> by blast
    next
      assume "\<exists>q. (j, q) \<in> set (ul_List u) \<and> P q"
      then obtain q where q: "(k, q) \<in> set (ul_List u)" "P q" using True by blast
      then have "P p" using that assms(2) by blast
      then show "\<exists>q. (j, q) \<in> set (ul_List (setElem k p u)) \<and> P q"
        using True q(1) by (force simp: mem_setElem)
    qed
  qed (simp add: mem_setElem)
  have elems: "\<exists>q. (fst e, q) \<in> set (ul_List u) \<and> same_key (snd e) q"
    if "e \<in> set (ul_List (setElem k p u))" for e
  proof -
    obtain j q where e: "e = (j, q)" by (cases e)
    then show ?thesis
      using that assms(2) by (force simp: mem_setElem same_key_def split: if_splits)
  qed
  show ?thesis
    unfolding log_inv_def keys
  proof (intro conjI)
    show "distinct (map fst (ul_List (setElem k p u)))"
      using inv(1) by (simp only: fst_setElem)
    show "\<forall>e\<in>set (ul_List (setElem k p u)). fst e < ul_next u"
      using elems inv(2) by fastforce
    show "\<forall>i j. updateIndex u i = Some j \<longleftrightarrow> (\<exists>q. (j, q) \<in> set (ul_List (setElem k p u)) \<and>
        EntryType q \<noteq> Add \<and> pd_LogIndex q = i)"
      by (subst transfer) (auto simp: same_key_def inv(3))
    show "\<forall>i j. htlcIndex u i = Some j \<longleftrightarrow> (\<exists>q. (j, q) \<in> set (ul_List (setElem k p u)) \<and>
        EntryType q = Add \<and> pd_HtlcIndex q = i)"
      by (subst transfer) (auto simp: same_key_def inv(4))
    show "\<forall>e\<in>set (ul_List (setElem k p u)). pd_LogIndex (snd e) < logIndex u \<and>
        (EntryType (snd e) = Add \<longrightarrow> pd_HtlcIndex (snd e) < htlcCounter u)"
      using elems inv(5,6) by (fastforce simp: same_key_def)
    show "modifiedHtlcs u \<subseteq> dom (htlcIndex u)" by (rule inv(7))
  qed
qed

end
