(* ===== verification/Lnwallet_View.thy ===== *)
theory Lnwallet_View
  imports Lnwallet_Fees Lnwallet_UpdateLog Omni_Opreturn
begin

text \<open>
  The channel state of \<^verbatim>\<open>lnwallet/channel.go\<close> and the evaluation of the two update logs into
  the balances and the active HTLCs of a commitment: \<^verbatim>\<open>fetchHTLCView\<close>, \<^verbatim>\<open>evaluateHTLCView\<close> with
  its helpers, and \<^verbatim>\<open>computeView\<close>.

  A view holds log elements, that is, pointers to descriptors: an entry is its number with the
  descriptor it points to.  With \<^verbatim>\<open>mutateState\<close> the evaluation writes commit heights through these
  pointers and adds to the channel's totals, also when it fails later on; so it returns the
  channel in every case.  A public key is its serialization.
\<close>

subsection \<open>Channel state\<close>

datatype chan_error =
    ErrNoWindow
  | ErrMaxHTLCNumber
  | ErrMaxPendingAmount
  | ErrBelowChanReserve
  | ErrBelowMinHTLC
  | ErrInvalidHTLCAmt
  | ErrUnknownHtlcIndex ShortChannelID u64
  | ErrHtlcIndexAlreadySettled u64
  | ErrHtlcIndexAlreadyFailed u64
  | ErrInvalidSettlePreimage bytes bytes
  | ErrNoParent u64
  | ErrZeroRemoteAddHeight u64 u64
  | ErrZeroLocalAddHeight u64 u64
  | ErrMissingAssetID
  | ErrFeeBelowFloor SatPerKWeight
  | ErrHtlcIDMismatch u64 u64
  | ErrFeeTooHigh SatPerKWeight
  | ErrLocalFeeUpdateNonInitiator
  | ErrRemoteFeeUpdateInitiator
  | NilPanic
  | ErrScript
  | ErrStateHint u64
  | ErrOmni op_error
  | ErrTxSanity
  | ErrOverCapacity Amount Amount
  | ErrDustAsset Amount Amount
  | ErrHtlcOutput bytes MilliSatoshi u32
  | ErrFeeRateFloor SatPerKWeight
  | ErrCoopFee
  | ErrSigner
  | ErrInvalidCommitSig u64
  | ErrInvalidHtlcSig u64
  | ErrRevocationStore
  | ErrRevocationMismatch
  | ErrDatabase
  | ErrRevocationProducer
  | ErrSigFormat
  | ErrHtlcSigCount
  | ErrSigHash

record ChannelConstraints =
  DustLimit :: Amount
  ChanReserve :: UnitPrec8
  MaxPendingAmount :: UnitPrec11
  MinHTLC :: UnitPrec11
  MaxAcceptedHtlcs :: u16
  CsvDelay :: u16

record ChannelConfig = ChannelConstraints +
  MultiSigKey :: bytes
  RevocationBasePoint :: bytes
  PaymentBasePoint :: bytes
  DelayBasePoint :: bytes
  HtlcBasePoint :: bytes

record OpenChannel =
  oc_FundingOutpoint :: OutPoint
  oc_BtcCapacity :: Amount
  oc_RemoteCurrentRevocation :: "bytes option"
  oc_RemoteNextRevocation :: "bytes option"
  oc_LocalShutdownScript :: bytes
  oc_RemoteShutdownScript :: bytes
  oc_ThawHeight :: u32
  oc_ShortChannelID :: ShortChannelID
  oc_AssetID :: u32
  oc_ChanType :: ChannelType
  oc_IsInitiator :: bool
  oc_LocalChanCfg :: ChannelConfig
  oc_RemoteChanCfg :: ChannelConfig
  oc_TotalMSatSent :: MilliSatoshi
  oc_TotalMSatReceived :: MilliSatoshi
  oc_TotalAssetSent :: Amount
  oc_TotalAssetReceived :: Amount
  oc_LocalFeePerKw :: Amount
  oc_RemoteFeePerKw :: Amount

record commitment =
  c_height :: u64
  c_ourMessageIndex :: u64
  c_theirMessageIndex :: u64
  c_ourHtlcIndex :: u64
  c_theirHtlcIndex :: u64
  c_ourBtcBalance :: MilliSatoshi
  c_theirBtcBalance :: MilliSatoshi
  c_ourAssetBalance :: Amount
  c_theirAssetBalance :: Amount
  c_fee :: Amount
  c_feePerKw :: SatPerKWeight
  c_dustLimit :: Amount
  c_isOurs :: bool
  c_txn :: MsgTx
  c_sig :: bytes
  c_outgoingHTLCs :: "PaymentDescriptor list"
  c_incomingHTLCs :: "PaymentDescriptor list"

type_synonym commitmentChain = "commitment list"

record LightningChannel =
  lc_BtcCapacity :: Amount
  currentHeight :: u64
  channelState :: OpenChannel
  localCommitChain :: commitmentChain
  remoteCommitChain :: commitmentChain
  localUpdateLog :: updateLog
  remoteUpdateLog :: updateLog

subsection \<open>Commitment chains\<close>

definition newCommitmentChain :: commitmentChain where
  "newCommitmentChain = []"

definition addCommitment :: "commitment \<Rightarrow> commitmentChain \<Rightarrow> commitmentChain" where
  "addCommitment c s = s @ [c]"

definition advanceTail :: "commitmentChain \<Rightarrow> commitmentChain option" where
  "advanceTail s = (case s of [] \<Rightarrow> None | c # cs \<Rightarrow> Some cs)"

definition chain_tip :: "commitmentChain \<Rightarrow> commitment option" where
  "chain_tip s = (if s = [] then None else Some (last s))"

definition chain_tail :: "commitmentChain \<Rightarrow> commitment option" where
  "chain_tail s = (case s of [] \<Rightarrow> None | c # cs \<Rightarrow> Some c)"

definition hasUnackedCommitment :: "commitmentChain \<Rightarrow> bool" where
  "hasUnackedCommitment s \<longleftrightarrow> length s > 1"

subsection \<open>Views\<close>

record htlcView =
  v_ourUpdates :: "log_elem list"
  v_theirUpdates :: "log_elem list"
  v_feePerKw :: SatPerKWeight

definition fetchHTLCView :: "LightningChannel \<Rightarrow> u64 \<Rightarrow> u64 \<Rightarrow> htlcView" where
  "fetchHTLCView lc theirLogIndex ourLogIndex =
     \<lparr>v_ourUpdates = filter (\<lambda>e. pd_LogIndex (snd e) < ourLogIndex) (ul_List (localUpdateLog lc)),
      v_theirUpdates = filter (\<lambda>e. pd_LogIndex (snd e) < theirLogIndex) (ul_List (remoteUpdateLog lc)),
      v_feePerKw = 0\<rparr>"

definition fetchParent :: "LightningChannel \<Rightarrow> PaymentDescriptor \<Rightarrow> bool \<Rightarrow> bool \<Rightarrow>
    chan_error + PaymentDescriptor" where
  "fetchParent lc entry remoteChain remoteLog =
     (case lookupHtlc (if remoteLog then remoteUpdateLog lc else localUpdateLog lc)
             (pd_ParentIndex entry) of
        None \<Rightarrow> Inl (ErrNoParent (pd_ParentIndex entry))
      | Some addEntry \<Rightarrow>
          if remoteChain \<and> addCommitHeightRemote addEntry = 0
          then Inl (ErrZeroRemoteAddHeight (pd_ParentIndex entry) (pd_LogIndex entry))
          else if \<not> remoteChain \<and> addCommitHeightLocal addEntry = 0
          then Inl (ErrZeroLocalAddHeight (pd_ParentIndex entry) (pd_LogIndex entry))
          else Inr addEntry)"

record balances =
  ourBtcBalance :: MilliSatoshi
  theirBtcBalance :: MilliSatoshi
  ourAssetBalance :: Amount
  theirAssetBalance :: Amount

text \<open>The heights \<^verbatim>\<open>*addHeight\<close> and \<^verbatim>\<open>*removeHeight\<close> point to, and the writes through them.\<close>

definition addHeight :: "bool \<Rightarrow> PaymentDescriptor \<Rightarrow> u64" where
  "addHeight remoteChain pd =
     (if remoteChain then addCommitHeightRemote pd else addCommitHeightLocal pd)"

definition removeHeight :: "bool \<Rightarrow> PaymentDescriptor \<Rightarrow> u64" where
  "removeHeight remoteChain pd =
     (if remoteChain then removeCommitHeightRemote pd else removeCommitHeightLocal pd)"

definition setAddHeight :: "bool \<Rightarrow> u64 \<Rightarrow> PaymentDescriptor \<Rightarrow> PaymentDescriptor" where
  "setAddHeight remoteChain h pd =
     (if remoteChain then pd\<lparr>addCommitHeightRemote := h\<rparr> else pd\<lparr>addCommitHeightLocal := h\<rparr>)"

definition setRemoveHeight :: "bool \<Rightarrow> u64 \<Rightarrow> PaymentDescriptor \<Rightarrow> PaymentDescriptor" where
  "setRemoveHeight remoteChain h pd =
     (if remoteChain then pd\<lparr>removeCommitHeightRemote := h\<rparr> else pd\<lparr>removeCommitHeightLocal := h\<rparr>)"

definition creditOurs :: "PaymentDescriptor \<Rightarrow> balances \<Rightarrow> balances" where
  "creditOurs htlc b = b\<lparr>ourBtcBalance := ourBtcBalance b + pd_BtcAmount htlc,
     ourAssetBalance := ourAssetBalance b + pd_AssetAmount htlc\<rparr>"

definition creditTheirs :: "PaymentDescriptor \<Rightarrow> balances \<Rightarrow> balances" where
  "creditTheirs htlc b = b\<lparr>theirBtcBalance := theirBtcBalance b + pd_BtcAmount htlc,
     theirAssetBalance := theirAssetBalance b + pd_AssetAmount htlc\<rparr>"

definition processAddEntry :: "PaymentDescriptor \<Rightarrow> balances \<Rightarrow> u64 \<Rightarrow> bool \<Rightarrow> bool \<Rightarrow> bool \<Rightarrow>
    PaymentDescriptor \<times> balances" where
  "processAddEntry htlc b nextHeight remoteChain isIncoming mutateState =
     (if addHeight remoteChain htlc \<noteq> 0 then (htlc, b)
      else
        (if mutateState then setAddHeight remoteChain nextHeight htlc else htlc,
         if isIncoming
         then b\<lparr>theirBtcBalance := theirBtcBalance b - pd_BtcAmount htlc,
                theirAssetBalance := theirAssetBalance b - pd_AssetAmount htlc\<rparr>
         else b\<lparr>ourBtcBalance := ourBtcBalance b - pd_BtcAmount htlc,
                ourAssetBalance := ourAssetBalance b - pd_AssetAmount htlc\<rparr>))"

definition processRemoveEntry :: "PaymentDescriptor \<Rightarrow> balances \<Rightarrow> u64 \<Rightarrow> bool \<Rightarrow> bool \<Rightarrow> bool \<Rightarrow>
    PaymentDescriptor \<times> balances" where
  "processRemoveEntry htlc b nextHeight remoteChain isIncoming mutateState =
     (if removeHeight remoteChain htlc \<noteq> 0 then (htlc, b)
      else
        (if mutateState then setRemoveHeight remoteChain nextHeight htlc else htlc,
         if isIncoming \<and> EntryType htlc = Settle then creditOurs htlc b
         else if isIncoming \<and> (EntryType htlc = Fail \<or> EntryType htlc = MalformedFail)
         then creditTheirs htlc b
         else if \<not> isIncoming \<and> EntryType htlc = Settle then creditTheirs htlc b
         else if \<not> isIncoming \<and> (EntryType htlc = Fail \<or> EntryType htlc = MalformedFail)
         then creditOurs htlc b
         else b))"

definition processFeeUpdate :: "PaymentDescriptor \<Rightarrow> u64 \<Rightarrow> bool \<Rightarrow> bool \<Rightarrow> SatPerKWeight \<Rightarrow>
    PaymentDescriptor \<times> SatPerKWeight" where
  "processFeeUpdate feeUpdate nextHeight remoteChain mutateState feePerKw =
     (if addHeight remoteChain feeUpdate \<noteq> 0 then (feeUpdate, feePerKw)
      else
        (if mutateState
         then setRemoveHeight remoteChain nextHeight (setAddHeight remoteChain nextHeight feeUpdate)
         else feeUpdate,
         MilliSatoshi_ToSatoshis (pd_BtcAmount feeUpdate)))"

subsection \<open>evaluateHTLCView\<close>

text \<open>The local variables of the function, with the channel its pointers lead into.\<close>

record evalState =
  es_lc :: LightningChannel
  es_bal :: balances
  es_feePerKw :: SatPerKWeight
  es_skipUs :: "u64 set"
  es_skipThem :: "u64 set"
  es_ourNew :: "log_elem list"
  es_theirNew :: "log_elem list"

text \<open>
  The writes through a pointer into our log (\<open>ours\<close>) or into theirs, which happen only with
  \<^verbatim>\<open>mutateState\<close>.
\<close>

definition logOf :: "bool \<Rightarrow> LightningChannel \<Rightarrow> updateLog" where
  "logOf ours lc = (if ours then localUpdateLog lc else remoteUpdateLog lc)"

definition writeEntry :: "bool \<Rightarrow> bool \<Rightarrow> nat \<Rightarrow> PaymentDescriptor \<Rightarrow> LightningChannel \<Rightarrow> LightningChannel" where
  "writeEntry mutateState ours k pd lc =
     (if \<not> mutateState then lc
      else if ours then lc\<lparr>localUpdateLog := setElem k pd (localUpdateLog lc)\<rparr>
      else lc\<lparr>remoteUpdateLog := setElem k pd (remoteUpdateLog lc)\<rparr>)"

text \<open>
  The totals the first loop (our updates) and the second (theirs) add a settle to.
\<close>

definition addTotals :: "bool \<Rightarrow> PaymentDescriptor \<Rightarrow> OpenChannel \<Rightarrow> OpenChannel" where
  "addTotals ours entry st =
     (if ours
      then st\<lparr>oc_TotalMSatReceived := oc_TotalMSatReceived st + pd_BtcAmount entry,
              oc_TotalAssetReceived := oc_TotalAssetReceived st + pd_AssetAmount entry\<rparr>
      else st\<lparr>oc_TotalMSatSent := oc_TotalMSatSent st + pd_BtcAmount entry,
              oc_TotalAssetReceived := oc_TotalAssetReceived st + pd_AssetAmount entry\<rparr>)"

text \<open>
  The bodies of the loops over the entries that are not adds, for our updates (\<open>ours\<close>: they
  remove incoming HTLCs, found in the remote log) and for theirs; \<open>Some\<close> error ends the loop.
\<close>

definition evalRemove :: "bool \<Rightarrow> u64 \<Rightarrow> bool \<Rightarrow> bool \<Rightarrow> log_elem \<Rightarrow> evalState \<Rightarrow>
    evalState \<times> chan_error option" where
  "evalRemove ours nextHeight remoteChain mutateState = (\<lambda>(k, entry) s.
     (case EntryType entry of
        Add \<Rightarrow> (s, None)
      | FeeUpdate \<Rightarrow>
          (let (entry', fee) = processFeeUpdate entry nextHeight remoteChain mutateState (es_feePerKw s)
           in (s\<lparr>es_lc := writeEntry mutateState ours k entry' (es_lc s), es_feePerKw := fee\<rparr>, None))
      | _ \<Rightarrow>
          (let lc = (if mutateState \<and> EntryType entry = Settle \<and> \<not> remoteChain \<and>
                        removeCommitHeightLocal entry = 0
                     then (es_lc s)\<lparr>channelState := addTotals ours entry (channelState (es_lc s))\<rparr>
                     else es_lc s)
           in case fetchParent lc entry remoteChain ours of
                Inl e \<Rightarrow> (s\<lparr>es_lc := lc\<rparr>, Some e)
              | Inr addEntry \<Rightarrow>
                  (let (entry', b) = processRemoveEntry entry (es_bal s) nextHeight remoteChain ours mutateState
                   in (s\<lparr>es_lc := writeEntry mutateState ours k entry' lc, es_bal := b,
                          es_skipUs := (if ours then es_skipUs s
                                        else insert (pd_HtlcIndex addEntry) (es_skipUs s)),
                          es_skipThem := (if ours then insert (pd_HtlcIndex addEntry) (es_skipThem s)
                                          else es_skipThem s)\<rparr>, None)))))"

fun evalRemoves :: "bool \<Rightarrow> u64 \<Rightarrow> bool \<Rightarrow> bool \<Rightarrow> log_elem list \<Rightarrow> evalState \<Rightarrow>
    evalState \<times> chan_error option" where
  "evalRemoves ours h rc mut [] s = (s, None)"
| "evalRemoves ours h rc mut (e # es) s =
     (case evalRemove ours h rc mut e s of
        (s', Some err) \<Rightarrow> (s', Some err)
      | (s', None) \<Rightarrow> evalRemoves ours h rc mut es s')"

text \<open>The bodies of the loops over the adds.\<close>

definition evalAdd :: "bool \<Rightarrow> u64 \<Rightarrow> bool \<Rightarrow> bool \<Rightarrow> log_elem \<Rightarrow> evalState \<Rightarrow> evalState" where
  "evalAdd ours nextHeight remoteChain mutateState = (\<lambda>(k, entry) s.
     (if EntryType entry \<noteq> Add \<or>
         pd_HtlcIndex entry \<in> (if ours then es_skipUs s else es_skipThem s)
      then s
      else let (entry', b) = processAddEntry entry (es_bal s) nextHeight remoteChain (\<not> ours) mutateState
           in s\<lparr>es_lc := writeEntry mutateState ours k entry' (es_lc s), es_bal := b,
                es_ourNew := (if ours then es_ourNew s @ [(k, entry')] else es_ourNew s),
                es_theirNew := (if ours then es_theirNew s else es_theirNew s @ [(k, entry')])\<rparr>))"

text \<open>
  The last step: in an asset channel both Bitcoin balances are set from the capacity.
\<close>

definition assetOverride :: "evalState \<Rightarrow> balances" where
  "assetOverride s =
     (if oc_AssetID (channelState (es_lc s)) > BtcAssetId
      then let cap = lc_BtcCapacity (es_lc s) -
                 of_nat (length (es_theirNew s) + length (es_theirNew s)) * (3 * OmniGas)
           in (es_bal s)\<lparr>ourBtcBalance := NewMSatFromSatoshis cap,
                         theirBtcBalance := NewMSatFromSatoshis cap\<rparr>
      else es_bal s)"

definition evaluateHTLCView :: "LightningChannel \<Rightarrow> htlcView \<Rightarrow> balances \<Rightarrow> u64 \<Rightarrow> bool \<Rightarrow> bool \<Rightarrow>
    LightningChannel \<times> (chan_error + htlcView \<times> balances)" where
  "evaluateHTLCView lc view b nextHeight remoteChain mutateState =
     (let s0 = \<lparr>es_lc = lc, es_bal = b, es_feePerKw = v_feePerKw view, es_skipUs = {},
                es_skipThem = {}, es_ourNew = [], es_theirNew = []\<rparr>
      in case evalRemoves True nextHeight remoteChain mutateState (v_ourUpdates view) s0 of
           (s1, Some e) \<Rightarrow> (es_lc s1, Inl e)
         | (s1, None) \<Rightarrow>
             (case evalRemoves False nextHeight remoteChain mutateState (v_theirUpdates view) s1 of
                (s2, Some e) \<Rightarrow> (es_lc s2, Inl e)
              | (s2, None) \<Rightarrow>
                  (let s3 = fold (evalAdd True nextHeight remoteChain mutateState) (v_ourUpdates view) s2;
                       s4 = fold (evalAdd False nextHeight remoteChain mutateState) (v_theirUpdates view) s3
                   in (es_lc s4,
                       Inr (\<lparr>v_ourUpdates = es_ourNew s4, v_theirUpdates = es_theirNew s4,
                             v_feePerKw = es_feePerKw s4\<rparr>, assetOverride s4)))))"

subsection \<open>computeView\<close>

definition nonDust :: "LightningChannel \<Rightarrow> bool \<Rightarrow> bool \<Rightarrow> SatPerKWeight \<Rightarrow> Amount \<Rightarrow> log_elem list \<Rightarrow>
    log_elem list" where
  "nonDust lc incoming remoteChain feePerKw dustLimit = filter (\<lambda>e.
     \<not> HtlcIsDust (oc_ChanType (channelState lc)) incoming (\<not> remoteChain) feePerKw
         (MilliSatoshi_ToSatoshis (pd_BtcAmount (snd e))) dustLimit (pd_AssetID (snd e)))"

definition totalCommitWeight :: "LightningChannel \<Rightarrow> bool \<Rightarrow> htlcView \<Rightarrow> int64" where
  "totalCommitWeight lc remoteChain fview =
     (let st = channelState lc;
          dustLimit = DustLimit (if remoteChain then oc_RemoteChanCfg st else oc_LocalChanCfg st);
          feePerKw = v_feePerKw fview;
          n = length (nonDust lc False remoteChain feePerKw dustLimit (v_ourUpdates fview)) +
              length (nonDust lc True remoteChain feePerKw dustLimit (v_theirUpdates fview));
          totalHtlcWeight = of_nat n * HTLCWeight
      in CommitWeight (oc_ChanType st) + totalHtlcWeight)"

text \<open>The balances of the chain's tip, with its fee given back to the initiator.\<close>

definition tipBalances :: "LightningChannel \<Rightarrow> commitment \<Rightarrow> balances" where
  "tipBalances lc tip =
     (let fee = NewMSatFromSatoshis (c_fee tip);
          init = oc_IsInitiator (channelState lc)
      in \<lparr>ourBtcBalance = c_ourBtcBalance tip + (if init then fee else 0),
          theirBtcBalance = c_theirBtcBalance tip + (if init then 0 else fee),
          ourAssetBalance = c_ourAssetBalance tip,
          theirAssetBalance = c_theirAssetBalance tip\<rparr>)"

definition computeView :: "LightningChannel \<Rightarrow> htlcView \<Rightarrow> bool \<Rightarrow> bool \<Rightarrow>
    LightningChannel \<times> (chan_error + balances \<times> int64 \<times> htlcView)" where
  "computeView lc view remoteChain updateState =
     (case chain_tip (if remoteChain then remoteCommitChain lc else localCommitChain lc) of
        None \<Rightarrow> (lc, Inl NilPanic)
      | Some tip \<Rightarrow>
          (case evaluateHTLCView lc (view\<lparr>v_feePerKw := c_feePerKw tip\<rparr>) (tipBalances lc tip)
                  (c_height tip + 1) remoteChain updateState of
             (lc', Inl e) \<Rightarrow> (lc', Inl e)
           | (lc', Inr (fview, b')) \<Rightarrow> (lc', Inr (b', totalCommitWeight lc' remoteChain fview, fview))))"

subsection \<open>What an evaluation does to the balances\<close>

definition isRemove :: "PaymentDescriptor \<Rightarrow> bool" where
  "isRemove pd \<longleftrightarrow> EntryType pd = Settle \<or> EntryType pd = Fail \<or> EntryType pd = MalformedFail"

text \<open>Entries whose effect is not yet part of the commitment chain.\<close>

definition freshRemove :: "bool \<Rightarrow> PaymentDescriptor \<Rightarrow> bool" where
  "freshRemove remoteChain pd \<longleftrightarrow> isRemove pd \<and> removeHeight remoteChain pd = 0"

definition freshAdd :: "bool \<Rightarrow> PaymentDescriptor \<Rightarrow> bool" where
  "freshAdd remoteChain pd \<longleftrightarrow> EntryType pd = Add \<and> addHeight remoteChain pd = 0"

definition sumOf :: "(PaymentDescriptor \<Rightarrow> u64) \<Rightarrow> (PaymentDescriptor \<Rightarrow> bool) \<Rightarrow> log_elem list \<Rightarrow> u64" where
  "sumOf f P es = (\<Sum>e\<leftarrow>es. if P (snd e) then f (snd e) else 0)"

lemma sumOf_simps [simp]:
  "sumOf f P [] = 0"
  "sumOf f P (e # es) = (if P (snd e) then f (snd e) else 0) + sumOf f P es"
  "sumOf f P (es @ es') = sumOf f P es + sumOf f P es'"
  by (simp_all add: sumOf_def)

text \<open>The two credits of a remove: a settle goes to the party that removes the HTLC.\<close>

lemma evalRemove_bal:
  assumes "evalRemove ours h rc mut e s = (s', None)"
  shows "ourAssetBalance (es_bal s') = ourAssetBalance (es_bal s) +
      (if freshRemove rc (snd e) \<and> (EntryType (snd e) = Settle \<longleftrightarrow> ours) then pd_AssetAmount (snd e) else 0)"
    and "theirAssetBalance (es_bal s') = theirAssetBalance (es_bal s) +
      (if freshRemove rc (snd e) \<and> (EntryType (snd e) = Settle \<longleftrightarrow> \<not> ours) then pd_AssetAmount (snd e) else 0)"
    and "ourBtcBalance (es_bal s') = ourBtcBalance (es_bal s) +
      (if freshRemove rc (snd e) \<and> (EntryType (snd e) = Settle \<longleftrightarrow> ours) then pd_BtcAmount (snd e) else 0)"
    and "theirBtcBalance (es_bal s') = theirBtcBalance (es_bal s) +
      (if freshRemove rc (snd e) \<and> (EntryType (snd e) = Settle \<longleftrightarrow> \<not> ours) then pd_BtcAmount (snd e) else 0)"
    and "es_ourNew s' = es_ourNew s" "es_theirNew s' = es_theirNew s"
    and "oc_AssetID (channelState (es_lc s')) = oc_AssetID (channelState (es_lc s))"
  using assms
  by (cases e; cases "EntryType (snd e)";
      auto simp: evalRemove_def freshRemove_def isRemove_def processRemoveEntry_def creditOurs_def
        creditTheirs_def writeEntry_def addTotals_def Let_def split: sum.splits prod.splits if_splits)+

lemma evalRemoves_ConsE:
  assumes "evalRemoves ours h rc mut (e # es) s = (s', None)"
  obtains s1 where "evalRemove ours h rc mut e s = (s1, None)"
    and "evalRemoves ours h rc mut es s1 = (s', None)"
  using assms by (auto split: prod.splits option.splits)

lemma evalRemoves_bal:
  assumes "evalRemoves ours h rc mut es s = (s', None)"
  shows "ourAssetBalance (es_bal s') = ourAssetBalance (es_bal s) +
      sumOf pd_AssetAmount (\<lambda>p. freshRemove rc p \<and> (EntryType p = Settle \<longleftrightarrow> ours)) es"
    and "theirAssetBalance (es_bal s') = theirAssetBalance (es_bal s) +
      sumOf pd_AssetAmount (\<lambda>p. freshRemove rc p \<and> (EntryType p = Settle \<longleftrightarrow> \<not> ours)) es"
    and "ourBtcBalance (es_bal s') = ourBtcBalance (es_bal s) +
      sumOf pd_BtcAmount (\<lambda>p. freshRemove rc p \<and> (EntryType p = Settle \<longleftrightarrow> ours)) es"
    and "theirBtcBalance (es_bal s') = theirBtcBalance (es_bal s) +
      sumOf pd_BtcAmount (\<lambda>p. freshRemove rc p \<and> (EntryType p = Settle \<longleftrightarrow> \<not> ours)) es"
    and "es_ourNew s' = es_ourNew s" "es_theirNew s' = es_theirNew s"
    and "oc_AssetID (channelState (es_lc s')) = oc_AssetID (channelState (es_lc s))"
  using assms
proof (induction es arbitrary: s)
  case (Cons e es)
  {
    case 1
    from 1 show ?case
      by (rule evalRemoves_ConsE) (simp only: Cons.IH(1) evalRemove_bal(1) sumOf_simps add.assoc)
  next
    case 2
    from 2 show ?case
      by (rule evalRemoves_ConsE) (simp only: Cons.IH(2) evalRemove_bal(2) sumOf_simps add.assoc)
  next
    case 3
    from 3 show ?case
      by (rule evalRemoves_ConsE) (simp only: Cons.IH(3) evalRemove_bal(3) sumOf_simps add.assoc)
  next
    case 4
    from 4 show ?case
      by (rule evalRemoves_ConsE) (simp only: Cons.IH(4) evalRemove_bal(4) sumOf_simps add.assoc)
  next
    case 5
    from 5 show ?case
      by (rule evalRemoves_ConsE) (simp only: Cons.IH(5) evalRemove_bal(5))
  next
    case 6
    from 6 show ?case
      by (rule evalRemoves_ConsE) (simp only: Cons.IH(6) evalRemove_bal(6))
  next
    case 7
    from 7 show ?case
      by (rule evalRemoves_ConsE) (simp only: Cons.IH(7) evalRemove_bal(7))
  }
qed simp_all

text \<open>The debits of the adds; the entries of the new view are the adds that are not skipped.\<close>

definition markAdded :: "bool \<Rightarrow> bool \<Rightarrow> u64 \<Rightarrow> PaymentDescriptor \<Rightarrow> PaymentDescriptor" where
  "markAdded mut rc h pd =
     (if mut \<and> addHeight rc pd = 0 then setAddHeight rc h pd else pd)"

definition active :: "u64 set \<Rightarrow> PaymentDescriptor \<Rightarrow> bool" where
  "active skip pd \<longleftrightarrow> EntryType pd = Add \<and> pd_HtlcIndex pd \<notin> skip"

lemma evalAdd_eq:
  "evalAdd ours h rc mut (k, p) s =
     (if active (if ours then es_skipUs s else es_skipThem s) p
      then s\<lparr>es_lc := writeEntry mut ours k (markAdded mut rc h p) (es_lc s),
             es_bal := snd (processAddEntry p (es_bal s) h rc (\<not> ours) mut),
             es_ourNew := (if ours then es_ourNew s @ [(k, markAdded mut rc h p)] else es_ourNew s),
             es_theirNew := (if ours then es_theirNew s else es_theirNew s @ [(k, markAdded mut rc h p)])\<rparr>
      else s)"
  by (auto simp: evalAdd_def active_def processAddEntry_def markAdded_def)

lemma fold_evalAdd:
  fixes s :: evalState
  defines "skip \<equiv> \<lambda>ours. (if ours then es_skipUs s else es_skipThem s)"
  shows "es_skipUs (fold (evalAdd ours h rc mut) es s) = es_skipUs s"
    and "es_skipThem (fold (evalAdd ours h rc mut) es s) = es_skipThem s"
    and "es_feePerKw (fold (evalAdd ours h rc mut) es s) = es_feePerKw s"
    and "es_ourNew (fold (evalAdd ours h rc mut) es s) = es_ourNew s @ (if ours
      then map (map_prod id (markAdded mut rc h)) (filter (active (skip ours) \<circ> snd) es) else [])"
    and "es_theirNew (fold (evalAdd ours h rc mut) es s) = es_theirNew s @ (if ours then []
      else map (map_prod id (markAdded mut rc h)) (filter (active (skip ours) \<circ> snd) es))"
    and "ourAssetBalance (es_bal (fold (evalAdd ours h rc mut) es s)) = ourAssetBalance (es_bal s) -
      (if ours then sumOf pd_AssetAmount (\<lambda>p. active (skip ours) p \<and> addHeight rc p = 0) es else 0)"
    and "theirAssetBalance (es_bal (fold (evalAdd ours h rc mut) es s)) = theirAssetBalance (es_bal s) -
      (if ours then 0 else sumOf pd_AssetAmount (\<lambda>p. active (skip ours) p \<and> addHeight rc p = 0) es)"
    and "ourBtcBalance (es_bal (fold (evalAdd ours h rc mut) es s)) = ourBtcBalance (es_bal s) -
      (if ours then sumOf pd_BtcAmount (\<lambda>p. active (skip ours) p \<and> addHeight rc p = 0) es else 0)"
    and "theirBtcBalance (es_bal (fold (evalAdd ours h rc mut) es s)) = theirBtcBalance (es_bal s) -
      (if ours then 0 else sumOf pd_BtcAmount (\<lambda>p. active (skip ours) p \<and> addHeight rc p = 0) es)"
    and "oc_AssetID (channelState (es_lc (fold (evalAdd ours h rc mut) es s))) =
      oc_AssetID (channelState (es_lc s))"
  unfolding skip_def
  by (induction es arbitrary: s; force simp: evalAdd_eq processAddEntry_def writeEntry_def
      split: prod.splits)+

end
