(* ===== verification/Lnwallet_Ledger.thy ===== *)
theory Lnwallet_Ledger
  imports Lnwallet_View
begin

text \<open>
  What an evaluation of the update logs does to the logs, and the ledger of a channel: the
  invariant that ties settles and fails to the HTLCs they remove, and the conservation of the
  balances together with the HTLCs in flight.
\<close>

subsection \<open>Writes to a group of log elements\<close>

definition logmap :: "(PaymentDescriptor \<Rightarrow> PaymentDescriptor) \<Rightarrow> nat set \<Rightarrow> updateLog \<Rightarrow> updateLog" where
  "logmap g K u = u\<lparr>ul_List := map (\<lambda>e. if fst e \<in> K then (fst e, g (snd e)) else e) (ul_List u)\<rparr>"

lemma logmap_simps [simp]:
  "logIndex (logmap g K u) = logIndex u" "htlcCounter (logmap g K u) = htlcCounter u"
  "ul_next (logmap g K u) = ul_next u" "updateIndex (logmap g K u) = updateIndex u"
  "htlcIndex (logmap g K u) = htlcIndex u" "modifiedHtlcs (logmap g K u) = modifiedHtlcs u"
  "logmap g {} u = u"
  by (simp_all add: logmap_def)

lemma fst_logmap [simp]: "map fst (ul_List (logmap g K u)) = map fst (ul_List u)"
  by (simp add: logmap_def comp_def if_distrib cong: if_cong)

lemma mem_logmap: "(k, q) \<in> set (ul_List (logmap g K u)) \<longleftrightarrow>
    (\<exists>p. (k, p) \<in> set (ul_List u) \<and> q = (if k \<in> K then g p else p))"
  by (force simp: logmap_def)

lemma setElem_logmap:
  assumes "distinct (map fst (ul_List u))" "(k, p) \<in> set (ul_List u)"
  shows "setElem k (g p) u = logmap g {k} u"
proof -
  have "snd e = p" if "e \<in> set (ul_List u)" "fst e = k" for e
    using that assms by (metis eq_key_imp_eq_value prod.collapse)
  then show ?thesis
    by (auto simp: setElem_def logmap_def intro!: updateLog.fold_congs)
qed

lemma logmap_id:
  assumes "\<And>k p. (k, p) \<in> set (ul_List u) \<Longrightarrow> k \<in> K \<Longrightarrow> g p = p"
  shows "logmap g K u = u"
proof -
  have "map (\<lambda>e. if fst e \<in> K then (fst e, g (snd e)) else e) (ul_List u) = ul_List u"
    using assms by (intro map_idI) auto
  then show ?thesis by (simp add: logmap_def)
qed

lemma logmap_logmap: "K \<inter> J = {} \<Longrightarrow> logmap g K (logmap g J u) = logmap g (J \<union> K) u"
  by (auto simp: logmap_def comp_def intro!: updateLog.fold_congs)

lemma log_inv_logmap:
  assumes "log_inv u" and "\<And>p. same_key (g p) p"
  shows "log_inv (logmap g K u)"
proof -
  note inv = log_invD [OF assms(1)]
  have g: "EntryType (g p) = EntryType p" "pd_LogIndex (g p) = pd_LogIndex p"
    "pd_HtlcIndex (g p) = pd_HtlcIndex p" for p
    using assms(2) [of p] by (simp_all add: same_key_def)
  have transfer: "(\<exists>q. (k, q) \<in> set (ul_List (logmap g K u)) \<and> P q) \<longleftrightarrow>
      (\<exists>q. (k, q) \<in> set (ul_List u) \<and> P q)" if "\<And>p. P (g p) \<longleftrightarrow> P p" for k P
    by (cases "k \<in> K") (use that in \<open>auto simp: mem_logmap\<close>)
  have elems: "\<exists>p. (fst e, p) \<in> set (ul_List u) \<and> EntryType (snd e) = EntryType p \<and>
      pd_LogIndex (snd e) = pd_LogIndex p \<and> pd_HtlcIndex (snd e) = pd_HtlcIndex p"
    if "e \<in> set (ul_List (logmap g K u))" for e
  proof -
    obtain k q where "e = (k, q)" by (cases e)
    then show ?thesis using that g by (auto simp: mem_logmap)
  qed
  show ?thesis
    unfolding log_inv_def logmap_simps
  proof (intro conjI)
    show "distinct (map fst (ul_List (logmap g K u)))" using inv(1) by simp
    show "\<forall>e\<in>set (ul_List (logmap g K u)). fst e < ul_next u" using elems inv(2) by fastforce
    show "\<forall>i k. updateIndex u i = Some k \<longleftrightarrow> (\<exists>q. (k, q) \<in> set (ul_List (logmap g K u)) \<and>
        EntryType q \<noteq> Add \<and> pd_LogIndex q = i)"
      by (subst transfer) (simp_all add: g inv(3))
    show "\<forall>i k. htlcIndex u i = Some k \<longleftrightarrow> (\<exists>q. (k, q) \<in> set (ul_List (logmap g K u)) \<and>
        EntryType q = Add \<and> pd_HtlcIndex q = i)"
      by (subst transfer) (simp_all add: g inv(4))
    show "\<forall>e\<in>set (ul_List (logmap g K u)). pd_LogIndex (snd e) < logIndex u \<and>
        (EntryType (snd e) = Add \<longrightarrow> pd_HtlcIndex (snd e) < htlcCounter u)"
      using elems inv(5,6) by fastforce
    show "modifiedHtlcs u \<subseteq> dom (htlcIndex u)" by (rule inv(7))
  qed
qed

lemma lookupHtlc_logmap:
  assumes "log_inv u"
  shows "lookupHtlc (logmap g K u) i = (case htlcIndex u i of None \<Rightarrow> None
     | Some k \<Rightarrow> map_option (if k \<in> K then g else id) (lookupHtlc u i))"
proof -
  have "map_of (map (\<lambda>e. if fst e \<in> K then (fst e, g (snd e)) else e) xs) k =
      map_option (if k \<in> K then g else id) (map_of xs k)" for xs k
    by (induction xs) auto
  then show ?thesis
    by (simp add: lookupHtlc_def logmap_def split: option.splits)
qed

subsection \<open>The first two loops on the logs\<close>

definition markRemoved :: "bool \<Rightarrow> u64 \<Rightarrow> PaymentDescriptor \<Rightarrow> PaymentDescriptor" where
  "markRemoved rc h p =
     (if EntryType p = FeeUpdate \<and> addHeight rc p = 0 then setRemoveHeight rc h (setAddHeight rc h p)
      else if freshRemove rc p then setRemoveHeight rc h p else p)"

lemma evalRemove_logs:
  assumes "evalRemove ours h rc True (k, p) s = (s', None)"
    and "distinct (map fst (ul_List (logOf ours (es_lc s))))"
    and "(k, p) \<in> set (ul_List (logOf ours (es_lc s)))"
  shows "logOf ours (es_lc s') = logmap (markRemoved rc h) {k} (logOf ours (es_lc s))"
    and "logOf (\<not> ours) (es_lc s') = logOf (\<not> ours) (es_lc s)"
proof -
  note w = setElem_logmap [OF assms(2,3)]
  have id: "markRemoved rc h p = p \<Longrightarrow> logmap (markRemoved rc h) {k} (logOf ours (es_lc s)) = logOf ours (es_lc s)"
    using eq_key_imp_eq_value [OF assms(2,3)] by (intro logmap_id) auto
  show "logOf ours (es_lc s') = logmap (markRemoved rc h) {k} (logOf ours (es_lc s))"
    using assms(1) id w [of "markRemoved rc h"]
    by (cases "EntryType p")
      (auto simp: evalRemove_def Let_def logOf_def writeEntry_def markRemoved_def freshRemove_def
        isRemove_def processRemoveEntry_def processFeeUpdate_def split: sum.splits prod.splits if_splits)
  show "logOf (\<not> ours) (es_lc s') = logOf (\<not> ours) (es_lc s)"
    using assms(1)
    by (cases "EntryType p")
      (auto simp: evalRemove_def Let_def logOf_def writeEntry_def split: sum.splits prod.splits if_splits)
qed

lemma evalRemoves_logs:
  assumes "evalRemoves ours h rc True es s = (s', None)"
    and "distinct (map fst (ul_List (logOf ours (es_lc s))))"
    and "set es \<subseteq> set (ul_List (logOf ours (es_lc s)))" and "distinct (map fst es)"
  shows "logOf ours (es_lc s') = logmap (markRemoved rc h) (fst ` set es) (logOf ours (es_lc s)) \<and>
    logOf (\<not> ours) (es_lc s') = logOf (\<not> ours) (es_lc s)"
  using assms
proof (induction es arbitrary: s)
  case (Cons e es)
  obtain k p where e: "e = (k, p)" by (cases e)
  from Cons.prems(1) obtain s1 where step: "evalRemove ours h rc True (k, p) s = (s1, None)"
    and rest: "evalRemoves ours h rc True es s1 = (s', None)"
    unfolding e by (rule evalRemoves_ConsE)
  have kp: "(k, p) \<in> set (ul_List (logOf ours (es_lc s)))" using Cons.prems(3) e by simp
  note logs = evalRemove_logs [OF step Cons.prems(2) kp]
  have notin: "k \<notin> fst ` set es" using Cons.prems(4) e by auto
  have "set es \<subseteq> set (ul_List (logOf ours (es_lc s1)))"
  proof
    fix x assume x: "x \<in> set es"
    obtain j q where jq: "x = (j, q)" by (cases x)
    then have "j \<noteq> k" using x notin by force
    then show "x \<in> set (ul_List (logOf ours (es_lc s1)))"
      using x Cons.prems(3) by (auto simp: logs jq mem_logmap)
  qed
  then have "logOf ours (es_lc s') = logmap (markRemoved rc h) (fst ` set es) (logOf ours (es_lc s1)) \<and>
      logOf (\<not> ours) (es_lc s') = logOf (\<not> ours) (es_lc s1)"
    using Cons.prems(2,4) by (intro Cons.IH [OF rest]) (simp_all add: logs)
  then show ?case using notin by (simp add: logs logmap_logmap e)
qed simp

text \<open>
  The loops succeed exactly when every removed HTLC is in the other log and is part of the
  commitment chain; the skip sets then hold the indexes of the removed HTLCs.
\<close>

definition parentCommitted :: "bool \<Rightarrow> updateLog \<Rightarrow> PaymentDescriptor \<Rightarrow> bool" where
  "parentCommitted rc B p \<longleftrightarrow>
     (\<exists>q. lookupHtlc B (pd_ParentIndex p) = Some q \<and> addHeight rc q \<noteq> 0)"

definition parentsOf :: "log_elem list \<Rightarrow> u64 set" where
  "parentsOf es = pd_ParentIndex ` {p \<in> snd ` set es. isRemove p}"

lemma parentsOf_simps [simp]:
  "parentsOf [] = {}"
  "parentsOf (e # es) = (if isRemove (snd e) then insert (pd_ParentIndex (snd e)) (parentsOf es)
     else parentsOf es)"
  by (auto simp: parentsOf_def)

lemma fetchParent_Inr_iff:
  "fetchParent lc p rc ours = Inr q \<longleftrightarrow>
     lookupHtlc (logOf (\<not> ours) lc) (pd_ParentIndex p) = Some q \<and> addHeight rc q \<noteq> 0"
  by (auto simp: fetchParent_def logOf_def addHeight_def split: option.splits if_splits)

lemma fetchParent_Inl:
  "(\<exists>e. fetchParent lc p rc ours = Inl e) \<longleftrightarrow> \<not> parentCommitted rc (logOf (\<not> ours) lc) p"
  using fetchParent_Inr_iff [of lc p rc ours]
  by (cases "fetchParent lc p rc ours") (auto simp: parentCommitted_def)

lemma logOf_channelState [simp]: "logOf ours (lc\<lparr>channelState := st\<rparr>) = logOf ours lc"
  by (simp add: logOf_def)

lemma fetchParent_channelState [simp]:
  "fetchParent (lc\<lparr>channelState := st\<rparr>) p rc ours = fetchParent lc p rc ours"
  by (simp add: fetchParent_def)

lemma logOf_writeEntry [simp]:
  "logOf (\<not> ours) (writeEntry mut ours k p lc) = logOf (\<not> ours) lc"
  "logOf True (writeEntry mut False k p lc) = logOf True lc"
  "logOf False (writeEntry mut True k p lc) = logOf False lc"
  by (simp_all add: logOf_def writeEntry_def)

lemma evalRemove_skip:
  assumes "log_inv (logOf (\<not> ours) (es_lc s))"
  shows "snd (evalRemove ours h rc mut e s) = None \<longleftrightarrow>
      (isRemove (snd e) \<longrightarrow> parentCommitted rc (logOf (\<not> ours) (es_lc s)) (snd e))"
    and "evalRemove ours h rc mut e s = (s', None) \<Longrightarrow>
      es_skipUs s' = es_skipUs s \<union> (if ours then {} else parentsOf [e]) \<and>
      es_skipThem s' = es_skipThem s \<union> (if ours then parentsOf [e] else {}) \<and>
      logOf (\<not> ours) (es_lc s') = logOf (\<not> ours) (es_lc s)"
proof -
  obtain k p where e: "e = (k, p)" by (cases e)
  have idx: "fetchParent (es_lc s) p rc ours = Inr q \<Longrightarrow> pd_HtlcIndex q = pd_ParentIndex p" for q
    using lookupHtlc_iff [OF assms] by (auto simp: fetchParent_Inr_iff)
  show "snd (evalRemove ours h rc mut e s) = None \<longleftrightarrow>
      (isRemove (snd e) \<longrightarrow> parentCommitted rc (logOf (\<not> ours) (es_lc s)) (snd e))"
    unfolding e snd_conv isRemove_def
    using fetchParent_Inl [of "es_lc s" p rc ours]
    by (cases "EntryType p")
      (auto simp: evalRemove_def Let_def split: sum.splits prod.splits)
  show "es_skipUs s' = es_skipUs s \<union> (if ours then {} else parentsOf [e]) \<and>
      es_skipThem s' = es_skipThem s \<union> (if ours then parentsOf [e] else {}) \<and>
      logOf (\<not> ours) (es_lc s') = logOf (\<not> ours) (es_lc s)"
    if "evalRemove ours h rc mut e s = (s', None)"
    using that idx unfolding e
    by (cases "EntryType p")
      (auto simp: evalRemove_def isRemove_def Let_def split: sum.splits prod.splits if_splits)
qed

lemma evalRemoves_skip:
  assumes "log_inv (logOf (\<not> ours) (es_lc s))"
  shows "snd (evalRemoves ours h rc mut es s) = None \<longleftrightarrow>
      (\<forall>p \<in> snd ` set es. isRemove p \<longrightarrow> parentCommitted rc (logOf (\<not> ours) (es_lc s)) p)"
    and "evalRemoves ours h rc mut es s = (s', None) \<Longrightarrow>
      es_skipUs s' = es_skipUs s \<union> (if ours then {} else parentsOf es) \<and>
      es_skipThem s' = es_skipThem s \<union> (if ours then parentsOf es else {})"
  using assms
proof (induction es arbitrary: s)
  case (Cons e es)
  {
    case 1
    show ?case
    proof (cases "evalRemove ours h rc mut e s")
      case (Pair s1 r)
      show ?thesis
      proof (cases r)
        case None
        have "logOf (\<not> ours) (es_lc s1) = logOf (\<not> ours) (es_lc s)"
          using evalRemove_skip(2) [OF 1] Pair None by blast
        then show ?thesis
          using Cons.IH(1) [of s1] evalRemove_skip(1) [OF 1, of h rc mut e] 1 Pair None by simp
      next
        case (Some err)
        then show ?thesis
          using evalRemove_skip(1) [OF 1, of h rc mut e] Pair by auto
      qed
    qed
  next
    case 2
    from 2(1) obtain s1 where step: "evalRemove ours h rc mut e s = (s1, None)"
      and rest: "evalRemoves ours h rc mut es s1 = (s', None)"
      by (rule evalRemoves_ConsE)
    note one = evalRemove_skip(2) [OF 2(2) step]
    have "log_inv (logOf (\<not> ours) (es_lc s1))" using one 2(2) by simp
    from Cons.IH(2) [OF rest this] one show ?case by auto
  }
qed simp_all

subsection \<open>The loops over the adds on the logs\<close>

definition adds :: "log_elem list \<Rightarrow> log_elem list" where
  "adds es = filter (\<lambda>e. EntryType (snd e) = Add) es"

definition markActive :: "u64 set \<Rightarrow> bool \<Rightarrow> u64 \<Rightarrow> PaymentDescriptor \<Rightarrow> PaymentDescriptor" where
  "markActive skip rc h p = (if active skip p then markAdded True rc h p else p)"

lemma evalAdd_logs:
  fixes s :: evalState
  defines "skip \<equiv> \<lambda>ours. (if ours then es_skipUs s else es_skipThem s)"
  assumes "distinct (map fst (ul_List (logOf ours (es_lc s))))"
    and "(k, p) \<in> set (ul_List (logOf ours (es_lc s)))"
  shows "logOf ours (es_lc (evalAdd ours h rc True (k, p) s)) =
      logmap (markActive (skip ours) rc h) {k} (logOf ours (es_lc s))"
proof -
  have id: "\<not> active (skip ours) p \<Longrightarrow>
      logmap (markActive (skip ours) rc h) {k} (logOf ours (es_lc s)) = logOf ours (es_lc s)"
    using eq_key_imp_eq_value [OF assms(2,3)] by (intro logmap_id) (auto simp: markActive_def)
  show ?thesis
    using id setElem_logmap [OF assms(2,3), of "markActive (skip ours) rc h"]
    by (auto simp: evalAdd_eq logOf_def writeEntry_def markActive_def skip_def)
qed

lemma evalAdd_not_Add: "EntryType (snd e) \<noteq> Add \<Longrightarrow> evalAdd ours h rc mut e s = s"
  by (cases e) (simp add: evalAdd_eq active_def)

lemma fold_evalAdd_logs:
  fixes s :: evalState
  defines "skip \<equiv> \<lambda>ours. (if ours then es_skipUs s else es_skipThem s)"
  assumes "distinct (map fst (ul_List (logOf ours (es_lc s))))"
    and "set (adds es) \<subseteq> set (ul_List (logOf ours (es_lc s)))" and "distinct (map fst es)"
  shows "logOf ours (es_lc (fold (evalAdd ours h rc True) es s)) =
      logmap (markActive (skip ours) rc h) (fst ` set (adds es)) (logOf ours (es_lc s)) \<and>
    logOf (\<not> ours) (es_lc (fold (evalAdd ours h rc True) es s)) = logOf (\<not> ours) (es_lc s)"
  using assms(2-4) unfolding skip_def
proof (induction es arbitrary: s)
  case (Cons e es)
  obtain k p where e: "e = (k, p)" by (cases e)
  show ?case
  proof (cases "EntryType p = Add")
    case False
    then show ?thesis using Cons by (simp add: e evalAdd_not_Add adds_def)
  next
    case True
    have kp: "(k, p) \<in> set (ul_List (logOf ours (es_lc s)))"
      using Cons.prems(2) True by (simp add: e adds_def)
    define s1 where "s1 = evalAdd ours h rc True (k, p) s"
    note logs = evalAdd_logs [OF Cons.prems(1) kp, of h rc, folded s1_def]
    have other: "logOf (\<not> ours) (es_lc s1) = logOf (\<not> ours) (es_lc s)"
      and skips: "es_skipUs s1 = es_skipUs s" "es_skipThem s1 = es_skipThem s"
      by (simp_all add: s1_def evalAdd_eq)
    have notin: "k \<notin> fst ` set (adds es)" using Cons.prems(3) by (auto simp: e adds_def)
    have "set (adds es) \<subseteq> set (ul_List (logOf ours (es_lc s1)))"
    proof
      fix x assume x: "x \<in> set (adds es)"
      obtain j q where jq: "x = (j, q)" by (cases x)
      then have "j \<noteq> k" using x notin by force
      then show "x \<in> set (ul_List (logOf ours (es_lc s1)))"
        using x Cons.prems(2) by (auto simp: logs jq mem_logmap e adds_def)
    qed
    from Cons.IH [OF _ this] Cons.prems(1,3) notin other skips show ?thesis
      by (simp add: logs e True adds_def logmap_logmap flip: s1_def)
  qed
qed (simp add: adds_def)

subsection \<open>The logs after an evaluation\<close>

text \<open>Every entry of the view gets the height of the new commitment, once.\<close>

definition markCommitted :: "bool \<Rightarrow> u64 \<Rightarrow> PaymentDescriptor \<Rightarrow> PaymentDescriptor" where
  "markCommitted rc h p = (if EntryType p = Add then markAdded True rc h p else markRemoved rc h p)"

lemma same_key_mark: "same_key (markCommitted rc h p) p"
  by (auto simp: markCommitted_def markAdded_def markRemoved_def same_key_def setAddHeight_def
      setRemoveHeight_def)

text \<open>
  Both passes together, for one log: an HTLC that is skipped has its height already.
\<close>

lemma logmap_passes:
  assumes "log_inv u" and sub: "set es \<subseteq> set (ul_List u)"
    and skipped: "\<And>k p. (k, p) \<in> set (ul_List u) \<Longrightarrow> EntryType p = Add \<Longrightarrow>
      pd_HtlcIndex p \<in> skip \<Longrightarrow> addHeight rc p \<noteq> 0"
  shows "logmap (markActive skip rc h) (fst ` set (adds es)) (logmap (markRemoved rc h) (fst ` set es) u) =
    logmap (markCommitted rc h) (fst ` set es) u"
proof -
  have isadd: "fst e \<in> fst ` set (adds es) \<longleftrightarrow> fst e \<in> fst ` set es \<and> EntryType (snd e) = Add"
    if e: "e \<in> set (ul_List u)" for e
  proof -
    have "x = e" if "x \<in> set es" "fst x = fst e" for x
      using that e sub elem_unique [OF assms(1), of "fst e" "snd x" "snd e"]
      by (metis prod.collapse subsetD)
    then show ?thesis by (force simp: adds_def)
  qed
  have entry: "EntryType p = Add \<Longrightarrow> markRemoved rc h p = p" for p
    by (simp add: markRemoved_def freshRemove_def isRemove_def)
  have act: "markActive skip rc h (snd e) = markAdded True rc h (snd e)"
    if "e \<in> set (ul_List u)" "EntryType (snd e) = Add" for e
    using skipped [of "fst e" "snd e"] that by (auto simp: markActive_def active_def markAdded_def)
  show ?thesis
    using isadd entry act
    by (auto simp: logmap_def markCommitted_def intro!: updateLog.fold_congs)
qed

lemma lookupHtlc_markRemoved:
  assumes "log_inv u"
  shows "lookupHtlc (logmap (markRemoved rc h) K u) i = lookupHtlc u i"
proof (cases "lookupHtlc u i")
  case None
  then show ?thesis by (simp add: lookupHtlc_logmap [OF assms] split: option.splits)
next
  case (Some q)
  then have "EntryType q = Add" using lookupHtlc_iff [OF assms] by blast
  then have "markRemoved rc h q = q" by (simp add: markRemoved_def freshRemove_def isRemove_def)
  moreover obtain k where "htlcIndex u i = Some k"
    using Some by (auto simp: lookupHtlc_def split: option.splits)
  ultimately show ?thesis
    using Some by (simp add: lookupHtlc_logmap [OF assms])
qed

lemma same_key_markRemoved: "same_key (markRemoved rc h p) p"
  by (auto simp: markRemoved_def same_key_def setAddHeight_def setRemoveHeight_def)

definition evalInit :: "LightningChannel \<Rightarrow> htlcView \<Rightarrow> balances \<Rightarrow> evalState" where
  "evalInit lc view b = \<lparr>es_lc = lc, es_bal = b, es_feePerKw = v_feePerKw view, es_skipUs = {},
     es_skipThem = {}, es_ourNew = [], es_theirNew = []\<rparr>"

lemma evaluate_InrE:
  assumes "evaluateHTLCView lc view b h rc mut = (lc', Inr (v', b'))"
  obtains s1 s2 s4 where "evalRemoves True h rc mut (v_ourUpdates view) (evalInit lc view b) = (s1, None)"
    and "evalRemoves False h rc mut (v_theirUpdates view) s1 = (s2, None)"
    and "s4 = fold (evalAdd False h rc mut) (v_theirUpdates view)
           (fold (evalAdd True h rc mut) (v_ourUpdates view) s2)"
    and "lc' = es_lc s4" "b' = assetOverride s4"
    and "v' = \<lparr>v_ourUpdates = es_ourNew s4, v_theirUpdates = es_theirNew s4, v_feePerKw = es_feePerKw s4\<rparr>"
  using assms unfolding evaluateHTLCView_def Let_def evalInit_def
  by (auto split: prod.splits option.splits)

text \<open>Without \<^verbatim>\<open>mutateState\<close> an evaluation changes nothing.\<close>

lemma evalRemoves_pure: "es_lc (fst (evalRemoves ours h rc False es s)) = es_lc s"
proof (induction es arbitrary: s)
  case (Cons e es)
  have one: "es_lc (fst (evalRemove ours h rc False e s)) = es_lc s" for s
    by (cases e; cases "EntryType (snd e)")
      (auto simp: evalRemove_def writeEntry_def Let_def split: sum.splits prod.splits)
  show ?case
    using Cons.IH one [of s] by (auto split: prod.splits option.splits)
qed simp

lemma fold_evalAdd_pure: "es_lc (fold (evalAdd ours h rc False) es s) = es_lc s"
proof (induction es arbitrary: s)
  case (Cons e es)
  have "es_lc (evalAdd ours h rc False e s) = es_lc s"
    by (cases e) (simp add: evalAdd_eq writeEntry_def)
  then show ?case using Cons by simp
qed simp

lemma evaluate_pure: "fst (evaluateHTLCView lc view b h rc False) = lc"
  unfolding evaluateHTLCView_def Let_def
  using evalRemoves_pure [of True h rc "v_ourUpdates view" "evalInit lc view b"]
    evalRemoves_pure [of False h rc "v_theirUpdates view"]
  by (auto simp: evalInit_def fold_evalAdd_pure split: prod.splits option.splits)
    (metis fst_conv)+

lemma computeView_pure: "fst (computeView lc view rc False) = lc"
  unfolding computeView_def Let_def
  using evaluate_pure by (auto split: option.splits prod.splits sum.splits) (metis fst_conv)+

text \<open>Views whose entries are elements of the logs, as those of \<^verbatim>\<open>fetchHTLCView\<close>.\<close>

definition view_of :: "LightningChannel \<Rightarrow> htlcView \<Rightarrow> bool" where
  "view_of lc view \<longleftrightarrow>
     set (v_ourUpdates view) \<subseteq> set (ul_List (localUpdateLog lc)) \<and> distinct (map fst (v_ourUpdates view)) \<and>
     set (v_theirUpdates view) \<subseteq> set (ul_List (remoteUpdateLog lc)) \<and> distinct (map fst (v_theirUpdates view))"

lemma view_of_fetch:
  assumes "log_inv (localUpdateLog lc)" "log_inv (remoteUpdateLog lc)"
  shows "view_of lc (fetchHTLCView lc ti oi)"
  using log_distinct [OF assms(1)] log_distinct [OF assms(2)]
  by (auto simp: view_of_def fetchHTLCView_def distinct_map_filter)

lemma logOf_simps [simp]: "logOf True lc = localUpdateLog lc" "logOf False lc = remoteUpdateLog lc"
  by (simp_all add: logOf_def)

lemma evalInit_simps [simp]:
  "es_lc (evalInit lc view b) = lc" "es_bal (evalInit lc view b) = b"
  "es_skipUs (evalInit lc view b) = {}" "es_skipThem (evalInit lc view b) = {}"
  "es_ourNew (evalInit lc view b) = []" "es_theirNew (evalInit lc view b) = []"
  by (simp_all add: evalInit_def)

text \<open>The state between the loops: the skip sets, and the logs the loops over the removes leave.\<close>

lemma evaluate_middle:
  assumes L: "log_inv (localUpdateLog lc)" and R: "log_inv (remoteUpdateLog lc)"
    and "mut \<Longrightarrow> view_of lc view"
    and 1: "evalRemoves True h rc mut (v_ourUpdates view) (evalInit lc view b) = (s1, None)"
    and 2: "evalRemoves False h rc mut (v_theirUpdates view) s1 = (s2, None)"
  shows "es_skipUs s2 = parentsOf (v_theirUpdates view)"
    and "es_skipThem s2 = parentsOf (v_ourUpdates view)"
    and "isRemove p \<Longrightarrow> p \<in> snd ` set (v_ourUpdates view) \<Longrightarrow> parentCommitted rc (remoteUpdateLog lc) p"
    and "isRemove p \<Longrightarrow> p \<in> snd ` set (v_theirUpdates view) \<Longrightarrow> parentCommitted rc (localUpdateLog lc) p"
    and "mut \<Longrightarrow> localUpdateLog (es_lc s2) =
      logmap (markRemoved rc h) (fst ` set (v_ourUpdates view)) (localUpdateLog lc)"
    and "mut \<Longrightarrow> remoteUpdateLog (es_lc s2) =
      logmap (markRemoved rc h) (fst ` set (v_theirUpdates view)) (remoteUpdateLog lc)"
proof -
  have logs1: "mut \<Longrightarrow> localUpdateLog (es_lc s1) =
      logmap (markRemoved rc h) (fst ` set (v_ourUpdates view)) (localUpdateLog lc) \<and>
      remoteUpdateLog (es_lc s1) = remoteUpdateLog lc"
    using evalRemoves_logs [of True h rc "v_ourUpdates view" "evalInit lc view b" s1]
      1 assms(3) log_distinct [OF L] by (simp add: view_of_def)
  have pure1: "\<not> mut \<Longrightarrow> es_lc s1 = lc"
    using evalRemoves_pure [of True h rc "v_ourUpdates view" "evalInit lc view b"] 1 by simp
  have loc1: "log_inv (localUpdateLog (es_lc s1))"
    "lookupHtlc (localUpdateLog (es_lc s1)) i = lookupHtlc (localUpdateLog lc) i" for i
    using logs1 pure1 L log_inv_logmap [OF L same_key_markRemoved] lookupHtlc_markRemoved [OF L]
    by (cases mut; simp)+
  have R0: "log_inv (logOf (\<not> True) (es_lc (evalInit lc view b)))" using R by simp
  have L1: "log_inv (logOf (\<not> False) (es_lc s1))" using loc1(1) by simp
  note skip1 = evalRemoves_skip [OF R0]
  note skip2 = evalRemoves_skip [OF L1]
  show "es_skipUs s2 = parentsOf (v_theirUpdates view)"
    "es_skipThem s2 = parentsOf (v_ourUpdates view)"
    using skip1(2) [OF 1] skip2(2) [OF 2] by simp_all
  show "parentCommitted rc (remoteUpdateLog lc) p"
    if "isRemove p" "p \<in> snd ` set (v_ourUpdates view)"
    using skip1(1) [of h rc mut "v_ourUpdates view"] 1 that by auto
  show "parentCommitted rc (localUpdateLog lc) p"
    if "isRemove p" "p \<in> snd ` set (v_theirUpdates view)"
    using skip2(1) [of h rc mut "v_theirUpdates view"] 2 that
    by (auto simp: parentCommitted_def loc1(2))
  have "localUpdateLog (es_lc s2) = localUpdateLog (es_lc s1) \<and> remoteUpdateLog (es_lc s2) =
      logmap (markRemoved rc h) (fst ` set (v_theirUpdates view)) (remoteUpdateLog (es_lc s1))" if mut
    using evalRemoves_logs [of False h rc "v_theirUpdates view" s1 s2] that
      2 assms(3) logs1 log_distinct [OF R] by (simp add: view_of_def)
  then show "mut \<Longrightarrow> localUpdateLog (es_lc s2) =
      logmap (markRemoved rc h) (fst ` set (v_ourUpdates view)) (localUpdateLog lc)"
    and "mut \<Longrightarrow> remoteUpdateLog (es_lc s2) =
      logmap (markRemoved rc h) (fst ` set (v_theirUpdates view)) (remoteUpdateLog lc)"
    using logs1 by simp_all
qed

end
