(* ===== verification/Lnwallet_Balance.thy ===== *)
theory Lnwallet_Balance
  imports Lnwallet_Ledger
begin

text \<open>
  The balances of a commitment: what \<^verbatim>\<open>evaluateHTLCView\<close> computes from a view, and that no
  evaluation creates or destroys funds.
\<close>

lemma lookup_unique:
  assumes "log_inv u" "(k, p) \<in> set (ul_List u)" "EntryType p = Add"
  shows "lookupHtlc u (pd_HtlcIndex p) = Some p"
  using assms by (auto simp: lookupHtlc_iff [OF assms(1)])

text \<open>An HTLC that a view removes is committed, so an uncommitted one is not skipped.\<close>

lemma parent_committed_not_fresh:
  assumes "log_inv u" "(k, p) \<in> set (ul_List u)" "EntryType p = Add"
    and "\<And>r. isRemove r \<Longrightarrow> r \<in> snd ` set es \<Longrightarrow> parentCommitted rc u r"
    and "pd_HtlcIndex p \<in> parentsOf es"
  shows "addHeight rc p \<noteq> 0"
proof -
  obtain r where "isRemove r" "r \<in> snd ` set es" "pd_ParentIndex r = pd_HtlcIndex p"
    using assms(5) unfolding parentsOf_def by force
  then show ?thesis
    using assms(4) [of r] lookup_unique [OF assms(1-3)] by (simp add: parentCommitted_def)
qed

lemma sumOf_cong:
  "(\<And>k p. (k, p) \<in> set es \<Longrightarrow> P p \<longleftrightarrow> Q p) \<Longrightarrow> sumOf f P es = sumOf f Q es"
  unfolding sumOf_def by (rule arg_cong [where f = sum_list], rule map_cong) auto

lemma sumOf_fresh:
  assumes "log_inv u" "set vs \<subseteq> set (ul_List u)"
    and "\<And>r. isRemove r \<Longrightarrow> r \<in> snd ` set es \<Longrightarrow> parentCommitted rc u r"
  shows "sumOf f (\<lambda>p. active (parentsOf es) p \<and> addHeight rc p = 0) vs = sumOf f (freshAdd rc) vs"
  using assms parent_committed_not_fresh [OF assms(1) _ _ assms(3)]
  by (intro sumOf_cong) (auto simp: active_def freshAdd_def)

lemma assetOverride_btc:
  "oc_AssetID (channelState (es_lc s)) = BtcAssetId \<Longrightarrow> assetOverride s = es_bal s"
  by (simp add: assetOverride_def)

lemma assetOverride_asset [simp]:
  "ourAssetBalance (assetOverride s) = ourAssetBalance (es_bal s)"
  "theirAssetBalance (assetOverride s) = theirAssetBalance (es_bal s)"
  by (simp_all add: assetOverride_def Let_def)

definition credited :: "(PaymentDescriptor \<Rightarrow> u64) \<Rightarrow> bool \<Rightarrow> log_elem list \<Rightarrow> log_elem list \<Rightarrow> u64" where
  "credited f rc settles fails = sumOf f (\<lambda>p. freshRemove rc p \<and> EntryType p = Settle) settles +
     sumOf f (\<lambda>p. freshRemove rc p \<and> EntryType p \<noteq> Settle) fails"

lemma evaluate_spec:
  assumes L: "log_inv (localUpdateLog lc)" and R: "log_inv (remoteUpdateLog lc)"
    and view: "mut \<Longrightarrow> view_of lc view"
    and ev: "evaluateHTLCView lc view b h rc mut = (lc', Inr (v', b'))"
  shows "v_ourUpdates v' = map (map_prod id (markAdded mut rc h))
      (filter (active (parentsOf (v_theirUpdates view)) \<circ> snd) (v_ourUpdates view))"
    and "v_theirUpdates v' = map (map_prod id (markAdded mut rc h))
      (filter (active (parentsOf (v_ourUpdates view)) \<circ> snd) (v_theirUpdates view))"
    and "ourAssetBalance b' = ourAssetBalance b +
      credited pd_AssetAmount rc (v_ourUpdates view) (v_theirUpdates view) -
      sumOf pd_AssetAmount (\<lambda>p. active (parentsOf (v_theirUpdates view)) p \<and> addHeight rc p = 0) (v_ourUpdates view)"
    and "theirAssetBalance b' = theirAssetBalance b +
      credited pd_AssetAmount rc (v_theirUpdates view) (v_ourUpdates view) -
      sumOf pd_AssetAmount (\<lambda>p. active (parentsOf (v_ourUpdates view)) p \<and> addHeight rc p = 0) (v_theirUpdates view)"
    and "oc_AssetID (channelState lc) = BtcAssetId \<Longrightarrow> ourBtcBalance b' = ourBtcBalance b +
      credited pd_BtcAmount rc (v_ourUpdates view) (v_theirUpdates view) -
      sumOf pd_BtcAmount (\<lambda>p. active (parentsOf (v_theirUpdates view)) p \<and> addHeight rc p = 0) (v_ourUpdates view)"
    and "oc_AssetID (channelState lc) = BtcAssetId \<Longrightarrow> theirBtcBalance b' = theirBtcBalance b +
      credited pd_BtcAmount rc (v_theirUpdates view) (v_ourUpdates view) -
      sumOf pd_BtcAmount (\<lambda>p. active (parentsOf (v_ourUpdates view)) p \<and> addHeight rc p = 0) (v_theirUpdates view)"
    and "isRemove p \<Longrightarrow> p \<in> snd ` set (v_ourUpdates view) \<Longrightarrow> parentCommitted rc (remoteUpdateLog lc) p"
    and "isRemove p \<Longrightarrow> p \<in> snd ` set (v_theirUpdates view) \<Longrightarrow> parentCommitted rc (localUpdateLog lc) p"
    and "oc_AssetID (channelState lc') = oc_AssetID (channelState lc)"
proof -
  from ev obtain s1 s2 s4 where
    1: "evalRemoves True h rc mut (v_ourUpdates view) (evalInit lc view b) = (s1, None)" and
    2: "evalRemoves False h rc mut (v_theirUpdates view) s1 = (s2, None)" and
    s4: "s4 = fold (evalAdd False h rc mut) (v_theirUpdates view)
           (fold (evalAdd True h rc mut) (v_ourUpdates view) s2)" and
    lc': "lc' = es_lc s4" and b': "b' = assetOverride s4" and
    v': "v' = \<lparr>v_ourUpdates = es_ourNew s4, v_theirUpdates = es_theirNew s4, v_feePerKw = es_feePerKw s4\<rparr>"
    by (rule evaluate_InrE)
  note mid = evaluate_middle [OF L R view 1 2]
  note bal1 = evalRemoves_bal [OF 1] and bal2 = evalRemoves_bal [OF 2]
  show "v_ourUpdates v' = map (map_prod id (markAdded mut rc h))
      (filter (active (parentsOf (v_theirUpdates view)) \<circ> snd) (v_ourUpdates view))"
    "v_theirUpdates v' = map (map_prod id (markAdded mut rc h))
      (filter (active (parentsOf (v_ourUpdates view)) \<circ> snd) (v_theirUpdates view))"
    using bal1(5,6) bal2(5,6) by (simp_all add: v' s4 fold_evalAdd mid(1,2))
  show aid: "oc_AssetID (channelState lc') = oc_AssetID (channelState lc)"
    using bal1(7) bal2(7) by (simp add: lc' s4 fold_evalAdd)
  show "ourAssetBalance b' = ourAssetBalance b +
      credited pd_AssetAmount rc (v_ourUpdates view) (v_theirUpdates view) -
      sumOf pd_AssetAmount (\<lambda>p. active (parentsOf (v_theirUpdates view)) p \<and> addHeight rc p = 0) (v_ourUpdates view)"
    using bal1(1) bal2(1) by (simp add: b' s4 fold_evalAdd mid(1,2) credited_def)
  show "theirAssetBalance b' = theirAssetBalance b +
      credited pd_AssetAmount rc (v_theirUpdates view) (v_ourUpdates view) -
      sumOf pd_AssetAmount (\<lambda>p. active (parentsOf (v_ourUpdates view)) p \<and> addHeight rc p = 0) (v_theirUpdates view)"
    using bal1(2) bal2(2) by (simp add: b' s4 fold_evalAdd mid(1,2) credited_def)
  show "ourBtcBalance b' = ourBtcBalance b +
      credited pd_BtcAmount rc (v_ourUpdates view) (v_theirUpdates view) -
      sumOf pd_BtcAmount (\<lambda>p. active (parentsOf (v_theirUpdates view)) p \<and> addHeight rc p = 0) (v_ourUpdates view)"
    if "oc_AssetID (channelState lc) = BtcAssetId"
    using bal1(3) bal2(3) aid that
    by (simp add: b' lc' assetOverride_btc) (simp add: s4 fold_evalAdd mid(1,2) credited_def)
  show "theirBtcBalance b' = theirBtcBalance b +
      credited pd_BtcAmount rc (v_theirUpdates view) (v_ourUpdates view) -
      sumOf pd_BtcAmount (\<lambda>p. active (parentsOf (v_ourUpdates view)) p \<and> addHeight rc p = 0) (v_theirUpdates view)"
    if "oc_AssetID (channelState lc) = BtcAssetId"
    using bal1(4) bal2(4) aid that
    by (simp add: b' lc' assetOverride_btc) (simp add: s4 fold_evalAdd mid(1,2) credited_def)
  show "isRemove p \<Longrightarrow> p \<in> snd ` set (v_ourUpdates view) \<Longrightarrow> parentCommitted rc (remoteUpdateLog lc) p"
    "isRemove p \<Longrightarrow> p \<in> snd ` set (v_theirUpdates view) \<Longrightarrow> parentCommitted rc (localUpdateLog lc) p"
    by (rule mid(3), assumption+) (rule mid(4), assumption+)
qed

text \<open>The logs after an evaluation that writes the heights.\<close>

lemma evaluate_logs:
  assumes L: "log_inv (localUpdateLog lc)" and R: "log_inv (remoteUpdateLog lc)"
    and view: "view_of lc view"
    and ev: "evaluateHTLCView lc view b h rc True = (lc', Inr (v', b'))"
  shows "localUpdateLog lc' = logmap (markCommitted rc h) (fst ` set (v_ourUpdates view)) (localUpdateLog lc)"
    and "remoteUpdateLog lc' = logmap (markCommitted rc h) (fst ` set (v_theirUpdates view)) (remoteUpdateLog lc)"
proof -
  from ev obtain s1 s2 s4 where
    1: "evalRemoves True h rc True (v_ourUpdates view) (evalInit lc view b) = (s1, None)" and
    2: "evalRemoves False h rc True (v_theirUpdates view) s1 = (s2, None)" and
    s4: "s4 = fold (evalAdd False h rc True) (v_theirUpdates view)
           (fold (evalAdd True h rc True) (v_ourUpdates view) s2)" and
    lc': "lc' = es_lc s4"
    by (rule evaluate_InrE)
  note mid = evaluate_middle [OF L R view 1 2]
  define s3 where "s3 = fold (evalAdd True h rc True) (v_ourUpdates view) s2"
  have sub: "set (v_ourUpdates view) \<subseteq> set (ul_List (localUpdateLog lc))" "distinct (map fst (v_ourUpdates view))"
    "set (v_theirUpdates view) \<subseteq> set (ul_List (remoteUpdateLog lc))" "distinct (map fst (v_theirUpdates view))"
    using view by (auto simp: view_of_def)
  have keep: "set (adds es) \<subseteq> set (ul_List (logmap (markRemoved rc h) K u))" if "set es \<subseteq> set (ul_List u)" for es K u
    using that by (fastforce simp: adds_def mem_logmap markRemoved_def freshRemove_def isRemove_def)
  have s3: "localUpdateLog (es_lc s3) = logmap (markActive (parentsOf (v_theirUpdates view)) rc h)
      (fst ` set (adds (v_ourUpdates view))) (localUpdateLog (es_lc s2))"
    "remoteUpdateLog (es_lc s3) = remoteUpdateLog (es_lc s2)"
    using fold_evalAdd_logs [of True s2 "v_ourUpdates view" h rc] mid sub keep [OF sub(1)] log_distinct [OF L]
    by (simp_all add: s3_def)
  have fin: "remoteUpdateLog (es_lc s4) = logmap (markActive (parentsOf (v_ourUpdates view)) rc h)
      (fst ` set (adds (v_theirUpdates view))) (remoteUpdateLog (es_lc s2))"
    "localUpdateLog (es_lc s4) = localUpdateLog (es_lc s3)"
    using fold_evalAdd_logs [of False s3 "v_theirUpdates view" h rc] mid sub keep [OF sub(3)] log_distinct [OF R] s3
    by (simp_all add: s4 fold_evalAdd flip: s3_def) (simp_all add: s3_def fold_evalAdd)
  show "localUpdateLog lc' = logmap (markCommitted rc h) (fst ` set (v_ourUpdates view)) (localUpdateLog lc)"
    unfolding lc' fin(2) s3 mid(5) [OF TrueI]
    by (rule logmap_passes [OF L sub(1)]) (rule parent_committed_not_fresh [OF L _ _ mid(4)])
  show "remoteUpdateLog lc' = logmap (markCommitted rc h) (fst ` set (v_theirUpdates view)) (remoteUpdateLog lc)"
    unfolding lc' fin(1) mid(6) [OF TrueI]
    by (rule logmap_passes [OF R sub(3)]) (rule parent_committed_not_fresh [OF R _ _ mid(3)])
qed

end
