(* ===== verification/Lnwallet_Conserve.thy ===== *)
theory Lnwallet_Conserve
  imports Lnwallet_Balance
begin

text \<open>
  The invariant of the two update logs of a channel, and the conservation of funds by the
  evaluation of a commitment.
\<close>

subsection \<open>The invariant\<close>

text \<open>
  Every settle or fail in log \<open>A\<close> removes an HTLC of log \<open>B\<close> with the same amounts, which is
  committed wherever the removal is; no HTLC is removed twice; and the HTLCs marked as modified
  in \<open>B\<close> are exactly the removed ones.
\<close>

definition removes_ok :: "updateLog \<Rightarrow> updateLog \<Rightarrow> bool" where
  "removes_ok A B \<longleftrightarrow>
     (\<forall>(k, p) \<in> set (ul_List A). isRemove p \<longrightarrow>
        (\<exists>q. lookupHtlc B (pd_ParentIndex p) = Some q \<and> pd_BtcAmount q = pd_BtcAmount p \<and>
             pd_AssetAmount q = pd_AssetAmount p \<and>
             (\<forall>rc. removeHeight rc p \<noteq> 0 \<longrightarrow> addHeight rc q \<noteq> 0))) \<and>
     (\<forall>(k, p) \<in> set (ul_List A). \<forall>(k', p') \<in> set (ul_List A).
        isRemove p \<and> isRemove p' \<and> pd_ParentIndex p = pd_ParentIndex p' \<longrightarrow> k = k') \<and>
     modifiedHtlcs B = parentsOf (ul_List A)"

definition chan_inv :: "LightningChannel \<Rightarrow> bool" where
  "chan_inv lc \<longleftrightarrow> log_inv (localUpdateLog lc) \<and> log_inv (remoteUpdateLog lc) \<and>
     removes_ok (localUpdateLog lc) (remoteUpdateLog lc) \<and>
     removes_ok (remoteUpdateLog lc) (localUpdateLog lc)"

lemma removes_okD:
  assumes "removes_ok A B"
  shows "(k, p) \<in> set (ul_List A) \<Longrightarrow> isRemove p \<Longrightarrow>
      \<exists>q. lookupHtlc B (pd_ParentIndex p) = Some q \<and> pd_BtcAmount q = pd_BtcAmount p \<and>
        pd_AssetAmount q = pd_AssetAmount p \<and> (\<forall>rc. removeHeight rc p \<noteq> 0 \<longrightarrow> addHeight rc q \<noteq> 0)"
    and "(k, p) \<in> set (ul_List A) \<Longrightarrow> (k', p') \<in> set (ul_List A) \<Longrightarrow> isRemove p \<Longrightarrow> isRemove p' \<Longrightarrow>
      pd_ParentIndex p = pd_ParentIndex p' \<Longrightarrow> k = k'"
    and "modifiedHtlcs B = parentsOf (ul_List A)"
  using assms unfolding removes_ok_def by blast+

lemma removes_okI:
  assumes "\<And>k p. (k, p) \<in> set (ul_List A) \<Longrightarrow> isRemove p \<Longrightarrow>
      \<exists>q. lookupHtlc B (pd_ParentIndex p) = Some q \<and> pd_BtcAmount q = pd_BtcAmount p \<and>
        pd_AssetAmount q = pd_AssetAmount p \<and> (\<forall>rc. removeHeight rc p \<noteq> 0 \<longrightarrow> addHeight rc q \<noteq> 0)"
    and "\<And>k p k' p'. (k, p) \<in> set (ul_List A) \<Longrightarrow> (k', p') \<in> set (ul_List A) \<Longrightarrow> isRemove p \<Longrightarrow> isRemove p' \<Longrightarrow>
      pd_ParentIndex p = pd_ParentIndex p' \<Longrightarrow> k = k'"
    and "modifiedHtlcs B = parentsOf (ul_List A)"
  shows "removes_ok A B"
  using assms unfolding removes_ok_def by blast

subsection \<open>HTLCs in flight\<close>

text \<open>
  The HTLCs offered in log \<open>A\<close> that are on the commitment chain: committed, and not removed by
  a committed settle or fail of the other log \<open>B\<close>.
\<close>

definition removedOn :: "bool \<Rightarrow> updateLog \<Rightarrow> u64 set" where
  "removedOn rc B = parentsOf (filter (\<lambda>e. removeHeight rc (snd e) \<noteq> 0) (ul_List B))"

definition offered :: "(PaymentDescriptor \<Rightarrow> u64) \<Rightarrow> bool \<Rightarrow> updateLog \<Rightarrow> updateLog \<Rightarrow> u64" where
  "offered f rc A B = sumOf f (\<lambda>p. active (removedOn rc B) p \<and> addHeight rc p \<noteq> 0) (ul_List A)"

definition inFlight :: "(PaymentDescriptor \<Rightarrow> u64) \<Rightarrow> bool \<Rightarrow> LightningChannel \<Rightarrow> u64" where
  "inFlight f rc lc = offered f rc (localUpdateLog lc) (remoteUpdateLog lc) +
     offered f rc (remoteUpdateLog lc) (localUpdateLog lc)"

definition isAmount :: "(PaymentDescriptor \<Rightarrow> u64) \<Rightarrow> bool" where
  "isAmount f \<longleftrightarrow> f = pd_BtcAmount \<or> f = pd_AssetAmount"

definition committedAdd :: "bool \<Rightarrow> PaymentDescriptor \<Rightarrow> bool" where
  "committedAdd rc p \<longleftrightarrow> EntryType p = Add \<and> addHeight rc p \<noteq> 0"

definition committedRemove :: "bool \<Rightarrow> PaymentDescriptor \<Rightarrow> bool" where
  "committedRemove rc p \<longleftrightarrow> isRemove p \<and> removeHeight rc p \<noteq> 0"

lemma sumOf_set:
  assumes "distinct es"
  shows "sumOf f P es = (\<Sum>e\<in>{e \<in> set es. P (snd e)}. f (snd e))"
  using assms by (simp add: sumOf_def sum_list_distinct_conv_sum_set sum.inter_filter)

lemma log_distinct_list: "log_inv u \<Longrightarrow> distinct (ul_List u)"
  using log_distinct [of u] by (simp add: distinct_map)

lemma committed_split:
  assumes A: "log_inv A" and B: "log_inv B" and ok: "removes_ok B A" and f: "isAmount f"
  shows "sumOf f (committedAdd rc) (ul_List A) =
    offered f rc A B + sumOf f (committedRemove rc) (ul_List B)"
proof -
  define S where "S = {e \<in> set (ul_List B). committedRemove rc (snd e)}"
  define N where "N = {e \<in> set (ul_List A). active (removedOn rc B) (snd e) \<and> addHeight rc (snd e) \<noteq> 0}"
  define g where "g = (\<lambda>e :: log_elem. (the (htlcIndex A (pd_ParentIndex (snd e))),
     the (lookupHtlc A (pd_ParentIndex (snd e)))))"
  have par: "\<exists>j q. g e = (j, q) \<and> (j, q) \<in> set (ul_List A) \<and> EntryType q = Add \<and>
      pd_HtlcIndex q = pd_ParentIndex (snd e) \<and> f q = f (snd e) \<and> addHeight rc q \<noteq> 0" if e: "e \<in> S" for e
  proof -
    obtain q where q: "lookupHtlc A (pd_ParentIndex (snd e)) = Some q"
      "pd_BtcAmount q = pd_BtcAmount (snd e)" "pd_AssetAmount q = pd_AssetAmount (snd e)" "addHeight rc q \<noteq> 0"
      using removes_okD(1) [OF ok, of "fst e" "snd e"] e by (auto simp: S_def committedRemove_def)
    obtain j where j: "(j, q) \<in> set (ul_List A)" "EntryType q = Add" "pd_HtlcIndex q = pd_ParentIndex (snd e)"
      using q(1) lookupHtlc_iff [OF A] by blast
    then have "htlcIndex A (pd_ParentIndex (snd e)) = Some j"
      unfolding log_htlcIndex [OF A] by blast
    with q j f show ?thesis by (auto simp: g_def isAmount_def)
  qed
  have inj: "inj_on g S"
  proof (rule inj_onI)
    fix e e' assume e: "e \<in> S" "e' \<in> S" "g e = g e'"
    then have "pd_ParentIndex (snd e) = pd_ParentIndex (snd e')" using par by (metis prod.inject)
    then have "fst e = fst e'"
      using removes_okD(2) [OF ok, of "fst e" "snd e" "fst e'" "snd e'"] e by (simp add: S_def committedRemove_def)
    then show "e = e'"
      using e(1,2) elem_unique [OF B, of "fst e" "snd e" "snd e'"]
      unfolding S_def by (metis (no_types, lifting) mem_Collect_eq prod.collapse)
  qed
  have removed: "pd_HtlcIndex q \<in> removedOn rc B \<longleftrightarrow> (\<exists>e \<in> S. pd_ParentIndex (snd e) = pd_HtlcIndex q)" for q
    by (force simp: removedOn_def parentsOf_def S_def committedRemove_def)
  have img: "{e \<in> set (ul_List A). committedAdd rc (snd e)} = N \<union> g ` S"
  proof (intro set_eqI iffI)
    fix x assume x: "x \<in> {e \<in> set (ul_List A). committedAdd rc (snd e)}"
    show "x \<in> N \<union> g ` S"
    proof (cases "pd_HtlcIndex (snd x) \<in> removedOn rc B")
      case True
      then obtain e where e: "e \<in> S" "pd_ParentIndex (snd e) = pd_HtlcIndex (snd x)" using removed by blast
      have "lookupHtlc A (pd_HtlcIndex (snd x)) = Some (snd x)" "htlcIndex A (pd_HtlcIndex (snd x)) = Some (fst x)"
        using x lookup_unique [OF A, of "fst x" "snd x"] unfolding log_htlcIndex [OF A]
        by (auto simp: committedAdd_def intro!: exI [of _ "snd x"])
      then have "g e = x" using e(2) by (simp add: g_def)
      then show ?thesis using e(1) by blast
    qed (use x in \<open>simp add: N_def active_def committedAdd_def\<close>)
  next
    fix x assume "x \<in> N \<union> g ` S"
    then show "x \<in> {e \<in> set (ul_List A). committedAdd rc (snd e)}"
      using par by (force simp: N_def active_def committedAdd_def)
  qed
  have disj: "N \<inter> g ` S = {}"
    using par removed by (force simp: N_def active_def)
  have fin: "finite N" "finite (g ` S)" by (simp_all add: N_def S_def)
  have "sumOf f (committedAdd rc) (ul_List A) = (\<Sum>e\<in>N. f (snd e)) + (\<Sum>e\<in>g ` S. f (snd e))"
    unfolding sumOf_set [OF log_distinct_list [OF A]] img by (rule sum.union_disjoint [OF fin disj])
  also have "(\<Sum>e\<in>g ` S. f (snd e)) = (\<Sum>e\<in>S. f (snd (g e)))"
    using inj by (simp add: sum.reindex)
  also have "\<dots> = (\<Sum>e\<in>S. f (snd e))"
    by (rule sum.cong) (use par in force)+
  finally show ?thesis
    unfolding offered_def sumOf_set [OF log_distinct_list [OF A]] sumOf_set [OF log_distinct_list [OF B]]
    by (simp add: N_def S_def)
qed

subsection \<open>Evaluation keeps the invariant\<close>

lemma markCommitted_heights:
  "addHeight rc' (markCommitted rc h p) =
     (if rc' = rc \<and> addHeight rc p = 0 \<and> (EntryType p = Add \<or> EntryType p = FeeUpdate) then h
      else addHeight rc' p)"
  "removeHeight rc' (markCommitted rc h p) =
     (if rc' = rc \<and> (freshRemove rc p \<or> EntryType p = FeeUpdate \<and> addHeight rc p = 0) then h
      else removeHeight rc' p)"
  by (cases "EntryType p";
      simp add: markCommitted_def markAdded_def markRemoved_def addHeight_def removeHeight_def
        setAddHeight_def setRemoveHeight_def freshRemove_def isRemove_def)+

lemma markCommitted_fields [simp]:
  "EntryType (markCommitted rc h p) = EntryType p"
  "pd_ParentIndex (markCommitted rc h p) = pd_ParentIndex p"
  "pd_HtlcIndex (markCommitted rc h p) = pd_HtlcIndex p"
  "pd_BtcAmount (markCommitted rc h p) = pd_BtcAmount p"
  "pd_AssetAmount (markCommitted rc h p) = pd_AssetAmount p"
  "isRemove (markCommitted rc h p) = isRemove p"
  using same_key_mark [of rc h p] by (simp_all add: same_key_def isRemove_def)

lemma parentsOf_logmap:
  assumes "\<And>p. isRemove (g p) = isRemove p" "\<And>p. pd_ParentIndex (g p) = pd_ParentIndex p"
  shows "parentsOf (ul_List (logmap g K u)) = parentsOf (ul_List u)"
proof -
  have "parentsOf (map (\<lambda>e. if fst e \<in> K then (fst e, g (snd e)) else e) xs) = parentsOf xs" for xs
    by (induction xs) (auto simp: assms)
  then show ?thesis by (simp add: logmap_def)
qed

lemma removes_ok_logmap:
  assumes B: "log_inv B" and ok: "removes_ok A B"
    and par: "\<And>k p. (k, p) \<in> set (ul_List A) \<Longrightarrow> k \<in> K \<Longrightarrow> isRemove p \<Longrightarrow> parentCommitted rc B p"
  shows "removes_ok (logmap (markCommitted rc h) K A) (logmap (markCommitted rc h) J B)"
  unfolding removes_ok_def
proof (intro conjI ballI case_prodI2 impI allI)
  fix e k p assume e: "e \<in> set (ul_List (logmap (markCommitted rc h) K A))" "e = (k, p)" "isRemove p"
  then obtain p0 where p0: "(k, p0) \<in> set (ul_List A)" "p = (if k \<in> K then markCommitted rc h p0 else p0)"
    by (auto simp: mem_logmap)
  have rm0: "isRemove p0" "pd_ParentIndex p = pd_ParentIndex p0" "pd_BtcAmount p = pd_BtcAmount p0"
    "pd_AssetAmount p = pd_AssetAmount p0"
    using e(3) p0(2) by (auto split: if_splits)
  obtain q0 where q0: "lookupHtlc B (pd_ParentIndex p0) = Some q0" "pd_BtcAmount q0 = pd_BtcAmount p0"
    "pd_AssetAmount q0 = pd_AssetAmount p0" "\<forall>rc. removeHeight rc p0 \<noteq> 0 \<longrightarrow> addHeight rc q0 \<noteq> 0"
    using removes_okD(1) [OF ok p0(1) rm0(1)] by blast
  obtain j where j: "htlcIndex B (pd_ParentIndex p0) = Some j"
    using q0(1) by (auto simp: lookupHtlc_def split: option.splits)
  define q where "q = (if j \<in> J then markCommitted rc h q0 else q0)"
  have up: "addHeight rc' q0 \<noteq> 0 \<Longrightarrow> addHeight rc' q = addHeight rc' q0" for rc'
    by (auto simp: q_def markCommitted_heights)
  have "addHeight rc' q \<noteq> 0" if "removeHeight rc' p \<noteq> 0" for rc'
  proof (cases "removeHeight rc' p0 = 0")
    case True
    then have "k \<in> K" "rc' = rc"
      using that p0(2) by (auto simp: markCommitted_heights split: if_splits)
    then have "addHeight rc' q0 \<noteq> 0"
      using par [OF p0(1) _ rm0(1)] q0(1) by (simp add: parentCommitted_def)
    then show ?thesis using up by simp
  qed (use q0(4) up in simp)
  moreover have "lookupHtlc (logmap (markCommitted rc h) J B) (pd_ParentIndex p) = Some q"
    by (simp add: lookupHtlc_logmap [OF B] rm0 j q0 q_def)
  moreover have "pd_BtcAmount q = pd_BtcAmount p" "pd_AssetAmount q = pd_AssetAmount p"
    using q0 rm0 by (simp_all add: q_def)
  ultimately show "\<exists>q. lookupHtlc (logmap (markCommitted rc h) J B) (pd_ParentIndex p) = Some q \<and>
      pd_BtcAmount q = pd_BtcAmount p \<and> pd_AssetAmount q = pd_AssetAmount p \<and>
      (\<forall>rc. removeHeight rc p \<noteq> 0 \<longrightarrow> addHeight rc q \<noteq> 0)" by blast
next
  fix e k p e' k' p'
  assume "e \<in> set (ul_List (logmap (markCommitted rc h) K A))" "e = (k, p)"
    "e' \<in> set (ul_List (logmap (markCommitted rc h) K A))" "e' = (k', p')"
    "isRemove p \<and> isRemove p' \<and> pd_ParentIndex p = pd_ParentIndex p'"
  then obtain p0 p0' where "(k, p0) \<in> set (ul_List A)" "(k', p0') \<in> set (ul_List A)"
    "isRemove p0" "isRemove p0'" "pd_ParentIndex p0 = pd_ParentIndex p0'"
    by (auto simp: mem_logmap split: if_splits)
  then show "k = k'" using removes_okD(2) [OF ok] by blast
next
  show "modifiedHtlcs (logmap (markCommitted rc h) J B) = parentsOf (ul_List (logmap (markCommitted rc h) K A))"
    using removes_okD(3) [OF ok] by (simp add: parentsOf_logmap)
qed

lemma view_elem:
  assumes "log_inv u" "set es \<subseteq> set (ul_List u)" "(k, p) \<in> set (ul_List u)" "k \<in> fst ` set es"
  shows "p \<in> snd ` set es"
proof -
  obtain p' where "(k, p') \<in> set es" using assms(4) by force
  moreover from this have "p' = p" using elem_unique [OF assms(1)] assms(2,3) by blast
  ultimately show ?thesis by force
qed

lemma chan_inv_evaluate:
  assumes inv: "chan_inv lc" and view: "view_of lc view"
    and ev: "evaluateHTLCView lc view b h rc True = (lc', Inr (v', b'))"
  shows "chan_inv lc'"
proof -
  have L: "log_inv (localUpdateLog lc)" and R: "log_inv (remoteUpdateLog lc)"
    and ok: "removes_ok (localUpdateLog lc) (remoteUpdateLog lc)" "removes_ok (remoteUpdateLog lc) (localUpdateLog lc)"
    using inv by (simp_all add: chan_inv_def)
  note logs = evaluate_logs [OF L R view ev]
  note spec = evaluate_spec [OF L R view ev]
  have sub: "set (v_ourUpdates view) \<subseteq> set (ul_List (localUpdateLog lc))"
    "set (v_theirUpdates view) \<subseteq> set (ul_List (remoteUpdateLog lc))"
    using view by (simp_all add: view_of_def)
  have "removes_ok (localUpdateLog lc') (remoteUpdateLog lc')"
    unfolding logs using spec(7) view_elem [OF L sub(1)] by (intro removes_ok_logmap [OF R ok(1)]) blast
  moreover have "removes_ok (remoteUpdateLog lc') (localUpdateLog lc')"
    unfolding logs using spec(8) view_elem [OF R sub(2)] by (intro removes_ok_logmap [OF L ok(2)]) blast
  moreover have "log_inv (localUpdateLog lc')" "log_inv (remoteUpdateLog lc')"
    unfolding logs using log_inv_logmap [OF L same_key_mark] log_inv_logmap [OF R same_key_mark] by simp_all
  ultimately show ?thesis by (simp add: chan_inv_def)
qed

subsection \<open>Conservation\<close>

lemma sumOf_logmap:
  assumes "distinct (map fst (ul_List u))"
    and "\<And>p. f (g p) = f p" "\<And>p. P (g p) \<longleftrightarrow> P p \<or> F p" "\<And>p. F p \<Longrightarrow> \<not> P p"
  shows "sumOf f P (ul_List (logmap g (fst ` set (filter Q (ul_List u))) u)) =
    sumOf f P (ul_List u) + sumOf f F (filter Q (ul_List u))"
proof -
  have Q: "fst e \<in> fst ` set (filter Q (ul_List u)) \<longleftrightarrow> Q e" if "e \<in> set (ul_List u)" for e
    using that assms(1) by (force simp: distinct_map inj_on_def)
  have "sumOf f P (map (\<lambda>e. if Q e then (fst e, g (snd e)) else e) xs) =
      sumOf f P xs + sumOf f F (filter Q xs)" for xs
    by (induction xs) (auto simp: assms)
  moreover have "map (\<lambda>e. if fst e \<in> fst ` set (filter Q (ul_List u)) then (fst e, g (snd e)) else e) (ul_List u)
      = map (\<lambda>e. if Q e then (fst e, g (snd e)) else e) (ul_List u)"
    by (rule map_cong) (simp_all add: Q del: set_filter)
  ultimately show ?thesis by (simp only: logmap_def) simp
qed

lemma sumOf_split: "sumOf f (\<lambda>p. F p \<and> G p) es + sumOf f (\<lambda>p. F p \<and> \<not> G p) es = sumOf f F es"
  by (induction es) (auto simp: algebra_simps)

lemma inFlight_committed:
  assumes "chan_inv lc" "isAmount f"
  shows "inFlight f rc lc =
    sumOf f (committedAdd rc) (ul_List (localUpdateLog lc)) + sumOf f (committedAdd rc) (ul_List (remoteUpdateLog lc)) -
    sumOf f (committedRemove rc) (ul_List (localUpdateLog lc)) - sumOf f (committedRemove rc) (ul_List (remoteUpdateLog lc))"
  using committed_split [of "localUpdateLog lc" "remoteUpdateLog lc" f rc]
    committed_split [of "remoteUpdateLog lc" "localUpdateLog lc" f rc] assms
  by (simp add: inFlight_def chan_inv_def)

lemma inFlight_evaluate:
  assumes inv: "chan_inv lc" and view: "view = (fetchHTLCView lc ti oi)\<lparr>v_feePerKw := fee\<rparr>"
    and ev: "evaluateHTLCView lc view b h rc True = (lc', Inr (v', b'))" and "h \<noteq> 0" and f: "isAmount f"
  shows "inFlight f rc lc' = inFlight f rc lc +
    sumOf f (freshAdd rc) (v_ourUpdates view) + sumOf f (freshAdd rc) (v_theirUpdates view) -
    sumOf f (freshRemove rc) (v_ourUpdates view) - sumOf f (freshRemove rc) (v_theirUpdates view)"
proof -
  have L: "log_inv (localUpdateLog lc)" and R: "log_inv (remoteUpdateLog lc)"
    using inv by (simp_all add: chan_inv_def)
  have vo: "view_of lc view" using view_of_fetch [OF L R] by (simp add: view view_of_def)
  note logs = evaluate_logs [OF L R vo ev]
  have mark: "f (markCommitted rc h p) = f p"
    "committedAdd rc (markCommitted rc h p) \<longleftrightarrow> committedAdd rc p \<or> freshAdd rc p"
    "committedRemove rc (markCommitted rc h p) \<longleftrightarrow> committedRemove rc p \<or> freshRemove rc p" for p
    using f \<open>h \<noteq> 0\<close>
    by (auto simp: isAmount_def committedAdd_def committedRemove_def freshAdd_def freshRemove_def markCommitted_heights
        isRemove_def)
  have sums: "sumOf f (committedAdd rc) (ul_List (logmap (markCommitted rc h) (fst ` set (filter Q (ul_List u))) u)) =
      sumOf f (committedAdd rc) (ul_List u) + sumOf f (freshAdd rc) (filter Q (ul_List u))"
    "sumOf f (committedRemove rc) (ul_List (logmap (markCommitted rc h) (fst ` set (filter Q (ul_List u))) u)) =
      sumOf f (committedRemove rc) (ul_List u) + sumOf f (freshRemove rc) (filter Q (ul_List u))"
    if "log_inv u" for u Q
    by (intro sumOf_logmap [OF log_distinct [OF that]] mark;
        simp add: committedAdd_def committedRemove_def freshAdd_def freshRemove_def)+
  show ?thesis
    unfolding inFlight_committed [OF inv f] inFlight_committed [OF chan_inv_evaluate [OF inv vo ev] f] logs
    by (simp only: view fetchHTLCView_def htlcView.select_convs htlcView.update_convs sums [OF L] sums [OF R])
      (simp add: algebra_simps)
qed

text \<open>
  What one party gains another loses: the balances and the HTLCs in flight together do not
  change.
\<close>

lemma ledger_sum:
  fixes o' t :: u64
  assumes "c1 + c2 = r1 + r2"
  shows "(o' + c1 - a1) + (t + c2 - a2) + (fl + a1 + a2 - r1 - r2) = o' + t + fl"
proof -
  have "(o' + c1 - a1) + (t + c2 - a2) + (fl + a1 + a2 - r1 - r2) = o' + t + fl + (c1 + c2) - (r1 + r2)"
    by (simp add: algebra_simps)
  then show ?thesis by (simp add: assms)
qed

lemma evaluate_conserves:
  assumes inv: "chan_inv lc" and view: "view = (fetchHTLCView lc ti oi)\<lparr>v_feePerKw := fee\<rparr>"
    and ev: "evaluateHTLCView lc view b h rc True = (lc', Inr (v', b'))" and "h \<noteq> 0"
  shows "ourAssetBalance b' + theirAssetBalance b' + inFlight pd_AssetAmount rc lc' =
      ourAssetBalance b + theirAssetBalance b + inFlight pd_AssetAmount rc lc"
    and "oc_AssetID (channelState lc) = BtcAssetId \<Longrightarrow>
      ourBtcBalance b' + theirBtcBalance b' + inFlight pd_BtcAmount rc lc' =
      ourBtcBalance b + theirBtcBalance b + inFlight pd_BtcAmount rc lc"
proof -
  have L: "log_inv (localUpdateLog lc)" and R: "log_inv (remoteUpdateLog lc)"
    using inv by (simp_all add: chan_inv_def)
  have vo: "view_of lc view" using view_of_fetch [OF L R] by (simp add: view view_of_def)
  note spec = evaluate_spec [OF L R vo ev]
  have sub: "set (v_ourUpdates view) \<subseteq> set (ul_List (localUpdateLog lc))"
    "set (v_theirUpdates view) \<subseteq> set (ul_List (remoteUpdateLog lc))"
    using vo by (simp_all add: view_of_def)
  have fresh: "sumOf f (\<lambda>p. active (parentsOf (v_theirUpdates view)) p \<and> addHeight rc p = 0) (v_ourUpdates view) =
      sumOf f (freshAdd rc) (v_ourUpdates view)"
    "sumOf f (\<lambda>p. active (parentsOf (v_ourUpdates view)) p \<and> addHeight rc p = 0) (v_theirUpdates view) =
      sumOf f (freshAdd rc) (v_theirUpdates view)" for f
    by (rule sumOf_fresh [OF L sub(1)], erule spec(8), assumption)
      (rule sumOf_fresh [OF R sub(2)], erule spec(7), assumption)
  have cred: "credited f rc es es' + credited f rc es' es = sumOf f (freshRemove rc) es + sumOf f (freshRemove rc) es'"
    for f es es'
    unfolding credited_def sumOf_split [of f "freshRemove rc" "\<lambda>p. EntryType p = Settle", symmetric]
    by (simp add: algebra_simps)
  note fl = inFlight_evaluate [OF inv view ev \<open>h \<noteq> 0\<close>]
  show "ourAssetBalance b' + theirAssetBalance b' + inFlight pd_AssetAmount rc lc' =
      ourAssetBalance b + theirAssetBalance b + inFlight pd_AssetAmount rc lc"
    unfolding fl [of pd_AssetAmount, unfolded isAmount_def, simplified] spec(3,4) fresh
    using cred [of pd_AssetAmount "v_ourUpdates view" "v_theirUpdates view"]
    by (intro ledger_sum) simp
  show "ourBtcBalance b' + theirBtcBalance b' + inFlight pd_BtcAmount rc lc' =
      ourBtcBalance b + theirBtcBalance b + inFlight pd_BtcAmount rc lc"
    if "oc_AssetID (channelState lc) = BtcAssetId"
    unfolding fl [of pd_BtcAmount, unfolded isAmount_def, simplified] spec(5,6) [OF that] fresh
    using cred [of pd_BtcAmount "v_ourUpdates view" "v_theirUpdates view"]
    by (intro ledger_sum) simp
qed

end
