(* ===== verification/Lnwallet_Channel.thy ===== *)
theory Lnwallet_Channel
  imports Lnwallet_View Wire_Msg_Update
begin

text \<open>
  The operations of \<^verbatim>\<open>LightningChannel\<close> on its update logs (\<^verbatim>\<open>lnwallet/channel.go\<close>): adding,
  settling and failing HTLCs, fee updates, and the checks of the channel constraints they make.
  An operation returns an error, or its result with the new channel; when it fails it has
  changed nothing.  A nil dereference is the error \<open>NilPanic\<close>.  The hash function of
  \<^verbatim>\<open>crypto/sha256\<close> is a parameter.
\<close>

subsection \<open>Amounts of a descriptor\<close>

definition GetMsgAmt :: "PaymentDescriptor \<Rightarrow> UnitPrec11" where
  "GetMsgAmt pd = (if pd_AssetID pd = BtcAssetId then pd_BtcAmount pd else pd_AssetAmount pd)"

definition SetAmtFromMsgHtlc :: "UpdateAddHTLC \<Rightarrow> PaymentDescriptor \<Rightarrow> PaymentDescriptor" where
  "SetAmtFromMsgHtlc htlc pd =
     (let pd = pd\<lparr>pd_AssetID := ah_AssetID htlc\<rparr>
      in if ah_AssetID htlc = BtcAssetId then pd\<lparr>pd_BtcAmount := ah_Amount htlc\<rparr>
         else pd\<lparr>pd_AssetAmount := ah_Amount htlc, pd_BtcAmount := NewMSatFromSatoshis (OmniGas * 3)\<rparr>)"

subsection \<open>Commitment constraints\<close>

fun validateUpdatesLoop :: "'z ChannelConstraints_scheme \<Rightarrow> log_elem list \<Rightarrow> u16 \<Rightarrow> UnitPrec11 \<Rightarrow>
    chan_error + u16 \<times> UnitPrec11" where
  "validateUpdatesLoop c [] numInFlight amtInFlight = Inr (numInFlight, amtInFlight)"
| "validateUpdatesLoop c (e # es) numInFlight amtInFlight =
     (let entry = snd e
      in if EntryType entry \<noteq> Add then validateUpdatesLoop c es numInFlight amtInFlight
         else if GetMsgAmt entry = 0 then Inl ErrInvalidHTLCAmt
         else if GetMsgAmt entry < MinHTLC c then Inl ErrBelowMinHTLC
         else validateUpdatesLoop c es (numInFlight + 1) (amtInFlight + GetMsgAmt entry))"

definition validateUpdates :: "log_elem list \<Rightarrow> 'z ChannelConstraints_scheme \<Rightarrow> chan_error option" where
  "validateUpdates updates c =
     (case validateUpdatesLoop c updates 0 0 of
        Inl e \<Rightarrow> Some e
      | Inr (numInFlight, amtInFlight) \<Rightarrow>
          if amtInFlight > MaxPendingAmount c then Some ErrMaxPendingAmount
          else if numInFlight > MaxAcceptedHtlcs c then Some ErrMaxHTLCNumber
          else None)"

text \<open>
  The checks on the balances: of the view's balances \<open>b\<close> before the fee, with the balances of
  the chain's tip to compare with.
\<close>

definition validateBalances :: "LightningChannel \<Rightarrow> commitment \<Rightarrow> balances \<Rightarrow> int64 \<Rightarrow> SatPerKWeight \<Rightarrow>
    chan_error option" where
  "validateBalances lc tip b commitWeight feePerKw =
     (let st = channelState lc;
          commitFeeMsat = NewMSatFromSatoshis (FeeForWeight feePerKw commitWeight);
          ourBtc = ourBtcBalance b - (if oc_IsInitiator st then commitFeeMsat else 0);
          theirBtc = theirBtcBalance b - (if oc_IsInitiator st then 0 else commitFeeMsat);
          btc = (oc_AssetID st = BtcAssetId);
          ourInitialBalance = (if btc then c_ourBtcBalance tip else c_ourAssetBalance tip);
          theirInitialBalance = (if btc then c_theirBtcBalance tip else c_theirAssetBalance tip);
          ourAmt = (if btc then ourBtc else ourAssetBalance b);
          theirAmt = (if btc then theirBtc else theirAssetBalance b);
          ourReserve = (if btc then UnitPrec8_ToMsat (ChanReserve (oc_LocalChanCfg st))
                        else ChanReserve (oc_LocalChanCfg st));
          theirReserve = (if btc then UnitPrec8_ToMsat (ChanReserve (oc_RemoteChanCfg st))
                          else ChanReserve (oc_RemoteChanCfg st))
      in if sint ourBtc < 0 then Some ErrBelowChanReserve
         else if sint theirBtc < 0 then Some ErrBelowChanReserve
         else if sless64 feePerKw FeePerKwFloor then Some (ErrFeeBelowFloor feePerKw)
         else if ourAmt < ourInitialBalance \<and> ourAmt < ourReserve then Some ErrBelowChanReserve
         else if theirAmt < theirInitialBalance \<and> theirAmt < theirReserve then Some ErrBelowChanReserve
         else None)"

text \<open>The predicted adds are new descriptors: their numbers are not in the logs.\<close>

definition validateCommitmentSanity :: "LightningChannel \<Rightarrow> u64 \<Rightarrow> u64 \<Rightarrow> bool \<Rightarrow>
    PaymentDescriptor option \<Rightarrow> PaymentDescriptor option \<Rightarrow> chan_error option" where
  "validateCommitmentSanity lc theirLogCounter ourLogCounter remoteChain predictOurAdd predictTheirAdd =
     (if \<exists>pd \<in> set_option predictOurAdd. 0 < sint (pd_AssetAmount pd) \<and> pd_AssetID pd = BtcAssetId
      then Some ErrMissingAssetID
      else if \<exists>pd \<in> set_option predictOurAdd. pd_AssetID pd \<noteq> BtcAssetId then None
      else if \<exists>pd \<in> set_option predictTheirAdd. pd_AssetID pd \<noteq> BtcAssetId then None
      else if \<exists>pd \<in> set_option predictTheirAdd. 0 < sint (pd_AssetAmount pd) \<and> pd_AssetID pd = BtcAssetId
      then Some ErrMissingAssetID
      else
        let view = fetchHTLCView lc theirLogCounter ourLogCounter;
            view = view\<lparr>v_ourUpdates := v_ourUpdates view @
                     map (Pair (ul_next (localUpdateLog lc))) (case predictOurAdd of None \<Rightarrow> [] | Some pd \<Rightarrow> [pd]),
                   v_theirUpdates := v_theirUpdates view @
                     map (Pair (ul_next (remoteUpdateLog lc))) (case predictTheirAdd of None \<Rightarrow> [] | Some pd \<Rightarrow> [pd])\<rparr>
        in case chain_tip (if remoteChain then remoteCommitChain lc else localCommitChain lc) of
             None \<Rightarrow> Some NilPanic
           | Some tip \<Rightarrow>
               (case snd (computeView lc view remoteChain False) of
                  Inl e \<Rightarrow> Some e
                | Inr (b, commitWeight, filteredView) \<Rightarrow>
                    (case validateBalances lc tip b commitWeight (v_feePerKw filteredView) of
                       Some e \<Rightarrow> Some e
                     | None \<Rightarrow>
                         (case validateUpdates (v_theirUpdates filteredView) (oc_RemoteChanCfg (channelState lc)) of
                            Some e \<Rightarrow> Some e
                          | None \<Rightarrow> validateUpdates (v_ourUpdates filteredView)
                                      (oc_LocalChanCfg (channelState lc))))))"

definition validateAddHtlc :: "LightningChannel \<Rightarrow> PaymentDescriptor \<Rightarrow> chan_error option" where
  "validateAddHtlc lc pd =
     (if pd_AssetID pd > BtcAssetId then None
      else if 0 < sint (pd_AssetAmount pd) \<and> pd_AssetID pd = BtcAssetId then Some ErrMissingAssetID
      else case chain_tail (localCommitChain lc) of
             None \<Rightarrow> Some NilPanic
           | Some tail \<Rightarrow>
               (case validateCommitmentSanity lc (c_theirMessageIndex tail) (logIndex (localUpdateLog lc))
                       True (Some pd) None of
                  Some e \<Rightarrow> Some e
                | None \<Rightarrow> validateCommitmentSanity lc (logIndex (remoteUpdateLog lc))
                            (logIndex (localUpdateLog lc)) False (Some pd) None))"

subsection \<open>Adding HTLCs\<close>

definition htlcAddDescriptor :: "LightningChannel \<Rightarrow> UpdateAddHTLC \<Rightarrow> CircuitKey option \<Rightarrow> PaymentDescriptor" where
  "htlcAddDescriptor lc htlc openKey = SetAmtFromMsgHtlc htlc
     (pd_zero\<lparr>EntryType := Add, pd_RHash := ah_PaymentHash htlc, pd_Timeout := ah_Expiry htlc,
        pd_AssetID := ah_AssetID htlc, pd_LogIndex := logIndex (localUpdateLog lc),
        pd_HtlcIndex := htlcCounter (localUpdateLog lc), pd_OnionBlob := ah_OnionBlob htlc,
        pd_OpenCircuitKey := openKey\<rparr>)"

definition AddHTLC :: "LightningChannel \<Rightarrow> UpdateAddHTLC \<Rightarrow> CircuitKey option \<Rightarrow>
    chan_error + u64 \<times> LightningChannel" where
  "AddHTLC lc htlc openKey =
     (let pd = htlcAddDescriptor lc htlc openKey
      in case validateAddHtlc lc pd of
           Some e \<Rightarrow> Inl e
         | None \<Rightarrow> Inr (pd_HtlcIndex pd,
                        lc\<lparr>localUpdateLog := appendHtlc pd (localUpdateLog lc)\<rparr>))"

definition ReceiveHTLC :: "LightningChannel \<Rightarrow> UpdateAddHTLC \<Rightarrow> chan_error + u64 \<times> LightningChannel" where
  "ReceiveHTLC lc htlc =
     (if ah_ID htlc \<noteq> htlcCounter (remoteUpdateLog lc)
      then Inl (ErrHtlcIDMismatch (ah_ID htlc) (htlcCounter (remoteUpdateLog lc)))
      else
        let pd = SetAmtFromMsgHtlc htlc
              (pd_zero\<lparr>EntryType := Add, pd_RHash := ah_PaymentHash htlc, pd_Timeout := ah_Expiry htlc,
                 pd_AssetID := ah_AssetID htlc, pd_LogIndex := logIndex (remoteUpdateLog lc),
                 pd_HtlcIndex := htlcCounter (remoteUpdateLog lc), pd_OnionBlob := ah_OnionBlob htlc\<rparr>)
        in case chain_tail (remoteCommitChain lc) of
             None \<Rightarrow> Inl NilPanic
           | Some tail \<Rightarrow>
               (case validateCommitmentSanity lc (logIndex (remoteUpdateLog lc)) (c_ourMessageIndex tail)
                       False None (Some pd) of
                  Some e \<Rightarrow> Inl e
                | None \<Rightarrow> Inr (pd_HtlcIndex pd,
                             lc\<lparr>remoteUpdateLog := appendHtlc pd (remoteUpdateLog lc)\<rparr>)))"

definition MayAddOutgoingHtlc :: "LightningChannel \<Rightarrow> UnitPrec11 \<Rightarrow> chan_error option" where
  "MayAddOutgoingHtlc lc amt =
     (let mockHtlcAmt = (if amt \<noteq> 0 then amt
                         else if MinHTLC (oc_LocalChanCfg (channelState lc)) \<noteq> 0
                         then MinHTLC (oc_LocalChanCfg (channelState lc))
                         else 1)
      in validateAddHtlc lc (htlcAddDescriptor lc
           (UpdateAddHTLC_zero\<lparr>ah_Amount := mockHtlcAmt, ah_AssetID := oc_AssetID (channelState lc)\<rparr>)
           (Some \<lparr>ck_ChanID = \<lparr>BlockHeight = 0, TxIndex = 0, TxPosition = 0\<rparr>, ck_HtlcID = 0\<rparr>)))"

subsection \<open>Settling and failing HTLCs\<close>

definition SettleHTLC :: "(bytes \<Rightarrow> bytes) \<Rightarrow> LightningChannel \<Rightarrow> bytes \<Rightarrow> u64 \<Rightarrow> AddRef option \<Rightarrow>
    SettleFailRef option \<Rightarrow> CircuitKey option \<Rightarrow> chan_error + LightningChannel" where
  "SettleHTLC sha256 lc preimage htlcIdx sourceRef destRef closeKey =
     (case lookupHtlc (remoteUpdateLog lc) htlcIdx of
        None \<Rightarrow> Inl (ErrUnknownHtlcIndex (oc_ShortChannelID (channelState lc)) htlcIdx)
      | Some htlc \<Rightarrow>
          if htlcHasModification (remoteUpdateLog lc) htlcIdx then Inl (ErrHtlcIndexAlreadySettled htlcIdx)
          else if pd_RHash htlc \<noteq> sha256 preimage then Inl (ErrInvalidSettlePreimage preimage (pd_RHash htlc))
          else Inr (lc\<lparr>localUpdateLog := appendUpdate
                 (pd_zero\<lparr>pd_AssetID := pd_AssetID htlc, pd_AssetAmount := pd_AssetAmount htlc,
                    pd_BtcAmount := pd_BtcAmount htlc, pd_RPreimage := preimage,
                    pd_LogIndex := logIndex (localUpdateLog lc), pd_ParentIndex := htlcIdx,
                    EntryType := Settle, pd_SourceRef := sourceRef, pd_DestRef := destRef,
                    pd_ClosedCircuitKey := closeKey\<rparr>) (localUpdateLog lc),
               remoteUpdateLog := markHtlcModified htlcIdx (remoteUpdateLog lc)\<rparr>))"

definition ReceiveHTLCSettle :: "(bytes \<Rightarrow> bytes) \<Rightarrow> LightningChannel \<Rightarrow> bytes \<Rightarrow> u64 \<Rightarrow>
    chan_error + LightningChannel" where
  "ReceiveHTLCSettle sha256 lc preimage htlcIdx =
     (case lookupHtlc (localUpdateLog lc) htlcIdx of
        None \<Rightarrow> Inl (ErrUnknownHtlcIndex (oc_ShortChannelID (channelState lc)) htlcIdx)
      | Some htlc \<Rightarrow>
          if htlcHasModification (localUpdateLog lc) htlcIdx then Inl (ErrHtlcIndexAlreadySettled htlcIdx)
          else if pd_RHash htlc \<noteq> sha256 preimage then Inl (ErrInvalidSettlePreimage preimage (pd_RHash htlc))
          else Inr (lc\<lparr>remoteUpdateLog := appendUpdate
                 (pd_zero\<lparr>pd_AssetID := pd_AssetID htlc, pd_AssetAmount := pd_AssetAmount htlc,
                    pd_BtcAmount := pd_BtcAmount htlc, pd_RPreimage := preimage,
                    pd_ParentIndex := pd_HtlcIndex htlc, pd_RHash := pd_RHash htlc,
                    pd_LogIndex := logIndex (remoteUpdateLog lc), EntryType := Settle\<rparr>) (remoteUpdateLog lc),
               localUpdateLog := markHtlcModified htlcIdx (localUpdateLog lc)\<rparr>))"

definition FailHTLC :: "LightningChannel \<Rightarrow> u64 \<Rightarrow> bytes \<Rightarrow> AddRef option \<Rightarrow> SettleFailRef option \<Rightarrow>
    CircuitKey option \<Rightarrow> chan_error + LightningChannel" where
  "FailHTLC lc htlcIdx reason sourceRef destRef closeKey =
     (case lookupHtlc (remoteUpdateLog lc) htlcIdx of
        None \<Rightarrow> Inl (ErrUnknownHtlcIndex (oc_ShortChannelID (channelState lc)) htlcIdx)
      | Some htlc \<Rightarrow>
          if htlcHasModification (remoteUpdateLog lc) htlcIdx then Inl (ErrHtlcIndexAlreadyFailed htlcIdx)
          else Inr (lc\<lparr>localUpdateLog := appendUpdate
                 (pd_zero\<lparr>pd_AssetID := pd_AssetID htlc, pd_AssetAmount := pd_AssetAmount htlc,
                    pd_BtcAmount := pd_BtcAmount htlc, pd_RHash := pd_RHash htlc,
                    pd_ParentIndex := htlcIdx, pd_LogIndex := logIndex (localUpdateLog lc),
                    EntryType := Fail, pd_FailReason := reason, pd_SourceRef := sourceRef,
                    pd_DestRef := destRef, pd_ClosedCircuitKey := closeKey\<rparr>) (localUpdateLog lc),
               remoteUpdateLog := markHtlcModified htlcIdx (remoteUpdateLog lc)\<rparr>))"

definition MalformedFailHTLC :: "LightningChannel \<Rightarrow> u64 \<Rightarrow> u16 \<Rightarrow> bytes \<Rightarrow> AddRef option \<Rightarrow>
    chan_error + LightningChannel" where
  "MalformedFailHTLC lc htlcIdx failCode shaOnionBlob sourceRef =
     (case lookupHtlc (remoteUpdateLog lc) htlcIdx of
        None \<Rightarrow> Inl (ErrUnknownHtlcIndex (oc_ShortChannelID (channelState lc)) htlcIdx)
      | Some htlc \<Rightarrow>
          if htlcHasModification (remoteUpdateLog lc) htlcIdx then Inl (ErrHtlcIndexAlreadyFailed htlcIdx)
          else Inr (lc\<lparr>localUpdateLog := appendUpdate
                 (pd_zero\<lparr>pd_AssetID := pd_AssetID htlc, pd_AssetAmount := pd_AssetAmount htlc,
                    pd_BtcAmount := pd_BtcAmount htlc, pd_RHash := pd_RHash htlc,
                    pd_ParentIndex := htlcIdx, pd_LogIndex := logIndex (localUpdateLog lc),
                    EntryType := MalformedFail, pd_FailCode := failCode, pd_ShaOnionBlob := shaOnionBlob,
                    pd_SourceRef := sourceRef\<rparr>) (localUpdateLog lc),
               remoteUpdateLog := markHtlcModified htlcIdx (remoteUpdateLog lc)\<rparr>))"

definition ReceiveFailHTLC :: "LightningChannel \<Rightarrow> u64 \<Rightarrow> bytes \<Rightarrow> chan_error + LightningChannel" where
  "ReceiveFailHTLC lc htlcIdx reason =
     (case lookupHtlc (localUpdateLog lc) htlcIdx of
        None \<Rightarrow> Inl (ErrUnknownHtlcIndex (oc_ShortChannelID (channelState lc)) htlcIdx)
      | Some htlc \<Rightarrow>
          if htlcHasModification (localUpdateLog lc) htlcIdx then Inl (ErrHtlcIndexAlreadyFailed htlcIdx)
          else Inr (lc\<lparr>remoteUpdateLog := appendUpdate
                 (pd_zero\<lparr>pd_AssetID := pd_AssetID htlc, pd_AssetAmount := pd_AssetAmount htlc,
                    pd_BtcAmount := pd_BtcAmount htlc, pd_RHash := pd_RHash htlc,
                    pd_ParentIndex := pd_HtlcIndex htlc, pd_LogIndex := logIndex (remoteUpdateLog lc),
                    EntryType := Fail, pd_FailReason := reason\<rparr>) (remoteUpdateLog lc),
               localUpdateLog := markHtlcModified htlcIdx (localUpdateLog lc)\<rparr>))"

subsection \<open>Available balance and fee updates\<close>

definition availableCommitmentBalance :: "LightningChannel \<Rightarrow> htlcView \<Rightarrow> bool \<Rightarrow> UnitPrec11 \<times> int64" where
  "availableCommitmentBalance lc view remoteChain =
     (case snd (computeView lc view remoteChain False) of
        Inl e \<Rightarrow> (0, 0)
      | Inr (b, commitWeight, filteredView) \<Rightarrow>
          (let st = channelState lc;
               btc = (oc_AssetID st = BtcAssetId);
               ourReserve = (if btc then UnitPrec8_ToMsat (ChanReserve (oc_LocalChanCfg st))
                             else ChanReserve (oc_LocalChanCfg st));
               ourAmt = (if btc then ourBtcBalance b else ourAssetBalance b);
               theirAmt = (if btc then theirBtcBalance b else theirAssetBalance b);
               ourAmt = (if ourReserve \<le> ourAmt then ourAmt - ourReserve else 0);
               feePerKw = v_feePerKw filteredView;
               htlcCommitFee = NewMSatFromSatoshis (FeeForWeight feePerKw (commitWeight + HTLCWeight))
           in if oc_IsInitiator st
              then (if btc
                    then (if ourAmt < htlcCommitFee then (0, commitWeight)
                          else (ourAmt - htlcCommitFee, commitWeight))
                    else (ourAmt, commitWeight))
              else
                let theirReserve = (if btc then UnitPrec8_ToMsat (ChanReserve (oc_RemoteChanCfg st))
                                    else ChanReserve (oc_RemoteChanCfg st));
                    theirAmt = (if theirReserve \<le> theirAmt then theirAmt - theirReserve else 0);
                    dustlimit = DustLimit (if remoteChain then oc_RemoteChanCfg st else oc_LocalChanCfg st);
                    htlcFee = NewMSatFromSatoshis
                      (if remoteChain then HtlcSuccessFee (oc_ChanType st) feePerKw
                       else HtlcTimeoutFee (oc_ChanType st) feePerKw);
                    nonDustHtlcAmt = NewMSatFromSatoshis dustlimit + htlcFee
                in (if btc \<and> theirAmt < htlcCommitFee \<and> ourAmt \<ge> nonDustHtlcAmt
                    then nonDustHtlcAmt - 1 else ourAmt, commitWeight)))"

definition availableBalance :: "LightningChannel \<Rightarrow> (UnitPrec11 \<times> int64) option" where
  "availableBalance lc =
     (case chain_tip (localCommitChain lc) of
        None \<Rightarrow> None
      | Some tip \<Rightarrow>
          (let view = fetchHTLCView lc (c_theirMessageIndex tip) (logIndex (localUpdateLog lc));
               (ourLocalCommitBalance, commitWeight) = availableCommitmentBalance lc view False;
               (ourRemoteCommitBalance, w) = availableCommitmentBalance lc view True
           in Some (if ourRemoteCommitBalance < ourLocalCommitBalance
                    then (ourRemoteCommitBalance, commitWeight)
                    else (ourLocalCommitBalance, commitWeight))))"

definition validateFeeRate :: "LightningChannel \<Rightarrow> SatPerKWeight \<Rightarrow> chan_error option" where
  "validateFeeRate lc feePerKw =
     (if oc_AssetID (channelState lc) > BtcAssetId then None
      else case (availableBalance lc, chain_tip (localCommitChain lc)) of
             (Some (balance, txWeight), Some tip) \<Rightarrow>
               (let oldFee = NewMSatFromSatoshis (FeeForWeight (c_feePerKw tip) txWeight);
                    baseBalance = balance + oldFee;
                    newFee = NewMSatFromSatoshis (FeeForWeight feePerKw txWeight)
                in if newFee > baseBalance then Some (ErrFeeTooHigh feePerKw) else None)
           | _ \<Rightarrow> Some NilPanic)"

definition UpdateFeeOp :: "LightningChannel \<Rightarrow> SatPerKWeight \<Rightarrow> chan_error + LightningChannel" where
  "UpdateFeeOp lc feePerKw =
     (if \<not> oc_IsInitiator (channelState lc) then Inl ErrLocalFeeUpdateNonInitiator
      else case validateFeeRate lc feePerKw of
             Some e \<Rightarrow> Inl e
           | None \<Rightarrow> Inr (lc\<lparr>localUpdateLog := appendUpdate
                 (pd_zero\<lparr>pd_LogIndex := logIndex (localUpdateLog lc),
                    pd_BtcAmount := NewMSatFromSatoshis feePerKw, EntryType := FeeUpdate,
                    pd_AssetID := oc_AssetID (channelState lc)\<rparr>) (localUpdateLog lc)\<rparr>))"

definition ReceiveUpdateFee :: "LightningChannel \<Rightarrow> SatPerKWeight \<Rightarrow> chan_error + LightningChannel" where
  "ReceiveUpdateFee lc feePerKw =
     (if oc_IsInitiator (channelState lc) then Inl ErrRemoteFeeUpdateInitiator
      else Inr (lc\<lparr>remoteUpdateLog := appendUpdate
             (pd_zero\<lparr>pd_LogIndex := logIndex (remoteUpdateLog lc),
                pd_BtcAmount := NewMSatFromSatoshis feePerKw, EntryType := FeeUpdate,
                pd_AssetID := oc_AssetID (channelState lc)\<rparr>) (remoteUpdateLog lc)\<rparr>))"

subsection \<open>Dust exposure\<close>

definition GetDustSum :: "LightningChannel \<Rightarrow> bool \<Rightarrow> MilliSatoshi" where
  "GetDustSum lc remote =
     (let st = channelState lc;
          dustLimit = DustLimit (if remote then oc_RemoteChanCfg st else oc_LocalChanCfg st);
          feeRate = (if remote then oc_RemoteFeePerKw st else oc_LocalFeePerKw st);
          dust = (\<lambda>incoming es. \<Sum>e\<leftarrow>es.
            if EntryType (snd e) = Add \<and>
               HtlcIsDust (oc_ChanType st) incoming (\<not> remote) feeRate
                 (MilliSatoshi_ToSatoshis (pd_BtcAmount (snd e))) dustLimit (pd_AssetID (snd e))
            then pd_BtcAmount (snd e) else 0)
      in dust False (ul_List (localUpdateLog lc)) + dust True (ul_List (remoteUpdateLog lc)))"

subsection \<open>Owed commitments\<close>

definition oweCommitment :: "LightningChannel \<Rightarrow> bool \<Rightarrow> bool option" where
  "oweCommitment lc local =
     (case (chain_tip (localCommitChain lc), chain_tip (remoteCommitChain lc)) of
        (Some lastLocalCommit, Some lastRemoteCommit) \<Rightarrow> Some (
          if local
          then logIndex (localUpdateLog lc) \<noteq> c_ourMessageIndex lastRemoteCommit \<or>
               c_theirMessageIndex lastLocalCommit \<noteq> c_theirMessageIndex lastRemoteCommit
          else logIndex (remoteUpdateLog lc) \<noteq> c_theirMessageIndex lastLocalCommit \<or>
               c_ourMessageIndex lastRemoteCommit \<noteq> c_ourMessageIndex lastLocalCommit)
      | _ \<Rightarrow> None)"

definition PendingLocalUpdateCount :: "LightningChannel \<Rightarrow> u64 option" where
  "PendingLocalUpdateCount lc =
     map_option (\<lambda>tip. logIndex (localUpdateLog lc) - c_ourMessageIndex tip)
       (chain_tip (remoteCommitChain lc))"

end
