(* ===== verification/Lnwallet_Invariant.thy ===== *)
theory Lnwallet_Invariant
  imports Lnwallet_Conserve Lnwallet_Channel
begin

text \<open>
  The operations of a channel keep the invariant of its update logs.  The five operations that
  settle or fail an HTLC share a contract, the locale \<open>htlc_removal\<close>; its lemmas are proved once
  and interpreted for each of them.
\<close>

subsection \<open>Two logs\<close>

definition pair_inv :: "updateLog \<Rightarrow> updateLog \<Rightarrow> bool" where
  "pair_inv A B \<longleftrightarrow> log_inv A \<and> log_inv B \<and> removes_ok A B \<and> removes_ok B A"

lemma chan_inv_pair: "chan_inv lc \<longleftrightarrow> pair_inv (localUpdateLog lc) (remoteUpdateLog lc)"
  by (simp add: chan_inv_def pair_inv_def)

lemma pair_inv_sym: "pair_inv A B \<longleftrightarrow> pair_inv B A"
  by (auto simp: pair_inv_def)

lemma pair_inv_logOf: "chan_inv lc \<longleftrightarrow> pair_inv (logOf ours lc) (logOf (\<not> ours) lc)"
  by (cases ours) (simp_all add: chan_inv_pair pair_inv_sym)

text \<open>\<open>removes_ok\<close> reads the removals of one log and the HTLCs of the other.\<close>

lemma parentsOf_alt: "parentsOf es = (\<lambda>e. pd_ParentIndex (snd e)) ` {e \<in> set es. isRemove (snd e)}"
  by (force simp: parentsOf_def)

lemma removes_ok_cong:
  assumes "removes_ok A B"
    and "{e \<in> set (ul_List A'). isRemove (snd e)} = {e \<in> set (ul_List A). isRemove (snd e)}"
    and "\<And>i q. lookupHtlc B i = Some q \<Longrightarrow> lookupHtlc B' i = Some q"
    and "modifiedHtlcs B' = modifiedHtlcs B"
  shows "removes_ok A' B'"
proof -
  have mem: "(k, p) \<in> set (ul_List A') \<and> isRemove p \<longleftrightarrow> (k, p) \<in> set (ul_List A) \<and> isRemove p" for k p
    using assms(2) by (auto simp: set_eq_iff)
  show ?thesis
  proof (rule removes_okI)
    fix k p assume "(k, p) \<in> set (ul_List A')" "isRemove p"
    then show "\<exists>q. lookupHtlc B' (pd_ParentIndex p) = Some q \<and> pd_BtcAmount q = pd_BtcAmount p \<and>
        pd_AssetAmount q = pd_AssetAmount p \<and> (\<forall>rc. removeHeight rc p \<noteq> 0 \<longrightarrow> addHeight rc q \<noteq> 0)"
      using removes_okD(1) [OF assms(1), of k p] mem [of k p] assms(3) by blast
  next
    fix k p k' p'
    assume "(k, p) \<in> set (ul_List A')" "(k', p') \<in> set (ul_List A')" "isRemove p" "isRemove p'"
      "pd_ParentIndex p = pd_ParentIndex p'"
    then show "k = k'" using removes_okD(2) [OF assms(1), of k p k' p'] mem [of k p] mem [of k' p'] by blast
  qed (simp add: assms(4) removes_okD(3) [OF assms(1)] parentsOf_alt assms(2))
qed

lemma lookupHtlc_appendHtlc:
  assumes "log_inv u" "EntryType pd = Add" "pd_HtlcIndex pd = htlcCounter u"
  shows "lookupHtlc u i = Some q \<Longrightarrow> lookupHtlc (appendHtlc pd u) i = Some q"
proof -
  assume q: "lookupHtlc u i = Some q"
  then obtain k where k: "(k, q) \<in> set (ul_List u)" "EntryType q = Add" "pd_HtlcIndex q = i"
    using lookupHtlc_iff [OF assms(1)] by blast
  then have "i \<noteq> htlcCounter u" using log_htlc_bounds [OF assms(1) k(1)] by auto
  with q show ?thesis
    by (auto simp: lookupHtlc_def appendHtlc_def pushBack_def map_add_def split: option.splits)
qed

lemma lookupHtlc_appendUpdate:
  "lookupHtlc u i = Some q \<Longrightarrow> lookupHtlc (appendUpdate pd u) i = Some q"
  by (auto simp: lookupHtlc_def appendUpdate_def pushBack_def map_add_def split: option.splits)

lemma lookupHtlc_mark [simp]: "lookupHtlc (markHtlcModified i u) j = lookupHtlc u j"
  by (simp add: lookupHtlc_def markHtlcModified_def split: option.split)

definition has_room :: "updateLog \<Rightarrow> bool" where
  "has_room u \<longleftrightarrow> logIndex u \<noteq> - 1 \<and> htlcCounter u \<noteq> - 1"

lemma pair_inv_appendHtlc:
  assumes inv: "pair_inv A B" and "has_room A"
    and pd: "EntryType pd = Add" "pd_LogIndex pd = logIndex A" "pd_HtlcIndex pd = htlcCounter A"
  shows "pair_inv (appendHtlc pd A) B"
proof -
  have "log_inv A" and AB: "removes_ok A B" and BA: "removes_ok B A" using inv by (simp_all add: pair_inv_def)
  then have "log_inv (appendHtlc pd A)"
    using assms by (intro log_inv_appendHtlc) (simp_all add: has_room_def)
  moreover have "removes_ok (appendHtlc pd A) B"
    using pd(1) by (intro removes_ok_cong [OF AB]) (auto simp: appendHtlc_def pushBack_def isRemove_def)
  moreover have "removes_ok B (appendHtlc pd A)"
    using lookupHtlc_appendHtlc [OF \<open>log_inv A\<close> pd(1,3)]
    by (intro removes_ok_cong [OF BA]) (auto simp: appendHtlc_def pushBack_def)
  ultimately show ?thesis using inv by (simp add: pair_inv_def)
qed

lemma pair_inv_appendFee:
  assumes inv: "pair_inv A B" and "has_room A"
    and pd: "EntryType pd = FeeUpdate" "pd_LogIndex pd = logIndex A"
  shows "pair_inv (appendUpdate pd A) B"
proof -
  have AB: "removes_ok A B" and BA: "removes_ok B A" using inv by (simp_all add: pair_inv_def)
  have "log_inv (appendUpdate pd A)"
    using assms by (intro log_inv_appendUpdate) (simp_all add: has_room_def pair_inv_def)
  moreover have "removes_ok (appendUpdate pd A) B"
    using pd(1) by (intro removes_ok_cong [OF AB]) (auto simp: appendUpdate_def pushBack_def isRemove_def)
  moreover have "removes_ok B (appendUpdate pd A)"
    by (rule removes_ok_cong [OF BA _ lookupHtlc_appendUpdate]) (simp_all add: appendUpdate_def pushBack_def)
  ultimately show ?thesis using inv by (simp add: pair_inv_def)
qed

lemma parentsOf_append [simp]: "parentsOf (es @ es') = parentsOf es \<union> parentsOf es'"
  by (auto simp: parentsOf_def)

lemma pair_inv_appendRemove:
  assumes inv: "pair_inv A B" and "has_room A"
    and q: "lookupHtlc B i = Some q" "i \<notin> modifiedHtlcs B"
    and pd: "isRemove pd" "pd_LogIndex pd = logIndex A" "pd_ParentIndex pd = i"
      "pd_BtcAmount pd = pd_BtcAmount q" "pd_AssetAmount pd = pd_AssetAmount q" "\<And>rc. removeHeight rc pd = 0"
  shows "pair_inv (appendUpdate pd A) (markHtlcModified i B)"
proof -
  have A: "log_inv A" and B: "log_inv B" and AB: "removes_ok A B" and BA: "removes_ok B A"
    using inv by (simp_all add: pair_inv_def)
  have nadd: "EntryType pd \<noteq> Add" using pd(1) by (auto simp: isRemove_def)
  have "log_inv (appendUpdate pd A)"
    using assms nadd by (intro log_inv_appendUpdate) (simp_all add: has_room_def pair_inv_def)
  moreover have "log_inv (markHtlcModified i B)"
    using q(1) lookupHtlc_dom [OF B, of i] by (intro log_inv_mark [OF B]) simp
  moreover have "removes_ok B (appendUpdate pd A)"
    by (rule removes_ok_cong [OF BA _ lookupHtlc_appendUpdate]) (simp_all add: appendUpdate_def pushBack_def)
  then have "removes_ok (markHtlcModified i B) (appendUpdate pd A)"
    by (rule removes_ok_cong) (auto simp: markHtlcModified_def)
  moreover have "removes_ok (appendUpdate pd A) (markHtlcModified i B)"
  proof -
    have list: "ul_List (appendUpdate pd A) = ul_List A @ [(ul_next A, pd)]"
      by (simp add: appendUpdate_def pushBack_def)
    have new: "pd_ParentIndex p \<noteq> i" if "(k, p) \<in> set (ul_List A)" "isRemove p" for k p
      using that q(2) removes_okD(3) [OF AB] by (force simp: parentsOf_def)
    show ?thesis
    proof (rule removes_okI)
      fix k p assume kp: "(k, p) \<in> set (ul_List (appendUpdate pd A))" "isRemove p"
      show "\<exists>q. lookupHtlc (markHtlcModified i B) (pd_ParentIndex p) = Some q \<and> pd_BtcAmount q = pd_BtcAmount p \<and>
          pd_AssetAmount q = pd_AssetAmount p \<and> (\<forall>rc. removeHeight rc p \<noteq> 0 \<longrightarrow> addHeight rc q \<noteq> 0)"
      proof (cases "p = pd")
        case False
        then show ?thesis using kp removes_okD(1) [OF AB, of k p] by (simp add: list)
      qed (use q(1) pd in simp)
    next
      fix k p k' p'
      assume "(k, p) \<in> set (ul_List (appendUpdate pd A))" "(k', p') \<in> set (ul_List (appendUpdate pd A))"
        "isRemove p" "isRemove p'" "pd_ParentIndex p = pd_ParentIndex p'"
      then show "k = k'"
        using removes_okD(2) [OF AB, of k p k' p'] new [of k p] new [of k' p'] pd(3) by (auto simp: list)
    qed (use removes_okD(3) [OF AB] pd(1,3) in \<open>simp add: list markHtlcModified_def\<close>)
  qed
  ultimately show ?thesis by (simp add: pair_inv_def)
qed

subsection \<open>Compaction\<close>

lemma option_eqI: "(\<And>x. a = Some x \<longleftrightarrow> b = Some x) \<Longrightarrow> a = b"
  by (cases a; cases b) auto

lemma removeUpdate_elem:
  assumes A: "log_inv A" and p: "(k, p) \<in> set (ul_List A)" "EntryType p \<noteq> Add"
  obtains A' where "removeUpdate (pd_LogIndex p) A = Some A'" "log_inv A'"
    "ul_List A' = filter (\<lambda>e. fst e \<noteq> k) (ul_List A)" "modifiedHtlcs A' = modifiedHtlcs A"
    "\<And>i. lookupHtlc A' i = lookupHtlc A i"
proof -
  have "updateIndex A (pd_LogIndex p) = Some k" unfolding log_updateIndex [OF A] using p by blast
  then obtain A' where A': "removeUpdate (pd_LogIndex p) A = Some A'"
    "ul_List A' = filter (\<lambda>e. fst e \<noteq> k) (ul_List A)" "modifiedHtlcs A' = modifiedHtlcs A"
    by (simp add: removeUpdate_def removeElem_def)
  have inv: "log_inv A'" by (rule log_inv_removeUpdate [OF A A'(1)])
  have "lookupHtlc A' i = lookupHtlc A i" for i
    using elem_unique [OF A p(1)] p(2)
    by (intro option_eqI) (auto simp: lookupHtlc_iff [OF A] lookupHtlc_iff [OF inv] A'(2))
  then show thesis using that A' inv by blast
qed

lemma removeHtlc_elem:
  assumes B: "log_inv B" and q: "lookupHtlc B i = Some q"
  obtains j B' where "(j, q) \<in> set (ul_List B)" "EntryType q = Add" "removeHtlc i B = Some B'" "log_inv B'"
    "ul_List B' = filter (\<lambda>e. fst e \<noteq> j) (ul_List B)" "modifiedHtlcs B' = modifiedHtlcs B - {i}"
    "\<And>x. x \<noteq> i \<Longrightarrow> lookupHtlc B' x = lookupHtlc B x" "lookupHtlc B' i = None"
proof -
  obtain j where j: "(j, q) \<in> set (ul_List B)" "EntryType q = Add" "pd_HtlcIndex q = i"
    using q lookupHtlc_iff [OF B] by blast
  then have "htlcIndex B i = Some j" unfolding log_htlcIndex [OF B] by blast
  then obtain B' where B': "removeHtlc i B = Some B'"
    "ul_List B' = filter (\<lambda>e. fst e \<noteq> j) (ul_List B)" "modifiedHtlcs B' = modifiedHtlcs B - {i}"
    by (simp add: removeHtlc_def removeElem_def)
  have inv: "log_inv B'" by (rule log_inv_removeHtlc [OF B B'(1)])
  have "lookupHtlc B' x = lookupHtlc B x" if "x \<noteq> i" for x
    using elem_unique [OF B j(1)] j(3) that
    by (intro option_eqI) (auto simp: lookupHtlc_iff [OF B] lookupHtlc_iff [OF inv] B'(2))
  moreover have "lookupHtlc B' i = None"
    using B'(1) by (auto simp: removeHtlc_def lookupHtlc_def split: option.splits)
  ultimately show thesis using that j(1,2) B' inv by blast
qed

lemma sumOf_remove:
  assumes "distinct (map fst es)" "(k, p) \<in> set es"
  shows "sumOf f P (filter (\<lambda>e. fst e \<noteq> k) es) = sumOf f P es - (if P p then f p else 0)"
  using assms
proof (induction es)
  case (Cons e es)
  show ?case
  proof (cases "fst e = k")
    case True
    then have "k \<notin> fst ` set es" using Cons.prems(1) by simp
    then have "(k, p) \<notin> set es" by (metis fst_conv image_eqI)
    then have "e = (k, p)" using Cons.prems(2) by auto
    moreover have "filter (\<lambda>e. fst e \<noteq> k) es = es"
      using Cons.prems(1) True by (intro filter_True) (auto simp: image_iff)
    ultimately show ?thesis using True by simp
  next
    case False
    then show ?thesis using Cons by auto
  qed
qed simp

definition pairFlight :: "(PaymentDescriptor \<Rightarrow> u64) \<Rightarrow> bool \<Rightarrow> updateLog \<Rightarrow> updateLog \<Rightarrow> u64" where
  "pairFlight f rc A B = offered f rc A B + offered f rc B A"

lemma inFlight_pair: "inFlight f rc lc = pairFlight f rc (logOf ours lc) (logOf (\<not> ours) lc)"
  by (cases ours) (simp_all add: inFlight_def pairFlight_def add.commute)

lemma pairFlight_eq:
  assumes "pair_inv A B" "isAmount f"
  shows "pairFlight f rc A B = sumOf f (committedAdd rc) (ul_List A) + sumOf f (committedAdd rc) (ul_List B) -
    (sumOf f (committedRemove rc) (ul_List A) + sumOf f (committedRemove rc) (ul_List B))"
  using committed_split [of A B f rc] committed_split [of B A f rc] assms
  by (simp add: pairFlight_def pair_inv_def algebra_simps)

subsection \<open>The table of HTLCs\<close>

text \<open>
  What a log says about the HTLCs offered in it: their amounts, and whether they are open or
  have been settled or failed by an entry of the other log.
\<close>

datatype htlc_status = Open | Resolving

type_synonym htlc_table = "u64 \<rightharpoonup> MilliSatoshi \<times> Amount \<times> htlc_status"

definition table :: "updateLog \<Rightarrow> htlc_table" where
  "table u = (\<lambda>i. map_option (\<lambda>q. (pd_BtcAmount q, pd_AssetAmount q,
     if i \<in> modifiedHtlcs u then Resolving else Open)) (lookupHtlc u i))"

text \<open>Collection drops HTLCs from the table, and only resolving ones.\<close>

definition collects :: "htlc_table \<Rightarrow> htlc_table \<Rightarrow> bool" where
  "collects T T' \<longleftrightarrow> (\<forall>i. T' i = T i \<or> T' i = None \<and> (\<exists>a b. T i = Some (a, b, Resolving)))"

lemma collects_refl [simp]: "collects T T"
  by (simp add: collects_def)

lemma collects_trans: "collects T T' \<Longrightarrow> collects T' T'' \<Longrightarrow> collects T T''"
  unfolding collects_def by metis

lemma collects_cong:
  "(\<And>i. lookupHtlc A' i = lookupHtlc A i) \<Longrightarrow> modifiedHtlcs A' = modifiedHtlcs A \<Longrightarrow> collects (table A) (table A')"
  by (simp add: collects_def table_def)

lemma collects_remove:
  assumes "\<And>x. x \<noteq> i \<Longrightarrow> lookupHtlc B' x = lookupHtlc B x" "modifiedHtlcs B' = modifiedHtlcs B - {i}"
    "lookupHtlc B i = Some q" "i \<in> modifiedHtlcs B" "lookupHtlc B' i = None"
  shows "collects (table B) (table B')"
  unfolding collects_def
proof
  fix x
  show "table B' x = table B x \<or> table B' x = None \<and> (\<exists>a b. table B x = Some (a, b, Resolving))"
    using assms by (cases "x = i") (simp_all add: table_def)
qed

lemma pair_inv_removePair:
  assumes inv: "pair_inv A B" and p: "(k, p) \<in> set (ul_List A)" "isRemove p"
  obtains A' B' where "removeUpdate (pd_LogIndex p) A = Some A'" "removeHtlc (pd_ParentIndex p) B = Some B'"
    "pair_inv A' B'" "ul_List A' = filter (\<lambda>e. fst e \<noteq> k) (ul_List A)"
    "\<And>f rc. isAmount f \<Longrightarrow> removeHeight rc p \<noteq> 0 \<Longrightarrow> pairFlight f rc A' B' = pairFlight f rc A B"
    "collects (table A) (table A')" "collects (table B) (table B')"
proof -
  have A: "log_inv A" and B: "log_inv B" and AB: "removes_ok A B" and BA: "removes_ok B A"
    using inv by (simp_all add: pair_inv_def)
  have nadd: "EntryType p \<noteq> Add" using p(2) by (auto simp: isRemove_def)
  obtain A' where A': "removeUpdate (pd_LogIndex p) A = Some A'" "log_inv A'"
    "ul_List A' = filter (\<lambda>e. fst e \<noteq> k) (ul_List A)" "modifiedHtlcs A' = modifiedHtlcs A"
    "\<And>i. lookupHtlc A' i = lookupHtlc A i"
    using removeUpdate_elem [OF A p(1) nadd] by blast
  obtain q where q: "lookupHtlc B (pd_ParentIndex p) = Some q" "pd_BtcAmount q = pd_BtcAmount p"
    "pd_AssetAmount q = pd_AssetAmount p" "\<And>rc. removeHeight rc p \<noteq> 0 \<Longrightarrow> addHeight rc q \<noteq> 0"
    using removes_okD(1) [OF AB p] by blast
  obtain j B' where B': "(j, q) \<in> set (ul_List B)" "EntryType q = Add" "removeHtlc (pd_ParentIndex p) B = Some B'"
    "log_inv B'" "ul_List B' = filter (\<lambda>e. fst e \<noteq> j) (ul_List B)"
    "modifiedHtlcs B' = modifiedHtlcs B - {pd_ParentIndex p}"
    "\<And>x. x \<noteq> pd_ParentIndex p \<Longrightarrow> lookupHtlc B' x = lookupHtlc B x" "lookupHtlc B' (pd_ParentIndex p) = None"
    using removeHtlc_elem [OF B q(1)] by blast
  have other: "pd_ParentIndex r \<noteq> pd_ParentIndex p" if "(l, r) \<in> set (ul_List A)" "l \<noteq> k" "isRemove r" for l r
    using removes_okD(2) [OF AB that(1) p(1) that(3) p(2)] that(2) by blast
  have "removes_ok A' B'"
  proof (rule removes_okI)
    fix l r assume r: "(l, r) \<in> set (ul_List A')" "isRemove r"
    then show "\<exists>q. lookupHtlc B' (pd_ParentIndex r) = Some q \<and> pd_BtcAmount q = pd_BtcAmount r \<and>
        pd_AssetAmount q = pd_AssetAmount r \<and> (\<forall>rc. removeHeight rc r \<noteq> 0 \<longrightarrow> addHeight rc q \<noteq> 0)"
      using removes_okD(1) [OF AB, of l r] other [of l r] B'(7) by (simp add: A'(3))
  next
    fix l r l' r'
    assume "(l, r) \<in> set (ul_List A')" "(l', r') \<in> set (ul_List A')" "isRemove r" "isRemove r'"
      "pd_ParentIndex r = pd_ParentIndex r'"
    then show "l = l'" using removes_okD(2) [OF AB, of l r l' r'] by (simp add: A'(3))
  next
    have "parentsOf (ul_List A) - {pd_ParentIndex p} = parentsOf (ul_List A')"
      using other elem_unique [OF A p(1)] by (auto simp: parentsOf_alt A'(3) image_iff)
    then show "modifiedHtlcs B' = parentsOf (ul_List A')" by (simp add: B'(6) removes_okD(3) [OF AB])
  qed
  moreover have "removes_ok B' A'"
    using elem_unique [OF B B'(1)] B'(2)
    by (intro removes_ok_cong [OF BA]) (auto simp: B'(5) A'(4,5) isRemove_def)
  ultimately have inv': "pair_inv A' B'" using A'(2) B'(4) by (simp add: pair_inv_def)
  have "pairFlight f rc A' B' = pairFlight f rc A B" if f: "isAmount f" and h: "removeHeight rc p \<noteq> 0" for f rc
  proof -
    have "f q = f p" using f q(2,3) by (auto simp: isAmount_def)
    then show ?thesis
      unfolding pairFlight_eq [OF inv f] pairFlight_eq [OF inv' f] A'(3) B'(5)
        sumOf_remove [OF log_distinct [OF A] p(1)] sumOf_remove [OF log_distinct [OF B] B'(1)]
      using p(2) nadd B'(2) q(4) [OF h] h by (simp add: committedAdd_def committedRemove_def isRemove_def)
  qed
  moreover have "collects (table A) (table A')" by (rule collects_cong [OF A'(5,4)])
  moreover have md: "pd_ParentIndex p \<in> modifiedHtlcs B"
    using removes_okD(3) [OF AB] p by (force simp: parentsOf_def)
  have "collects (table B) (table B')"
    by (rule collects_remove [OF _ B'(6) q(1) md B'(8)]) (rule B'(7))
  ultimately show thesis using that A'(1,3) B'(3) inv' by blast
qed

text \<open>What a round of the loop collects: entries committed on both chains, up to their tails.\<close>

definition collected :: "u64 \<Rightarrow> u64 \<Rightarrow> PaymentDescriptor \<Rightarrow> bool" where
  "collected lt rt p \<longleftrightarrow> EntryType p \<noteq> Add \<and> removeHeight True p \<noteq> 0 \<and> removeHeight False p \<noteq> 0 \<and>
     removeHeight True p \<le> rt \<and> removeHeight False p \<le> lt"

lemma compactStep_ok:
  assumes inv: "pair_inv A B" and p: "(k, p) \<in> set (ul_List A)"
  obtains A' B' where "compactStep lt rt p (A, B) = Some (A', B')" "pair_inv A' B'"
    "ul_List A' = (if collected lt rt p then filter (\<lambda>e. fst e \<noteq> k) (ul_List A) else ul_List A)"
    "\<And>f rc. isAmount f \<Longrightarrow> pairFlight f rc A' B' = pairFlight f rc A B"
    "collects (table A) (table A')" "collects (table B) (table B')"
proof (cases "collected lt rt p")
  case False
  then have "compactStep lt rt p (A, B) = Some (A, B)"
    by (auto simp: compactStep_def collected_def removeHeight_def)
  then show thesis using that inv False by simp
next
  case True
  then have nadd: "EntryType p \<noteq> Add" by (simp add: collected_def)
  have h: "removeHeight rc p \<noteq> 0" for rc using True by (cases rc) (simp_all add: collected_def)
  have step: "compactStep lt rt p (A, B) = (case removeUpdate (pd_LogIndex p) A of None \<Rightarrow> None
      | Some A' \<Rightarrow> if EntryType p = FeeUpdate then Some (A', B)
          else (case removeHtlc (pd_ParentIndex p) B of None \<Rightarrow> None | Some B' \<Rightarrow> Some (A', B')))"
    using True by (simp add: compactStep_def collected_def removeHeight_def)
  show thesis
  proof (cases "EntryType p = FeeUpdate")
    case fee: True
    obtain A' where A': "removeUpdate (pd_LogIndex p) A = Some A'" "log_inv A'"
      "ul_List A' = filter (\<lambda>e. fst e \<noteq> k) (ul_List A)" "modifiedHtlcs A' = modifiedHtlcs A"
      "\<And>i. lookupHtlc A' i = lookupHtlc A i"
      using removeUpdate_elem [OF _ p nadd] inv unfolding pair_inv_def by blast
    have AB: "removes_ok A B" and BA: "removes_ok B A" and A: "log_inv A" using inv by (simp_all add: pair_inv_def)
    have "removes_ok A' B" using elem_unique [OF A p] fee
      by (intro removes_ok_cong [OF AB]) (auto simp: A'(3) isRemove_def)
    moreover have "removes_ok B A'" by (rule removes_ok_cong [OF BA]) (simp_all add: A'(4,5))
    ultimately have inv': "pair_inv A' B" using inv A'(2) by (simp add: pair_inv_def)
    have "pairFlight f rc A' B = pairFlight f rc A B" if "isAmount f" for f rc
      unfolding pairFlight_eq [OF inv that] pairFlight_eq [OF inv' that] A'(3) sumOf_remove [OF log_distinct [OF A] p]
      using fee by (simp add: committedAdd_def committedRemove_def isRemove_def)
    then show thesis using that [of A' B] step A'(1,3) inv' fee True collects_cong [OF A'(5,4)] by simp
  next
    case False
    then have "isRemove p" using nadd by (cases "EntryType p") (auto simp: isRemove_def)
    then obtain A' B' where "removeUpdate (pd_LogIndex p) A = Some A'" "removeHtlc (pd_ParentIndex p) B = Some B'"
      "pair_inv A' B'" "ul_List A' = filter (\<lambda>e. fst e \<noteq> k) (ul_List A)"
      "\<And>f rc. isAmount f \<Longrightarrow> pairFlight f rc A' B' = pairFlight f rc A B"
      "collects (table A) (table A')" "collects (table B) (table B')"
      using pair_inv_removePair [OF inv p] h by metis
    then show thesis using that [of A' B'] step False True by simp
  qed
qed

lemma compactLoop_ok:
  assumes "pair_inv A B" "set es \<subseteq> set (ul_List A)" "distinct (map fst es)"
  shows "\<exists>A' B'. compactLoop lt rt es (A, B) = Some (A', B') \<and> pair_inv A' B' \<and>
    (\<forall>f rc. isAmount f \<longrightarrow> pairFlight f rc A' B' = pairFlight f rc A B) \<and>
    collects (table A) (table A') \<and> collects (table B) (table B') \<and>
    set (ul_List A') = set (ul_List A) - {e \<in> set es. collected lt rt (snd e)}"
  using assms
proof (induction es arbitrary: A B)
  case (Cons e es)
  obtain k p where e: "e = (k, p)" by (cases e)
  have p: "(k, p) \<in> set (ul_List A)" using Cons.prems(2) e by simp
  obtain A1 B1 where one: "compactStep lt rt p (A, B) = Some (A1, B1)" "pair_inv A1 B1"
    "ul_List A1 = (if collected lt rt p then filter (\<lambda>e. fst e \<noteq> k) (ul_List A) else ul_List A)"
    "\<And>f rc. isAmount f \<Longrightarrow> pairFlight f rc A1 B1 = pairFlight f rc A B"
    "collects (table A) (table A1)" "collects (table B) (table B1)"
    using compactStep_ok [OF Cons.prems(1) p, of lt rt] by blast
  have k: "k \<notin> fst ` set es" using Cons.prems(3) e by simp
  have "log_inv A" using Cons.prems(1) by (simp add: pair_inv_def)
  then have uniq: "x = e" if "x \<in> set (ul_List A)" "fst x = k" for x
    using that elem_unique [of A k "snd x" p] p e by (metis prod.collapse)
  have sub: "set es \<subseteq> set (ul_List A1)" using Cons.prems(2) k by (force simp: one(3))
  have dist: "distinct (map fst es)" using Cons.prems(3) by simp
  obtain A2 B2 where two: "compactLoop lt rt es (A1, B1) = Some (A2, B2)" "pair_inv A2 B2"
    "\<forall>f rc. isAmount f \<longrightarrow> pairFlight f rc A2 B2 = pairFlight f rc A1 B1"
    "set (ul_List A2) = set (ul_List A1) - {e \<in> set es. collected lt rt (snd e)}"
    "collects (table A1) (table A2)" "collects (table B1) (table B2)"
    using Cons.IH [OF one(2) sub dist] by blast
  have ne: "x \<in> set (ul_List A) \<and> fst x \<noteq> k \<longleftrightarrow> x \<in> set (ul_List A) \<and> x \<noteq> e" for x
    using uniq [of x] e by auto
  have "set (ul_List A1) = set (ul_List A) - {x. x = e \<and> collected lt rt (snd x)}"
    by (cases "collected lt rt p") (auto simp: one(3) e ne [unfolded e])
  then have "set (ul_List A2) = set (ul_List A) - {x \<in> set (e # es). collected lt rt (snd x)}"
    using two(4) by auto
  moreover have "compactLoop lt rt (e # es) (A, B) = Some (A2, B2)" using one(1) two(1) by (simp add: e)
  moreover have "\<forall>f rc. isAmount f \<longrightarrow> pairFlight f rc A2 B2 = pairFlight f rc A B" using one(4) two(3) by simp
  moreover have "collects (table A) (table A2)" "collects (table B) (table B2)"
    using collects_trans one(5,6) two(5,6) by blast+
  ultimately show ?case using two(2) by blast
qed simp

lemma compactLogs_ok:
  assumes "pair_inv A B"
  obtains A' B' where "compactLogs A B lt rt = Some (A', B')" "pair_inv A' B'"
    "\<And>f rc. isAmount f \<Longrightarrow> pairFlight f rc A' B' = pairFlight f rc A B"
    "collects (table A) (table A')" "collects (table B) (table B')"
proof -
  have dist: "distinct (map fst (ul_List A))" using assms by (simp add: pair_inv_def log_distinct)
  obtain A1 B1 where one: "compactLoop lt rt (ul_List A) (A, B) = Some (A1, B1)" "pair_inv A1 B1"
    "\<forall>f rc. isAmount f \<longrightarrow> pairFlight f rc A1 B1 = pairFlight f rc A B"
    "collects (table A) (table A1)" "collects (table B) (table B1)"
    using compactLoop_ok [OF assms _ dist, of lt rt] by blast
  have inv1: "pair_inv B1 A1" using one(2) by (simp add: pair_inv_sym)
  have dist1: "distinct (map fst (ul_List B1))" using inv1 by (simp add: pair_inv_def log_distinct)
  obtain B2 A2 where two: "compactLoop lt rt (ul_List B1) (B1, A1) = Some (B2, A2)" "pair_inv B2 A2"
    "\<forall>f rc. isAmount f \<longrightarrow> pairFlight f rc B2 A2 = pairFlight f rc B1 A1"
    "collects (table B1) (table B2)" "collects (table A1) (table A2)"
    using compactLoop_ok [OF inv1 _ dist1, of lt rt] by blast
  have "pairFlight f rc A2 B2 = pairFlight f rc A B" if "isAmount f" for f rc
    using one(3) two(3) that by (simp add: pairFlight_def add.commute)
  moreover have "collects (table A) (table A2)" "collects (table B) (table B2)"
    using collects_trans one(4,5) two(4,5) by blast+
  ultimately show thesis
    using that [of A2 B2] one(1) two(1,2) by (simp add: compactLogs_def compactLog_def pair_inv_sym)
qed

end
