(* ===== verification/Lnwallet_Steps.thy ===== *)
theory Lnwallet_Steps
  imports Lnwallet_Invariant
begin

text \<open>
  The channel as a state machine: the steps of its update logs, the states they reach, and an
  abstract specification of the logs as a table of open and resolved HTLCs.
\<close>

subsection \<open>The contract of settles and fails\<close>

definition setLogs :: "bool \<Rightarrow> updateLog \<Rightarrow> updateLog \<Rightarrow> LightningChannel \<Rightarrow> LightningChannel" where
  "setLogs ours A B lc = (if ours then lc\<lparr>localUpdateLog := A, remoteUpdateLog := B\<rparr>
     else lc\<lparr>remoteUpdateLog := A, localUpdateLog := B\<rparr>)"

lemma logOf_setLogs [simp]:
  "logOf ours (setLogs ours A B lc) = A" "logOf (\<not> ours) (setLogs ours A B lc) = B"
  by (simp_all add: logOf_def setLogs_def)

text \<open>
  An operation that resolves the HTLC \<open>i\<close> of one log with an entry in the other: \<open>ours\<close> says in
  whose log the entry goes, \<open>accepts\<close> is the check on the HTLC, \<open>entry\<close> the new entry and
  \<open>already\<close> the error for an HTLC that has been resolved.
\<close>

locale htlc_removal =
  fixes ours :: bool
    and oper :: "LightningChannel \<Rightarrow> u64 \<Rightarrow> chan_error + LightningChannel"
    and accepts :: "PaymentDescriptor \<Rightarrow> bool"
    and entry :: "LightningChannel \<Rightarrow> u64 \<Rightarrow> PaymentDescriptor \<Rightarrow> PaymentDescriptor"
    and already :: "u64 \<Rightarrow> chan_error"
  assumes oper_unknown: "lookupHtlc (logOf (\<not> ours) lc) i = None \<Longrightarrow>
      oper lc i = Inl (ErrUnknownHtlcIndex (oc_ShortChannelID (channelState lc)) i)"
    and oper_already: "lookupHtlc (logOf (\<not> ours) lc) i = Some q \<Longrightarrow>
      i \<in> modifiedHtlcs (logOf (\<not> ours) lc) \<Longrightarrow> oper lc i = Inl (already i)"
    and oper_refused: "lookupHtlc (logOf (\<not> ours) lc) i = Some q \<Longrightarrow>
      i \<notin> modifiedHtlcs (logOf (\<not> ours) lc) \<Longrightarrow> \<not> accepts q \<Longrightarrow> \<exists>e. oper lc i = Inl e"
    and oper_done: "lookupHtlc (logOf (\<not> ours) lc) i = Some q \<Longrightarrow>
      i \<notin> modifiedHtlcs (logOf (\<not> ours) lc) \<Longrightarrow> accepts q \<Longrightarrow>
      oper lc i = Inr (setLogs ours (appendUpdate (entry lc i q) (logOf ours lc))
        (markHtlcModified i (logOf (\<not> ours) lc)) lc)"
    and entry: "isRemove (entry lc i q)" "pd_LogIndex (entry lc i q) = logIndex (logOf ours lc)"
      "pd_HtlcIndex q = i \<Longrightarrow> pd_ParentIndex (entry lc i q) = i"
      "pd_BtcAmount (entry lc i q) = pd_BtcAmount q" "pd_AssetAmount (entry lc i q) = pd_AssetAmount q"
      "removeHeight rc (entry lc i q) = 0"
begin

lemma oper_InrD:
  assumes "oper lc i = Inr lc'"
  obtains q where "lookupHtlc (logOf (\<not> ours) lc) i = Some q" "i \<notin> modifiedHtlcs (logOf (\<not> ours) lc)"
    "accepts q" "lc' = setLogs ours (appendUpdate (entry lc i q) (logOf ours lc))
        (markHtlcModified i (logOf (\<not> ours) lc)) lc"
proof (cases "lookupHtlc (logOf (\<not> ours) lc) i")
  case (Some q)
  with assms oper_already [OF Some] oper_refused [OF Some] oper_done [OF Some]
  show thesis by (cases "i \<in> modifiedHtlcs (logOf (\<not> ours) lc)"; cases "accepts q") (auto intro: that)
qed (use assms oper_unknown in simp)

lemma keeps_inv:
  assumes inv: "chan_inv lc" and room: "has_room (logOf ours lc)" and "oper lc i = Inr lc'"
  shows "chan_inv lc'"
proof -
  obtain q where q: "lookupHtlc (logOf (\<not> ours) lc) i = Some q" "i \<notin> modifiedHtlcs (logOf (\<not> ours) lc)"
    "lc' = setLogs ours (appendUpdate (entry lc i q) (logOf ours lc)) (markHtlcModified i (logOf (\<not> ours) lc)) lc"
    using oper_InrD [OF assms(3)] by metis
  have pair: "pair_inv (logOf ours lc) (logOf (\<not> ours) lc)" using inv pair_inv_logOf by blast
  then have "pd_HtlcIndex q = i" using q(1) lookupHtlc_iff by (auto simp: pair_inv_def)
  then have "pair_inv (appendUpdate (entry lc i q) (logOf ours lc)) (markHtlcModified i (logOf (\<not> ours) lc))"
    by (intro pair_inv_appendRemove [OF pair room q(1,2)] entry)
  then show ?thesis unfolding pair_inv_logOf [of lc' ours] by (simp add: q(3))
qed

text \<open>In a state with the invariant the HTLCs that have an entry are refused.\<close>

lemma refuses_twice:
  assumes inv: "chan_inv lc" and "i \<in> parentsOf (ul_List (logOf ours lc))"
  shows "oper lc i = Inl (already i)"
proof -
  have pair: "pair_inv (logOf ours lc) (logOf (\<not> ours) lc)" using inv pair_inv_logOf by blast
  obtain k p where p: "(k, p) \<in> set (ul_List (logOf ours lc))" "isRemove p" "pd_ParentIndex p = i"
    using assms(2) by (force simp: parentsOf_def)
  have ok: "removes_ok (logOf ours lc) (logOf (\<not> ours) lc)" using pair by (simp add: pair_inv_def)
  obtain q where "lookupHtlc (logOf (\<not> ours) lc) i = Some q"
    using removes_okD(1) [OF ok p(1,2)] p(3) by blast
  then show ?thesis using oper_already assms(2) removes_okD(3) [OF ok] by blast
qed

lemma done_enters:
  assumes inv: "chan_inv lc" and "oper lc i = Inr lc'"
  shows "i \<in> parentsOf (ul_List (logOf ours lc'))"
proof -
  obtain q where q: "lookupHtlc (logOf (\<not> ours) lc) i = Some q"
    "lc' = setLogs ours (appendUpdate (entry lc i q) (logOf ours lc)) (markHtlcModified i (logOf (\<not> ours) lc)) lc"
    using oper_InrD [OF assms(2)] by metis
  have "pair_inv (logOf ours lc) (logOf (\<not> ours) lc)" using inv pair_inv_logOf by blast
  then have "pd_HtlcIndex q = i" using q(1) lookupHtlc_iff by (auto simp: pair_inv_def)
  then have "pd_ParentIndex (entry lc i q) = i" "isRemove (entry lc i q)" by (simp_all add: entry)
  then show ?thesis unfolding q(2) logOf_setLogs by (simp add: appendUpdate_def pushBack_def)
qed

end

definition settleEntry :: "bytes \<Rightarrow> AddRef option \<Rightarrow> SettleFailRef option \<Rightarrow> CircuitKey option \<Rightarrow>
    LightningChannel \<Rightarrow> u64 \<Rightarrow> PaymentDescriptor \<Rightarrow> PaymentDescriptor" where
  "settleEntry preimage sourceRef destRef closeKey lc i htlc =
     pd_zero\<lparr>pd_AssetID := pd_AssetID htlc, pd_AssetAmount := pd_AssetAmount htlc,
       pd_BtcAmount := pd_BtcAmount htlc, pd_RPreimage := preimage, pd_LogIndex := logIndex (localUpdateLog lc),
       pd_ParentIndex := i, EntryType := Settle, pd_SourceRef := sourceRef, pd_DestRef := destRef,
       pd_ClosedCircuitKey := closeKey\<rparr>"

definition recvSettleEntry :: "bytes \<Rightarrow> LightningChannel \<Rightarrow> u64 \<Rightarrow> PaymentDescriptor \<Rightarrow> PaymentDescriptor" where
  "recvSettleEntry preimage lc i htlc =
     pd_zero\<lparr>pd_AssetID := pd_AssetID htlc, pd_AssetAmount := pd_AssetAmount htlc,
       pd_BtcAmount := pd_BtcAmount htlc, pd_RPreimage := preimage, pd_ParentIndex := pd_HtlcIndex htlc,
       pd_RHash := pd_RHash htlc, pd_LogIndex := logIndex (remoteUpdateLog lc), EntryType := Settle\<rparr>"

definition failEntry :: "bytes \<Rightarrow> AddRef option \<Rightarrow> SettleFailRef option \<Rightarrow> CircuitKey option \<Rightarrow>
    LightningChannel \<Rightarrow> u64 \<Rightarrow> PaymentDescriptor \<Rightarrow> PaymentDescriptor" where
  "failEntry reason sourceRef destRef closeKey lc i htlc =
     pd_zero\<lparr>pd_AssetID := pd_AssetID htlc, pd_AssetAmount := pd_AssetAmount htlc,
       pd_BtcAmount := pd_BtcAmount htlc, pd_RHash := pd_RHash htlc, pd_ParentIndex := i,
       pd_LogIndex := logIndex (localUpdateLog lc), EntryType := Fail, pd_FailReason := reason,
       pd_SourceRef := sourceRef, pd_DestRef := destRef, pd_ClosedCircuitKey := closeKey\<rparr>"

definition malformedEntry :: "u16 \<Rightarrow> bytes \<Rightarrow> AddRef option \<Rightarrow> LightningChannel \<Rightarrow> u64 \<Rightarrow> PaymentDescriptor \<Rightarrow>
    PaymentDescriptor" where
  "malformedEntry failCode shaOnionBlob sourceRef lc i htlc =
     pd_zero\<lparr>pd_AssetID := pd_AssetID htlc, pd_AssetAmount := pd_AssetAmount htlc,
       pd_BtcAmount := pd_BtcAmount htlc, pd_RHash := pd_RHash htlc, pd_ParentIndex := i,
       pd_LogIndex := logIndex (localUpdateLog lc), EntryType := MalformedFail, pd_FailCode := failCode,
       pd_ShaOnionBlob := shaOnionBlob, pd_SourceRef := sourceRef\<rparr>"

definition recvFailEntry :: "bytes \<Rightarrow> LightningChannel \<Rightarrow> u64 \<Rightarrow> PaymentDescriptor \<Rightarrow> PaymentDescriptor" where
  "recvFailEntry reason lc i htlc =
     pd_zero\<lparr>pd_AssetID := pd_AssetID htlc, pd_AssetAmount := pd_AssetAmount htlc,
       pd_BtcAmount := pd_BtcAmount htlc, pd_RHash := pd_RHash htlc, pd_ParentIndex := pd_HtlcIndex htlc,
       pd_LogIndex := logIndex (remoteUpdateLog lc), EntryType := Fail, pd_FailReason := reason\<rparr>"

interpretation settle: htlc_removal True
    "\<lambda>lc i. SettleHTLC sha256 lc preimage i sourceRef destRef closeKey"
    "\<lambda>q. pd_RHash q = sha256 preimage" "settleEntry preimage sourceRef destRef closeKey" ErrHtlcIndexAlreadySettled
  for sha256 preimage sourceRef destRef closeKey
  by unfold_locales (simp_all add: SettleHTLC_def settleEntry_def setLogs_def logOf_def htlcHasModification_def
      isRemove_def removeHeight_def pd_zero_def)

interpretation recv_settle: htlc_removal False
    "\<lambda>lc i. ReceiveHTLCSettle sha256 lc preimage i"
    "\<lambda>q. pd_RHash q = sha256 preimage" "recvSettleEntry preimage" ErrHtlcIndexAlreadySettled
  for sha256 preimage
  by unfold_locales (simp_all add: ReceiveHTLCSettle_def recvSettleEntry_def setLogs_def logOf_def
      htlcHasModification_def isRemove_def removeHeight_def pd_zero_def)

interpretation fail: htlc_removal True
    "\<lambda>lc i. FailHTLC lc i reason sourceRef destRef closeKey"
    "\<lambda>q. True" "failEntry reason sourceRef destRef closeKey" ErrHtlcIndexAlreadyFailed
  for reason sourceRef destRef closeKey
  by unfold_locales (simp_all add: FailHTLC_def failEntry_def setLogs_def logOf_def
      htlcHasModification_def isRemove_def removeHeight_def pd_zero_def)

interpretation malformed: htlc_removal True
    "\<lambda>lc i. MalformedFailHTLC lc i failCode shaOnionBlob sourceRef"
    "\<lambda>q. True" "malformedEntry failCode shaOnionBlob sourceRef" ErrHtlcIndexAlreadyFailed
  for failCode shaOnionBlob sourceRef
  by unfold_locales (simp_all add: MalformedFailHTLC_def malformedEntry_def setLogs_def logOf_def
      htlcHasModification_def isRemove_def removeHeight_def pd_zero_def)

interpretation recv_fail: htlc_removal False
    "\<lambda>lc i. ReceiveFailHTLC lc i reason"
    "\<lambda>q. True" "recvFailEntry reason" ErrHtlcIndexAlreadyFailed
  for reason
  by unfold_locales (simp_all add: ReceiveFailHTLC_def recvFailEntry_def setLogs_def logOf_def
      htlcHasModification_def isRemove_def removeHeight_def pd_zero_def)

subsection \<open>Steps\<close>

text \<open>
  The steps of a channel: the operations on its logs; an evaluation of a commitment that writes
  the heights (as \<^verbatim>\<open>fetchCommitmentView\<close> makes for a new commitment), at any log indexes and from
  any balances; and a compaction, at any tails.  The counters are assumed not to be exhausted.
\<close>

inductive chan_step :: "(bytes \<Rightarrow> bytes) \<Rightarrow> LightningChannel \<Rightarrow> LightningChannel \<Rightarrow> bool" for sha256 where
  AddStep: "AddHTLC lc htlc openKey = Inr (i, lc') \<Longrightarrow> has_room (localUpdateLog lc) \<Longrightarrow> chan_step sha256 lc lc'"
| ReceiveStep: "ReceiveHTLC lc htlc = Inr (i, lc') \<Longrightarrow> has_room (remoteUpdateLog lc) \<Longrightarrow> chan_step sha256 lc lc'"
| SettleStep: "SettleHTLC sha256 lc preimage i sourceRef destRef closeKey = Inr lc' \<Longrightarrow>
    has_room (localUpdateLog lc) \<Longrightarrow> chan_step sha256 lc lc'"
| ReceiveSettleStep: "ReceiveHTLCSettle sha256 lc preimage i = Inr lc' \<Longrightarrow>
    has_room (remoteUpdateLog lc) \<Longrightarrow> chan_step sha256 lc lc'"
| FailStep: "FailHTLC lc i reason sourceRef destRef closeKey = Inr lc' \<Longrightarrow>
    has_room (localUpdateLog lc) \<Longrightarrow> chan_step sha256 lc lc'"
| MalformedStep: "MalformedFailHTLC lc i failCode shaOnionBlob sourceRef = Inr lc' \<Longrightarrow>
    has_room (localUpdateLog lc) \<Longrightarrow> chan_step sha256 lc lc'"
| ReceiveFailStep: "ReceiveFailHTLC lc i reason = Inr lc' \<Longrightarrow>
    has_room (remoteUpdateLog lc) \<Longrightarrow> chan_step sha256 lc lc'"
| FeeStep: "UpdateFeeOp lc feePerKw = Inr lc' \<Longrightarrow> has_room (localUpdateLog lc) \<Longrightarrow> chan_step sha256 lc lc'"
| ReceiveFeeStep: "ReceiveUpdateFee lc feePerKw = Inr lc' \<Longrightarrow> has_room (remoteUpdateLog lc) \<Longrightarrow>
    chan_step sha256 lc lc'"
| CommitStep: "evaluateHTLCView lc ((fetchHTLCView lc ti oi)\<lparr>v_feePerKw := fee\<rparr>) b h rc True =
    (lc', Inr (v', b')) \<Longrightarrow> chan_step sha256 lc lc'"
| CompactStep: "compactLogs (localUpdateLog lc) (remoteUpdateLog lc) lt rt = Some (A, B) \<Longrightarrow>
    chan_step sha256 lc (lc\<lparr>localUpdateLog := A, remoteUpdateLog := B\<rparr>)"

text \<open>The logs of a new channel, whose counters continue those of its commitments.\<close>

definition fresh_channel :: "LightningChannel \<Rightarrow> bool" where
  "fresh_channel lc \<longleftrightarrow>
     localUpdateLog lc = newUpdateLog (logIndex (localUpdateLog lc)) (htlcCounter (localUpdateLog lc)) \<and>
     remoteUpdateLog lc = newUpdateLog (logIndex (remoteUpdateLog lc)) (htlcCounter (remoteUpdateLog lc))"

inductive chan_reachable :: "(bytes \<Rightarrow> bytes) \<Rightarrow> LightningChannel \<Rightarrow> bool" for sha256 where
  reach_fresh: "fresh_channel lc \<Longrightarrow> chan_reachable sha256 lc"
| reach_step: "chan_reachable sha256 lc \<Longrightarrow> chan_step sha256 lc lc' \<Longrightarrow> chan_reachable sha256 lc'"

lemma removes_ok_new: "removes_ok (newUpdateLog li hc) (newUpdateLog li' hc')"
  by (simp add: removes_ok_def newUpdateLog_def)

lemma appended_add:
  assumes "AddHTLC lc htlc openKey = Inr (i, lc')"
  obtains pd where "lc' = lc\<lparr>localUpdateLog := appendHtlc pd (localUpdateLog lc)\<rparr>" "EntryType pd = Add"
    "pd_LogIndex pd = logIndex (localUpdateLog lc)" "pd_HtlcIndex pd = htlcCounter (localUpdateLog lc)"
  using assms
  by (auto simp: AddHTLC_def htlcAddDescriptor_def SetAmtFromMsgHtlc_def Let_def pd_zero_def split: option.splits if_splits)

lemma appended_receive:
  assumes "ReceiveHTLC lc htlc = Inr (i, lc')"
  obtains pd where "lc' = lc\<lparr>remoteUpdateLog := appendHtlc pd (remoteUpdateLog lc)\<rparr>" "EntryType pd = Add"
    "pd_LogIndex pd = logIndex (remoteUpdateLog lc)" "pd_HtlcIndex pd = htlcCounter (remoteUpdateLog lc)"
  using assms
  by (auto simp: ReceiveHTLC_def SetAmtFromMsgHtlc_def Let_def pd_zero_def split: option.splits if_splits)

lemma appended_fee:
  assumes "UpdateFeeOp lc feePerKw = Inr lc'"
  obtains pd where "lc' = lc\<lparr>localUpdateLog := appendUpdate pd (localUpdateLog lc)\<rparr>" "EntryType pd = FeeUpdate"
    "pd_LogIndex pd = logIndex (localUpdateLog lc)"
  using assms by (auto simp: UpdateFeeOp_def pd_zero_def split: option.splits if_splits)

lemma appended_receive_fee:
  assumes "ReceiveUpdateFee lc feePerKw = Inr lc'"
  obtains pd where "lc' = lc\<lparr>remoteUpdateLog := appendUpdate pd (remoteUpdateLog lc)\<rparr>" "EntryType pd = FeeUpdate"
    "pd_LogIndex pd = logIndex (remoteUpdateLog lc)"
  using assms by (auto simp: ReceiveUpdateFee_def pd_zero_def split: if_splits)

lemma view_of_fetch_fee:
  "chan_inv lc \<Longrightarrow> view_of lc ((fetchHTLCView lc ti oi)\<lparr>v_feePerKw := fee\<rparr>)"
  using view_of_fetch [of lc ti oi] by (simp add: view_of_def chan_inv_def)

lemma chan_inv_step:
  assumes "chan_step sha256 lc lc'" "chan_inv lc"
  shows "chan_inv lc'"
  using assms
proof cases
  case (AddStep htlc openKey i)
  then obtain pd where "lc' = lc\<lparr>localUpdateLog := appendHtlc pd (localUpdateLog lc)\<rparr>" "EntryType pd = Add"
    "pd_LogIndex pd = logIndex (localUpdateLog lc)" "pd_HtlcIndex pd = htlcCounter (localUpdateLog lc)"
    using appended_add by blast
  then show ?thesis using assms(2) AddStep(2) pair_inv_appendHtlc by (simp add: chan_inv_pair)
next
  case (ReceiveStep htlc i)
  then obtain pd where "lc' = lc\<lparr>remoteUpdateLog := appendHtlc pd (remoteUpdateLog lc)\<rparr>" "EntryType pd = Add"
    "pd_LogIndex pd = logIndex (remoteUpdateLog lc)" "pd_HtlcIndex pd = htlcCounter (remoteUpdateLog lc)"
    using appended_receive by blast
  then show ?thesis
    using assms(2) ReceiveStep(2) pair_inv_appendHtlc [of "remoteUpdateLog lc" "localUpdateLog lc" pd]
    by (simp add: chan_inv_pair pair_inv_sym)
next
  case (FeeStep feePerKw)
  then obtain pd where "lc' = lc\<lparr>localUpdateLog := appendUpdate pd (localUpdateLog lc)\<rparr>" "EntryType pd = FeeUpdate"
    "pd_LogIndex pd = logIndex (localUpdateLog lc)"
    using appended_fee by blast
  then show ?thesis using assms(2) FeeStep(2) pair_inv_appendFee by (simp add: chan_inv_pair)
next
  case (ReceiveFeeStep feePerKw)
  then obtain pd where "lc' = lc\<lparr>remoteUpdateLog := appendUpdate pd (remoteUpdateLog lc)\<rparr>" "EntryType pd = FeeUpdate"
    "pd_LogIndex pd = logIndex (remoteUpdateLog lc)"
    using appended_receive_fee by blast
  then show ?thesis
    using assms(2) ReceiveFeeStep(2) pair_inv_appendFee [of "remoteUpdateLog lc" "localUpdateLog lc" pd]
    by (simp add: chan_inv_pair pair_inv_sym)
next
  case (CommitStep ti oi fee b h rc v' b')
  then show ?thesis using chan_inv_evaluate [OF assms(2) view_of_fetch_fee [OF assms(2)]] by blast
next
  case (CompactStep lt rt A B)
  then show ?thesis
    using compactLogs_ok [of "localUpdateLog lc" "remoteUpdateLog lc" lt rt] assms(2)
    by (auto simp: chan_inv_pair)
next
  case (SettleStep preimage i sourceRef destRef closeKey)
  then show ?thesis using settle.keeps_inv [OF assms(2)] by simp
next
  case (ReceiveSettleStep preimage i)
  then show ?thesis using recv_settle.keeps_inv [OF assms(2)] by simp
next
  case (FailStep i reason sourceRef destRef closeKey)
  then show ?thesis using fail.keeps_inv [OF assms(2)] by simp
next
  case (MalformedStep i failCode shaOnionBlob sourceRef)
  then show ?thesis using malformed.keeps_inv [OF assms(2)] by simp
next
  case (ReceiveFailStep i reason)
  then show ?thesis using recv_fail.keeps_inv [OF assms(2)] by simp
qed

lemma chan_inv_fresh: "fresh_channel lc \<Longrightarrow> chan_inv lc"
  unfolding fresh_channel_def chan_inv_def
  by (metis (no_types, lifting) log_inv_new removes_ok_new)

lemma chan_inv_reachable: "chan_reachable sha256 lc \<Longrightarrow> chan_inv lc"
  by (induction rule: chan_reachable.induct) (auto intro: chan_inv_fresh chan_inv_step)

end
