(* ===== verification/Lnwallet_Book.thy ===== *)
theory Lnwallet_Book
  imports Lnwallet_Steps
begin

text \<open>
  An abstract specification of an update log: a book of numbered HTLCs that are offered in
  order, resolved once, and dropped only after that.  Every step of a channel is a step of the
  books of its two logs.
\<close>

subsection \<open>Books\<close>

record htlc_book =
  bk_next :: u64
  bk_table :: htlc_table

definition book :: "updateLog \<Rightarrow> htlc_book" where
  "book u = \<lparr>bk_next = htlcCounter u, bk_table = table u\<rparr>"

inductive book_step :: "htlc_book \<Rightarrow> htlc_book \<Rightarrow> bool" where
  offer: "bk_next b \<noteq> - 1 \<Longrightarrow> bk_table b (bk_next b) = None \<Longrightarrow>
    book_step b \<lparr>bk_next = bk_next b + 1, bk_table = (bk_table b)(bk_next b \<mapsto> (x, y, Open))\<rparr>"
| resolve: "bk_table b i = Some (x, y, Open) \<Longrightarrow>
    book_step b (b\<lparr>bk_table := (bk_table b)(i \<mapsto> (x, y, Resolving))\<rparr>)"
| collect: "collects (bk_table b) T \<Longrightarrow> book_step b (b\<lparr>bk_table := T\<rparr>)"

lemma book_stutter: "book_step b b"
  using book_step.collect [of b "bk_table b"] by simp

text \<open>A number that has been resolved or dropped never opens again.\<close>

definition closed_in :: "u64 \<Rightarrow> htlc_book \<Rightarrow> bool" where
  "closed_in i b \<longleftrightarrow> i < bk_next b \<and> (\<forall>x y. bk_table b i \<noteq> Some (x, y, Open))"

lemma closed_in_step: "book_step b b' \<Longrightarrow> closed_in i b \<Longrightarrow> closed_in i b'"
proof (induction rule: book_step.induct)
  case (offer b x y)
  then show ?case using word_less_Suc [OF offer(1), of i] by (auto simp: closed_in_def)
next
  case (resolve b j x y)
  then show ?case by (auto simp: closed_in_def)
next
  case (collect b T)
  then have "T i = bk_table b i \<or> T i = None" by (auto simp: collects_def)
  then show ?case using collect(2) by (auto simp: closed_in_def)
qed

subsection \<open>The books of the logs\<close>

lemma append_fields:
  "ul_List (appendHtlc pd u) = ul_List u @ [(ul_next u, pd)]" "modifiedHtlcs (appendHtlc pd u) = modifiedHtlcs u"
  "htlcCounter (appendHtlc pd u) = htlcCounter u + 1"
  "ul_List (appendUpdate pd u) = ul_List u @ [(ul_next u, pd)]" "modifiedHtlcs (appendUpdate pd u) = modifiedHtlcs u"
  "htlcCounter (appendUpdate pd u) = htlcCounter u"
  "modifiedHtlcs (markHtlcModified i u) = insert i (modifiedHtlcs u)" "htlcCounter (markHtlcModified i u) = htlcCounter u"
  by (simp_all add: appendHtlc_def appendUpdate_def pushBack_def markHtlcModified_def)

lemma table_appendHtlc:
  assumes u: "log_inv u" and "has_room u"
    and pd: "EntryType pd = Add" "pd_LogIndex pd = logIndex u" "pd_HtlcIndex pd = htlcCounter u"
  shows "table u (htlcCounter u) = None"
    and "table (appendHtlc pd u) = (table u)(htlcCounter u \<mapsto> (pd_BtcAmount pd, pd_AssetAmount pd, Open))"
proof -
  have u': "log_inv (appendHtlc pd u)" using assms by (intro log_inv_appendHtlc) (simp_all add: has_room_def)
  have none: "lookupHtlc u (htlcCounter u) = None"
  proof (rule ccontr)
    assume "lookupHtlc u (htlcCounter u) \<noteq> None"
    then obtain k q where "(k, q) \<in> set (ul_List u)" "EntryType q = Add" "pd_HtlcIndex q = htlcCounter u"
      using lookupHtlc_iff [OF u] by blast
    then show False using log_htlc_bounds [OF u, of "(k, q)"] by simp
  qed
  then show "table u (htlcCounter u) = None" by (simp add: table_def)
  have new: "lookupHtlc (appendHtlc pd u) (htlcCounter u) = Some pd"
    using pd by (auto simp: lookupHtlc_iff [OF u'] append_fields)
  have old: "lookupHtlc (appendHtlc pd u) i = lookupHtlc u i" if "i \<noteq> htlcCounter u" for i
    using that pd by (intro option_eqI) (auto simp: lookupHtlc_iff [OF u'] lookupHtlc_iff [OF u] append_fields)
  have "htlcCounter u \<notin> modifiedHtlcs u"
    using log_modified [OF u] lookupHtlc_dom [OF u, of "htlcCounter u"] none by blast
  then show "table (appendHtlc pd u) = (table u)(htlcCounter u \<mapsto> (pd_BtcAmount pd, pd_AssetAmount pd, Open))"
    using new old by (auto simp: table_def fun_eq_iff append_fields)
qed

lemma table_appendUpdate:
  assumes u: "log_inv u" and "has_room u" and pd: "EntryType pd \<noteq> Add" "pd_LogIndex pd = logIndex u"
  shows "table (appendUpdate pd u) = table u"
proof -
  have u': "log_inv (appendUpdate pd u)" using assms by (intro log_inv_appendUpdate) (simp_all add: has_room_def)
  have "lookupHtlc (appendUpdate pd u) i = lookupHtlc u i" for i
    using pd by (intro option_eqI) (auto simp: lookupHtlc_iff [OF u'] lookupHtlc_iff [OF u] append_fields)
  then show ?thesis by (simp add: table_def append_fields)
qed

lemma table_mark:
  assumes "lookupHtlc u i = Some q"
  shows "table (markHtlcModified i u) = (table u)(i \<mapsto> (pd_BtcAmount q, pd_AssetAmount q, Resolving))"
  using assms by (auto simp: table_def fun_eq_iff append_fields)

lemma table_logmap:
  assumes "log_inv u"
  shows "table (logmap (markCommitted rc h) K u) = table u"
proof -
  have "map_option (\<lambda>q. (pd_BtcAmount q, pd_AssetAmount q, s)) (lookupHtlc (logmap (markCommitted rc h) K u) i) =
      map_option (\<lambda>q. (pd_BtcAmount q, pd_AssetAmount q, s)) (lookupHtlc u i)" for i and s :: htlc_status
  proof (cases "htlcIndex u i")
    case None
    then show ?thesis using lookupHtlc_logmap [OF assms] by (simp add: lookupHtlc_def)
  next
    case (Some k)
    then show ?thesis by (simp add: lookupHtlc_logmap [OF assms] option.map_comp comp_def)
  qed
  then show ?thesis by (simp add: table_def)
qed

text \<open>The step of a book for an operation that resolves an HTLC.\<close>

context htlc_removal
begin

lemma book_resolve:
  assumes inv: "chan_inv lc" and room: "has_room (logOf ours lc)" and "oper lc i = Inr lc'"
  shows "book_step (book (logOf ours lc)) (book (logOf ours lc'))"
    and "book_step (book (logOf (\<not> ours) lc)) (book (logOf (\<not> ours) lc'))"
    and "closed_in i (book (logOf (\<not> ours) lc'))"
proof -
  obtain q where q: "lookupHtlc (logOf (\<not> ours) lc) i = Some q" "i \<notin> modifiedHtlcs (logOf (\<not> ours) lc)"
    "lc' = setLogs ours (appendUpdate (entry lc i q) (logOf ours lc)) (markHtlcModified i (logOf (\<not> ours) lc)) lc"
    using oper_InrD [OF assms(3)] by metis
  have pair: "log_inv (logOf ours lc)" "log_inv (logOf (\<not> ours) lc)"
    using inv pair_inv_logOf [of lc ours] by (simp_all add: pair_inv_def)
  have "EntryType (entry lc i q) \<noteq> Add" using entry(1) [of lc i q] by (auto simp: isRemove_def)
  then have "book (logOf ours lc') = book (logOf ours lc)"
    using table_appendUpdate [OF pair(1) room] entry(2) by (simp add: q(3) book_def append_fields)
  then show "book_step (book (logOf ours lc)) (book (logOf ours lc'))" by (simp add: book_stutter)
  have "book (logOf (\<not> ours) lc') = (book (logOf (\<not> ours) lc))\<lparr>bk_table := (bk_table (book (logOf (\<not> ours) lc)))
      (i \<mapsto> (pd_BtcAmount q, pd_AssetAmount q, Resolving))\<rparr>"
    by (simp add: q(3) book_def table_mark [OF q(1)] append_fields)
  moreover have "bk_table (book (logOf (\<not> ours) lc)) i = Some (pd_BtcAmount q, pd_AssetAmount q, Open)"
    using q(1,2) by (simp add: book_def table_def)
  ultimately show "book_step (book (logOf (\<not> ours) lc)) (book (logOf (\<not> ours) lc'))"
    using book_step.resolve by metis
  have "i < htlcCounter (logOf (\<not> ours) lc)"
    using q(1) log_htlc_bounds [OF pair(2)] unfolding lookupHtlc_iff [OF pair(2)] by fastforce
  then show "closed_in i (book (logOf (\<not> ours) lc'))"
    by (simp add: closed_in_def q(3) book_def table_mark [OF q(1)] append_fields)
qed

text \<open>A closed HTLC is refused: it is unknown, or it has been resolved.\<close>

lemma closed_refused:
  assumes "closed_in i (book (logOf (\<not> ours) lc))"
  shows "\<exists>e. oper lc i = Inl e"
proof (cases "lookupHtlc (logOf (\<not> ours) lc) i")
  case (Some q)
  then have "i \<in> modifiedHtlcs (logOf (\<not> ours) lc)"
    using assms by (auto simp: closed_in_def book_def table_def split: if_splits)
  then show ?thesis using oper_already [OF Some] by blast
qed (use oper_unknown in blast)

end

subsection \<open>Simulation\<close>

lemma book_offer:
  assumes "log_inv u" "has_room u"
    "EntryType pd = Add" "pd_LogIndex pd = logIndex u" "pd_HtlcIndex pd = htlcCounter u"
  shows "book_step (book u) (book (appendHtlc pd u))"
  using book_step.offer [of "book u"] table_appendHtlc [OF assms] assms(2)
  by (auto simp: book_def has_room_def append_fields)

lemma book_fee:
  assumes "log_inv u" "has_room u" "EntryType pd = FeeUpdate" "pd_LogIndex pd = logIndex u"
  shows "book_step (book u) (book (appendUpdate pd u))"
proof -
  have "book (appendUpdate pd u) = book u"
    using table_appendUpdate [OF assms(1,2)] assms(3,4) by (simp add: book_def append_fields)
  then show ?thesis by (simp add: book_stutter)
qed

lemma book_collect:
  assumes "collects (table u) (table u')" "htlcCounter u' = htlcCounter u"
  shows "book_step (book u) (book u')"
  using book_step.collect [of "book u" "table u'"] assms by (simp add: book_def)

lemma compact_counter:
  assumes "compactLogs A B lt rt = Some (A', B')"
  shows "htlcCounter A' = htlcCounter A" "htlcCounter B' = htlcCounter B"
proof -
  have step: "compactStep lt rt p (A, B) = Some (A', B') \<Longrightarrow>
      htlcCounter A' = htlcCounter A \<and> htlcCounter B' = htlcCounter B" for p A B A' B'
    by (auto simp: compactStep_def removeUpdate_def removeHtlc_def removeElem_def split: option.splits if_splits)
  have loop: "compactLoop lt rt es (A, B) = Some (A', B') \<Longrightarrow>
      htlcCounter A' = htlcCounter A \<and> htlcCounter B' = htlcCounter B" for es A B A' B'
    by (induction es arbitrary: A B) (auto split: option.splits dest!: step)
  show "htlcCounter A' = htlcCounter A" "htlcCounter B' = htlcCounter B"
    using assms loop by (auto simp: compactLogs_def compactLog_def split: option.splits prod.splits)
qed

lemma book_compact:
  assumes "pair_inv A B" "compactLogs A B lt rt = Some (A', B')"
  shows "book_step (book A) (book A')" "book_step (book B) (book B')"
  using compactLogs_ok [OF assms(1), of lt rt] compact_counter [OF assms(2)] assms(2) book_collect
  by (metis option.inject prod.inject)+

lemma chan_step_books:
  assumes "chan_step sha256 lc lc'" "chan_inv lc"
  shows "book_step (book (logOf ours lc)) (book (logOf ours lc'))"
  using assms
proof cases
  case (AddStep htlc openKey i)
  then obtain pd where "lc' = lc\<lparr>localUpdateLog := appendHtlc pd (localUpdateLog lc)\<rparr>" "EntryType pd = Add"
    "pd_LogIndex pd = logIndex (localUpdateLog lc)" "pd_HtlcIndex pd = htlcCounter (localUpdateLog lc)"
    using appended_add by blast
  then show ?thesis using AddStep(2) assms(2) book_offer by (simp add: logOf_def book_stutter chan_inv_def)
next
  case (ReceiveStep htlc i)
  then obtain pd where "lc' = lc\<lparr>remoteUpdateLog := appendHtlc pd (remoteUpdateLog lc)\<rparr>" "EntryType pd = Add"
    "pd_LogIndex pd = logIndex (remoteUpdateLog lc)" "pd_HtlcIndex pd = htlcCounter (remoteUpdateLog lc)"
    using appended_receive by blast
  then show ?thesis using ReceiveStep(2) assms(2) book_offer by (simp add: logOf_def book_stutter chan_inv_def)
next
  case (FeeStep feePerKw)
  then obtain pd where "lc' = lc\<lparr>localUpdateLog := appendUpdate pd (localUpdateLog lc)\<rparr>" "EntryType pd = FeeUpdate"
    "pd_LogIndex pd = logIndex (localUpdateLog lc)"
    using appended_fee by blast
  then show ?thesis using FeeStep(2) assms(2) book_fee by (simp add: logOf_def book_stutter chan_inv_def)
next
  case (ReceiveFeeStep feePerKw)
  then obtain pd where "lc' = lc\<lparr>remoteUpdateLog := appendUpdate pd (remoteUpdateLog lc)\<rparr>" "EntryType pd = FeeUpdate"
    "pd_LogIndex pd = logIndex (remoteUpdateLog lc)"
    using appended_receive_fee by blast
  then show ?thesis using ReceiveFeeStep(2) assms(2) book_fee by (simp add: logOf_def book_stutter chan_inv_def)
next
  case (CommitStep ti oi fee b h rc v' b')
  have "log_inv (localUpdateLog lc)" "log_inv (remoteUpdateLog lc)" using assms(2) by (simp_all add: chan_inv_def)
  then have "book (logOf ours lc') = book (logOf ours lc)"
    using evaluate_logs [OF _ _ view_of_fetch_fee [OF assms(2)] CommitStep] table_logmap by (simp add: logOf_def book_def)
  then show ?thesis by (simp add: book_stutter)
next
  case (CompactStep lt rt A B)
  then show ?thesis using book_compact [of "localUpdateLog lc" "remoteUpdateLog lc"] assms(2)
    by (auto simp: logOf_def chan_inv_pair)
next
  case (SettleStep preimage i sourceRef destRef closeKey)
  then show ?thesis using settle.book_resolve(1,2) [OF assms(2)] by (cases ours) simp_all
next
  case (ReceiveSettleStep preimage i)
  then show ?thesis using recv_settle.book_resolve(1,2) [OF assms(2)] by (cases ours) simp_all
next
  case (FailStep i reason sourceRef destRef closeKey)
  then show ?thesis using fail.book_resolve(1,2) [OF assms(2)] by (cases ours) simp_all
next
  case (MalformedStep i failCode shaOnionBlob sourceRef)
  then show ?thesis using malformed.book_resolve(1,2) [OF assms(2)] by (cases ours) simp_all
next
  case (ReceiveFailStep i reason)
  then show ?thesis using recv_fail.book_resolve(1,2) [OF assms(2)] by (cases ours) simp_all
qed

end
