(* ===== verification/Lnwallet_Correct.thy ===== *)
theory Lnwallet_Correct
  imports Lnwallet_Book
begin

text \<open>
  The correctness of the channel state machine: its invariant, the conservation of funds, the
  refinement of the HTLC books, and what the operations guarantee.  The examples at the start
  are a Bitcoin channel with one commitment on each chain and an HTLC for it.
\<close>

subsection \<open>A sample channel\<close>

definition sample_cfg :: ChannelConfig where
  "sample_cfg = \<lparr>DustLimit = 354, ChanReserve = 1000, MaxPendingAmount = 100000000, MinHTLC = 1000,
     MaxAcceptedHtlcs = 30, CsvDelay = 144, MultiSigKey = [1], RevocationBasePoint = [2],
     PaymentBasePoint = [3], DelayBasePoint = [4], HtlcBasePoint = [5]\<rparr>"

definition sample_commit :: commitment where
  "sample_commit = \<lparr>c_height = 0, c_ourMessageIndex = 0, c_theirMessageIndex = 0, c_ourHtlcIndex = 0,
     c_theirHtlcIndex = 0, c_ourBtcBalance = 499817000, c_theirBtcBalance = 500000000,
     c_ourAssetBalance = 0, c_theirAssetBalance = 0, c_fee = 183, c_feePerKw = 253,
     c_dustLimit = 354, c_isOurs = True,
     c_txn = \<lparr>tx_Version = 2, tx_TxIn = [], tx_TxOut = [], tx_LockTime = 0\<rparr>, c_sig = [],
     c_outgoingHTLCs = [], c_incomingHTLCs = []\<rparr>"

definition sample_channel :: LightningChannel where
  "sample_channel = \<lparr>lc_BtcCapacity = 1000000, currentHeight = 0,
     channelState = \<lparr>oc_FundingOutpoint = \<lparr>op_Hash = replicate 32 7, op_Index = 0\<rparr>, oc_BtcCapacity = 1000000,
       oc_RemoteCurrentRevocation = Some [8], oc_RemoteNextRevocation = Some [9],
       oc_LocalShutdownScript = [10], oc_RemoteShutdownScript = [11], oc_ThawHeight = 0,
       oc_ShortChannelID = \<lparr>BlockHeight = 1, TxIndex = 1, TxPosition = 0\<rparr>, oc_AssetID = 0,
       oc_ChanType = 2, oc_IsInitiator = True, oc_LocalChanCfg = sample_cfg, oc_RemoteChanCfg = sample_cfg,
       oc_TotalMSatSent = 0, oc_TotalMSatReceived = 0, oc_TotalAssetSent = 0, oc_TotalAssetReceived = 0,
       oc_LocalFeePerKw = 253, oc_RemoteFeePerKw = 253\<rparr>,
     localCommitChain = [sample_commit], remoteCommitChain = [sample_commit],
     localUpdateLog = newUpdateLog 0 0, remoteUpdateLog = newUpdateLog 0 0\<rparr>"

definition sample_htlc :: UpdateAddHTLC where
  "sample_htlc = UpdateAddHTLC_zero\<lparr>ah_Amount := 5000000, ah_PaymentHash := [1, 2, 3], ah_OnionBlob := []\<rparr>"

definition sample_added :: LightningChannel where
  "sample_added = (case AddHTLC sample_channel sample_htlc None of Inr (i, lc) \<Rightarrow> lc | Inl e \<Rightarrow> sample_channel)"

definition sample_received :: LightningChannel where
  "sample_received = (case ReceiveHTLC sample_channel sample_htlc of Inr (i, lc) \<Rightarrow> lc | Inl e \<Rightarrow> sample_channel)"

definition sample_balances :: balances where
  "sample_balances = \<lparr>ourBtcBalance = 500000000, theirBtcBalance = 500000000, ourAssetBalance = 0, theirAssetBalance = 0\<rparr>"

lemma sample_reachable: "chan_reachable sha256 sample_channel"
  by (rule reach_fresh) (simp add: fresh_channel_def sample_channel_def newUpdateLog_def)

lemma sample_room: "has_room (localUpdateLog sample_channel)" "has_room (remoteUpdateLog sample_channel)"
  by (simp_all add: has_room_def sample_channel_def newUpdateLog_def)

lemma sample_AddHTLC: "AddHTLC sample_channel sample_htlc None = Inr (0, sample_added)"
proof -
  have "validateAddHtlc sample_channel (htlcAddDescriptor sample_channel sample_htlc None) = None"
    by code_simp
  moreover have "pd_HtlcIndex (htlcAddDescriptor sample_channel sample_htlc None) = 0"
    by (simp add: htlcAddDescriptor_def SetAmtFromMsgHtlc_def sample_channel_def newUpdateLog_def pd_zero_def Let_def)
  ultimately show ?thesis by (simp add: sample_added_def AddHTLC_def)
qed

lemma sample_ReceiveHTLC: "\<exists>i. ReceiveHTLC sample_channel sample_htlc = Inr (i, sample_received)"
proof -
  have "\<not> isl (ReceiveHTLC sample_channel sample_htlc)" by code_simp
  then show ?thesis by (auto simp: sample_received_def split: sum.splits prod.splits)
qed

lemma sample_added_reachable: "chan_reachable sha256 sample_added"
  by (rule reach_step [OF sample_reachable]) (rule AddStep [OF sample_AddHTLC sample_room(1)])

lemma sample_received_reachable: "chan_reachable sha256 sample_received"
  using sample_ReceiveHTLC reach_step [OF sample_reachable] ReceiveStep [OF _ sample_room(2)] by blast

subsection \<open>The invariant\<close>

text \<open>
  C2: In every state a channel reaches, its update logs are consistent: the indexes of both logs
  are exact, every settle or fail removes an HTLC of the other log with the same amounts, no HTLC
  is removed twice, and the HTLCs marked as modified are the removed ones.
\<close>

theorem reachable_channel_invariant: "chan_reachable sha256 lc \<Longrightarrow> chan_inv lc"
  by (rule chan_inv_reachable)

theorem reachable_channel_invariant_witness:
  "chan_reachable id sample_added \<and> ul_List (localUpdateLog sample_added) \<noteq> [] \<and> chan_inv sample_added"
proof -
  have "length (ul_List (localUpdateLog sample_added)) = 1" by code_simp
  then show ?thesis
    using sample_added_reachable [of id] reachable_channel_invariant [of id sample_added] by auto
qed

subsection \<open>Conservation of funds\<close>

text \<open>
  C1: Evaluating a commitment, at any log indexes and from any balances, neither creates nor
  destroys funds: the two balances and the HTLCs in flight on that chain have the same sum
  before and after, for assets in every channel and for Bitcoin in a Bitcoin channel.
\<close>

theorem evaluation_conserves_funds:
  assumes "chan_reachable sha256 lc" and "h \<noteq> 0"
    and "evaluateHTLCView lc ((fetchHTLCView lc ti oi)\<lparr>v_feePerKw := fee\<rparr>) b h rc True = (lc', Inr (v', b'))"
  shows "ourAssetBalance b' + theirAssetBalance b' + inFlight pd_AssetAmount rc lc' =
      ourAssetBalance b + theirAssetBalance b + inFlight pd_AssetAmount rc lc \<and>
    (oc_AssetID (channelState lc) = BtcAssetId \<longrightarrow>
      ourBtcBalance b' + theirBtcBalance b' + inFlight pd_BtcAmount rc lc' =
      ourBtcBalance b + theirBtcBalance b + inFlight pd_BtcAmount rc lc)"
  using evaluate_conserves [OF chan_inv_reachable [OF assms(1)] refl assms(3,2)] by blast

theorem evaluation_conserves_funds_witness:
  "\<exists>lc' v' b'. evaluateHTLCView sample_added ((fetchHTLCView sample_added 0 1)\<lparr>v_feePerKw := 253\<rparr>)
      sample_balances 1 True True = (lc', Inr (v', b')) \<and> v_ourUpdates v' \<noteq> [] \<and>
    ourBtcBalance b' + theirBtcBalance b' + inFlight pd_BtcAmount True lc' =
      1000000000 + inFlight pd_BtcAmount True sample_added"
proof -
  have "(case snd (evaluateHTLCView sample_added ((fetchHTLCView sample_added 0 1)\<lparr>v_feePerKw := 253\<rparr>)
      sample_balances 1 True True) of Inl e \<Rightarrow> False | Inr (v', b') \<Rightarrow> length (v_ourUpdates v') = 1)"
    by code_simp
  then obtain lc' v' b' where ev: "evaluateHTLCView sample_added
      ((fetchHTLCView sample_added 0 1)\<lparr>v_feePerKw := 253\<rparr>) sample_balances 1 True True = (lc', Inr (v', b'))"
    and v': "v_ourUpdates v' \<noteq> []"
    by (cases "evaluateHTLCView sample_added ((fetchHTLCView sample_added 0 1)\<lparr>v_feePerKw := 253\<rparr>)
      sample_balances 1 True True") (force split: sum.splits)
  have "oc_AssetID (channelState sample_added) = BtcAssetId" by code_simp
  then show ?thesis
    using evaluation_conserves_funds [OF sample_added_reachable [of id] _ ev] ev v'
    by (auto simp: sample_balances_def)
qed

subsection \<open>Compaction\<close>

text \<open>
  C22: In every state a channel reaches, compacting its logs never dereferences a missing entry,
  whatever the tails: it returns two logs, and these keep the invariant and the HTLCs in flight
  on both chains.
\<close>

theorem compaction_is_safe:
  assumes "chan_reachable sha256 lc"
  shows "\<exists>A B. compactLogs (localUpdateLog lc) (remoteUpdateLog lc) lt rt = Some (A, B) \<and>
    (let lc' = lc\<lparr>localUpdateLog := A, remoteUpdateLog := B\<rparr>
     in chan_inv lc' \<and> inFlight pd_BtcAmount rc lc' = inFlight pd_BtcAmount rc lc \<and>
        inFlight pd_AssetAmount rc lc' = inFlight pd_AssetAmount rc lc)"
proof -
  have pair: "pair_inv (localUpdateLog lc) (remoteUpdateLog lc)"
    using chan_inv_reachable [OF assms] by (simp add: chan_inv_pair)
  show ?thesis
  proof (rule compactLogs_ok [OF pair, of lt rt])
    fix A B
    assume c: "compactLogs (localUpdateLog lc) (remoteUpdateLog lc) lt rt = Some (A, B)" and inv: "pair_inv A B"
      and fl: "\<And>f rc. isAmount f \<Longrightarrow> pairFlight f rc A B = pairFlight f rc (localUpdateLog lc) (remoteUpdateLog lc)"
    have "inFlight f rc (lc\<lparr>localUpdateLog := A, remoteUpdateLog := B\<rparr>) = inFlight f rc lc" if "isAmount f" for f
      using fl [OF that] by (simp add: inFlight_pair [of _ _ _ True])
    from this [of pd_BtcAmount] this [of pd_AssetAmount] show ?thesis
      using c inv by (simp add: isAmount_def Let_def chan_inv_pair)
  qed
qed

theorem compaction_is_safe_witness:
  "\<exists>A B. compactLogs (localUpdateLog sample_added) (remoteUpdateLog sample_added) 3 4 = Some (A, B) \<and>
    inFlight pd_BtcAmount True (sample_added\<lparr>localUpdateLog := A, remoteUpdateLog := B\<rparr>) =
    inFlight pd_BtcAmount True sample_added"
  using compaction_is_safe [OF sample_added_reachable [of id], of 3 4 True] by (auto simp: Let_def)

subsection \<open>Refinement and its consequences\<close>

text \<open>
  C19: Every step of a channel in a state it reaches is, for each of the two logs, a step of the
  abstract book of HTLCs: it offers the next number, resolves an open HTLC, drops resolved HTLCs,
  or changes nothing.
\<close>

theorem channel_refines_books:
  assumes "chan_reachable sha256 lc" "chan_step sha256 lc lc'"
  shows "book_step (book (localUpdateLog lc)) (book (localUpdateLog lc')) \<and>
    book_step (book (remoteUpdateLog lc)) (book (remoteUpdateLog lc'))"
  using chan_step_books [OF assms(2) chan_inv_reachable [OF assms(1)], of True]
    chan_step_books [OF assms(2) chan_inv_reachable [OF assms(1)], of False] by simp

theorem channel_refines_books_witness:
  "chan_step id sample_channel sample_added \<and> bk_next (book (localUpdateLog sample_added)) = 1 \<and>
    book_step (book (localUpdateLog sample_channel)) (book (localUpdateLog sample_added))"
proof -
  have step: "chan_step id sample_channel sample_added" by (rule AddStep [OF sample_AddHTLC sample_room(1)])
  have "htlcCounter (localUpdateLog sample_added) = 1" by code_simp
  then show ?thesis
    using channel_refines_books [OF sample_reachable step] step by (simp add: book_def)
qed

lemma closed_in_steps:
  assumes "(chan_step sha256)\<^sup>*\<^sup>* lc lc'" "chan_inv lc" "closed_in i (book (logOf ours lc))"
  shows "closed_in i (book (logOf ours lc'))"
proof -
  have "chan_inv lc' \<and> closed_in i (book (logOf ours lc'))"
    using assms
    by (induction rule: rtranclp_induct) (auto intro: chan_inv_step closed_in_step chan_step_books)
  then show ?thesis ..
qed

text \<open>
  C17: An HTLC the channel has settled stays settled: in every state reached later, after any
  number of commitments and compactions, settling or failing it again is refused.
\<close>

theorem settled_htlc_stays_settled:
  assumes "chan_reachable sha256 lc" "has_room (localUpdateLog lc)"
    and "SettleHTLC sha256 lc preimage i sourceRef destRef closeKey = Inr lc'"
    and "(chan_step sha256)\<^sup>*\<^sup>* lc' lc''"
  shows "(\<exists>e. SettleHTLC sha256 lc'' preimage' i sourceRef' destRef' closeKey' = Inl e) \<and>
    (\<exists>e. FailHTLC lc'' i reason sourceRef' destRef' closeKey' = Inl e) \<and>
    (\<exists>e. MalformedFailHTLC lc'' i failCode shaOnionBlob sourceRef' = Inl e)"
proof -
  have inv: "chan_inv lc" by (rule chan_inv_reachable [OF assms(1)])
  have inv': "chan_inv lc'" by (rule settle.keeps_inv [OF inv _ assms(3)]) (use assms(2) in simp)
  have "closed_in i (book (logOf False lc'))"
    using settle.book_resolve(3) [OF inv _ assms(3)] assms(2) by simp
  then have "closed_in i (book (logOf (\<not> True) lc''))"
    using closed_in_steps [OF assms(4) inv', of i False] by simp
  then show ?thesis
    using settle.closed_refused fail.closed_refused malformed.closed_refused by blast
qed

theorem settled_htlc_stays_settled_witness:
  "\<exists>lc. SettleHTLC (\<lambda>b. [1, 2, 3]) sample_received [9] 0 None None None = Inr lc \<and>
     (\<exists>e. FailHTLC lc 0 [] None None None = Inl e)"
proof -
  have "\<not> isl (SettleHTLC (\<lambda>b. [1, 2, 3]) sample_received [9] 0 None None None)" by code_simp
  then obtain lc where lc: "SettleHTLC (\<lambda>b. [1, 2, 3]) sample_received [9] 0 None None None = Inr lc"
    by (cases "SettleHTLC (\<lambda>b. [1, 2, 3]) sample_received [9] 0 None None None") auto
  have "logIndex (localUpdateLog sample_received) = 0" "htlcCounter (localUpdateLog sample_received) = 0" by code_simp+
  then have "has_room (localUpdateLog sample_received)" by (simp add: has_room_def)
  then show ?thesis
    using settled_htlc_stays_settled [OF sample_received_reachable _ lc rtranclp.rtrancl_refl] lc by blast
qed



subsection \<open>What the operations guarantee\<close>


text \<open>
  The two parties agree on the dust HTLCs of a commitment: an HTLC that is outgoing for one
  party and incoming for the other is dust on the commitment transaction of either party for both
  or for neither of them.
\<close>

theorem HtlcIsDust_agreement:
  "HtlcIsDust chanType incoming ourCommit feePerKw amt dustLimit assetId \<longleftrightarrow>
   HtlcIsDust chanType (\<not> incoming) (\<not> ourCommit) feePerKw amt dustLimit assetId"
  by (simp add: HtlcIsDust_def)

text \<open>
  C25: Our balance on a commitment, in a channel of any asset, is the balance it starts from, plus
  the HTLCs we settle and the HTLCs the peer fails for the first time on that chain, less the HTLCs
  we add to it; and the HTLCs of ours on it are the adds of the view that the peer's view does not
  remove.
\<close>

theorem evaluation_balances:
  assumes "chan_reachable sha256 lc" and view: "view = (fetchHTLCView lc ti oi)\<lparr>v_feePerKw := fee\<rparr>"
    and ev: "evaluateHTLCView lc view b h rc mut = (lc', Inr (v', b'))"
  shows "ourAssetBalance b' = ourAssetBalance b +
      sumOf pd_AssetAmount (\<lambda>p. freshRemove rc p \<and> EntryType p = Settle) (v_ourUpdates view) +
      sumOf pd_AssetAmount (\<lambda>p. freshRemove rc p \<and> EntryType p \<noteq> Settle) (v_theirUpdates view) -
      sumOf pd_AssetAmount (freshAdd rc) (v_ourUpdates view) \<and>
    map fst (v_ourUpdates v') =
      map fst (filter (\<lambda>e. EntryType (snd e) = Add \<and> pd_HtlcIndex (snd e) \<notin> parentsOf (v_theirUpdates view))
        (v_ourUpdates view))"
proof -
  have inv: "chan_inv lc" by (rule chan_inv_reachable [OF assms(1)])
  then have L: "log_inv (localUpdateLog lc)" and R: "log_inv (remoteUpdateLog lc)" by (simp_all add: chan_inv_def)
  have vo: "view_of lc view" unfolding view by (rule view_of_fetch_fee [OF inv])
  note spec = evaluate_spec [OF L R vo ev]
  have "set (v_ourUpdates view) \<subseteq> set (ul_List (localUpdateLog lc))" using vo by (simp add: view_of_def)
  then have "sumOf pd_AssetAmount (\<lambda>p. active (parentsOf (v_theirUpdates view)) p \<and> addHeight rc p = 0)
      (v_ourUpdates view) = sumOf pd_AssetAmount (freshAdd rc) (v_ourUpdates view)"
    by (rule sumOf_fresh [OF L]) (erule spec(8), assumption)
  moreover have "map fst (v_ourUpdates v') =
      map fst (filter (\<lambda>e. EntryType (snd e) = Add \<and> pd_HtlcIndex (snd e) \<notin> parentsOf (v_theirUpdates view))
        (v_ourUpdates view))"
    by (simp add: spec(1) active_def comp_def)
  ultimately show ?thesis by (simp add: spec(3) credited_def)
qed

theorem evaluation_balances_witness:
  "\<exists>lc' v' b'. evaluateHTLCView sample_added ((fetchHTLCView sample_added 0 1)\<lparr>v_feePerKw := 253\<rparr>)
      sample_balances 1 True False = (lc', Inr (v', b')) \<and> length (v_ourUpdates v') = 1 \<and> ourAssetBalance b' = 0"
proof -
  have "(case snd (evaluateHTLCView sample_added ((fetchHTLCView sample_added 0 1)\<lparr>v_feePerKw := 253\<rparr>)
      sample_balances 1 True False) of Inl e \<Rightarrow> False | Inr (v', b') \<Rightarrow> length (v_ourUpdates v') = 1)"
    by code_simp
  then obtain lc' v' b' where ev: "evaluateHTLCView sample_added
      ((fetchHTLCView sample_added 0 1)\<lparr>v_feePerKw := 253\<rparr>) sample_balances 1 True False = (lc', Inr (v', b'))"
    and v': "length (v_ourUpdates v') = 1"
    by (cases "evaluateHTLCView sample_added ((fetchHTLCView sample_added 0 1)\<lparr>v_feePerKw := 253\<rparr>)
      sample_balances 1 True False") (force split: sum.splits)
  have "sumOf pd_AssetAmount (freshAdd True) (v_ourUpdates ((fetchHTLCView sample_added 0 1)\<lparr>v_feePerKw := 253\<rparr>)) = 0"
    "sumOf pd_AssetAmount (\<lambda>p. freshRemove True p \<and> EntryType p = Settle)
       (v_ourUpdates ((fetchHTLCView sample_added 0 1)\<lparr>v_feePerKw := 253\<rparr>)) = 0"
    "v_theirUpdates ((fetchHTLCView sample_added 0 1)\<lparr>v_feePerKw := 253\<rparr>) = []"
    by code_simp+
  then show ?thesis
    using evaluation_balances [OF sample_added_reachable [of id] refl ev] ev v' by (auto simp: sample_balances_def)
qed

text \<open>
  C33: An HTLC of an asset is added whatever its amount: no balance, reserve, pending limit or
  minimum is checked for it, on either side of the channel.
\<close>

theorem asset_htlc_unchecked:
  assumes "ah_AssetID htlc \<noteq> BtcAssetId"
  shows "(\<exists>lc'. AddHTLC lc htlc openKey = Inr (htlcCounter (localUpdateLog lc), lc')) \<and>
    (remoteCommitChain lc \<noteq> [] \<and> ah_ID htlc = htlcCounter (remoteUpdateLog lc) \<longrightarrow>
      (\<exists>lc'. ReceiveHTLC lc htlc = Inr (htlcCounter (remoteUpdateLog lc), lc')))"
proof -
  have "BtcAssetId < ah_AssetID htlc" using assms by (simp add: BtcAssetId_def word_neq_0_conv)
  then have "\<exists>lc'. AddHTLC lc htlc openKey = Inr (htlcCounter (localUpdateLog lc), lc')"
    using assms by (simp add: AddHTLC_def validateAddHtlc_def htlcAddDescriptor_def SetAmtFromMsgHtlc_def Let_def pd_zero_def)
  moreover have "\<exists>lc'. ReceiveHTLC lc htlc = Inr (htlcCounter (remoteUpdateLog lc), lc')"
    if "remoteCommitChain lc \<noteq> []" "ah_ID htlc = htlcCounter (remoteUpdateLog lc)"
    using that assms
    by (cases "remoteCommitChain lc")
      (auto simp: ReceiveHTLC_def chain_tail_def validateCommitmentSanity_def SetAmtFromMsgHtlc_def Let_def pd_zero_def)
  ultimately show ?thesis by blast
qed

theorem asset_htlc_unchecked_witness:
  "\<exists>lc'. AddHTLC sample_channel (sample_htlc\<lparr>ah_AssetID := 31, ah_Amount := 2 ^ 60\<rparr>) None =
     Inr (htlcCounter (localUpdateLog sample_channel), lc')"
  using asset_htlc_unchecked [of "sample_htlc\<lparr>ah_AssetID := 31, ah_Amount := 2 ^ 60\<rparr>" sample_channel None]
  by (simp add: BtcAssetId_def)

subsection \<open>Limits of Bitcoin HTLCs\<close>

lemma validateUpdatesLoop_Inr:
  "validateUpdatesLoop c es n a = Inr (n', a') \<Longrightarrow>
     (\<forall>e \<in> set es. EntryType (snd e) = Add \<longrightarrow> GetMsgAmt (snd e) \<noteq> 0 \<and> MinHTLC c \<le> GetMsgAmt (snd e)) \<and>
     n' = n + of_nat (length (adds es)) \<and> a' = a + sumOf GetMsgAmt (\<lambda>p. EntryType p = Add) es"
proof (induction es arbitrary: n a)
  case (Cons e es)
  show ?case
  proof (cases "EntryType (snd e) = Add")
    case True
    then have amt: "GetMsgAmt (snd e) \<noteq> 0" "MinHTLC c \<le> GetMsgAmt (snd e)"
      and rest: "validateUpdatesLoop c es (n + 1) (a + GetMsgAmt (snd e)) = Inr (n', a')"
      using Cons.prems by (simp_all add: Let_def not_less split: if_splits)
    show ?thesis using Cons.IH [OF rest] True amt by (simp add: adds_def add.assoc)
  next
    case False
    then show ?thesis using Cons by (simp add: adds_def Let_def)
  qed
qed (simp add: adds_def)

lemma validateUpdates_None:
  assumes "validateUpdates es c = None"
  shows "\<forall>e \<in> set es. EntryType (snd e) = Add \<longrightarrow> GetMsgAmt (snd e) \<noteq> 0 \<and> MinHTLC c \<le> GetMsgAmt (snd e)"
    and "sumOf GetMsgAmt (\<lambda>p. EntryType p = Add) es \<le> MaxPendingAmount c"
    and "of_nat (length (adds es)) \<le> MaxAcceptedHtlcs c"
  using assms validateUpdatesLoop_Inr [of c es 0 0]
  by (auto simp: validateUpdates_def not_less split: sum.splits if_splits)

definition predictedView :: "LightningChannel \<Rightarrow> u64 \<Rightarrow> PaymentDescriptor \<Rightarrow> htlcView" where
  "predictedView lc ti pd = (let v = fetchHTLCView lc ti (logIndex (localUpdateLog lc))
     in v\<lparr>v_ourUpdates := v_ourUpdates v @ [(ul_next (localUpdateLog lc), pd)]\<rparr>)"

text \<open>The limits of a commitment with the balances \<open>b\<close>, the weight \<open>w\<close> and our HTLCs \<open>es\<close>.\<close>

definition within_limits :: "LightningChannel \<Rightarrow> balances \<Rightarrow> int64 \<Rightarrow> htlcView \<Rightarrow> bool" where
  "within_limits lc b w v \<longleftrightarrow>
     (let cfg = oc_LocalChanCfg (channelState lc);
          fee = NewMSatFromSatoshis (FeeForWeight (v_feePerKw v) w)
      in 0 \<le> sint (ourBtcBalance b - (if oc_IsInitiator (channelState lc) then fee else 0)) \<and>
         0 \<le> sint (theirBtcBalance b - (if oc_IsInitiator (channelState lc) then 0 else fee)) \<and>
         (\<forall>e \<in> set (v_ourUpdates v). EntryType (snd e) = Add \<longrightarrow> GetMsgAmt (snd e) \<noteq> 0 \<and> MinHTLC cfg \<le> GetMsgAmt (snd e)) \<and>
         sumOf GetMsgAmt (\<lambda>p. EntryType p = Add) (v_ourUpdates v) \<le> MaxPendingAmount cfg \<and>
         of_nat (length (adds (v_ourUpdates v))) \<le> MaxAcceptedHtlcs cfg)"

lemma sanity_limits:
  assumes "validateCommitmentSanity lc ti (logIndex (localUpdateLog lc)) rc (Some pd) None = None"
    and "pd_AssetID pd = BtcAssetId"
  shows "\<exists>b w v. snd (computeView lc (predictedView lc ti pd) rc False) = Inr (b, w, v) \<and> within_limits lc b w v"
proof -
  have view: "(fetchHTLCView lc ti (logIndex (localUpdateLog lc)))
      \<lparr>v_ourUpdates := v_ourUpdates (fetchHTLCView lc ti (logIndex (localUpdateLog lc))) @
         map (Pair (ul_next (localUpdateLog lc))) (case Some pd of None \<Rightarrow> [] | Some pd \<Rightarrow> [pd]),
       v_theirUpdates := v_theirUpdates (fetchHTLCView lc ti (logIndex (localUpdateLog lc))) @
         map (Pair (ul_next (remoteUpdateLog lc))) (case None of None \<Rightarrow> [] | Some pd \<Rightarrow> [pd])\<rparr> = predictedView lc ti pd"
    by (simp add: predictedView_def Let_def)
  have eq: "validateCommitmentSanity lc ti (logIndex (localUpdateLog lc)) rc (Some pd) None =
      (if 0 < sint (pd_AssetAmount pd) then Some ErrMissingAssetID
       else case chain_tip (if rc then remoteCommitChain lc else localCommitChain lc) of
         None \<Rightarrow> Some NilPanic
       | Some tip \<Rightarrow> (case snd (computeView lc (predictedView lc ti pd) rc False) of
           Inl e \<Rightarrow> Some e
         | Inr (b, w, v) \<Rightarrow> (case validateBalances lc tip b w (v_feePerKw v) of
             Some e \<Rightarrow> Some e
           | None \<Rightarrow> (case validateUpdates (v_theirUpdates v) (oc_RemoteChanCfg (channelState lc)) of
               Some e \<Rightarrow> Some e
             | None \<Rightarrow> validateUpdates (v_ourUpdates v) (oc_LocalChanCfg (channelState lc))))))"
    unfolding validateCommitmentSanity_def Let_def view using assms(2) by simp
  obtain b w v tip where cv: "snd (computeView lc (predictedView lc ti pd) rc False) = Inr (b, w, v)"
    and bal: "validateBalances lc tip b w (v_feePerKw v) = None"
    and upd: "validateUpdates (v_ourUpdates v) (oc_LocalChanCfg (channelState lc)) = None"
    using assms(1) unfolding eq
    by (cases "chain_tip (if rc then remoteCommitChain lc else localCommitChain lc)";
        cases "snd (computeView lc (predictedView lc ti pd) rc False)")
      (simp_all split: if_splits option.splits prod.splits)
  have "within_limits lc b w v"
    using bal validateUpdates_None [OF upd]
    by (auto simp: within_limits_def validateBalances_def Let_def not_less split: if_splits)
  with cv show ?thesis by blast
qed

lemma computeView_InrD:
  assumes "snd (computeView lc view rc mut) = Inr (b, w, v)"
  shows "\<exists>b0 h fee lc'. evaluateHTLCView lc (view\<lparr>v_feePerKw := fee\<rparr>) b0 h rc mut = (lc', Inr (v, b))"
proof (cases "chain_tip (if rc then remoteCommitChain lc else localCommitChain lc)")
  case None
  with assms show ?thesis by (simp add: computeView_def)
next
  case (Some tip)
  obtain lc' r where ev: "evaluateHTLCView lc (view\<lparr>v_feePerKw := c_feePerKw tip\<rparr>) (tipBalances lc tip)
      (c_height tip + 1) rc mut = (lc', r)"
    by fastforce
  have "r = Inr (v, b)" using assms by (cases r) (auto simp: computeView_def Some ev)
  with ev show ?thesis by blast
qed



end
