(* ===== verification/Input_Scripts.thy ===== *)
theory Input_Scripts
  imports Omni_Opreturn "HOL-Library.List_Lexorder"
begin

text \<open>
  \<^verbatim>\<open>input/script_utils.go\<close>: the scripts of the outputs of a channel, the witnesses that spend
  them, and the derivation of the keys of a commitment.  A script is the list of the calls on the
  \<^verbatim>\<open>txscript.ScriptBuilder\<close>; the serialization of the builder, the hash functions and the curve are
  code outside the repository and are the parameter \<open>crypto\<close>.  A public key is its compressed
  serialization, a private key the number \<^verbatim>\<open>D\<close>, a signature its serialization.
\<close>

subsection \<open>Scripts and primitives\<close>

datatype opcode =
    OP_0 | OP_1 | OP_2 | OP_16 | OP_IF | OP_NOTIF | OP_ELSE | OP_ENDIF | OP_DUP | OP_IFDUP
  | OP_DROP | OP_SWAP | OP_SIZE | OP_EQUAL | OP_EQUALVERIFY | OP_HASH160 | OP_CHECKSIG
  | OP_CHECKSIGVERIFY | OP_CHECKMULTISIG | OP_CHECKLOCKTIMEVERIFY | OP_CHECKSEQUENCEVERIFY

datatype script_op = AddOp opcode | AddData bytes | AddInt64 int

record crypto =
  cr_Sha256 :: "bytes \<Rightarrow> bytes"
  cr_Ripemd160 :: "bytes \<Rightarrow> bytes"
  cr_Hash160 :: "bytes \<Rightarrow> bytes"
  cr_N :: int
  cr_ScalarBaseMult :: "bytes \<Rightarrow> bytes"
  cr_ScalarMult :: "bytes \<Rightarrow> bytes \<Rightarrow> bytes"
  cr_Add :: "bytes \<Rightarrow> bytes \<Rightarrow> bytes"
  cr_Script :: "script_op list \<Rightarrow> bytes option"

definition Ripemd160H :: "'z crypto_scheme \<Rightarrow> bytes \<Rightarrow> bytes" where
  "Ripemd160H x d = cr_Ripemd160 x d"

text \<open>\<^verbatim>\<open>big.Int.SetBytes\<close> and \<^verbatim>\<open>big.Int.Bytes\<close>: big-endian, without leading zeros.\<close>

definition SetBytes :: "bytes \<Rightarrow> int" where
  "SetBytes bs = foldl (\<lambda>n b. n * 256 + uint b) 0 bs"

function intBytes :: "nat \<Rightarrow> bytes" where
  "intBytes n = (if n = 0 then [] else intBytes (n div 256) @ [word_of_nat (n mod 256)])"
  by pat_completeness auto
termination by (relation "measure id") auto

declare intBytes.simps [simp del]

lemma SetBytes_intBytes: "SetBytes (intBytes n) = int n"
proof (induction n rule: intBytes.induct)
  case (1 n)
  show ?case
  proof (cases "n = 0")
    case False
    have "uint (word_of_nat (n mod 256) :: byte) = int (n mod 256)"
      by (simp add: unsigned_of_nat take_bit_eq_mod)
    then show ?thesis
      using 1 [OF False] False by (subst intBytes.simps) (simp add: SetBytes_def zdiv_int zmod_int)
  qed (simp add: SetBytes_def intBytes.simps)
qed

type_synonym PrivateKey = int

definition PubKey :: "'z crypto_scheme \<Rightarrow> PrivateKey \<Rightarrow> bytes" where
  "PubKey x d = cr_ScalarBaseMult x (intBytes (nat d))"

text \<open>\<^verbatim>\<open>PrivKeyFromBytes\<close> of the bytes of a number is that number.\<close>

subsection \<open>Key derivation\<close>

definition SingleTweakBytes :: "'z crypto_scheme \<Rightarrow> bytes \<Rightarrow> bytes \<Rightarrow> bytes" where
  "SingleTweakBytes x commitPoint basePoint = cr_Sha256 x (commitPoint @ basePoint)"

definition TweakPubKeyWithTweak :: "'z crypto_scheme \<Rightarrow> bytes \<Rightarrow> bytes \<Rightarrow> bytes" where
  "TweakPubKeyWithTweak x pubKey tweakBytes = cr_Add x pubKey (cr_ScalarBaseMult x tweakBytes)"

definition TweakPubKey :: "'z crypto_scheme \<Rightarrow> bytes \<Rightarrow> bytes \<Rightarrow> bytes" where
  "TweakPubKey x basePoint commitPoint =
     TweakPubKeyWithTweak x basePoint (SingleTweakBytes x commitPoint basePoint)"

definition TweakPrivKey :: "'z crypto_scheme \<Rightarrow> PrivateKey \<Rightarrow> bytes \<Rightarrow> PrivateKey" where
  "TweakPrivKey x basePriv commitTweak = (SetBytes commitTweak + basePriv) mod cr_N x"

definition DeriveRevocationPubkey :: "'z crypto_scheme \<Rightarrow> bytes \<Rightarrow> bytes \<Rightarrow> bytes" where
  "DeriveRevocationPubkey x revokeBase commitPoint =
     (let r = cr_ScalarMult x revokeBase (SingleTweakBytes x revokeBase commitPoint);
          c = cr_ScalarMult x commitPoint (SingleTweakBytes x commitPoint revokeBase)
      in cr_Add x r c)"

definition DeriveRevocationPrivKey :: "'z crypto_scheme \<Rightarrow> PrivateKey \<Rightarrow> PrivateKey \<Rightarrow> PrivateKey" where
  "DeriveRevocationPrivKey x revokeBasePriv commitSecret =
     (let revokeTweakInt = SetBytes (SingleTweakBytes x (PubKey x revokeBasePriv) (PubKey x commitSecret));
          commitTweakInt = SetBytes (SingleTweakBytes x (PubKey x commitSecret) (PubKey x revokeBasePriv))
      in (revokeTweakInt * revokeBasePriv + commitTweakInt * commitSecret) mod cr_N x)"

definition ComputeCommitmentPoint :: "'z crypto_scheme \<Rightarrow> bytes \<Rightarrow> bytes" where
  "ComputeCommitmentPoint x commitSecret = cr_ScalarBaseMult x commitSecret"

text \<open>
  What the derivations rely on: the points that are multiples of the generator form a cyclic
  group of order \<^verbatim>\<open>N\<close>, and a scalar is read big-endian.
\<close>

definition curve_ok :: "'z crypto_scheme \<Rightarrow> bool" where
  "curve_ok x \<longleftrightarrow> 0 < cr_N x \<and> (\<exists>G. (\<forall>bs. cr_ScalarBaseMult x bs = G (SetBytes bs)) \<and>
     (\<forall>a bs. cr_ScalarMult x (G a) bs = G (a * SetBytes bs)) \<and>
     (\<forall>a b. cr_Add x (G a) (G b) = G (a + b)) \<and> (\<forall>a. G (a mod cr_N x) = G a))"

lemma PubKey_nonneg: "curve_ok x \<Longrightarrow> \<exists>G. (\<forall>d \<ge> 0. PubKey x d = G d) \<and>
     (\<forall>bs. cr_ScalarBaseMult x bs = G (SetBytes bs)) \<and>
     (\<forall>a bs. cr_ScalarMult x (G a) bs = G (a * SetBytes bs)) \<and>
     (\<forall>a b. cr_Add x (G a) (G b) = G (a + b)) \<and> (\<forall>a. G (a mod cr_N x) = G a)"
  by (auto simp: curve_ok_def PubKey_def SetBytes_intBytes)

subsection \<open>Output scripts\<close>

definition GenerateP2SH :: "'z crypto_scheme \<Rightarrow> bytes \<Rightarrow> bytes option" where
  "GenerateP2SH x script = cr_Script x [AddOp OP_HASH160, AddData (cr_Hash160 x script), AddOp OP_EQUAL]"

definition GenerateP2PKH :: "'z crypto_scheme \<Rightarrow> bytes \<Rightarrow> bytes option" where
  "GenerateP2PKH x pubkey = cr_Script x [AddOp OP_DUP, AddOp OP_HASH160, AddData (cr_Hash160 x pubkey),
     AddOp OP_EQUALVERIFY, AddOp OP_CHECKSIG]"

definition GenerateUnknownWitness :: "'z crypto_scheme \<Rightarrow> bytes option" where
  "GenerateUnknownWitness x = cr_Script x [AddOp OP_0, AddData (replicate 40 0)]"

definition multiSigOps :: "bytes \<Rightarrow> bytes \<Rightarrow> script_op list" where
  "multiSigOps aPub bPub =
     (let (aPub, bPub) = (if aPub > bPub then (bPub, aPub) else (aPub, bPub))
      in [AddOp OP_2, AddData aPub, AddData bPub, AddOp OP_2, AddOp OP_CHECKMULTISIG])"

definition GenMultiSigScript :: "'z crypto_scheme \<Rightarrow> bytes \<Rightarrow> bytes \<Rightarrow> bytes option" where
  "GenMultiSigScript x aPub bPub =
     (if length aPub \<noteq> 33 \<or> length bPub \<noteq> 33 then None else cr_Script x (multiSigOps aPub bPub))"

definition GenFundingPkScript :: "'z crypto_scheme \<Rightarrow> bytes \<Rightarrow> bytes \<Rightarrow> u64 \<Rightarrow> (bytes \<times> TxOut) option" where
  "GenFundingPkScript x aPub bPub amt =
     (if sint amt \<le> 0 then None
      else case GenMultiSigScript x aPub bPub of
             None \<Rightarrow> None
           | Some witnessScript \<Rightarrow> (case GenerateP2SH x witnessScript of
                 None \<Rightarrow> None
               | Some pkScript \<Rightarrow> Some (witnessScript, \<lparr>to_Value = amt, to_PkScript = pkScript\<rparr>)))"

text \<open>The 1-block delay that anchor channels add to the clauses other than revocation.\<close>

definition confirmedOps :: "bool \<Rightarrow> script_op list" where
  "confirmedOps confirmedSpend =
     (if confirmedSpend then [AddOp OP_1, AddOp OP_CHECKSEQUENCEVERIFY, AddOp OP_DROP] else [])"

definition senderHtlcOps :: "'z crypto_scheme \<Rightarrow> bytes \<Rightarrow> bytes \<Rightarrow> bytes \<Rightarrow> bytes \<Rightarrow> bool \<Rightarrow> script_op list" where
  "senderHtlcOps x senderHtlcKey receiverHtlcKey revocationKey paymentHash confirmedSpend =
     [AddOp OP_DUP, AddOp OP_HASH160, AddData (cr_Hash160 x revocationKey), AddOp OP_EQUAL,
      AddOp OP_IF, AddOp OP_CHECKSIG,
      AddOp OP_ELSE, AddData receiverHtlcKey, AddOp OP_SWAP, AddOp OP_SIZE, AddInt64 32, AddOp OP_EQUAL,
      AddOp OP_NOTIF, AddOp OP_DROP, AddOp OP_2, AddOp OP_SWAP, AddData senderHtlcKey, AddOp OP_2,
      AddOp OP_CHECKMULTISIG,
      AddOp OP_ELSE, AddOp OP_HASH160, AddData (Ripemd160H x paymentHash), AddOp OP_EQUALVERIFY,
      AddOp OP_CHECKSIG, AddOp OP_ENDIF] @
     confirmedOps confirmedSpend @ [AddOp OP_ENDIF]"

definition SenderHTLCScript :: "'z crypto_scheme \<Rightarrow> bytes \<Rightarrow> bytes \<Rightarrow> bytes \<Rightarrow> bytes \<Rightarrow> bool \<Rightarrow> bytes option" where
  "SenderHTLCScript x senderHtlcKey receiverHtlcKey revocationKey paymentHash confirmedSpend =
     cr_Script x (senderHtlcOps x senderHtlcKey receiverHtlcKey revocationKey paymentHash confirmedSpend)"

definition receiverHtlcOps :: "'z crypto_scheme \<Rightarrow> u32 \<Rightarrow> bytes \<Rightarrow> bytes \<Rightarrow> bytes \<Rightarrow> bytes \<Rightarrow> bool \<Rightarrow>
    script_op list" where
  "receiverHtlcOps x cltvExpiry senderHtlcKey receiverHtlcKey revocationKey paymentHash confirmedSpend =
     [AddOp OP_DUP, AddOp OP_HASH160, AddData (cr_Hash160 x revocationKey), AddOp OP_EQUAL,
      AddOp OP_IF, AddOp OP_CHECKSIG,
      AddOp OP_ELSE, AddData senderHtlcKey, AddOp OP_SWAP, AddOp OP_SIZE, AddInt64 32, AddOp OP_EQUAL,
      AddOp OP_IF, AddOp OP_HASH160, AddData (Ripemd160H x paymentHash), AddOp OP_EQUALVERIFY,
      AddOp OP_2, AddOp OP_SWAP, AddData receiverHtlcKey, AddOp OP_2, AddOp OP_CHECKMULTISIG,
      AddOp OP_ELSE, AddOp OP_DROP, AddInt64 (uint cltvExpiry), AddOp OP_CHECKLOCKTIMEVERIFY,
      AddOp OP_DROP, AddOp OP_CHECKSIG, AddOp OP_ENDIF] @
     confirmedOps confirmedSpend @ [AddOp OP_ENDIF]"

definition ReceiverHTLCScript :: "'z crypto_scheme \<Rightarrow> u32 \<Rightarrow> bytes \<Rightarrow> bytes \<Rightarrow> bytes \<Rightarrow> bytes \<Rightarrow> bool \<Rightarrow>
    bytes option" where
  "ReceiverHTLCScript x cltvExpiry senderHtlcKey receiverHtlcKey revocationKey paymentHash confirmedSpend =
     cr_Script x (receiverHtlcOps x cltvExpiry senderHtlcKey receiverHtlcKey revocationKey paymentHash
       confirmedSpend)"

definition delayOps :: "u32 \<Rightarrow> bytes \<Rightarrow> bytes \<Rightarrow> script_op list" where
  "delayOps csvDelay delayKey revocationKey =
     [AddOp OP_IF, AddData revocationKey,
      AddOp OP_ELSE, AddInt64 (uint csvDelay), AddOp OP_CHECKSEQUENCEVERIFY, AddOp OP_DROP,
      AddData delayKey, AddOp OP_ENDIF, AddOp OP_CHECKSIG]"

definition leaseOps :: "u32 \<Rightarrow> u32 \<Rightarrow> bytes \<Rightarrow> bytes \<Rightarrow> script_op list" where
  "leaseOps cltvExpiry csvDelay delayKey revocationKey =
     [AddOp OP_IF, AddData revocationKey,
      AddOp OP_ELSE, AddInt64 (uint cltvExpiry), AddOp OP_CHECKLOCKTIMEVERIFY, AddOp OP_DROP,
      AddInt64 (uint csvDelay), AddOp OP_CHECKSEQUENCEVERIFY, AddOp OP_DROP,
      AddData delayKey, AddOp OP_ENDIF, AddOp OP_CHECKSIG]"

definition input_SecondLevelHtlcScript :: "'z crypto_scheme \<Rightarrow> bytes \<Rightarrow> bytes \<Rightarrow> u32 \<Rightarrow> bytes option" where
  "input_SecondLevelHtlcScript x revocationKey delayKey csvDelay =
     cr_Script x (delayOps csvDelay delayKey revocationKey)"

definition LeaseSecondLevelHtlcScript :: "'z crypto_scheme \<Rightarrow> bytes \<Rightarrow> bytes \<Rightarrow> u32 \<Rightarrow> u32 \<Rightarrow> bytes option" where
  "LeaseSecondLevelHtlcScript x revocationKey delayKey csvDelay cltvExpiry =
     cr_Script x (leaseOps cltvExpiry csvDelay delayKey revocationKey)"

definition input_CommitScriptToSelf :: "'z crypto_scheme \<Rightarrow> u32 \<Rightarrow> bytes \<Rightarrow> bytes \<Rightarrow> bytes option" where
  "input_CommitScriptToSelf x csvTimeout selfKey revokeKey =
     cr_Script x (delayOps csvTimeout selfKey revokeKey)"

definition LeaseCommitScriptToSelf :: "'z crypto_scheme \<Rightarrow> bytes \<Rightarrow> bytes \<Rightarrow> u32 \<Rightarrow> u32 \<Rightarrow> bytes option" where
  "LeaseCommitScriptToSelf x selfKey revokeKey csvTimeout leaseExpiry =
     cr_Script x (leaseOps leaseExpiry csvTimeout selfKey revokeKey)"

definition CommitScriptUnencumbered :: "'z crypto_scheme \<Rightarrow> bytes \<Rightarrow> bytes option" where
  "CommitScriptUnencumbered x key = cr_Script x [AddOp OP_0, AddData (cr_Hash160 x key)]"

definition toRemoteOps :: "bytes \<Rightarrow> script_op list" where
  "toRemoteOps key = [AddData key, AddOp OP_CHECKSIGVERIFY, AddOp OP_1, AddOp OP_CHECKSEQUENCEVERIFY]"

definition CommitScriptToRemoteConfirmed :: "'z crypto_scheme \<Rightarrow> bytes \<Rightarrow> bytes option" where
  "CommitScriptToRemoteConfirmed x key = cr_Script x (toRemoteOps key)"

definition leaseToRemoteOps :: "bytes \<Rightarrow> u32 \<Rightarrow> script_op list" where
  "leaseToRemoteOps key leaseExpiry =
     [AddData key, AddOp OP_CHECKSIGVERIFY, AddInt64 (uint leaseExpiry), AddOp OP_CHECKLOCKTIMEVERIFY,
      AddOp OP_DROP, AddOp OP_1, AddOp OP_CHECKSEQUENCEVERIFY]"

definition LeaseCommitScriptToRemoteConfirmed :: "'z crypto_scheme \<Rightarrow> bytes \<Rightarrow> u32 \<Rightarrow> bytes option" where
  "LeaseCommitScriptToRemoteConfirmed x key leaseExpiry = cr_Script x (leaseToRemoteOps key leaseExpiry)"

definition anchorOps :: "bytes \<Rightarrow> script_op list" where
  "anchorOps key = [AddData key, AddOp OP_CHECKSIG, AddOp OP_IFDUP, AddOp OP_NOTIF, AddOp OP_16,
     AddOp OP_CHECKSEQUENCEVERIFY, AddOp OP_ENDIF]"

definition CommitScriptAnchor :: "'z crypto_scheme \<Rightarrow> bytes \<Rightarrow> bytes option" where
  "CommitScriptAnchor x key = cr_Script x (anchorOps key)"

subsection \<open>Witnesses\<close>

record SignDescriptor =
  sd_PubKey :: "bytes option"
  sd_SingleTweak :: "bytes option"
  sd_DoubleTweak :: "PrivateKey option"
  sd_WitnessScript :: bytes
  sd_HashType :: u32
  sd_InputIndex :: int

text \<open>
  The \<^verbatim>\<open>Signer\<close> interface: the serialized signature, or an error.  A call through a nil
  pointer and an index out of range are errors too.
\<close>

type_synonym signer = "MsgTx \<Rightarrow> SignDescriptor \<Rightarrow> bytes option"
type_synonym TxWitness = "bytes list"

definition SigHashAll :: u32 where "SigHashAll = 1"

text \<open>A signature on the stack carries the type of its hash.\<close>

definition sigWith :: "bytes \<Rightarrow> u32 \<Rightarrow> bytes" where
  "sigWith sig hashType = sig @ [ucast hashType]"

definition SpendMultiSig :: "bytes \<Rightarrow> bytes \<Rightarrow> bytes \<Rightarrow> bytes \<Rightarrow> bytes \<Rightarrow> TxWitness" where
  "SpendMultiSig witnessScript pubA sigA pubB sigB =
     (if pubA > pubB then [[], sigWith sigB SigHashAll, sigWith sigA SigHashAll, witnessScript]
      else [[], sigWith sigA SigHashAll, sigWith sigB SigHashAll, witnessScript])"

definition SpendMultiSigWithoutW :: "'z crypto_scheme \<Rightarrow> bytes \<Rightarrow> bytes \<Rightarrow> bytes \<Rightarrow> bytes \<Rightarrow> bytes \<Rightarrow> bytes option" where
  "SpendMultiSigWithoutW x witnessScript pubA sigA pubB sigB =
     cr_Script x (AddOp OP_0 #
       (if pubA > pubB
        then [AddData (sigWith sigB SigHashAll), AddData (sigWith sigA SigHashAll)]
        else [AddData (sigWith sigA SigHashAll), AddData (sigWith sigB SigHashAll)]) @
       [AddData witnessScript])"

definition SenderHtlcSpendRevokeWithKey :: "signer \<Rightarrow> SignDescriptor \<Rightarrow> bytes \<Rightarrow> MsgTx \<Rightarrow> TxWitness option" where
  "SenderHtlcSpendRevokeWithKey signr signDesc revokeKey sweepTx =
     map_option (\<lambda>sig. [sigWith sig (sd_HashType signDesc), revokeKey, sd_WitnessScript signDesc])
       (signr sweepTx signDesc)"

definition deriveRevokePubKey :: "'z crypto_scheme \<Rightarrow> SignDescriptor \<Rightarrow> bytes option" where
  "deriveRevokePubKey x signDesc =
     (case sd_PubKey signDesc of
        None \<Rightarrow> None
      | Some pubKey \<Rightarrow> (case sd_DoubleTweak signDesc of
            None \<Rightarrow> None
          | Some tweak \<Rightarrow> Some (DeriveRevocationPubkey x pubKey (PubKey x tweak))))"

definition SenderHtlcSpendRevoke :: "'z crypto_scheme \<Rightarrow> signer \<Rightarrow> SignDescriptor \<Rightarrow> MsgTx \<Rightarrow> TxWitness option" where
  "SenderHtlcSpendRevoke x signr signDesc sweepTx =
     (case deriveRevokePubKey x signDesc of
        None \<Rightarrow> None
      | Some revokeKey \<Rightarrow> SenderHtlcSpendRevokeWithKey signr signDesc revokeKey sweepTx)"

definition IsHtlcSpendRevoke :: "'z crypto_scheme \<Rightarrow> TxIn \<Rightarrow> SignDescriptor \<Rightarrow> bool option" where
  "IsHtlcSpendRevoke x txIn signDesc =
     map_option (\<lambda>revokeKey. length (ti_Witness txIn) = 3 \<and> ti_Witness txIn ! 1 = revokeKey)
       (deriveRevokePubKey x signDesc)"

definition SenderHtlcSpendRedeem :: "signer \<Rightarrow> SignDescriptor \<Rightarrow> MsgTx \<Rightarrow> bytes \<Rightarrow> TxWitness option" where
  "SenderHtlcSpendRedeem signr signDesc sweepTx paymentPreimage =
     map_option (\<lambda>sig. [sigWith sig (sd_HashType signDesc), paymentPreimage, sd_WitnessScript signDesc])
       (signr sweepTx signDesc)"

definition SenderHtlcSpendTimeout :: "bytes \<Rightarrow> u32 \<Rightarrow> signer \<Rightarrow> SignDescriptor \<Rightarrow> MsgTx \<Rightarrow> TxWitness option" where
  "SenderHtlcSpendTimeout receiverSig receiverSigHash signr signDesc htlcTimeoutTx =
     map_option (\<lambda>sig. [[], sigWith receiverSig receiverSigHash, sigWith sig (sd_HashType signDesc), [],
         sd_WitnessScript signDesc])
       (signr htlcTimeoutTx signDesc)"

definition ReceiverHtlcSpendRedeem :: "bytes \<Rightarrow> u32 \<Rightarrow> bytes \<Rightarrow> signer \<Rightarrow> SignDescriptor \<Rightarrow> MsgTx \<Rightarrow>
    TxWitness option" where
  "ReceiverHtlcSpendRedeem senderSig senderSigHash paymentPreimage signr signDesc htlcSuccessTx =
     map_option (\<lambda>sig. [[], sigWith senderSig senderSigHash, sigWith sig (sd_HashType signDesc),
         paymentPreimage, sd_WitnessScript signDesc])
       (signr htlcSuccessTx signDesc)"

definition ReceiverHtlcSpendRevokeWithKey :: "signer \<Rightarrow> SignDescriptor \<Rightarrow> bytes \<Rightarrow> MsgTx \<Rightarrow> TxWitness option" where
  "ReceiverHtlcSpendRevokeWithKey signr signDesc revokeKey sweepTx =
     map_option (\<lambda>sig. [sigWith sig (sd_HashType signDesc), revokeKey, sd_WitnessScript signDesc])
       (signr sweepTx signDesc)"

definition ReceiverHtlcSpendRevoke :: "'z crypto_scheme \<Rightarrow> signer \<Rightarrow> SignDescriptor \<Rightarrow> MsgTx \<Rightarrow> TxWitness option" where
  "ReceiverHtlcSpendRevoke x signr signDesc sweepTx =
     (case deriveRevokePubKey x signDesc of
        None \<Rightarrow> None
      | Some revokeKey \<Rightarrow> ReceiverHtlcSpendRevokeWithKey signr signDesc revokeKey sweepTx)"

text \<open>Two of the functions set fields of the transaction they sign; the transaction is returned.\<close>

definition ReceiverHtlcSpendTimeout :: "signer \<Rightarrow> SignDescriptor \<Rightarrow> MsgTx \<Rightarrow> u32 \<Rightarrow> MsgTx \<times> TxWitness option" where
  "ReceiverHtlcSpendTimeout signr signDesc sweepTx cltvExpiry =
     (let sweepTx = (if cltvExpiry \<noteq> - 1 then sweepTx\<lparr>tx_LockTime := cltvExpiry\<rparr> else sweepTx)
      in (sweepTx, map_option (\<lambda>sig. [sigWith sig (sd_HashType signDesc), [], sd_WitnessScript signDesc])
           (signr sweepTx signDesc)))"

definition SequenceLockTimeSeconds :: u32 where "SequenceLockTimeSeconds = push_bit 22 1"

definition LockTimeToSequence :: "bool \<Rightarrow> u32 \<Rightarrow> u32" where
  "LockTimeToSequence isSeconds locktime =
     (if \<not> isSeconds then locktime else SequenceLockTimeSeconds OR drop_bit 9 locktime)"

definition HtlcSpendSuccess :: "signer \<Rightarrow> SignDescriptor \<Rightarrow> MsgTx \<Rightarrow> u32 \<Rightarrow> MsgTx \<times> TxWitness option" where
  "HtlcSpendSuccess signr signDesc sweepTx csvDelay =
     (case tx_TxIn sweepTx of
        [] \<Rightarrow> (sweepTx, None)
      | i # is \<Rightarrow>
          (let sweepTx = sweepTx\<lparr>tx_TxIn := i\<lparr>ti_Sequence := LockTimeToSequence False csvDelay\<rparr> # is,
                 tx_Version := 2\<rparr>
           in (sweepTx, map_option (\<lambda>sig. [sigWith sig (sd_HashType signDesc), [], sd_WitnessScript signDesc])
                (signr sweepTx signDesc))))"

definition HtlcSpendRevoke :: "signer \<Rightarrow> SignDescriptor \<Rightarrow> MsgTx \<Rightarrow> TxWitness option" where
  "HtlcSpendRevoke signr signDesc revokeTx =
     map_option (\<lambda>sig. [sigWith sig (sd_HashType signDesc), [1], sd_WitnessScript signDesc])
       (signr revokeTx signDesc)"

definition HtlcSecondLevelSpend :: "signer \<Rightarrow> SignDescriptor \<Rightarrow> MsgTx \<Rightarrow> TxWitness option" where
  "HtlcSecondLevelSpend signr signDesc sweepTx =
     map_option (\<lambda>sig. [sigWith sig SigHashAll, [], sd_WitnessScript signDesc]) (signr sweepTx signDesc)"

definition CommitSpendTimeout :: "signer \<Rightarrow> SignDescriptor \<Rightarrow> MsgTx \<Rightarrow> TxWitness option" where
  "CommitSpendTimeout signr signDesc sweepTx =
     (if sint (tx_Version sweepTx) < 2 then None
      else map_option (\<lambda>sig. [sigWith sig (sd_HashType signDesc), [], sd_WitnessScript signDesc])
        (signr sweepTx signDesc))"

definition CommitSpendRevoke :: "signer \<Rightarrow> SignDescriptor \<Rightarrow> MsgTx \<Rightarrow> TxWitness option" where
  "CommitSpendRevoke signr signDesc sweepTx =
     map_option (\<lambda>sig. [sigWith sig (sd_HashType signDesc), [1], sd_WitnessScript signDesc])
       (signr sweepTx signDesc)"

definition CommitSpendNoDelay :: "'z crypto_scheme \<Rightarrow> signer \<Rightarrow> SignDescriptor \<Rightarrow> MsgTx \<Rightarrow> bool \<Rightarrow>
    TxWitness option" where
  "CommitSpendNoDelay x signr signDesc sweepTx tweakless =
     (case sd_PubKey signDesc of
        None \<Rightarrow> None
      | Some pubKey \<Rightarrow>
          map_option (\<lambda>sig. [sigWith sig (sd_HashType signDesc),
              if tweakless then pubKey else TweakPubKeyWithTweak x pubKey (case sd_SingleTweak signDesc of None \<Rightarrow> [] | Some t \<Rightarrow> t)])
            (signr sweepTx signDesc))"

definition CommitSpendToRemoteConfirmed :: "signer \<Rightarrow> SignDescriptor \<Rightarrow> MsgTx \<Rightarrow> TxWitness option" where
  "CommitSpendToRemoteConfirmed signr signDesc sweepTx =
     (case sd_PubKey signDesc of
        None \<Rightarrow> None
      | Some pubKey \<Rightarrow> map_option (\<lambda>sig. [sigWith sig (sd_HashType signDesc), sd_WitnessScript signDesc])
          (signr sweepTx signDesc))"

definition CommitSpendAnchor :: "signer \<Rightarrow> SignDescriptor \<Rightarrow> MsgTx \<Rightarrow> TxWitness option" where
  "CommitSpendAnchor signr signDesc sweepTx =
     (case sd_PubKey signDesc of
        None \<Rightarrow> None
      | Some pubKey \<Rightarrow> map_option (\<lambda>sig. [sigWith sig (sd_HashType signDesc), sd_WitnessScript signDesc])
          (signr sweepTx signDesc))"

definition CommitSpendAnchorAnyone :: "bytes \<Rightarrow> TxWitness" where
  "CommitSpendAnchorAnyone script = [[], script]"

subsection \<open>Derived keys\<close>

lemma DeriveRevocationPubkey_priv:
  assumes "curve_ok x" "0 \<le> revokeBasePriv" "0 \<le> commitSecret"
  shows "DeriveRevocationPubkey x (PubKey x revokeBasePriv) (PubKey x commitSecret) =
    PubKey x (DeriveRevocationPrivKey x revokeBasePriv commitSecret)"
proof -
  obtain G where G: "\<forall>d \<ge> 0. PubKey x d = G d" "\<forall>a bs. cr_ScalarMult x (G a) bs = G (a * SetBytes bs)"
    "\<forall>a b. cr_Add x (G a) (G b) = G (a + b)" "\<forall>a. G (a mod cr_N x) = G a"
    using PubKey_nonneg [OF assms(1)] by blast
  have "0 \<le> DeriveRevocationPrivKey x revokeBasePriv commitSecret"
    using assms(1) by (simp add: DeriveRevocationPrivKey_def curve_ok_def Let_def)
  then have "PubKey x (DeriveRevocationPrivKey x revokeBasePriv commitSecret) =
      G (DeriveRevocationPrivKey x revokeBasePriv commitSecret)"
    using G(1) by blast
  also have "\<dots> = DeriveRevocationPubkey x (PubKey x revokeBasePriv) (PubKey x commitSecret)"
    using assms(2,3) G by (simp add: DeriveRevocationPubkey_def DeriveRevocationPrivKey_def Let_def mult.commute)
  finally show ?thesis by simp
qed

lemma TweakPubKey_priv:
  assumes "curve_ok x" "0 \<le> basePriv"
  shows "TweakPubKey x (PubKey x basePriv) commitPoint =
    PubKey x (TweakPrivKey x basePriv (SingleTweakBytes x commitPoint (PubKey x basePriv)))"
proof -
  obtain G where G: "\<forall>d \<ge> 0. PubKey x d = G d" "\<forall>bs. cr_ScalarBaseMult x bs = G (SetBytes bs)"
    "\<forall>a b. cr_Add x (G a) (G b) = G (a + b)" "\<forall>a. G (a mod cr_N x) = G a"
    using PubKey_nonneg [OF assms(1)] by blast
  have "0 \<le> TweakPrivKey x basePriv t" for t
    using assms(1) by (simp add: TweakPrivKey_def curve_ok_def)
  then show ?thesis
    using assms(2) G by (simp add: TweakPubKey_def TweakPubKeyWithTweak_def TweakPrivKey_def add.commute)
qed

end
