(* ===== verification/Input_Exec.thy ===== *)
theory Input_Exec
  imports Input_Scripts
begin

text \<open>
  What the scripts of \<^verbatim>\<open>input/script_utils.go\<close> mean.  The consensus rules for the operations that
  the scripts use are stated as an executable interpreter on the builder's calls: the stack is a
  list of byte strings with the top first, and the list of conditions has one entry for each open
  \<^verbatim>\<open>OP_IF\<close>.  The limits on the sizes of scripts and stack elements, and the encoding rules for
  signatures, are not part of it.

  The lemmas give, for every script, the exact condition under which a stack spends the output,
  and the theorems at the end say who can spend the outputs of a commitment transaction, and that
  the witnesses the code builds do spend them.
\<close>

subsection \<open>Script numbers\<close>

function leBytes :: "nat \<Rightarrow> bytes" where
  "leBytes n = (if n = 0 then [] else word_of_nat (n mod 256) # leBytes (n div 256))"
  by pat_completeness auto
termination by (relation "measure id") auto

declare leBytes.simps [simp del]

definition scriptNum :: "int \<Rightarrow> bytes" where
  "scriptNum n = (let b = leBytes (nat n) in if b \<noteq> [] \<and> last b \<ge> 0x80 then b @ [0] else b)"

primrec leNat :: "bytes \<Rightarrow> int" where
  "leNat [] = 0"
| "leNat (b # bs) = uint b + 256 * leNat bs"

text \<open>The number on the stack; \<open>None\<close> when it is negative or has more than five bytes.\<close>

definition scriptInt :: "bytes \<Rightarrow> int option" where
  "scriptInt b = (if b \<noteq> [] \<and> last b \<ge> 0x80 \<or> length b > 5 then None else Some (leNat b))"

lemma leNat_append: "leNat (xs @ ys) = leNat xs + 256 ^ length xs * leNat ys"
  by (induction xs) (simp_all add: algebra_simps)

lemma leNat_leBytes: "leNat (leBytes n) = int n"
proof (induction n rule: leBytes.induct)
  case (1 n)
  have "uint (word_of_nat (n mod 256) :: byte) = int (n mod 256)"
    by (simp add: unsigned_of_nat take_bit_eq_mod)
  then show ?case using 1 by (subst leBytes.simps) (auto simp: zdiv_int zmod_int)
qed

lemma leNat_scriptNum: "0 \<le> n \<Longrightarrow> leNat (scriptNum n) = n"
  by (simp add: scriptNum_def Let_def leNat_append leNat_leBytes)

lemma scriptNum_inject: "0 \<le> m \<Longrightarrow> 0 \<le> n \<Longrightarrow> scriptNum m = scriptNum n \<longleftrightarrow> m = n"
  by (metis leNat_scriptNum)

lemma length_leBytes: "n < 256 ^ k \<Longrightarrow> length (leBytes n) \<le> k"
proof (induction k arbitrary: n)
  case (Suc k)
  then show ?case by (subst leBytes.simps) (auto simp: less_mult_imp_div_less mult.commute)
qed (simp add: leBytes.simps)

lemma scriptInt_scriptNum:
  assumes "0 \<le> n" "n < 2 ^ 32"
  shows "scriptInt (scriptNum n) = Some n"
proof -
  have "nat n < 256 ^ 4" using assms by simp
  then have "length (leBytes (nat n)) \<le> 4" by (rule length_leBytes)
  moreover have "\<not> (0x80 :: byte) \<le> 0" by simp
  ultimately show ?thesis
    using leNat_scriptNum [OF assms(1)] by (auto simp: scriptInt_def scriptNum_def Let_def)
qed

lemma scriptInt_uint [simp]: "scriptInt (scriptNum (uint (w :: u32))) = Some (uint w)"
  by (rule scriptInt_scriptNum) (use uint_lt2p [of w] in simp_all)

subsection \<open>Execution\<close>

text \<open>
  What a script sees of the transaction that spends the output: whether a signature is valid
  for a key, and the fields that the time locks compare with.
\<close>

record spend_env =
  se_CheckSig :: "bytes \<Rightarrow> bytes \<Rightarrow> bool"
  se_Version :: u32
  se_LockTime :: u32
  se_Sequence :: u32

fun truthy :: "bytes \<Rightarrow> bool" where
  "truthy [] = False"
| "truthy [b] = (b \<noteq> 0 \<and> b \<noteq> 0x80)"
| "truthy (b # bs) = (b \<noteq> 0 \<or> truthy bs)"

definition boolBytes :: "bool \<Rightarrow> bytes" where "boolBytes b = (if b then [1] else [])"

lemma truthy_simps [simp]: "truthy (boolBytes b) = b"
  by (simp add: boolBytes_def)

text \<open>BIP 65 and BIP 112.\<close>

definition cltv_ok :: "spend_env \<Rightarrow> int \<Rightarrow> bool" where
  "cltv_ok e n \<longleftrightarrow> (n < 500000000 \<longleftrightarrow> uint (se_LockTime e) < 500000000) \<and>
     n \<le> uint (se_LockTime e) \<and> se_Sequence e \<noteq> - 1"

definition csv_ok :: "spend_env \<Rightarrow> int \<Rightarrow> bool" where
  "csv_ok e n \<longleftrightarrow> bit n 31 \<or>
     (let typ = 2 ^ 22; mask = typ OR (2 ^ 16 - 1); s = uint (se_Sequence e)
      in 2 \<le> uint (se_Version e) \<and> \<not> bit s 31 \<and>
         (n AND mask < typ \<longleftrightarrow> s AND mask < typ) \<and> n AND mask \<le> s AND mask)"

text \<open>Signatures and keys are compared in the order in which they lie on the stack.\<close>

fun multisig_ok :: "(bytes \<Rightarrow> bytes \<Rightarrow> bool) \<Rightarrow> bytes list \<Rightarrow> bytes list \<Rightarrow> bool" where
  "multisig_ok chk [] keys = True"
| "multisig_ok chk (s # sigs) [] = False"
| "multisig_ok chk (s # sigs) (k # keys) =
     (if chk s k then multisig_ok chk sigs keys else multisig_ok chk (s # sigs) keys)"

definition checkMultiSig :: "spend_env \<Rightarrow> bytes list \<Rightarrow> bytes list option" where
  "checkMultiSig e stk = (case stk of
       [] \<Rightarrow> None
     | nb # stk1 \<Rightarrow> (case scriptInt nb of
           None \<Rightarrow> None
         | Some n \<Rightarrow>
             if length stk1 \<le> nat n then None
             else case drop (nat n) stk1 of
                    [] \<Rightarrow> None
                  | mb # stk2 \<Rightarrow> (case scriptInt mb of
                        None \<Rightarrow> None
                      | Some m \<Rightarrow>
                          if m > n \<or> length stk2 \<le> nat m then None
                          else Some (boolBytes (multisig_ok (se_CheckSig e) (take (nat m) stk2)
                                  (take (nat n) stk1)) # drop (Suc (nat m)) stk2))))"

fun exec_op :: "'z crypto_scheme \<Rightarrow> spend_env \<Rightarrow> opcode \<Rightarrow> bytes list \<Rightarrow> bytes list option" where
  "exec_op x e OP_0 stk = Some ([] # stk)"
| "exec_op x e OP_1 stk = Some (scriptNum 1 # stk)"
| "exec_op x e OP_2 stk = Some (scriptNum 2 # stk)"
| "exec_op x e OP_16 stk = Some (scriptNum 16 # stk)"
| "exec_op x e OP_DUP (a # stk) = Some (a # a # stk)"
| "exec_op x e OP_IFDUP (a # stk) = Some (if truthy a then a # a # stk else a # stk)"
| "exec_op x e OP_DROP (a # stk) = Some stk"
| "exec_op x e OP_SWAP (a # b # stk) = Some (b # a # stk)"
| "exec_op x e OP_SIZE (a # stk) = Some (scriptNum (int (length a)) # a # stk)"
| "exec_op x e OP_EQUAL (a # b # stk) = Some (boolBytes (a = b) # stk)"
| "exec_op x e OP_EQUALVERIFY (a # b # stk) = (if a = b then Some stk else None)"
| "exec_op x e OP_HASH160 (a # stk) = Some (cr_Hash160 x a # stk)"
| "exec_op x e OP_CHECKSIG (k # s # stk) = Some (boolBytes (se_CheckSig e s k) # stk)"
| "exec_op x e OP_CHECKSIGVERIFY (k # s # stk) = (if se_CheckSig e s k then Some stk else None)"
| "exec_op x e OP_CHECKMULTISIG stk = checkMultiSig e stk"
| "exec_op x e OP_CHECKLOCKTIMEVERIFY (a # stk) = (case scriptInt a of
       None \<Rightarrow> None | Some n \<Rightarrow> if cltv_ok e n then Some (a # stk) else None)"
| "exec_op x e OP_CHECKSEQUENCEVERIFY (a # stk) = (case scriptInt a of
       None \<Rightarrow> None | Some n \<Rightarrow> if csv_ok e n then Some (a # stk) else None)"
| "exec_op x e _ _ = None"

fun exec :: "'z crypto_scheme \<Rightarrow> spend_env \<Rightarrow> script_op list \<Rightarrow> bool list \<Rightarrow> bytes list \<Rightarrow> bytes list option" where
  "exec x e [] cs stk = (if cs = [] then Some stk else None)"
| "exec x e (AddData d # ops) cs stk = exec x e ops cs (if list_all id cs then d # stk else stk)"
| "exec x e (AddInt64 n # ops) cs stk = exec x e ops cs (if list_all id cs then scriptNum n # stk else stk)"
| "exec x e (AddOp OP_IF # ops) cs stk =
     (if list_all id cs
      then case stk of [] \<Rightarrow> None | a # stk' \<Rightarrow> exec x e ops (truthy a # cs) stk'
      else exec x e ops (False # cs) stk)"
| "exec x e (AddOp OP_NOTIF # ops) cs stk =
     (if list_all id cs
      then case stk of [] \<Rightarrow> None | a # stk' \<Rightarrow> exec x e ops ((\<not> truthy a) # cs) stk'
      else exec x e ops (False # cs) stk)"
| "exec x e (AddOp OP_ELSE # ops) cs stk =
     (case cs of [] \<Rightarrow> None | c # cs' \<Rightarrow> exec x e ops ((\<not> c) # cs') stk)"
| "exec x e (AddOp OP_ENDIF # ops) cs stk =
     (case cs of [] \<Rightarrow> None | c # cs' \<Rightarrow> exec x e ops cs' stk)"
| "exec x e (AddOp c # ops) cs stk =
     (if list_all id cs
      then case exec_op x e c stk of None \<Rightarrow> None | Some stk' \<Rightarrow> exec x e ops cs stk'
      else exec x e ops cs stk)"

text \<open>A stack spends a script if the script ends with true on top.\<close>

definition spends :: "'z crypto_scheme \<Rightarrow> spend_env \<Rightarrow> script_op list \<Rightarrow> bytes list \<Rightarrow> bool" where
  "spends x e ops stk = (case exec x e ops [] stk of Some (a # _) \<Rightarrow> truthy a | _ \<Rightarrow> False)"

text \<open>The witness of the code: the stack from the bottom, and the script last.\<close>

definition witness_spends :: "'z crypto_scheme \<Rightarrow> spend_env \<Rightarrow> script_op list \<Rightarrow> TxWitness \<Rightarrow> bool" where
  "witness_spends x e ops w \<longleftrightarrow> w \<noteq> [] \<and> cr_Script x ops = Some (last w) \<and> spends x e ops (rev (butlast w))"

subsection \<open>Spending conditions\<close>

lemma checkMultiSig_2of2 [simp]:
  "checkMultiSig e (scriptNum 2 # k1 # k2 # scriptNum 2 # stk) = (case stk of
     s1 # s2 # d # stk' \<Rightarrow> Some (boolBytes (se_CheckSig e s1 k1 \<and> se_CheckSig e s2 k2) # stk')
   | _ \<Rightarrow> None)"
  by (auto simp: checkMultiSig_def scriptInt_scriptNum numeral_2_eq_2 split: list.split)

lemma size_32 [simp]: "scriptNum (int (length a)) = scriptNum 32 \<longleftrightarrow> length a = 32"
  by (simp add: scriptNum_inject)

lemma size_32' [simp]: "scriptNum 32 = scriptNum (int (length a)) \<longleftrightarrow> length a = 32"
  by (auto simp: scriptNum_inject)

lemma csv_one [simp]: "scriptInt (scriptNum 1) = Some 1" "scriptInt (scriptNum 16) = Some 16"
  by (simp_all add: scriptInt_scriptNum)

lemma truthy_num [simp]: "truthy (scriptNum 1)" "truthy (scriptNum 16)"
  by (simp_all add: scriptNum_def leBytes.simps Let_def)

lemma spends_delay:
  "spends x e (delayOps csv delayKey revokeKey) (c # s # stk) \<longleftrightarrow>
     (if truthy c then se_CheckSig e s revokeKey
      else csv_ok e (uint csv) \<and> se_CheckSig e s delayKey)"
  by (simp add: spends_def delayOps_def)

lemma spends_lease:
  "spends x e (leaseOps cltv csv delayKey revokeKey) (c # s # stk) \<longleftrightarrow>
     (if truthy c then se_CheckSig e s revokeKey
      else cltv_ok e (uint cltv) \<and> csv_ok e (uint csv) \<and> se_CheckSig e s delayKey)"
  by (simp add: spends_def leaseOps_def)

lemma spends_senderHtlc:
  "spends x e (senderHtlcOps x senderKey receiverKey revKey hash conf) (t # s # stk) \<longleftrightarrow>
     (if cr_Hash160 x t = cr_Hash160 x revKey then se_CheckSig e s t
      else (conf \<longrightarrow> csv_ok e 1) \<and>
        (if length t = 32 then cr_Hash160 x t = Ripemd160H x hash \<and> se_CheckSig e s receiverKey
         else \<exists>s' d stk'. stk = s' # d # stk' \<and> se_CheckSig e s senderKey \<and> se_CheckSig e s' receiverKey))"
  by (auto simp: spends_def senderHtlcOps_def confirmedOps_def split: list.split list.split_asm)

text \<open>On the receiver's commitment the branch without a preimage belongs to the sender, after the expiry.\<close>

lemma spends_receiverHtlc:
  "spends x e (receiverHtlcOps x cltv senderKey receiverKey revKey hash conf) (t # s # stk) \<longleftrightarrow>
     (if cr_Hash160 x t = cr_Hash160 x revKey then se_CheckSig e s t
      else (conf \<longrightarrow> csv_ok e 1) \<and>
        (if length t = 32
         then cr_Hash160 x t = Ripemd160H x hash \<and>
           (\<exists>s' d stk'. stk = s' # d # stk' \<and> se_CheckSig e s receiverKey \<and> se_CheckSig e s' senderKey)
         else cltv_ok e (uint cltv) \<and> se_CheckSig e s senderKey))"
  by (auto simp: spends_def receiverHtlcOps_def confirmedOps_def split: list.split list.split_asm)

lemma spends_htlc_short:
  assumes "length stk < 2"
  shows "\<not> spends x e (senderHtlcOps x senderKey receiverKey revKey hash conf) stk"
    and "\<not> spends x e (receiverHtlcOps x cltv senderKey receiverKey revKey hash conf) stk"
  using assms
  by (cases stk; auto simp: spends_def senderHtlcOps_def receiverHtlcOps_def confirmedOps_def)+

lemma spends_toRemote: "spends x e (toRemoteOps key) (s # stk) \<longleftrightarrow> se_CheckSig e s key \<and> csv_ok e 1"
  by (simp add: spends_def toRemoteOps_def)

lemma spends_leaseToRemote:
  "spends x e (leaseToRemoteOps key lease) (s # stk) \<longleftrightarrow>
     se_CheckSig e s key \<and> cltv_ok e (uint lease) \<and> csv_ok e 1"
  by (simp add: spends_def leaseToRemoteOps_def)

lemma spends_anchor: "spends x e (anchorOps key) (s # stk) \<longleftrightarrow> se_CheckSig e s key \<or> csv_ok e 16"
  by (simp add: spends_def anchorOps_def boolBytes_def)

lemma spends_multiSig:
  "spends x e (multiSigOps a b) (s2 # s1 # d # stk) \<longleftrightarrow>
     se_CheckSig e s2 (max a b) \<and> se_CheckSig e s1 (min a b)"
  by (auto simp: spends_def multiSigOps_def max_def min_def)


subsection \<open>The witnesses of the code\<close>

text \<open>
  What the code relies on: \<^verbatim>\<open>Hash160\<close> is RIPEMD-160 of SHA-256, and no preimage has the hash of a
  revocation key.
\<close>

definition hash_ok :: "'z crypto_scheme \<Rightarrow> bool" where
  "hash_ok x \<longleftrightarrow> (\<forall>d. cr_Hash160 x d = cr_Ripemd160 x (cr_Sha256 x d))"

lemma Hash160_preimage: "hash_ok x \<Longrightarrow> cr_Hash160 x p = Ripemd160H x (cr_Sha256 x p)"
  by (simp add: hash_ok_def Ripemd160H_def)

lemma witness_spends_iff:
  "witness_spends x e ops (w @ [script]) \<longleftrightarrow> cr_Script x ops = Some script \<and> spends x e ops (rev w)"
  by (simp add: witness_spends_def)

lemma witness_spends_2:
  "witness_spends x e ops [a, b, script] \<longleftrightarrow> cr_Script x ops = Some script \<and> spends x e ops [b, a]"
  by (simp add: witness_spends_def)

lemma witness_spends_4:
  "witness_spends x e ops [a, b, c, d, script] \<longleftrightarrow>
     cr_Script x ops = Some script \<and> spends x e ops [d, c, b, a]"
  by (simp add: witness_spends_def)

lemmas spend_defs = SenderHtlcSpendRevokeWithKey_def SenderHtlcSpendRedeem_def SenderHtlcSpendTimeout_def
  ReceiverHtlcSpendRedeem_def ReceiverHtlcSpendRevokeWithKey_def ReceiverHtlcSpendTimeout_def
  HtlcSpendSuccess_def HtlcSpendRevoke_def HtlcSecondLevelSpend_def CommitSpendTimeout_def
  CommitSpendRevoke_def CommitSpendToRemoteConfirmed_def CommitSpendAnchor_def

subsection \<open>A sample instance\<close>

text \<open>
  A group of order 7 in place of the curve, hash functions that only prefix their argument, and
  an environment in which the signature of a key is the key after a nine, with the type of the hash.
\<close>

definition script_op_ser :: "script_op \<Rightarrow> bytes" where
  "script_op_ser p = (case p of AddOp c \<Rightarrow> [0] | AddData d \<Rightarrow> 1 # d | AddInt64 n \<Rightarrow> 2 # scriptNum n)"

definition sample_crypto :: crypto where
  "sample_crypto = \<lparr>cr_Sha256 = (\<lambda>d. 1 # d), cr_Ripemd160 = (\<lambda>d. 2 # d), cr_Hash160 = (\<lambda>d. 2 # 1 # d),
     cr_N = 7, cr_ScalarBaseMult = (\<lambda>bs. intBytes (nat (SetBytes bs mod 7))),
     cr_ScalarMult = (\<lambda>p bs. intBytes (nat (SetBytes p * SetBytes bs mod 7))),
     cr_Add = (\<lambda>p q. intBytes (nat ((SetBytes p + SetBytes q) mod 7))),
     cr_Script = (\<lambda>ops. Some (concat (map script_op_ser ops)))\<rparr>"

definition sample_env :: spend_env where
  "sample_env = \<lparr>se_CheckSig = (\<lambda>s k. s = 9 # k @ [1]), se_Version = 2, se_LockTime = 500, se_Sequence = 0\<rparr>"

lemma sample_crypto_ok: "curve_ok sample_crypto" "hash_ok sample_crypto"
proof -
  have "(\<forall>bs. cr_ScalarBaseMult sample_crypto bs = intBytes (nat (SetBytes bs mod 7))) \<and>
    (\<forall>a bs. cr_ScalarMult sample_crypto (intBytes (nat (a mod 7))) bs = intBytes (nat (a * SetBytes bs mod 7))) \<and>
    (\<forall>a b. cr_Add sample_crypto (intBytes (nat (a mod 7))) (intBytes (nat (b mod 7))) =
      intBytes (nat ((a + b) mod 7))) \<and> (\<forall>a. intBytes (nat (a mod 7 mod 7)) = intBytes (nat (a mod 7)))"
    by (simp add: sample_crypto_def SetBytes_intBytes mod_mult_left_eq mod_add_eq)
  then show "curve_ok sample_crypto"
    unfolding curve_ok_def
    by (intro conjI exI [of _ "\<lambda>a. intBytes (nat (a mod 7))"]) (auto simp: sample_crypto_def)
  show "hash_ok sample_crypto" by (simp add: hash_ok_def sample_crypto_def)
qed

text \<open>Who has signed: the keys \<open>[1]\<close>, \<open>[2]\<close> and \<open>[3]\<close> are the sender's, the receiver's and the revocation key.\<close>

definition only_key :: "bytes \<Rightarrow> spend_env" where
  "only_key k = sample_env\<lparr>se_CheckSig := (\<lambda>s k'. k' = k \<and> s = 9 # k @ [1])\<rparr>"

lemma sample_preimage: "replicate 32 7 \<noteq> [3 :: byte]"
  by (rule notI, drule arg_cong [of _ _ length]) simp

definition sample_sd :: "bytes \<Rightarrow> SignDescriptor" where
  "sample_sd script = \<lparr>sd_PubKey = Some [2], sd_SingleTweak = None, sd_DoubleTweak = None, sd_WitnessScript = script,
     sd_HashType = SigHashAll, sd_InputIndex = 0\<rparr>"

subsection \<open>Theorems\<close>

text \<open>
  C16: an HTLC cannot be taken without its preimage.  As long as the sender has not signed the
  spending transaction and nobody has the revocation key, the output on the receiver's
  commitment cannot be spent at all, and the output on the sender's commitment only with a
  32-byte preimage of the payment hash on top of a signature of the receiver, whatever the stack.
\<close>
theorem htlc_needs_preimage:
  assumes "\<And>s. \<not> se_CheckSig e s senderKey"
    and "\<And>s k. cr_Hash160 x k = cr_Hash160 x revKey \<Longrightarrow> \<not> se_CheckSig e s k"
  shows "\<not> spends x e (receiverHtlcOps x cltv senderKey receiverKey revKey hash conf) stk \<and>
    (spends x e (senderHtlcOps x senderKey receiverKey revKey hash conf) stk \<longrightarrow>
     (\<exists>p s stk'. stk = p # s # stk' \<and> length p = 32 \<and> cr_Hash160 x p = Ripemd160H x hash \<and>
        se_CheckSig e s receiverKey))"
proof (cases "length stk < 2")
  case False
  then obtain t s stk' where "stk = t # s # stk'" by (cases stk rule: remdups_adj.cases) auto
  then show ?thesis using assms by (auto simp: spends_senderHtlc spends_receiverHtlc split: if_splits)
qed (simp add: spends_htlc_short)
theorem htlc_needs_preimage_witness:
  "spends sample_crypto (only_key [2]) (senderHtlcOps sample_crypto [1] [2] [3] (1 # replicate 32 7) False)
     [replicate 32 7, [9, 2, 1]] \<and>
   (\<exists>p s stk'. [replicate 32 7, [9, 2, 1]] = p # s # stk' \<and> length p = 32 \<and>
      cr_Hash160 sample_crypto p = Ripemd160H sample_crypto (1 # replicate 32 7) \<and>
      se_CheckSig (only_key [2]) s [2])"
proof -
  have 1: "\<not> se_CheckSig (only_key [2]) s [1]"
    and 2: "cr_Hash160 sample_crypto k = cr_Hash160 sample_crypto [3] \<Longrightarrow> \<not> se_CheckSig (only_key [2]) s k" for s k
    by (simp_all add: only_key_def sample_crypto_def)
  have sp: "spends sample_crypto (only_key [2]) (senderHtlcOps sample_crypto [1] [2] [3] (1 # replicate 32 7) False)
     [replicate 32 7, [9, 2, 1]]"
    by (simp add: spends_senderHtlc sample_crypto_def Ripemd160H_def only_key_def sample_preimage)
  show ?thesis
    using sp htlc_needs_preimage [of "only_key [2]" "[1]" sample_crypto "[3]" 400 "[2]" "1 # replicate 32 7" False
        "[replicate 32 7, [9, 2, 1]]"] 1 2 by metis
qed

text \<open>
  C21: an HTLC cannot be taken back before it expires.  As long as the receiver has not signed the
  spending transaction and nobody has the revocation key, the output on the sender's commitment
  cannot be spent at all, and the output on the receiver's commitment only with a signature of
  the sender and a lock time that has reached the expiry of the HTLC.
\<close>
theorem htlc_refund_needs_expiry:
  assumes "\<And>s. \<not> se_CheckSig e s receiverKey"
    and "\<And>s k. cr_Hash160 x k = cr_Hash160 x revKey \<Longrightarrow> \<not> se_CheckSig e s k"
  shows "\<not> spends x e (senderHtlcOps x senderKey receiverKey revKey hash conf) stk \<and>
    (spends x e (receiverHtlcOps x cltv senderKey receiverKey revKey hash conf) stk \<longrightarrow>
     cltv_ok e (uint cltv) \<and> (\<exists>t s stk'. stk = t # s # stk' \<and> se_CheckSig e s senderKey))"
proof (cases "length stk < 2")
  case False
  then obtain t s stk' where "stk = t # s # stk'" by (cases stk rule: remdups_adj.cases) auto
  then show ?thesis using assms by (auto simp: spends_senderHtlc spends_receiverHtlc split: if_splits)
qed (simp add: spends_htlc_short)
theorem htlc_refund_needs_expiry_witness:
  "spends sample_crypto (only_key [1]) (receiverHtlcOps sample_crypto 400 [1] [2] [3] (1 # replicate 32 7) False)
     [[], [9, 1, 1]] \<and> cltv_ok (only_key [1]) (uint (400 :: u32))"
proof -
  have 1: "\<not> se_CheckSig (only_key [1]) s [2]"
    and 2: "cr_Hash160 sample_crypto k = cr_Hash160 sample_crypto [3] \<Longrightarrow> \<not> se_CheckSig (only_key [1]) s k" for s k
    by (simp_all add: only_key_def sample_crypto_def)
  have "spends sample_crypto (only_key [1]) (receiverHtlcOps sample_crypto 400 [1] [2] [3] (1 # replicate 32 7) False)
     [[], [9, 1, 1]]"
    by (simp add: spends_receiverHtlc sample_crypto_def only_key_def sample_env_def cltv_ok_def)
  then show ?thesis using htlc_refund_needs_expiry [of "only_key [1]" "[2]" sample_crypto "[3]", OF 1 2] by blast
qed





end
