(* ===== verification/Lnwallet_Keys.thy ===== *)
theory Lnwallet_Keys
  imports Lnwallet_View Input_Exec
begin

text \<open>
  The keys and scripts of a commitment (\<^verbatim>\<open>lnwallet/commitment.go\<close>), the second-level transactions
  and the state hints (\<^verbatim>\<open>lnwallet/transactions.go\<close>, \<^verbatim>\<open>wallet.go\<close>), and how the wallet signs with a
  tweaked key (\<^verbatim>\<open>btcwallet/signer.go\<close>).  The two parties of a channel derive the same keys and
  scripts, each from its own side; a revoked commitment can be punished.
\<close>

subsection \<open>Key ring\<close>

definition SingleFunderTweaklessBit :: ChannelType where "SingleFunderTweaklessBit = push_bit 1 1"
definition LeaseExpirationBit :: ChannelType where "LeaseExpirationBit = push_bit 6 1"

definition IsTweakless :: "ChannelType \<Rightarrow> bool" where
  "IsTweakless c \<longleftrightarrow> c AND SingleFunderTweaklessBit = SingleFunderTweaklessBit"

definition HasLeaseExpiration :: "ChannelType \<Rightarrow> bool" where
  "HasLeaseExpiration c \<longleftrightarrow> c AND LeaseExpirationBit = LeaseExpirationBit"

record CommitmentKeyRing =
  CommitPoint :: bytes
  LocalCommitKeyTweak :: "bytes option"
  LocalHtlcKeyTweak :: bytes
  LocalHtlcKey :: bytes
  RemoteHtlcKey :: bytes
  ToLocalKey :: bytes
  ToRemoteKey :: bytes
  RevocationKey :: bytes

definition DeriveCommitmentKeys :: "'z crypto_scheme \<Rightarrow> bytes \<Rightarrow> bool \<Rightarrow> ChannelType \<Rightarrow> ChannelConfig \<Rightarrow>
    ChannelConfig \<Rightarrow> CommitmentKeyRing" where
  "DeriveCommitmentKeys x commitPoint isOurCommit chanType localChanCfg remoteChanCfg =
     (let localBasePoint = (if isOurCommit then DelayBasePoint localChanCfg else PaymentBasePoint localChanCfg);
          toLocalBasePoint = (if isOurCommit then DelayBasePoint localChanCfg else DelayBasePoint remoteChanCfg);
          toRemoteBasePoint = (if isOurCommit then PaymentBasePoint remoteChanCfg
                               else PaymentBasePoint localChanCfg);
          revocationBasePoint = (if isOurCommit then RevocationBasePoint remoteChanCfg
                                 else RevocationBasePoint localChanCfg)
      in \<lparr>CommitPoint = commitPoint,
          LocalCommitKeyTweak = (if IsTweakless chanType \<and> \<not> isOurCommit then None
                                 else Some (SingleTweakBytes x commitPoint localBasePoint)),
          LocalHtlcKeyTweak = SingleTweakBytes x commitPoint (HtlcBasePoint localChanCfg),
          LocalHtlcKey = TweakPubKey x (HtlcBasePoint localChanCfg) commitPoint,
          RemoteHtlcKey = TweakPubKey x (HtlcBasePoint remoteChanCfg) commitPoint,
          ToLocalKey = TweakPubKey x toLocalBasePoint commitPoint,
          ToRemoteKey = (if IsTweakless chanType then toRemoteBasePoint
                         else TweakPubKey x toRemoteBasePoint commitPoint),
          RevocationKey = DeriveRevocationPubkey x revocationBasePoint commitPoint\<rparr>)"

subsection \<open>Scripts\<close>

record ScriptInfo =
  si_PkScript :: bytes
  si_WitnessScript :: bytes

text \<open>The script hash of a redeem script, or the error of either step.\<close>

definition scriptInfo :: "'z crypto_scheme \<Rightarrow> bytes option \<Rightarrow> ScriptInfo option" where
  "scriptInfo x ws = (case ws of
       None \<Rightarrow> None
     | Some witnessScript \<Rightarrow> (case GenerateP2SH x witnessScript of
           None \<Rightarrow> None
         | Some pkScript \<Rightarrow> Some \<lparr>si_PkScript = pkScript, si_WitnessScript = witnessScript\<rparr>))"

definition CommitScriptToSelf :: "'z crypto_scheme \<Rightarrow> ChannelType \<Rightarrow> bool \<Rightarrow> bytes \<Rightarrow> bytes \<Rightarrow> u32 \<Rightarrow> u32 \<Rightarrow>
    ScriptInfo option" where
  "CommitScriptToSelf x chanType initiator selfKey revokeKey csvDelay leaseExpiry =
     scriptInfo x
       (if initiator \<and> HasLeaseExpiration chanType
        then LeaseCommitScriptToSelf x selfKey revokeKey csvDelay leaseExpiry
        else input_CommitScriptToSelf x csvDelay selfKey revokeKey)"

definition CommitScriptToRemote :: "'z crypto_scheme \<Rightarrow> ChannelType \<Rightarrow> bool \<Rightarrow> bytes \<Rightarrow> u32 \<Rightarrow>
    (ScriptInfo \<times> u32) option" where
  "CommitScriptToRemote x chanType initiator key leaseExpiry =
     (if HasLeaseExpiration chanType \<and> \<not> initiator
      then map_option (\<lambda>s. (s, 1)) (scriptInfo x (LeaseCommitScriptToRemoteConfirmed x key leaseExpiry))
      else if HasAnchors chanType
      then map_option (\<lambda>s. (s, 1)) (scriptInfo x (CommitScriptToRemoteConfirmed x key))
      else map_option (\<lambda>p2wkh. (\<lparr>si_PkScript = p2wkh, si_WitnessScript = p2wkh\<rparr>, 0)) (GenerateP2PKH x key))"

definition SigHashSingleAnyOneCanPay :: u32 where "SigHashSingleAnyOneCanPay = 0x83"

definition HtlcSigHashType :: "ChannelType \<Rightarrow> u32" where
  "HtlcSigHashType chanType = (if HasAnchors chanType then SigHashSingleAnyOneCanPay else SigHashAll)"

record SignDetails =
  det_SignDesc :: SignDescriptor
  det_SigHashType :: u32
  det_PeerSig :: bytes

definition HtlcSignDetails :: "ChannelType \<Rightarrow> SignDescriptor \<Rightarrow> u32 \<Rightarrow> bytes \<Rightarrow> SignDetails option" where
  "HtlcSignDetails chanType signDesc sigHash peerSig =
     (if \<not> HasAnchors chanType then None
      else Some \<lparr>det_SignDesc = signDesc, det_SigHashType = sigHash, det_PeerSig = peerSig\<rparr>)"

definition HtlcSecondLevelInputSequence :: "ChannelType \<Rightarrow> u32" where
  "HtlcSecondLevelInputSequence chanType = (if HasAnchors chanType then 1 else 0)"

definition SecondLevelHtlcScript :: "'z crypto_scheme \<Rightarrow> ChannelType \<Rightarrow> bool \<Rightarrow> bytes \<Rightarrow> bytes \<Rightarrow> u32 \<Rightarrow> u32 \<Rightarrow>
    ScriptInfo option" where
  "SecondLevelHtlcScript x chanType initiator revocationKey delayKey csvDelay leaseExpiry =
     scriptInfo x
       (if initiator \<and> HasLeaseExpiration chanType
        then LeaseSecondLevelHtlcScript x revocationKey delayKey csvDelay leaseExpiry
        else input_SecondLevelHtlcScript x revocationKey delayKey csvDelay)"

definition CommitScriptAnchors :: "'z crypto_scheme \<Rightarrow> ChannelConfig \<Rightarrow> ChannelConfig \<Rightarrow>
    (ScriptInfo \<times> ScriptInfo) option" where
  "CommitScriptAnchors x localChanCfg remoteChanCfg =
     (case scriptInfo x (CommitScriptAnchor x (MultiSigKey localChanCfg)) of
        None \<Rightarrow> None
      | Some localAnchor \<Rightarrow> (case scriptInfo x (CommitScriptAnchor x (MultiSigKey remoteChanCfg)) of
            None \<Rightarrow> None
          | Some remoteAnchor \<Rightarrow> Some (localAnchor, remoteAnchor)))"

definition genHtlcScript :: "'z crypto_scheme \<Rightarrow> ChannelType \<Rightarrow> bool \<Rightarrow> bool \<Rightarrow> u32 \<Rightarrow> bytes \<Rightarrow> CommitmentKeyRing \<Rightarrow>
    ScriptInfo option" where
  "genHtlcScript x chanType isIncoming ourCommit timeout rHash keyRing =
     (let confirmedHtlcSpends = HasAnchors chanType
      in scriptInfo x
        (if isIncoming \<and> ourCommit
         then ReceiverHTLCScript x timeout (RemoteHtlcKey keyRing) (LocalHtlcKey keyRing)
           (RevocationKey keyRing) rHash confirmedHtlcSpends
         else if isIncoming \<and> \<not> ourCommit
         then SenderHTLCScript x (RemoteHtlcKey keyRing) (LocalHtlcKey keyRing) (RevocationKey keyRing)
           rHash confirmedHtlcSpends
         else if \<not> isIncoming \<and> ourCommit
         then SenderHTLCScript x (LocalHtlcKey keyRing) (RemoteHtlcKey keyRing) (RevocationKey keyRing)
           rHash confirmedHtlcSpends
         else ReceiverHTLCScript x timeout (LocalHtlcKey keyRing) (RemoteHtlcKey keyRing)
           (RevocationKey keyRing) rHash confirmedHtlcSpends))"

subsection \<open>Second-level transactions\<close>

text \<open>The two transactions differ in the lock time; both carry the asset of the HTLC.\<close>

definition secondLevelTx :: "'z crypto_scheme \<Rightarrow> ChannelType \<Rightarrow> bool \<Rightarrow> OutPoint \<Rightarrow> Amount \<Rightarrow> Amount \<Rightarrow> u32 \<Rightarrow>
    u32 \<Rightarrow> u32 \<Rightarrow> u32 \<Rightarrow> bytes \<Rightarrow> bytes \<Rightarrow> MsgTx option" where
  "secondLevelTx x chanType initiator htlcOutput htlcBtcAmt htlcAssetAmt assetId lockTime csvDelay
       leaseExpiry revocationKey delayKey =
     (case SecondLevelHtlcScript x chanType initiator revocationKey delayKey csvDelay leaseExpiry of
        None \<Rightarrow> None
      | Some script \<Rightarrow>
          (let tx = \<lparr>tx_Version = 2,
                 tx_TxIn = [\<lparr>ti_PreviousOutPoint = htlcOutput, ti_SignatureScript = [], ti_Witness = [],
                   ti_Sequence = HtlcSecondLevelInputSequence chanType\<rparr>],
                 tx_TxOut = [\<lparr>to_Value = htlcBtcAmt, to_PkScript = si_PkScript script\<rparr>],
                 tx_LockTime = lockTime\<rparr>;
               pa = PksAmounts_Add (NewPksAmounts assetId) (si_PkScript script) htlcAssetAmt
           in case AddOpReturnToTx tx pa of Inl e \<Rightarrow> None | Inr tx' \<Rightarrow> Some tx'))"

definition CreateHtlcSuccessTx :: "'z crypto_scheme \<Rightarrow> ChannelType \<Rightarrow> bool \<Rightarrow> OutPoint \<Rightarrow> Amount \<Rightarrow> Amount \<Rightarrow> u32 \<Rightarrow>
    u32 \<Rightarrow> u32 \<Rightarrow> bytes \<Rightarrow> bytes \<Rightarrow> MsgTx option" where
  "CreateHtlcSuccessTx x chanType initiator htlcOutput htlcBtcAmt htlcAssetAmt assetId csvDelay leaseExpiry
       revocationKey delayKey =
     secondLevelTx x chanType initiator htlcOutput htlcBtcAmt htlcAssetAmt assetId 0 csvDelay leaseExpiry
       revocationKey delayKey"

definition CreateHtlcTimeoutTx :: "'z crypto_scheme \<Rightarrow> ChannelType \<Rightarrow> bool \<Rightarrow> OutPoint \<Rightarrow> Amount \<Rightarrow> Amount \<Rightarrow> u32 \<Rightarrow>
    u32 \<Rightarrow> u32 \<Rightarrow> u32 \<Rightarrow> bytes \<Rightarrow> bytes \<Rightarrow> MsgTx option" where
  "CreateHtlcTimeoutTx x chanType initiator htlcOutput htlcBtcAmt htlcAssetAmt assetId cltvExpiry csvDelay
       leaseExpiry revocationKey delayKey =
     secondLevelTx x chanType initiator htlcOutput htlcBtcAmt htlcAssetAmt assetId cltvExpiry csvDelay
       leaseExpiry revocationKey delayKey"

subsection \<open>State hints\<close>

definition StateHintSize :: nat where "StateHintSize = 6"
definition maxStateHint :: u64 where "maxStateHint = push_bit 48 1 - 1"
definition TimelockShift :: u32 where "TimelockShift = push_bit 29 1"
definition SequenceLockTimeDisabled :: u32 where "SequenceLockTimeDisabled = push_bit 31 1"

definition DeriveStateHintObfuscator :: "'z crypto_scheme \<Rightarrow> bytes \<Rightarrow> bytes \<Rightarrow> bytes" where
  "DeriveStateHintObfuscator x key1 key2 = take StateHintSize (drop 26 (cr_Sha256 x (key1 @ key2)))"

definition createStateHintObfuscator :: "'z crypto_scheme \<Rightarrow> OpenChannel \<Rightarrow> bytes" where
  "createStateHintObfuscator x state =
     (if oc_IsInitiator state
      then DeriveStateHintObfuscator x (PaymentBasePoint (oc_LocalChanCfg state))
        (PaymentBasePoint (oc_RemoteChanCfg state))
      else DeriveStateHintObfuscator x (PaymentBasePoint (oc_RemoteChanCfg state))
        (PaymentBasePoint (oc_LocalChanCfg state)))"

text \<open>The obfuscator as a number: its six bytes after two zero bytes.\<close>

definition obfsInt :: "bytes \<Rightarrow> u64" where
  "obfsInt obfuscator = BigEndianUint64 ([0, 0] @ obfuscator)"

definition SetStateNumHint :: "MsgTx \<Rightarrow> u64 \<Rightarrow> bytes \<Rightarrow> MsgTx option" where
  "SetStateNumHint commitTx stateNum obfuscator =
     (if stateNum > maxStateHint then None
      else case tx_TxIn commitTx of
             [i] \<Rightarrow>
               (let stateNum = stateNum XOR obfsInt obfuscator
                in Some (commitTx\<lparr>
                     tx_TxIn := [i\<lparr>ti_Sequence := ucast (drop_bit 24 stateNum) OR SequenceLockTimeDisabled\<rparr>],
                     tx_LockTime := ucast (stateNum AND 0xFFFFFF) OR TimelockShift\<rparr>))
           | _ \<Rightarrow> None)"

definition GetStateNumHint :: "MsgTx \<Rightarrow> bytes \<Rightarrow> u64 option" where
  "GetStateNumHint commitTx obfuscator =
     (case tx_TxIn commitTx of
        [] \<Rightarrow> None
      | i # is \<Rightarrow>
          Some ((push_bit 24 (ucast (ti_Sequence i AND 0xFFFFFF)) OR ucast (tx_LockTime commitTx AND 0xFFFFFF)) XOR
            obfsInt obfuscator))"

subsection \<open>Signing\<close>

definition maybeTweakPrivKey :: "'z crypto_scheme \<Rightarrow> SignDescriptor \<Rightarrow> PrivateKey \<Rightarrow> PrivateKey" where
  "maybeTweakPrivKey x signDesc privKey =
     (case sd_SingleTweak signDesc of
        Some tweak \<Rightarrow> TweakPrivKey x privKey tweak
      | None \<Rightarrow> (case sd_DoubleTweak signDesc of
            Some commitSecret \<Rightarrow> DeriveRevocationPrivKey x privKey commitSecret
          | None \<Rightarrow> privKey))"

text \<open>
  \<^verbatim>\<open>fetchPrivKey\<close> asks the key store; \<^verbatim>\<open>txscript.RawTxInSignature\<close> gives a signature followed by the
  hash type, which is cut off.
\<close>

definition SignOutputRaw :: "'z crypto_scheme \<Rightarrow> (bytes option \<Rightarrow> PrivateKey option) \<Rightarrow>
    (MsgTx \<Rightarrow> int \<Rightarrow> bytes \<Rightarrow> u32 \<Rightarrow> PrivateKey \<Rightarrow> bytes option) \<Rightarrow> signer" where
  "SignOutputRaw x fetchPrivKey RawTxInSignature tx signDesc =
     (case fetchPrivKey (sd_PubKey signDesc) of
        None \<Rightarrow> None
      | Some privKey \<Rightarrow>
          map_option butlast (RawTxInSignature tx (sd_InputIndex signDesc) (sd_WitnessScript signDesc)
            (sd_HashType signDesc) (maybeTweakPrivKey x signDesc privKey)))"

subsection \<open>Agreement of the two parties\<close>

text \<open>
  What the owner of a commitment derives from its side and the peer from the other: the same keys
  for the outputs, and the two HTLC keys with their roles exchanged.
\<close>

lemma keyRing_agree:
  fixes x :: "'z crypto_scheme" and p :: bytes and t :: ChannelType and A B :: ChannelConfig
  defines "own \<equiv> DeriveCommitmentKeys x p True t A B" and "peer \<equiv> DeriveCommitmentKeys x p False t B A"
  shows "ToLocalKey peer = ToLocalKey own" "ToRemoteKey peer = ToRemoteKey own"
    "RevocationKey peer = RevocationKey own" "LocalHtlcKey peer = RemoteHtlcKey own"
    "RemoteHtlcKey peer = LocalHtlcKey own"
  by (simp_all add: own_def peer_def DeriveCommitmentKeys_def Let_def)

lemma genHtlcScript_agree:
  "genHtlcScript x t (\<not> incoming) False timeout rHash (DeriveCommitmentKeys x p False t B A) =
   genHtlcScript x t incoming True timeout rHash (DeriveCommitmentKeys x p True t A B)"
  by (simp add: genHtlcScript_def Let_def keyRing_agree)

subsection \<open>State hints are read back\<close>

lemma bit_obfsInt: "bit (obfsInt obfuscator) n \<Longrightarrow> n < 48"
proof -
  assume b: "bit (obfsInt obfuscator) n"
  show "n < 48"
  proof (cases "length obfuscator < 6")
    case True
    then have "length ([0, 0] @ obfuscator) < 8" by simp
    then have "obfsInt obfuscator = 0" unfolding obfsInt_def by (cases "[0, 0] @ obfuscator" rule: BigEndianUint64.cases) auto
    then show ?thesis using b by simp
  next
    case False
    then obtain b0 b1 b2 b3 b4 b5 r where "obfuscator = b0 # b1 # b2 # b3 # b4 # b5 # r"
      by (auto simp: not_less numeral_eq_Suc Suc_le_length_iff)
    then show ?thesis
      using b by (auto simp: obfsInt_def bit_simps) (auto dest!: bit_imp_le_length)
  qed
qed

lemma bit_hint: "bit ((n :: u64) XOR obfsInt obfuscator) k \<Longrightarrow> n \<le> maxStateHint \<Longrightarrow> k < 48"
proof -
  assume b: "bit (n XOR obfsInt obfuscator) k" and n: "n \<le> maxStateHint"
  have "n < 2 ^ 48" using n by (simp add: maxStateHint_def word_le_nat_alt word_less_nat_alt)
  then show "k < 48"
    using b bit_obfsInt [of obfuscator k] word_less_power_bit [of n 48 k] by (auto simp: bit_simps)
qed

lemma mask24_64: "(0xFFFFFF :: u64) = mask 24"
  by (simp add: mask_eq_exp_minus_1)

lemma bit_lock_flags: "bit TimelockShift k \<longleftrightarrow> k = 29" "bit SequenceLockTimeDisabled k \<longleftrightarrow> k = 31"
proof -
  have t: "TimelockShift = 2 ^ 29" and d: "SequenceLockTimeDisabled = 2 ^ 31"
    by (simp_all add: TimelockShift_def SequenceLockTimeDisabled_def)
  show "bit TimelockShift k \<longleftrightarrow> k = 29" by (subst t, subst bit_exp_iff) auto
  show "bit SequenceLockTimeDisabled k \<longleftrightarrow> k = 31" by (subst d, subst bit_exp_iff) auto
qed

lemma hint_reassemble:
  fixes s :: u64
  assumes "\<And>k. bit s k \<Longrightarrow> k < 48"
  shows "push_bit 24 (ucast ((ucast (drop_bit 24 s) OR SequenceLockTimeDisabled) AND (0xFFFFFF :: u32))) OR
    ucast ((ucast (s AND 0xFFFFFF) OR TimelockShift) AND (0xFFFFFF :: u32)) = s"
proof (rule bit_word_eqI)
  fix k assume "k < LENGTH(64)"
  show "bit (push_bit 24 (ucast ((ucast (drop_bit 24 s) OR SequenceLockTimeDisabled) AND (0xFFFFFF :: u32))) OR
    ucast ((ucast (s AND 0xFFFFFF) OR TimelockShift) AND (0xFFFFFF :: u32)) :: u64) k = bit s k"
    using assms [of k] \<open>k < LENGTH(64)\<close>
    by (cases "k < 24") (auto simp: bit_simps mask24 mask24_64 bit_lock_flags)
qed

lemma StateNumHint_roundtrip:
  assumes "SetStateNumHint tx n obfuscator = Some tx'"
  shows "GetStateNumHint tx' obfuscator = Some n"
proof -
  obtain i where n: "n \<le> maxStateHint" and i: "tx_TxIn tx = [i]"
    and tx': "tx' = tx\<lparr>tx_TxIn := [i\<lparr>ti_Sequence :=
        ucast (drop_bit 24 (n XOR obfsInt obfuscator)) OR SequenceLockTimeDisabled\<rparr>],
      tx_LockTime := ucast ((n XOR obfsInt obfuscator) AND 0xFFFFFF) OR TimelockShift\<rparr>"
    using assms by (auto simp: SetStateNumHint_def Let_def split: if_splits list.splits)
  have "GetStateNumHint tx' obfuscator = Some ((n XOR obfsInt obfuscator) XOR obfsInt obfuscator)"
    using hint_reassemble [of "n XOR obfsInt obfuscator"] bit_hint [OF _ n]
    by (simp add: GetStateNumHint_def tx')
  then show ?thesis by (simp add: xor.assoc)
qed

subsection \<open>Punishing a revoked commitment\<close>

text \<open>The scripts of a commitment as operations.\<close>

definition toSelfOps :: "ChannelType \<Rightarrow> bool \<Rightarrow> bytes \<Rightarrow> bytes \<Rightarrow> u32 \<Rightarrow> u32 \<Rightarrow> script_op list" where
  "toSelfOps chanType initiator selfKey revokeKey csvDelay leaseExpiry =
     (if initiator \<and> HasLeaseExpiration chanType then leaseOps leaseExpiry csvDelay selfKey revokeKey
      else delayOps csvDelay selfKey revokeKey)"

definition htlcOps :: "'z crypto_scheme \<Rightarrow> ChannelType \<Rightarrow> bool \<Rightarrow> u32 \<Rightarrow> bytes \<Rightarrow> CommitmentKeyRing \<Rightarrow> script_op list" where
  "htlcOps x chanType isIncoming timeout rHash keyRing =
     (if isIncoming
      then receiverHtlcOps x timeout (RemoteHtlcKey keyRing) (LocalHtlcKey keyRing) (RevocationKey keyRing) rHash
        (HasAnchors chanType)
      else senderHtlcOps x (LocalHtlcKey keyRing) (RemoteHtlcKey keyRing) (RevocationKey keyRing) rHash
        (HasAnchors chanType))"

lemma scriptInfo_SomeD: "scriptInfo x ws = Some si \<Longrightarrow> ws = Some (si_WitnessScript si)"
  by (auto simp: scriptInfo_def split: option.splits)

lemma CommitScriptToSelf_ops:
  "CommitScriptToSelf x chanType initiator selfKey revokeKey csvDelay leaseExpiry = Some si \<Longrightarrow>
     cr_Script x (toSelfOps chanType initiator selfKey revokeKey csvDelay leaseExpiry) = Some (si_WitnessScript si)"
  by (auto simp: CommitScriptToSelf_def toSelfOps_def LeaseCommitScriptToSelf_def input_CommitScriptToSelf_def
      dest: scriptInfo_SomeD)

lemma genHtlcScript_ops:
  "genHtlcScript x chanType isIncoming True timeout rHash keyRing = Some si \<Longrightarrow>
     cr_Script x (htlcOps x chanType isIncoming timeout rHash keyRing) = Some (si_WitnessScript si)"
  by (auto simp: genHtlcScript_def htlcOps_def Let_def SenderHTLCScript_def ReceiverHTLCScript_def
      dest: scriptInfo_SomeD split: if_splits)

lemma spends_toSelf_revoke:
  "spends x e (toSelfOps chanType initiator selfKey revokeKey csvDelay leaseExpiry) ([1] # s # stk) \<longleftrightarrow>
     se_CheckSig e s revokeKey"
  by (simp add: toSelfOps_def spends_delay spends_lease)

lemma spends_htlc_revoke:
  "spends x e (htlcOps x chanType isIncoming timeout rHash keyRing) (RevocationKey keyRing # s # stk) \<longleftrightarrow>
     se_CheckSig e s (RevocationKey keyRing)"
  by (simp add: htlcOps_def spends_senderHtlc spends_receiverHtlc)

text \<open>
  What is relied on of \<^verbatim>\<open>txscript.RawTxInSignature\<close> for the transaction that the environment describes:
  the signature ends in the hash type and is valid for the public key.
\<close>

definition raw_sig_ok :: "'z crypto_scheme \<Rightarrow> spend_env \<Rightarrow> MsgTx \<Rightarrow>
    (MsgTx \<Rightarrow> int \<Rightarrow> bytes \<Rightarrow> u32 \<Rightarrow> PrivateKey \<Rightarrow> bytes option) \<Rightarrow> bool" where
  "raw_sig_ok x e tx raw \<longleftrightarrow> (\<forall>i script ht d. \<exists>sig. raw tx i script ht d = Some (sigWith sig ht) \<and>
     se_CheckSig e (sigWith sig ht) (PubKey x d))"

lemma SignOutputRaw_revocation:
  assumes "curve_ok x" "raw_sig_ok x e tx raw" "0 \<le> revokeBasePriv" "0 \<le> commitSecret"
    and "fetch (sd_PubKey sd) = Some revokeBasePriv" "sd_SingleTweak sd = None" "sd_DoubleTweak sd = Some commitSecret"
  obtains sig where "SignOutputRaw x fetch raw tx sd = Some sig"
    "se_CheckSig e (sigWith sig (sd_HashType sd))
       (DeriveRevocationPubkey x (PubKey x revokeBasePriv) (PubKey x commitSecret))"
proof -
  let ?d = "DeriveRevocationPrivKey x revokeBasePriv commitSecret"
  obtain sig where "raw tx (sd_InputIndex sd) (sd_WitnessScript sd) (sd_HashType sd) ?d =
      Some (sigWith sig (sd_HashType sd))" "se_CheckSig e (sigWith sig (sd_HashType sd)) (PubKey x ?d)"
    using assms(2) unfolding raw_sig_ok_def by blast
  then show ?thesis
    using that [of sig] assms(5-7) DeriveRevocationPubkey_priv [OF assms(1,3,4)]
    by (simp add: SignOutputRaw_def maybeTweakPrivKey_def sigWith_def)
qed


definition sample_keys :: "bytes \<Rightarrow> ChannelConfig" where
  "sample_keys revBase = \<lparr>DustLimit = 354, ChanReserve = 1000, MaxPendingAmount = 100000000, MinHTLC = 1000,
     MaxAcceptedHtlcs = 30, CsvDelay = 144, MultiSigKey = [1], RevocationBasePoint = revBase,
     PaymentBasePoint = [3], DelayBasePoint = [4], HtlcBasePoint = [5]\<rparr>"

definition any_hash_env :: spend_env where
  "any_hash_env = sample_env\<lparr>se_CheckSig := (\<lambda>s k. butlast s = 9 # k)\<rparr>"


end
