(* ===== verification/Lnwallet_CommitTx.thy ===== *)
theory Lnwallet_CommitTx
  imports Lnwallet_Keys "HOL-Library.Product_Lexorder"
begin

text \<open>
  The construction of a commitment transaction: \<^verbatim>\<open>lnwallet/commitment.go\<close>
  (\<^verbatim>\<open>createUnsignedCommitmentTx\<close>, \<^verbatim>\<open>CreateCommitTx\<close>, \<^verbatim>\<open>addHTLC\<close>) and \<^verbatim>\<open>commit_sort.go\<close>.  Both parties
  build the same transaction from their own sides, which is what makes the exchange of
  signatures possible.  \<^verbatim>\<open>blockchain.CheckTransactionSanity\<close> is the parameter \<open>sanity\<close>.

  \<^verbatim>\<open>addHTLC\<close> stores the script in the descriptor that the view points to, so the view is returned
  with the updated descriptors in every case.
\<close>

subsection \<open>Sorting\<close>

text \<open>
  \<^verbatim>\<open>sort.Sort\<close> with a strict total order on the pairs that are swapped together: the result does
  not depend on the algorithm.
\<close>

definition inputKey :: "TxIn \<Rightarrow> bytes \<times> u32" where
  "inputKey i = (rev (op_Hash (ti_PreviousOutPoint i)), op_Index (ti_PreviousOutPoint i))"

definition outputKey :: "TxOut \<times> u32 \<Rightarrow> int \<times> bytes \<times> u32" where
  "outputKey oc = (sint (to_Value (fst oc)), to_PkScript (fst oc), snd oc)"

definition InPlaceCommitSort :: "MsgTx \<Rightarrow> u32 list \<Rightarrow> (MsgTx \<times> u32 list) option" where
  "InPlaceCommitSort tx cltvs =
     (if length (tx_TxOut tx) \<noteq> length cltvs then None
      else let outs = sort_key outputKey (zip (tx_TxOut tx) cltvs)
           in Some (tx\<lparr>tx_TxIn := sort_key inputKey (tx_TxIn tx), tx_TxOut := map fst outs\<rparr>, map snd outs))"

subsection \<open>Outputs\<close>

definition fundingTxIn :: "OpenChannel \<Rightarrow> TxIn" where
  "fundingTxIn st = \<lparr>ti_PreviousOutPoint = oc_FundingOutpoint st, ti_SignatureScript = [], ti_Witness = [],
     ti_Sequence = - 1\<rparr>"

definition AddTxOut :: "MsgTx \<Rightarrow> Amount \<Rightarrow> bytes \<Rightarrow> MsgTx" where
  "AddTxOut tx amt script = tx\<lparr>tx_TxOut := tx_TxOut tx @ [\<lparr>to_Value = amt, to_PkScript = script\<rparr>]\<rparr>"

text \<open>One of the two balance outputs: left out when it is dust, which is an error if it carries assets.\<close>

definition balanceOutput :: "Amount \<Rightarrow> Amount \<Rightarrow> bytes \<Rightarrow> Amount \<Rightarrow> MsgTx \<times> PksAmounts \<Rightarrow>
    chan_error + MsgTx \<times> PksAmounts" where
  "balanceOutput btc asset script dustLimit = (\<lambda>(tx, opAmounts).
     (if sless64 btc dustLimit
      then if sless64 0 asset then Inl (ErrDustAsset btc asset) else Inr (tx, opAmounts)
      else Inr (AddTxOut tx btc script, PksAmounts_Add opAmounts script asset)))"

definition CreateCommitTx :: "'z crypto_scheme \<Rightarrow> ChannelType \<Rightarrow> TxIn \<Rightarrow> CommitmentKeyRing \<Rightarrow> ChannelConfig \<Rightarrow>
    Amount \<Rightarrow> Amount \<Rightarrow> Amount \<Rightarrow> Amount \<Rightarrow> bool \<Rightarrow> u32 \<Rightarrow> PksAmounts \<Rightarrow> bytes \<Rightarrow>
    chan_error + MsgTx \<times> PksAmounts" where
  "CreateCommitTx x chanType fundingOutput keyRing localChanCfg btcAmountToLocal btcAmountToRemote
       assetAmountToLocal assetAmountToRemote initiator leaseExpiry opAmounts remoteShutdownScript =
     (case CommitScriptToSelf x chanType initiator (ToLocalKey keyRing) (RevocationKey keyRing)
             (ucast (CsvDelay localChanCfg)) leaseExpiry of
        None \<Rightarrow> Inl ErrScript
      | Some toLocalScript \<Rightarrow>
          (let commitTx = \<lparr>tx_Version = 2, tx_TxIn = [fundingOutput], tx_TxOut = [], tx_LockTime = 0\<rparr>
           in case balanceOutput btcAmountToLocal assetAmountToLocal (si_PkScript toLocalScript)
                     (DustLimit localChanCfg) (commitTx, opAmounts) of
                Inl e \<Rightarrow> Inl e
              | Inr b \<Rightarrow> balanceOutput btcAmountToRemote assetAmountToRemote remoteShutdownScript
                    (DustLimit localChanCfg) b))"

definition addHTLC :: "'z crypto_scheme \<Rightarrow> bool \<Rightarrow> bool \<Rightarrow> PaymentDescriptor \<Rightarrow> CommitmentKeyRing \<Rightarrow>
    ChannelType \<Rightarrow> MsgTx \<times> PksAmounts \<Rightarrow> (PaymentDescriptor \<times> MsgTx \<times> PksAmounts) option" where
  "addHTLC x ourCommit isIncoming paymentDesc keyRing chanType = (\<lambda>(commitTx, opAmounts).
     (case genHtlcScript x chanType isIncoming ourCommit (pd_Timeout paymentDesc) (pd_RHash paymentDesc) keyRing of
        None \<Rightarrow> None
      | Some s \<Rightarrow>
          Some (if ourCommit
                then paymentDesc\<lparr>ourPkScript := si_PkScript s, ourWitnessScript := si_WitnessScript s\<rparr>
                else paymentDesc\<lparr>theirPkScript := si_PkScript s, theirWitnessScript := si_WitnessScript s\<rparr>,
                AddTxOut commitTx (MilliSatoshi_ToSatoshis (pd_BtcAmount paymentDesc)) (si_PkScript s),
                PksAmounts_Add opAmounts (si_PkScript s) (pd_AssetAmount paymentDesc))))"

text \<open>The loops that add the HTLCs of one side that are not dust.\<close>

fun addHTLCs :: "'z crypto_scheme \<Rightarrow> bool \<Rightarrow> bool \<Rightarrow> CommitmentKeyRing \<Rightarrow> ChannelType \<Rightarrow>
    (PaymentDescriptor \<Rightarrow> bool) \<Rightarrow> log_elem list \<Rightarrow> MsgTx \<times> PksAmounts \<Rightarrow> u32 list \<Rightarrow>
    log_elem list \<times> (chan_error + (MsgTx \<times> PksAmounts) \<times> u32 list)" where
  "addHTLCs x ours inc kr t isDust [] b cltvs = ([], Inr (b, cltvs))"
| "addHTLCs x ours inc kr t isDust (e # es) b cltvs =
     (if isDust (snd e)
      then (let (es', r) = addHTLCs x ours inc kr t isDust es b cltvs in (e # es', r))
      else case addHTLC x ours inc (snd e) kr t b of
             None \<Rightarrow> (e # es, Inl ErrScript)
           | Some (pd', b') \<Rightarrow>
               (let (es', r) = addHTLCs x ours inc kr t isDust es b' (cltvs @ [pd_Timeout (snd e)])
                in ((fst e, pd') # es', r)))"

subsection \<open>The transaction\<close>

record unsignedCommitmentTx =
  ut_txn :: MsgTx
  ut_fee :: Amount
  ut_balances :: balances
  ut_cltvs :: "u32 list"

text \<open>The dust rule for one side of the view, as \<^verbatim>\<open>createUnsignedCommitmentTx\<close> calls it.\<close>

definition isDustHtlc :: "OpenChannel \<Rightarrow> bool \<Rightarrow> bool \<Rightarrow> SatPerKWeight \<Rightarrow> PaymentDescriptor \<Rightarrow> bool" where
  "isDustHtlc st isOurs incoming feePerKw htlc =
     HtlcIsDust (oc_ChanType st) incoming isOurs feePerKw (MilliSatoshi_ToSatoshis (pd_BtcAmount htlc))
       (DustLimit (if isOurs then oc_LocalChanCfg st else oc_RemoteChanCfg st)) (pd_AssetID htlc)"

definition numHTLCs :: "OpenChannel \<Rightarrow> bool \<Rightarrow> SatPerKWeight \<Rightarrow> htlcView \<Rightarrow> int64" where
  "numHTLCs st isOurs feePerKw view =
     of_nat (length (filter (\<lambda>e. \<not> isDustHtlc st isOurs False feePerKw (snd e)) (v_ourUpdates view)) +
             length (filter (\<lambda>e. \<not> isDustHtlc st isOurs True feePerKw (snd e)) (v_theirUpdates view)))"

text \<open>
  The balances after the fee, which the initiator pays.  In an asset channel the initiator has the
  whole capacity except for the gas of the outputs; the tests for a negative balance
  have no effect there, since the type of the balances is unsigned.
\<close>

definition assetGas :: "bool \<Rightarrow> Amount \<Rightarrow> Amount" where
  "assetGas delayed asset =
     (if sless64 0 asset then NewMSatFromSatoshis (if delayed then OmniGas + 1106 + 100 else OmniGas) else 0)"

definition commitBalances :: "OpenChannel \<Rightarrow> bool \<Rightarrow> Amount \<Rightarrow> int64 \<Rightarrow> balances \<Rightarrow> balances" where
  "commitBalances st isOurs commitFee n b =
     (let commitFeeMSat = NewMSatFromSatoshis commitFee;
          cap = NewMSatFromSatoshis (oc_BtcCapacity st)
      in if oc_AssetID st > BtcAssetId
         then if oc_IsInitiator st
              then let theirBtc = assetGas (\<not> isOurs) (theirAssetBalance b)
                   in b\<lparr>theirBtcBalance := theirBtc,
                        ourBtcBalance := cap - theirBtc - commitFeeMSat - NewMSatFromSatoshis (OmniGas * 3 * n)\<rparr>
              else let ourBtc = assetGas isOurs (ourAssetBalance b)
                   in b\<lparr>ourBtcBalance := ourBtc,
                        theirBtcBalance := cap - ourBtc - commitFeeMSat - NewMSatFromSatoshis (OmniGas * 3 * n)\<rparr>
         else if oc_IsInitiator st \<and> sless64 (MilliSatoshi_ToSatoshis (ourBtcBalance b)) commitFee
         then b\<lparr>ourBtcBalance := 0\<rparr>
         else if oc_IsInitiator st then b\<lparr>ourBtcBalance := ourBtcBalance b - commitFeeMSat\<rparr>
         else if sless64 (MilliSatoshi_ToSatoshis (theirBtcBalance b)) commitFee
         then b\<lparr>theirBtcBalance := 0\<rparr>
         else b\<lparr>theirBtcBalance := theirBtcBalance b - commitFeeMSat\<rparr>)"

definition baseCommitTx :: "'z crypto_scheme \<Rightarrow> OpenChannel \<Rightarrow> bool \<Rightarrow> balances \<Rightarrow> CommitmentKeyRing \<Rightarrow>
    chan_error + MsgTx \<times> PksAmounts" where
  "baseCommitTx x st isOurs b keyRing =
     (let leaseExpiry = (if HasLeaseExpiration (oc_ChanType st) then oc_ThawHeight st else 0);
          opAmounts = NewPksAmounts (oc_AssetID st)
      in if isOurs
         then CreateCommitTx x (oc_ChanType st) (fundingTxIn st) keyRing (oc_LocalChanCfg st)
           (MilliSatoshi_ToSatoshis (ourBtcBalance b)) (MilliSatoshi_ToSatoshis (theirBtcBalance b))
           (ourAssetBalance b) (theirAssetBalance b) (oc_IsInitiator st) leaseExpiry opAmounts
           (oc_RemoteShutdownScript st)
         else CreateCommitTx x (oc_ChanType st) (fundingTxIn st) keyRing (oc_RemoteChanCfg st)
           (MilliSatoshi_ToSatoshis (theirBtcBalance b)) (MilliSatoshi_ToSatoshis (ourBtcBalance b))
           (theirAssetBalance b) (ourAssetBalance b) (\<not> oc_IsInitiator st) leaseExpiry opAmounts
           (oc_LocalShutdownScript st))"

definition totalOut :: "MsgTx \<Rightarrow> Amount" where
  "totalOut tx = sum_list (map to_Value (tx_TxOut tx))"

text \<open>What follows the outputs: hint, order, payload and checks.\<close>

definition finishCommitTx :: "'z crypto_scheme \<Rightarrow> (MsgTx \<Rightarrow> bool) \<Rightarrow> OpenChannel \<Rightarrow> u64 \<Rightarrow> Amount \<Rightarrow>
    (MsgTx \<times> PksAmounts) \<times> u32 list \<Rightarrow> chan_error + MsgTx \<times> u32 list" where
  "finishCommitTx x sanity st height commitFee = (\<lambda>((commitTx, opAmounts), cltvs).
     (case SetStateNumHint commitTx height (createStateHintObfuscator x st) of
        None \<Rightarrow> Inl (ErrStateHint height)
      | Some commitTx1 \<Rightarrow> (case InPlaceCommitSort commitTx1 cltvs of
            None \<Rightarrow> Inl NilPanic
          | Some (commitTx2, cltvs') \<Rightarrow> (case AddOpReturnToTx commitTx2 opAmounts of
                Inl e \<Rightarrow> Inl (ErrOmni e)
              | Inr commitTx3 \<Rightarrow>
                  if \<not> sanity commitTx3 then Inl ErrTxSanity
                  else if sless64 (oc_BtcCapacity st) (totalOut commitTx3 + commitFee)
                  then Inl (ErrOverCapacity (totalOut commitTx3 + commitFee) (oc_BtcCapacity st))
                  else Inr (commitTx3, cltvs')))))"

definition commitFeeOf :: "OpenChannel \<Rightarrow> bool \<Rightarrow> SatPerKWeight \<Rightarrow> htlcView \<Rightarrow> Amount" where
  "commitFeeOf st isOurs feePerKw view =
     FeeForWeight feePerKw (CommitWeight (oc_ChanType st) + HTLCWeight * numHTLCs st isOurs feePerKw view)"

definition createUnsignedCommitmentTx :: "'z crypto_scheme \<Rightarrow> (MsgTx \<Rightarrow> bool) \<Rightarrow> OpenChannel \<Rightarrow> balances \<Rightarrow> bool \<Rightarrow>
    SatPerKWeight \<Rightarrow> u64 \<Rightarrow> htlcView \<Rightarrow> CommitmentKeyRing \<Rightarrow>
    htlcView \<times> (chan_error + unsignedCommitmentTx)" where
  "createUnsignedCommitmentTx x sanity st b0 isOurs feePerKw height view keyRing =
     (let n = numHTLCs st isOurs feePerKw view;
          commitFee = commitFeeOf st isOurs feePerKw view;
          b = commitBalances st isOurs commitFee n b0
      in case baseCommitTx x st isOurs b keyRing of
           Inl e \<Rightarrow> (view, Inl e)
         | Inr (tx, opAmounts) \<Rightarrow>
             (case addHTLCs x isOurs False keyRing (oc_ChanType st) (isDustHtlc st isOurs False feePerKw)
                     (v_ourUpdates view) (tx, opAmounts) (replicate (length (tx_TxOut tx)) 0) of
                (ours, Inl e) \<Rightarrow> (view\<lparr>v_ourUpdates := ours\<rparr>, Inl e)
              | (ours, Inr (b1, cltvs)) \<Rightarrow>
                  (case addHTLCs x isOurs True keyRing (oc_ChanType st) (isDustHtlc st isOurs True feePerKw)
                          (v_theirUpdates view) b1 cltvs of
                     (theirs, Inl e) \<Rightarrow> (view\<lparr>v_ourUpdates := ours, v_theirUpdates := theirs\<rparr>, Inl e)
                   | (theirs, Inr bc) \<Rightarrow>
                       (view\<lparr>v_ourUpdates := ours, v_theirUpdates := theirs\<rparr>,
                        map_sum id (\<lambda>(txn, cltvs'). \<lparr>ut_txn = txn, ut_fee = commitFee, ut_balances = b,
                            ut_cltvs = cltvs'\<rparr>)
                          (finishCommitTx x sanity st height commitFee bc)))))"

subsection \<open>What the loops add\<close>

text \<open>What a commitment transaction depends on of an HTLC.\<close>

type_synonym htlc_data = "bytes \<times> u32 \<times> MilliSatoshi \<times> Amount \<times> u32"

definition htlcData :: "log_elem \<Rightarrow> htlc_data" where
  "htlcData e = (pd_RHash (snd e), pd_Timeout (snd e), pd_BtcAmount (snd e), pd_AssetAmount (snd e), pd_AssetID (snd e))"

text \<open>The script, output, lock time and asset of an HTLC.\<close>

definition dScript :: "'z crypto_scheme \<Rightarrow> ChannelType \<Rightarrow> bool \<Rightarrow> bool \<Rightarrow> CommitmentKeyRing \<Rightarrow> htlc_data \<Rightarrow> bytes option" where
  "dScript x t inc ours kr = (\<lambda>(h, to, _). map_option si_PkScript (genHtlcScript x t inc ours to h kr))"

definition dEntry :: "(htlc_data \<Rightarrow> bytes option) \<Rightarrow> htlc_data \<Rightarrow> (TxOut \<times> u32) \<times> bytes \<times> Amount" where
  "dEntry scr = (\<lambda>d. case d of (h, to, btc, asset, i) \<Rightarrow>
     ((\<lparr>to_Value = MilliSatoshi_ToSatoshis btc, to_PkScript = the (scr d)\<rparr>, to), the (scr d), asset))"

definition assetEntries :: "u32 \<Rightarrow> (bytes \<times> Amount) list \<Rightarrow> (bytes \<times> Amount) list" where
  "assetEntries i ps = (if i = BtcAssetId then [] else filter (\<lambda>p. snd p \<noteq> 0) ps)"

lemma assetEntries_Nil [simp]: "assetEntries i [] = []"
  by (simp add: assetEntries_def)

lemma assetEntries_append: "assetEntries i (ps @ qs) = assetEntries i ps @ assetEntries i qs"
  by (simp add: assetEntries_def)

lemma PksAmounts_Add_entries:
  "PksAmounts_Add p s a = p\<lparr>pa_pksAmounts := pa_pksAmounts p @ assetEntries (pa_AssetID p) [(s, a)]\<rparr>"
  by (simp add: PksAmounts_Add_def assetEntries_def BtcAssetId_def)

lemma addHTLCs_result:
  assumes "\<And>e. isDust (snd e) = D (htlcData e)"
  shows "snd (addHTLCs x ours inc kr t isDust es (tx, p) cltvs) =
    (let ds = filter (\<lambda>d. \<not> D d) (map htlcData es); scr = dScript x t inc ours kr; ens = map (dEntry scr) ds
     in if \<exists>d\<in>set ds. scr d = None then Inl ErrScript
        else Inr ((tx\<lparr>tx_TxOut := tx_TxOut tx @ map (fst \<circ> fst) ens\<rparr>,
                   p\<lparr>pa_pksAmounts := pa_pksAmounts p @ assetEntries (pa_AssetID p) (map snd ens)\<rparr>),
                  cltvs @ map (snd \<circ> fst) ens))"
proof (induction es arbitrary: tx p cltvs)
  case Nil
  then show ?case by (simp add: assetEntries_def)
next
  case (Cons e es)
  show ?case
  proof (cases "D (htlcData e)")
    case True
    then show ?thesis using Cons by (simp add: assms case_prod_unfold)
  next
    case live: False
    show ?thesis
    proof (cases "genHtlcScript x t inc ours (pd_Timeout (snd e)) (pd_RHash (snd e)) kr")
      case None
      then show ?thesis using live by (simp add: assms addHTLC_def dScript_def htlcData_def Let_def)
    next
      case (Some s)
      have scr: "dScript x t inc ours kr (htlcData e) = Some (si_PkScript s)"
        using Some by (simp add: dScript_def htlcData_def)
      have ent: "dEntry (dScript x t inc ours kr) (htlcData e) =
          ((\<lparr>to_Value = MilliSatoshi_ToSatoshis (pd_BtcAmount (snd e)), to_PkScript = si_PkScript s\<rparr>,
            pd_Timeout (snd e)), si_PkScript s, pd_AssetAmount (snd e))"
        using scr by (simp add: dEntry_def) (simp add: htlcData_def)
      show ?thesis
        using live Some Cons [of "AddTxOut tx (MilliSatoshi_ToSatoshis (pd_BtcAmount (snd e))) (si_PkScript s)"
            "PksAmounts_Add p (si_PkScript s) (pd_AssetAmount (snd e))" "cltvs @ [pd_Timeout (snd e)]"]
        by (simp add: assms addHTLC_def scr ent case_prod_unfold Let_def AddTxOut_def PksAmounts_Add_entries
            assetEntries_def)
    qed
  qed
qed

end
