(* ===== verification/Lnwallet_Agree.thy ===== *)
theory Lnwallet_Agree
  imports Lnwallet_CommitTx
begin

text \<open>
  The two parties of a channel build the same commitment transaction.  The peer sees the channel
  in a mirror: our configuration is its remote one, our HTLCs are its incoming ones, and the
  balances are exchanged.  Outputs are added in another order on the other side, so the proof
  rests on the sorting of the outputs and of the receivers in the payload.
\<close>

subsection \<open>The mirror\<close>

definition mirror_state :: "OpenChannel \<Rightarrow> OpenChannel \<Rightarrow> bool" where
  "mirror_state st st' \<longleftrightarrow> oc_ChanType st' = oc_ChanType st \<and> oc_AssetID st' = oc_AssetID st \<and>
     oc_BtcCapacity st' = oc_BtcCapacity st \<and> oc_FundingOutpoint st' = oc_FundingOutpoint st \<and>
     oc_ThawHeight st' = oc_ThawHeight st \<and> oc_IsInitiator st' = (\<not> oc_IsInitiator st) \<and>
     oc_LocalChanCfg st' = oc_RemoteChanCfg st \<and> oc_RemoteChanCfg st' = oc_LocalChanCfg st \<and>
     oc_LocalShutdownScript st' = oc_RemoteShutdownScript st \<and>
     oc_RemoteShutdownScript st' = oc_LocalShutdownScript st"

definition mirror_balances :: "balances \<Rightarrow> balances" where
  "mirror_balances b = \<lparr>ourBtcBalance = theirBtcBalance b, theirBtcBalance = ourBtcBalance b,
     ourAssetBalance = theirAssetBalance b, theirAssetBalance = ourAssetBalance b\<rparr>"

definition mirror_view :: "htlcView \<Rightarrow> htlcView \<Rightarrow> bool" where
  "mirror_view v v' \<longleftrightarrow> map htlcData (v_ourUpdates v') = map htlcData (v_theirUpdates v) \<and>
     map htlcData (v_theirUpdates v') = map htlcData (v_ourUpdates v)"

subsection \<open>The construction from the data of the HTLCs\<close>

definition dDust :: "OpenChannel \<Rightarrow> bool \<Rightarrow> bool \<Rightarrow> SatPerKWeight \<Rightarrow> htlc_data \<Rightarrow> bool" where
  "dDust st isOurs inc feePerKw = (\<lambda>(h, to, btc, asset, i).
     HtlcIsDust (oc_ChanType st) inc isOurs feePerKw (MilliSatoshi_ToSatoshis btc)
       (DustLimit (if isOurs then oc_LocalChanCfg st else oc_RemoteChanCfg st)) i)"

lemma isDustHtlc_data: "isDustHtlc st isOurs inc feePerKw (snd e) = dDust st isOurs inc feePerKw (htlcData e)"
  by (simp add: isDustHtlc_def dDust_def htlcData_def)

definition liveData :: "OpenChannel \<Rightarrow> bool \<Rightarrow> bool \<Rightarrow> SatPerKWeight \<Rightarrow> log_elem list \<Rightarrow> htlc_data list" where
  "liveData st isOurs inc feePerKw es = filter (\<lambda>d. \<not> dDust st isOurs inc feePerKw d) (map htlcData es)"

lemma length_liveData:
  "length (filter (\<lambda>e. \<not> isDustHtlc st isOurs inc feePerKw (snd e)) es) =
     length (liveData st isOurs inc feePerKw es)"
  by (induction es) (auto simp: liveData_def isDustHtlc_data)

definition htlcEntries :: "'z crypto_scheme \<Rightarrow> OpenChannel \<Rightarrow> bool \<Rightarrow> bool \<Rightarrow> SatPerKWeight \<Rightarrow> CommitmentKeyRing \<Rightarrow>
    log_elem list \<Rightarrow> ((TxOut \<times> u32) \<times> bytes \<times> Amount) list" where
  "htlcEntries x st isOurs inc feePerKw kr es =
     map (dEntry (dScript x (oc_ChanType st) inc isOurs kr)) (liveData st isOurs inc feePerKw es)"

definition scriptsFail :: "'z crypto_scheme \<Rightarrow> OpenChannel \<Rightarrow> bool \<Rightarrow> bool \<Rightarrow> SatPerKWeight \<Rightarrow> CommitmentKeyRing \<Rightarrow>
    log_elem list \<Rightarrow> bool" where
  "scriptsFail x st isOurs inc feePerKw kr es \<longleftrightarrow>
     (\<exists>d \<in> set (liveData st isOurs inc feePerKw es). dScript x (oc_ChanType st) inc isOurs kr d = None)"

text \<open>The state of the construction when all outputs are there: a base with the entries \<open>ens\<close> appended.\<close>

definition withEntries :: "MsgTx \<times> PksAmounts \<Rightarrow> ((TxOut \<times> u32) \<times> bytes \<times> Amount) list \<Rightarrow>
    (MsgTx \<times> PksAmounts) \<times> u32 list" where
  "withEntries base ens = (case base of (tx, p) \<Rightarrow>
     ((tx\<lparr>tx_TxOut := tx_TxOut tx @ map (fst \<circ> fst) ens\<rparr>,
       p\<lparr>pa_pksAmounts := pa_pksAmounts p @ assetEntries (pa_AssetID p) (map snd ens)\<rparr>),
      replicate (length (tx_TxOut tx)) 0 @ map (snd \<circ> fst) ens))"

lemma addHTLCs_entries:
  "snd (addHTLCs x isOurs inc kr (oc_ChanType st) (isDustHtlc st isOurs inc feePerKw) es (tx, p) cltvs) =
    (if scriptsFail x st isOurs inc feePerKw kr es then Inl ErrScript
     else let ens = htlcEntries x st isOurs inc feePerKw kr es
          in Inr ((tx\<lparr>tx_TxOut := tx_TxOut tx @ map (fst \<circ> fst) ens\<rparr>,
                 p\<lparr>pa_pksAmounts := pa_pksAmounts p @ assetEntries (pa_AssetID p) (map snd ens)\<rparr>),
                cltvs @ map (snd \<circ> fst) ens))"
  unfolding scriptsFail_def htlcEntries_def liveData_def
  using addHTLCs_result [of "isDustHtlc st isOurs inc feePerKw" "dDust st isOurs inc feePerKw", OF isDustHtlc_data]
  unfolding Let_def by (rule trans) (rule refl)

lemma createUnsigned_result:
  "snd (createUnsignedCommitmentTx x sanity st b0 isOurs feePerKw height view kr) =
    (let fee = commitFeeOf st isOurs feePerKw view;
         b = commitBalances st isOurs fee (numHTLCs st isOurs feePerKw view) b0
     in case baseCommitTx x st isOurs b kr of
          Inl e \<Rightarrow> Inl e
        | Inr base \<Rightarrow>
            if scriptsFail x st isOurs False feePerKw kr (v_ourUpdates view) \<or>
               scriptsFail x st isOurs True feePerKw kr (v_theirUpdates view)
            then Inl ErrScript
            else map_sum id (\<lambda>(txn, cltvs). \<lparr>ut_txn = txn, ut_fee = fee, ut_balances = b, ut_cltvs = cltvs\<rparr>)
              (finishCommitTx x sanity st height fee
                (withEntries base (htlcEntries x st isOurs False feePerKw kr (v_ourUpdates view) @
                   htlcEntries x st isOurs True feePerKw kr (v_theirUpdates view)))))"
proof -
  define fee where "fee = commitFeeOf st isOurs feePerKw view"
  define b where "b = commitBalances st isOurs fee (numHTLCs st isOurs feePerKw view) b0"
  note fold = fee_def [symmetric] b_def [symmetric]
  show ?thesis
  proof (cases "baseCommitTx x st isOurs b kr")
    case (Inl e)
    then show ?thesis by (simp add: createUnsignedCommitmentTx_def Let_def fold)
  next
    case (Inr base)
    obtain tx p where base: "base = (tx, p)" by (cases base)
    obtain ours r1 where a1: "addHTLCs x isOurs False kr (oc_ChanType st) (isDustHtlc st isOurs False feePerKw)
        (v_ourUpdates view) (tx, p) (replicate (length (tx_TxOut tx)) 0) = (ours, r1)"
      by (meson surj_pair)
    note r1 = addHTLCs_entries [of x isOurs False kr st feePerKw "v_ourUpdates view" tx p
        "replicate (length (tx_TxOut tx)) 0", unfolded a1 snd_conv]
    show ?thesis
    proof (cases "scriptsFail x st isOurs False feePerKw kr (v_ourUpdates view)")
      case True
      then show ?thesis using Inr base a1 r1 by (simp add: createUnsignedCommitmentTx_def Let_def fold)
    next
      case False
      then obtain b1 cltvs where r1': "r1 = Inr (b1, cltvs)" using r1 by (simp add: Let_def)
      obtain tx1 p1 where b1: "b1 = (tx1, p1)" by (cases b1)
      obtain theirs r2 where a2: "addHTLCs x isOurs True kr (oc_ChanType st) (isDustHtlc st isOurs True feePerKw)
          (v_theirUpdates view) (tx1, p1) cltvs = (theirs, r2)"
        by (meson surj_pair)
      note r2 = addHTLCs_entries [of x isOurs True kr st feePerKw "v_theirUpdates view" tx1 p1 cltvs,
          unfolded a2 snd_conv]
      show ?thesis
        using Inr base a1 r1 r1' b1 a2 r2 False
        by (simp add: createUnsignedCommitmentTx_def Let_def fold withEntries_def assetEntries_append
            split: if_splits)
    qed
  qed
qed

subsection \<open>Each step in the mirror\<close>

lemma HtlcIsDust_mirror: "HtlcIsDust t (\<not> inc) False f a d i = HtlcIsDust t inc True f a d i"
  by (auto simp: HtlcIsDust_def Let_def)

lemma dDust_mirror: "mirror_state st st' \<Longrightarrow> dDust st' False (\<not> inc) f = dDust st True inc f"
  by (simp add: dDust_def mirror_state_def HtlcIsDust_mirror fun_eq_iff)

lemma liveData_mirror:
  "mirror_state st st' \<Longrightarrow> map htlcData es' = map htlcData es \<Longrightarrow>
     liveData st' False (\<not> inc) f es' = liveData st True inc f es"
  by (simp add: liveData_def dDust_mirror)

lemma numHTLCs_mirror:
  assumes "mirror_state st st'" "mirror_view v v'"
  shows "numHTLCs st' False f v' = numHTLCs st True f v"
  using liveData_mirror [OF assms(1), of "v_theirUpdates v'" "v_ourUpdates v" False f]
    liveData_mirror [OF assms(1), of "v_ourUpdates v'" "v_theirUpdates v" True f] assms(2)
  by (simp add: numHTLCs_def length_liveData mirror_view_def)

lemma commitFee_mirror:
  "mirror_state st st' \<Longrightarrow> mirror_view v v' \<Longrightarrow> commitFeeOf st' False f v' = commitFeeOf st True f v"
  by (simp add: commitFeeOf_def numHTLCs_mirror) (simp add: mirror_state_def)

lemma commitBalances_mirror:
  "mirror_state st st' \<Longrightarrow>
     commitBalances st' False fee n (mirror_balances b) = mirror_balances (commitBalances st True fee n b)"
  by (auto simp: commitBalances_def mirror_balances_def mirror_state_def Let_def)

lemma baseCommitTx_mirror:
  assumes "mirror_state st st'"
  shows "baseCommitTx x st' False (mirror_balances b)
      (DeriveCommitmentKeys x p False (oc_ChanType st) (oc_RemoteChanCfg st) (oc_LocalChanCfg st)) =
    baseCommitTx x st True b
      (DeriveCommitmentKeys x p True (oc_ChanType st) (oc_LocalChanCfg st) (oc_RemoteChanCfg st))"
  using assms
  by (simp add: baseCommitTx_def mirror_state_def mirror_balances_def CreateCommitTx_def keyRing_agree
      fundingTxIn_def)

lemma dScript_mirror:
  "dScript x t (\<not> inc) False (DeriveCommitmentKeys x p False t B A) =
   dScript x t inc True (DeriveCommitmentKeys x p True t A B)"
  by (simp add: dScript_def genHtlcScript_agree fun_eq_iff)

lemma htlcs_mirror:
  fixes x :: "'z crypto_scheme" and p :: bytes
  assumes "mirror_state st st'" "map htlcData es' = map htlcData es"
  defines "kr \<equiv> DeriveCommitmentKeys x p True (oc_ChanType st) (oc_LocalChanCfg st) (oc_RemoteChanCfg st)"
    and "kr' \<equiv> DeriveCommitmentKeys x p False (oc_ChanType st) (oc_RemoteChanCfg st) (oc_LocalChanCfg st)"
  shows "htlcEntries x st' False (\<not> inc) f kr' es' = htlcEntries x st True inc f kr es"
    and "scriptsFail x st' False (\<not> inc) f kr' es' = scriptsFail x st True inc f kr es"
proof -
  have t: "oc_ChanType st' = oc_ChanType st" using assms(1) by (simp add: mirror_state_def)
  show "htlcEntries x st' False (\<not> inc) f kr' es' = htlcEntries x st True inc f kr es"
    and "scriptsFail x st' False (\<not> inc) f kr' es' = scriptsFail x st True inc f kr es"
    unfolding htlcEntries_def scriptsFail_def liveData_mirror [OF assms(1,2)] t kr_def kr'_def dScript_mirror
    by (rule refl)+
qed

lemma obfuscator_mirror: "mirror_state st st' \<Longrightarrow> createStateHintObfuscator x st' = createStateHintObfuscator x st"
  by (simp add: createStateHintObfuscator_def mirror_state_def)

subsection \<open>Order does not matter\<close>

lemma sort_key_unique:
  assumes "mset xs = mset ys" "inj_on f (set xs)"
  shows "sort_key f xs = sort_key f ys"
  by (rule sort_key_inj_key_eq) (use assms in simp_all)

lemma inj_outputKey: "inj_on outputKey A"
  by (rule inj_onI) (auto simp: outputKey_def prod_eq_iff dest: signed_word_eqI intro: TxOut.equality)

lemma InPlaceCommitSort_perm:
  assumes "mset zs = mset zs'"
  shows "InPlaceCommitSort (tx\<lparr>tx_TxOut := map fst zs\<rparr>) (map snd zs) =
    InPlaceCommitSort (tx\<lparr>tx_TxOut := map fst zs'\<rparr>) (map snd zs')"
  using sort_key_unique [OF assms inj_outputKey]
  by (simp add: InPlaceCommitSort_def zip_map_fst_snd)

lemma resolveOutputs_map:
  assumes "resolveOutputs tx ps = Inr outs"
  shows "(\<forall>p \<in> set ps. fst (FindScriptOutputIndex tx (fst p))) \<and>
    outs = map (\<lambda>p. \<lparr>out_Index = ucast (snd (FindScriptOutputIndex tx (fst p))) + 1, out_Amount = snd p\<rparr>) ps"
  using assms
proof (induction ps arbitrary: outs)
  case (Cons p ps)
  obtain pks amount f idx where "p = (pks, amount)" "FindScriptOutputIndex tx pks = (f, idx)"
    by (cases p; cases "FindScriptOutputIndex tx (fst p)") auto
  then show ?case using Cons by (cases f; cases "resolveOutputs tx ps") simp_all
qed simp

lemma resolveOutputs_ok:
  assumes "\<forall>p \<in> set ps. fst (FindScriptOutputIndex tx (fst p))"
  shows "resolveOutputs tx ps =
    Inr (map (\<lambda>p. \<lparr>out_Index = ucast (snd (FindScriptOutputIndex tx (fst p))) + 1, out_Amount = snd p\<rparr>) ps)"
  using assms
proof (induction ps)
  case (Cons p ps)
  obtain pks amount f idx where "p = (pks, amount)" "FindScriptOutputIndex tx pks = (f, idx)"
    by (cases p; cases "FindScriptOutputIndex tx (fst p)") auto
  then show ?case using Cons by (cases f) simp_all
qed simp

lemma out_Index_inj:
  assumes "length (tx_TxOut tx) \<le> 255" "distinct (map fst ps)" "\<forall>p \<in> set ps. fst (FindScriptOutputIndex tx (fst p))"
  shows "inj_on out_Index (set (map (\<lambda>p. \<lparr>out_Index = ucast (snd (FindScriptOutputIndex tx (fst p))) + 1,
    out_Amount = snd p\<rparr>) ps))"
proof -
  have "p = q" if p: "p \<in> set ps" and q: "q \<in> set ps"
    and i: "ucast (snd (FindScriptOutputIndex tx (fst p))) + 1 =
      (ucast (snd (FindScriptOutputIndex tx (fst q))) + 1 :: byte)" for p q
  proof -
    obtain ip iq where fp: "FindScriptOutputIndex tx (fst p) = (True, ip)"
      and fq: "FindScriptOutputIndex tx (fst q) = (True, iq)"
      using assms(3) p q by (metis prod.collapse)
    note rp = resolved_index [OF assms(1) fp] and rq = resolved_index [OF assms(1) fq]
    have "ucast ip + 1 = (ucast iq + 1 :: byte)" using i fp fq by simp
    then have "Suc (unat ip) = Suc (unat iq)" using rp rq by metis
    then have "fst p = fst q" using rp rq by (metis Suc_inject)
    then show "p = q" using assms(2) p q by (meson distinct_map inj_onD)
  qed
  then show ?thesis by (auto intro!: inj_onI)
qed

lemma AddOpReturnToTx_perm:
  assumes "AddOpReturnToTx tx (p\<lparr>pa_pksAmounts := ps\<rparr>) = Inr tx'" "mset ps = mset ps'" "distinct (map fst ps)"
    and "length (tx_TxOut tx) \<le> 255"
  shows "AddOpReturnToTx tx (p\<lparr>pa_pksAmounts := ps'\<rparr>) = Inr tx'"
proof (cases "pa_AssetID p = 0 \<or> pa_AssetID p = BtcAssetId \<or> ps = []")
  case True
  then show ?thesis using assms(1,2) by (auto simp: AddOpReturnToTx_def)
next
  case False
  let ?f = "\<lambda>p. \<lparr>out_Index = ucast (snd (FindScriptOutputIndex tx (fst p))) + 1, out_Amount = snd p\<rparr>"
  have "\<exists>outs. resolveOutputs tx ps = Inr outs"
    using assms(1) False by (auto simp: AddOpReturnToTx_def split: sum.splits)
  then have found: "\<forall>p \<in> set ps. fst (FindScriptOutputIndex tx (fst p))"
    using resolveOutputs_map by blast
  have s: "set ps' = set ps" using assms(2) by (metis set_mset_mset)
  have "sort_key out_Index (map ?f ps) = sort_key out_Index (map ?f ps')"
    using out_Index_inj [OF assms(4,3) found] assms(2) by (intro sort_key_unique) simp_all
  then show ?thesis
    using assms(1) False resolveOutputs_ok [OF found] resolveOutputs_ok [of ps' tx] found s assms(2)
    by (auto simp: AddOpReturnToTx_def)
qed

subsection \<open>Finishing\<close>

definition zOuts :: "MsgTx \<Rightarrow> ((TxOut \<times> u32) \<times> bytes \<times> Amount) list \<Rightarrow> (TxOut \<times> u32) list" where
  "zOuts tx ens = map (\<lambda>out. (out, 0)) (tx_TxOut tx) @ map fst ens"

lemma withEntries_zOuts:
  "withEntries (tx, p) ens = ((tx\<lparr>tx_TxOut := map fst (zOuts tx ens)\<rparr>,
     p\<lparr>pa_pksAmounts := pa_pksAmounts p @ assetEntries (pa_AssetID p) (map snd ens)\<rparr>),
     map snd (zOuts tx ens))"
  by (simp add: withEntries_def zOuts_def comp_def map_replicate_const)

lemma SetStateNumHint_outs:
  "SetStateNumHint (tx\<lparr>tx_TxOut := outs\<rparr>) h ob = map_option (\<lambda>t. t\<lparr>tx_TxOut := outs\<rparr>) (SetStateNumHint tx h ob)"
  by (simp add: SetStateNumHint_def Let_def split: list.split)

lemma AddOpReturnToTx_outs:
  "AddOpReturnToTx tx p = Inr tx' \<Longrightarrow> \<exists>pre. tx_TxOut tx' = pre @ tx_TxOut tx"
  by (auto simp: AddOpReturnToTx_def split: if_splits sum.splits)

text \<open>Another order of the outputs and of the receivers gives the same transaction.\<close>

lemma finishCommitTx_perm:
  assumes fin: "finishCommitTx x sanity st h fee ((tx\<lparr>tx_TxOut := map fst zs\<rparr>, p\<lparr>pa_pksAmounts := ps\<rparr>), map snd zs) =
      Inr (txn, cltvs)"
    and st: "mirror_state st st'" and zs: "mset zs = mset zs'" and ps: "mset ps = mset ps'"
    and dist: "distinct (map fst ps)"
    and txn: "distinct (map to_PkScript (tx_TxOut txn))" "length (tx_TxOut txn) \<le> 255"
  shows "finishCommitTx x sanity st' h fee ((tx\<lparr>tx_TxOut := map fst zs'\<rparr>, p\<lparr>pa_pksAmounts := ps'\<rparr>), map snd zs') =
      Inr (txn, cltvs)"
proof -
  obtain tx1 tx2 where h: "SetStateNumHint tx h (createStateHintObfuscator x st) = Some tx1"
    and s: "InPlaceCommitSort (tx1\<lparr>tx_TxOut := map fst zs\<rparr>) (map snd zs) = Some (tx2, cltvs)"
    and o: "AddOpReturnToTx tx2 (p\<lparr>pa_pksAmounts := ps\<rparr>) = Inr txn"
    and ok: "sanity txn" "\<not> sless64 (oc_BtcCapacity st) (totalOut txn + fee)"
    using fin
    by (auto simp: finishCommitTx_def SetStateNumHint_outs split: option.splits sum.splits if_splits prod.splits)
  have "length (tx_TxOut tx2) \<le> 255" using AddOpReturnToTx_outs [OF o] txn(2) by auto
  then have o': "AddOpReturnToTx tx2 (p\<lparr>pa_pksAmounts := ps'\<rparr>) = Inr txn"
    using AddOpReturnToTx_perm [OF o ps dist] by simp
  have s': "InPlaceCommitSort (tx1\<lparr>tx_TxOut := map fst zs'\<rparr>) (map snd zs') = Some (tx2, cltvs)"
    using s InPlaceCommitSort_perm [OF zs] by simp
  have "createStateHintObfuscator x st' = createStateHintObfuscator x st" "oc_BtcCapacity st' = oc_BtcCapacity st"
    using st obfuscator_mirror by (auto simp: mirror_state_def)
  then show ?thesis
    using h s' o' ok by (simp add: finishCommitTx_def SetStateNumHint_outs)
qed

text \<open>The scripts of the receivers are scripts of different outputs.\<close>

lemma sort_outs_mset:
  assumes "finishCommitTx x sanity st h fee ((tx\<lparr>tx_TxOut := map fst zs\<rparr>, q), map snd zs) = Inr (txn, cltvs)"
  shows "\<exists>pre outs. tx_TxOut txn = pre @ outs \<and> mset outs = mset (map fst zs)"
proof -
  obtain tx1 tx2 where s: "InPlaceCommitSort (tx1\<lparr>tx_TxOut := map fst zs\<rparr>) (map snd zs) = Some (tx2, cltvs)"
    and o: "AddOpReturnToTx tx2 q = Inr txn"
    using assms
    by (auto simp: finishCommitTx_def SetStateNumHint_outs split: option.splits sum.splits if_splits prod.splits)
  have "tx_TxOut tx2 = map fst (sort_key outputKey zs)"
    using s by (auto simp: InPlaceCommitSort_def Let_def zip_map_fst_snd)
  then show ?thesis using AddOpReturnToTx_outs [OF o] by (metis mset_map mset_sort)
qed

lemma balanceOutput_entries:
  assumes "balanceOutput btc asset s d (tx0, p0) = Inr (tx, p)" "map fst qs0 = map to_PkScript (tx_TxOut tx0)"
    and "pa_pksAmounts p0 = assetEntries (pa_AssetID p0) qs0"
  shows "\<exists>qs. map fst qs = map to_PkScript (tx_TxOut tx) \<and> pa_pksAmounts p = assetEntries (pa_AssetID p) qs"
  using assms
  by (intro exI [of _ "if sless64 btc d then qs0 else qs0 @ [(s, asset)]"])
     (auto simp: balanceOutput_def AddTxOut_def PksAmounts_Add_entries assetEntries_append split: if_splits)

lemma CreateCommitTx_entries:
  assumes "CreateCommitTx x t f kr cfg bl br al ar ini lease p0 s = Inr (tx, p)" "pa_pksAmounts p0 = []"
  shows "\<exists>qs. map fst qs = map to_PkScript (tx_TxOut tx) \<and> pa_pksAmounts p = assetEntries (pa_AssetID p) qs"
proof -
  obtain pk tx1 p1 where 1: "balanceOutput bl al pk (DustLimit cfg)
      (\<lparr>tx_Version = 2, tx_TxIn = [f], tx_TxOut = [], tx_LockTime = 0\<rparr>, p0) = Inr (tx1, p1)"
    and 2: "balanceOutput br ar s (DustLimit cfg) (tx1, p1) = Inr (tx, p)"
    using assms(1) by (fastforce simp: CreateCommitTx_def Let_def split: option.splits sum.splits)
  obtain qs where "map fst qs = map to_PkScript (tx_TxOut tx1)" "pa_pksAmounts p1 = assetEntries (pa_AssetID p1) qs"
    using balanceOutput_entries [OF 1, of "[]"] assms(2) by auto
  then show ?thesis using balanceOutput_entries [OF 2] by blast
qed

lemma baseCommitTx_entries:
  assumes "baseCommitTx x st isOurs b kr = Inr (tx, p)"
  shows "\<exists>qs. map fst qs = map to_PkScript (tx_TxOut tx) \<and> pa_pksAmounts p = assetEntries (pa_AssetID p) qs"
  using assms by (cases isOurs) (auto simp: baseCommitTx_def Let_def NewPksAmounts_def dest!: CreateCommitTx_entries)

lemma dEntry_script: "to_PkScript (fst (fst (dEntry scr d))) = fst (snd (dEntry scr d))"
  by (cases d) (simp add: dEntry_def)

lemma distinct_entries:
  "distinct (map fst qs) \<Longrightarrow> distinct (map fst (assetEntries i qs))"
  by (auto simp: assetEntries_def distinct_map intro: inj_on_subset)

lemma receivers_distinct:
  assumes "baseCommitTx x st isOurs b kr = Inr (tx, p)"
    and fin: "finishCommitTx x sanity st h fee (withEntries (tx, p) ens) = Inr (txn, cltvs)"
    and d: "distinct (map to_PkScript (tx_TxOut txn))"
    and ens: "\<And>e. e \<in> set ens \<Longrightarrow> to_PkScript (fst (fst e)) = fst (snd e)"
  shows "distinct (map fst (pa_pksAmounts p @ assetEntries (pa_AssetID p) (map snd ens)))"
proof -
  obtain qs where qs: "map fst qs = map to_PkScript (tx_TxOut tx)" "pa_pksAmounts p = assetEntries (pa_AssetID p) qs"
    using baseCommitTx_entries [OF assms(1)] by blast
  have "map fst (qs @ map snd ens) = map to_PkScript (map fst (zOuts tx ens))"
    using qs(1) ens by (simp add: zOuts_def comp_def)
  moreover obtain pre outs where o: "tx_TxOut txn = pre @ outs" "mset outs = mset (map fst (zOuts tx ens))"
    using sort_outs_mset [OF fin [unfolded withEntries_zOuts]] by blast
  moreover have "mset (map to_PkScript outs) = mset (map to_PkScript (map fst (zOuts tx ens)))"
    using arg_cong [OF o(2), of "image_mset to_PkScript"] unfolding mset_map .
  ultimately have "distinct (map fst (qs @ map snd ens))"
    using d mset_eq_imp_distinct_iff by (metis distinct_append map_append)
  then show ?thesis
    using distinct_entries [of "qs @ map snd ens" "pa_AssetID p"] qs(2) by (simp add: assetEntries_append)
qed

text \<open>
  C5: both parties of a channel build the same commitment transaction.  If the owner of a
  commitment can construct it from its view, the peer, who sees the channel and the view in the
  mirror and knows the same commitment point, constructs a transaction with the same inputs,
  outputs, payload and lock time, and the same fee and order of the HTLCs; its balances are the
  owner's exchanged.  The scripts of the outputs must be different, since an Omni receiver is
  found by its script.
\<close>
theorem commitment_transactions_agree:
  assumes "mirror_state st st'" and "mirror_view view view'"
    and "snd (createUnsignedCommitmentTx x sanity st b True feePerKw height view
      (DeriveCommitmentKeys x commitPoint True (oc_ChanType st) (oc_LocalChanCfg st) (oc_RemoteChanCfg st))) = Inr u"
    and "distinct (map to_PkScript (tx_TxOut (ut_txn u)))" and "length (tx_TxOut (ut_txn u)) \<le> 255"
  shows "snd (createUnsignedCommitmentTx x sanity st' (mirror_balances b) False feePerKw height view'
      (DeriveCommitmentKeys x commitPoint False (oc_ChanType st') (oc_LocalChanCfg st') (oc_RemoteChanCfg st'))) =
    Inr (u\<lparr>ut_balances := mirror_balances (ut_balances u)\<rparr>)"
proof -
  let ?t = "oc_ChanType st"
  let ?kr = "DeriveCommitmentKeys x commitPoint True ?t (oc_LocalChanCfg st) (oc_RemoteChanCfg st)"
  let ?kr' = "DeriveCommitmentKeys x commitPoint False ?t (oc_RemoteChanCfg st) (oc_LocalChanCfg st)"
  let ?X = "htlcEntries x st True False feePerKw ?kr (v_ourUpdates view)"
  let ?Y = "htlcEntries x st True True feePerKw ?kr (v_theirUpdates view)"
  note m = assms(1,2)
  define fee where "fee = commitFeeOf st True feePerKw view"
  define b' where "b' = commitBalances st True fee (numHTLCs st True feePerKw view) b"
  obtain tx p where base: "baseCommitTx x st True b' ?kr = Inr (tx, p)"
    and scr: "\<not> scriptsFail x st True False feePerKw ?kr (v_ourUpdates view)"
      "\<not> scriptsFail x st True True feePerKw ?kr (v_theirUpdates view)"
    and fin: "finishCommitTx x sanity st height fee (withEntries (tx, p) (?X @ ?Y)) = Inr (ut_txn u, ut_cltvs u)"
    and u: "ut_fee u = fee" "ut_balances u = b'"
    using assms(3) unfolding createUnsigned_result Let_def fee_def b'_def
    by (auto split: sum.splits if_splits simp: map_sum_def)
  have X: "htlcEntries x st' False True feePerKw ?kr' (v_theirUpdates view') = ?X"
    and Y: "htlcEntries x st' False False feePerKw ?kr' (v_ourUpdates view') = ?Y"
    and scr': "\<not> scriptsFail x st' False True feePerKw ?kr' (v_theirUpdates view')"
      "\<not> scriptsFail x st' False False feePerKw ?kr' (v_ourUpdates view')"
    using scr m(2) htlcs_mirror [OF m(1), where es = "v_ourUpdates view" and es' = "v_theirUpdates view'" and
          x = x and p = commitPoint and inc = False and f = feePerKw]
      htlcs_mirror [OF m(1), where es = "v_theirUpdates view" and es' = "v_ourUpdates view'" and
          x = x and p = commitPoint and inc = True and f = feePerKw]
    by (simp_all add: mirror_view_def)
  have dist: "distinct (map fst (pa_pksAmounts p @ assetEntries (pa_AssetID p) (map snd (?X @ ?Y))))"
    by (rule receivers_distinct [OF base fin assms(4)]) (auto simp: htlcEntries_def dEntry_script)
  have fin': "finishCommitTx x sanity st' height fee (withEntries (tx, p) (?Y @ ?X)) = Inr (ut_txn u, ut_cltvs u)"
    using finishCommitTx_perm [OF fin [unfolded withEntries_zOuts] m(1) _ _ dist assms(4,5),
        of "zOuts tx (?Y @ ?X)" "pa_pksAmounts p @ assetEntries (pa_AssetID p) (map snd (?Y @ ?X))"]
    unfolding withEntries_zOuts by (simp add: zOuts_def assetEntries_append ac_simps)
  have st': "oc_ChanType st' = ?t" "oc_LocalChanCfg st' = oc_RemoteChanCfg st" "oc_RemoteChanCfg st' = oc_LocalChanCfg st"
    using m(1) by (simp_all add: mirror_state_def)
  show ?thesis
    unfolding createUnsigned_result Let_def st' commitFee_mirror [OF m] numHTLCs_mirror [OF m]
      commitBalances_mirror [OF m(1)] baseCommitTx_mirror [OF m(1)] fee_def [symmetric] b'_def [symmetric] base
    using scr' X Y fin' u by simp
qed

text \<open>An asset channel with one HTLC in each direction.\<close>

definition sample_open :: "bool \<Rightarrow> OpenChannel" where
  "sample_open initiator =
     \<lparr>oc_FundingOutpoint = \<lparr>op_Hash = replicate 32 7, op_Index = 0\<rparr>, oc_BtcCapacity = 1000000,
      oc_RemoteCurrentRevocation = None, oc_RemoteNextRevocation = None,
      oc_LocalShutdownScript = (if initiator then [10] else [11]),
      oc_RemoteShutdownScript = (if initiator then [11] else [10]), oc_ThawHeight = 0,
      oc_ShortChannelID = \<lparr>BlockHeight = 1, TxIndex = 1, TxPosition = 0\<rparr>, oc_AssetID = 31, oc_ChanType = 2,
      oc_IsInitiator = initiator, oc_LocalChanCfg = (if initiator then sample_keys [2] else sample_keys [3]),
      oc_RemoteChanCfg = (if initiator then sample_keys [3] else sample_keys [2]),
      oc_TotalMSatSent = 0, oc_TotalMSatReceived = 0, oc_TotalAssetSent = 0, oc_TotalAssetReceived = 0,
      oc_LocalFeePerKw = 253, oc_RemoteFeePerKw = 253\<rparr>"

definition sample_pd :: "byte \<Rightarrow> PaymentDescriptor" where
  "sample_pd h = pd_zero\<lparr>pd_RHash := [h], pd_Timeout := 500, pd_BtcAmount := 1638000, pd_AssetAmount := 9,
     pd_AssetID := 31\<rparr>"

definition sample_view :: "byte \<Rightarrow> byte \<Rightarrow> htlcView" where
  "sample_view g h = \<lparr>v_ourUpdates = [(0, sample_pd g)], v_theirUpdates = [(0, sample_pd h)], v_feePerKw = 253\<rparr>"

definition sample_assets :: balances where
  "sample_assets = \<lparr>ourBtcBalance = 0, theirBtcBalance = 0, ourAssetBalance = 70, theirAssetBalance = 30\<rparr>"

definition sample_commit_tx :: "chan_error + unsignedCommitmentTx" where
  "sample_commit_tx = snd (createUnsignedCommitmentTx sample_crypto (\<lambda>tx. True) (sample_open True) sample_assets True 253 1
     (sample_view 1 2) (DeriveCommitmentKeys sample_crypto [6] True (oc_ChanType (sample_open True))
       (oc_LocalChanCfg (sample_open True)) (oc_RemoteChanCfg (sample_open True))))"

theorem commitment_transactions_agree_witness:
  "\<exists>u. sample_commit_tx = Inr u \<and>
     snd (createUnsignedCommitmentTx sample_crypto (\<lambda>tx. True) (sample_open False) (mirror_balances sample_assets) False
       253 1 (sample_view 2 1) (DeriveCommitmentKeys sample_crypto [6] False (oc_ChanType (sample_open False))
         (oc_LocalChanCfg (sample_open False)) (oc_RemoteChanCfg (sample_open False)))) =
     Inr (u\<lparr>ut_balances := mirror_balances (ut_balances u)\<rparr>)"
proof -
  have ok: "case sample_commit_tx of Inl e \<Rightarrow> False | Inr u \<Rightarrow>
      distinct (map to_PkScript (tx_TxOut (ut_txn u))) \<and> length (tx_TxOut (ut_txn u)) \<le> 255"
    by code_simp
  then obtain u where u: "sample_commit_tx = Inr u" "distinct (map to_PkScript (tx_TxOut (ut_txn u)))"
    "length (tx_TxOut (ut_txn u)) \<le> 255"
    by (auto split: sum.splits)
  have "mirror_state (sample_open True) (sample_open False)" "mirror_view (sample_view 1 2) (sample_view 2 1)"
    by (simp_all add: mirror_state_def sample_open_def mirror_view_def sample_view_def htlcData_def)
  from commitment_transactions_agree [OF this u(1) [unfolded sample_commit_tx_def] u(2,3)] u(1)
  show ?thesis by blast
qed

end
