(* ===== verification/Channeldb_Fwd.thy ===== *)
theory Channeldb_Fwd
  imports Lnwallet_UpdateLog Wire_Msg_Update
begin

text \<open>
  \<^verbatim>\<open>channeldb/forwarding_package.go\<close>: the packages of HTLCs that a revocation locked in, the filters
  that record which of them are done, and the packages on disk.

  A bucket of the database is a list of keys and values in the order of the keys, in which
  \<^verbatim>\<open>ForEach\<close> visits them; the keys are integers in big endian, which sort as the integers do.  The
  content of the filters is kept as the bytes that are written; log updates are kept as values.
  An operation that fails leaves the database as it was, since \<^verbatim>\<open>kvdb.Update\<close> then rolls back.
\<close>

subsection \<open>Log updates\<close>

text \<open>The messages that a log entry is mapped to.\<close>

datatype LogMsg =
    LogAdd UpdateAddHTLC
  | LogFulfill UpdateFulfillHTLC
  | LogFail UpdateFailHTLC
  | LogMalformed UpdateFailMalformedHTLC
  | LogFee UpdateFee

record LogUpdate =
  lu_LogIndex :: u64
  lu_UpdateMsg :: LogMsg

subsection \<open>Filters\<close>

record PkgFilter =
  pf_count :: u16
  pf_filter :: bytes

definition NewPkgFilter :: "u16 \<Rightarrow> PkgFilter" where
  "NewPkgFilter count = \<lparr>pf_count = count, pf_filter = replicate (unat ((count + 7) div 8)) 0\<rparr>"

definition pf_Count :: "PkgFilter \<Rightarrow> u16" where
  "pf_Count f = pf_count f"

text \<open>An index out of range is a panic, \<open>None\<close>.\<close>

definition pf_Set :: "u16 \<Rightarrow> PkgFilter \<Rightarrow> PkgFilter option" where
  "pf_Set i f =
     (let byt = unat (i div 8); b = i mod 8
      in if byt < length (pf_filter f)
         then Some (f\<lparr>pf_filter := (pf_filter f)[byt := pf_filter f ! byt OR push_bit (unat (7 - b)) 1]\<rparr>)
         else None)"

definition pf_Contains :: "PkgFilter \<Rightarrow> u16 \<Rightarrow> bool option" where
  "pf_Contains f i =
     (let byt = unat (i div 8); b = i mod 8
      in if byt < length (pf_filter f)
         then Some (pf_filter f ! byt AND push_bit (unat (7 - b)) 1 \<noteq> 0)
         else None)"

definition pf_Equal :: "PkgFilter \<Rightarrow> PkgFilter \<Rightarrow> bool" where
  "pf_Equal f f2 \<longleftrightarrow> pf_count f = pf_count f2 \<and> pf_filter f = pf_filter f2"

text \<open>A loop that returns false at the first element that fails.\<close>

fun checkAll :: "('a \<Rightarrow> bool option) \<Rightarrow> 'a list \<Rightarrow> bool option" where
  "checkAll P [] = Some True"
| "checkAll P (i # is) =
     (case P i of None \<Rightarrow> None | Some b \<Rightarrow> if b then checkAll P is else Some False)"

definition byteFull :: "PkgFilter \<Rightarrow> u16 \<Rightarrow> bool option" where
  "byteFull f i = (if unat i < length (pf_filter f) then Some (pf_filter f ! unat i = 0xFF) else None)"

definition IsFull :: "PkgFilter \<Rightarrow> bool option" where
  "IsFull f =
     (case checkAll (byteFull f) (map of_nat [0..<unat (pf_count f div 8)]) of
        None \<Rightarrow> None
      | Some b \<Rightarrow>
          if b then
            (let r = pf_count f mod 8
             in checkAll (pf_Contains f) (map of_nat [unat (pf_count f - r)..<unat (pf_count f)]))
          else Some False)"

definition pf_Size :: "PkgFilter \<Rightarrow> u16" where
  "pf_Size f = 2 + (pf_count f + 7) div 8"

definition pf_Encode :: "PkgFilter \<Rightarrow> writer" where
  "pf_Encode f = wseq [WriteBytes (PutUint16 (pf_count f)), WriteBytes (pf_filter f)]"

definition pf_Decode :: "PkgFilter reader" where
  "pf_Decode = rbind (ReadFull 2) (\<lambda>c.
     let f = \<lparr>pf_count = BigEndianUint16 c, pf_filter = []\<rparr>
     in rbind (ReadFull (unat (pf_Size f - 2))) (\<lambda>b. rret (f\<lparr>pf_filter := b\<rparr>)))"

subsection \<open>References\<close>

definition AddRef_Encode :: "AddRef \<Rightarrow> writer" where
  "AddRef_Encode a = wseq [WriteBytes (PutUint64 (ar_Height a)), WriteBytes (PutUint16 (ar_Index a))]"

definition AddRef_Decode :: "AddRef reader" where
  "AddRef_Decode = rbind (ReadFull 8) (\<lambda>h. rbind (ReadFull 2) (\<lambda>i.
     rret \<lparr>ar_Height = BigEndianUint64 h, ar_Index = BigEndianUint16 i\<rparr>))"

interpretation add_ref: wire_codec AddRef_Encode
    "\<lambda>a. PutUint64 (ar_Height a) @ PutUint16 (ar_Index a)" AddRef_Decode "\<lambda>_. True"
proof unfold_locales
  fix a :: AddRef and buf rest
  show "AddRef_Encode a buf = (buf @ PutUint64 (ar_Height a) @ PutUint16 (ar_Index a), None)"
    by (simp add: AddRef_Encode_def wire_simps)
  show "AddRef_Decode ((PutUint64 (ar_Height a) @ PutUint16 (ar_Index a)) @ rest) = Inr (a, rest)"
    by (simp add: AddRef_Decode_def wire_simps)
qed

subsection \<open>Packages\<close>

datatype FwdState = FwdStateLockedIn | FwdStateProcessed | FwdStateCompleted

record FwdPkg =
  fp_Source :: ShortChannelID
  fp_Height :: u64
  fp_State :: FwdState
  fp_Adds :: "LogUpdate list"
  fp_FwdFilter :: PkgFilter
  fp_AckFilter :: PkgFilter
  fp_SettleFails :: "LogUpdate list"
  fp_SettleFailFilter :: PkgFilter

definition NewFwdPkg :: "ShortChannelID \<Rightarrow> u64 \<Rightarrow> LogUpdate list \<Rightarrow> LogUpdate list \<Rightarrow> FwdPkg" where
  "NewFwdPkg source height addUpdates settleFailUpdates =
     \<lparr>fp_Source = source, fp_Height = height, fp_State = FwdStateLockedIn, fp_Adds = addUpdates,
      fp_FwdFilter = NewPkgFilter (of_nat (length addUpdates)),
      fp_AckFilter = NewPkgFilter (of_nat (length addUpdates)),
      fp_SettleFails = settleFailUpdates,
      fp_SettleFailFilter = NewPkgFilter (of_nat (length settleFailUpdates))\<rparr>"

definition FwdPkg_ID :: "FwdPkg \<Rightarrow> bytes" where
  "FwdPkg_ID f = PutUint64 (ToUint64 (fp_Source f)) @ PutUint64 (fp_Height f)"

subsection \<open>Packages on disk\<close>

type_synonym ('k, 'v) bucket = "('k \<times> 'v) list"

fun bucketPut :: "'k::linorder \<Rightarrow> 'v \<Rightarrow> ('k, 'v) bucket \<Rightarrow> ('k, 'v) bucket" where
  "bucketPut k v [] = [(k, v)]"
| "bucketPut k v (p # b) =
     (if fst p < k then p # bucketPut k v b else if fst p = k then (k, v) # b else (k, v) # p # b)"

definition bucketDelete :: "'k \<Rightarrow> ('k, 'v) bucket \<Rightarrow> ('k, 'v) bucket" where
  "bucketDelete k b = filter (\<lambda>p. fst p \<noteq> k) b"

record heightBkt =
  hb_adds :: "(u16, LogUpdate) bucket"
  hb_failSettles :: "(u16, LogUpdate) bucket"
  hb_ackFilter :: "bytes option"
  hb_settleFailFilter :: "bytes option"
  hb_fwdFilter :: "bytes option"

definition newHeightBkt :: heightBkt where
  "newHeightBkt = \<lparr>hb_adds = [], hb_failSettles = [], hb_ackFilter = None, hb_settleFailFilter = None,
     hb_fwdFilter = None\<rparr>"

type_synonym sourceBkt = "(u64, heightBkt) bucket"

text \<open>The top-level bucket, if it exists.\<close>

type_synonym fwdPkgBkt = "(u64, sourceBkt) bucket option"

datatype fwd_error = ErrCorruptedFwdPkg | ErrFwdDecode wire_error | ErrBucketNotFound | FwdPanic

definition getBucket :: "('k, ('j, 'v) bucket) bucket \<Rightarrow> 'k \<Rightarrow> ('j, 'v) bucket" where
  "getBucket b k = (case map_of b k of None \<Rightarrow> [] | Some c \<Rightarrow> c)"

definition putLogUpdates :: "LogUpdate list \<Rightarrow> (u16, LogUpdate) bucket \<Rightarrow> (u16, LogUpdate) bucket" where
  "putLogUpdates us b = fold (\<lambda>i. bucketPut (of_nat i) (us ! i)) [0..<length us] b"

definition AddFwdPkg :: "FwdPkg \<Rightarrow> fwdPkgBkt \<Rightarrow> fwdPkgBkt" where
  "AddFwdPkg fwdPkg db =
     (let root = (case db of None \<Rightarrow> [] | Some r \<Rightarrow> r);
          source = ToUint64 (fp_Source fwdPkg);
          src = getBucket root source;
          hb = (case map_of src (fp_Height fwdPkg) of None \<Rightarrow> newHeightBkt | Some hb \<Rightarrow> hb);
          hb' = hb\<lparr>hb_adds := putLogUpdates (fp_Adds fwdPkg) (hb_adds hb),
                  hb_ackFilter := Some (fst (pf_Encode (fp_AckFilter fwdPkg) [])),
                  hb_failSettles := putLogUpdates (fp_SettleFails fwdPkg) (hb_failSettles hb),
                  hb_settleFailFilter := Some (fst (pf_Encode (fp_SettleFailFilter fwdPkg) []))\<rparr>
      in Some (bucketPut source (bucketPut (fp_Height fwdPkg) hb' src) root))"

definition loadHtlcs :: "(u16, LogUpdate) bucket \<Rightarrow> LogUpdate list" where
  "loadHtlcs b = map snd b"

definition decodeFilter :: "bytes option \<Rightarrow> fwd_error + PkgFilter" where
  "decodeFilter b = (case b of
       None \<Rightarrow> Inl ErrCorruptedFwdPkg
     | Some bs \<Rightarrow> (case pf_Decode bs of Inl e \<Rightarrow> Inl (ErrFwdDecode e) | Inr (f, _) \<Rightarrow> Inr f))"

definition loadFwdPkg :: "(u64, sourceBkt) bucket \<Rightarrow> ShortChannelID \<Rightarrow> u64 \<Rightarrow> fwd_error + FwdPkg" where
  "loadFwdPkg root source height =
     (case map_of root (ToUint64 source) of
        None \<Rightarrow> Inl ErrCorruptedFwdPkg
      | Some src \<Rightarrow> (case map_of src height of
            None \<Rightarrow> Inl ErrCorruptedFwdPkg
          | Some hb \<Rightarrow> (case decodeFilter (hb_ackFilter hb) of
                Inl e \<Rightarrow> Inl e
              | Inr ackFilter \<Rightarrow> (case decodeFilter (hb_settleFailFilter hb) of
                    Inl e \<Rightarrow> Inl e
                  | Inr settleFailFilter \<Rightarrow>
                      (let adds = loadHtlcs (hb_adds hb);
                           pkg = \<lparr>fp_Source = source, fp_Height = height, fp_State = FwdStateLockedIn,
                                  fp_Adds = adds, fp_FwdFilter = NewPkgFilter (of_nat (length adds)),
                                  fp_AckFilter = ackFilter, fp_SettleFails = loadHtlcs (hb_failSettles hb),
                                  fp_SettleFailFilter = settleFailFilter\<rparr>
                       in if hb_fwdFilter hb = None then Inr pkg
                          else case decodeFilter (hb_fwdFilter hb) of
                                 Inl e \<Rightarrow> Inl e
                               | Inr fwdFilter \<Rightarrow>
                                   (case IsFull ackFilter of
                                      None \<Rightarrow> Inl FwdPanic
                                    | Some False \<Rightarrow> Inr (pkg\<lparr>fp_FwdFilter := fwdFilter, fp_State := FwdStateProcessed\<rparr>)
                                    | Some True \<Rightarrow>
                                        (case IsFull settleFailFilter of
                                           None \<Rightarrow> Inl FwdPanic
                                         | Some full \<Rightarrow>
                                             Inr (pkg\<lparr>fp_FwdFilter := fwdFilter,
                                               fp_State := (if full then FwdStateCompleted
                                                            else FwdStateProcessed)\<rparr>))))))))"

fun loadAll :: "(u64, sourceBkt) bucket \<Rightarrow> ShortChannelID \<Rightarrow> u64 list \<Rightarrow> fwd_error + FwdPkg list" where
  "loadAll root source [] = Inr []"
| "loadAll root source (h # hs) =
     (case loadFwdPkg root source h of
        Inl e \<Rightarrow> Inl e
      | Inr p \<Rightarrow> (case loadAll root source hs of Inl e \<Rightarrow> Inl e | Inr ps \<Rightarrow> Inr (p # ps)))"

definition loadChannelFwdPkgs :: "fwdPkgBkt \<Rightarrow> ShortChannelID \<Rightarrow> fwd_error + FwdPkg list" where
  "loadChannelFwdPkgs db source =
     (case db of
        None \<Rightarrow> Inr []
      | Some root \<Rightarrow> (case map_of root (ToUint64 source) of
            None \<Rightarrow> Inr []
          | Some src \<Rightarrow> loadAll root source (map fst src)))"

definition SetFwdFilter :: "ShortChannelID \<Rightarrow> u64 \<Rightarrow> PkgFilter \<Rightarrow> fwdPkgBkt \<Rightarrow> fwd_error + fwdPkgBkt" where
  "SetFwdFilter source height fwdFilter db =
     (case db of
        None \<Rightarrow> Inl ErrCorruptedFwdPkg
      | Some root \<Rightarrow> (case map_of root (ToUint64 source) of
            None \<Rightarrow> Inl ErrCorruptedFwdPkg
          | Some src \<Rightarrow> (case map_of src height of
                None \<Rightarrow> Inl ErrCorruptedFwdPkg
              | Some hb \<Rightarrow>
                  if hb_fwdFilter hb \<noteq> None then Inr db
                  else Inr (Some (bucketPut (ToUint64 source)
                         (bucketPut height (hb\<lparr>hb_fwdFilter := Some (fst (pf_Encode fwdFilter []))\<rparr>) src) root)))))"

fun setAll :: "u16 list \<Rightarrow> PkgFilter \<Rightarrow> PkgFilter option" where
  "setAll [] f = Some f"
| "setAll (i # is) f = (case pf_Set i f of None \<Rightarrow> None | Some f' \<Rightarrow> setAll is f')"

text \<open>Reading a filter, setting indexes and writing it back.\<close>

definition ackFilterBytes :: "u16 list \<Rightarrow> bytes option \<Rightarrow> fwd_error + bytes" where
  "ackFilterBytes indexes b =
     (case decodeFilter b of
        Inl e \<Rightarrow> Inl e
      | Inr f \<Rightarrow> (case setAll indexes f of
            None \<Rightarrow> Inl FwdPanic
          | Some f' \<Rightarrow> Inr (fst (pf_Encode f' []))))"

definition ackAddHtlcsAtHeight :: "u64 \<Rightarrow> u16 list \<Rightarrow> sourceBkt \<Rightarrow> fwd_error + sourceBkt" where
  "ackAddHtlcsAtHeight height indexes src =
     (case map_of src height of
        None \<Rightarrow> Inr src
      | Some hb \<Rightarrow> (case ackFilterBytes indexes (hb_ackFilter hb) of
            Inl e \<Rightarrow> Inl e
          | Inr b \<Rightarrow> Inr (bucketPut height (hb\<lparr>hb_ackFilter := Some b\<rparr>) src)))"

definition ackSettleFailsAtHeight :: "u64 \<Rightarrow> u16 list \<Rightarrow> sourceBkt \<Rightarrow> fwd_error + sourceBkt" where
  "ackSettleFailsAtHeight height indexes src =
     (case map_of src height of
        None \<Rightarrow> Inr src
      | Some hb \<Rightarrow> (case ackFilterBytes indexes (hb_settleFailFilter hb) of
            Inl e \<Rightarrow> Inl e
          | Inr b \<Rightarrow> Inr (bucketPut height (hb\<lparr>hb_settleFailFilter := Some b\<rparr>) src)))"

text \<open>
  The loops over the heights.  Go visits the keys of a map in any order; the order decides only
  which of several errors is returned.
\<close>

fun ackHeights :: "(u64 \<Rightarrow> u16 list \<Rightarrow> sourceBkt \<Rightarrow> fwd_error + sourceBkt) \<Rightarrow> (u64 \<Rightarrow> u16 list) \<Rightarrow>
    u64 list \<Rightarrow> sourceBkt \<Rightarrow> fwd_error + sourceBkt" where
  "ackHeights ack idx [] src = Inr src"
| "ackHeights ack idx (h # hs) src =
     (case ack h (idx h) src of Inl e \<Rightarrow> Inl e | Inr src' \<Rightarrow> ackHeights ack idx hs src')"

definition addDiffs :: "AddRef list \<Rightarrow> u64 \<Rightarrow> u16 list" where
  "addDiffs refs h = map ar_Index (filter (\<lambda>r. ar_Height r = h) refs)"

definition AckAddHtlcs :: "ShortChannelID \<Rightarrow> AddRef list \<Rightarrow> fwdPkgBkt \<Rightarrow> fwd_error + fwdPkgBkt" where
  "AckAddHtlcs source addRefs db =
     (if addRefs = [] then Inr db
      else case db of
             None \<Rightarrow> Inl ErrCorruptedFwdPkg
           | Some root \<Rightarrow> (case map_of root (ToUint64 source) of
                 None \<Rightarrow> Inl ErrCorruptedFwdPkg
               | Some src \<Rightarrow>
                   (case ackHeights ackAddHtlcsAtHeight (addDiffs addRefs)
                           (remdups (map ar_Height addRefs)) src of
                      Inl e \<Rightarrow> Inl e
                    | Inr src' \<Rightarrow> Inr (Some (bucketPut (ToUint64 source) src' root)))))"

definition settleFailDiffs :: "SettleFailRef list \<Rightarrow> ShortChannelID \<Rightarrow> u64 \<Rightarrow> u16 list" where
  "settleFailDiffs refs dest h =
     map sf_Index (filter (\<lambda>r. sf_Source r = dest \<and> sf_Height r = h) refs)"

fun ackDests :: "SettleFailRef list \<Rightarrow> ShortChannelID list \<Rightarrow> (u64, sourceBkt) bucket \<Rightarrow>
    fwd_error + (u64, sourceBkt) bucket" where
  "ackDests refs [] root = Inr root"
| "ackDests refs (dest # dests) root =
     (case map_of root (ToUint64 dest) of
        None \<Rightarrow> ackDests refs dests root
      | Some src \<Rightarrow>
          (case ackHeights ackSettleFailsAtHeight (settleFailDiffs refs dest)
                  (remdups (map sf_Height (filter (\<lambda>r. sf_Source r = dest) refs))) src of
             Inl e \<Rightarrow> Inl e
           | Inr src' \<Rightarrow> ackDests refs dests (bucketPut (ToUint64 dest) src' root)))"

definition ackSettleFails :: "SettleFailRef list \<Rightarrow> fwdPkgBkt \<Rightarrow> fwd_error + fwdPkgBkt" where
  "ackSettleFails settleFailRefs db =
     (if settleFailRefs = [] then Inr db
      else case db of
             None \<Rightarrow> Inl ErrCorruptedFwdPkg
           | Some root \<Rightarrow>
               (case ackDests settleFailRefs (remdups (map sf_Source settleFailRefs)) root of
                  Inl e \<Rightarrow> Inl e
                | Inr root' \<Rightarrow> Inr (Some root')))"

definition RemovePkg :: "ShortChannelID \<Rightarrow> u64 \<Rightarrow> fwdPkgBkt \<Rightarrow> fwd_error + fwdPkgBkt" where
  "RemovePkg source height db =
     (case db of
        None \<Rightarrow> Inr db
      | Some root \<Rightarrow> (case map_of root (ToUint64 source) of
            None \<Rightarrow> Inl ErrCorruptedFwdPkg
          | Some src \<Rightarrow>
              if map_of src height = None then Inl ErrBucketNotFound
              else Inr (Some (bucketPut (ToUint64 source) (bucketDelete height src) root))))"

definition Wipe :: "ShortChannelID \<Rightarrow> fwdPkgBkt \<Rightarrow> fwdPkgBkt" where
  "Wipe source db =
     (case db of
        None \<Rightarrow> None
      | Some root \<Rightarrow>
          if map_of root (ToUint64 source) = None then db
          else Some (bucketDelete (ToUint64 source) root))"

subsection \<open>A filter is a set\<close>

text \<open>
  A filter for at most 65528 elements has the length its count asks for (beyond that the
  16-bit sum in \<^verbatim>\<open>NewPkgFilter\<close> wraps).  Its elements are the indexes below the count whose bit
  is set.
\<close>

definition pf_ok :: "nat \<Rightarrow> PkgFilter \<Rightarrow> bool" where
  "pf_ok n f \<longleftrightarrow> n \<le> 65528 \<and> unat (pf_count f) = n \<and> length (pf_filter f) = (n + 7) div 8"

definition pf_set :: "PkgFilter \<Rightarrow> nat set" where
  "pf_set f = {i. i < unat (pf_count f) \<and> bit (pf_filter f ! (i div 8)) (7 - i mod 8)}"

lemma unat_index: "unat ((i :: u16) div 8) = unat i div 8" "unat (7 - (i :: u16) mod 8) = 7 - unat i mod 8"
proof -
  have "i mod 8 \<le> 7" by (simp add: word_le_nat_alt unat_mod)
  then show "unat (7 - i mod 8) = 7 - unat i mod 8" by (simp add: unat_sub unat_mod)
qed (simp add: unat_div)

lemma filter_length:
  assumes "unat (c :: u16) \<le> 65528" shows "unat ((c + 7) div 8) = (unat c + 7) div 8"
proof -
  have "unat (c + 7) = unat c + 7" using assms by (subst unat_add_lem [THEN iffD1]) auto
  then show ?thesis by (simp add: unat_div)
qed

lemma pf_ok_New: "unat c \<le> 65528 \<Longrightarrow> pf_ok (unat c) (NewPkgFilter c)"
  by (simp add: pf_ok_def NewPkgFilter_def filter_length)

lemma pf_set_New: "unat c \<le> 65528 \<Longrightarrow> pf_set (NewPkgFilter c) = {}"
  by (auto simp: pf_set_def NewPkgFilter_def filter_length)

lemma pf_Contains_bit:
  "pf_Contains f i = (if unat i div 8 < length (pf_filter f)
     then Some (bit (pf_filter f ! (unat i div 8)) (7 - unat i mod 8)) else None)"
  by (simp add: pf_Contains_def Let_def unat_index bit_iff_and_push_bit_not_eq_0)

lemma pf_Contains_ok: "pf_ok n f \<Longrightarrow> unat i < n \<Longrightarrow> pf_Contains f i = Some (unat i \<in> pf_set f)"
  by (auto simp: pf_Contains_bit pf_ok_def pf_set_def)

lemma mod8_le: "j mod 8 \<le> (7 :: nat)"
  by presburger

lemma bit_set_byte: "a < 8 \<Longrightarrow> bit ((v :: byte) OR 2 ^ a) m \<longleftrightarrow> bit v m \<or> m = a"
  by (auto simp: bit_or_iff bit_exp_iff)

lemma pf_Set_ok:
  assumes "pf_ok n f" "pf_Set i f = Some f'"
  shows "pf_ok n f'" "pf_set f' = pf_set f \<union> ({unat i} \<inter> {..<n})"
proof -
  have f': "f' = f\<lparr>pf_filter := (pf_filter f)[unat i div 8 := pf_filter f ! (unat i div 8) OR push_bit (7 - unat i mod 8) 1]\<rparr>"
    using assms(2) by (auto simp: pf_Set_def Let_def unat_index split: if_splits)
  then show "pf_ok n f'" using assms(1) by (simp add: pf_ok_def)
  have inj: "j = unat i" if "7 - j mod 8 = 7 - unat i mod 8" "j div 8 = unat i div 8" for j
  proof -
    have "j mod 8 = unat i mod 8" using that(1) by (metis diff_diff_cancel mod8_le)
    then show ?thesis using that(2) by (metis div_mult_mod_eq)
  qed
  have "bit (pf_filter f' ! (j div 8)) (7 - j mod 8) \<longleftrightarrow>
      j = unat i \<or> bit (pf_filter f ! (j div 8)) (7 - j mod 8)" if "j < n" for j
  proof (cases "unat i div 8 = j div 8")
    case True
    have "j div 8 < length (pf_filter f)" using assms(1) that by (auto simp: pf_ok_def)
    then show ?thesis using True bit_set_byte [of "7 - unat i mod 8" "pf_filter f ! (j div 8)"] inj [of j]
      unfolding f' by auto
  next
    case False
    then show ?thesis unfolding f' by auto
  qed
  then show "pf_set f' = pf_set f \<union> ({unat i} \<inter> {..<n})"
    using assms(1) f' by (auto simp: pf_set_def pf_ok_def)
qed

lemma setAll_ok: "pf_ok n f \<Longrightarrow> setAll is f = Some f' \<Longrightarrow> pf_ok n f' \<and> pf_set f' = pf_set f \<union> (unat ` set is \<inter> {..<n})"
proof (induction "is" arbitrary: f)
  case (Cons i "is")
  then obtain f1 where "pf_Set i f = Some f1" "setAll is f1 = Some f'" by (auto split: option.splits)
  then have "pf_ok n f1" "pf_set f1 = pf_set f \<union> ({unat i} \<inter> {..<n})" "setAll is f1 = Some f'"
    using pf_Set_ok [OF Cons.prems(1)] by blast+
  then show ?case using Cons.IH [of f1] by auto
qed simp

lemma checkAll_Some: "(\<And>i. i \<in> set is \<Longrightarrow> P i = Some (Q i)) \<Longrightarrow> checkAll P is = Some (\<forall>i\<in>set is. Q i)"
  by (induction "is") auto

lemma byte_full_iff: "w = (0xFF :: byte) \<longleftrightarrow> (\<forall>k<8. bit w k)"
proof -
  have "(0xFF :: byte) = mask 8" by (simp add: mask_eq_exp_minus_1)
  then show ?thesis unfolding \<open>0xFF = mask 8\<close> by (auto intro!: bit_word_eqI simp: bit_mask_iff simp del: mask_numeral)
qed

lemma all_below_split:
  fixes n :: nat
  shows "(\<forall>i<n. P i) \<longleftrightarrow> (\<forall>q < n div 8. \<forall>k<8. P (q * 8 + k)) \<and> (\<forall>i. n - n mod 8 \<le> i \<and> i < n \<longrightarrow> P i)"
proof -
  have "i < n - n mod 8 \<Longrightarrow> i div 8 < n div 8 \<and> i = i div 8 * 8 + i mod 8" for i
    by (simp add: minus_mod_eq_mult_div less_mult_imp_div_less mult.commute)
  moreover have "q < n div 8 \<Longrightarrow> k < 8 \<Longrightarrow> q * 8 + k < n" for q k
    by presburger
  ultimately show ?thesis by (metis mod_less_divisor not_le_imp_less zero_less_numeral)
qed

lemma IsFull_ok:
  assumes "pf_ok n f"
  shows "IsFull f = Some (pf_set f = {..<n})"
proof -
  have n: "unat (pf_count f) = n" "length (pf_filter f) = (n + 7) div 8" "n < 65536"
    using assms by (simp_all add: pf_ok_def)
  have small: "unat (of_nat i :: u16) = i" if "i < n" for i
    using that n(3) by (simp add: unat_of_nat take_bit_eq_mod)
  have "pf_count f mod 8 \<le> pf_count f" by (simp add: word_le_nat_alt unat_mod)
  then have r: "unat (pf_count f - pf_count f mod 8) = n - n mod 8"
    by (simp add: unat_sub unat_mod n(1))
  have "checkAll (byteFull f) (map of_nat [0..<n div 8]) =
      Some (\<forall>i\<in>set (map of_nat [0..<n div 8] :: u16 list). pf_filter f ! unat i = 0xFF)"
    by (rule checkAll_Some) (use small n(2) in \<open>auto simp: byteFull_def\<close>)
  moreover have "(\<forall>i\<in>set (map of_nat [0..<n div 8] :: u16 list). pf_filter f ! unat i = 0xFF) \<longleftrightarrow>
      (\<forall>q < n div 8. \<forall>k<8. q * 8 + k \<in> pf_set f)"
  proof -
    have "q < n div 8 \<Longrightarrow> pf_filter f ! q = 0xFF \<longleftrightarrow> (\<forall>k<8. q * 8 + k \<in> pf_set f)" for q
    proof -
      assume q: "q < n div 8"
      have "q * 8 + k \<in> pf_set f \<longleftrightarrow> bit (pf_filter f ! q) (7 - k)" if "k < 8" for k
        using that q n(1) by (auto simp: pf_set_def)
      then have "(\<forall>k<8. q * 8 + k \<in> pf_set f) \<longleftrightarrow> (\<forall>k<8. bit (pf_filter f ! q) (7 - k))" by simp
      also have "\<dots> \<longleftrightarrow> (\<forall>k<8. bit (pf_filter f ! q) k)"
      proof (intro iffI allI impI)
        fix k :: nat assume "\<forall>k<8. bit (pf_filter f ! q) (7 - k)" "k < 8"
        then show "bit (pf_filter f ! q) k" by (auto dest: spec [of _ "7 - k"])
      qed auto
      finally show ?thesis by (simp add: byte_full_iff)
    qed
    then show ?thesis using small by auto
  qed
  moreover have "checkAll (pf_Contains f) (map of_nat [n - n mod 8..<n]) =
      Some (\<forall>i\<in>set (map of_nat [n - n mod 8..<n] :: u16 list). unat i \<in> pf_set f)"
    by (rule checkAll_Some) (use small in \<open>auto intro: pf_Contains_ok [OF assms]\<close>)
  moreover have "(\<forall>i\<in>set (map of_nat [n - n mod 8..<n] :: u16 list). unat i \<in> pf_set f) \<longleftrightarrow>
      (\<forall>i. n - n mod 8 \<le> i \<and> i < n \<longrightarrow> i \<in> pf_set f)"
    using small by auto
  moreover have "pf_set f = {..<n} \<longleftrightarrow> (\<forall>i<n. i \<in> pf_set f)" by (auto simp: pf_set_def n(1))
  ultimately show ?thesis
    unfolding IsFull_def Let_def by (simp add: unat_div n(1) r all_below_split [of n])
qed

lemma pf_Decode_Encode:
  assumes "pf_ok n f" shows "pf_Decode (fst (pf_Encode f []) @ rest) = Inr (f, rest)"
proof -
  have "unat (pf_Size (f\<lparr>pf_filter := b\<rparr>) - 2) = length (pf_filter f)" for b
    using assms by (simp add: pf_Size_def pf_ok_def filter_length)
  from this [of "[]"] show ?thesis
    by (cases f) (simp add: pf_Encode_def pf_Decode_def pf_Size_def wire_simps Let_def)
qed

lemma decodeFilter_Encode: "pf_ok n f \<Longrightarrow> decodeFilter (Some (fst (pf_Encode f []))) = Inr f"
  using pf_Decode_Encode [of n f "[]"] by (simp add: decodeFilter_def)

end
