(* ===== verification/Channeldb_Lifecycle.thy ===== *)
theory Channeldb_Lifecycle
  imports Channeldb_Fwd
begin

text \<open>
  The life of a forwarding package on disk (\<^verbatim>\<open>channeldb/forwarding_package.go\<close>): whatever the
  operations on the packages of all channels, loading a package gives the updates it was written
  with, and its filters say exactly which of them have been acknowledged.
\<close>

subsection \<open>Buckets\<close>

lemma map_of_bucketPut [simp]: "map_of (bucketPut k v b) = (map_of b)(k \<mapsto> v)"
  by (induction b) (auto simp: fun_eq_iff)

lemma bucketPut_above: "(\<And>p. p \<in> set b \<Longrightarrow> fst p < k) \<Longrightarrow> bucketPut k v b = b @ [(k, v)]"
  by (induction b) auto

lemma putLogUpdates_empty:
  assumes "length us \<le> 65528"
  shows "map snd (putLogUpdates us []) = us"
proof -
  have "n \<le> length us \<Longrightarrow> fold (\<lambda>i. bucketPut (of_nat i :: u16) (us ! i)) [0..<n] [] =
      map (\<lambda>i. (of_nat i, us ! i)) [0..<n]" for n
  proof (induction n)
    case (Suc n)
    have "(of_nat i :: u16) < of_nat n" if "i < n" for i
      using that Suc.prems assms by (simp add: word_less_nat_alt unat_of_nat take_bit_eq_mod)
    then have "bucketPut (of_nat n) (us ! n) (map (\<lambda>i. (of_nat i :: u16, us ! i)) [0..<n]) =
        map (\<lambda>i. (of_nat i, us ! i)) [0..<n] @ [(of_nat n, us ! n)]"
      by (intro bucketPut_above) auto
    then show ?case using Suc by simp
  qed simp
  from this [of "length us"] show ?thesis by (simp add: putLogUpdates_def comp_def map_nth)
qed

text \<open>The bucket of a package.\<close>

definition pkgBkt :: "fwdPkgBkt \<Rightarrow> u64 \<Rightarrow> u64 \<Rightarrow> heightBkt option" where
  "pkgBkt db s h = (case db of None \<Rightarrow> None | Some root \<Rightarrow>
     (case map_of root s of None \<Rightarrow> None | Some src \<Rightarrow> map_of src h))"

lemma pkgBkt_put: "pkgBkt (Some (bucketPut s' src root)) s h =
    (if s = s' then map_of src h else pkgBkt (Some root) s h)"
  by (simp add: pkgBkt_def)

lemma pkgBkt_AddFwdPkg_other:
  "ToUint64 (fp_Source p) \<noteq> s \<or> fp_Height p \<noteq> h \<Longrightarrow> pkgBkt (AddFwdPkg p db) s h = pkgBkt db s h"
  by (auto simp: AddFwdPkg_def Let_def pkgBkt_def getBucket_def split: option.splits)

subsection \<open>Acknowledgements at a height\<close>

text \<open>The two functions that set indexes in a filter of a package.\<close>

locale filter_ack =
  fixes ack :: "u64 \<Rightarrow> u16 list \<Rightarrow> sourceBkt \<Rightarrow> fwd_error + sourceBkt"
    and get :: "heightBkt \<Rightarrow> bytes option"
    and put :: "bytes \<Rightarrow> heightBkt \<Rightarrow> heightBkt"
  assumes ack: "ack h is src = (case map_of src h of None \<Rightarrow> Inr src
      | Some hb \<Rightarrow> (case ackFilterBytes is (get hb) of Inl e \<Rightarrow> Inl e | Inr b \<Rightarrow> Inr (bucketPut h (put b hb) src)))"
begin

lemma ackHeights_pkg:
  assumes "ackHeights ack idx hs src = Inr src'" "distinct hs"
  shows "map_of src' h = (if h \<in> set hs
    then (case map_of src h of None \<Rightarrow> None | Some hb \<Rightarrow> (case ackFilterBytes (idx h) (get hb) of
        Inl e \<Rightarrow> Some hb | Inr b \<Rightarrow> Some (put b hb)))
    else map_of src h)" (is "?A")
    and "h \<in> set hs \<Longrightarrow> map_of src h = Some hb \<Longrightarrow> \<exists>b. ackFilterBytes (idx h) (get hb) = Inr b"
proof -
  have "?A \<and> (h \<in> set hs \<longrightarrow> map_of src h = Some hb \<longrightarrow> (\<exists>b. ackFilterBytes (idx h) (get hb) = Inr b))"
    using assms
  proof (induction hs arbitrary: src)
    case (Cons k hs)
    then obtain src1 where 1: "ack k (idx k) src = Inr src1" and 2: "ackHeights ack idx hs src1 = Inr src'"
      by (auto split: sum.splits)
    have other: "h \<noteq> k \<Longrightarrow> map_of src1 h = map_of src h"
      using 1 by (auto simp: ack split: option.splits sum.splits)
    show ?case
    proof (cases "h = k")
      case True
      then show ?thesis using Cons.IH [OF 2] Cons.prems 1 by (auto simp: ack split: option.splits sum.splits)
    next
      case False
      then show ?thesis using Cons.IH [OF 2] Cons.prems(2) other by auto
    qed
  qed simp
  then show ?A and "h \<in> set hs \<Longrightarrow> map_of src h = Some hb \<Longrightarrow> \<exists>b. ackFilterBytes (idx h) (get hb) = Inr b"
    by blast+
qed

text \<open>No index given means no change, so that the heights that occur need not be known.\<close>

lemma ackHeights_Some:
  assumes "ackHeights ack idx hs src = Inr src'" "distinct hs" "map_of src h = Some hb"
    and "h \<notin> set hs \<Longrightarrow> idx h = []" and "get hb = Some (fst (pf_Encode f []))" "pf_ok n f"
    and "put (fst (pf_Encode f [])) hb = hb"
  obtains f' where "map_of src' h = Some (put (fst (pf_Encode f' [])) hb)" "pf_ok n f'"
    "pf_set f' = pf_set f \<union> (unat ` set (idx h) \<inter> {..<n})"
proof (cases "h \<in> set hs")
  case True
  then obtain b where b: "ackFilterBytes (idx h) (get hb) = Inr b"
    using ackHeights_pkg(2) [OF assms(1,2)] assms(3) by blast
  then obtain f' where f': "setAll (idx h) f = Some f'" "b = fst (pf_Encode f' [])"
    using assms(5,6) by (auto simp: ackFilterBytes_def decodeFilter_Encode split: option.splits)
  show ?thesis
    using that [of f'] setAll_ok [OF assms(6) f'(1)] ackHeights_pkg(1) [OF assms(1,2), of h] True b f'(2) assms(3)
    by auto
next
  case False
  then show ?thesis using that [of f] ackHeights_pkg(1) [OF assms(1,2), of h] assms by simp
qed

end

interpretation ack_adds: filter_ack ackAddHtlcsAtHeight hb_ackFilter "\<lambda>b hb. hb\<lparr>hb_ackFilter := Some b\<rparr>"
  by unfold_locales (simp add: ackAddHtlcsAtHeight_def)

interpretation ack_sfs: filter_ack ackSettleFailsAtHeight hb_settleFailFilter
    "\<lambda>b hb. hb\<lparr>hb_settleFailFilter := Some b\<rparr>"
  by unfold_locales (simp add: ackSettleFailsAtHeight_def)

subsection \<open>The state of a package\<close>

text \<open>
  What a bucket says of its package: the updates, and the sets of adds and of settles and fails
  that are acknowledged; \<open>proc\<close> when the forwarding decision has been written.
\<close>

definition pkg_rel :: "LogUpdate list \<Rightarrow> LogUpdate list \<Rightarrow> nat set \<Rightarrow> nat set \<Rightarrow> bool \<Rightarrow> heightBkt \<Rightarrow> bool" where
  "pkg_rel adds sfs A S proc hb \<longleftrightarrow> loadHtlcs (hb_adds hb) = adds \<and> loadHtlcs (hb_failSettles hb) = sfs \<and>
     (\<exists>f. hb_ackFilter hb = Some (fst (pf_Encode f [])) \<and> pf_ok (length adds) f \<and> pf_set f = A \<inter> {..<length adds}) \<and>
     (\<exists>f. hb_settleFailFilter hb = Some (fst (pf_Encode f [])) \<and> pf_ok (length sfs) f \<and>
        pf_set f = S \<inter> {..<length sfs}) \<and>
     (if proc then \<exists>f n. hb_fwdFilter hb = Some (fst (pf_Encode f [])) \<and> pf_ok n f else hb_fwdFilter hb = None)"

definition ackedBy :: "u64 \<Rightarrow> u64 \<Rightarrow> ShortChannelID \<Rightarrow> AddRef list \<Rightarrow> nat set" where
  "ackedBy s h source refs = (if ToUint64 source = s then unat ` set (addDiffs refs h) else {})"

definition ackedSFs :: "u64 \<Rightarrow> u64 \<Rightarrow> SettleFailRef list \<Rightarrow> nat set" where
  "ackedSFs s h refs = {unat (sf_Index r) | r. r \<in> set refs \<and> ToUint64 (sf_Source r) = s \<and> sf_Height r = h}"

lemma pkg_rel_AckAddHtlcs:
  assumes "AckAddHtlcs source refs db = Inr db'" "pkgBkt db s h = Some hb" "pkg_rel adds sfs A S proc hb"
  shows "\<exists>hb'. pkgBkt db' s h = Some hb' \<and> pkg_rel adds sfs (A \<union> ackedBy s h source refs) S proc hb'"
proof (cases "refs = [] \<or> ToUint64 source \<noteq> s")
  case True
  then have "ackedBy s h source refs = {}" by (auto simp: ackedBy_def addDiffs_def)
  moreover have "pkgBkt db' s h = pkgBkt db s h"
    using True assms(1) by (auto simp: AckAddHtlcs_def pkgBkt_put split: option.splits sum.splits if_splits)
  ultimately show ?thesis using assms(2,3) by simp
next
  case False
  then obtain root src src' where root: "db = Some root" "map_of root s = Some src"
    and src': "ackHeights ackAddHtlcsAtHeight (addDiffs refs) (remdups (map ar_Height refs)) src = Inr src'"
    "db' = Some (bucketPut s src' root)"
    using assms(1) by (auto simp: AckAddHtlcs_def split: option.splits sum.splits)
  obtain f where f: "hb_ackFilter hb = Some (fst (pf_Encode f []))" "pf_ok (length adds) f"
    "pf_set f = A \<inter> {..<length adds}"
    using assms(3) by (auto simp: pkg_rel_def)
  obtain f' where f': "map_of src' h = Some (hb\<lparr>hb_ackFilter := Some (fst (pf_Encode f' []))\<rparr>)" "pf_ok (length adds) f'"
    "pf_set f' = pf_set f \<union> (unat ` set (addDiffs refs h) \<inter> {..<length adds})"
  proof (rule ack_adds.ackHeights_Some [OF src'(1) _ _ _ f(1,2)])
    show "map_of src h = Some hb" using assms(2) root by (simp add: pkgBkt_def)
    show "h \<notin> set (remdups (map ar_Height refs)) \<Longrightarrow> addDiffs refs h = []"
      by (auto simp: addDiffs_def filter_empty_conv)
  qed (use f(1) in auto)
  have "pf_set f' = (A \<union> ackedBy s h source refs) \<inter> {..<length adds}"
    using f'(3) f(3) False by (auto simp: ackedBy_def)
  then show ?thesis
    using assms(3) f'(1,2) src'(2) by (auto simp: pkg_rel_def pkgBkt_put)
qed

lemma pkg_rel_ackDests:
  assumes "ackDests refs dests root = Inr root'" "pkgBkt (Some root) s h = Some hb" "pkg_rel adds sfs A S proc hb"
  shows "\<exists>hb'. pkgBkt (Some root') s h = Some hb' \<and>
    pkg_rel adds sfs A (S \<union> ackedSFs s h (filter (\<lambda>r. sf_Source r \<in> set dests) refs)) proc hb'"
  using assms
proof (induction dests arbitrary: root S hb)
  case Nil
  then show ?case by (auto simp: ackedSFs_def)
next
  case (Cons d dests)
  let ?rs = "\<lambda>ds. ackedSFs s h (filter (\<lambda>r. sf_Source r \<in> ds) refs)"
  have split: "?rs (set (d # dests)) = ?rs {d} \<union> ?rs (set dests)" by (auto simp: ackedSFs_def)
  show ?case
  proof (cases "map_of root (ToUint64 d)")
    case None
    then have "?rs {d} = {}" using Cons.prems(2) by (auto simp: ackedSFs_def pkgBkt_def)
    then show ?thesis using Cons.IH [OF _ Cons.prems(2,3)] Cons.prems(1) None split by simp
  next
    case (Some src)
    then obtain src' where src': "ackHeights ackSettleFailsAtHeight (settleFailDiffs refs d)
        (remdups (map sf_Height (filter (\<lambda>r. sf_Source r = d) refs))) src = Inr src'"
      "ackDests refs dests (bucketPut (ToUint64 d) src' root) = Inr root'"
      using Cons.prems(1) by (auto split: sum.splits)
    show ?thesis
    proof (cases "ToUint64 d = s")
      case False
      then have "?rs {d} = {}" by (auto simp: ackedSFs_def)
      moreover have "pkgBkt (Some (bucketPut (ToUint64 d) src' root)) s h = Some hb"
        using False Cons.prems(2) by (simp add: pkgBkt_put)
      ultimately show ?thesis using Cons.IH [OF src'(2) _ Cons.prems(3)] split by simp
    next
      case True
      obtain f where f: "hb_settleFailFilter hb = Some (fst (pf_Encode f []))" "pf_ok (length sfs) f"
        "pf_set f = S \<inter> {..<length sfs}"
        using Cons.prems(3) by (auto simp: pkg_rel_def)
      obtain f' where f': "map_of src' h = Some (hb\<lparr>hb_settleFailFilter := Some (fst (pf_Encode f' []))\<rparr>)"
        "pf_ok (length sfs) f'"
        "pf_set f' = pf_set f \<union> (unat ` set (settleFailDiffs refs d h) \<inter> {..<length sfs})"
      proof (rule ack_sfs.ackHeights_Some [OF src'(1) _ _ _ f(1,2)])
        show "map_of src h = Some hb" using Cons.prems(2) Some True by (simp add: pkgBkt_def)
        show "h \<notin> set (remdups (map sf_Height (filter (\<lambda>r. sf_Source r = d) refs))) \<Longrightarrow> settleFailDiffs refs d h = []"
          by (auto simp: settleFailDiffs_def filter_empty_conv)
      qed (use f(1) in auto)
      have "unat ` set (settleFailDiffs refs d h) = ?rs {d}"
        using True by (auto simp: settleFailDiffs_def ackedSFs_def)
      then have "pkg_rel adds sfs A (S \<union> ?rs {d}) proc (hb\<lparr>hb_settleFailFilter := Some (fst (pf_Encode f' []))\<rparr>)"
        using Cons.prems(3) f' f(3) by (auto simp: pkg_rel_def)
      moreover have "pkgBkt (Some (bucketPut (ToUint64 d) src' root)) s h =
          Some (hb\<lparr>hb_settleFailFilter := Some (fst (pf_Encode f' []))\<rparr>)"
        using f'(1) True by (simp add: pkgBkt_put)
      ultimately have "\<exists>hb'. pkgBkt (Some root') s h = Some hb' \<and>
          pkg_rel adds sfs A ((S \<union> ?rs {d}) \<union> ?rs (set dests)) proc hb'"
        using Cons.IH [OF src'(2)] by blast
      then show ?thesis unfolding split Un_assoc .
    qed
  qed
qed

lemma pkg_rel_ackSettleFails:
  assumes "ackSettleFails refs db = Inr db'" "pkgBkt db s h = Some hb" "pkg_rel adds sfs A S proc hb"
  shows "\<exists>hb'. pkgBkt db' s h = Some hb' \<and> pkg_rel adds sfs A (S \<union> ackedSFs s h refs) proc hb'"
proof (cases "refs = []")
  case True
  then show ?thesis using assms by (auto simp: ackSettleFails_def ackedSFs_def)
next
  case False
  then obtain root root' where "db = Some root" "db' = Some root'"
    "ackDests refs (remdups (map sf_Source refs)) root = Inr root'"
    using assms(1) by (auto simp: ackSettleFails_def split: option.splits sum.splits)
  moreover have "filter (\<lambda>r. sf_Source r \<in> set (remdups (map sf_Source refs))) refs = refs"
    by (auto simp: filter_id_conv)
  ultimately show ?thesis using pkg_rel_ackDests [of refs _ root root' s h hb] assms(2,3) by metis
qed

lemma pkg_rel_SetFwdFilter:
  assumes "SetFwdFilter source height f db = Inr db'" "pkgBkt db s h = Some hb" "pkg_rel adds sfs A S proc hb" "pf_ok n f"
  shows "\<exists>hb'. pkgBkt db' s h = Some hb' \<and>
    pkg_rel adds sfs A S (proc \<or> (ToUint64 source = s \<and> height = h)) hb'"
proof -
  obtain root src hb0 where root: "db = Some root" "map_of root (ToUint64 source) = Some src" "map_of src height = Some hb0"
    using assms(1) by (auto simp: SetFwdFilter_def split: option.splits)
  show ?thesis
  proof (cases "ToUint64 source = s \<and> height = h")
    case True
    then have "hb0 = hb" using assms(2) root by (simp add: pkgBkt_def)
    show ?thesis
    proof (cases proc)
      case True
      then have "db' = db" using assms(1,3) root \<open>hb0 = hb\<close> by (auto simp: SetFwdFilter_def pkg_rel_def)
      then show ?thesis using assms(2,3) True by simp
    next
      case False
      then have none: "hb_fwdFilter hb = None" using assms(3) by (simp add: pkg_rel_def)
      then have "db' = Some (bucketPut s (bucketPut h (hb\<lparr>hb_fwdFilter := Some (fst (pf_Encode f []))\<rparr>) src) root)"
        using assms(1) root \<open>hb0 = hb\<close> True by (auto simp: SetFwdFilter_def)
      moreover have "pkg_rel adds sfs A S True (hb\<lparr>hb_fwdFilter := Some (fst (pf_Encode f []))\<rparr>)"
        using assms(3,4) by (auto simp: pkg_rel_def)
      ultimately show ?thesis using True by (simp add: pkgBkt_put)
    qed
  next
    case False
    then have "pkgBkt db' s h = Some hb"
      using assms(1,2) root by (auto simp: SetFwdFilter_def pkgBkt_def split: if_splits)
    then show ?thesis using assms(3) False by auto
  qed
qed

lemma pkg_rel_new:
  assumes "length adds \<le> 65528" "length sfs \<le> 65528" "pkgBkt db (ToUint64 source) h = None"
  shows "\<exists>hb. pkgBkt (AddFwdPkg (NewFwdPkg source h adds sfs) db) (ToUint64 source) h = Some hb \<and>
    pkg_rel adds sfs {} {} False hb"
proof -
  have small: "unat (of_nat n :: u16) = n" if "n \<le> 65528" for n using that by (simp add: unat_of_nat take_bit_eq_mod)
  have "pf_ok (length us) (NewPkgFilter (of_nat (length us)))" "pf_set (NewPkgFilter (of_nat (length us))) = {}"
    if "length us \<le> 65528" for us :: "LogUpdate list"
    using pf_ok_New [of "of_nat (length us)"] pf_set_New [of "of_nat (length us)"] small [OF that] that by simp_all
  moreover have "map_of (getBucket (case db of None \<Rightarrow> [] | Some r \<Rightarrow> r) (ToUint64 source)) h = None"
    using assms(3) by (auto simp: getBucket_def pkgBkt_def split: option.splits)
  ultimately show ?thesis
    using assms(1,2) putLogUpdates_empty
    by (auto simp: AddFwdPkg_def Let_def pkgBkt_put NewFwdPkg_def pkg_rel_def newHeightBkt_def loadHtlcs_def)
qed

lemma loadFwdPkg_rel:
  assumes "pkgBkt (Some root) (ToUint64 source) h = Some hb" "pkg_rel adds sfs A S proc hb"
  obtains pkg where "loadFwdPkg root source h = Inr pkg" "fp_Adds pkg = adds" "fp_SettleFails pkg = sfs"
    "\<And>i. unat i < length adds \<Longrightarrow> pf_Contains (fp_AckFilter pkg) i = Some (unat i \<in> A)"
    "\<And>i. unat i < length sfs \<Longrightarrow> pf_Contains (fp_SettleFailFilter pkg) i = Some (unat i \<in> S)"
    "fp_State pkg = (if \<not> proc then FwdStateLockedIn
       else if {..<length adds} \<subseteq> A \<and> {..<length sfs} \<subseteq> S then FwdStateCompleted else FwdStateProcessed)"
proof -
  obtain f g where f: "hb_ackFilter hb = Some (fst (pf_Encode f []))" "pf_ok (length adds) f"
      "pf_set f = A \<inter> {..<length adds}"
    and g: "hb_settleFailFilter hb = Some (fst (pf_Encode g []))" "pf_ok (length sfs) g"
      "pf_set g = S \<inter> {..<length sfs}"
    using assms(2) by (auto simp: pkg_rel_def)
  have full: "IsFull f = Some ({..<length adds} \<subseteq> A)" "IsFull g = Some ({..<length sfs} \<subseteq> S)"
    using IsFull_ok [OF f(2)] IsFull_ok [OF g(2)] f(3) g(3) by auto
  have dec: "decodeFilter (hb_ackFilter hb) = Inr f" "decodeFilter (hb_settleFailFilter hb) = Inr g"
    using decodeFilter_Encode [OF f(2)] decodeFilter_Encode [OF g(2)] f(1) g(1) by simp_all
  have dec': "\<exists>w. decodeFilter (hb_fwdFilter hb) = Inr w" if proc
    using that assms(2) decodeFilter_Encode by (fastforce simp: pkg_rel_def)
  have loads: "loadHtlcs (hb_adds hb) = adds" "loadHtlcs (hb_failSettles hb) = sfs" "hb_fwdFilter hb = None \<longleftrightarrow> \<not> proc"
    using assms(2) by (auto simp: pkg_rel_def split: if_splits)
  obtain src where "map_of root (ToUint64 source) = Some src" "map_of src h = Some hb"
    using assms(1) by (auto simp: pkgBkt_def split: option.splits)
  then have "\<exists>pkg. loadFwdPkg root source h = Inr pkg \<and> fp_Adds pkg = adds \<and> fp_SettleFails pkg = sfs \<and>
      fp_AckFilter pkg = f \<and> fp_SettleFailFilter pkg = g \<and>
      fp_State pkg = (if \<not> proc then FwdStateLockedIn
       else if {..<length adds} \<subseteq> A \<and> {..<length sfs} \<subseteq> S then FwdStateCompleted else FwdStateProcessed)"
    using dec dec' full loads by (cases proc) (auto simp: loadFwdPkg_def Let_def split: bool.splits if_splits)
  then show ?thesis using that pf_Contains_ok [OF f(2)] pf_Contains_ok [OF g(2)] f(3) g(3) by auto
qed

subsection \<open>Sequences of operations\<close>

datatype fwd_op =
    OpAdd FwdPkg
  | OpAckAdds ShortChannelID "AddRef list"
  | OpAckSettleFails "SettleFailRef list"
  | OpSetFilter ShortChannelID u64 PkgFilter

fun run_op :: "fwd_op \<Rightarrow> fwdPkgBkt \<Rightarrow> fwd_error + fwdPkgBkt" where
  "run_op (OpAdd p) db = Inr (AddFwdPkg p db)"
| "run_op (OpAckAdds source refs) db = AckAddHtlcs source refs db"
| "run_op (OpAckSettleFails refs) db = ackSettleFails refs db"
| "run_op (OpSetFilter source height f) db = SetFwdFilter source height f db"

fun run_ops :: "fwd_op list \<Rightarrow> fwdPkgBkt \<Rightarrow> fwd_error + fwdPkgBkt" where
  "run_ops [] db = Inr db"
| "run_ops (op # ops) db = (case run_op op db of Inl e \<Rightarrow> Inl e | Inr db' \<Rightarrow> run_ops ops db')"

text \<open>What an operation says of the package at a height of a channel.\<close>

fun op_acks :: "u64 \<Rightarrow> u64 \<Rightarrow> fwd_op \<Rightarrow> nat set" where
  "op_acks s h (OpAckAdds source refs) = ackedBy s h source refs"
| "op_acks s h _ = {}"

fun op_sfs :: "u64 \<Rightarrow> u64 \<Rightarrow> fwd_op \<Rightarrow> nat set" where
  "op_sfs s h (OpAckSettleFails refs) = ackedSFs s h refs"
| "op_sfs s h _ = {}"

fun op_sets :: "u64 \<Rightarrow> u64 \<Rightarrow> fwd_op \<Rightarrow> bool" where
  "op_sets s h (OpSetFilter source height f) \<longleftrightarrow> ToUint64 source = s \<and> height = h"
| "op_sets s h _ \<longleftrightarrow> False"

text \<open>The operations do not write another package at that place, and give filters of the right size.\<close>

fun op_ok :: "u64 \<Rightarrow> u64 \<Rightarrow> fwd_op \<Rightarrow> bool" where
  "op_ok s h (OpAdd p) \<longleftrightarrow> ToUint64 (fp_Source p) \<noteq> s \<or> fp_Height p \<noteq> h"
| "op_ok s h (OpSetFilter source height f) \<longleftrightarrow> pf_ok (unat (pf_count f)) f"
| "op_ok s h _ \<longleftrightarrow> True"

lemma pkg_rel_run_op:
  assumes "run_op op db = Inr db'" "pkgBkt db s h = Some hb" "pkg_rel adds sfs A S proc hb" "op_ok s h op"
  shows "\<exists>hb'. pkgBkt db' s h = Some hb' \<and>
    pkg_rel adds sfs (A \<union> op_acks s h op) (S \<union> op_sfs s h op) (proc \<or> op_sets s h op) hb'"
proof (cases op)
  case (OpAdd p)
  then show ?thesis using assms pkgBkt_AddFwdPkg_other by auto
next
  case (OpAckAdds source refs)
  then show ?thesis using assms pkg_rel_AckAddHtlcs by simp
next
  case (OpAckSettleFails refs)
  then show ?thesis using assms pkg_rel_ackSettleFails by simp
next
  case (OpSetFilter source height f)
  then show ?thesis using assms pkg_rel_SetFwdFilter by simp
qed

lemma pkg_rel_run_ops:
  assumes "run_ops ops db = Inr db'" "pkgBkt db s h = Some hb" "pkg_rel adds sfs A S proc hb"
    and "list_all (op_ok s h) ops"
  shows "\<exists>hb'. pkgBkt db' s h = Some hb' \<and>
    pkg_rel adds sfs (A \<union> \<Union> (op_acks s h ` set ops)) (S \<union> \<Union> (op_sfs s h ` set ops))
      (proc \<or> list_ex (op_sets s h) ops) hb'"
  using assms
proof (induction ops arbitrary: db A S proc hb)
  case (Cons op ops)
  then obtain db1 where 1: "run_op op db = Inr db1" "run_ops ops db1 = Inr db'" by (auto split: sum.splits)
  from pkg_rel_run_op [OF 1(1) Cons.prems(2,3)] Cons.prems(4)
  obtain hb1 where "pkgBkt db1 s h = Some hb1"
    "pkg_rel adds sfs (A \<union> op_acks s h op) (S \<union> op_sfs s h op) (proc \<or> op_sets s h op) hb1" by auto
  from Cons.IH [OF 1(2) this] Cons.prems(4) show ?case by (simp add: Un_assoc disj_assoc)
qed simp


definition sample_scid :: ShortChannelID where
  "sample_scid = \<lparr>BlockHeight = 100, TxIndex = 1, TxPosition = 0\<rparr>"

definition sample_update :: LogUpdate where
  "sample_update = \<lparr>lu_LogIndex = 0, lu_UpdateMsg = LogFee \<lparr>uf_ChanID = [], uf_AssetID = 0, uf_FeePerKw = 0,
     uf_ExtraData = []\<rparr>\<rparr>"

definition sample_ops :: "fwd_op list" where
  "sample_ops = [OpSetFilter sample_scid 7 (NewPkgFilter 1), OpAckAdds sample_scid [\<lparr>ar_Height = 7, ar_Index = 0\<rparr>]]"


end
