(* ===== verification/Wire_Signature.thy ===== *)
theory Wire_Signature
  imports Wire_Primitives
begin

text \<open>
  \<^verbatim>\<open>lnwire/signature.go\<close>: signatures have a fixed size on the wire and the DER encoding elsewhere.
  An index out of range is the error \<open>SigPanic\<close>.  The arithmetic on the lengths is that of
  \<^verbatim>\<open>uint8\<close>.  \<^verbatim>\<open>btcec.ParseDERSignature\<close> is a parameter.
\<close>

datatype sig_error = ErrEmptySignature | ErrSOverflow | ErrROverflow | ErrParseSig | SigPanic

text \<open>\<^verbatim>\<open>copy(b[off:], src)\<close>.\<close>

definition copyAt :: "nat \<Rightarrow> bytes \<Rightarrow> bytes \<Rightarrow> bytes" where
  "copyAt off src b =
     (let n = min (length b - off) (length src) in take off b @ take n src @ drop (off + n) b)"

text \<open>The two halves of the decoder: S goes to the end of the array, then R before it.\<close>

definition sigPutS :: "bytes \<Rightarrow> byte \<Rightarrow> byte \<Rightarrow> bytes \<Rightarrow> sig_error + bytes" where
  "sigPutS sig rLen sLen b =
     (if sLen > 32
      then if sLen > 33 then Inl ErrSOverflow
           else if length sig \<le> unat (6 + rLen) then Inl SigPanic
           else if sig ! unat (6 + rLen) \<noteq> 0 then Inl ErrSOverflow
           else if length sig < unat (7 + rLen) then Inl SigPanic
           else Inr (copyAt (unat (64 - (sLen - 1))) (drop (unat (7 + rLen)) sig) b)
      else if length sig < unat (6 + rLen) then Inl SigPanic
      else Inr (copyAt (unat (64 - sLen)) (drop (unat (6 + rLen)) sig) b))"

definition sigPutR :: "bytes \<Rightarrow> byte \<Rightarrow> bytes \<Rightarrow> sig_error + bytes" where
  "sigPutR sig rLen b =
     (if rLen > 32
      then if rLen > 33 then Inl ErrROverflow
           else if length sig \<le> 4 then Inl SigPanic
           else if sig ! 4 \<noteq> 0 then Inl ErrROverflow
           else if length sig < unat (5 + (rLen - 1)) then Inl SigPanic
           else Inr (copyAt (unat (32 - (rLen - 1))) (take (unat (rLen - 1)) (drop 5 sig)) b)
      else if length sig < unat (4 + rLen) then Inl SigPanic
      else Inr (copyAt (unat (32 - rLen)) (take (unat rLen) (drop 4 sig)) b))"

definition NewSigFromRawSignature :: "bytes \<Rightarrow> sig_error + Sig" where
  "NewSigFromRawSignature sig =
     (if sig = [] then Inl ErrEmptySignature
      else if length sig \<le> 3 then Inl SigPanic
      else let rLen = sig ! 3
           in if length sig \<le> unat (5 + rLen) then Inl SigPanic
              else case sigPutS sig rLen (sig ! unat (5 + rLen)) (replicate 64 0) of
                     Inl e \<Rightarrow> Inl e
                   | Inr b \<Rightarrow> sigPutR sig rLen b)"

text \<open>A signature object is given by its serialization; nil is \<open>None\<close>.\<close>

definition NewSigFromSignature :: "bytes option \<Rightarrow> sig_error + Sig" where
  "NewSigFromSignature e = (case e of None \<Rightarrow> Inl ErrEmptySignature | Some s \<Rightarrow> NewSigFromRawSignature s)"

fun extractCanonicalPadding :: "bytes \<Rightarrow> bytes" where
  "extractCanonicalPadding [] = [0]"
| "extractCanonicalPadding (b # bs) =
     (if b > 0 then if b AND 0x80 = 0x80 then 0 # b # bs else b # bs else extractCanonicalPadding bs)"

definition ToSignatureBytes :: "Sig \<Rightarrow> bytes" where
  "ToSignatureBytes b =
     (let r = extractCanonicalPadding (take 32 b);
          s = extractCanonicalPadding (drop 32 b);
          rLen = of_nat (length r); sLen = of_nat (length s)
      in [0x30, 4 + rLen + sLen, 0x02, rLen] @ r @ [0x02, sLen] @ s)"

definition ToSignature :: "(bytes \<Rightarrow> 's option) \<Rightarrow> Sig \<Rightarrow> sig_error + 's" where
  "ToSignature parse b = (case parse (ToSignatureBytes b) of None \<Rightarrow> Inl ErrParseSig | Some s \<Rightarrow> Inr s)"

subsection \<open>Round trip\<close>

lemma extract_cases:
  assumes "xs \<noteq> []"
  shows "(extractCanonicalPadding xs = 0 # xs) \<or>
    (extractCanonicalPadding xs \<noteq> [] \<and> length (extractCanonicalPadding xs) \<le> length xs \<and>
     replicate (length xs - length (extractCanonicalPadding xs)) 0 @ extractCanonicalPadding xs = xs)"
  using assms
proof (induction xs)
  case (Cons b bs)
  show ?case
  proof (cases "b > 0")
    case True
    then show ?thesis by auto
  next
    case False
    then have b: "b = 0" by (simp add: word_gt_0)
    show ?thesis
    proof (cases "bs = []")
      case False
      then show ?thesis using Cons.IH b by (auto simp: Suc_diff_le)
    qed (simp add: b)
  qed
qed simp

lemma copyAt_end: "length b = off + length src \<Longrightarrow> copyAt off src b = take off b @ src"
  by (simp add: copyAt_def)

lemma word8_of_nat: "n < 256 \<Longrightarrow> unat (of_nat n :: byte) = n"
  by (simp add: unat_of_nat take_bit_eq_mod)

lemma sigPutS_der:
  assumes "sig = pre @ [sl] @ extractCanonicalPadding s" "length pre = unat (5 + rLen)"
    and "length s = 32" "sl = of_nat (length (extractCanonicalPadding s))" "unat rLen \<le> 33"
  shows "sigPutS sig rLen sl (replicate 64 0) = Inr (replicate 32 0 @ s)"
proof -
  have u5: "unat (6 + rLen) = unat (5 + rLen) + 1" "unat (7 + rLen) = unat (5 + rLen) + 2"
    using assms(5) by (simp_all add: unat_word_ariths)
  consider (pad) "extractCanonicalPadding s = 0 # s"
    | (plain) "extractCanonicalPadding s \<noteq> []" "length (extractCanonicalPadding s) \<le> 32"
      "replicate (32 - length (extractCanonicalPadding s)) 0 @ extractCanonicalPadding s = s"
    using extract_cases [of s] assms(3) by fastforce
  then show ?thesis
  proof cases
    case pad
    then have "sl = 33" using assms(3,4) by simp
    then show ?thesis
      using pad assms(1,2,3) u5 by (simp add: sigPutS_def copyAt_end nth_append)
  next
    case plain
    define e where "e = extractCanonicalPadding s"
    have sl: "unat sl = length e" using plain(2) assms(4) by (simp add: e_def word8_of_nat)
    then have "\<not> sl > 32" using plain(2) by (simp add: word_less_nat_alt e_def)
    moreover have "unat (64 - sl) = 64 - length e"
      using sl plain(2) by (subst unat_sub) (simp_all add: word_le_nat_alt e_def)
    moreover have "replicate (64 - length e) 0 @ e = replicate 32 0 @ s"
    proof -
      have "replicate (64 - length e) (0::byte) = replicate 32 0 @ replicate (32 - length e) 0"
        using plain(2) by (simp add: e_def flip: replicate_add)
      then show ?thesis using plain(3) by (simp add: e_def)
    qed
    ultimately show ?thesis
      using assms(1,2) u5 plain(2) by (simp add: sigPutS_def copyAt_end min_def flip: e_def)
  qed
qed

lemma sigPutR_der:
  assumes "sig = [h, l, t] @ [rl] @ extractCanonicalPadding r @ rest" "length r = 32" "length s = 32"
    and "rl = of_nat (length (extractCanonicalPadding r))"
  shows "sigPutR sig rl (replicate 32 0 @ s) = Inr (r @ s)"
proof -
  consider (pad) "extractCanonicalPadding r = 0 # r"
    | (plain) "extractCanonicalPadding r \<noteq> []" "length (extractCanonicalPadding r) \<le> 32"
      "replicate (32 - length (extractCanonicalPadding r)) 0 @ extractCanonicalPadding r = r"
    using extract_cases [of r] assms(2) by fastforce
  then show ?thesis
  proof cases
    case pad
    then have "rl = 33" using assms(2,4) by simp
    then show ?thesis using pad assms(1-3) by (simp add: sigPutR_def copyAt_def)
  next
    case plain
    define e where "e = extractCanonicalPadding r"
    have rl: "unat rl = length e" using plain(2) assms(4) by (simp add: e_def word8_of_nat)
    then have "\<not> rl > 32" using plain(2) by (simp add: word_less_nat_alt e_def)
    moreover have "unat (32 - rl) = 32 - length e" "unat (4 + rl) = 4 + length e"
      using rl plain(2) by (simp_all add: unat_sub word_le_nat_alt e_def unat_word_ariths)
    moreover have "copyAt (32 - length e) e (replicate 32 0 @ s) = r @ s"
      using plain(2,3) by (simp add: copyAt_def e_def)
    ultimately show ?thesis
      using assms(1) rl by (simp add: sigPutR_def flip: e_def)
  qed
qed

text \<open>
  A signature survives the conversion: the DER encoding of any 64-byte signature is read back
  as that signature.
\<close>
theorem signature_roundtrip:
  assumes "length b = 64"
  shows "NewSigFromRawSignature (ToSignatureBytes b) = Inr b"
proof -
  define r s where "r = take 32 b" and "s = drop 32 b"
  define er es where "er = extractCanonicalPadding r" and "es = extractCanonicalPadding s"
  have len: "length r = 32" "length s = 32" "r @ s = b" using assms by (simp_all add: r_def s_def)
  have er: "0 < length er" "length er \<le> 33" using extract_cases [of r] len by (fastforce simp: er_def)+
  have es: "0 < length es" using extract_cases [of s] len by (fastforce simp: es_def)+
  define rl sl :: byte where "rl = of_nat (length er)" and "sl = of_nat (length es)"
  have sig: "ToSignatureBytes b = [0x30, 4 + rl + sl, 2] @ [rl] @ er @ ([2, sl] @ es)"
    by (simp add: ToSignatureBytes_def Let_def rl_def sl_def er_def es_def r_def s_def)
  have rl5: "unat (5 + rl) = 5 + length er" using er by (simp add: rl_def unat_word_ariths unat_of_nat take_bit_eq_mod)
  have "ToSignatureBytes b ! 3 = rl" "ToSignatureBytes b ! unat (5 + rl) = sl"
    unfolding rl5 sig by (simp_all add: nth_append)
  moreover have "\<not> length (ToSignatureBytes b) \<le> unat (5 + rl)" unfolding rl5 sig using es by simp
  moreover have "sigPutS (ToSignatureBytes b) rl sl (replicate 64 0) = Inr (replicate 32 0 @ s)"
    by (rule sigPutS_der [of _ "[0x30, 4 + rl + sl, 2, rl] @ er @ [2]"])
      (use er rl5 len in \<open>simp_all add: sig es_def sl_def rl_def word8_of_nat\<close>)
  moreover have "sigPutR (ToSignatureBytes b) rl (replicate 32 0 @ s) = Inr (r @ s)"
    by (rule sigPutR_der [of _ "0x30" "4 + rl + sl" 2 rl r "[2, sl] @ es"])
      (use len in \<open>simp_all add: sig er_def rl_def\<close>)
  ultimately show ?thesis
    using len(3) by (simp add: NewSigFromRawSignature_def Let_def) (simp add: sig)
qed

theorem signature_roundtrip_witness:
  "NewSigFromRawSignature (ToSignatureBytes (0x81 # replicate 62 0 @ [5])) = Inr (0x81 # replicate 62 0 @ [5])"
  by (rule signature_roundtrip) simp

end
