(* ===== verification/Channeldb_Commit.thy ===== *)
theory Channeldb_Commit
  imports Channeldb_Lifecycle Lnwallet_View
begin

text \<open>
  The commitment state of a channel in \<^verbatim>\<open>channeldb/channel.go\<close>: what \<^verbatim>\<open>OpenChannel\<close> holds in memory
  of the two commitments, what is on disk, and the three transitions that the commitment dance
  makes.  The record holds the fields in memory (\<open>om\<close>) beside the keys of the channel's bucket
  (\<open>dk\<close>).  The revocation store is the list of the preimages it was given.  The argument \<open>io\<close> says
  whether \<^verbatim>\<open>kvdb.Update\<close> commits; a transition that fails leaves memory and disk as they were.
\<close>

subsection \<open>Commitments on disk\<close>

record HTLC =
  h_Signature :: bytes
  h_RHash :: bytes
  h_AssetId :: u32
  h_BtcAmt :: MilliSatoshi
  h_AssetAmt :: Amount
  h_RefundTimeout :: u32
  h_OutputIndex :: u32
  h_Incoming :: bool
  h_OnionBlob :: bytes
  h_HtlcIndex :: u64
  h_LogIndex :: u64

definition HTLC_GetAmt :: "HTLC \<Rightarrow> u32 \<Rightarrow> UnitPrec11" where
  "HTLC_GetAmt h assetId = (if assetId > BtcAssetId then h_AssetAmt h else h_BtcAmt h)"

record ChannelCommitment =
  CommitHeight :: u64
  LocalLogIndex :: u64
  LocalHtlcIndex :: u64
  RemoteLogIndex :: u64
  RemoteHtlcIndex :: u64
  LocalBtcBalance :: MilliSatoshi
  RemoteBtcBalance :: MilliSatoshi
  LocalAssetBalance :: Amount
  RemoteAssetBalance :: Amount
  CommitFee :: Amount
  FeePerKw :: Amount
  CommitTx :: MsgTx
  cc_CommitSig :: bytes
  Htlcs :: "HTLC list"

record CommitDiff =
  cd_Commitment :: ChannelCommitment
  cd_LogUpdates :: "LogUpdate list"
  cd_CommitSig :: CommitSig
  cd_OpenedCircuitKeys :: "CircuitKey list"
  cd_ClosedCircuitKeys :: "CircuitKey list"
  cd_AddAcks :: "AddRef list"
  cd_SettleFailAcks :: "SettleFailRef list"

subsection \<open>Status\<close>

type_synonym ChannelStatus = byte

definition ChanStatusDefault :: ChannelStatus where "ChanStatusDefault = 0"
definition ChanStatusBorked :: ChannelStatus where "ChanStatusBorked = 1"
definition ChanStatusCommitBroadcasted :: ChannelStatus where "ChanStatusCommitBroadcasted = push_bit 1 1"
definition ChanStatusLocalDataLoss :: ChannelStatus where "ChanStatusLocalDataLoss = push_bit 2 1"
definition ChanStatusRestored :: ChannelStatus where "ChanStatusRestored = push_bit 3 1"
definition ChanStatusCoopBroadcasted :: ChannelStatus where "ChanStatusCoopBroadcasted = push_bit 4 1"
definition ChanStatusLocalCloseInitiator :: ChannelStatus where "ChanStatusLocalCloseInitiator = push_bit 5 1"
definition ChanStatusRemoteCloseInitiator :: ChannelStatus where "ChanStatusRemoteCloseInitiator = push_bit 6 1"

record ChanDb =
  om_chanStatus :: ChannelStatus
  om_LocalCommitment :: ChannelCommitment
  om_RemoteCommitment :: ChannelCommitment
  om_RevocationStore :: "bytes list"
  dk_chanStatus :: ChannelStatus
  dk_chanInfo :: OpenChannel
  dk_revState :: "bytes option \<times> bytes list \<times> bytes option"
  dk_LocalCommitment :: ChannelCommitment
  dk_RemoteCommitment :: ChannelCommitment
  dk_commitDiff :: "CommitDiff option"
  dk_unsignedAcked :: "LogUpdate list option"
  dk_remoteUnsignedLocal :: "LogUpdate list option"
  dk_lastWasRevoke :: "bool option"
  dk_revocationLog :: "(u64, ChannelCommitment) bucket"
  dk_fwdPkgs :: fwdPkgBkt

datatype db_error =
    ErrNoRestoredChannelMutation
  | ErrChanBorked
  | ErrNoPendingCommit
  | ErrNoPastDeltas
  | ErrLogEntryNotFound
  | ErrHeightNotReached
  | ErrFwdPkg fwd_error
  | ErrKvdb

definition hasChanStatus :: "ChanDb \<Rightarrow> ChannelStatus \<Rightarrow> bool" where
  "hasChanStatus db status \<longleftrightarrow>
     (if status = ChanStatusDefault then om_chanStatus db = ChanStatusDefault
      else om_chanStatus db AND status = status)"

definition isBorked :: "ChanDb \<Rightarrow> bool" where
  "isBorked db \<longleftrightarrow> dk_chanStatus db \<noteq> ChanStatusDefault"

text \<open>The guards at the start of each transition.\<close>

definition mayUpdate :: "bool \<Rightarrow> ChanDb \<Rightarrow> db_error option" where
  "mayUpdate io db =
     (if hasChanStatus db ChanStatusRestored then Some ErrNoRestoredChannelMutation
      else if isBorked db then Some ErrChanBorked
      else if \<not> io then Some ErrKvdb
      else None)"

subsection \<open>Transitions\<close>

definition UpdateCommitment :: "bool \<Rightarrow> OpenChannel \<Rightarrow> ChannelCommitment \<Rightarrow> LogUpdate list \<Rightarrow> ChanDb \<Rightarrow>
    db_error + ChanDb" where
  "UpdateCommitment io c newCommitment unsignedAckedUpdates db =
     (case mayUpdate io db of
        Some e \<Rightarrow> Inl e
      | None \<Rightarrow>
          Inr (db\<lparr>dk_chanInfo := c, dk_LocalCommitment := newCommitment,
                 dk_unsignedAcked := Some unsignedAckedUpdates, dk_lastWasRevoke := Some True,
                 dk_remoteUnsignedLocal :=
                   map_option (filter (\<lambda>upd. lu_LogIndex upd \<ge> LocalLogIndex newCommitment))
                     (dk_remoteUnsignedLocal db),
                 om_LocalCommitment := newCommitment\<rparr>))"

definition AppendRemoteCommitChain :: "bool \<Rightarrow> OpenChannel \<Rightarrow> CommitDiff \<Rightarrow> ChanDb \<Rightarrow> db_error + ChanDb" where
  "AppendRemoteCommitChain io c diff db =
     (case mayUpdate io db of
        Some e \<Rightarrow> Inl e
      | None \<Rightarrow>
          (case AckAddHtlcs (oc_ShortChannelID c) (cd_AddAcks diff) (dk_fwdPkgs db) of
             Inl e \<Rightarrow> Inl (ErrFwdPkg e)
           | Inr pkgs \<Rightarrow> (case ackSettleFails (cd_SettleFailAcks diff) pkgs of
                 Inl e \<Rightarrow> Inl (ErrFwdPkg e)
               | Inr pkgs' \<Rightarrow>
                   Inr (db\<lparr>dk_fwdPkgs := pkgs', dk_lastWasRevoke := Some False, dk_commitDiff := Some diff\<rparr>))))"

definition RemoteCommitChainTip :: "ChanDb \<Rightarrow> db_error + CommitDiff" where
  "RemoteCommitChainTip db = (case dk_commitDiff db of None \<Rightarrow> Inl ErrNoPendingCommit | Some d \<Rightarrow> Inr d)"

definition UnsignedAckedUpdates :: "ChanDb \<Rightarrow> LogUpdate list" where
  "UnsignedAckedUpdates db = (case dk_unsignedAcked db of None \<Rightarrow> [] | Some us \<Rightarrow> us)"

definition RemoteUnsignedLocalUpdates :: "ChanDb \<Rightarrow> LogUpdate list" where
  "RemoteUnsignedLocalUpdates db = (case dk_remoteUnsignedLocal db of None \<Rightarrow> [] | Some us \<Rightarrow> us)"

definition putChanRevocationState :: "OpenChannel \<Rightarrow> ChanDb \<Rightarrow> ChanDb" where
  "putChanRevocationState c db =
     db\<lparr>dk_revState := (oc_RemoteCurrentRevocation c, om_RevocationStore db, oc_RemoteNextRevocation c)\<rparr>"

text \<open>The key in memory is set first, whatever becomes of the write.\<close>

definition InsertNextRevocation :: "bool \<Rightarrow> bytes \<Rightarrow> OpenChannel \<Rightarrow> ChanDb \<Rightarrow>
    OpenChannel \<times> (db_error + ChanDb)" where
  "InsertNextRevocation io revKey c db =
     (let c' = c\<lparr>oc_RemoteNextRevocation := Some revKey\<rparr>
      in (c', if io then Inr (putChanRevocationState c' db) else Inl ErrKvdb))"

definition appendChannelLogEntry :: "ChannelCommitment \<Rightarrow> (u64, ChannelCommitment) bucket \<Rightarrow>
    (u64, ChannelCommitment) bucket" where
  "appendChannelLogEntry commit log = bucketPut (CommitHeight commit) commit log"

definition AdvanceCommitChainTail :: "bool \<Rightarrow> OpenChannel \<Rightarrow> FwdPkg \<Rightarrow> LogUpdate list \<Rightarrow> ChanDb \<Rightarrow>
    db_error + ChanDb" where
  "AdvanceCommitChainTail io c fwdPkg updates db =
     (case mayUpdate io db of
        Some e \<Rightarrow> Inl e
      | None \<Rightarrow> (case dk_commitDiff db of
            None \<Rightarrow> Inl ErrKvdb
          | Some newCommit \<Rightarrow>
              (let db1 = (putChanRevocationState c db)\<lparr>dk_RemoteCommitment := cd_Commitment newCommit,
                       dk_commitDiff := None,
                       dk_revocationLog := appendChannelLogEntry (om_RemoteCommitment db) (dk_revocationLog db),
                       dk_fwdPkgs := AddFwdPkg fwdPkg (dk_fwdPkgs db),
                       om_RemoteCommitment := cd_Commitment newCommit\<rparr>
               in Inr (case dk_unsignedAcked db of
                         None \<Rightarrow> db1
                       | Some unsignedUpdates \<Rightarrow>
                           db1\<lparr>dk_unsignedAcked := Some (filter
                                  (\<lambda>upd. lu_LogIndex upd \<ge> RemoteLogIndex (cd_Commitment newCommit)) unsignedUpdates),
                               dk_remoteUnsignedLocal := Some updates\<rparr>))))"

subsection \<open>Queries\<close>

definition NextLocalHtlcIndex :: "ChanDb \<Rightarrow> u64" where
  "NextLocalHtlcIndex db = (case dk_commitDiff db of
       Some d \<Rightarrow> LocalHtlcIndex (cd_Commitment d)
     | None \<Rightarrow> LocalHtlcIndex (om_RemoteCommitment db))"

definition fetchChannelLogEntry :: "(u64, ChannelCommitment) bucket \<Rightarrow> u64 \<Rightarrow> db_error + ChannelCommitment" where
  "fetchChannelLogEntry log updateNum = (case map_of log updateNum of
       None \<Rightarrow> Inl ErrLogEntryNotFound
     | Some c \<Rightarrow> Inr c)"

text \<open>The bucket of the log is created with its first entry.\<close>

definition FindPreviousState :: "ChanDb \<Rightarrow> u64 \<Rightarrow> db_error + ChannelCommitment" where
  "FindPreviousState db updateNum =
     (if dk_revocationLog db = [] then Inl ErrNoPastDeltas
      else fetchChannelLogEntry (dk_revocationLog db) updateNum)"

definition RevocationLogTail :: "ChanDb \<Rightarrow> db_error + ChannelCommitment option" where
  "RevocationLogTail db =
     (if CommitHeight (om_RemoteCommitment db) = 0 then Inr None
      else if dk_revocationLog db = [] then Inl ErrNoPastDeltas
      else Inr (Some (snd (last (dk_revocationLog db)))))"

definition CommitmentHeight :: "ChanDb \<Rightarrow> u64" where
  "CommitmentHeight db = CommitHeight (dk_LocalCommitment db)"

definition commitBalancesOf :: "ChannelCommitment \<Rightarrow> MilliSatoshi \<times> MilliSatoshi \<times> Amount \<times> Amount" where
  "commitBalancesOf c = (LocalBtcBalance c, RemoteBtcBalance c, LocalAssetBalance c, RemoteAssetBalance c)"

definition BalancesAtHeight :: "ChanDb \<Rightarrow> u64 \<Rightarrow> db_error + MilliSatoshi \<times> MilliSatoshi \<times> Amount \<times> Amount" where
  "BalancesAtHeight db height =
     (if height > CommitHeight (om_LocalCommitment db) \<and> height > CommitHeight (om_RemoteCommitment db)
      then Inl ErrHeightNotReached
      else if CommitHeight (om_LocalCommitment db) = height then Inr (commitBalancesOf (om_LocalCommitment db))
      else if CommitHeight (om_RemoteCommitment db) = height then Inr (commitBalancesOf (om_RemoteCommitment db))
      else case FindPreviousState db height of Inl e \<Rightarrow> Inl e | Inr c \<Rightarrow> Inr (commitBalancesOf c))"

definition ActiveHtlcs :: "(bytes \<Rightarrow> bytes) \<Rightarrow> ChanDb \<Rightarrow> HTLC list" where
  "ActiveHtlcs sha256 db =
     (let remoteHtlcs = set (map (\<lambda>h. sha256 (h_OnionBlob h)) (Htlcs (om_RemoteCommitment db)))
      in filter (\<lambda>h. sha256 (h_OnionBlob h) \<in> remoteHtlcs) (Htlcs (om_LocalCommitment db)))"

end
