(* ===== verification/Lnwallet_Dance.thy ===== *)
theory Lnwallet_Dance
  imports Lnwallet_CommitTx Lnwallet_Channel Channeldb_Commit Wire_Signature
begin

text \<open>
  The commitment dance of \<^verbatim>\<open>lnwallet/channel.go\<close>: \<^verbatim>\<open>SignNextCommitment\<close>, \<^verbatim>\<open>ReceiveNewCommitment\<close>,
  \<^verbatim>\<open>RevokeCurrentCommitment\<close> and \<^verbatim>\<open>ReceiveRevocation\<close>, with everything they call.  An operation takes
  and returns the channel in memory and the channel in the database, also when it fails: heights
  and scripts are written into the log entries before the signatures are made or checked.

  The record \<open>env\<close> holds the code outside the repository: the consensus library, the revocation
  producer and store (\<^verbatim>\<open>shachain\<close>), the parser and verifier of signatures, and the signer of the
  channel.  A pool of workers gives the signatures and the checks of a batch; it is the map over
  the batch.
\<close>

record env =
  ev_sanity :: "MsgTx \<Rightarrow> bool"
  ev_weight :: "MsgTx \<Rightarrow> int64"
  ev_TxHash :: "MsgTx \<Rightarrow> Hash"
  ev_signer :: signer
  ev_ParseDER :: "bytes \<Rightarrow> bytes option"
  ev_CalcSignatureHash :: "bytes \<Rightarrow> u32 \<Rightarrow> MsgTx \<Rightarrow> bytes option"
  ev_Verify :: "bytes \<Rightarrow> bytes \<Rightarrow> bytes \<Rightarrow> bool"
  ev_AtIndex :: "u64 \<Rightarrow> bytes option"
  ev_AddNextEntry :: "bytes list \<Rightarrow> bytes \<Rightarrow> bool"
  ev_io :: bool

subsection \<open>Outputs of the HTLCs\<close>

fun locateLoop :: "PaymentDescriptor \<Rightarrow> bytes \<Rightarrow> u32 list \<Rightarrow> TxOut list \<Rightarrow> u32 list \<Rightarrow> nat \<Rightarrow> chan_error + u32" where
  "locateLoop p pkScript dups [] cltvs i = Inl (ErrHtlcOutput pkScript (pd_BtcAmount p) (pd_Timeout p))"
| "locateLoop p pkScript dups (txOut # outs) [] i = Inl NilPanic"
| "locateLoop p pkScript dups (txOut # outs) (cltv # cltvs) i =
     (if to_PkScript txOut = pkScript \<and> to_Value txOut = MilliSatoshi_ToSatoshis (pd_BtcAmount p) \<and>
         cltv = pd_Timeout p \<and> of_nat i \<notin> set dups
      then Inr (of_nat i)
      else locateLoop p pkScript dups outs cltvs (Suc i))"

text \<open>The map of the indexes that are taken is a function with the empty list as default.\<close>

definition locateOutputIndex :: "PaymentDescriptor \<Rightarrow> MsgTx \<Rightarrow> bool \<Rightarrow> (bytes \<Rightarrow> u32 list) \<Rightarrow> u32 list \<Rightarrow>
    chan_error + u32 \<times> (bytes \<Rightarrow> u32 list)" where
  "locateOutputIndex p tx ourCommit dups cltvs =
     (let pkScript = (if ourCommit then ourPkScript p else theirPkScript p)
      in case tx_TxOut tx of
           [] \<Rightarrow> Inl NilPanic
         | out0 # _ \<Rightarrow>
             (let cltvs' = (if to_Value out0 = 0 then 0 # cltvs else cltvs)
              in case locateLoop p pkScript (dups (pd_RHash p)) (tx_TxOut tx) cltvs' 0 of
                   Inl e \<Rightarrow> Inl e
                 | Inr idx \<Rightarrow> Inr (idx, dups(pd_RHash p := dups (pd_RHash p) @ [idx]))))"

fun populateIndex :: "MsgTx \<Rightarrow> bool \<Rightarrow> u32 list \<Rightarrow> PaymentDescriptor list \<Rightarrow> (bytes \<Rightarrow> u32 list) \<Rightarrow>
    chan_error + PaymentDescriptor list \<times> (bytes \<Rightarrow> u32 list)" where
  "populateIndex tx isOurs cltvs [] dups = Inr ([], dups)"
| "populateIndex tx isOurs cltvs (htlc # htlcs) dups =
     (case locateOutputIndex htlc tx isOurs dups cltvs of
        Inl e \<Rightarrow> Inl e
      | Inr (idx, dups') \<Rightarrow>
          (case populateIndex tx isOurs cltvs htlcs dups' of
             Inl e \<Rightarrow> Inl e
           | Inr (htlcs', dups'') \<Rightarrow>
               Inr ((if isOurs then htlc\<lparr>localOutputIndex := idx\<rparr> else htlc\<lparr>remoteOutputIndex := idx\<rparr>) # htlcs', dups'')))"

definition populateHtlcIndexes :: "commitment \<Rightarrow> u32 list \<Rightarrow> chan_error + commitment" where
  "populateHtlcIndexes c cltvs =
     (case populateIndex (c_txn c) (c_isOurs c) cltvs (c_outgoingHTLCs c) (\<lambda>_. []) of
        Inl e \<Rightarrow> Inl e
      | Inr (outgoing, dups) \<Rightarrow>
          (case populateIndex (c_txn c) (c_isOurs c) cltvs (c_incomingHTLCs c) dups of
             Inl e \<Rightarrow> Inl e
           | Inr (incoming, _) \<Rightarrow> Inr (c\<lparr>c_outgoingHTLCs := outgoing, c_incomingHTLCs := incoming\<rparr>)))"

text \<open>
  \<^verbatim>\<open>outgoingHTLCIndex\<close> and \<^verbatim>\<open>incomingHTLCIndex\<close>: for an output index, the HTLC that was put there
  last.
\<close>

definition htlcAt :: "PaymentDescriptor list \<Rightarrow> nat \<Rightarrow> PaymentDescriptor option" where
  "htlcAt htlcs i = find (\<lambda>p. localOutputIndex p = of_nat i) (rev htlcs)"

subsection \<open>Commitments on disk\<close>

definition toDiskHtlc :: "bool \<Rightarrow> bool \<Rightarrow> PaymentDescriptor \<Rightarrow> HTLC" where
  "toDiskHtlc ourCommit incoming htlc =
     \<lparr>h_Signature = (if ourCommit then (case pd_sig htlc of None \<Rightarrow> [] | Some s \<Rightarrow> s) else []),
      h_RHash = pd_RHash htlc, h_AssetId = 0, h_BtcAmt = pd_BtcAmount htlc, h_AssetAmt = pd_AssetAmount htlc,
      h_RefundTimeout = pd_Timeout htlc,
      h_OutputIndex = (if ourCommit then localOutputIndex htlc else remoteOutputIndex htlc),
      h_Incoming = incoming, h_OnionBlob = pd_OnionBlob htlc, h_HtlcIndex = pd_HtlcIndex htlc,
      h_LogIndex = pd_LogIndex htlc\<rparr>"

definition toDiskCommit :: "commitment \<Rightarrow> bool \<Rightarrow> ChannelCommitment" where
  "toDiskCommit c ourCommit =
     \<lparr>CommitHeight = c_height c, LocalLogIndex = c_ourMessageIndex c, LocalHtlcIndex = c_ourHtlcIndex c,
      RemoteLogIndex = c_theirMessageIndex c, RemoteHtlcIndex = c_theirHtlcIndex c,
      LocalBtcBalance = c_ourBtcBalance c, RemoteBtcBalance = c_theirBtcBalance c,
      LocalAssetBalance = c_ourAssetBalance c, RemoteAssetBalance = c_theirAssetBalance c,
      CommitFee = c_fee c, FeePerKw = c_feePerKw c, CommitTx = c_txn c, cc_CommitSig = c_sig c,
      Htlcs = map (toDiskHtlc ourCommit False) (c_outgoingHTLCs c) @
              map (toDiskHtlc ourCommit True) (c_incomingHTLCs c)\<rparr>"

subsection \<open>A new commitment\<close>

definition AbsoluteFeePerKwFloor :: SatPerKWeight where "AbsoluteFeePerKwFloor = 250"

text \<open>The writes of \<^verbatim>\<open>addHTLC\<close> through the pointers of a view.\<close>

definition writeView :: "htlcView \<Rightarrow> LightningChannel \<Rightarrow> LightningChannel" where
  "writeView v lc =
     lc\<lparr>localUpdateLog := fold (\<lambda>(k, pd). setElem k pd) (v_ourUpdates v) (localUpdateLog lc),
        remoteUpdateLog := fold (\<lambda>(k, pd). setElem k pd) (v_theirUpdates v) (remoteUpdateLog lc)\<rparr>"

definition effFeeRate :: "env \<Rightarrow> LightningChannel \<Rightarrow> MsgTx \<Rightarrow> SatPerKWeight" where
  "effFeeRate ev lc tx =
     sdiv64 ((oc_BtcCapacity (channelState lc) - totalOut tx) * 1000) (ev_weight ev tx + WitnessCommitmentTxWeight)"

definition newCommitment :: "LightningChannel \<Rightarrow> bool \<Rightarrow> u64 \<Rightarrow> u64 \<Rightarrow> u64 \<Rightarrow> u64 \<Rightarrow> u64 \<Rightarrow> SatPerKWeight \<Rightarrow>
    htlcView \<Rightarrow> unsignedCommitmentTx \<Rightarrow> commitment" where
  "newCommitment lc remoteChain height ourLogIndex ourHtlcIndex theirLogIndex theirHtlcIndex feePerKw view commitTx =
     \<lparr>c_height = height, c_ourMessageIndex = ourLogIndex, c_theirMessageIndex = theirLogIndex,
      c_ourHtlcIndex = ourHtlcIndex, c_theirHtlcIndex = theirHtlcIndex,
      c_ourBtcBalance = ourBtcBalance (ut_balances commitTx),
      c_theirBtcBalance = theirBtcBalance (ut_balances commitTx),
      c_ourAssetBalance = ourAssetBalance (ut_balances commitTx),
      c_theirAssetBalance = theirAssetBalance (ut_balances commitTx),
      c_fee = ut_fee commitTx, c_feePerKw = feePerKw,
      c_dustLimit = DustLimit (if remoteChain then oc_RemoteChanCfg (channelState lc)
                               else oc_LocalChanCfg (channelState lc)),
      c_isOurs = (\<not> remoteChain), c_txn = ut_txn commitTx, c_sig = [],
      c_outgoingHTLCs = map snd (v_ourUpdates view), c_incomingHTLCs = map snd (v_theirUpdates view)\<rparr>"

definition fetchCommitmentView :: "'z crypto_scheme \<Rightarrow> env \<Rightarrow> LightningChannel \<Rightarrow> bool \<Rightarrow> u64 \<Rightarrow> u64 \<Rightarrow> u64 \<Rightarrow> u64 \<Rightarrow>
    CommitmentKeyRing \<Rightarrow> LightningChannel \<times> (chan_error + commitment)" where
  "fetchCommitmentView x ev lc remoteChain ourLogIndex ourHtlcIndex theirLogIndex theirHtlcIndex keyRing =
     (case chain_tip (if remoteChain then remoteCommitChain lc else localCommitChain lc) of
        None \<Rightarrow> (lc, Inl NilPanic)
      | Some tip \<Rightarrow>
          (let nextHeight = c_height tip + 1
           in case computeView lc (fetchHTLCView lc theirLogIndex ourLogIndex) remoteChain True of
                (lc1, Inl e) \<Rightarrow> (lc1, Inl e)
              | (lc1, Inr (b, _, view)) \<Rightarrow>
                  (case createUnsignedCommitmentTx x (ev_sanity ev) (channelState lc1) b (\<not> remoteChain)
                          (v_feePerKw view) nextHeight view keyRing of
                     (view', Inl e) \<Rightarrow> (writeView view' lc1, Inl e)
                   | (view', Inr commitTx) \<Rightarrow>
                       (writeView view' lc1,
                        if sless64 (effFeeRate ev lc1 (ut_txn commitTx)) AbsoluteFeePerKwFloor
                        then Inl (ErrFeeRateFloor (effFeeRate ev lc1 (ut_txn commitTx)))
                        else populateHtlcIndexes
                               (newCommitment lc1 remoteChain nextHeight ourLogIndex ourHtlcIndex theirLogIndex
                                  theirHtlcIndex (v_feePerKw view) view' commitTx)
                               (ut_cltvs commitTx)))))"

subsection \<open>Log updates\<close>

text \<open>The array of a message is filled from the slice.\<close>

definition onionArray :: "bytes \<Rightarrow> bytes" where
  "onionArray b = take 1366 b @ replicate (1366 - length b) 0"

definition GetHtlcAmt :: "PaymentDescriptor \<Rightarrow> UnitPrec11" where
  "GetHtlcAmt pd = (if pd_AssetID pd = BtcAssetId then pd_BtcAmount pd else pd_AssetAmount pd)"

definition logUpdateOf :: "ChannelID \<Rightarrow> PaymentDescriptor \<Rightarrow> LogUpdate" where
  "logUpdateOf chanID pd = \<lparr>lu_LogIndex = pd_LogIndex pd, lu_UpdateMsg = (case EntryType pd of
       Add \<Rightarrow> LogAdd \<lparr>ah_ChanID = chanID, ah_ID = pd_HtlcIndex pd, ah_Amount = GetHtlcAmt pd,
                ah_AssetID = pd_AssetID pd, ah_PaymentHash = pd_RHash pd, ah_Expiry = pd_Timeout pd,
                ah_OnionBlob = onionArray (pd_OnionBlob pd), ah_ExtraData = []\<rparr>
     | Settle \<Rightarrow> LogFulfill \<lparr>fh_ChanID = chanID, fh_ID = pd_ParentIndex pd,
                fh_PaymentPreimage = pd_RPreimage pd, fh_ExtraData = []\<rparr>
     | Fail \<Rightarrow> LogFail \<lparr>xh_ChanID = chanID, xh_ID = pd_ParentIndex pd, xh_Reason = pd_FailReason pd,
                xh_ExtraData = []\<rparr>
     | MalformedFail \<Rightarrow> LogMalformed \<lparr>mh_ChanID = chanID, mh_ID = pd_ParentIndex pd,
                mh_ShaOnionBlob = pd_ShaOnionBlob pd, mh_FailureCode = pd_FailCode pd, mh_ExtraData = []\<rparr>
     | FeeUpdate \<Rightarrow> LogFee \<lparr>uf_ChanID = chanID, uf_AssetID = pd_AssetID pd,
                uf_FeePerKw = ucast (MilliSatoshi_ToSatoshis (pd_BtcAmount pd)), uf_ExtraData = []\<rparr>)\<rparr>"

definition chanID :: "LightningChannel \<Rightarrow> ChannelID" where
  "chanID lc = NewChanIDFromOutPoint (oc_FundingOutpoint (channelState lc))"

text \<open>The entries that were committed at exactly this height of the remote chain.\<close>

definition committedAt :: "u64 \<Rightarrow> PaymentDescriptor \<Rightarrow> bool" where
  "committedAt height pd \<longleftrightarrow> addCommitHeightRemote pd = height \<or> removeCommitHeightRemote pd = height"

definition keysOf :: "(PaymentDescriptor \<Rightarrow> 'a option) \<Rightarrow> PaymentDescriptor list \<Rightarrow> 'a list" where
  "keysOf f pds = concat (map (\<lambda>pd. case f pd of None \<Rightarrow> [] | Some k \<Rightarrow> [k]) pds)"

definition createCommitDiff :: "LightningChannel \<Rightarrow> commitment \<Rightarrow> Sig \<Rightarrow> Sig list \<Rightarrow> CommitDiff" where
  "createCommitDiff lc c commitSig htlcSigs =
     (let pds = filter (committedAt (c_height c)) (map snd (ul_List (localUpdateLog lc)));
          adds = filter (\<lambda>pd. EntryType pd = Add) pds;
          others = filter (\<lambda>pd. EntryType pd \<noteq> Add) pds
      in \<lparr>cd_Commitment = toDiskCommit c False,
          cd_LogUpdates = map (logUpdateOf (chanID lc)) pds,
          cd_CommitSig = \<lparr>cs_ChanID = chanID lc, cs_CommitSig = commitSig, cs_HtlcSigs = htlcSigs, cs_ExtraData = []\<rparr>,
          cd_OpenedCircuitKeys = keysOf pd_OpenCircuitKey adds,
          cd_ClosedCircuitKeys = keysOf pd_ClosedCircuitKey others,
          cd_AddAcks = keysOf pd_SourceRef others,
          cd_SettleFailAcks = keysOf pd_DestRef others\<rparr>)"

definition getUnsignedAckedUpdates :: "LightningChannel \<Rightarrow> LogUpdate list option" where
  "getUnsignedAckedUpdates lc =
     (case (chain_tail (remoteCommitChain lc), chain_tail (localCommitChain lc)) of
        (Some r, Some l) \<Rightarrow>
          Some (map (logUpdateOf (chanID lc)) (filter
            (\<lambda>pd. \<not> pd_LogIndex pd < c_theirMessageIndex r \<and> \<not> pd_LogIndex pd \<ge> c_theirMessageIndex l)
            (map snd (ul_List (remoteUpdateLog lc)))))
      | _ \<Rightarrow> None)"

definition unsignedLocalUpdates :: "LightningChannel \<Rightarrow> u64 \<Rightarrow> u64 \<Rightarrow> LogUpdate list" where
  "unsignedLocalUpdates lc remoteMessageIndex localMessageIndex =
     map (logUpdateOf (chanID lc)) (filter
       (\<lambda>pd. EntryType pd \<noteq> Add \<and> pd_LogIndex pd < remoteMessageIndex \<and> pd_LogIndex pd \<ge> localMessageIndex)
       (map snd (ul_List (localUpdateLog lc))))"

subsection \<open>Signatures\<close>

definition createSignDesc :: "'z crypto_scheme \<Rightarrow> OpenChannel \<Rightarrow> SignDescriptor option" where
  "createSignDesc x st =
     (case GenMultiSigScript x (MultiSigKey (oc_LocalChanCfg st)) (MultiSigKey (oc_RemoteChanCfg st)) of
        None \<Rightarrow> None
      | Some multiSigScript \<Rightarrow> (case GenerateP2SH x multiSigScript of
            None \<Rightarrow> None
          | Some fundingPkScript \<Rightarrow>
              Some \<lparr>sd_PubKey = Some (MultiSigKey (oc_LocalChanCfg st)), sd_SingleTweak = None, sd_DoubleTweak = None,
                    sd_WitnessScript = multiSigScript, sd_HashType = SigHashAll, sd_InputIndex = 0\<rparr>))"

definition leaseExpiryOf :: "OpenChannel \<Rightarrow> u32" where
  "leaseExpiryOf st = (if HasLeaseExpiration (oc_ChanType st) then oc_ThawHeight st else 0)"

record SignJob =
  sj_SignDesc :: SignDescriptor
  sj_Tx :: MsgTx
  sj_OutputIndex :: u32

text \<open>
  The second-level transaction of an HTLC on a commitment: on our commitment an incoming HTLC is
  claimed by a success transaction, an outgoing one by a timeout transaction; on theirs it is the
  other way round.
\<close>

definition htlcTx :: "'z crypto_scheme \<Rightarrow> env \<Rightarrow> OpenChannel \<Rightarrow> bool \<Rightarrow> CommitmentKeyRing \<Rightarrow> commitment \<Rightarrow> bool \<Rightarrow>
    PaymentDescriptor \<Rightarrow> MsgTx option" where
  "htlcTx x ev st ours keyRing c incoming htlc =
     (let outp = \<lparr>op_Hash = ev_TxHash ev (c_txn c), op_Index = (if ours then localOutputIndex htlc else remoteOutputIndex htlc)\<rparr>;
          chanType = oc_ChanType st;
          initiator = (oc_IsInitiator st \<longleftrightarrow> ours);
          csv = ucast (CsvDelay (if ours then oc_LocalChanCfg st else oc_RemoteChanCfg st));
          btc = MilliSatoshi_ToSatoshis (pd_BtcAmount htlc)
      in if incoming \<longleftrightarrow> ours
         then CreateHtlcSuccessTx x chanType initiator outp (btc - HtlcSuccessFee chanType (c_feePerKw c))
                (pd_AssetAmount htlc) (pd_AssetID htlc) csv (leaseExpiryOf st) (RevocationKey keyRing) (ToLocalKey keyRing)
         else CreateHtlcTimeoutTx x chanType initiator outp (btc - HtlcTimeoutFee chanType (c_feePerKw c))
                (pd_AssetAmount htlc) (pd_AssetID htlc) (pd_Timeout htlc) csv (leaseExpiryOf st)
                (RevocationKey keyRing) (ToLocalKey keyRing))"

fun remoteSigJobs :: "'z crypto_scheme \<Rightarrow> env \<Rightarrow> OpenChannel \<Rightarrow> CommitmentKeyRing \<Rightarrow> commitment \<Rightarrow> bool \<Rightarrow>
    PaymentDescriptor list \<Rightarrow> chan_error + SignJob list" where
  "remoteSigJobs x ev st keyRing c incoming [] = Inr []"
| "remoteSigJobs x ev st keyRing c incoming (htlc # htlcs) =
     (if isDustHtlc st False incoming (c_feePerKw c) htlc then remoteSigJobs x ev st keyRing c incoming htlcs
      else case htlcTx x ev st False keyRing c incoming htlc of
             None \<Rightarrow> Inl ErrScript
           | Some tx \<Rightarrow>
               if length (tx_TxOut (c_txn c)) \<le> unat (remoteOutputIndex htlc) then Inl NilPanic
               else case remoteSigJobs x ev st keyRing c incoming htlcs of
                      Inl e \<Rightarrow> Inl e
                    | Inr jobs \<Rightarrow>
                        Inr (\<lparr>sj_SignDesc = \<lparr>sd_PubKey = Some (HtlcBasePoint (oc_LocalChanCfg st)),
                                sd_SingleTweak = Some (LocalHtlcKeyTweak keyRing), sd_DoubleTweak = None,
                                sd_WitnessScript = theirWitnessScript htlc, sd_HashType = SigHashAll, sd_InputIndex = 0\<rparr>,
                              sj_Tx = tx, sj_OutputIndex = remoteOutputIndex htlc\<rparr> # jobs))"

definition genRemoteHtlcSigJobs :: "'z crypto_scheme \<Rightarrow> env \<Rightarrow> OpenChannel \<Rightarrow> CommitmentKeyRing \<Rightarrow> commitment \<Rightarrow>
    chan_error + SignJob list" where
  "genRemoteHtlcSigJobs x ev st keyRing c =
     (case remoteSigJobs x ev st keyRing c True (c_incomingHTLCs c) of
        Inl e \<Rightarrow> Inl e
      | Inr jobs \<Rightarrow> (case remoteSigJobs x ev st keyRing c False (c_outgoingHTLCs c) of
            Inl e \<Rightarrow> Inl e
          | Inr jobs' \<Rightarrow> Inr (jobs @ jobs')))"

text \<open>A worker of the pool, and the signatures in the order of the outputs.\<close>

definition runSignJob :: "env \<Rightarrow> MsgTx \<Rightarrow> SignDescriptor \<Rightarrow> chan_error + Sig" where
  "runSignJob ev tx signDesc =
     (case ev_signer ev tx signDesc of
        None \<Rightarrow> Inl ErrSigner
      | Some rawSig \<Rightarrow> (case NewSigFromRawSignature rawSig of Inl e \<Rightarrow> Inl ErrSigner | Inr sig \<Rightarrow> Inr sig))"

fun runSignJobs :: "env \<Rightarrow> SignJob list \<Rightarrow> chan_error + Sig list" where
  "runSignJobs ev [] = Inr []"
| "runSignJobs ev (j # js) =
     (case runSignJob ev (sj_Tx j) (sj_SignDesc j) of
        Inl e \<Rightarrow> Inl e
      | Inr sig \<Rightarrow> (case runSignJobs ev js of Inl e \<Rightarrow> Inl e | Inr sigs \<Rightarrow> Inr (sig # sigs)))"

definition signView :: "'z crypto_scheme \<Rightarrow> env \<Rightarrow> OpenChannel \<Rightarrow> CommitmentKeyRing \<Rightarrow> commitment \<Rightarrow>
    chan_error + Sig \<times> Sig list" where
  "signView x ev st keyRing c =
     (case genRemoteHtlcSigJobs x ev st keyRing c of
        Inl e \<Rightarrow> Inl e
      | Inr sigBatch \<Rightarrow> (case createSignDesc x st of
            None \<Rightarrow> Inl NilPanic
          | Some signDesc \<Rightarrow> (case runSignJob ev (c_txn c) signDesc of
                Inl e \<Rightarrow> Inl e
              | Inr sig \<Rightarrow>
                  (case runSignJobs ev (sort_key (\<lambda>j. sint (sj_OutputIndex j)) sigBatch) of
                     Inl e \<Rightarrow> Inl e
                   | Inr htlcSigs \<Rightarrow> Inr (sig, htlcSigs)))))"

definition SignNextCommitment :: "'z crypto_scheme \<Rightarrow> env \<Rightarrow> LightningChannel \<Rightarrow> ChanDb \<Rightarrow>
    LightningChannel \<times> ChanDb \<times> (chan_error + Sig \<times> Sig list \<times> HTLC list)" where
  "SignNextCommitment x ev lc db =
     (case oc_RemoteNextRevocation (channelState lc) of
        None \<Rightarrow> (lc, db, Inl ErrNoWindow)
      | Some commitPoint \<Rightarrow>
          if hasUnackedCommitment (remoteCommitChain lc) then (lc, db, Inl ErrNoWindow)
          else case chain_tail (localCommitChain lc) of
                 None \<Rightarrow> (lc, db, Inl NilPanic)
               | Some ltail \<Rightarrow>
                   (case validateCommitmentSanity lc (c_theirMessageIndex ltail) (logIndex (localUpdateLog lc)) True None None of
                      Some e \<Rightarrow> (lc, db, Inl e)
                    | None \<Rightarrow>
                        (let st = channelState lc;
                             keyRing = DeriveCommitmentKeys x commitPoint False (oc_ChanType st) (oc_LocalChanCfg st) (oc_RemoteChanCfg st)
                         in case fetchCommitmentView x ev lc True (logIndex (localUpdateLog lc)) (htlcCounter (localUpdateLog lc))
                                   (c_theirMessageIndex ltail) (c_theirHtlcIndex ltail) keyRing of
                              (lc1, Inl e) \<Rightarrow> (lc1, db, Inl e)
                            | (lc1, Inr newCommitView) \<Rightarrow>
                                (case signView x ev st keyRing newCommitView of
                                   Inl e \<Rightarrow> (lc1, db, Inl e)
                                 | Inr (sig, htlcSigs) \<Rightarrow>
                                     (let commitDiff = createCommitDiff lc1 newCommitView sig htlcSigs
                                      in case AppendRemoteCommitChain (ev_io ev) (channelState lc1) commitDiff db of
                                           Inl e \<Rightarrow> (lc1, db, Inl ErrDatabase)
                                         | Inr db' \<Rightarrow>
                                             (lc1\<lparr>remoteCommitChain := addCommitment newCommitView (remoteCommitChain lc1)\<rparr>,
                                              db', Inr (sig, htlcSigs, Htlcs (cd_Commitment commitDiff))))))))"

record VerifyJob =
  vj_HtlcIndex :: u64
  vj_Sig :: bytes
  vj_Script :: bytes
  vj_Tx :: "MsgTx option"

text \<open>
  \<^verbatim>\<open>genHtlcSigValidationJobs\<close> walks over the outputs; the signature is also stored in the HTLC of
  the commitment.  The transaction of a job is built when the job runs.
\<close>

fun setFirst :: "('a \<Rightarrow> bool) \<Rightarrow> ('a \<Rightarrow> 'a) \<Rightarrow> 'a list \<Rightarrow> 'a list" where
  "setFirst P f [] = []"
| "setFirst P f (y # ys) = (if P y then f y # ys else y # setFirst P f ys)"

definition setSig :: "nat \<Rightarrow> bytes \<Rightarrow> PaymentDescriptor list \<Rightarrow> PaymentDescriptor list" where
  "setSig i sig htlcs = rev (setFirst (\<lambda>p. localOutputIndex p = of_nat i) (\<lambda>p. p\<lparr>pd_sig := Some sig\<rparr>) (rev htlcs))"

fun validationLoop :: "'z crypto_scheme \<Rightarrow> env \<Rightarrow> OpenChannel \<Rightarrow> CommitmentKeyRing \<Rightarrow> nat list \<Rightarrow> Sig list \<Rightarrow> commitment \<Rightarrow>
    chan_error + commitment \<times> VerifyJob list" where
  "validationLoop x ev st keyRing [] sigs c = (if sigs = [] then Inr (c, []) else Inl ErrHtlcSigCount)"
| "validationLoop x ev st keyRing (i # is) sigs c =
     (let incoming = (htlcAt (c_incomingHTLCs c) i \<noteq> None)
      in case (if incoming then htlcAt (c_incomingHTLCs c) i else htlcAt (c_outgoingHTLCs c) i) of
           None \<Rightarrow> validationLoop x ev st keyRing is sigs c
         | Some htlc \<Rightarrow>
             (case sigs of
                [] \<Rightarrow> Inl ErrHtlcSigCount
              | s # sigs' \<Rightarrow> (case ToSignature (ev_ParseDER ev) s of
                    Inl e \<Rightarrow> Inl ErrSigFormat
                  | Inr sig \<Rightarrow>
                      (let c' = (if incoming then c\<lparr>c_incomingHTLCs := setSig i sig (c_incomingHTLCs c)\<rparr>
                                 else c\<lparr>c_outgoingHTLCs := setSig i sig (c_outgoingHTLCs c)\<rparr>)
                       in case validationLoop x ev st keyRing is sigs' c' of
                            Inl e \<Rightarrow> Inl e
                          | Inr (c'', jobs) \<Rightarrow>
                              Inr (c'', \<lparr>vj_HtlcIndex = pd_HtlcIndex htlc, vj_Sig = sig, vj_Script = ourWitnessScript htlc,
                                vj_Tx = htlcTx x ev st True keyRing c incoming htlc\<rparr> # jobs)))))"

definition genHtlcSigValidationJobs :: "'z crypto_scheme \<Rightarrow> env \<Rightarrow> OpenChannel \<Rightarrow> CommitmentKeyRing \<Rightarrow> Sig list \<Rightarrow>
    commitment \<Rightarrow> chan_error + commitment \<times> VerifyJob list" where
  "genHtlcSigValidationJobs x ev st keyRing htlcSigs c =
     validationLoop x ev st keyRing [0..<length (tx_TxOut (c_txn c))] htlcSigs c"

definition verifyJob :: "env \<Rightarrow> bytes \<Rightarrow> VerifyJob \<Rightarrow> bool" where
  "verifyJob ev pubKey j =
     (case vj_Tx j of
        None \<Rightarrow> False
      | Some tx \<Rightarrow> (case ev_CalcSignatureHash ev (vj_Script j) SigHashAll tx of
            None \<Rightarrow> False
          | Some sigHash \<Rightarrow> ev_Verify ev (vj_Sig j) sigHash pubKey))"

text \<open>The checks on a received commitment; the result is the commitment with the signatures stored.\<close>

definition verifyView :: "'z crypto_scheme \<Rightarrow> env \<Rightarrow> OpenChannel \<Rightarrow> u64 \<Rightarrow> CommitmentKeyRing \<Rightarrow> Sig \<Rightarrow> Sig list \<Rightarrow> commitment \<Rightarrow>
    chan_error + commitment" where
  "verifyView x ev st nextHeight keyRing commitSig htlcSigs c =
     (case createSignDesc x st of
        None \<Rightarrow> Inl NilPanic
      | Some signDesc \<Rightarrow>
          (case ev_CalcSignatureHash ev (sd_WitnessScript signDesc) (sd_HashType signDesc) (c_txn c) of
             None \<Rightarrow> Inl ErrSigHash
           | Some sigHash \<Rightarrow> (case genHtlcSigValidationJobs x ev st keyRing htlcSigs c of
                 Inl e \<Rightarrow> Inl e
               | Inr (c', jobs) \<Rightarrow> (case ToSignature (ev_ParseDER ev) commitSig of
                     Inl e \<Rightarrow> Inl ErrSigFormat
                   | Inr cSig \<Rightarrow>
                       if \<not> ev_Verify ev cSig sigHash (MultiSigKey (oc_RemoteChanCfg st))
                       then Inl (ErrInvalidCommitSig nextHeight)
                       else case find (\<lambda>j. \<not> verifyJob ev (RemoteHtlcKey keyRing) j) jobs of
                              Some j \<Rightarrow> Inl (ErrInvalidHtlcSig (vj_HtlcIndex j))
                            | None \<Rightarrow> Inr (c'\<lparr>c_sig := ToSignatureBytes commitSig\<rparr>)))))"

definition ReceiveNewCommitment :: "'z crypto_scheme \<Rightarrow> env \<Rightarrow> LightningChannel \<Rightarrow> Sig \<Rightarrow> Sig list \<Rightarrow>
    LightningChannel \<times> chan_error option" where
  "ReceiveNewCommitment x ev lc commitSig htlcSigs =
     (case chain_tail (remoteCommitChain lc) of
        None \<Rightarrow> (lc, Some NilPanic)
      | Some rtail \<Rightarrow>
          (case validateCommitmentSanity lc (logIndex (remoteUpdateLog lc)) (c_ourMessageIndex rtail) False None None of
             Some e \<Rightarrow> (lc, Some e)
           | None \<Rightarrow> (case ev_AtIndex ev (currentHeight lc + 1) of
                 None \<Rightarrow> (lc, Some ErrRevocationProducer)
               | Some commitSecret \<Rightarrow>
                   (let st = channelState lc;
                        keyRing = DeriveCommitmentKeys x (ComputeCommitmentPoint x commitSecret) True (oc_ChanType st)
                          (oc_LocalChanCfg st) (oc_RemoteChanCfg st)
                    in case fetchCommitmentView x ev lc False (c_ourMessageIndex rtail) (c_ourHtlcIndex rtail)
                              (logIndex (remoteUpdateLog lc)) (htlcCounter (remoteUpdateLog lc)) keyRing of
                         (lc1, Inl e) \<Rightarrow> (lc1, Some e)
                       | (lc1, Inr view) \<Rightarrow>
                           (case verifyView x ev st (currentHeight lc + 1) keyRing commitSig htlcSigs view of
                              Inl e \<Rightarrow> (lc1, Some e)
                            | Inr c \<Rightarrow> (lc1\<lparr>localCommitChain := addCommitment c (localCommitChain lc1)\<rparr>, None))))))"

subsection \<open>Revocations\<close>

definition generateRevocation :: "'z crypto_scheme \<Rightarrow> env \<Rightarrow> LightningChannel \<Rightarrow> u64 \<Rightarrow> bytes RevokeAndAck option" where
  "generateRevocation x ev lc height =
     (case ev_AtIndex ev height of
        None \<Rightarrow> None
      | Some commitSecret \<Rightarrow> (case ev_AtIndex ev (height + 2) of
            None \<Rightarrow> None
          | Some nextCommitSecret \<Rightarrow>
              Some \<lparr>ra_ChanID = chanID lc, ra_Revocation = commitSecret,
                ra_NextRevocationKey = Some (ComputeCommitmentPoint x nextCommitSecret), ra_ExtraData = []\<rparr>))"

definition RevokeCurrentCommitment :: "'z crypto_scheme \<Rightarrow> env \<Rightarrow> LightningChannel \<Rightarrow> ChanDb \<Rightarrow>
    LightningChannel \<times> ChanDb \<times> (chan_error + bytes RevokeAndAck \<times> HTLC list)" where
  "RevokeCurrentCommitment x ev lc db =
     (case generateRevocation x ev lc (currentHeight lc) of
        None \<Rightarrow> (lc, db, Inl ErrRevocationProducer)
      | Some revocationMsg \<Rightarrow> (case advanceTail (localCommitChain lc) of
            None \<Rightarrow> (lc, db, Inl NilPanic)
          | Some chain \<Rightarrow>
              (let lc1 = lc\<lparr>localCommitChain := chain, currentHeight := currentHeight lc + 1\<rparr>
               in case (chain_tail chain, getUnsignedAckedUpdates lc1) of
                    (Some chainTail, Some unsignedAckedUpdates) \<Rightarrow>
                      (let newCommitment = toDiskCommit chainTail True
                       in case UpdateCommitment (ev_io ev) (channelState lc1) newCommitment unsignedAckedUpdates db of
                            Inl e \<Rightarrow> (lc1, db, Inl ErrDatabase)
                          | Inr db' \<Rightarrow> (lc1, db', Inr (revocationMsg, Htlcs newCommitment)))
                  | _ \<Rightarrow> (lc1, db, Inl NilPanic))))"

text \<open>
  What a revocation locks in: for an entry of the remote log, whether it is forwarded as an add
  (\<open>Some True\<close>), as a settle or fail (\<open>Some False\<close>), or not now.
\<close>

definition fwdKind :: "u64 \<Rightarrow> u64 \<Rightarrow> PaymentDescriptor \<Rightarrow> bool option" where
  "fwdKind remoteChainTail localChainTail pd =
     (if EntryType pd = FeeUpdate \<or> isForwarded pd then None
      else let committedAdd = addCommitHeightRemote pd > 0 \<and> addCommitHeightLocal pd > 0;
               committedRmv = removeCommitHeightRemote pd > 0 \<and> removeCommitHeightLocal pd > 0;
               shouldFwdAdd = remoteChainTail = addCommitHeightRemote pd \<and> localChainTail \<ge> addCommitHeightLocal pd;
               shouldFwdRmv = remoteChainTail = removeCommitHeightRemote pd \<and> localChainTail \<ge> removeCommitHeightLocal pd
           in if EntryType pd = Add \<and> committedAdd \<and> shouldFwdAdd then Some True
              else if EntryType pd \<noteq> Add \<and> committedRmv \<and> shouldFwdRmv then Some False
              else None)"

text \<open>The loop over the remote log: the entries as it leaves them, and the entries to forward.\<close>

fun fwdLoop :: "ShortChannelID \<Rightarrow> u64 \<Rightarrow> u64 \<Rightarrow> log_elem list \<Rightarrow> u16 \<Rightarrow> u16 \<Rightarrow>
    log_elem list \<times> PaymentDescriptor list \<times> PaymentDescriptor list" where
  "fwdLoop source rt lt [] addIndex settleFailIndex = ([], [], [])"
| "fwdLoop source rt lt ((k, pd) # es) addIndex settleFailIndex =
     (case fwdKind rt lt pd of
        None \<Rightarrow>
          (let (es', adds, sfs) = fwdLoop source rt lt es addIndex settleFailIndex in ((k, pd) # es', adds, sfs))
      | Some True \<Rightarrow>
          (let pd' = pd\<lparr>pd_SourceRef := Some \<lparr>ar_Height = rt, ar_Index = addIndex\<rparr>, isForwarded := True\<rparr>;
               (es', adds, sfs) = fwdLoop source rt lt es (addIndex + 1) settleFailIndex
           in ((k, pd') # es', pd' # adds, sfs))
      | Some False \<Rightarrow>
          (let pd' = pd\<lparr>pd_DestRef := Some \<lparr>sf_Source = source, sf_Height = rt, sf_Index = settleFailIndex\<rparr>,
                        isForwarded := True\<rparr>;
               (es', adds, sfs) = fwdLoop source rt lt es addIndex (settleFailIndex + 1)
           in ((k, pd') # es', adds, pd' # sfs)))"

definition ReceiveRevocation :: "'z crypto_scheme \<Rightarrow> env \<Rightarrow> LightningChannel \<Rightarrow> ChanDb \<Rightarrow> bytes RevokeAndAck \<Rightarrow>
    LightningChannel \<times> ChanDb \<times>
      (chan_error + FwdPkg \<times> PaymentDescriptor list \<times> PaymentDescriptor list \<times> HTLC list)" where
  "ReceiveRevocation x ev lc db revMsg =
     (if \<not> ev_AddNextEntry ev (om_RevocationStore db) (ra_Revocation revMsg) then (lc, db, Inl ErrRevocationStore)
      else let db0 = db\<lparr>om_RevocationStore := om_RevocationStore db @ [ra_Revocation revMsg]\<rparr>;
               st = channelState lc
           in case oc_RemoteCurrentRevocation st of
                None \<Rightarrow> (lc, db0, Inl NilPanic)
              | Some currentCommitPoint \<Rightarrow>
                  if ComputeCommitmentPoint x (ra_Revocation revMsg) \<noteq> currentCommitPoint
                  then (lc, db0, Inl ErrRevocationMismatch)
                  else let lc0 = lc\<lparr>channelState := st\<lparr>oc_RemoteCurrentRevocation := oc_RemoteNextRevocation st,
                             oc_RemoteNextRevocation := ra_NextRevocationKey revMsg\<rparr>\<rparr>
                       in case (chain_tail (remoteCommitChain lc), chain_tip (remoteCommitChain lc), chain_tail (localCommitChain lc)) of
                            (Some rtail, Some rtip, Some ltail) \<Rightarrow>
                              (let remoteChainTail = c_height rtail + 1;
                                   localChainTail = c_height ltail;
                                   source = oc_ShortChannelID st;
                                   (es, addsToForward, settleFailsToForward) =
                                     fwdLoop source remoteChainTail localChainTail (ul_List (remoteUpdateLog lc)) 0 0;
                                   lc1 = lc0\<lparr>remoteUpdateLog := (remoteUpdateLog lc)\<lparr>ul_List := es\<rparr>\<rparr>;
                                   localPeerUpdates = unsignedLocalUpdates lc1 (c_ourMessageIndex rtip) (c_ourMessageIndex ltail);
                                   fwdPkg = NewFwdPkg source remoteChainTail (map (logUpdateOf (chanID lc)) addsToForward)
                                     (map (logUpdateOf (chanID lc)) settleFailsToForward)
                               in case AdvanceCommitChainTail (ev_io ev) (channelState lc1) fwdPkg localPeerUpdates db0 of
                                    Inl e \<Rightarrow> (lc1, db0, Inl ErrDatabase)
                                  | Inr db1 \<Rightarrow>
                                      (case advanceTail (remoteCommitChain lc1) of
                                         None \<Rightarrow> (lc1, db1, Inl NilPanic)
                                       | Some chain \<Rightarrow>
                                           (case compactLogs (localUpdateLog lc1) (remoteUpdateLog lc1) localChainTail remoteChainTail of
                                              None \<Rightarrow> (lc1\<lparr>remoteCommitChain := chain\<rparr>, db1, Inl NilPanic)
                                            | Some (ours, theirs) \<Rightarrow>
                                                (lc1\<lparr>remoteCommitChain := chain, localUpdateLog := ours, remoteUpdateLog := theirs\<rparr>,
                                                 db1, Inr (fwdPkg, addsToForward, settleFailsToForward,
                                                   Htlcs (om_RemoteCommitment db1))))))
                          | _ \<Rightarrow> (lc0, db0, Inl NilPanic))"

subsection \<open>Queries\<close>

definition OweCommitment :: "LightningChannel \<Rightarrow> bool \<Rightarrow> bool option" where
  "OweCommitment lc local = oweCommitment lc local"

definition IsChannelClean :: "(bytes \<Rightarrow> bytes) \<Rightarrow> LightningChannel \<Rightarrow> ChanDb \<Rightarrow> bool option" where
  "IsChannelClean sha256 lc db =
     (if hasUnackedCommitment (localCommitChain lc) then Some False
      else if hasUnackedCommitment (remoteCommitChain lc) then Some False
      else if ActiveHtlcs sha256 db \<noteq> [] then Some False
      else case oweCommitment lc True of
             None \<Rightarrow> None
           | Some owe \<Rightarrow> if owe then Some False else map_option Not (oweCommitment lc False))"

end
