(* ===== verification/Lnwallet_Annotate.thy ===== *)
theory Lnwallet_Annotate
  imports Lnwallet_Dance Lnwallet_Steps
begin

text \<open>
  The commitment dance writes scripts, forwarding references and flags into the entries of the
  logs.  These are annotations: the invariant of the logs does not depend on them.  What a new
  commitment does to the logs is then to mark the entries it includes with its height.
\<close>

subsection \<open>Logs that differ in annotations\<close>

text \<open>An entry without its scripts, and also without its references and flag.\<close>

definition unscripted :: "PaymentDescriptor \<Rightarrow> PaymentDescriptor" where
  "unscripted p = p\<lparr>ourPkScript := [], ourWitnessScript := [], theirPkScript := [], theirWitnessScript := []\<rparr>"

definition unannotated :: "PaymentDescriptor \<Rightarrow> PaymentDescriptor" where
  "unannotated p = (unscripted p)\<lparr>pd_SourceRef := None, pd_DestRef := None, isForwarded := False\<rparr>"

lemma unscripted_sel [simp]:
  "EntryType (unscripted p) = EntryType p" "pd_LogIndex (unscripted p) = pd_LogIndex p"
  "isForwarded (unscripted p) = isForwarded p"
  "addHeight rc (unscripted p) = addHeight rc p" "removeHeight rc (unscripted p) = removeHeight rc p"
  by (simp_all add: unscripted_def addHeight_def removeHeight_def)

lemma unannotated_sel [simp]:
  "EntryType (unannotated p) = EntryType p" "pd_LogIndex (unannotated p) = pd_LogIndex p"
  "pd_HtlcIndex (unannotated p) = pd_HtlcIndex p" "pd_ParentIndex (unannotated p) = pd_ParentIndex p"
  "pd_BtcAmount (unannotated p) = pd_BtcAmount p" "pd_AssetAmount (unannotated p) = pd_AssetAmount p"
  "addHeight rc (unannotated p) = addHeight rc p" "removeHeight rc (unannotated p) = removeHeight rc p"
  "isRemove (unannotated p) = isRemove p"
  by (simp_all add: unannotated_def unscripted_def addHeight_def removeHeight_def isRemove_def)

lemma unannotated_unscripted [simp]: "unannotated (unscripted p) = unannotated p"
  by (simp add: unannotated_def unscripted_def)

definition strip :: "(PaymentDescriptor \<Rightarrow> PaymentDescriptor) \<Rightarrow> log_elem list \<Rightarrow> log_elem list" where
  "strip f es = map (\<lambda>e. (fst e, f (snd e))) es"

lemma strip_simps [simp]: "strip f [] = []" "strip f (e # es) = (fst e, f (snd e)) # strip f es"
  "map fst (strip f es) = map fst es"
  by (simp_all add: strip_def comp_def)

lemma mem_strip: "(k, y) \<in> set (strip f es) \<longleftrightarrow> (\<exists>p. (k, p) \<in> set es \<and> y = f p)"
  by (force simp: strip_def)

lemma map_of_strip: "map_of (strip f es) k = map_option f (map_of es k)"
  by (induction es) auto

lemma strip_strip: "(\<And>p. g (f p) = g p) \<Longrightarrow> strip g (strip f es) = strip g es"
  by (simp add: strip_def comp_def)

lemma strip_mem:
  assumes "strip f es = strip f es'" "(k, q) \<in> set es"
  obtains p where "(k, p) \<in> set es'" "f q = f p"
proof -
  have "(k, f q) \<in> set (strip f es)" using assms(2) by (auto simp: mem_strip)
  then show thesis using that by (auto simp: assms(1) mem_strip)
qed

definition alike :: "(PaymentDescriptor \<Rightarrow> PaymentDescriptor) \<Rightarrow> updateLog \<Rightarrow> updateLog \<Rightarrow> bool" where
  "alike f u v \<longleftrightarrow> logIndex v = logIndex u \<and> htlcCounter v = htlcCounter u \<and> ul_next v = ul_next u \<and>
     updateIndex v = updateIndex u \<and> htlcIndex v = htlcIndex u \<and> modifiedHtlcs v = modifiedHtlcs u \<and>
     strip f (ul_List v) = strip f (ul_List u)"

lemma alike_refl [simp]: "alike f u u"
  by (simp add: alike_def)

lemma alike_trans: "alike f u v \<Longrightarrow> alike f v w \<Longrightarrow> alike f u w"
  by (simp add: alike_def)

lemma alike_sym: "alike f u v \<Longrightarrow> alike f v u"
  by (simp add: alike_def)

lemma alike_fields:
  assumes "alike f u v"
  shows "logIndex v = logIndex u" "htlcCounter v = htlcCounter u" "ul_next v = ul_next u"
    "updateIndex v = updateIndex u" "htlcIndex v = htlcIndex u" "modifiedHtlcs v = modifiedHtlcs u"
    "strip f (ul_List v) = strip f (ul_List u)"
  using assms by (simp_all add: alike_def)

lemmas alike_mem = strip_mem [OF alike_fields(7)]

lemma alike_ex:
  assumes a: "alike f u v" and P: "\<And>p q. f p = f q \<Longrightarrow> P p = P q"
  shows "(\<exists>q. (k, q) \<in> set (ul_List v) \<and> P q) \<longleftrightarrow> (\<exists>p. (k, p) \<in> set (ul_List u) \<and> P p)"
  by (rule iffI; elim exE conjE; rule alike_mem [OF a] alike_mem [OF alike_sym [OF a]]; use P in blast)

lemma alike_fst: "alike f u v \<Longrightarrow> map fst (ul_List v) = map fst (ul_List u)"
  by (metis alike_fields(7) strip_simps(3))

lemma alike_lookup:
  assumes "alike f u v"
  shows "map_option f (lookupHtlc v i) = map_option f (lookupHtlc u i)"
  using alike_fields(5,7) [OF assms] by (auto simp: lookupHtlc_def simp flip: map_of_strip split: option.split)

lemma alike_unscripted: "alike unscripted u v \<Longrightarrow> alike unannotated u v"
  using strip_strip [of unannotated unscripted "ul_List v"] strip_strip [of unannotated unscripted "ul_List u"]
  by (simp add: alike_def)

lemma unannotatedD:
  assumes "unannotated q = unannotated p"
  shows "EntryType q = EntryType p" "pd_LogIndex q = pd_LogIndex p" "pd_HtlcIndex q = pd_HtlcIndex p"
    "pd_ParentIndex q = pd_ParentIndex p" "pd_BtcAmount q = pd_BtcAmount p" "pd_AssetAmount q = pd_AssetAmount p"
    "addHeight rc q = addHeight rc p" "removeHeight rc q = removeHeight rc p" "isRemove q = isRemove p"
  using assms unannotated_sel by metis+

lemma unscriptedD:
  assumes "unscripted q = unscripted p"
  shows "EntryType q = EntryType p" "pd_LogIndex q = pd_LogIndex p" "isForwarded q = isForwarded p"
    "addHeight rc q = addHeight rc p" "removeHeight rc q = removeHeight rc p"
  using assms unscripted_sel by metis+

lemma log_inv_alike:
  assumes inv: "log_inv u" and a: "alike unannotated u v"
  shows "log_inv v"
proof -
  note D = log_invD [OF inv] and F = alike_fields [OF a]
  have bounds: "fst e < ul_next u \<and> pd_LogIndex (snd e) < logIndex u \<and>
      (EntryType (snd e) = Add \<longrightarrow> pd_HtlcIndex (snd e) < htlcCounter u)" if "e \<in> set (ul_List v)" for e
  proof -
    have "(fst e, snd e) \<in> set (ul_List v)" using that by simp
    then obtain p where p: "(fst e, p) \<in> set (ul_List u)" "unannotated (snd e) = unannotated p"
      by (rule alike_mem [OF a])
    show ?thesis using D(2,5,6) [OF p(1)] unannotatedD [OF p(2)] by simp
  qed
  have up: "(\<exists>q. (k, q) \<in> set (ul_List v) \<and> EntryType q \<noteq> Add \<and> pd_LogIndex q = i) \<longleftrightarrow>
      (\<exists>q. (k, q) \<in> set (ul_List u) \<and> EntryType q \<noteq> Add \<and> pd_LogIndex q = i)"
    "(\<exists>q. (k, q) \<in> set (ul_List v) \<and> EntryType q = Add \<and> pd_HtlcIndex q = i) \<longleftrightarrow>
      (\<exists>q. (k, q) \<in> set (ul_List u) \<and> EntryType q = Add \<and> pd_HtlcIndex q = i)" for i k
    by (rule alike_ex [OF a], frule unannotatedD(1), drule unannotatedD(2), simp)
      (rule alike_ex [OF a], frule unannotatedD(1), drule unannotatedD(3), simp)
  show ?thesis
    unfolding log_inv_def F(1-6)
  proof (intro conjI)
    show "distinct (map fst (ul_List v))" using D(1) alike_fst [OF a] by simp
    show "\<forall>i k. updateIndex u i = Some k \<longleftrightarrow> (\<exists>q. (k, q) \<in> set (ul_List v) \<and> EntryType q \<noteq> Add \<and> pd_LogIndex q = i)"
      unfolding up(1) by (simp add: D(3))
    show "\<forall>i k. htlcIndex u i = Some k \<longleftrightarrow> (\<exists>q. (k, q) \<in> set (ul_List v) \<and> EntryType q = Add \<and> pd_HtlcIndex q = i)"
      unfolding up(2) by (simp add: D(4))
    show "modifiedHtlcs u \<subseteq> dom (htlcIndex u)" by (rule D(7))
  qed (use bounds in blast)+
qed

lemma parentsOf_strip: "parentsOf (strip unannotated es) = parentsOf es"
  by (induction es) auto

lemma removes_ok_alike:
  assumes ok: "removes_ok A B" and A: "alike unannotated A A'" and B: "alike unannotated B B'"
  shows "removes_ok A' B'"
proof (rule removes_okI)
  fix k p assume p: "(k, p) \<in> set (ul_List A')" "isRemove p"
  obtain p0 where p0: "(k, p0) \<in> set (ul_List A)" "unannotated p = unannotated p0"
    by (rule alike_mem [OF A p(1)])
  note D = unannotatedD [OF p0(2)]
  obtain q0 where q0: "lookupHtlc B (pd_ParentIndex p0) = Some q0" "pd_BtcAmount q0 = pd_BtcAmount p0"
    "pd_AssetAmount q0 = pd_AssetAmount p0" "\<forall>rc. removeHeight rc p0 \<noteq> 0 \<longrightarrow> addHeight rc q0 \<noteq> 0"
    using removes_okD(1) [OF ok p0(1)] p(2) D(9) by blast
  obtain q where q: "lookupHtlc B' (pd_ParentIndex p0) = Some q" "unannotated q = unannotated q0"
    using alike_lookup [OF B, of "pd_ParentIndex p0"] q0(1) by auto
  show "\<exists>q. lookupHtlc B' (pd_ParentIndex p) = Some q \<and> pd_BtcAmount q = pd_BtcAmount p \<and>
      pd_AssetAmount q = pd_AssetAmount p \<and> (\<forall>rc. removeHeight rc p \<noteq> 0 \<longrightarrow> addHeight rc q \<noteq> 0)"
    using q0 q(1) D unannotatedD [OF q(2)] by simp
next
  fix k p k' p'
  assume p: "(k, p) \<in> set (ul_List A')" "(k', p') \<in> set (ul_List A')" "isRemove p" "isRemove p'"
    "pd_ParentIndex p = pd_ParentIndex p'"
  obtain p0 where p0: "(k, p0) \<in> set (ul_List A)" "unannotated p = unannotated p0"
    by (rule alike_mem [OF A p(1)])
  obtain p0' where p0': "(k', p0') \<in> set (ul_List A)" "unannotated p' = unannotated p0'"
    by (rule alike_mem [OF A p(2)])
  show "k = k'"
    using removes_okD(2) [OF ok p0(1) p0'(1)] p(3-5) unannotatedD(4,9) [OF p0(2)] unannotatedD(4,9) [OF p0'(2)]
    by simp
next
  show "modifiedHtlcs B' = parentsOf (ul_List A')"
    using removes_okD(3) [OF ok] alike_fields [OF B] parentsOf_strip [of "ul_List A'"] parentsOf_strip [of "ul_List A"]
      alike_fields(7) [OF A] by simp
qed

lemma chan_inv_alike:
  assumes "chan_inv lc" "alike unannotated (localUpdateLog lc) (localUpdateLog lc')"
    "alike unannotated (remoteUpdateLog lc) (remoteUpdateLog lc')"
  shows "chan_inv lc'"
  using assms log_inv_alike removes_ok_alike unfolding chan_inv_def by blast

subsection \<open>Writing scripts\<close>

lemma alike_setElem:
  assumes "\<And>p. (k, p) \<in> set (ul_List u) \<Longrightarrow> f p = f pd"
  shows "alike f u (setElem k pd u)"
  using assms by (auto simp: alike_def setElem_def strip_def)

lemma alike_fold_setElem:
  assumes "\<And>k pd p. (k, pd) \<in> set vs \<Longrightarrow> (k, p) \<in> set (ul_List u) \<Longrightarrow> f p = f pd"
  shows "alike f u (fold (\<lambda>(k, pd). setElem k pd) vs u)"
  using assms
proof (induction vs arbitrary: u)
  case (Cons v vs)
  obtain k pd where v: "v = (k, pd)" by (cases v)
  have one: "alike f u (setElem k pd u)" by (rule alike_setElem) (rule Cons.prems, simp_all add: v)
  have "alike f (setElem k pd u) (fold (\<lambda>(k, pd). setElem k pd) vs (setElem k pd u))"
  proof (rule Cons.IH)
    fix j qd q assume q: "(j, qd) \<in> set vs" "(j, q) \<in> set (ul_List (setElem k pd u))"
    obtain p where p: "(j, p) \<in> set (ul_List u)" "f q = f p" by (rule alike_mem [OF one q(2)])
    have "f p = f qd" by (rule Cons.prems [OF _ p(1)]) (simp add: q(1))
    then show "f q = f qd" using p(2) by simp
  qed
  then show ?case using alike_trans [OF one] by (simp add: v)
qed simp

lemma addHTLC_unscripted:
  "addHTLC x ours inc pd kr t b = Some (pd', b') \<Longrightarrow> unscripted pd' = unscripted pd"
  by (cases b) (auto simp: addHTLC_def unscripted_def split: option.splits)

lemma addHTLCs_unscripted:
  "strip unscripted (fst (addHTLCs x ours inc kr t isDust es b cltvs)) = strip unscripted es"
proof (induction es arbitrary: b cltvs)
  case (Cons e es)
  then show ?case
    by (cases "isDust (snd e)"; cases "addHTLC x ours inc (snd e) kr t b")
      (auto simp: case_prod_unfold Let_def addHTLC_unscripted)
qed simp


lemma addHTLCs_result_unscripted:
  "addHTLCs x ours inc kr t isDust es b cltvs = (es', r) \<Longrightarrow> strip unscripted es' = strip unscripted es"
  using addHTLCs_unscripted [of x ours inc kr t isDust es b cltvs] by simp

subsection \<open>What stays the same\<close>

text \<open>The fields that the evaluation of a view leaves alone.\<close>

definition chain_frame :: "LightningChannel \<Rightarrow> LightningChannel \<Rightarrow> bool" where
  "chain_frame lc lc' \<longleftrightarrow> localCommitChain lc' = localCommitChain lc \<and> remoteCommitChain lc' = remoteCommitChain lc \<and>
     currentHeight lc' = currentHeight lc"

lemma chain_frame_refl [simp]: "chain_frame lc lc"
  by (simp add: chain_frame_def)

lemma chain_frame_trans: "chain_frame a b \<Longrightarrow> chain_frame b c \<Longrightarrow> chain_frame a c"
  by (simp add: chain_frame_def)

lemma chain_frame_write [simp]: "chain_frame lc (writeEntry mut ours k p lc)"
  by (simp add: chain_frame_def writeEntry_def)

lemma chain_frame_state [simp]:
  "chain_frame lc (writeEntry mut ours k p (lc\<lparr>channelState := st\<rparr>))" "chain_frame lc (lc\<lparr>channelState := st\<rparr>)"
  by (simp_all add: chain_frame_def writeEntry_def)

lemma evalRemove_frame: "chain_frame (es_lc s) (es_lc (fst (evalRemove ours h rc mut e s)))"
  by (cases e; cases "EntryType (snd e)") (auto simp: evalRemove_def Let_def split: sum.splits prod.splits)

lemma evalRemoves_frame: "chain_frame (es_lc s) (es_lc (fst (evalRemoves ours h rc mut es s)))"
proof (induction es arbitrary: s)
  case (Cons e es)
  have one: "chain_frame (es_lc s) (es_lc (fst (evalRemove ours h rc mut e s)))" by (rule evalRemove_frame)
  show ?case
    using one chain_frame_trans [OF one] Cons.IH by (auto split: prod.splits option.splits)
qed simp

lemma fold_evalAdd_frame: "chain_frame (es_lc s) (es_lc (fold (evalAdd ours h rc mut) es s))"
proof (induction es arbitrary: s)
  case (Cons e es)
  have one: "chain_frame (es_lc s) (es_lc (evalAdd ours h rc mut e s))"
    by (cases e) (simp add: evalAdd_eq)
  show ?case using chain_frame_trans [OF one Cons.IH] by simp
qed simp

lemma evaluate_frame:
  assumes "evaluateHTLCView lc view b h rc mut = (lc', Inr (v', b'))"
  shows "chain_frame lc lc'"
proof -
  obtain s1 s2 s4 where s: "evalRemoves True h rc mut (v_ourUpdates view) (evalInit lc view b) = (s1, None)"
    "evalRemoves False h rc mut (v_theirUpdates view) s1 = (s2, None)"
    "s4 = fold (evalAdd False h rc mut) (v_theirUpdates view) (fold (evalAdd True h rc mut) (v_ourUpdates view) s2)"
    "lc' = es_lc s4"
    using assms by (rule evaluate_InrE)
  have "chain_frame lc (es_lc s1)" "chain_frame (es_lc s1) (es_lc s2)"
    using evalRemoves_frame [of "evalInit lc view b" True h rc mut "v_ourUpdates view"]
      evalRemoves_frame [of s1 False h rc mut "v_theirUpdates view"] s(1,2) by simp_all
  moreover have "chain_frame (es_lc s2) lc'"
    unfolding s(3,4) by (rule chain_frame_trans [OF fold_evalAdd_frame fold_evalAdd_frame])
  ultimately show ?thesis using chain_frame_trans by blast
qed

lemma chain_frame_writeView [simp]: "chain_frame lc (writeView v lc)"
  by (simp add: chain_frame_def writeView_def)

subsection \<open>A new commitment marks what it includes\<close>

text \<open>The marks of a commitment at height \<open>h\<close> on the entries below a message index.\<close>

definition markBelow :: "bool \<Rightarrow> u64 \<Rightarrow> u64 \<Rightarrow> PaymentDescriptor \<Rightarrow> PaymentDescriptor" where
  "markBelow rc h i p = (if pd_LogIndex p < i then markCommitted rc h p else p)"

lemma logmap_below:
  assumes "log_inv u" and es: "es = filter (\<lambda>e. pd_LogIndex (snd e) < i) (ul_List u)"
  shows "logmap (markCommitted rc h) (fst ` set es) u = u\<lparr>ul_List := strip (markBelow rc h i) (ul_List u)\<rparr>"
proof -
  have "fst e \<in> fst ` set es \<longleftrightarrow> pd_LogIndex (snd e) < i" if "e \<in> set (ul_List u)" for e
  proof -
    have "x = e" if "x \<in> set (ul_List u)" "fst x = fst e" for x
      using elem_unique [OF assms(1), of "fst e" "snd x" "snd e"] that \<open>e \<in> set (ul_List u)\<close>
      by (metis prod.collapse)
    then show ?thesis using that by (force simp: es)
  qed
  then show ?thesis by (auto simp: logmap_def strip_def markBelow_def intro!: updateLog.fold_congs)
qed

lemma view_entries_logged:
  assumes u: "log_inv u" "set es \<subseteq> set (ul_List u)"
    and u': "u' = logmap (markCommitted rc h) (fst ` set es) u"
    and v: "vs = map (map_prod id (markAdded True rc h)) (filter (active skip \<circ> snd) es)"
    and "strip unscripted ws = strip unscripted vs"
  shows "alike unscripted u' (fold (\<lambda>(k, pd). setElem k pd) ws u')"
proof (rule alike_fold_setElem)
  fix k pd p assume pd: "(k, pd) \<in> set ws" and p: "(k, p) \<in> set (ul_List u')"
  obtain q where q: "(k, q) \<in> set vs" "unscripted pd = unscripted q" by (rule strip_mem [OF assms(5) pd])
  then obtain q0 where q0: "(k, q0) \<in> set es" "q = markAdded True rc h q0" "EntryType q0 = Add"
    by (auto simp: v active_def)
  have "k \<in> fst ` set es" using q0(1) by force
  then have "p = markCommitted rc h q0"
    using p q0(1) elem_unique [OF u(1), of k _ q0] u(2) by (auto simp: u' mem_logmap)
  then show "unscripted p = unscripted pd" using q0 q(2) by (simp add: markCommitted_def)
qed

lemma createUnsigned_unscripted:
  assumes "createUnsignedCommitmentTx x sanity st b isOurs fee h view kr = (view', Inr tx)"
  shows "strip unscripted (v_ourUpdates view') = strip unscripted (v_ourUpdates view)"
    "strip unscripted (v_theirUpdates view') = strip unscripted (v_theirUpdates view)"
  using assms unfolding createUnsignedCommitmentTx_def Let_def
  by (auto split: sum.splits prod.splits dest!: addHTLCs_result_unscripted)

lemma fetchCommitmentView_InrE:
  assumes "fetchCommitmentView x ev lc rc oi oh ti th kr = (lc', Inr c)"
  obtains tip lc1 b view view' tx where
    "chain_tip (if rc then remoteCommitChain lc else localCommitChain lc) = Some tip"
    "evaluateHTLCView lc ((fetchHTLCView lc ti oi)\<lparr>v_feePerKw := c_feePerKw tip\<rparr>) (tipBalances lc tip)
       (c_height tip + 1) rc True = (lc1, Inr (view, b))"
    "createUnsignedCommitmentTx x (ev_sanity ev) (channelState lc1) b (\<not> rc) (v_feePerKw view) (c_height tip + 1) view kr =
       (view', Inr tx)"
    "lc' = writeView view' lc1"
    "populateHtlcIndexes (newCommitment lc1 rc (c_height tip + 1) oi oh ti th (v_feePerKw view) view' tx) (ut_cltvs tx) = Inr c"
  using assms unfolding fetchCommitmentView_def computeView_def Let_def
  by (auto split: option.splits sum.splits prod.splits if_splits)

lemma populateHtlcIndexes_fields:
  assumes "populateHtlcIndexes c0 cltvs = Inr c"
  shows "c_height c = c_height c0" "c_ourMessageIndex c = c_ourMessageIndex c0"
    "c_theirMessageIndex c = c_theirMessageIndex c0" "c_isOurs c = c_isOurs c0"
  using assms by (auto simp: populateHtlcIndexes_def split: sum.splits prod.splits)

lemma fetchCommitmentView_effect:
  assumes inv: "chan_inv lc" and f: "fetchCommitmentView x ev lc rc oi oh ti th kr = (lc', Inr c)"
    and tip: "chain_tip (if rc then remoteCommitChain lc else localCommitChain lc) = Some tip"
  shows "chan_inv lc'" "chain_frame lc lc'"
    "alike unscripted ((localUpdateLog lc)\<lparr>ul_List := strip (markBelow rc (c_height tip + 1) oi) (ul_List (localUpdateLog lc))\<rparr>)
       (localUpdateLog lc')"
    "alike unscripted ((remoteUpdateLog lc)\<lparr>ul_List := strip (markBelow rc (c_height tip + 1) ti) (ul_List (remoteUpdateLog lc))\<rparr>)
       (remoteUpdateLog lc')"
    "c_height c = c_height tip + 1" "c_ourMessageIndex c = oi" "c_theirMessageIndex c = ti"
proof -
  obtain tip' lc1 b view view' tx where
    "chain_tip (if rc then remoteCommitChain lc else localCommitChain lc) = Some tip'" and
    ev0: "evaluateHTLCView lc ((fetchHTLCView lc ti oi)\<lparr>v_feePerKw := c_feePerKw tip'\<rparr>) (tipBalances lc tip')
       (c_height tip' + 1) rc True = (lc1, Inr (view, b))" and
    cr0: "createUnsignedCommitmentTx x (ev_sanity ev) (channelState lc1) b (\<not> rc) (v_feePerKw view) (c_height tip' + 1) view kr =
       (view', Inr tx)" and
    lc': "lc' = writeView view' lc1" and
    pop0: "populateHtlcIndexes (newCommitment lc1 rc (c_height tip' + 1) oi oh ti th (v_feePerKw view) view' tx) (ut_cltvs tx) = Inr c"
    by (rule fetchCommitmentView_InrE [OF f])
  then have "tip' = tip" using tip by simp
  note ev = ev0 [unfolded this] and cr = cr0 [unfolded this] and pop = pop0 [unfolded this]
  define v0 where "v0 = (fetchHTLCView lc ti oi)\<lparr>v_feePerKw := c_feePerKw tip\<rparr>"
  have L: "log_inv (localUpdateLog lc)" and R: "log_inv (remoteUpdateLog lc)" using inv by (simp_all add: chan_inv_def)
  have view_of: "view_of lc v0" unfolding v0_def by (rule view_of_fetch_fee [OF inv])
  note logs = evaluate_logs [OF L R view_of ev [folded v0_def]]
    and spec = evaluate_spec [OF L R view_of ev [folded v0_def]]
  have sub: "set (v_ourUpdates v0) \<subseteq> set (ul_List (localUpdateLog lc))"
    "set (v_theirUpdates v0) \<subseteq> set (ul_List (remoteUpdateLog lc))"
    using view_of by (simp_all add: view_of_def)
  have wr: "localUpdateLog lc' = fold (\<lambda>(k, pd). setElem k pd) (v_ourUpdates view') (localUpdateLog lc1)"
    "remoteUpdateLog lc' = fold (\<lambda>(k, pd). setElem k pd) (v_theirUpdates view') (remoteUpdateLog lc1)"
    by (simp_all add: lc' writeView_def)
  have our: "alike unscripted (localUpdateLog lc1) (localUpdateLog lc')"
    unfolding wr by (rule view_entries_logged [OF L sub(1) logs(1) spec(1) createUnsigned_unscripted(1) [OF cr]])
  have their: "alike unscripted (remoteUpdateLog lc1) (remoteUpdateLog lc')"
    unfolding wr by (rule view_entries_logged [OF R sub(2) logs(2) spec(2) createUnsigned_unscripted(2) [OF cr]])
  have "chan_inv lc1" by (rule chan_inv_evaluate [OF inv view_of ev [folded v0_def]])
  then show "chan_inv lc'" by (rule chan_inv_alike) (rule alike_unscripted [OF our], rule alike_unscripted [OF their])
  show "chain_frame lc lc'"
    unfolding lc' by (rule chain_frame_trans [OF evaluate_frame [OF ev] chain_frame_writeView])
  have below: "v_ourUpdates v0 = filter (\<lambda>e. pd_LogIndex (snd e) < oi) (ul_List (localUpdateLog lc))"
    "v_theirUpdates v0 = filter (\<lambda>e. pd_LogIndex (snd e) < ti) (ul_List (remoteUpdateLog lc))"
    by (simp_all add: v0_def fetchHTLCView_def)
  show "alike unscripted ((localUpdateLog lc)\<lparr>ul_List := strip (markBelow rc (c_height tip + 1) oi) (ul_List (localUpdateLog lc))\<rparr>)
       (localUpdateLog lc')"
    using our unfolding logs logmap_below [OF L below(1)] .
  show "alike unscripted ((remoteUpdateLog lc)\<lparr>ul_List := strip (markBelow rc (c_height tip + 1) ti) (ul_List (remoteUpdateLog lc))\<rparr>)
       (remoteUpdateLog lc')"
    using their unfolding logs logmap_below [OF R below(2)] .
  show "c_height c = c_height tip + 1" "c_ourMessageIndex c = oi" "c_theirMessageIndex c = ti"
    using populateHtlcIndexes_fields [OF pop] by (simp_all add: newCommitment_def)
qed

end
