(* ===== verification/Lnwallet_Forward.thy ===== *)
theory Lnwallet_Forward
  imports Lnwallet_Annotate
begin

text \<open>
  The channel with its database as a state machine, and its invariant: what is on disk is what is
  in memory, and an update of the other party is handed on exactly once, at the revocation that
  locks it in.
\<close>

subsection \<open>Steps\<close>

text \<open>The operations of a channel that only append to its logs.\<close>

inductive log_step :: "(bytes \<Rightarrow> bytes) \<Rightarrow> LightningChannel \<Rightarrow> LightningChannel \<Rightarrow> bool" for sha256 where
  log_add: "AddHTLC lc htlc openKey = Inr (i, lc') \<Longrightarrow> has_room (localUpdateLog lc) \<Longrightarrow> log_step sha256 lc lc'"
| log_receive: "ReceiveHTLC lc htlc = Inr (i, lc') \<Longrightarrow> has_room (remoteUpdateLog lc) \<Longrightarrow> log_step sha256 lc lc'"
| log_settle: "SettleHTLC sha256 lc preimage i sourceRef destRef closeKey = Inr lc' \<Longrightarrow>
    has_room (localUpdateLog lc) \<Longrightarrow> log_step sha256 lc lc'"
| log_receive_settle: "ReceiveHTLCSettle sha256 lc preimage i = Inr lc' \<Longrightarrow>
    has_room (remoteUpdateLog lc) \<Longrightarrow> log_step sha256 lc lc'"
| log_fail: "FailHTLC lc i reason sourceRef destRef closeKey = Inr lc' \<Longrightarrow>
    has_room (localUpdateLog lc) \<Longrightarrow> log_step sha256 lc lc'"
| log_malformed: "MalformedFailHTLC lc i failCode shaOnionBlob sourceRef = Inr lc' \<Longrightarrow>
    has_room (localUpdateLog lc) \<Longrightarrow> log_step sha256 lc lc'"
| log_receive_fail: "ReceiveFailHTLC lc i reason = Inr lc' \<Longrightarrow>
    has_room (remoteUpdateLog lc) \<Longrightarrow> log_step sha256 lc lc'"
| log_fee: "UpdateFeeOp lc feePerKw = Inr lc' \<Longrightarrow> has_room (localUpdateLog lc) \<Longrightarrow> log_step sha256 lc lc'"
| log_receive_fee: "ReceiveUpdateFee lc feePerKw = Inr lc' \<Longrightarrow> has_room (remoteUpdateLog lc) \<Longrightarrow> log_step sha256 lc lc'"

text \<open>A channel that has just been opened, and its database.\<close>

definition dance_init :: "LightningChannel \<Rightarrow> ChanDb \<Rightarrow> bool" where
  "dance_init lc db \<longleftrightarrow> fresh_channel lc \<and>
     (\<exists>l r. localCommitChain lc = [l] \<and> remoteCommitChain lc = [r] \<and> c_height l = 0 \<and> c_height r = 0 \<and>
        c_theirMessageIndex l \<le> logIndex (remoteUpdateLog lc) \<and>
        om_LocalCommitment db = toDiskCommit l True \<and> dk_LocalCommitment db = toDiskCommit l True \<and>
        om_RemoteCommitment db = toDiskCommit r False \<and> dk_RemoteCommitment db = toDiskCommit r False) \<and>
     dk_commitDiff db = None \<and> dk_revocationLog db = []"

definition heights_left :: "LightningChannel \<Rightarrow> bool" where
  "heights_left lc \<longleftrightarrow> (\<forall>c \<in> set (localCommitChain lc) \<union> set (remoteCommitChain lc). c_height c \<noteq> - 1)"

text \<open>
  The states that successful operations reach.  The last two arguments record what happened: the
  commitments of the other party that have been revoked, and the log indexes of its updates that
  have been handed on.
\<close>

inductive dance :: "(bytes \<Rightarrow> bytes) \<Rightarrow> 'z crypto_scheme \<Rightarrow> LightningChannel \<Rightarrow> ChanDb \<Rightarrow> commitment list \<Rightarrow> u64 list \<Rightarrow> bool"
  for sha256 x where
  dance_start: "dance_init lc db \<Longrightarrow> dance sha256 x lc db [] []"
| dance_log: "dance sha256 x lc db rs fs \<Longrightarrow> log_step sha256 lc lc' \<Longrightarrow> dance sha256 x lc' db rs fs"
| dance_sign: "dance sha256 x lc db rs fs \<Longrightarrow> heights_left lc \<Longrightarrow>
    SignNextCommitment x ev lc db = (lc', db', Inr res) \<Longrightarrow> dance sha256 x lc' db' rs fs"
| dance_receive: "dance sha256 x lc db rs fs \<Longrightarrow> heights_left lc \<Longrightarrow>
    ReceiveNewCommitment x ev lc commitSig htlcSigs = (lc', None) \<Longrightarrow> dance sha256 x lc' db rs fs"
| dance_revoke: "dance sha256 x lc db rs fs \<Longrightarrow>
    RevokeCurrentCommitment x ev lc db = (lc', db', Inr res) \<Longrightarrow> dance sha256 x lc' db' rs fs"
| dance_revocation: "dance sha256 x lc db rs fs \<Longrightarrow>
    ReceiveRevocation x ev lc db revMsg = (lc', db', Inr (pkg, as, sfs, htlcs)) \<Longrightarrow>
    dance sha256 x lc' db' (rs @ [hd (remoteCommitChain lc)]) (fs @ map pd_LogIndex (as @ sfs))"

subsection \<open>The invariant\<close>

text \<open>The height at which a commitment chain took in an entry; zero if it has not.\<close>

definition lockHeight :: "bool \<Rightarrow> PaymentDescriptor \<Rightarrow> u64" where
  "lockHeight rc pd = (if isRemove pd then removeHeight rc pd else addHeight rc pd)"

definition entry_ok :: "commitmentChain \<Rightarrow> commitmentChain \<Rightarrow> PaymentDescriptor \<Rightarrow> bool" where
  "entry_ok lchain rchain pd \<longleftrightarrow>
     (lockHeight True pd \<noteq> 0 \<longrightarrow> pd_LogIndex pd < c_theirMessageIndex (hd lchain)) \<and>
     (\<forall>c \<in> set lchain. pd_LogIndex pd < c_theirMessageIndex c \<longrightarrow>
        lockHeight False pd \<noteq> 0 \<and> lockHeight False pd \<le> c_height c) \<and>
     lockHeight False pd \<le> c_height (last lchain) \<and>
     lockHeight True pd \<le> c_height (last rchain) \<and>
     (isForwarded pd \<longleftrightarrow> EntryType pd \<noteq> FeeUpdate \<and> lockHeight True pd \<noteq> 0 \<and> lockHeight True pd \<le> c_height (hd rchain))"

definition chains_ok :: "commitmentChain \<Rightarrow> commitmentChain \<Rightarrow> u64 \<Rightarrow> bool" where
  "chains_ok lchain rchain i \<longleftrightarrow> lchain \<noteq> [] \<and> sorted (map c_theirMessageIndex lchain) \<and>
     (\<forall>c \<in> set lchain. c_theirMessageIndex c \<le> i) \<and>
     (\<exists>c. rchain = [c] \<or> (\<exists>d. rchain = [c, d] \<and> c_height d = c_height c + 1 \<and> c_height c \<noteq> - 1))"

definition disk_ok :: "commitmentChain \<Rightarrow> commitmentChain \<Rightarrow> commitment list \<Rightarrow> ChanDb \<Rightarrow> bool" where
  "disk_ok lchain rchain rs db \<longleftrightarrow>
     om_LocalCommitment db = toDiskCommit (hd lchain) True \<and> dk_LocalCommitment db = toDiskCommit (hd lchain) True \<and>
     om_RemoteCommitment db = toDiskCommit (hd rchain) False \<and> dk_RemoteCommitment db = toDiskCommit (hd rchain) False \<and>
     map_option cd_Commitment (dk_commitDiff db) =
       (case tl rchain of [] \<Rightarrow> None | d # _ \<Rightarrow> Some (toDiskCommit d False)) \<and>
     dk_revocationLog db = map (\<lambda>c. (c_height c, toDiskCommit c False)) rs \<and>
     map (unat \<circ> c_height) (rs @ [hd rchain]) = [0..<Suc (length rs)]"

text \<open>The updates that were handed on: each once, and those still in the log are flagged.\<close>

definition fwd_ok :: "updateLog \<Rightarrow> u64 list \<Rightarrow> bool" where
  "fwd_ok u fs \<longleftrightarrow> distinct fs \<and> (\<forall>i \<in> set fs. i < logIndex u) \<and>
     (\<forall>(k, p) \<in> set (ul_List u). (pd_LogIndex p \<in> set fs \<longleftrightarrow> isForwarded p) \<and>
        (\<forall>(k', p') \<in> set (ul_List u). pd_LogIndex p = pd_LogIndex p' \<longrightarrow> k = k'))"

definition dance_inv :: "LightningChannel \<Rightarrow> ChanDb \<Rightarrow> commitment list \<Rightarrow> bool" where
  "dance_inv lc db rs \<longleftrightarrow> chan_inv lc \<and>
     chains_ok (localCommitChain lc) (remoteCommitChain lc) (logIndex (remoteUpdateLog lc)) \<and>
     (\<forall>(k, pd) \<in> set (ul_List (remoteUpdateLog lc)). entry_ok (localCommitChain lc) (remoteCommitChain lc) pd) \<and>
     disk_ok (localCommitChain lc) (remoteCommitChain lc) rs db"

lemma dance_invD:
  assumes "dance_inv lc db rs"
  shows "chan_inv lc" "chains_ok (localCommitChain lc) (remoteCommitChain lc) (logIndex (remoteUpdateLog lc))"
    "\<And>k pd. (k, pd) \<in> set (ul_List (remoteUpdateLog lc)) \<Longrightarrow> entry_ok (localCommitChain lc) (remoteCommitChain lc) pd"
    "disk_ok (localCommitChain lc) (remoteCommitChain lc) rs db"
  using assms by (auto simp: dance_inv_def)

lemma dance_invI:
  assumes "chan_inv lc" "chains_ok (localCommitChain lc) (remoteCommitChain lc) (logIndex (remoteUpdateLog lc))"
    "\<And>k pd. (k, pd) \<in> set (ul_List (remoteUpdateLog lc)) \<Longrightarrow> entry_ok (localCommitChain lc) (remoteCommitChain lc) pd"
    "disk_ok (localCommitChain lc) (remoteCommitChain lc) rs db"
  shows "dance_inv lc db rs"
  using assms by (auto simp: dance_inv_def)

lemma dance_inv_init: "dance_init lc db \<Longrightarrow> dance_inv lc db []"
  by (intro dance_invI)
    (auto simp: dance_init_def chan_inv_fresh chains_ok_def disk_ok_def fresh_channel_def,
     metis (no_types) newUpdateLog_def updateLog.select_convs(3) list.set(1) empty_iff)

subsection \<open>Log operations\<close>

lemma log_step_chan: "log_step sha256 lc lc' \<Longrightarrow> chan_step sha256 lc lc'"
  by (cases rule: log_step.cases) (auto intro: chan_step.intros)

definition fresh_entry :: "u64 \<Rightarrow> PaymentDescriptor \<Rightarrow> bool" where
  "fresh_entry i pd \<longleftrightarrow> pd_LogIndex pd = i \<and> lockHeight True pd = 0 \<and> lockHeight False pd = 0 \<and> \<not> isForwarded pd"

definition extends :: "updateLog \<Rightarrow> updateLog \<Rightarrow> bool" where
  "extends u v \<longleftrightarrow> ul_List v = ul_List u \<and> logIndex v = logIndex u \<or>
     (\<exists>k pd. ul_List v = ul_List u @ [(k, pd)] \<and> logIndex v = logIndex u + 1 \<and> logIndex u \<noteq> - 1 \<and>
        fresh_entry (logIndex u) pd)"

lemma extends_simps:
  "extends u u" "extends u (markHtlcModified i u)"
  "fresh_entry (logIndex u) pd \<Longrightarrow> has_room u \<Longrightarrow> extends u (appendHtlc pd u)"
  "fresh_entry (logIndex u) pd \<Longrightarrow> has_room u \<Longrightarrow> extends u (appendUpdate pd u)"
  by (auto simp: extends_def markHtlcModified_def appendHtlc_def appendUpdate_def pushBack_def has_room_def)

lemma log_step_effect:
  assumes "log_step sha256 lc lc'"
  shows "chain_frame lc lc' \<and> extends (remoteUpdateLog lc) (remoteUpdateLog lc')"
  using assms
  by cases
    (auto simp: AddHTLC_def ReceiveHTLC_def SettleHTLC_def ReceiveHTLCSettle_def FailHTLC_def MalformedFailHTLC_def
      ReceiveFailHTLC_def UpdateFeeOp_def ReceiveUpdateFee_def SetAmtFromMsgHtlc_def chain_frame_def Let_def
      fresh_entry_def lockHeight_def isRemove_def removeHeight_def addHeight_def pd_zero_def
      intro!: extends_simps split: option.splits if_splits)

lemma dance_inv_log:
  assumes inv: "dance_inv lc db rs" and step: "log_step sha256 lc lc'"
  shows "dance_inv lc' db rs"
proof -
  note D = dance_invD [OF inv]
  have f: "localCommitChain lc' = localCommitChain lc" "remoteCommitChain lc' = remoteCommitChain lc"
    and ext: "extends (remoteUpdateLog lc) (remoteUpdateLog lc')"
    using log_step_effect [OF step] by (simp_all add: chain_frame_def)
  have up: "logIndex (remoteUpdateLog lc) \<le> logIndex (remoteUpdateLog lc')"
    using ext word_less_Suc [of "logIndex (remoteUpdateLog lc)"] by (auto simp: extends_def intro: less_imp_le)
  show ?thesis
  proof (rule dance_invI)
    show "chan_inv lc'" by (rule chan_inv_step [OF log_step_chan [OF step] D(1)])
    show "chains_ok (localCommitChain lc') (remoteCommitChain lc') (logIndex (remoteUpdateLog lc'))"
      using D(2) up unfolding f chains_ok_def by (meson order_trans)
    show "disk_ok (localCommitChain lc') (remoteCommitChain lc') rs db" using D(4) by (simp add: f)
  next
    fix k pd assume "(k, pd) \<in> set (ul_List (remoteUpdateLog lc'))"
    then consider "(k, pd) \<in> set (ul_List (remoteUpdateLog lc))" | "fresh_entry (logIndex (remoteUpdateLog lc)) pd"
      using ext by (auto simp: extends_def)
    then show "entry_ok (localCommitChain lc') (remoteCommitChain lc') pd"
    proof cases
      case 2
      then show ?thesis using D(2) by (auto simp: f entry_ok_def fresh_entry_def chains_ok_def not_less)
    qed (simp add: f D(3))
  qed
qed

subsection \<open>New commitments\<close>

lemma lockHeight_mark:
  "lockHeight rc' (markBelow rc h i p) =
     (if rc' = rc \<and> pd_LogIndex p < i \<and> lockHeight rc p = 0 then h else lockHeight rc' p)"
  by (cases "EntryType p")
    (simp_all add: lockHeight_def markBelow_def markCommitted_heights isRemove_def freshRemove_def)

lemma markBelow_fields [simp]:
  "EntryType (markBelow rc h i p) = EntryType p" "pd_LogIndex (markBelow rc h i p) = pd_LogIndex p"
  "isForwarded (markBelow rc h i p) = isForwarded p"
  by (simp_all add: markBelow_def markCommitted_def markAdded_def markRemoved_def setAddHeight_def setRemoveHeight_def)

lemma lockHeight_unscripted: "unscripted q = unscripted p \<Longrightarrow> lockHeight rc q = lockHeight rc p"
  using unscriptedD(1,4,5) [of q p] by (simp add: lockHeight_def isRemove_def)

text \<open>An entry of the remote log after a commitment on chain \<open>rc\<close>, and what it was before.\<close>

lemma committed_entry:
  assumes "alike unscripted (u\<lparr>ul_List := strip (markBelow rc h i) (ul_List u)\<rparr>) v" "(k, q) \<in> set (ul_List v)"
  obtains p where "(k, p) \<in> set (ul_List u)" "EntryType q = EntryType p" "pd_LogIndex q = pd_LogIndex p"
    "isForwarded q = isForwarded p"
    "lockHeight rc q = (if pd_LogIndex p < i \<and> lockHeight rc p = 0 then h else lockHeight rc p)"
    "lockHeight (\<not> rc) q = lockHeight (\<not> rc) p"
proof -
  obtain r where "(k, r) \<in> set (strip (markBelow rc h i) (ul_List u))" "unscripted q = unscripted r"
    using alike_mem [OF assms] by auto
  then obtain p where p: "(k, p) \<in> set (ul_List u)" "unscripted q = unscripted (markBelow rc h i p)"
    by (auto simp: mem_strip)
  show thesis
    using that [OF p(1)] unscriptedD [OF p(2)] lockHeight_unscripted [OF p(2)]
    by (simp add: lockHeight_mark)
qed

lemma SignNextCommitment_InrE:
  assumes "SignNextCommitment x ev lc db = (lc', db', Inr res)"
  obtains ltail lc1 c kr sig htlcSigs where "chain_tail (localCommitChain lc) = Some ltail"
    "\<not> hasUnackedCommitment (remoteCommitChain lc)"
    "fetchCommitmentView x ev lc True (logIndex (localUpdateLog lc)) (htlcCounter (localUpdateLog lc))
       (c_theirMessageIndex ltail) (c_theirHtlcIndex ltail) kr = (lc1, Inr c)"
    "AppendRemoteCommitChain (ev_io ev) (channelState lc1) (createCommitDiff lc1 c sig htlcSigs) db = Inr db'"
    "lc' = lc1\<lparr>remoteCommitChain := remoteCommitChain lc1 @ [c]\<rparr>"
  using assms unfolding SignNextCommitment_def Let_def addCommitment_def
  by (auto split: option.splits sum.splits prod.splits if_splits)

lemma cd_Commitment_create [simp]: "cd_Commitment (createCommitDiff lc c sig htlcSigs) = toDiskCommit c False"
  by (simp add: createCommitDiff_def Let_def)

lemma AppendRemoteCommitChain_fields:
  assumes "AppendRemoteCommitChain io c diff db = Inr db'"
  shows "dk_commitDiff db' = Some diff" "om_LocalCommitment db' = om_LocalCommitment db"
    "dk_LocalCommitment db' = dk_LocalCommitment db" "om_RemoteCommitment db' = om_RemoteCommitment db"
    "dk_RemoteCommitment db' = dk_RemoteCommitment db" "dk_revocationLog db' = dk_revocationLog db"
  using assms by (auto simp: AppendRemoteCommitChain_def split: option.splits sum.splits)

lemma one_commitment:
  assumes "chains_ok lchain rchain i" "\<not> hasUnackedCommitment rchain"
  obtains c where "rchain = [c]"
  using assms by (auto simp: chains_ok_def hasUnackedCommitment_def)

lemma word_Suc:
  fixes a :: u64
  assumes "a \<noteq> - 1"
  shows "a < a + 1" "a + 1 \<noteq> 0" "b \<le> a + 1 \<longleftrightarrow> b \<le> a \<or> b = a + 1" "unat (a + 1) = Suc (unat a)"
proof -
  have "a + 1 \<noteq> 0" using assms by (metis add_eq_0_iff add.commute)
  then show "unat (a + 1) = Suc (unat a)" by (metis unatSuc add.commute)
  then show "a < a + 1" "a + 1 \<noteq> 0" "b \<le> a + 1 \<longleftrightarrow> b \<le> a \<or> b = a + 1"
    by (auto simp: word_less_nat_alt word_le_nat_alt word_unat_eq_iff)
qed

lemma dance_inv_sign:
  assumes inv: "dance_inv lc db rs" and left: "heights_left lc"
    and sign: "SignNextCommitment x ev lc db = (lc', db', Inr res)"
  shows "dance_inv lc' db' rs"
proof -
  note D = dance_invD [OF inv]
  obtain ltail lc1 c kr sig htlcSigs where s: "chain_tail (localCommitChain lc) = Some ltail"
    "\<not> hasUnackedCommitment (remoteCommitChain lc)"
    "fetchCommitmentView x ev lc True (logIndex (localUpdateLog lc)) (htlcCounter (localUpdateLog lc))
       (c_theirMessageIndex ltail) (c_theirHtlcIndex ltail) kr = (lc1, Inr c)"
    "AppendRemoteCommitChain (ev_io ev) (channelState lc1) (createCommitDiff lc1 c sig htlcSigs) db = Inr db'"
    "lc' = lc1\<lparr>remoteCommitChain := remoteCommitChain lc1 @ [c]\<rparr>"
    using sign by (rule SignNextCommitment_InrE)
  obtain tip where tip: "remoteCommitChain lc = [tip]" using one_commitment [OF D(2) s(2)] .
  have room: "c_height tip \<noteq> - 1" using left tip by (simp add: heights_left_def)
  have hd: "hd (localCommitChain lc) = ltail" using s(1) by (auto simp: chain_tail_def split: list.splits)
  have "chain_tip (if True then remoteCommitChain lc else localCommitChain lc) = Some tip"
    by (simp add: chain_tip_def tip)
  note eff = fetchCommitmentView_effect [OF D(1) s(3) this]
  have f: "localCommitChain lc' = localCommitChain lc" "remoteCommitChain lc' = [tip, c]"
    "remoteUpdateLog lc' = remoteUpdateLog lc1" "localUpdateLog lc' = localUpdateLog lc1"
    using eff(2) by (simp_all add: s(5) chain_frame_def tip)
  have idx: "logIndex (remoteUpdateLog lc1) = logIndex (remoteUpdateLog lc)"
    using alike_fields(1) [OF eff(4)] by simp
  show ?thesis
  proof (rule dance_invI)
    show "chan_inv lc'" using eff(1) by (simp add: chan_inv_def f)
    show "chains_ok (localCommitChain lc') (remoteCommitChain lc') (logIndex (remoteUpdateLog lc'))"
      using D(2) eff(5) room by (simp add: f idx chains_ok_def)
    show "disk_ok (localCommitChain lc') (remoteCommitChain lc') rs db'"
      using D(4) AppendRemoteCommitChain_fields [OF s(4)] by (simp add: f disk_ok_def tip)
  next
    fix k q assume "(k, q) \<in> set (ul_List (remoteUpdateLog lc'))"
    then obtain p where p: "(k, p) \<in> set (ul_List (remoteUpdateLog lc))" "EntryType q = EntryType p"
      "pd_LogIndex q = pd_LogIndex p" "isForwarded q = isForwarded p"
      "lockHeight True q = (if pd_LogIndex p < c_theirMessageIndex ltail \<and> lockHeight True p = 0
         then c_height tip + 1 else lockHeight True p)" "lockHeight (\<not> True) q = lockHeight (\<not> True) p"
      unfolding f(3) by (rule committed_entry [OF eff(4)])
    have ok: "entry_ok (localCommitChain lc) [tip] p" using D(3) [OF p(1)] tip by simp
    show "entry_ok (localCommitChain lc') (remoteCommitChain lc') q"
      using ok p(2-6) word_Suc [OF room] eff(5) by (auto simp: entry_ok_def f hd split: if_splits)
  qed
qed

lemma validationLoop_fields:
  "validationLoop x ev st kr is sigs c = Inr (c', jobs) \<Longrightarrow>
     c_height c' = c_height c \<and> c_ourMessageIndex c' = c_ourMessageIndex c \<and>
     c_theirMessageIndex c' = c_theirMessageIndex c"
proof (induction "is" arbitrary: sigs c c' jobs)
  case (Cons i "is")
  let ?inc = "htlcAt (c_incomingHTLCs c) i \<noteq> None"
  show ?case
  proof (cases "if ?inc then htlcAt (c_incomingHTLCs c) i else htlcAt (c_outgoingHTLCs c) i")
    case None
    have "validationLoop x ev st kr is sigs c = Inr (c', jobs)" using Cons.prems unfolding validationLoop.simps Let_def None by simp
    then show ?thesis by (rule Cons.IH)
  next
    case (Some htlc)
    obtain s sigs' sig where s: "sigs = s # sigs'" "ToSignature (ev_ParseDER ev) s = Inr sig"
      using Cons.prems unfolding validationLoop.simps Let_def Some by (auto split: list.splits sum.splits)
    define c1 where "c1 = (if ?inc then c\<lparr>c_incomingHTLCs := setSig i sig (c_incomingHTLCs c)\<rparr>
      else c\<lparr>c_outgoingHTLCs := setSig i sig (c_outgoingHTLCs c)\<rparr>)"
    obtain jobs' where "validationLoop x ev st kr is sigs' c1 = Inr (c', jobs')"
      using Cons.prems unfolding validationLoop.simps Let_def Some s(1)
      by (simp add: s(2) c1_def split: sum.splits prod.splits)
    then have "c_height c' = c_height c1 \<and> c_ourMessageIndex c' = c_ourMessageIndex c1 \<and>
        c_theirMessageIndex c' = c_theirMessageIndex c1" by (rule Cons.IH)
    then show ?thesis by (simp add: c1_def)
  qed
qed (simp split: if_splits)

lemma verifyView_fields:
  assumes "verifyView x ev st h kr commitSig htlcSigs c = Inr c'"
  shows "c_height c' = c_height c" "c_ourMessageIndex c' = c_ourMessageIndex c"
    "c_theirMessageIndex c' = c_theirMessageIndex c"
  using assms unfolding verifyView_def genHtlcSigValidationJobs_def
  by (auto split: option.splits sum.splits prod.splits if_splits dest!: validationLoop_fields)

lemma ReceiveNewCommitment_NoneE:
  assumes "ReceiveNewCommitment x ev lc commitSig htlcSigs = (lc', None)"
  obtains rtail lc1 c0 c kr where "chain_tail (remoteCommitChain lc) = Some rtail"
    "fetchCommitmentView x ev lc False (c_ourMessageIndex rtail) (c_ourHtlcIndex rtail)
       (logIndex (remoteUpdateLog lc)) (htlcCounter (remoteUpdateLog lc)) kr = (lc1, Inr c0)"
    "verifyView x ev (channelState lc) (currentHeight lc + 1) kr commitSig htlcSigs c0 = Inr c"
    "lc' = lc1\<lparr>localCommitChain := localCommitChain lc1 @ [c]\<rparr>"
  using assms unfolding ReceiveNewCommitment_def Let_def addCommitment_def
  by (auto split: option.splits sum.splits prod.splits)

lemma dance_inv_receive:
  assumes inv: "dance_inv lc db rs" and left: "heights_left lc"
    and recv: "ReceiveNewCommitment x ev lc commitSig htlcSigs = (lc', None)"
  shows "dance_inv lc' db rs"
proof -
  note D = dance_invD [OF inv]
  obtain rtail lc1 c0 c kr where s: "chain_tail (remoteCommitChain lc) = Some rtail"
    "fetchCommitmentView x ev lc False (c_ourMessageIndex rtail) (c_ourHtlcIndex rtail)
       (logIndex (remoteUpdateLog lc)) (htlcCounter (remoteUpdateLog lc)) kr = (lc1, Inr c0)"
    "verifyView x ev (channelState lc) (currentHeight lc + 1) kr commitSig htlcSigs c0 = Inr c"
    "lc' = lc1\<lparr>localCommitChain := localCommitChain lc1 @ [c]\<rparr>"
    using recv by (rule ReceiveNewCommitment_NoneE)
  define tip where "tip = last (localCommitChain lc)"
  have ne: "localCommitChain lc \<noteq> []" using D(2) by (simp add: chains_ok_def)
  then have tip: "chain_tip (if False then remoteCommitChain lc else localCommitChain lc) = Some tip"
    and mem: "tip \<in> set (localCommitChain lc)" by (simp_all add: chain_tip_def tip_def)
  have room: "c_height tip \<noteq> - 1" using left mem by (simp add: heights_left_def)
  note eff = fetchCommitmentView_effect [OF D(1) s(2) tip]
  have c: "c_height c = c_height tip + 1" "c_theirMessageIndex c = logIndex (remoteUpdateLog lc)"
    using verifyView_fields [OF s(3)] eff by simp_all
  have f: "localCommitChain lc' = localCommitChain lc @ [c]" "remoteCommitChain lc' = remoteCommitChain lc"
    "remoteUpdateLog lc' = remoteUpdateLog lc1" "localUpdateLog lc' = localUpdateLog lc1"
    using eff(2) by (simp_all add: s(4) chain_frame_def)
  have idx: "logIndex (remoteUpdateLog lc1) = logIndex (remoteUpdateLog lc)"
    using alike_fields(1) [OF eff(4)] by simp
  show ?thesis
  proof (rule dance_invI)
    show "chan_inv lc'" using eff(1) by (simp add: chan_inv_def f)
    show "chains_ok (localCommitChain lc') (remoteCommitChain lc') (logIndex (remoteUpdateLog lc'))"
      using D(2) c(2) by (simp add: f idx chains_ok_def sorted_append)
    show "disk_ok (localCommitChain lc') (remoteCommitChain lc') rs db"
      using D(4) ne by (simp add: f disk_ok_def)
  next
    fix k q assume "(k, q) \<in> set (ul_List (remoteUpdateLog lc'))"
    then obtain p where p: "(k, p) \<in> set (ul_List (remoteUpdateLog lc))" "EntryType q = EntryType p"
      "pd_LogIndex q = pd_LogIndex p" "isForwarded q = isForwarded p"
      "lockHeight False q = (if pd_LogIndex p < logIndex (remoteUpdateLog lc) \<and> lockHeight False p = 0
         then c_height tip + 1 else lockHeight False p)" "lockHeight (\<not> False) q = lockHeight (\<not> False) p"
      unfolding f(3) by (rule committed_entry [OF eff(4)])
    have "pd_LogIndex p < logIndex (remoteUpdateLog lc)"
      using log_bounds [of "remoteUpdateLog lc" "(k, p)"] p(1) D(1) by (simp add: chan_inv_def)
    moreover have "entry_ok (localCommitChain lc) (remoteCommitChain lc) p" by (rule D(3) [OF p(1)])
    ultimately show "entry_ok (localCommitChain lc') (remoteCommitChain lc') q"
      using p(2-6) word_Suc [OF room] c ne unfolding entry_ok_def f tip_def [symmetric]
      by auto
  qed
qed

subsection \<open>Our revocations\<close>

lemma RevokeCurrentCommitment_InrE:
  assumes "RevokeCurrentCommitment x ev lc db = (lc', db', Inr res)"
  obtains old new cs us where "localCommitChain lc = old # new # cs"
    "lc' = lc\<lparr>localCommitChain := new # cs, currentHeight := currentHeight lc + 1\<rparr>"
    "UpdateCommitment (ev_io ev) (channelState lc) (toDiskCommit new True) us db = Inr db'"
  using assms unfolding RevokeCurrentCommitment_def Let_def advanceTail_def chain_tail_def
  by (auto split: option.splits sum.splits prod.splits list.splits)

lemma UpdateCommitment_fields:
  assumes "UpdateCommitment io c new us db = Inr db'"
  shows "dk_commitDiff db' = dk_commitDiff db" "om_LocalCommitment db' = new"
    "dk_LocalCommitment db' = new" "om_RemoteCommitment db' = om_RemoteCommitment db"
    "dk_RemoteCommitment db' = dk_RemoteCommitment db" "dk_revocationLog db' = dk_revocationLog db"
  using assms by (auto simp: UpdateCommitment_def split: option.splits)

lemma dance_inv_revoke:
  assumes inv: "dance_inv lc db rs" and rev: "RevokeCurrentCommitment x ev lc db = (lc', db', Inr res)"
  shows "dance_inv lc' db' rs"
proof -
  note D = dance_invD [OF inv]
  obtain old new cs us where s: "localCommitChain lc = old # new # cs"
    "lc' = lc\<lparr>localCommitChain := new # cs, currentHeight := currentHeight lc + 1\<rparr>"
    "UpdateCommitment (ev_io ev) (channelState lc) (toDiskCommit new True) us db = Inr db'"
    using rev by (rule RevokeCurrentCommitment_InrE)
  have le: "c_theirMessageIndex old \<le> c_theirMessageIndex new" using D(2) by (simp add: chains_ok_def s(1))
  show ?thesis
  proof (rule dance_invI)
    show "chan_inv lc'" using D(1) by (simp add: chan_inv_def s(2))
    show "chains_ok (localCommitChain lc') (remoteCommitChain lc') (logIndex (remoteUpdateLog lc'))"
      using D(2) by (simp add: chains_ok_def s(1,2))
    show "disk_ok (localCommitChain lc') (remoteCommitChain lc') rs db'"
      using D(4) UpdateCommitment_fields [OF s(3)] by (simp add: disk_ok_def s(1,2))
  next
    fix k pd assume "(k, pd) \<in> set (ul_List (remoteUpdateLog lc'))"
    then have "entry_ok (old # new # cs) (remoteCommitChain lc) pd" using D(3) s(1,2) by simp
    then show "entry_ok (localCommitChain lc') (remoteCommitChain lc') pd"
      using le by (auto simp: entry_ok_def s(2))
  qed
qed

subsection \<open>Their revocations\<close>

text \<open>An entry before and after the loop that hands on what is locked in.\<close>

definition handed :: "(PaymentDescriptor \<Rightarrow> bool option) \<Rightarrow> log_elem \<Rightarrow> log_elem \<Rightarrow> bool" where
  "handed F e e' \<longleftrightarrow> fst e' = fst e \<and> unannotated (snd e') = unannotated (snd e) \<and>
     (isForwarded (snd e') \<longleftrightarrow> isForwarded (snd e) \<or> F (snd e) \<noteq> None)"

lemma handed_refl: "F (snd e) = None \<Longrightarrow> handed F e e"
  by (simp add: handed_def)

lemma handed_mem:
  assumes "list_all2 (handed F) es es'" "(k, q) \<in> set es'"
  obtains p where "(k, p) \<in> set es" "handed F (k, p) (k, q)"
proof -
  have "\<exists>p. (k, p) \<in> set es \<and> handed F (k, p) (k, q)"
    using assms by (induction rule: list_all2_induct) (auto simp: handed_def)
  then show thesis using that by blast
qed

lemma handed_forward:
  "F pd \<noteq> None \<Longrightarrow> handed F (k, pd) (k, pd\<lparr>pd_SourceRef := r, isForwarded := True\<rparr>)"
  "F pd \<noteq> None \<Longrightarrow> handed F (k, pd) (k, pd\<lparr>pd_DestRef := d, isForwarded := True\<rparr>)"
  by (simp_all add: handed_def unannotated_def unscripted_def)

lemma upt_shift: "map f [0..<Suc n] = f 0 # map (\<lambda>i. f (Suc i)) [0..<n]"
  by (simp add: upt_conv_Cons map_Suc_upt [symmetric] del: upt_Suc)

lemma fwdLoop_specs:
  "fwdLoop source rt lt es a s = (es', as, sfs) \<Longrightarrow>
     list_all2 (handed (fwdKind rt lt)) es es' \<and>
     map unannotated as = map unannotated (filter (\<lambda>p. fwdKind rt lt p = Some True) (map snd es)) \<and>
     map unannotated sfs = map unannotated (filter (\<lambda>p. fwdKind rt lt p = Some False) (map snd es)) \<and>
     map pd_SourceRef as = map (\<lambda>i. Some \<lparr>ar_Height = rt, ar_Index = a + of_nat i\<rparr>) [0..<length as] \<and>
     map pd_DestRef sfs = map (\<lambda>i. Some \<lparr>sf_Source = source, sf_Height = rt, sf_Index = s + of_nat i\<rparr>) [0..<length sfs]"
proof (induction es arbitrary: a s es' as sfs)
  case (Cons e es)
  obtain k pd where e: "e = (k, pd)" by (cases e)
  have "\<exists>es1 as1 sfs1. fwdLoop source rt lt es (if fwdKind rt lt pd = Some True then a + 1 else a)
      (if fwdKind rt lt pd = Some False then s + 1 else s) = (es1, as1, sfs1)" by (metis prod_cases3)
  then obtain es1 as1 sfs1 where r: "fwdLoop source rt lt es (if fwdKind rt lt pd = Some True then a + 1 else a)
      (if fwdKind rt lt pd = Some False then s + 1 else s) = (es1, as1, sfs1)" by blast
  note IH = Cons.IH [OF r]
  let ?add = "pd\<lparr>pd_SourceRef := Some \<lparr>ar_Height = rt, ar_Index = a\<rparr>, isForwarded := True\<rparr>"
  let ?sf = "pd\<lparr>pd_DestRef := Some \<lparr>sf_Source = source, sf_Height = rt, sf_Index = s\<rparr>, isForwarded := True\<rparr>"
  have un: "unannotated ?add = unannotated pd" "unannotated ?sf = unannotated pd"
    by (simp_all add: unannotated_def unscripted_def)
  have res: "fwdLoop source rt lt (e # es) a s = (case fwdKind rt lt pd of None \<Rightarrow> (e # es1, as1, sfs1)
      | Some True \<Rightarrow> ((k, ?add) # es1, ?add # as1, sfs1) | Some False \<Rightarrow> ((k, ?sf) # es1, as1, ?sf # sfs1))"
    using r by (auto simp: e Let_def split: option.splits bool.splits)
  consider "fwdKind rt lt pd = None" | "fwdKind rt lt pd = Some True" | "fwdKind rt lt pd = Some False"
    by (metis option.exhaust)
  then show ?case
  proof cases
    case 1
    then show ?thesis
      using IH Cons.prems handed_refl [of "fwdKind rt lt" e] unfolding res by (auto simp: e)
  next
    case 2
    then show ?thesis
      using IH Cons.prems handed_forward [of "fwdKind rt lt" pd k] unfolding res
      by (auto simp: e un upt_shift ac_simps simp del: upt_Suc)
  next
    case 3
    then show ?thesis
      using IH Cons.prems handed_forward [of "fwdKind rt lt" pd k] unfolding res
      by (auto simp: e un upt_shift ac_simps simp del: upt_Suc)
  qed
qed simp

lemma fwdLoop_spec:
  assumes "fwdLoop source rt lt es a s = (es', as, sfs)"
  shows "list_all2 (handed (fwdKind rt lt)) es es'"
    "map unannotated as = map unannotated (filter (\<lambda>p. fwdKind rt lt p = Some True) (map snd es))"
    "map unannotated sfs = map unannotated (filter (\<lambda>p. fwdKind rt lt p = Some False) (map snd es))"
    "map pd_SourceRef as = map (\<lambda>i. Some \<lparr>ar_Height = rt, ar_Index = a + of_nat i\<rparr>) [0..<length as]"
    "map pd_DestRef sfs = map (\<lambda>i. Some \<lparr>sf_Source = source, sf_Height = rt, sf_Index = s + of_nat i\<rparr>) [0..<length sfs]"
  using fwdLoop_specs [OF assms] by blast+

lemma map_eq_mem: "map f xs = map f ys \<Longrightarrow> x \<in> set xs \<Longrightarrow> \<exists>y \<in> set ys. f x = f y"
  by (metis imageE image_eqI list.set_map)

lemma fwdLoop_mem:
  assumes "fwdLoop source rt lt es a s = (es', as, sfs)" "p \<in> set (as @ sfs)"
  obtains k q where "(k, q) \<in> set es" "unannotated p = unannotated q" "fwdKind rt lt q \<noteq> None"
proof -
  note L = fwdLoop_spec [OF assms(1)]
  have "\<exists>q \<in> set (map snd es). unannotated p = unannotated q \<and> fwdKind rt lt q \<noteq> None"
  proof (cases "p \<in> set as")
    case True
    then show ?thesis using map_eq_mem [OF L(2), of p] by auto
  next
    case False
    then have "p \<in> set sfs" using assms(2) by simp
    then show ?thesis using map_eq_mem [OF L(3), of p] by auto
  qed
  then show thesis using that by auto
qed

lemma compactStep_sub:
  assumes "compactStep lt rt p (A, B) = Some (A', B')"
  shows "set (ul_List A') \<subseteq> set (ul_List A)" "set (ul_List B') \<subseteq> set (ul_List B)"
    "logIndex A' = logIndex A" "logIndex B' = logIndex B"
  using assms
  by (auto simp: compactStep_def removeUpdate_def removeHtlc_def removeElem_def split: if_splits option.splits)

lemma compactLoop_sub:
  assumes "compactLoop lt rt es (A, B) = Some (A', B')"
  shows "set (ul_List A') \<subseteq> set (ul_List A)" "set (ul_List B') \<subseteq> set (ul_List B)"
    "logIndex A' = logIndex A" "logIndex B' = logIndex B"
  using assms
proof (induction es arbitrary: A B)
  case (Cons e es)
  {
    case 1
    then show ?case using Cons.IH(1) compactStep_sub(1) by (fastforce split: option.splits)
  next
    case 2
    then show ?case using Cons.IH(2) compactStep_sub(2) by (fastforce split: option.splits)
  next
    case 3
    then show ?case using Cons.IH(3) compactStep_sub(3) by (fastforce split: option.splits)
  next
    case 4
    then show ?case using Cons.IH(4) compactStep_sub(4) by (fastforce split: option.splits)
  }
qed simp_all

lemma compactLogs_sub:
  assumes "compactLogs A B lt rt = Some (A', B')"
  shows "set (ul_List B') \<subseteq> set (ul_List B)" "logIndex B' = logIndex B"
proof -
  obtain A1 B1 where "compactLoop lt rt (ul_List A) (A, B) = Some (A1, B1)"
    "compactLoop lt rt (ul_List B1) (B1, A1) = Some (B', A')"
    using assms by (auto simp: compactLogs_def compactLog_def split: option.splits)
  note subs = compactLoop_sub [OF this(1)] compactLoop_sub [OF this(2)]
  show "set (ul_List B') \<subseteq> set (ul_List B)" "logIndex B' = logIndex B" using subs by auto
qed

lemma ReceiveRevocation_InrE:
  assumes "ReceiveRevocation x ev lc db revMsg = (lc', db', Inr (pkg, as, sfs, htlcs))"
  obtains rtail ltail st es us ours theirs chain where
    "chain_tail (remoteCommitChain lc) = Some rtail" "chain_tail (localCommitChain lc) = Some ltail"
    "fwdLoop (oc_ShortChannelID (channelState lc)) (c_height rtail + 1) (c_height ltail)
       (ul_List (remoteUpdateLog lc)) 0 0 = (es, as, sfs)"
    "pkg = NewFwdPkg (oc_ShortChannelID (channelState lc)) (c_height rtail + 1)
       (map (logUpdateOf (chanID lc)) as) (map (logUpdateOf (chanID lc)) sfs)"
    "AdvanceCommitChainTail (ev_io ev) st pkg us
       (db\<lparr>om_RevocationStore := om_RevocationStore db @ [ra_Revocation revMsg]\<rparr>) = Inr db'"
    "advanceTail (remoteCommitChain lc) = Some chain"
    "compactLogs (localUpdateLog lc) ((remoteUpdateLog lc)\<lparr>ul_List := es\<rparr>) (c_height ltail) (c_height rtail + 1) =
       Some (ours, theirs)"
    "lc' = lc\<lparr>channelState := st, remoteCommitChain := chain, localUpdateLog := ours, remoteUpdateLog := theirs\<rparr>"
proof -
  obtain rtail rtip ltail where t: "chain_tail (remoteCommitChain lc) = Some rtail"
    "chain_tip (remoteCommitChain lc) = Some rtip" "chain_tail (localCommitChain lc) = Some ltail"
    using assms by (auto simp: ReceiveRevocation_def Let_def split: if_splits option.splits)
  obtain es as' sfs' where l: "fwdLoop (oc_ShortChannelID (channelState lc)) (c_height rtail + 1) (c_height ltail)
       (ul_List (remoteUpdateLog lc)) 0 0 = (es, as', sfs')" by (metis prod_cases3)
  show thesis
    using assms
    by (auto simp: ReceiveRevocation_def Let_def t l split: if_splits option.splits sum.splits prod.splits
        intro!: that [of rtail ltail es])
qed

text \<open>An entry is handed on exactly when the revoked commitment's successor is the one that took it in.\<close>

lemma fwdKind_locked:
  assumes ok: "entry_ok lchain [rtail, rtip] pd" and "lchain \<noteq> []" "hd lchain = ltail" and room: "c_height rtail \<noteq> - 1"
  shows "fwdKind (c_height rtail + 1) (c_height ltail) pd =
    (if EntryType pd = FeeUpdate \<or> lockHeight True pd \<noteq> c_height rtail + 1 then None else Some (EntryType pd = Add))"
proof (cases "lockHeight True pd = c_height rtail + 1")
  case True
  have "ltail \<in> set lchain" using assms(2,3) by auto
  then have "lockHeight False pd \<noteq> 0" "lockHeight False pd \<le> c_height ltail"
    using ok True word_Suc(2) [OF room] assms(3) by (auto simp: entry_ok_def)
  moreover have "\<not> isForwarded pd"
    using ok True word_Suc(1) [OF room] by (auto simp: entry_ok_def)
  ultimately show ?thesis
    using True word_Suc(2) [OF room]
    by (cases "EntryType pd")
      (auto simp: fwdKind_def Let_def lockHeight_def isRemove_def addHeight_def removeHeight_def word_gt_0)
next
  case False
  then show ?thesis
    by (cases "EntryType pd")
      (auto simp: fwdKind_def Let_def lockHeight_def isRemove_def addHeight_def removeHeight_def)
qed

lemma lockHeight_unannotated: "unannotated q = unannotated p \<Longrightarrow> lockHeight rc q = lockHeight rc p"
  using unannotatedD(7,8,9) [of q p] by (simp add: lockHeight_def)

lemma bucketPut_last: "(\<And>p. p \<in> set b \<Longrightarrow> fst p < k) \<Longrightarrow> bucketPut k v b = b @ [(k, v)]"
  by (induction b) auto

lemma AdvanceCommitChainTail_fields:
  assumes "AdvanceCommitChainTail io c pkg us db = Inr db'"
  obtains d where "dk_commitDiff db = Some d" "om_RemoteCommitment db' = cd_Commitment d"
    "dk_RemoteCommitment db' = cd_Commitment d" "dk_commitDiff db' = None"
    "om_LocalCommitment db' = om_LocalCommitment db" "dk_LocalCommitment db' = dk_LocalCommitment db"
    "dk_revocationLog db' = bucketPut (CommitHeight (om_RemoteCommitment db)) (om_RemoteCommitment db) (dk_revocationLog db)"
    "dk_fwdPkgs db' = AddFwdPkg pkg (dk_fwdPkgs db)"
  using assms
  by (auto simp: AdvanceCommitChainTail_def putChanRevocationState_def appendChannelLogEntry_def Let_def
      split: option.splits)

lemma two_commitments:
  assumes "chains_ok lchain rchain i" "disk_ok lchain rchain rs db" "dk_commitDiff db \<noteq> None"
  obtains c d where "rchain = [c, d]" "c_height d = c_height c + 1" "c_height c \<noteq> - 1"
  using assms by (auto simp: chains_ok_def disk_ok_def)

lemma disk_ok_advance:
  assumes ok: "disk_ok lchain [c, d] rs db" and nx: "c_height d = c_height c + 1" "c_height c \<noteq> - 1"
    and adv: "AdvanceCommitChainTail io st pkg us (db\<lparr>om_RevocationStore := store\<rparr>) = Inr db'"
  shows "disk_ok lchain [d] (rs @ [c]) db'"
proof -
  obtain diff where a: "dk_commitDiff db = Some diff" "om_RemoteCommitment db' = cd_Commitment diff"
    "dk_RemoteCommitment db' = cd_Commitment diff" "dk_commitDiff db' = None"
    "om_LocalCommitment db' = om_LocalCommitment db" "dk_LocalCommitment db' = dk_LocalCommitment db"
    "dk_revocationLog db' = bucketPut (CommitHeight (om_RemoteCommitment db)) (om_RemoteCommitment db) (dk_revocationLog db)"
    using AdvanceCommitChainTail_fields [OF adv] by auto
  have hs: "map (unat \<circ> c_height) rs = [0..<length rs]" "unat (c_height c) = length rs"
    using ok by (simp_all add: disk_ok_def)
  have "c_height r < c_height c" if "r \<in> set rs" for r
  proof -
    have "unat (c_height r) \<in> set (map (unat \<circ> c_height) rs)" using that by simp
    then show ?thesis unfolding hs(1) by (simp add: word_less_nat_alt hs(2))
  qed
  then have "dk_revocationLog db' = dk_revocationLog db @ [(c_height c, toDiskCommit c False)]"
    using ok unfolding a(7) by (subst bucketPut_last) (auto simp: disk_ok_def toDiskCommit_def)
  then show ?thesis
    using ok a hs word_Suc(4) [OF nx(2)] by (simp add: disk_ok_def nx(1))
qed

lemma revocation_locks:
  assumes inv: "dance_inv lc db rs"
    and rev: "ReceiveRevocation x ev lc db revMsg = (lc', db', Inr (pkg, as, sfs, htlcs))"
  obtains rtail d ltail st es us ours theirs where
    "remoteCommitChain lc = [rtail, d]" "c_height d = c_height rtail + 1" "c_height rtail \<noteq> - 1"
    "localCommitChain lc \<noteq> []" "hd (localCommitChain lc) = ltail"
    "fwdLoop (oc_ShortChannelID (channelState lc)) (c_height rtail + 1) (c_height ltail)
       (ul_List (remoteUpdateLog lc)) 0 0 = (es, as, sfs)"
    "pkg = NewFwdPkg (oc_ShortChannelID (channelState lc)) (c_height rtail + 1)
       (map (logUpdateOf (chanID lc)) as) (map (logUpdateOf (chanID lc)) sfs)"
    "AdvanceCommitChainTail (ev_io ev) st pkg us
       (db\<lparr>om_RevocationStore := om_RevocationStore db @ [ra_Revocation revMsg]\<rparr>) = Inr db'"
    "compactLogs (localUpdateLog lc) ((remoteUpdateLog lc)\<lparr>ul_List := es\<rparr>) (c_height ltail) (c_height rtail + 1) =
       Some (ours, theirs)"
    "lc' = lc\<lparr>channelState := st, remoteCommitChain := [d], localUpdateLog := ours, remoteUpdateLog := theirs\<rparr>"
proof -
  note D = dance_invD [OF inv]
  obtain rtail ltail st es us ours theirs chain where
    s: "chain_tail (remoteCommitChain lc) = Some rtail" "chain_tail (localCommitChain lc) = Some ltail"
    "fwdLoop (oc_ShortChannelID (channelState lc)) (c_height rtail + 1) (c_height ltail)
       (ul_List (remoteUpdateLog lc)) 0 0 = (es, as, sfs)"
    "pkg = NewFwdPkg (oc_ShortChannelID (channelState lc)) (c_height rtail + 1)
       (map (logUpdateOf (chanID lc)) as) (map (logUpdateOf (chanID lc)) sfs)"
    "AdvanceCommitChainTail (ev_io ev) st pkg us
       (db\<lparr>om_RevocationStore := om_RevocationStore db @ [ra_Revocation revMsg]\<rparr>) = Inr db'"
    "advanceTail (remoteCommitChain lc) = Some chain"
    "compactLogs (localUpdateLog lc) ((remoteUpdateLog lc)\<lparr>ul_List := es\<rparr>) (c_height ltail) (c_height rtail + 1) =
       Some (ours, theirs)"
    "lc' = lc\<lparr>channelState := st, remoteCommitChain := chain, localUpdateLog := ours, remoteUpdateLog := theirs\<rparr>"
    by (rule ReceiveRevocation_InrE [OF rev])
  have "dk_commitDiff db \<noteq> None" using AdvanceCommitChainTail_fields [OF s(5)] by auto
  then obtain c d where cd: "remoteCommitChain lc = [c, d]" "c_height d = c_height c + 1" "c_height c \<noteq> - 1"
    by (rule two_commitments [OF D(2,4)])
  have "c = rtail" "chain = [d]" using s(1,6) by (simp_all add: chain_tail_def advanceTail_def cd(1))
  moreover have "localCommitChain lc \<noteq> []" "hd (localCommitChain lc) = ltail"
    using s(2) by (auto simp: chain_tail_def split: list.splits)
  ultimately show thesis using that [of rtail d ltail] cd s(3-5,7,8) by simp
qed

lemma dance_inv_revocation:
  assumes inv: "dance_inv lc db rs"
    and rev: "ReceiveRevocation x ev lc db revMsg = (lc', db', Inr (pkg, as, sfs, htlcs))"
  shows "dance_inv lc' db' (rs @ [hd (remoteCommitChain lc)])"
proof -
  note D = dance_invD [OF inv]
  obtain rtail d ltail st es us ours theirs where
    rc: "remoteCommitChain lc = [rtail, d]" "c_height d = c_height rtail + 1" "c_height rtail \<noteq> - 1" and
    lc: "localCommitChain lc \<noteq> []" "hd (localCommitChain lc) = ltail" and
    s: "fwdLoop (oc_ShortChannelID (channelState lc)) (c_height rtail + 1) (c_height ltail)
       (ul_List (remoteUpdateLog lc)) 0 0 = (es, as, sfs)"
    "pkg = NewFwdPkg (oc_ShortChannelID (channelState lc)) (c_height rtail + 1)
       (map (logUpdateOf (chanID lc)) as) (map (logUpdateOf (chanID lc)) sfs)"
    "AdvanceCommitChainTail (ev_io ev) st pkg us
       (db\<lparr>om_RevocationStore := om_RevocationStore db @ [ra_Revocation revMsg]\<rparr>) = Inr db'"
    "compactLogs (localUpdateLog lc) ((remoteUpdateLog lc)\<lparr>ul_List := es\<rparr>) (c_height ltail) (c_height rtail + 1) =
       Some (ours, theirs)"
    "lc' = lc\<lparr>channelState := st, remoteCommitChain := [d], localUpdateLog := ours, remoteUpdateLog := theirs\<rparr>"
    by (rule revocation_locks [OF inv rev])
  define u where "u = (remoteUpdateLog lc)\<lparr>ul_List := es\<rparr>"
  note L = fwdLoop_spec(1) [OF s(1)]
  have "strip unannotated es = strip unannotated (ul_List (remoteUpdateLog lc))"
    using L unfolding strip_def by (induction rule: list_all2_induct) (auto simp: handed_def)
  then have a: "alike unannotated (remoteUpdateLog lc) u" by (simp add: alike_def u_def)
  have pair: "pair_inv (localUpdateLog lc) u"
    using chan_inv_alike [OF D(1), of "lc\<lparr>remoteUpdateLog := u\<rparr>"] a by (simp add: chan_inv_pair)
  have sub: "set (ul_List theirs) \<subseteq> set es" "logIndex theirs = logIndex (remoteUpdateLog lc)"
    using compactLogs_sub [OF s(4)] by simp_all
  have f: "localCommitChain lc' = localCommitChain lc" "remoteCommitChain lc' = [d]" "remoteUpdateLog lc' = theirs"
    "localUpdateLog lc' = ours"
    by (simp_all add: s(5))
  show ?thesis
  proof (rule dance_invI)
    show "chan_inv lc'"
      using compactLogs_ok [OF pair, of "c_height ltail" "c_height rtail + 1"] s(4)
      unfolding u_def [symmetric] by (auto simp: chan_inv_pair f)
    show "chains_ok (localCommitChain lc') (remoteCommitChain lc') (logIndex (remoteUpdateLog lc'))"
      using D(2) by (simp add: chains_ok_def f sub(2))
    show "disk_ok (localCommitChain lc') (remoteCommitChain lc') (rs @ [hd (remoteCommitChain lc)]) db'"
      using disk_ok_advance [OF D(4) [unfolded rc(1)] rc(2,3) s(3)] by (simp add: f rc(1))
  next
    fix k q assume "(k, q) \<in> set (ul_List (remoteUpdateLog lc'))"
    then have "(k, q) \<in> set es" using sub(1) by (auto simp: f)
    then obtain p where p: "(k, p) \<in> set (ul_List (remoteUpdateLog lc))"
      "handed (fwdKind (c_height rtail + 1) (c_height ltail)) (k, p) (k, q)"
      by (rule handed_mem [OF L])
    have ok: "entry_ok (localCommitChain lc) [rtail, d] p" using D(3) [OF p(1)] rc(1) by simp
    have un: "unannotated q = unannotated p" and fw: "isForwarded q \<longleftrightarrow> isForwarded p \<or>
        EntryType p \<noteq> FeeUpdate \<and> lockHeight True p = c_height rtail + 1"
      using p(2) fwdKind_locked [OF ok lc rc(3)] by (auto simp: handed_def split: if_splits)
    show "entry_ok (localCommitChain lc') (remoteCommitChain lc') q"
      using ok fw word_Suc [OF rc(3)] rc(2)
      unfolding entry_ok_def f unannotatedD(1,2) [OF un] lockHeight_unannotated [OF un] by auto
  qed
qed

subsection \<open>What has been handed on\<close>

lemma fwd_okD:
  assumes "fwd_ok u fs"
  shows "distinct fs" "\<And>i. i \<in> set fs \<Longrightarrow> i < logIndex u"
    "\<And>k p. (k, p) \<in> set (ul_List u) \<Longrightarrow> pd_LogIndex p \<in> set fs \<longleftrightarrow> isForwarded p"
    "\<And>k p k' p'. (k, p) \<in> set (ul_List u) \<Longrightarrow> (k', p') \<in> set (ul_List u) \<Longrightarrow> pd_LogIndex p = pd_LogIndex p' \<Longrightarrow> k = k'"
  using assms unfolding fwd_ok_def by blast+

lemma fwd_okI:
  assumes "distinct fs" "\<And>i. i \<in> set fs \<Longrightarrow> i < logIndex u"
    "\<And>k p. (k, p) \<in> set (ul_List u) \<Longrightarrow> pd_LogIndex p \<in> set fs \<longleftrightarrow> isForwarded p"
    "\<And>k p k' p'. (k, p) \<in> set (ul_List u) \<Longrightarrow> (k', p') \<in> set (ul_List u) \<Longrightarrow> pd_LogIndex p = pd_LogIndex p' \<Longrightarrow> k = k'"
  shows "fwd_ok u fs"
  using assms unfolding fwd_ok_def by blast

lemma fwd_ok_same:
  assumes ok: "fwd_ok u fs" and i: "logIndex v = logIndex u"
    and old: "\<And>k q. (k, q) \<in> set (ul_List v) \<Longrightarrow>
      \<exists>p. (k, p) \<in> set (ul_List u) \<and> pd_LogIndex q = pd_LogIndex p \<and> isForwarded q = isForwarded p"
  shows "fwd_ok v fs"
proof (rule fwd_okI)
  fix k q assume "(k, q) \<in> set (ul_List v)"
  from old [OF this] show "pd_LogIndex q \<in> set fs \<longleftrightarrow> isForwarded q" using fwd_okD(3) [OF ok] by auto
next
  fix k q k' q'
  assume q: "(k, q) \<in> set (ul_List v)" "(k', q') \<in> set (ul_List v)" "pd_LogIndex q = pd_LogIndex q'"
  from old [OF q(1)] old [OF q(2)] show "k = k'" using fwd_okD(4) [OF ok] q(3) by auto
qed (use fwd_okD(1,2) [OF ok] i in auto)

lemma fwd_ok_extends:
  assumes ok: "fwd_ok u fs" and u: "log_inv u" and ext: "extends u v"
  shows "fwd_ok v fs"
proof -
  consider "ul_List v = ul_List u" "logIndex v = logIndex u"
    | k pd where "ul_List v = ul_List u @ [(k, pd)]" "logIndex v = logIndex u + 1" "logIndex u \<noteq> - 1"
        "fresh_entry (logIndex u) pd"
    using ext by (auto simp: extends_def)
  then show ?thesis
  proof cases
    case 1
    then show ?thesis by (intro fwd_ok_same [OF ok]) auto
  next
    case 2
    have old: "pd_LogIndex p < logIndex u" if "(j, p) \<in> set (ul_List u)" for j p
      using log_bounds [OF u that] by simp
    have pd: "pd_LogIndex pd = logIndex u" "\<not> isForwarded pd" "pd_LogIndex pd \<notin> set fs"
      using 2(4) fwd_okD(2) [OF ok] by (auto simp: fresh_entry_def)
    show ?thesis
    proof (rule fwd_okI)
      show "i < logIndex v" if "i \<in> set fs" for i
        using fwd_okD(2) [OF ok that] word_Suc(1) [OF 2(3)] 2(2) by simp
      show "pd_LogIndex p \<in> set fs \<longleftrightarrow> isForwarded p" if "(j, p) \<in> set (ul_List v)" for j p
        using that fwd_okD(3) [OF ok] pd by (auto simp: 2(1))
      show "j = j'" if "(j, p) \<in> set (ul_List v)" "(j', p') \<in> set (ul_List v)" "pd_LogIndex p = pd_LogIndex p'" for j p j' p'
        using that fwd_okD(4) [OF ok] old [of j p] old [of j' p'] pd(1) by (auto simp: 2(1))
    qed (rule fwd_okD(1) [OF ok])
  qed
qed

lemma fwd_ok_handed:
  assumes ok: "fwd_ok u fs" and u: "log_inv u" and L: "list_all2 (handed F) (ul_List u) es"
    and F: "\<And>p. F p \<noteq> None \<Longrightarrow> \<not> isForwarded p"
    and as: "map pd_LogIndex as = map pd_LogIndex (filter (\<lambda>p. F p = Some True) (map snd (ul_List u)))"
    and sfs: "map pd_LogIndex sfs = map pd_LogIndex (filter (\<lambda>p. F p = Some False) (map snd (ul_List u)))"
    and v: "set (ul_List v) \<subseteq> set es" "logIndex v = logIndex u"
  shows "fwd_ok v (fs @ map pd_LogIndex (as @ sfs))"
proof -
  note D = fwd_okD [OF ok]
  have uniq: "p = p'" if "(k, p) \<in> set (ul_List u)" "(k', p') \<in> set (ul_List u)" "pd_LogIndex p = pd_LogIndex p'"
    for k p k' p'
    using elem_unique [OF u that(1)] D(4) [OF that] that(2) by blast
  have "inj_on (pd_LogIndex \<circ> snd) (set (ul_List u))"
    using D(4) uniq by (intro inj_onI) (metis comp_apply prod.collapse)
  then have dist: "distinct (map pd_LogIndex (map snd (ul_List u)))"
    using log_distinct_list [OF u] by (simp add: distinct_map)
  have mem: "i \<in> set (map pd_LogIndex (as @ sfs)) \<longleftrightarrow> (\<exists>k p. (k, p) \<in> set (ul_List u) \<and> F p \<noteq> None \<and> pd_LogIndex p = i)" for i
  proof -
    have "F p \<noteq> None \<longleftrightarrow> F p = Some True \<or> F p = Some False" for p by (cases "F p") auto
    then show ?thesis unfolding map_append as sfs by force
  qed
  have dfs: "distinct (map pd_LogIndex (as @ sfs))"
    unfolding map_append as sfs distinct_append
  proof (intro conjI distinct_map_filter [OF dist] equals0I)
    fix i
    assume "i \<in> set (map pd_LogIndex (filter (\<lambda>p. F p = Some True) (map snd (ul_List u)))) \<inter>
        set (map pd_LogIndex (filter (\<lambda>p. F p = Some False) (map snd (ul_List u))))"
    then obtain k p k' p' where "(k, p) \<in> set (ul_List u)" "(k', p') \<in> set (ul_List u)"
      "pd_LogIndex p = pd_LogIndex p'" "F p = Some True" "F p' = Some False" by auto
    then show False using uniq [of k p k' p'] by simp
  qed
  have new: "i \<notin> set fs \<and> i < logIndex u" if "i \<in> set (map pd_LogIndex (as @ sfs))" for i
    using that D(3) F log_bounds [OF u] unfolding mem by fastforce
  show ?thesis
  proof (rule fwd_okI)
    show "distinct (fs @ map pd_LogIndex (as @ sfs))" using D(1) dfs new by (auto simp del: map_append)
    show "i < logIndex v" if "i \<in> set (fs @ map pd_LogIndex (as @ sfs))" for i
      using that D(2) new v(2) by (auto simp del: map_append)
  next
    fix k q assume "(k, q) \<in> set (ul_List v)"
    then have "(k, q) \<in> set es" using v(1) by blast
    then obtain p where p: "(k, p) \<in> set (ul_List u)" "handed F (k, p) (k, q)" by (rule handed_mem [OF L])
    have i: "pd_LogIndex q = pd_LogIndex p" and fw: "isForwarded q \<longleftrightarrow> isForwarded p \<or> F p \<noteq> None"
      using p(2) unannotatedD(2) [of q p] by (simp_all add: handed_def)
    have "pd_LogIndex p \<in> set (map pd_LogIndex (as @ sfs)) \<longleftrightarrow> F p \<noteq> None"
      unfolding mem using p(1) uniq by blast
    then show "pd_LogIndex q \<in> set (fs @ map pd_LogIndex (as @ sfs)) \<longleftrightarrow> isForwarded q"
      using D(3) [OF p(1)] by (simp add: i fw del: map_append)
  next
    fix k q k' q'
    assume q: "(k, q) \<in> set (ul_List v)" "(k', q') \<in> set (ul_List v)" "pd_LogIndex q = pd_LogIndex q'"
    obtain p where p: "(k, p) \<in> set (ul_List u)" "handed F (k, p) (k, q)"
      using q(1) v(1) by (blast intro: handed_mem [OF L])
    obtain p' where p': "(k', p') \<in> set (ul_List u)" "handed F (k', p') (k', q')"
      using q(2) v(1) by (blast intro: handed_mem [OF L])
    have "pd_LogIndex p = pd_LogIndex p'"
      using p(2) p'(2) q(3) unannotatedD(2) [of q p] unannotatedD(2) [of q' p'] by (simp add: handed_def)
    then show "k = k'" by (rule D(4) [OF p(1) p'(1)])
  qed
qed

lemma fwd_ok_committed:
  assumes "fwd_ok u fs" "alike unscripted (u\<lparr>ul_List := strip (markBelow rc h i) (ul_List u)\<rparr>) v"
  shows "fwd_ok v fs"
proof (rule fwd_ok_same [OF assms(1)])
  show "logIndex v = logIndex u" using alike_fields(1) [OF assms(2)] by simp
  fix k q assume "(k, q) \<in> set (ul_List v)"
  then show "\<exists>p. (k, p) \<in> set (ul_List u) \<and> pd_LogIndex q = pd_LogIndex p \<and> isForwarded q = isForwarded p"
    by (rule committed_entry [OF assms(2)]) blast
qed

lemma fwd_ok_fetch:
  assumes ok: "fwd_ok (remoteUpdateLog lc) fs" and inv: "chan_inv lc"
    and f: "fetchCommitmentView x ev lc rc oi oh ti th kr = (lc', Inr c)"
  shows "fwd_ok (remoteUpdateLog lc') fs"
proof -
  obtain tip where "chain_tip (if rc then remoteCommitChain lc else localCommitChain lc) = Some tip"
    using fetchCommitmentView_InrE [OF f] by blast
  from fetchCommitmentView_effect(4) [OF inv f this] show ?thesis by (rule fwd_ok_committed [OF ok])
qed

lemma map_LogIndex_unannotated:
  "map unannotated ps = map unannotated qs \<Longrightarrow> map pd_LogIndex ps = map pd_LogIndex qs"
proof -
  have "map pd_LogIndex (map unannotated ps) = map pd_LogIndex ps" for ps by simp
  then show "map unannotated ps = map unannotated qs \<Longrightarrow> map pd_LogIndex ps = map pd_LogIndex qs" by metis
qed

lemma dance_invariant:
  "dance sha256 x lc db rs fs \<Longrightarrow> dance_inv lc db rs \<and> fwd_ok (remoteUpdateLog lc) fs"
proof (induction rule: dance.induct)
  case (dance_start lc db)
  then have "ul_List (remoteUpdateLog lc) = []"
    by (simp add: dance_init_def fresh_channel_def newUpdateLog_def) (metis updateLog.select_convs(3))
  then show ?case using dance_inv_init [OF dance_start] by (simp add: fwd_ok_def)
next
  case (dance_log lc db rs fs lc')
  then show ?case
    using dance_inv_log fwd_ok_extends log_step_effect dance_invD(1) by (metis chan_inv_def)
next
  case (dance_sign lc db rs fs ev lc' db' res)
  have "fwd_ok (remoteUpdateLog lc') fs"
    using dance_sign.hyps(3) by (rule SignNextCommitment_InrE)
      (use fwd_ok_fetch dance_sign.IH dance_invD(1) in force)
  then show ?case using dance_inv_sign dance_sign by blast
next
  case (dance_receive lc db rs fs ev commitSig htlcSigs lc')
  have "fwd_ok (remoteUpdateLog lc') fs"
    using dance_receive.hyps(3) by (rule ReceiveNewCommitment_NoneE)
      (use fwd_ok_fetch dance_receive.IH dance_invD(1) in force)
  then show ?case using dance_inv_receive dance_receive by blast
next
  case (dance_revoke lc db rs fs ev lc' db' res)
  have "remoteUpdateLog lc' = remoteUpdateLog lc"
    using dance_revoke.hyps(2) by (rule RevokeCurrentCommitment_InrE) simp
  then show ?case using dance_inv_revoke dance_revoke by metis
next
  case (dance_revocation lc db rs fs ev revMsg lc' db' pkg as sfs htlcs)
  have inv: "dance_inv lc db rs" using dance_revocation.IH by blast
  obtain rtail d ltail st es us ours theirs where
    "remoteCommitChain lc = [rtail, d]" "c_height d = c_height rtail + 1" "c_height rtail \<noteq> - 1"
    "localCommitChain lc \<noteq> []" "hd (localCommitChain lc) = ltail" and
    s: "fwdLoop (oc_ShortChannelID (channelState lc)) (c_height rtail + 1) (c_height ltail)
       (ul_List (remoteUpdateLog lc)) 0 0 = (es, as, sfs)" and
    "pkg = NewFwdPkg (oc_ShortChannelID (channelState lc)) (c_height rtail + 1)
       (map (logUpdateOf (chanID lc)) as) (map (logUpdateOf (chanID lc)) sfs)"
    "AdvanceCommitChainTail (ev_io ev) st pkg us
       (db\<lparr>om_RevocationStore := om_RevocationStore db @ [ra_Revocation revMsg]\<rparr>) = Inr db'" and
    c: "compactLogs (localUpdateLog lc) ((remoteUpdateLog lc)\<lparr>ul_List := es\<rparr>) (c_height ltail) (c_height rtail + 1) =
       Some (ours, theirs)" and
    lc': "lc' = lc\<lparr>channelState := st, remoteCommitChain := [d], localUpdateLog := ours, remoteUpdateLog := theirs\<rparr>"
    by (rule revocation_locks [OF inv dance_revocation.hyps(2)])
  note L = fwdLoop_spec [OF s]
  have "log_inv (remoteUpdateLog lc)" using dance_revocation.IH dance_invD(1) by (auto simp: chan_inv_def)
  moreover have "fwdKind (c_height rtail + 1) (c_height ltail) p \<noteq> None \<Longrightarrow> \<not> isForwarded p" for p
    by (auto simp: fwdKind_def)
  ultimately have "fwd_ok theirs (fs @ map pd_LogIndex (as @ sfs))"
    using dance_revocation.IH compactLogs_sub [OF c]
    by (intro fwd_ok_handed [OF _ _ L(1) _ map_LogIndex_unannotated [OF L(2)] map_LogIndex_unannotated [OF L(3)]]) auto
  then show ?case using dance_inv_revocation [OF _ dance_revocation.hyps(2)] dance_revocation.IH by (simp add: lc')
qed

end
