(* ===== verification/Lnwallet_Relay.thy ===== *)
theory Lnwallet_Relay
  imports Lnwallet_Forward Lnwallet_Correct Lnwallet_Agree
begin

text \<open>
  What the commitment dance guarantees: updates are handed on once and only when they are locked
  in on both sides, the database always holds the state in memory, and every revoked commitment
  can be found again.  The example is a channel whose other party offers an HTLC, which is then
  committed on both sides.
\<close>

subsection \<open>Equations for evaluation\<close>

text \<open>
  The definitions without patterns on pairs: the simplifier evaluates the bodies of such patterns
  also before the pair is known.
\<close>

lemma createUnsignedCommitmentTx_code [code]:
  "createUnsignedCommitmentTx x sanity st b0 isOurs feePerKw height view keyRing =
     (let n = numHTLCs st isOurs feePerKw view;
          commitFee = commitFeeOf st isOurs feePerKw view;
          b = commitBalances st isOurs commitFee n b0
      in case baseCommitTx x st isOurs b keyRing of
           Inl e \<Rightarrow> (view, Inl e)
         | Inr p \<Rightarrow>
             (let o' = addHTLCs x isOurs False keyRing (oc_ChanType st) (isDustHtlc st isOurs False feePerKw)
                     (v_ourUpdates view) p (replicate (length (tx_TxOut (fst p))) 0)
              in case snd o' of
                   Inl e \<Rightarrow> (view\<lparr>v_ourUpdates := fst o'\<rparr>, Inl e)
                 | Inr bc \<Rightarrow>
                     (let t = addHTLCs x isOurs True keyRing (oc_ChanType st) (isDustHtlc st isOurs True feePerKw)
                             (v_theirUpdates view) (fst bc) (snd bc)
                      in case snd t of
                           Inl e \<Rightarrow> (view\<lparr>v_ourUpdates := fst o', v_theirUpdates := fst t\<rparr>, Inl e)
                         | Inr bc' \<Rightarrow>
                             (view\<lparr>v_ourUpdates := fst o', v_theirUpdates := fst t\<rparr>,
                              case finishCommitTx x sanity st height commitFee bc' of
                                Inl e \<Rightarrow> Inl e
                              | Inr r \<Rightarrow> Inr \<lparr>ut_txn = fst r, ut_fee = commitFee, ut_balances = b, ut_cltvs = snd r\<rparr>))))"
  unfolding createUnsignedCommitmentTx_def Let_def
  by (auto split: sum.splits prod.splits)

lemma fetchCommitmentView_code [code]:
  "fetchCommitmentView x ev lc remoteChain ourLogIndex ourHtlcIndex theirLogIndex theirHtlcIndex keyRing =
     (case chain_tip (if remoteChain then remoteCommitChain lc else localCommitChain lc) of
        None \<Rightarrow> (lc, Inl NilPanic)
      | Some tip \<Rightarrow>
          (let nextHeight = c_height tip + 1;
               r = computeView lc (fetchHTLCView lc theirLogIndex ourLogIndex) remoteChain True;
               lc1 = fst r
           in case snd r of
                Inl e \<Rightarrow> (lc1, Inl e)
              | Inr p \<Rightarrow>
                  (let view = snd (snd p);
                       t = createUnsignedCommitmentTx x (ev_sanity ev) (channelState lc1) (fst p) (\<not> remoteChain)
                          (v_feePerKw view) nextHeight view keyRing
                   in (writeView (fst t) lc1,
                       case snd t of
                         Inl e \<Rightarrow> Inl e
                       | Inr commitTx \<Rightarrow>
                           if sless64 (effFeeRate ev lc1 (ut_txn commitTx)) AbsoluteFeePerKwFloor
                           then Inl (ErrFeeRateFloor (effFeeRate ev lc1 (ut_txn commitTx)))
                           else populateHtlcIndexes
                               (newCommitment lc1 remoteChain nextHeight ourLogIndex ourHtlcIndex theirLogIndex
                                  theirHtlcIndex (v_feePerKw view) (fst t) commitTx)
                               (ut_cltvs commitTx)))))"
  unfolding fetchCommitmentView_def Let_def
  by (auto split: option.splits sum.splits prod.splits)

subsection \<open>A sample dance\<close>

definition relay_env :: env where
  "relay_env = \<lparr>ev_sanity = (\<lambda>tx. True), ev_weight = (\<lambda>tx. 500), ev_TxHash = (\<lambda>tx. replicate 32 0),
     ev_signer = (\<lambda>tx d. Some [48, 6, 2, 1, 5, 2, 1, 7]), ev_ParseDER = Some,
     ev_CalcSignatureHash = (\<lambda>s h tx. Some []), ev_Verify = (\<lambda>s h k. True),
     ev_AtIndex = (\<lambda>h. Some [ucast h]), ev_AddNextEntry = (\<lambda>s r. True), ev_io = True\<rparr>"

definition relay_crypto :: crypto where
  "relay_crypto = \<lparr>cr_Sha256 = (\<lambda>d. [2]), cr_Ripemd160 = (\<lambda>d. [3]), cr_Hash160 = (\<lambda>d. [4]), cr_N = 7,
     cr_ScalarBaseMult = (\<lambda>bs. [1]), cr_ScalarMult = (\<lambda>p bs. [5]), cr_Add = (\<lambda>p q. [6]),
     cr_Script = (\<lambda>ops. Some [of_nat (length ops)])\<rparr>"

definition relay_cfg :: "byte \<Rightarrow> ChannelConfig" where
  "relay_cfg b = sample_cfg\<lparr>MultiSigKey := replicate 33 b\<rparr>"

definition relay_channel :: LightningChannel where
  "relay_channel = sample_channel\<lparr>channelState := (channelState sample_channel)\<lparr>oc_LocalChanCfg := relay_cfg 2,
     oc_RemoteChanCfg := relay_cfg 3, oc_RemoteCurrentRevocation := Some [1]\<rparr>\<rparr>"

definition relay_db :: ChanDb where
  "relay_db = \<lparr>om_chanStatus = 0, om_LocalCommitment = toDiskCommit sample_commit True,
     om_RemoteCommitment = toDiskCommit sample_commit False, om_RevocationStore = [], dk_chanStatus = 0,
     dk_chanInfo = channelState sample_channel, dk_revState = (None, [], None),
     dk_LocalCommitment = toDiskCommit sample_commit True, dk_RemoteCommitment = toDiskCommit sample_commit False,
     dk_commitDiff = None, dk_unsignedAcked = None, dk_remoteUnsignedLocal = None, dk_lastWasRevoke = None,
     dk_revocationLog = [], dk_fwdPkgs = None\<rparr>"

definition relay_revocation :: "bytes RevokeAndAck" where
  "relay_revocation = \<lparr>ra_ChanID = [], ra_Revocation = [8], ra_NextRevocationKey = Some [9], ra_ExtraData = []\<rparr>"

definition relay_received :: LightningChannel where
  "relay_received = (case ReceiveHTLC relay_channel sample_htlc of Inr (i, lc) \<Rightarrow> lc | Inl e \<Rightarrow> relay_channel)"

definition relay_committed :: LightningChannel where
  "relay_committed = fst (ReceiveNewCommitment relay_crypto relay_env relay_received (replicate 64 1) [replicate 64 1])"

definition relay_revoked :: "LightningChannel \<times> ChanDb \<times> (chan_error + bytes RevokeAndAck \<times> HTLC list)" where
  "relay_revoked = RevokeCurrentCommitment relay_crypto relay_env relay_committed relay_db"

definition relay_signed :: "LightningChannel \<times> ChanDb \<times> (chan_error + Sig \<times> Sig list \<times> HTLC list)" where
  "relay_signed = (case relay_revoked of (lc, db, r) \<Rightarrow> SignNextCommitment relay_crypto relay_env lc db)"

definition relay_locked :: "LightningChannel \<times> ChanDb \<times>
    (chan_error + FwdPkg \<times> PaymentDescriptor list \<times> PaymentDescriptor list \<times> HTLC list)" where
  "relay_locked = (case relay_signed of (lc, db, r) \<Rightarrow> ReceiveRevocation relay_crypto relay_env lc db relay_revocation)"

definition relay_keys :: CommitmentKeyRing where
  "relay_keys = DeriveCommitmentKeys relay_crypto [9] True (oc_ChanType (channelState relay_channel)) (relay_cfg 2) (relay_cfg 3)"

lemma relay_init: "dance_init relay_channel relay_db"
  by (simp add: dance_init_def fresh_channel_def relay_channel_def sample_channel_def newUpdateLog_def relay_db_def)
    (simp add: sample_commit_def)

definition chainHeights :: "LightningChannel \<Rightarrow> u64 list \<times> u64 list" where
  "chainHeights lc = (map c_height (localCommitChain lc), map c_height (remoteCommitChain lc))"

lemma relay_steps:
  "isl (ReceiveHTLC relay_channel sample_htlc) = False"
  "snd (ReceiveNewCommitment relay_crypto relay_env relay_received (replicate 64 1) [replicate 64 1]) = None"
  "(let r = relay_revoked in (isl (snd (snd r)), chainHeights (fst r))) = (False, [1], [0])"
  "isl (snd (snd relay_signed)) = False"
  "(case snd (snd relay_locked) of Inl e \<Rightarrow> [] | Inr r \<Rightarrow> map pd_LogIndex (fst (snd r) @ fst (snd (snd r)))) = [0]"
  by code_simp+

lemma heights_leftI: "chainHeights lc = (ls, rs) \<Longrightarrow> - 1 \<notin> set ls \<union> set rs \<Longrightarrow> heights_left lc"
  by (force simp: heights_left_def chainHeights_def)

lemma relay_dance:
  "dance sha256 relay_crypto (fst relay_signed) (fst (snd relay_signed)) [] []"
proof -
  have 0: "dance sha256 relay_crypto relay_channel relay_db [] []" by (rule dance_start [OF relay_init])
  obtain i where rcv: "ReceiveHTLC relay_channel sample_htlc = Inr (i, relay_received)"
    using relay_steps(1) by (cases "ReceiveHTLC relay_channel sample_htlc") (auto simp: relay_received_def)
  have room: "has_room (remoteUpdateLog relay_channel)" and relay_heights: "heights_left relay_channel"
    by (simp_all add: has_room_def heights_left_def relay_channel_def sample_channel_def newUpdateLog_def sample_commit_def)
  have 1: "dance sha256 relay_crypto relay_received relay_db [] []"
    by (rule dance_log [OF 0 log_receive [OF rcv room]])
  have "ReceiveNewCommitment relay_crypto relay_env relay_received (replicate 64 1) [replicate 64 1] = (relay_committed, None)"
    using relay_steps(2) by (simp add: relay_committed_def prod_eq_iff)
  moreover have "heights_left relay_received"
    using log_step_effect [OF log_receive, OF rcv room] relay_heights by (simp add: heights_left_def chain_frame_def)
  ultimately have 2: "dance sha256 relay_crypto relay_committed relay_db [] []"
    by (rule dance_receive [OF 1, rotated])
  obtain r where "snd (snd relay_revoked) = Inr r" using relay_steps(3) by (cases "snd (snd relay_revoked)") (auto simp: Let_def)
  then have "RevokeCurrentCommitment relay_crypto relay_env relay_committed relay_db =
      (fst relay_revoked, fst (snd relay_revoked), Inr r)"
    by (simp add: relay_revoked_def prod_eq_iff)
  then have 3: "dance sha256 relay_crypto (fst relay_revoked) (fst (snd relay_revoked)) [] []"
    by (rule dance_revoke [OF 2])
  obtain r where "snd (snd relay_signed) = Inr r" using relay_steps(4) by (cases "snd (snd relay_signed)") auto
  then have "SignNextCommitment relay_crypto relay_env (fst relay_revoked) (fst (snd relay_revoked)) =
      (fst relay_signed, fst (snd relay_signed), Inr r)"
    by (simp add: relay_signed_def case_prod_beta prod_eq_iff)
  moreover have "heights_left (fst relay_revoked)"
    using relay_steps(3) by (intro heights_leftI) (auto simp: Let_def)
  ultimately show ?thesis by (rule dance_sign [OF 3, rotated])
qed

lemma relay_locks:
  obtains pkg as sfs htlcs where
    "ReceiveRevocation relay_crypto relay_env (fst relay_signed) (fst (snd relay_signed)) relay_revocation =
       (fst relay_locked, fst (snd relay_locked), Inr (pkg, as, sfs, htlcs))" "map pd_LogIndex (as @ sfs) = [0]"
  using relay_steps(5)
  by (cases "snd (snd relay_locked)") (auto simp: relay_locked_def case_prod_beta prod_eq_iff)

subsection \<open>Updates are handed on once\<close>

text \<open>
  C3: In every state that a channel reaches, no update of the other party has been handed on twice;
  and an update in its log has been handed on exactly if it is not a fee update and a commitment of
  the other party that includes it has taken the place of a revoked one.\<close>

theorem updates_forwarded_once:
  assumes "dance sha256 x lc db rs fs"
  shows "distinct fs \<and> (\<forall>(k, p) \<in> set (ul_List (remoteUpdateLog lc)).
    pd_LogIndex p \<in> set fs \<longleftrightarrow> EntryType p \<noteq> FeeUpdate \<and> lockHeight True p \<noteq> 0 \<and>
      lockHeight True p \<le> c_height (hd (remoteCommitChain lc)))"
proof -
  have inv: "dance_inv lc db rs" and ok: "fwd_ok (remoteUpdateLog lc) fs" using dance_invariant [OF assms] by simp_all
  have "pd_LogIndex p \<in> set fs \<longleftrightarrow> EntryType p \<noteq> FeeUpdate \<and> lockHeight True p \<noteq> 0 \<and>
      lockHeight True p \<le> c_height (hd (remoteCommitChain lc))" if "(k, p) \<in> set (ul_List (remoteUpdateLog lc))" for k p
    using fwd_okD(3) [OF ok that] dance_invD(3) [OF inv that] by (simp add: entry_ok_def)
  then show ?thesis using fwd_okD(1) [OF ok] by auto
qed

theorem updates_forwarded_once_witness:
  "(\<exists>rs. dance (\<lambda>d. d) relay_crypto (fst relay_locked) (fst (snd relay_locked)) rs [0]) \<and> distinct [0 :: u64] \<and>
   list_all (\<lambda>(k, p). pd_LogIndex p \<in> {0} \<longleftrightarrow> EntryType p \<noteq> FeeUpdate \<and> lockHeight True p \<noteq> 0 \<and>
      lockHeight True p \<le> c_height (hd (remoteCommitChain (fst relay_locked))))
    (ul_List (remoteUpdateLog (fst relay_locked)))"
proof -
  obtain pkg as sfs htlcs where
    r: "ReceiveRevocation relay_crypto relay_env (fst relay_signed) (fst (snd relay_signed)) relay_revocation =
       (fst relay_locked, fst (snd relay_locked), Inr (pkg, as, sfs, htlcs))" "map pd_LogIndex (as @ sfs) = [0]"
    by (rule relay_locks)
  have d: "dance (\<lambda>d. d) relay_crypto (fst relay_locked) (fst (snd relay_locked))
      [hd (remoteCommitChain (fst relay_signed))] [0]"
    using dance_revocation [OF relay_dance r(1)] r(2) by simp
  from updates_forwarded_once [OF d] d show ?thesis unfolding list_all_iff by auto
qed

text \<open>
  C10: What a revocation hands on is exactly what it locks in: the updates of the other party that
  its new commitment took in and that have not been handed on before.  All of them are part of our
  current commitment too; the references to the forwarding package count up from zero, and the
  package holds the updates in this order.\<close>

theorem forwarded_updates_locked_in:
  fixes lc :: LightningChannel
  defines "h \<equiv> c_height (hd (remoteCommitChain lc)) + 1"
  assumes "dance sha256 x lc db rs fs"
    and "ReceiveRevocation x ev lc db revMsg = (lc', db', Inr (pkg, as, sfs, htlcs))"
  shows "map pd_LogIndex as = map pd_LogIndex (filter (\<lambda>p. EntryType p = Add \<and> lockHeight True p = h)
      (map snd (ul_List (remoteUpdateLog lc)))) \<and>
    map pd_LogIndex sfs = map pd_LogIndex (filter (\<lambda>p. isRemove p \<and> lockHeight True p = h)
      (map snd (ul_List (remoteUpdateLog lc)))) \<and>
    (\<forall>p \<in> set (as @ sfs). lockHeight True p = h \<and> lockHeight False p \<noteq> 0 \<and>
      lockHeight False p \<le> c_height (hd (localCommitChain lc)) \<and> pd_LogIndex p \<notin> set fs) \<and>
    map pd_SourceRef as = map (\<lambda>i. Some \<lparr>ar_Height = h, ar_Index = of_nat i\<rparr>) [0..<length as] \<and>
    pkg = NewFwdPkg (oc_ShortChannelID (channelState lc)) h (map (logUpdateOf (chanID lc)) as)
      (map (logUpdateOf (chanID lc)) sfs)"
proof -
  have inv: "dance_inv lc db rs" and ok: "fwd_ok (remoteUpdateLog lc) fs"
    using dance_invariant [OF assms(2)] by simp_all
  obtain rtail d ltail st es us ours theirs where
    c: "remoteCommitChain lc = [rtail, d]" "c_height d = c_height rtail + 1" "c_height rtail \<noteq> - 1"
    "localCommitChain lc \<noteq> []" "hd (localCommitChain lc) = ltail" and
    f: "fwdLoop (oc_ShortChannelID (channelState lc)) (c_height rtail + 1) (c_height ltail)
       (ul_List (remoteUpdateLog lc)) 0 0 = (es, as, sfs)" and
    pkg: "pkg = NewFwdPkg (oc_ShortChannelID (channelState lc)) (c_height rtail + 1)
       (map (logUpdateOf (chanID lc)) as) (map (logUpdateOf (chanID lc)) sfs)"
    "AdvanceCommitChainTail (ev_io ev) st pkg us
       (db\<lparr>om_RevocationStore := om_RevocationStore db @ [ra_Revocation revMsg]\<rparr>) = Inr db'"
    "compactLogs (localUpdateLog lc) ((remoteUpdateLog lc)\<lparr>ul_List := es\<rparr>) (c_height ltail) (c_height rtail + 1) =
       Some (ours, theirs)"
    "lc' = lc\<lparr>channelState := st, remoteCommitChain := [d], localUpdateLog := ours, remoteUpdateLog := theirs\<rparr>"
    by (rule revocation_locks [OF inv assms(3)])
  have h: "h = c_height rtail + 1" by (simp add: h_def c(1))
  note L = fwdLoop_spec [OF f, folded h]
  have locked: "entry_ok (localCommitChain lc) [rtail, d] p"
    if "p \<in> set (map snd (ul_List (remoteUpdateLog lc)))" for p
    using that dance_invD(3) [OF inv] by (auto simp: c(1))
  have kind: "fwdKind h (c_height ltail) p = (if EntryType p = FeeUpdate \<or> lockHeight True p \<noteq> h then None
      else Some (EntryType p = Add))" if "p \<in> set (map snd (ul_List (remoteUpdateLog lc)))" for p
    unfolding h by (rule fwdKind_locked [OF locked [OF that] c(4,5,3)])
  have pt: "fwdKind h (c_height ltail) p = Some True \<longleftrightarrow> EntryType p = Add \<and> lockHeight True p = h"
    "fwdKind h (c_height ltail) p = Some False \<longleftrightarrow> isRemove p \<and> lockHeight True p = h"
    if "p \<in> set (map snd (ul_List (remoteUpdateLog lc)))" for p
    by (cases "EntryType p"; simp add: kind [OF that] isRemove_def)+
  have fil: "filter (\<lambda>p. fwdKind h (c_height ltail) p = Some True) (map snd (ul_List (remoteUpdateLog lc))) =
      filter (\<lambda>p. EntryType p = Add \<and> lockHeight True p = h) (map snd (ul_List (remoteUpdateLog lc)))"
    "filter (\<lambda>p. fwdKind h (c_height ltail) p = Some False) (map snd (ul_List (remoteUpdateLog lc))) =
      filter (\<lambda>p. isRemove p \<and> lockHeight True p = h) (map snd (ul_List (remoteUpdateLog lc)))"
    by (rule filter_cong [OF refl], erule pt(1)) (rule filter_cong [OF refl], erule pt(2))
  have "lockHeight True p = h \<and> lockHeight False p \<noteq> 0 \<and> lockHeight False p \<le> c_height ltail \<and> pd_LogIndex p \<notin> set fs"
    if p: "p \<in> set (as @ sfs)" for p
  proof -
    obtain k q where q: "(k, q) \<in> set (ul_List (remoteUpdateLog lc))" "unannotated p = unannotated q"
      "fwdKind h (c_height ltail) q \<noteq> None"
      by (rule fwdLoop_mem [OF f [folded h] p])
    have mem: "q \<in> set (map snd (ul_List (remoteUpdateLog lc)))" using q(1) by force
    have hq: "lockHeight True q = h" using q(3) kind [OF mem] by (auto split: if_splits)
    have "hd (localCommitChain lc) \<in> set (localCommitChain lc)" using c(4) by simp
    then have "lockHeight False q \<noteq> 0 \<and> lockHeight False q \<le> c_height ltail \<and> \<not> isForwarded q"
      using locked [OF mem] hq word_Suc [OF c(3)] by (auto simp: entry_ok_def h c(5))
    then show ?thesis
      using hq fwd_okD(3) [OF ok q(1)] lockHeight_unannotated [OF q(2)] unannotatedD(2) [OF q(2)] by simp
  qed
  then show ?thesis
    using map_LogIndex_unannotated [OF L(2)] map_LogIndex_unannotated [OF L(3)] L(4) pkg
    unfolding fil c(5) by (simp add: h [symmetric])
qed

theorem forwarded_updates_locked_in_witness:
  "\<exists>pkg as sfs htlcs.
     ReceiveRevocation relay_crypto relay_env (fst relay_signed) (fst (snd relay_signed)) relay_revocation =
       (fst relay_locked, fst (snd relay_locked), Inr (pkg, as, sfs, htlcs)) \<and>
     map pd_LogIndex (as @ sfs) = [0] \<and> list_all (\<lambda>p. lockHeight False p \<noteq> 0) (as @ sfs)"
proof -
  obtain pkg as sfs htlcs where
    r: "ReceiveRevocation relay_crypto relay_env (fst relay_signed) (fst (snd relay_signed)) relay_revocation =
       (fst relay_locked, fst (snd relay_locked), Inr (pkg, as, sfs, htlcs))" "map pd_LogIndex (as @ sfs) = [0]"
    by (rule relay_locks)
  have "list_all (\<lambda>p. lockHeight False p \<noteq> 0) (as @ sfs)"
    using forwarded_updates_locked_in [OF relay_dance [of "\<lambda>d. d"] r(1)] unfolding list_all_iff by blast
  with r show ?thesis by (intro exI conjI)
qed

subsection \<open>The database\<close>

lemma map_of_heights:
  assumes "map (unat \<circ> c_height) cs = [0..<length cs]" "unat h < length cs"
  shows "map_of (map (\<lambda>c. (c_height c, f c)) cs) h = Some (f (cs ! unat h)) \<and> c_height (cs ! unat h) = h"
proof -
  have u: "unat (c_height (cs ! i)) = i" if "i < length cs" for i
    using arg_cong [OF assms(1), of "\<lambda>xs. xs ! i"] that by simp
  then have h: "c_height (cs ! unat h) = h" using assms(2) by (simp add: word_unat_eq_iff)
  have "distinct (map c_height cs)"
    using arg_cong [OF assms(1), of distinct] by (simp add: distinct_map comp_inj_on_iff inj_on_def)
  then have "map_of (map (\<lambda>c. (c_height c, f c)) cs) (c_height (cs ! unat h)) = Some (f (cs ! unat h))"
    using assms(2) by (intro map_of_is_SomeI) (auto simp: comp_def)
  then show ?thesis using h by simp
qed

text \<open>
  C4: In every state that a channel reaches, memory and disk hold the same commitments: the tail of
  our chain, the tail of the other party's chain and, if there is one, the pending commitment that it
  has not yet revoked for; there is never more than one of these.  Every commitment it has revoked
  can be found in the revocation log under its height, and nothing else can.\<close>

theorem database_matches_memory:
  assumes "dance sha256 x lc db rs fs"
  shows "\<exists>l ls r. localCommitChain lc = l # ls \<and>
    om_LocalCommitment db = toDiskCommit l True \<and> dk_LocalCommitment db = toDiskCommit l True \<and>
    om_RemoteCommitment db = toDiskCommit r False \<and> dk_RemoteCommitment db = toDiskCommit r False \<and>
    (remoteCommitChain lc = [r] \<and> RemoteCommitChainTip db = Inl ErrNoPendingCommit \<or>
     (\<exists>d diff. remoteCommitChain lc = [r, d] \<and> c_height d = c_height r + 1 \<and>
        RemoteCommitChainTip db = Inr diff \<and> cd_Commitment diff = toDiskCommit d False)) \<and>
    unat (c_height r) = length rs \<and>
    (\<forall>h. if h < c_height r
         then FindPreviousState db h = Inr (toDiskCommit (rs ! unat h) False) \<and> c_height (rs ! unat h) = h
         else isl (FindPreviousState db h))"
proof -
  note D = dance_invD [OF conjunct1 [OF dance_invariant [OF assms]]]
  obtain l ls where l: "localCommitChain lc = l # ls"
    using D(2) by (cases "localCommitChain lc") (auto simp: chains_ok_def)
  obtain r where r: "remoteCommitChain lc = [r] \<or> (\<exists>d. remoteCommitChain lc = [r, d] \<and> c_height d = c_height r + 1)"
    using D(2) by (auto simp: chains_ok_def)
  then have hd: "hd (remoteCommitChain lc) = r" by auto
  have disk: "om_LocalCommitment db = toDiskCommit l True" "dk_LocalCommitment db = toDiskCommit l True"
    "om_RemoteCommitment db = toDiskCommit r False" "dk_RemoteCommitment db = toDiskCommit r False"
    and log: "dk_revocationLog db = map (\<lambda>c. (c_height c, toDiskCommit c False)) rs"
    and hs: "map (unat \<circ> c_height) rs = [0..<length rs]" "unat (c_height r) = length rs"
    using D(4) by (simp_all add: disk_ok_def l hd)
  have tip: "remoteCommitChain lc = [r] \<and> RemoteCommitChainTip db = Inl ErrNoPendingCommit \<or>
     (\<exists>d diff. remoteCommitChain lc = [r, d] \<and> c_height d = c_height r + 1 \<and>
        RemoteCommitChainTip db = Inr diff \<and> cd_Commitment diff = toDiskCommit d False)"
    using r D(4) by (auto simp: disk_ok_def RemoteCommitChainTip_def)
  have "if h < c_height r
      then FindPreviousState db h = Inr (toDiskCommit (rs ! unat h) False) \<and> c_height (rs ! unat h) = h
      else isl (FindPreviousState db h)" for h
  proof (cases "h < c_height r")
    case True
    then have lt: "unat h < length rs" using hs(2) by (simp add: word_less_nat_alt)
    then have "rs \<noteq> []" by auto
    then show ?thesis
      using map_of_heights [OF hs(1) lt, of "\<lambda>c. toDiskCommit c False"] True
      by (simp add: FindPreviousState_def fetchChannelLogEntry_def log)
  next
    case False
    have "h \<noteq> c_height c" if "c \<in> set rs" for c
    proof -
      have "unat (c_height c) \<in> set (map (unat \<circ> c_height) rs)" using that by simp
      then have "unat (c_height c) < length rs" unfolding hs(1) by simp
      then show ?thesis using False hs(2) by (auto simp: word_less_nat_alt)
    qed
    then have "map_of (dk_revocationLog db) h = None" unfolding log map_of_eq_None_iff by force
    then show ?thesis using False by (simp add: FindPreviousState_def fetchChannelLogEntry_def)
  qed
  then show ?thesis using l disk tip hs(2) by blast
qed

theorem database_matches_memory_witness:
  "unat (c_height (hd (remoteCommitChain (fst relay_signed)))) = 0 \<and>
   (\<exists>d diff. remoteCommitChain (fst relay_signed) = [hd (remoteCommitChain (fst relay_signed)), d] \<and>
      RemoteCommitChainTip (fst (snd relay_signed)) = Inr diff \<and> cd_Commitment diff = toDiskCommit d False \<or>
    RemoteCommitChainTip (fst (snd relay_signed)) = Inl ErrNoPendingCommit)"
  using database_matches_memory [OF relay_dance [of "\<lambda>d. d"]] by auto

subsection \<open>Outputs of the HTLCs\<close>

definition outputIndexOf :: "bool \<Rightarrow> PaymentDescriptor \<Rightarrow> u32" where
  "outputIndexOf isOurs p = (if isOurs then localOutputIndex p else remoteOutputIndex p)"

definition paidAt :: "MsgTx \<Rightarrow> bool \<Rightarrow> PaymentDescriptor \<Rightarrow> nat \<Rightarrow> bool" where
  "paidAt tx isOurs p i \<longleftrightarrow> i < length (tx_TxOut tx) \<and>
     to_PkScript (tx_TxOut tx ! i) = (if isOurs then ourPkScript p else theirPkScript p) \<and>
     to_Value (tx_TxOut tx ! i) = MilliSatoshi_ToSatoshis (pd_BtcAmount p)"

lemma locateLoop_Inr:
  "locateLoop p pkScript dups outs cltvs i = Inr idx \<Longrightarrow>
     idx \<notin> set dups \<and> (\<exists>j < length outs. idx = of_nat (i + j) \<and> to_PkScript (outs ! j) = pkScript \<and>
       to_Value (outs ! j) = MilliSatoshi_ToSatoshis (pd_BtcAmount p))"
proof (induction outs arbitrary: cltvs i)
  case (Cons out outs)
  obtain cltv cs where c: "cltvs = cltv # cs" using Cons.prems by (cases cltvs) auto
  show ?case
  proof (cases "to_PkScript out = pkScript \<and> to_Value out = MilliSatoshi_ToSatoshis (pd_BtcAmount p) \<and>
         cltv = pd_Timeout p \<and> of_nat i \<notin> set dups")
    case True
    then show ?thesis using Cons.prems by (auto simp: c intro!: exI [of _ 0])
  next
    case False
    then have "locateLoop p pkScript dups outs cs (Suc i) = Inr idx" using Cons.prems c by auto
    from Cons.IH [OF this] obtain j where "idx \<notin> set dups" "j < length outs" "idx = of_nat (Suc i + j)"
      "to_PkScript (outs ! j) = pkScript" "to_Value (outs ! j) = MilliSatoshi_ToSatoshis (pd_BtcAmount p)" by blast
    then show ?thesis by (auto intro!: exI [of _ "Suc j"])
  qed
qed simp

lemma locateOutputIndex_Inr:
  assumes "locateOutputIndex p tx isOurs dups cltvs = Inr (idx, dups')"
  shows "idx \<notin> set (dups (pd_RHash p))" "\<exists>i. idx = of_nat i \<and> paidAt tx isOurs p i"
    "dups' = dups(pd_RHash p := dups (pd_RHash p) @ [idx])"
  using assms unfolding locateOutputIndex_def Let_def paidAt_def
  by (auto split: list.splits sum.splits dest!: locateLoop_Inr)

lemma populateIndex_ok:
  assumes "populateIndex tx isOurs cltvs ps dups = Inr (ps', dups')"
  shows "(\<forall>p \<in> set ps'. (\<exists>i. outputIndexOf isOurs p = of_nat i \<and> paidAt tx isOurs p i) \<and>
      outputIndexOf isOurs p \<notin> set (dups (pd_RHash p)) \<and> outputIndexOf isOurs p \<in> set (dups' (pd_RHash p))) \<and>
    distinct (map (\<lambda>p. (pd_RHash p, outputIndexOf isOurs p)) ps') \<and> (\<forall>h. set (dups h) \<subseteq> set (dups' h))"
  using assms
proof (induction ps arbitrary: dups ps')
  case (Cons p ps)
  obtain idx dups1 where l: "locateOutputIndex p tx isOurs dups cltvs = Inr (idx, dups1)"
    using Cons.prems by (auto split: sum.splits)
  obtain qs where q: "populateIndex tx isOurs cltvs ps dups1 = Inr (qs, dups')"
    "ps' = (if isOurs then p\<lparr>localOutputIndex := idx\<rparr> else p\<lparr>remoteOutputIndex := idx\<rparr>) # qs"
    using Cons.prems l by (auto split: sum.splits)
  define p' where "p' = (if isOurs then p\<lparr>localOutputIndex := idx\<rparr> else p\<lparr>remoteOutputIndex := idx\<rparr>)"
  have p': "outputIndexOf isOurs p' = idx" "pd_RHash p' = pd_RHash p" "paidAt tx isOurs p' = paidAt tx isOurs p"
    by (auto simp: p'_def outputIndexOf_def paidAt_def fun_eq_iff)
  note L = locateOutputIndex_Inr [OF l] and IH = Cons.IH [OF q(1)]
  have sub: "set (dups h) \<subseteq> set (dups1 h)" for h by (auto simp: L(3))
  have "(pd_RHash p', idx) \<notin> set (map (\<lambda>p. (pd_RHash p, outputIndexOf isOurs p)) qs)"
    using IH by (auto simp: L(3) p'(2))
  moreover have up: "set (dups1 h) \<subseteq> set (dups' h)" for h using IH by blast
  moreover have "idx \<in> set (dups' (pd_RHash p))" using up [of "pd_RHash p"] by (auto simp: L(3))
  ultimately show ?case
    using IH L(1,2) sub p' unfolding q(2) p'_def [symmetric] by (auto dest: subsetD [OF sub] subsetD [OF up])
qed simp

text \<open>
  C12: A commitment that \<^verbatim>\<open>fetchCommitmentView\<close> returns pays every one of its HTLCs: the index
  stored with the HTLC is that of an output with its script and its value, and HTLCs with the same
  payment hash have different outputs.  There is no exception for dust, so an HTLC that is left out
  of the transaction as dust makes the construction fail.\<close>

theorem commitment_pays_every_htlc:
  assumes "fetchCommitmentView x ev lc rc oi oh ti th kr = (lc', Inr c)"
  shows "(\<forall>p \<in> set (c_outgoingHTLCs c @ c_incomingHTLCs c).
      \<exists>i. outputIndexOf (\<not> rc) p = of_nat i \<and> paidAt (c_txn c) (\<not> rc) p i) \<and>
    distinct (map (\<lambda>p. (pd_RHash p, outputIndexOf (\<not> rc) p)) (c_outgoingHTLCs c @ c_incomingHTLCs c))"
proof -
  obtain c0 cltvs where c0: "populateHtlcIndexes c0 cltvs = Inr c" "c_isOurs c0 = (\<not> rc)"
    using fetchCommitmentView_InrE [OF assms] by (metis commitment.select_convs(13) newCommitment_def)
  obtain out dups inc dups' where p: "populateIndex (c_txn c0) (\<not> rc) cltvs (c_outgoingHTLCs c0) (\<lambda>_. []) = Inr (out, dups)"
    "populateIndex (c_txn c0) (\<not> rc) cltvs (c_incomingHTLCs c0) dups = Inr (inc, dups')"
    "c = c0\<lparr>c_outgoingHTLCs := out, c_incomingHTLCs := inc\<rparr>"
    using c0 by (auto simp: populateHtlcIndexes_def split: sum.splits prod.splits)
  note O = populateIndex_ok [OF p(1)] and I = populateIndex_ok [OF p(2)]
  have "(\<lambda>p. (pd_RHash p, outputIndexOf (\<not> rc) p)) ` set out \<inter> (\<lambda>p. (pd_RHash p, outputIndexOf (\<not> rc) p)) ` set inc = {}"
    using O I by fastforce
  then show ?thesis using O I by (auto simp: p(3))
qed

theorem commitment_pays_every_htlc_witness:
  "\<exists>lc' c. fetchCommitmentView relay_crypto relay_env relay_received False 0 0 1 1 relay_keys = (lc', Inr c) \<and>
     c_incomingHTLCs c \<noteq> [] \<and> (\<exists>i. paidAt (c_txn c) True (hd (c_incomingHTLCs c)) i)"
proof -
  define r where "r = fetchCommitmentView relay_crypto relay_env relay_received False 0 0 1 1 relay_keys"
  have "(case snd r of Inl e \<Rightarrow> 0 | Inr c \<Rightarrow> length (c_incomingHTLCs c)) = 1" unfolding r_def by code_simp
  then obtain c where c: "snd r = Inr c" "c_incomingHTLCs c \<noteq> []" by (cases "snd r") fastforce+
  then have rc: "fetchCommitmentView relay_crypto relay_env relay_received False 0 0 1 1 relay_keys = (fst r, Inr c)"
    by (simp add: r_def prod_eq_iff)
  have "hd (c_incomingHTLCs c) \<in> set (c_outgoingHTLCs c @ c_incomingHTLCs c)" using c(2) by simp
  then have "\<exists>i. paidAt (c_txn c) True (hd (c_incomingHTLCs c)) i"
    using commitment_pays_every_htlc [OF rc] by auto
  with rc c(2) show ?thesis by blast
qed

end
