(* ===== verification/Wire_OnionError.thy ===== *)
theory Wire_OnionError
  imports Wire_Protocol
begin

text \<open>
  \<^verbatim>\<open>lnwire/onion_error.go\<close>: the failures that travel back through the onion.  A failure is a code and,
  for some, a payload; inside the onion it is padded to a fixed size.  The variable-length integers of
  \<^verbatim>\<open>lnd/tlv\<close> are parameters.
\<close>

subsection \<open>Failure codes\<close>

type_synonym FailCode = u16

definition FailureMessageLength :: nat where "FailureMessageLength = 256"

definition FlagBadOnion :: FailCode where "FlagBadOnion = 0x8000"
definition FlagPerm :: FailCode where "FlagPerm = 0x4000"
definition FlagNode :: FailCode where "FlagNode = 0x2000"
definition FlagUpdate :: FailCode where "FlagUpdate = 0x1000"

definition CodeNone :: FailCode where "CodeNone = 0"
definition CodeInvalidRealm :: FailCode where "CodeInvalidRealm = FlagBadOnion OR 1"
definition CodeTemporaryNodeFailure :: FailCode where "CodeTemporaryNodeFailure = FlagNode OR 2"
definition CodePermanentNodeFailure :: FailCode where "CodePermanentNodeFailure = FlagPerm OR FlagNode OR 2"
definition CodeRequiredNodeFeatureMissing :: FailCode where "CodeRequiredNodeFeatureMissing = FlagPerm OR FlagNode OR 3"
definition CodeInvalidOnionVersion :: FailCode where "CodeInvalidOnionVersion = FlagBadOnion OR FlagPerm OR 4"
definition CodeInvalidOnionHmac :: FailCode where "CodeInvalidOnionHmac = FlagBadOnion OR FlagPerm OR 5"
definition CodeInvalidOnionKey :: FailCode where "CodeInvalidOnionKey = FlagBadOnion OR FlagPerm OR 6"
definition CodeTemporaryChannelFailure :: FailCode where "CodeTemporaryChannelFailure = FlagUpdate OR 7"
definition CodePermanentChannelFailure :: FailCode where "CodePermanentChannelFailure = FlagPerm OR 8"
definition CodeRequiredChannelFeatureMissing :: FailCode where "CodeRequiredChannelFeatureMissing = FlagPerm OR 9"
definition CodeUnknownNextPeer :: FailCode where "CodeUnknownNextPeer = FlagPerm OR 10"
definition CodeAmountBelowMinimum :: FailCode where "CodeAmountBelowMinimum = FlagUpdate OR 11"
definition CodeFeeInsufficient :: FailCode where "CodeFeeInsufficient = FlagUpdate OR 12"
definition CodeIncorrectCltvExpiry :: FailCode where "CodeIncorrectCltvExpiry = FlagUpdate OR 13"
definition CodeExpiryTooSoon :: FailCode where "CodeExpiryTooSoon = FlagUpdate OR 14"
definition CodeChannelDisabled :: FailCode where "CodeChannelDisabled = FlagUpdate OR 20"
definition CodeIncorrectOrUnknownPaymentDetails :: FailCode where "CodeIncorrectOrUnknownPaymentDetails = FlagPerm OR 15"
definition CodeIncorrectPaymentAmount :: FailCode where "CodeIncorrectPaymentAmount = FlagPerm OR 16"
definition CodeFinalExpiryTooSoon :: FailCode where "CodeFinalExpiryTooSoon = 17"
definition CodeFinalIncorrectCltvExpiry :: FailCode where "CodeFinalIncorrectCltvExpiry = 18"
definition CodeFinalIncorrectHtlcAmount :: FailCode where "CodeFinalIncorrectHtlcAmount = 19"
definition CodeExpiryTooFar :: FailCode where "CodeExpiryTooFar = 21"
definition CodeInvalidOnionPayload :: FailCode where "CodeInvalidOnionPayload = FlagPerm OR 22"
definition CodeMPPTimeout :: FailCode where "CodeMPPTimeout = 23"

lemmas fail_code_defs = FlagBadOnion_def FlagPerm_def FlagNode_def FlagUpdate_def
  CodeInvalidRealm_def CodeTemporaryNodeFailure_def CodePermanentNodeFailure_def
  CodeRequiredNodeFeatureMissing_def CodeInvalidOnionVersion_def CodeInvalidOnionHmac_def
  CodeInvalidOnionKey_def CodeTemporaryChannelFailure_def CodePermanentChannelFailure_def
  CodeRequiredChannelFeatureMissing_def CodeUnknownNextPeer_def CodeAmountBelowMinimum_def
  CodeFeeInsufficient_def CodeIncorrectCltvExpiry_def CodeExpiryTooSoon_def
  CodeChannelDisabled_def CodeIncorrectOrUnknownPaymentDetails_def CodeIncorrectPaymentAmount_def
  CodeFinalExpiryTooSoon_def CodeFinalIncorrectCltvExpiry_def CodeFinalIncorrectHtlcAmount_def
  CodeExpiryTooFar_def CodeInvalidOnionPayload_def CodeMPPTimeout_def

subsection \<open>Failures\<close>

datatype FailureMessage =
    FailInvalidRealm
  | FailTemporaryNodeFailure
  | FailPermanentNodeFailure
  | FailRequiredNodeFeatureMissing
  | FailPermanentChannelFailure
  | FailRequiredChannelFeatureMissing
  | FailUnknownNextPeer
  | FailIncorrectPaymentAmount
  | FailIncorrectDetails UnitPrec11 u32
  | FailFinalExpiryTooSoon
  | FailInvalidOnionVersion bytes
  | FailInvalidOnionHmac bytes
  | FailInvalidOnionKey bytes
  | FailTemporaryChannelFailure "ChannelUpdate option"
  | FailAmountBelowMinimum UnitPrec11 ChannelUpdate
  | FailFeeInsufficient UnitPrec11 ChannelUpdate
  | FailIncorrectCltvExpiry u32 ChannelUpdate
  | FailExpiryTooSoon ChannelUpdate
  | FailChannelDisabled u16 ChannelUpdate
  | FailFinalIncorrectCltvExpiry u32
  | FailFinalIncorrectHtlcAmount UnitPrec11
  | FailExpiryTooFar
  | InvalidOnionPayload u64 u16
  | FailMPPTimeout

fun Failure_Code :: "FailureMessage \<Rightarrow> FailCode" where
  "Failure_Code FailInvalidRealm = CodeInvalidRealm"
| "Failure_Code FailTemporaryNodeFailure = CodeTemporaryNodeFailure"
| "Failure_Code FailPermanentNodeFailure = CodePermanentNodeFailure"
| "Failure_Code FailRequiredNodeFeatureMissing = CodeRequiredNodeFeatureMissing"
| "Failure_Code FailPermanentChannelFailure = CodePermanentChannelFailure"
| "Failure_Code FailRequiredChannelFeatureMissing = CodeRequiredChannelFeatureMissing"
| "Failure_Code FailUnknownNextPeer = CodeUnknownNextPeer"
| "Failure_Code FailIncorrectPaymentAmount = CodeIncorrectPaymentAmount"
| "Failure_Code (FailIncorrectDetails _ _) = CodeIncorrectOrUnknownPaymentDetails"
| "Failure_Code FailFinalExpiryTooSoon = CodeFinalExpiryTooSoon"
| "Failure_Code (FailInvalidOnionVersion _) = CodeInvalidOnionVersion"
| "Failure_Code (FailInvalidOnionHmac _) = CodeInvalidOnionHmac"
| "Failure_Code (FailInvalidOnionKey _) = CodeInvalidOnionKey"
| "Failure_Code (FailTemporaryChannelFailure _) = CodeTemporaryChannelFailure"
| "Failure_Code (FailAmountBelowMinimum _ _) = CodeAmountBelowMinimum"
| "Failure_Code (FailFeeInsufficient _ _) = CodeFeeInsufficient"
| "Failure_Code (FailIncorrectCltvExpiry _ _) = CodeIncorrectCltvExpiry"
| "Failure_Code (FailExpiryTooSoon _) = CodeExpiryTooSoon"
| "Failure_Code (FailChannelDisabled _ _) = CodeChannelDisabled"
| "Failure_Code (FailFinalIncorrectCltvExpiry _) = CodeFinalIncorrectCltvExpiry"
| "Failure_Code (FailFinalIncorrectHtlcAmount _) = CodeFinalIncorrectHtlcAmount"
| "Failure_Code FailExpiryTooFar = CodeExpiryTooFar"
| "Failure_Code (InvalidOnionPayload _ _) = CodeInvalidOnionPayload"
| "Failure_Code FailMPPTimeout = CodeMPPTimeout"

definition NewFailIncorrectDetails :: "UnitPrec11 \<Rightarrow> u32 \<Rightarrow> FailureMessage" where
  "NewFailIncorrectDetails amt height = FailIncorrectDetails amt height"

definition NewInvalidOnionVersion :: "(bytes \<Rightarrow> bytes) \<Rightarrow> bytes \<Rightarrow> FailureMessage" where
  "NewInvalidOnionVersion sha256 onion = FailInvalidOnionVersion (sha256 onion)"

definition NewInvalidOnionHmac :: "(bytes \<Rightarrow> bytes) \<Rightarrow> bytes \<Rightarrow> FailureMessage" where
  "NewInvalidOnionHmac sha256 onion = FailInvalidOnionHmac (sha256 onion)"

definition NewInvalidOnionKey :: "(bytes \<Rightarrow> bytes) \<Rightarrow> bytes \<Rightarrow> FailureMessage" where
  "NewInvalidOnionKey sha256 onion = FailInvalidOnionKey (sha256 onion)"

subsection \<open>Payloads\<close>

record varint =
  WriteVarInt :: "u64 \<Rightarrow> writer"
  ReadVarInt :: "u64 reader"

definition writeOnionErrorChanUpdate :: "ChannelUpdate \<Rightarrow> writer" where
  "writeOnionErrorChanUpdate u buf =
     (case ChannelUpdate_Encode u [] of
        (b, Some e) \<Rightarrow> (buf, Some e)
      | (b, None) \<Rightarrow> wseq [WriteUint16 (word_of_nat (length b)), WriteBytes b] buf)"

text \<open>A look at the first two bytes; it needs both.\<close>

definition Peek2 :: "bytes \<Rightarrow> wire_error + bytes" where
  "Peek2 bs = (if 2 \<le> length bs then Inr (take 2 bs) else Inl EOF)"

definition parseChannelUpdateCompatabilityMode :: "ChannelUpdate reader" where
  "parseChannelUpdateCompatabilityMode bs =
     (case Peek2 bs of
        Inl e \<Rightarrow> Inl e
      | Inr maybeTypeBytes \<Rightarrow>
          ChannelUpdate_Decode ChannelUpdate_zero
            (if BigEndianUint16 maybeTypeBytes = MsgChannelUpdate then drop 2 bs else bs))"

definition FailIncorrectDetails_Decode :: "FailureMessage reader" where
  "FailIncorrectDetails_Decode bs =
     (case Read_UnitPrec11 bs of
        Inl e \<Rightarrow> if e = EOF then Inr (FailIncorrectDetails 0 0, bs) else Inl e
      | Inr (amount, bs1) \<Rightarrow>
          (case Read_uint32 bs1 of
             Inl e \<Rightarrow> if e = EOF then Inr (FailIncorrectDetails amount 0, bs1) else Inl e
           | Inr (height, bs2) \<Rightarrow> Inr (FailIncorrectDetails amount height, bs2)))"

definition FailTemporaryChannelFailure_Encode :: "ChannelUpdate option \<Rightarrow> writer" where
  "FailTemporaryChannelFailure_Encode u buf =
     (case (case u of None \<Rightarrow> ([], None) | Some up \<Rightarrow> ChannelUpdate_Encode up []) of
        (b, Some e) \<Rightarrow> (buf, Some e)
      | (payload, None) \<Rightarrow> wseq [WriteUint16 (word_of_nat (length payload)), WriteBytes payload] buf)"

definition FailTemporaryChannelFailure_Decode :: "FailureMessage reader" where
  "FailTemporaryChannelFailure_Decode = rbind Read_uint16 (\<lambda>len.
     if len \<noteq> 0 then rbind parseChannelUpdateCompatabilityMode (\<lambda>u. rret (FailTemporaryChannelFailure (Some u)))
     else rret (FailTemporaryChannelFailure None))"

text \<open>The length of an update is read and not used.\<close>

definition chanUpdateField :: "(ChannelUpdate \<Rightarrow> FailureMessage) \<Rightarrow> FailureMessage reader" where
  "chanUpdateField f = rbind Read_uint16 (\<lambda>len. rbind parseChannelUpdateCompatabilityMode (\<lambda>u. rret (f u)))"

text \<open>The payload of the failures that are \<^verbatim>\<open>Serializable\<close>; the others have none.\<close>

fun Failure_Encode :: "varint \<Rightarrow> FailureMessage \<Rightarrow> writer" where
  "Failure_Encode t (FailIncorrectDetails amount height) = wseq [WriteUint64 amount, WriteUint32 height]"
| "Failure_Encode t (FailInvalidOnionVersion sha) = WriteBytes sha"
| "Failure_Encode t (FailInvalidOnionHmac sha) = WriteBytes sha"
| "Failure_Encode t (FailInvalidOnionKey sha) = WriteBytes sha"
| "Failure_Encode t (FailTemporaryChannelFailure u) = FailTemporaryChannelFailure_Encode u"
| "Failure_Encode t (FailAmountBelowMinimum amt u) = wseq [WriteUint64 amt, writeOnionErrorChanUpdate u]"
| "Failure_Encode t (FailFeeInsufficient amt u) = wseq [WriteUint64 amt, writeOnionErrorChanUpdate u]"
| "Failure_Encode t (FailIncorrectCltvExpiry cltv u) = wseq [WriteUint32 cltv, writeOnionErrorChanUpdate u]"
| "Failure_Encode t (FailExpiryTooSoon u) = writeOnionErrorChanUpdate u"
| "Failure_Encode t (FailChannelDisabled flags u) = wseq [WriteUint16 flags, writeOnionErrorChanUpdate u]"
| "Failure_Encode t (FailFinalIncorrectCltvExpiry cltv) = WriteUint32 cltv"
| "Failure_Encode t (FailFinalIncorrectHtlcAmount amt) = WriteUint64 amt"
| "Failure_Encode t (InvalidOnionPayload typ offset) = wseq [WriteVarInt t typ, WriteUint16 offset]"
| "Failure_Encode t _ = WriteBytes []"

text \<open>\<^verbatim>\<open>makeEmptyOnionError\<close> and the decoder of what it makes.\<close>

fun makeEmptyOnionError :: "FailCode \<Rightarrow> wire_error + FailureMessage" where
  "makeEmptyOnionError code =
     (if code = CodeInvalidRealm then Inr FailInvalidRealm
      else if code = CodeTemporaryNodeFailure then Inr FailTemporaryNodeFailure
      else if code = CodePermanentNodeFailure then Inr FailPermanentNodeFailure
      else if code = CodeRequiredNodeFeatureMissing then Inr FailRequiredNodeFeatureMissing
      else if code = CodePermanentChannelFailure then Inr FailPermanentChannelFailure
      else if code = CodeRequiredChannelFeatureMissing then Inr FailRequiredChannelFeatureMissing
      else if code = CodeUnknownNextPeer then Inr FailUnknownNextPeer
      else if code = CodeIncorrectOrUnknownPaymentDetails then Inr (FailIncorrectDetails 0 0)
      else if code = CodeIncorrectPaymentAmount then Inr FailIncorrectPaymentAmount
      else if code = CodeFinalExpiryTooSoon then Inr FailFinalExpiryTooSoon
      else if code = CodeInvalidOnionVersion then Inr (FailInvalidOnionVersion (replicate 32 0))
      else if code = CodeInvalidOnionHmac then Inr (FailInvalidOnionHmac (replicate 32 0))
      else if code = CodeInvalidOnionKey then Inr (FailInvalidOnionKey (replicate 32 0))
      else if code = CodeTemporaryChannelFailure then Inr (FailTemporaryChannelFailure None)
      else if code = CodeAmountBelowMinimum then Inr (FailAmountBelowMinimum 0 ChannelUpdate_zero)
      else if code = CodeFeeInsufficient then Inr (FailFeeInsufficient 0 ChannelUpdate_zero)
      else if code = CodeIncorrectCltvExpiry then Inr (FailIncorrectCltvExpiry 0 ChannelUpdate_zero)
      else if code = CodeExpiryTooSoon then Inr (FailExpiryTooSoon ChannelUpdate_zero)
      else if code = CodeChannelDisabled then Inr (FailChannelDisabled 0 ChannelUpdate_zero)
      else if code = CodeFinalIncorrectCltvExpiry then Inr (FailFinalIncorrectCltvExpiry 0)
      else if code = CodeFinalIncorrectHtlcAmount then Inr (FailFinalIncorrectHtlcAmount 0)
      else if code = CodeExpiryTooFar then Inr FailExpiryTooFar
      else if code = CodeInvalidOnionPayload then Inr (InvalidOnionPayload 0 0)
      else if code = CodeMPPTimeout then Inr FailMPPTimeout
      else Inl (ErrUnknownFailCode code))"

declare makeEmptyOnionError.simps [simp del]

fun Failure_Decode :: "varint \<Rightarrow> FailureMessage \<Rightarrow> FailureMessage reader" where
  "Failure_Decode t (FailIncorrectDetails _ _) = FailIncorrectDetails_Decode"
| "Failure_Decode t (FailInvalidOnionVersion _) = rbind (Read_bytes 32) (\<lambda>sha. rret (FailInvalidOnionVersion sha))"
| "Failure_Decode t (FailInvalidOnionHmac _) = rbind (Read_bytes 32) (\<lambda>sha. rret (FailInvalidOnionHmac sha))"
| "Failure_Decode t (FailInvalidOnionKey _) = rbind (Read_bytes 32) (\<lambda>sha. rret (FailInvalidOnionKey sha))"
| "Failure_Decode t (FailTemporaryChannelFailure _) = FailTemporaryChannelFailure_Decode"
| "Failure_Decode t (FailAmountBelowMinimum _ _) = rbind Read_UnitPrec11 (\<lambda>amt. chanUpdateField (FailAmountBelowMinimum amt))"
| "Failure_Decode t (FailFeeInsufficient _ _) = rbind Read_UnitPrec11 (\<lambda>amt. chanUpdateField (FailFeeInsufficient amt))"
| "Failure_Decode t (FailIncorrectCltvExpiry _ _) = rbind Read_uint32 (\<lambda>cltv. chanUpdateField (FailIncorrectCltvExpiry cltv))"
| "Failure_Decode t (FailExpiryTooSoon _) = chanUpdateField FailExpiryTooSoon"
| "Failure_Decode t (FailChannelDisabled _ _) = rbind Read_uint16 (\<lambda>flags. chanUpdateField (FailChannelDisabled flags))"
| "Failure_Decode t (FailFinalIncorrectCltvExpiry _) = rbind Read_uint32 (\<lambda>cltv. rret (FailFinalIncorrectCltvExpiry cltv))"
| "Failure_Decode t (FailFinalIncorrectHtlcAmount _) = rbind Read_UnitPrec11 (\<lambda>amt. rret (FailFinalIncorrectHtlcAmount amt))"
| "Failure_Decode t (InvalidOnionPayload _ _) = rbind (ReadVarInt t) (\<lambda>typ. rbind Read_uint16 (\<lambda>offset. rret (InvalidOnionPayload typ offset)))"
| "Failure_Decode t f = rret f"

subsection \<open>Messages and onions\<close>

definition EncodeFailureMessage :: "varint \<Rightarrow> FailureMessage \<Rightarrow> writer" where
  "EncodeFailureMessage t f = wseq [WriteBytes (PutUint16 (Failure_Code f)), Failure_Encode t f]"

text \<open>Every error is wrapped in a message of its own.\<close>

definition wrapped :: "'a reader \<Rightarrow> 'a reader" where
  "wrapped r bs = (case r bs of Inl e \<Rightarrow> Inl (ErrOnionError e) | Inr v \<Rightarrow> Inr v)"

definition DecodeFailureMessage :: "varint \<Rightarrow> FailureMessage reader" where
  "DecodeFailureMessage t = rbind (wrapped (ReadFull 2)) (\<lambda>codeBytes.
     case makeEmptyOnionError (BigEndianUint16 codeBytes) of
       Inl e \<Rightarrow> rfail (ErrOnionError e)
     | Inr failure \<Rightarrow> wrapped (Failure_Decode t failure))"

definition EncodeFailure :: "varint \<Rightarrow> FailureMessage \<Rightarrow> writer" where
  "EncodeFailure t f buf =
     (case EncodeFailureMessage t f [] of
        (_, Some e) \<Rightarrow> (buf, Some e)
      | (failureMessage, None) \<Rightarrow>
          if length failureMessage > FailureMessageLength then (buf, Some (ErrFailureTooLong (length failureMessage)))
          else (let pad = replicate (FailureMessageLength - length failureMessage) 0
                in wseq [WriteUint16 (word_of_nat (length failureMessage)), WriteBytes failureMessage,
                     WriteUint16 (word_of_nat (length pad)), WriteBytes pad] buf))"

definition DecodeFailure :: "varint \<Rightarrow> bytes \<Rightarrow> wire_error + FailureMessage" where
  "DecodeFailure t bs =
     (case wrapped Read_uint16 bs of
        Inl e \<Rightarrow> Inl e
      | Inr (failureLength, bs1) \<Rightarrow>
          if unat failureLength > FailureMessageLength then Inl (ErrFailureTooLong (unat failureLength))
          else case wrapped (ReadFull (unat failureLength)) bs1 of
                 Inl e \<Rightarrow> Inl e
               | Inr (failureData, _) \<Rightarrow>
                   (case DecodeFailureMessage t failureData of Inl e \<Rightarrow> Inl e | Inr (f, _) \<Rightarrow> Inr f))"

subsection \<open>Reading back\<close>

definition varint_ok :: "varint \<Rightarrow> bool" where
  "varint_ok t \<longleftrightarrow> (\<forall>n. \<exists>b. (\<forall>buf. WriteVarInt t n buf = (buf @ b, None)) \<and> (\<forall>rest. ReadVarInt t (b @ rest) = Inr (n, rest)))"

text \<open>An update whose signature does not start with the number of the message type.\<close>

definition update_wf :: "ChannelUpdate \<Rightarrow> bool" where
  "update_wf u \<longleftrightarrow> ChannelUpdate_wf u \<and> BigEndianUint16 (take 2 (cu_Signature u)) \<noteq> MsgChannelUpdate"

fun failure_wf :: "FailureMessage \<Rightarrow> bool" where
  "failure_wf (FailInvalidOnionVersion sha) \<longleftrightarrow> length sha = 32"
| "failure_wf (FailInvalidOnionHmac sha) \<longleftrightarrow> length sha = 32"
| "failure_wf (FailInvalidOnionKey sha) \<longleftrightarrow> length sha = 32"
| "failure_wf (FailTemporaryChannelFailure (Some u)) \<longleftrightarrow> update_wf u"
| "failure_wf (FailAmountBelowMinimum _ u) \<longleftrightarrow> update_wf u"
| "failure_wf (FailFeeInsufficient _ u) \<longleftrightarrow> update_wf u"
| "failure_wf (FailIncorrectCltvExpiry _ u) \<longleftrightarrow> update_wf u"
| "failure_wf (FailExpiryTooSoon u) \<longleftrightarrow> update_wf u"
| "failure_wf (FailChannelDisabled _ u) \<longleftrightarrow> update_wf u"
| "failure_wf _ \<longleftrightarrow> True"

fun failure_norm :: "FailureMessage \<Rightarrow> FailureMessage" where
  "failure_norm (FailTemporaryChannelFailure u) = FailTemporaryChannelFailure (map_option ChannelUpdate_norm u)"
| "failure_norm (FailAmountBelowMinimum a u) = FailAmountBelowMinimum a (ChannelUpdate_norm u)"
| "failure_norm (FailFeeInsufficient a u) = FailFeeInsufficient a (ChannelUpdate_norm u)"
| "failure_norm (FailIncorrectCltvExpiry c u) = FailIncorrectCltvExpiry c (ChannelUpdate_norm u)"
| "failure_norm (FailExpiryTooSoon u) = FailExpiryTooSoon (ChannelUpdate_norm u)"
| "failure_norm (FailChannelDisabled fl u) = FailChannelDisabled fl (ChannelUpdate_norm u)"
| "failure_norm f = f"

lemma update_bytes:
  assumes "ChannelUpdate_wf u"
  obtains b where "\<And>buf. ChannelUpdate_Encode u buf = (buf @ b, None)" "ChannelUpdate_Decode ChannelUpdate_zero b = Inr (ChannelUpdate_norm u, [])"
    "take 2 b = take 2 (cu_Signature u)" "2 \<le> length b"
proof -
  obtain b where b: "\<And>buf. ChannelUpdate_Encode u buf = (buf @ b, None)" "ChannelUpdate_Decode ChannelUpdate_zero b = Inr (ChannelUpdate_norm u, [])"
    using channel_update.payload [OF assms] by blast
  obtain r where "b = cu_Signature u @ r"
    using b(1) [of "[]"] assms by (auto simp: ChannelUpdate_Encode_def ChannelUpdate_wf_def wire_simps split: if_splits)
  then show ?thesis using that b assms by (auto simp: ChannelUpdate_wf_def)
qed

lemma update_field:
  assumes "update_wf u"
  shows "\<exists>b. (\<forall>buf. writeOnionErrorChanUpdate u buf = (buf @ PutUint16 (word_of_nat (length b)) @ b, None)) \<and>
    (\<forall>buf. FailTemporaryChannelFailure_Encode (Some u) buf = (buf @ PutUint16 (word_of_nat (length b)) @ b, None)) \<and>
    parseChannelUpdateCompatabilityMode b = Inr (ChannelUpdate_norm u, []) \<and> 0 < length b"
proof -
  obtain b where b: "\<And>buf. ChannelUpdate_Encode u buf = (buf @ b, None)" "ChannelUpdate_Decode ChannelUpdate_zero b = Inr (ChannelUpdate_norm u, [])"
    "take 2 b = take 2 (cu_Signature u)" "2 \<le> length b" using update_bytes assms unfolding update_wf_def by blast
  have "b \<noteq> []" using b(4) by auto
  then show ?thesis
    using b assms
    by (intro exI [of _ b])
      (simp_all add: writeOnionErrorChanUpdate_def FailTemporaryChannelFailure_Encode_def parseChannelUpdateCompatabilityMode_def
        Peek2_def update_wf_def wire_simps)
qed

lemma chanUpdateField_bytes:
  "parseChannelUpdateCompatabilityMode b = Inr (u, []) \<Longrightarrow> chanUpdateField f (PutUint16 n @ b) = Inr (f u, [])"
  by (simp add: chanUpdateField_def wire_simps)

lemma update_payload:
  assumes "update_wf u" "\<And>buf. w buf = (buf @ p, None)" "\<And>rest. r (p @ rest) = chanUpdateField g rest"
  shows "\<exists>b. (\<forall>buf. wseq [w, writeOnionErrorChanUpdate u] buf = (buf @ b, None)) \<and>
    (length b \<le> 256 \<longrightarrow> r b = Inr (g (ChannelUpdate_norm u), []))"
proof -
  obtain b where b: "\<And>buf. writeOnionErrorChanUpdate u buf = (buf @ PutUint16 (word_of_nat (length b)) @ b, None)"
    "\<And>buf. FailTemporaryChannelFailure_Encode (Some u) buf = (buf @ PutUint16 (word_of_nat (length b)) @ b, None)"
    "parseChannelUpdateCompatabilityMode b = Inr (ChannelUpdate_norm u, [])" "0 < length b"
    using update_field [OF assms(1)] by blast
  have "r (p @ PutUint16 (word_of_nat (length b)) @ b) = Inr (g (ChannelUpdate_norm u), [])"
    unfolding assms(3) by (rule chanUpdateField_bytes [OF b(3)])
  moreover have "wseq [w, writeOnionErrorChanUpdate u] buf = (buf @ p @ PutUint16 (word_of_nat (length b)) @ b, None)" for buf
    by (simp add: assms(2) b(1))
  ultimately show ?thesis by blast
qed

lemma makeEmptyOnionError_Code:
  "\<exists>f0. makeEmptyOnionError (Failure_Code f) = Inr f0 \<and> Failure_Decode t f0 = Failure_Decode t f"
  by (cases f) (simp_all add: makeEmptyOnionError.simps fail_code_defs)

text \<open>A field that is the last one.\<close>

lemma read_last:
  "Read_uint16 (PutUint16 a) = Inr (a, [])" "Read_uint32 (PutUint32 b) = Inr (b, [])"
  "Read_UnitPrec11 (PutUint64 c) = Inr (c, [])" "length sha = 32 \<Longrightarrow> Read_bytes 32 sha = Inr (sha, [])"
proof -
  have "Read_uint16 (PutUint16 a @ []) = Inr (a, [])" "Read_uint32 (PutUint32 b @ []) = Inr (b, [])"
    "Read_UnitPrec11 (PutUint64 c @ []) = Inr (c, [])" "length sha = 32 \<Longrightarrow> Read_bytes 32 (sha @ []) = Inr (sha, [])"
    by (simp_all only: wire_simps)
  then show "Read_uint16 (PutUint16 a) = Inr (a, [])" "Read_uint32 (PutUint32 b) = Inr (b, [])"
    "Read_UnitPrec11 (PutUint64 c) = Inr (c, [])" "length sha = 32 \<Longrightarrow> Read_bytes 32 sha = Inr (sha, [])" by simp_all
qed

lemma no_update_bytes: "FailTemporaryChannelFailure_Decode (PutUint16 0) = Inr (FailTemporaryChannelFailure None, [])"
  by (simp add: FailTemporaryChannelFailure_Decode_def rbind_def read_last rret_def)

lemma DecodeFailure_framed:
  assumes "length m \<le> 256"
  shows "DecodeFailure t (PutUint16 (word_of_nat (length m)) @ m @ rest) =
    (case DecodeFailureMessage t m of Inl e \<Rightarrow> Inl e | Inr (f, _) \<Rightarrow> Inr f)"
proof -
  have "unat (word_of_nat (length m) :: u16) = length m" using assms by (simp add: unsigned_of_nat take_bit_nat_eq_self)
  moreover have "Read_uint16 (PutUint16 (word_of_nat (length m)) @ m @ rest) = Inr (word_of_nat (length m), m @ rest)"
    by (simp add: wire_simps)
  ultimately show ?thesis using assms by (simp add: DecodeFailure_def wrapped_def FailureMessageLength_def ReadFull_def)
qed

lemma failure_payload:
  assumes "failure_wf f" "varint_ok t"
  shows "\<exists>b. (\<forall>buf. Failure_Encode t f buf = (buf @ b, None)) \<and>
    (length b \<le> 256 \<longrightarrow> Failure_Decode t f b = Inr (failure_norm f, []))"
proof (cases f)
  case (FailTemporaryChannelFailure u)
  then show ?thesis
  proof (cases u)
    case None
    then show ?thesis using FailTemporaryChannelFailure
      by (intro exI [of _ "PutUint16 0"]) (simp add: FailTemporaryChannelFailure_Encode_def no_update_bytes wire_simps)
  next
    case (Some v)
    then have "update_wf v" using assms(1) FailTemporaryChannelFailure by simp
    then obtain b where b: "\<And>buf. writeOnionErrorChanUpdate v buf = (buf @ PutUint16 (word_of_nat (length b)) @ b, None)"
    "\<And>buf. FailTemporaryChannelFailure_Encode (Some v) buf = (buf @ PutUint16 (word_of_nat (length b)) @ b, None)"
    "parseChannelUpdateCompatabilityMode b = Inr (ChannelUpdate_norm v, [])" "0 < length b"
      using update_field by blast
    have "(word_of_nat (length b) :: u16) \<noteq> 0" if "length b \<le> 256"
      using b(4) that by (simp add: word_of_nat_eq_0_iff nat_dvd_not_less)
    then show ?thesis using b FailTemporaryChannelFailure Some
      by (intro exI [of _ "PutUint16 (word_of_nat (length b)) @ b"]) (simp add: FailTemporaryChannelFailure_Decode_def wire_simps)
  qed
next
  case (FailAmountBelowMinimum a u)
  then have "update_wf u" using assms(1) by simp
  from update_payload [OF this, of "WriteUint64 a" "PutUint64 a" "Failure_Decode t f" "FailAmountBelowMinimum a"] show ?thesis
    using FailAmountBelowMinimum by (simp add: wire_simps)
next
  case (FailFeeInsufficient a u)
  then have "update_wf u" using assms(1) by simp
  from update_payload [OF this, of "WriteUint64 a" "PutUint64 a" "Failure_Decode t f" "FailFeeInsufficient a"] show ?thesis
    using FailFeeInsufficient by (simp add: wire_simps)
next
  case (FailIncorrectCltvExpiry a u)
  then have "update_wf u" using assms(1) by simp
  from update_payload [OF this, of "WriteUint32 a" "PutUint32 a" "Failure_Decode t f" "FailIncorrectCltvExpiry a"] show ?thesis
    using FailIncorrectCltvExpiry by (simp add: wire_simps)
next
  case (FailChannelDisabled a u)
  then have "update_wf u" using assms(1) by simp
  from update_payload [OF this, of "WriteUint16 a" "PutUint16 a" "Failure_Decode t f" "FailChannelDisabled a"] show ?thesis
    using FailChannelDisabled by (simp add: wire_simps)
next
  case (FailExpiryTooSoon u)
  then have "update_wf u" using assms(1) by simp
  then obtain b where b: "\<And>buf. writeOnionErrorChanUpdate u buf = (buf @ PutUint16 (word_of_nat (length b)) @ b, None)"
    "\<And>buf. FailTemporaryChannelFailure_Encode (Some u) buf = (buf @ PutUint16 (word_of_nat (length b)) @ b, None)"
    "parseChannelUpdateCompatabilityMode b = Inr (ChannelUpdate_norm u, [])" "0 < length b"
    using update_field by blast
  then show ?thesis using FailExpiryTooSoon chanUpdateField_bytes [OF b(3), of FailExpiryTooSoon]
    by (intro exI [of _ "PutUint16 (word_of_nat (length b)) @ b"]) simp
next
  case (InvalidOnionPayload ty offset)
  obtain b where "\<And>buf. WriteVarInt t ty buf = (buf @ b, None)" "\<And>rest. ReadVarInt t (b @ rest) = Inr (ty, rest)"
    using assms(2) unfolding varint_ok_def by blast
  then show ?thesis using InvalidOnionPayload by (intro exI [of _ "b @ PutUint16 offset"]) (simp add: wire_simps read_last)
qed (use assms(1) in \<open>auto simp: FailIncorrectDetails_Decode_def wire_simps read_last\<close>)

text \<open>
  C20: A failure that is encoded for the onion takes 260 bytes whatever it says, and is read back from
  them, with updates as they come back from the wire.  Updates must not have a signature that starts
  with the number of the update message.
\<close>

theorem failure_roundtrip:
  assumes "failure_wf f" "varint_ok t" "EncodeFailure t f [] = (bs, None)"
  shows "length bs = FailureMessageLength + 4 \<and> DecodeFailure t bs = Inr (failure_norm f)"
proof -
  obtain b where b: "\<And>buf. Failure_Encode t f buf = (buf @ b, None)"
    "length b \<le> 256 \<longrightarrow> Failure_Decode t f b = Inr (failure_norm f, [])" using failure_payload [OF assms(1,2)] by blast
  let ?m = "PutUint16 (Failure_Code f) @ b"
  have e: "EncodeFailureMessage t f [] = (?m, None)" by (simp add: EncodeFailureMessage_def b(1) wire_simps)
  have len: "length ?m \<le> 256" using assms(3) e by (auto simp: EncodeFailure_def FailureMessageLength_def split: if_splits)
  let ?pad = "PutUint16 (word_of_nat (256 - length ?m)) @ replicate (256 - length ?m) 0"
  have bs: "bs = PutUint16 (word_of_nat (length ?m)) @ ?m @ ?pad"
    using assms(3) len by (simp add: EncodeFailure_def e FailureMessageLength_def Let_def wire_simps)
  obtain f0 where f0: "makeEmptyOnionError (Failure_Code f) = Inr f0" "Failure_Decode t f0 = Failure_Decode t f"
    using makeEmptyOnionError_Code by blast
  have "DecodeFailureMessage t ?m = Inr (failure_norm f, [])"
    using b(2) len f0 by (simp add: DecodeFailureMessage_def wrapped_def rbind_def ReadFull_def)
  then have "DecodeFailure t bs = Inr (failure_norm f)" using DecodeFailure_framed [OF len] by (simp add: bs)
  then show ?thesis using len by (simp add: bs FailureMessageLength_def)
qed

text \<open>
  An update that comes with its type in front, as some nodes send it, is read as the same update; but
  the type is 1258 here, and not the 258 that such nodes send.
\<close>

theorem compatibility_mode_skips_type:
  assumes "ChannelUpdate_wf u" "ChannelUpdate_Encode u [] = (b, None)"
  shows "parseChannelUpdateCompatabilityMode (PutUint16 MsgChannelUpdate @ b) = Inr (ChannelUpdate_norm u, [])"
proof -
  obtain b' where "\<And>buf. ChannelUpdate_Encode u buf = (buf @ b', None)" "ChannelUpdate_Decode ChannelUpdate_zero b' = Inr (ChannelUpdate_norm u, [])"
    using update_bytes [OF assms(1)] by blast
  then show ?thesis using assms(2) by (simp add: parseChannelUpdateCompatabilityMode_def Peek2_def)
qed

subsection \<open>Samples\<close>

definition sample_varint :: varint where
  "sample_varint = \<lparr>WriteVarInt = (\<lambda>n. WriteBytes (PutUint64 n)),
     ReadVarInt = rbind (ReadFull 8) (\<lambda>b. rret (BigEndianUint64 b))\<rparr>"

lemma sample_varint_ok: "varint_ok sample_varint"
  unfolding varint_ok_def by (intro allI exI [of _ "PutUint64 n" for n]) (simp add: sample_varint_def wire_simps)

definition onion_update :: "byte \<Rightarrow> byte \<Rightarrow> ChannelUpdate" where
  "onion_update a b = ChannelUpdate_zero\<lparr>cu_Signature := a # b # replicate 62 7, cu_Timestamp := 5\<rparr>"

theorem failure_roundtrip_witness:
  "DecodeFailure sample_varint (fst (EncodeFailure sample_varint (FailFeeInsufficient 9 (onion_update 1 2)) [])) =
     Inr (FailFeeInsufficient 9 (onion_update 1 2))"
proof -
  let ?f = "FailFeeInsufficient 9 (onion_update 1 2)"
  have "failure_wf ?f" by code_simp
  moreover have "snd (EncodeFailure sample_varint ?f []) = None" by code_simp
  then have "EncodeFailure sample_varint ?f [] = (fst (EncodeFailure sample_varint ?f []), None)" by (metis prod.collapse)
  moreover have "failure_norm ?f = ?f" by code_simp
  ultimately show ?thesis using failure_roundtrip [OF _ sample_varint_ok] by metis
qed

theorem compatibility_mode_skips_type_witness:
  "parseChannelUpdateCompatabilityMode (PutUint16 MsgChannelUpdate @ fst (ChannelUpdate_Encode (onion_update 1 2) [])) =
     Inr (onion_update 1 2, [])"
proof -
  have "ChannelUpdate_wf (onion_update 1 2)" "ChannelUpdate_norm (onion_update 1 2) = onion_update 1 2"
    "snd (ChannelUpdate_Encode (onion_update 1 2) []) = None" by code_simp+
  then show ?thesis using compatibility_mode_skips_type by (metis prod.collapse)
qed


end
