(* ===== verification/Htlcswitch_Circuits.thy ===== *)
theory Htlcswitch_Circuits
  imports Channeldb_Commit "HOL-Library.AList" "HOL-Library.List_Lexorder"
begin

text \<open>
  \<^verbatim>\<open>htlcswitch/circuit.go\<close> and \<^verbatim>\<open>htlcswitch/circuit_map.go\<close>: the circuits that lead the answer to a
  forwarded HTLC back to where the HTLC came from.

  The maps of the switch hold pointers, and a circuit is changed through one map and read through
  another; so the circuits live in a heap, a pointer is a position in it, and the maps are
  association lists of pointers.  On disk a circuit is the bytes that \<^verbatim>\<open>Encode\<close> writes, under the bytes
  of its incoming key; a keystone is the incoming key under the outgoing one.  The argument \<open>io\<close> says
  whether a transaction of \<^verbatim>\<open>kvdb\<close> commits.
\<close>

subsection \<open>Circuit keys\<close>

definition CircuitKey_SetBytes :: "bytes \<Rightarrow> CircuitKey option" where
  "CircuitKey_SetBytes bs =
     (if length bs \<noteq> 16 then None
      else Some \<lparr>ck_ChanID = NewShortChanIDFromInt (BigEndianUint64 (take 8 bs)),
                 ck_HtlcID = BigEndianUint64 (drop 8 bs)\<rparr>)"

definition CircuitKey_Bytes :: "CircuitKey \<Rightarrow> bytes" where
  "CircuitKey_Bytes k = PutUint64 (ToUint64 (ck_ChanID k)) @ PutUint64 (ck_HtlcID k)"

definition CircuitKey_Encode :: "CircuitKey \<Rightarrow> writer" where
  "CircuitKey_Encode k = WriteBytes (PutUint64 (ToUint64 (ck_ChanID k)) @ PutUint64 (ck_HtlcID k))"

definition CircuitKey_Decode :: "CircuitKey reader" where
  "CircuitKey_Decode = rbind (ReadFull 16) (\<lambda>bs.
     rret \<lparr>ck_ChanID = NewShortChanIDFromInt (BigEndianUint64 (take 8 bs)),
           ck_HtlcID = BigEndianUint64 (drop 8 bs)\<rparr>)"

definition hop_Source :: ShortChannelID where
  "hop_Source = \<lparr>BlockHeight = 0, TxIndex = 0, TxPosition = 0\<rparr>"

definition EmptyCircuitKey :: CircuitKey where
  "EmptyCircuitKey = \<lparr>ck_ChanID = hop_Source, ck_HtlcID = 0\<rparr>"

subsection \<open>Error encrypters\<close>

text \<open>
  The one implementation of the interface: the ephemeral key and, unless it was only decoded so far,
  the encrypter of the onion library.
\<close>

datatype ('pk, 'o) ErrorEncrypter = SphinxErrorEncrypter (EphemeralKey: 'pk) (OnionErrorEncrypter: "'o option")

definition EncrypterTypeNone :: byte where "EncrypterTypeNone = 0"
definition EncrypterTypeSphinx :: byte where "EncrypterTypeSphinx = 1"

definition Sphinx_Encode :: "('pk, 'z) ext_scheme \<Rightarrow> ('pk, 'o) ErrorEncrypter \<Rightarrow> writer" where
  "Sphinx_Encode x e = WriteBytes (SerializeCompressed x (EphemeralKey e))"

definition Sphinx_Decode :: "('pk, 'z) ext_scheme \<Rightarrow> ('pk, 'o) ErrorEncrypter reader" where
  "Sphinx_Decode x = rbind (ReadFull 33) (\<lambda>ephemeral.
     case ParsePubKey x ephemeral of
       None \<Rightarrow> rfail ErrParsePubKey
     | Some k \<Rightarrow> rret (SphinxErrorEncrypter k None))"

type_synonym ('pk, 'o) extracter = "'pk \<Rightarrow> ('pk, 'o) ErrorEncrypter option \<times> u16"

definition Reextract :: "('pk, 'o) extracter \<Rightarrow> ('pk, 'o) ErrorEncrypter \<Rightarrow> ('pk, 'o) ErrorEncrypter option" where
  "Reextract extract s =
     (let (obfuscator, failcode) = extract (EphemeralKey s)
      in if failcode \<noteq> 0 then None
         else case obfuscator of
                None \<Rightarrow> None
              | Some sphinx \<Rightarrow> Some (SphinxErrorEncrypter (EphemeralKey s) (OnionErrorEncrypter sphinx)))"

subsection \<open>Payment circuits\<close>

record ('pk, 'o) PaymentCircuit =
  pc_AddRef :: AddRef
  pc_Incoming :: CircuitKey
  pc_Outgoing :: "CircuitKey option"
  pc_PaymentHash :: bytes
  pc_IncomingAmount :: UnitPrec11
  pc_OutgoingAmount :: UnitPrec11
  pc_AssetId :: u32
  pc_ErrorEncrypter :: "('pk, 'o) ErrorEncrypter option"
  pc_LoadedFromDisk :: bool

text \<open>The fields of a packet that a circuit is made from.\<close>

record ('pk, 'o) htlcPacket =
  incomingChanID :: ShortChannelID
  incomingHTLCID :: u64
  outgoingChanID :: ShortChannelID
  outgoingHTLCID :: u64
  pkt_sourceRef :: "AddRef option"
  pkt_incomingAmount :: UnitPrec11
  pkt_amount :: UnitPrec11
  pkt_assetId :: u32
  pkt_obfuscator :: "('pk, 'o) ErrorEncrypter option"

definition pkt_inKey :: "('pk, 'o) htlcPacket \<Rightarrow> CircuitKey" where
  "pkt_inKey p = \<lparr>ck_ChanID = incomingChanID p, ck_HtlcID = incomingHTLCID p\<rparr>"

definition pkt_outKey :: "('pk, 'o) htlcPacket \<Rightarrow> CircuitKey" where
  "pkt_outKey p = \<lparr>ck_ChanID = outgoingChanID p, ck_HtlcID = outgoingHTLCID p\<rparr>"

record Keystone =
  ks_InKey :: CircuitKey
  ks_OutKey :: CircuitKey

definition pkt_keystone :: "('pk, 'o) htlcPacket \<Rightarrow> Keystone" where
  "pkt_keystone p = \<lparr>ks_InKey = pkt_inKey p, ks_OutKey = pkt_outKey p\<rparr>"

definition newPaymentCircuit :: "bytes \<Rightarrow> ('pk, 'o) htlcPacket \<Rightarrow> ('pk, 'o) PaymentCircuit" where
  "newPaymentCircuit hash pkt =
     \<lparr>pc_AddRef = (case pkt_sourceRef pkt of None \<Rightarrow> \<lparr>ar_Height = 0, ar_Index = 0\<rparr> | Some r \<Rightarrow> r),
      pc_Incoming = \<lparr>ck_ChanID = incomingChanID pkt, ck_HtlcID = incomingHTLCID pkt\<rparr>,
      pc_Outgoing = None, pc_PaymentHash = hash, pc_IncomingAmount = pkt_incomingAmount pkt,
      pc_OutgoingAmount = pkt_amount pkt, pc_AssetId = pkt_assetId pkt,
      pc_ErrorEncrypter = pkt_obfuscator pkt, pc_LoadedFromDisk = False\<rparr>"

definition HasKeystone :: "('pk, 'o) PaymentCircuit \<Rightarrow> bool" where
  "HasKeystone c \<longleftrightarrow> pc_Outgoing c \<noteq> None"

definition OutKey :: "('pk, 'o) PaymentCircuit \<Rightarrow> CircuitKey" where
  "OutKey c = (case pc_Outgoing c of Some k \<Rightarrow> k | None \<Rightarrow> EmptyCircuitKey)"

definition PaymentCircuit_Encode :: "('pk, 'z) ext_scheme \<Rightarrow> ('pk, 'o) PaymentCircuit \<Rightarrow> writer" where
  "PaymentCircuit_Encode x c = wseq [AddRef_Encode (pc_AddRef c), CircuitKey_Encode (pc_Incoming c),
     WriteBytes (pc_PaymentHash c), WriteBytes (PutUint64 (pc_IncomingAmount c)),
     WriteBytes (PutUint64 (pc_OutgoingAmount c)), WriteBytes (PutUint32 (pc_AssetId c)),
     (case pc_ErrorEncrypter c of
        None \<Rightarrow> WriteBytes [EncrypterTypeNone]
      | Some e \<Rightarrow> wseq [WriteBytes [EncrypterTypeSphinx], Sphinx_Encode x e])]"

definition PaymentCircuit_Decode :: "('pk, 'z) ext_scheme \<Rightarrow> ('pk, 'o) PaymentCircuit reader" where
  "PaymentCircuit_Decode x =
     rbind AddRef_Decode (\<lambda>addRef. rbind CircuitKey_Decode (\<lambda>incoming. rbind (ReadFull 32) (\<lambda>hash.
     rbind (ReadFull 8) (\<lambda>inAmt. rbind (ReadFull 8) (\<lambda>outAmt. rbind (ReadFull 4) (\<lambda>assetId.
     rbind (ReadFull 1) (\<lambda>encrypterType.
       let c = \<lparr>pc_AddRef = addRef, pc_Incoming = incoming, pc_Outgoing = None, pc_PaymentHash = hash,
                pc_IncomingAmount = BigEndianUint64 inAmt, pc_OutgoingAmount = BigEndianUint64 outAmt,
                pc_AssetId = BigEndianUint32 assetId, pc_ErrorEncrypter = None, pc_LoadedFromDisk = False\<rparr>
       in if encrypterType = [EncrypterTypeNone] then rret c
          else if encrypterType = [EncrypterTypeSphinx]
          then rbind (Sphinx_Decode x) (\<lambda>e. rret (c\<lparr>pc_ErrorEncrypter := Some e\<rparr>))
          else rfail (ErrUnknownEncrypterType (hd encrypterType)))))))))"

subsection \<open>The circuit map\<close>

datatype circuit_error =
    ErrCorruptedCircuitMap
  | ErrUnknownCircuit
  | ErrCircuitClosing
  | ErrDuplicateKeystone
  | ErrCircuitCodec wire_error
  | ErrInvalidCircuitKeyLen
  | ErrReextract
  | ErrFetchChannels
  | ErrCircuitWrite

record ('pk, 'o) circuitMap =
  cm_heap :: "('pk, 'o) PaymentCircuit list"
  cm_pending :: "(CircuitKey \<times> nat) list"
  cm_opened :: "(CircuitKey \<times> nat) list"
  cm_closed :: "CircuitKey list"
  cm_hashIndex :: "(bytes \<times> CircuitKey list) list"

record circuitDb =
  circuitAdds :: "(bytes, bytes) bucket option"
  circuitKeystones :: "(bytes, bytes) bucket option"

record CircuitFwdActions =
  Adds :: "nat list"
  Drops :: "nat list"
  Fails :: "nat list"

record ChannelCloseSummary =
  ccs_ShortChanID :: ShortChannelID
  ccs_IsPending :: bool

record activeChannel =
  ac_ShortChanID :: ShortChannelID
  ac_IsPending :: bool
  ac_Db :: ChanDb

record ('pk, 'o) CircuitMapConfig =
  FetchAllOpenChannels :: "activeChannel list option"
  FetchClosedChannels :: "ChannelCloseSummary list option"
  ExtractErrorEncrypter :: "('pk, 'o) extracter"

text \<open>Writing a field of the circuit that a pointer leads to.\<close>

definition setOutgoing :: "nat \<Rightarrow> CircuitKey option \<Rightarrow> ('pk, 'o) circuitMap \<Rightarrow> ('pk, 'o) circuitMap" where
  "setOutgoing p k cm = cm\<lparr>cm_heap := (cm_heap cm)[p := (cm_heap cm ! p)\<lparr>pc_Outgoing := k\<rparr>]\<rparr>"

definition addCircuitToHashIndex :: "('pk, 'o) PaymentCircuit \<Rightarrow> (bytes \<times> CircuitKey list) list \<Rightarrow>
    (bytes \<times> CircuitKey list) list" where
  "addCircuitToHashIndex c idx =
     AList.update (pc_PaymentHash c)
       (List.insert (OutKey c) (case map_of idx (pc_PaymentHash c) of None \<Rightarrow> [] | Some ks \<Rightarrow> ks)) idx"

definition removeCircuitFromHashIndex :: "('pk, 'o) PaymentCircuit \<Rightarrow> (bytes \<times> CircuitKey list) list \<Rightarrow>
    (bytes \<times> CircuitKey list) list" where
  "removeCircuitFromHashIndex c idx =
     (case map_of idx (pc_PaymentHash c) of
        None \<Rightarrow> idx
      | Some ks \<Rightarrow>
          (let ks' = removeAll (OutKey c) ks
           in if ks' = [] then AList.delete (pc_PaymentHash c) idx else AList.update (pc_PaymentHash c) ks' idx))"

definition LookupCircuit :: "('pk, 'o) circuitMap \<Rightarrow> CircuitKey \<Rightarrow> nat option" where
  "LookupCircuit cm inKey = map_of (cm_pending cm) inKey"

definition LookupOpenCircuit :: "('pk, 'o) circuitMap \<Rightarrow> CircuitKey \<Rightarrow> nat option" where
  "LookupOpenCircuit cm outKey = map_of (cm_opened cm) outKey"

definition LookupByPaymentHash :: "('pk, 'o) circuitMap \<Rightarrow> bytes \<Rightarrow> nat list" where
  "LookupByPaymentHash cm hash =
     (case map_of (cm_hashIndex cm) hash of
        None \<Rightarrow> []
      | Some ks \<Rightarrow> List.map_filter (\<lambda>k. map_of (cm_opened cm) k) ks)"

definition NumPending :: "('pk, 'o) circuitMap \<Rightarrow> nat" where
  "NumPending cm = length (cm_pending cm)"

definition NumOpen :: "('pk, 'o) circuitMap \<Rightarrow> nat" where
  "NumOpen cm = length (cm_opened cm)"

subsection \<open>Committing and opening circuits\<close>

text \<open>The first pass of \<^verbatim>\<open>CommitCircuits\<close>: adds, drops, fails, and what fails if the write fails.\<close>

fun commitLoop :: "('pk, 'o) PaymentCircuit list \<Rightarrow> nat list \<Rightarrow> (CircuitKey \<times> nat) list \<Rightarrow>
    (CircuitKey \<times> nat) list \<times> CircuitFwdActions \<times> nat list" where
  "commitLoop heap [] pending = (pending, \<lparr>Adds = [], Drops = [], Fails = []\<rparr>, [])"
| "commitLoop heap (p # ps) pending =
     (case map_of pending (pc_Incoming (heap ! p)) of
        Some q \<Rightarrow>
          (let (pending', a, addFails) = commitLoop heap ps pending
           in if HasKeystone (heap ! q) \<or> \<not> pc_LoadedFromDisk (heap ! q)
              then (pending', a\<lparr>Drops := p # Drops a\<rparr>, addFails)
              else (pending', a\<lparr>Fails := p # Fails a\<rparr>, p # addFails))
      | None \<Rightarrow>
          (let (pending', a, addFails) = commitLoop heap ps (AList.update (pc_Incoming (heap ! p)) p pending)
           in (pending', a\<lparr>Adds := p # Adds a\<rparr>, p # addFails)))"

fun encodeCircuits :: "('pk, 'z) ext_scheme \<Rightarrow> ('pk, 'o) PaymentCircuit list \<Rightarrow> wire_error + bytes list" where
  "encodeCircuits x [] = Inr []"
| "encodeCircuits x (c # cs) =
     (case PaymentCircuit_Encode x c [] of
        (b, Some e) \<Rightarrow> Inl e
      | (b, None) \<Rightarrow> (case encodeCircuits x cs of Inl e \<Rightarrow> Inl e | Inr bs \<Rightarrow> Inr (b # bs)))"

definition putCircuits :: "('pk, 'o) PaymentCircuit list \<Rightarrow> bytes list \<Rightarrow> (bytes, bytes) bucket \<Rightarrow> (bytes, bytes) bucket" where
  "putCircuits cs bs b = fold (\<lambda>(c, v). bucketPut (CircuitKey_Bytes (pc_Incoming c)) v) (zip cs bs) b"

definition CommitCircuits :: "('pk, 'z) ext_scheme \<Rightarrow> bool \<Rightarrow> nat list \<Rightarrow> ('pk, 'o) circuitMap \<Rightarrow> circuitDb \<Rightarrow>
    ('pk, 'o) circuitMap \<times> circuitDb \<times> CircuitFwdActions \<times> circuit_error option" where
  "CommitCircuits x io circuits cm db =
     (let (pending, actions, addFails) = commitLoop (cm_heap cm) circuits (cm_pending cm);
          cm1 = cm\<lparr>cm_pending := pending\<rparr>;
          adds = map ((!) (cm_heap cm)) (Adds actions);
          failed = \<lparr>Adds = [], Drops = Drops actions, Fails = addFails\<rparr>
      in if Adds actions = [] then (cm1, db, actions, None)
         else case encodeCircuits x adds of
                Inl e \<Rightarrow> (cm1, db, failed, Some (ErrCircuitCodec e))
              | Inr bs \<Rightarrow>
                  (case (if io then circuitAdds db else None) of
                     Some b \<Rightarrow> (cm1, db\<lparr>circuitAdds := Some (putCircuits adds bs b)\<rparr>, actions, None)
                   | None \<Rightarrow>
                       (cm1\<lparr>cm_pending := fold (\<lambda>c. AList.delete (pc_Incoming c)) adds pending\<rparr>, db, failed,
                        Some (if circuitAdds db = None then ErrCorruptedCircuitMap else ErrCircuitWrite))))"

fun openCheck :: "('pk, 'o) circuitMap \<Rightarrow> Keystone list \<Rightarrow> circuit_error + nat list" where
  "openCheck cm [] = Inr []"
| "openCheck cm (ks # kss) =
     (if map_of (cm_opened cm) (ks_OutKey ks) \<noteq> None then Inl ErrDuplicateKeystone
      else case map_of (cm_pending cm) (ks_InKey ks) of
             None \<Rightarrow> Inl ErrUnknownCircuit
           | Some p \<Rightarrow> (case openCheck cm kss of Inl e \<Rightarrow> Inl e | Inr ps \<Rightarrow> Inr (p # ps)))"

definition openOne :: "nat \<Rightarrow> Keystone \<Rightarrow> ('pk, 'o) circuitMap \<Rightarrow> ('pk, 'o) circuitMap" where
  "openOne p ks cm =
     (let cm1 = setOutgoing p (Some (ks_OutKey ks)) cm
      in cm1\<lparr>cm_opened := AList.update (ks_OutKey ks) p (cm_opened cm1),
             cm_hashIndex := addCircuitToHashIndex (cm_heap cm1 ! p) (cm_hashIndex cm1)\<rparr>)"

definition putKeystones :: "Keystone list \<Rightarrow> (bytes, bytes) bucket \<Rightarrow> (bytes, bytes) bucket" where
  "putKeystones kss b = fold (\<lambda>ks. bucketPut (CircuitKey_Bytes (ks_OutKey ks)) (CircuitKey_Bytes (ks_InKey ks))) kss b"

definition OpenCircuits :: "bool \<Rightarrow> Keystone list \<Rightarrow> ('pk, 'o) circuitMap \<Rightarrow> circuitDb \<Rightarrow>
    ('pk, 'o) circuitMap \<times> circuitDb \<times> circuit_error option" where
  "OpenCircuits io keystones cm db =
     (if keystones = [] then (cm, db, None)
      else case openCheck cm keystones of
             Inl e \<Rightarrow> (cm, db, Some e)
           | Inr openedCircuits \<Rightarrow>
               (case circuitKeystones db of
                  None \<Rightarrow> (cm, db, Some ErrCorruptedCircuitMap)
                | Some b \<Rightarrow>
                    if \<not> io then (cm, db, Some ErrCircuitWrite)
                    else (fold (\<lambda>(p, ks). openOne p ks) (zip openedCircuits keystones) cm,
                          db\<lparr>circuitKeystones := Some (putKeystones keystones b)\<rparr>, None)))"

subsection \<open>Closing and deleting circuits\<close>

definition FailCircuit :: "CircuitKey \<Rightarrow> ('pk, 'o) circuitMap \<Rightarrow> circuit_error + nat \<times> ('pk, 'o) circuitMap" where
  "FailCircuit inKey cm =
     (case map_of (cm_pending cm) inKey of
        None \<Rightarrow> Inl ErrUnknownCircuit
      | Some p \<Rightarrow> if inKey \<in> set (cm_closed cm) then Inl ErrCircuitClosing
                  else Inr (p, cm\<lparr>cm_closed := inKey # cm_closed cm\<rparr>))"

definition CloseCircuit :: "CircuitKey \<Rightarrow> ('pk, 'o) circuitMap \<Rightarrow> circuit_error + nat \<times> ('pk, 'o) circuitMap" where
  "CloseCircuit outKey cm =
     (case map_of (cm_opened cm) outKey of
        None \<Rightarrow> Inl ErrUnknownCircuit
      | Some p \<Rightarrow> (let inKey = pc_Incoming (cm_heap cm ! p)
                   in if inKey \<in> set (cm_closed cm) then Inl ErrCircuitClosing
                      else Inr (p, cm\<lparr>cm_closed := inKey # cm_closed cm\<rparr>)))"

text \<open>
  The circuits that were removed with their keys, and the keys that had been marked as closed.
\<close>

definition deleteOne :: "CircuitKey \<Rightarrow> ('pk, 'o) circuitMap \<times> (CircuitKey \<times> nat) list \<times> CircuitKey list \<Rightarrow>
    ('pk, 'o) circuitMap \<times> (CircuitKey \<times> nat) list \<times> CircuitKey list" where
  "deleteOne inKey s =
     (let cm = fst s; removed = fst (snd s); closing = snd (snd s)
      in case map_of (cm_pending cm) inKey of
           None \<Rightarrow> s
         | Some p \<Rightarrow>
             (let c = cm_heap cm ! p;
                  cm1 = cm\<lparr>cm_pending := AList.delete inKey (cm_pending cm),
                          cm_closed := removeAll inKey (cm_closed cm)\<rparr>;
                  cm2 = (if HasKeystone c
                         then cm1\<lparr>cm_opened := AList.delete (OutKey c) (cm_opened cm1),
                                 cm_hashIndex := removeCircuitFromHashIndex c (cm_hashIndex cm1)\<rparr>
                         else cm1)
              in (cm2, AList.update inKey p removed,
                  if inKey \<in> set (cm_closed cm) then inKey # closing else closing)))"

text \<open>The write: \<open>None\<close> if a bucket is missing.\<close>

fun deleteOnDisk :: "('pk, 'o) PaymentCircuit list \<Rightarrow> circuitDb \<Rightarrow> circuitDb option" where
  "deleteOnDisk [] db = Some db"
| "deleteOnDisk (c # cs) db =
     (if HasKeystone c \<and> circuitKeystones db = None \<or> circuitAdds db = None then None
      else deleteOnDisk cs
        (db\<lparr>circuitKeystones := (if HasKeystone c
               then map_option (bucketDelete (CircuitKey_Bytes (OutKey c))) (circuitKeystones db)
               else circuitKeystones db),
            circuitAdds := map_option (bucketDelete (CircuitKey_Bytes (pc_Incoming c))) (circuitAdds db)\<rparr>))"

definition undoDelete :: "CircuitKey list \<Rightarrow> CircuitKey \<times> nat \<Rightarrow> ('pk, 'o) circuitMap \<Rightarrow> ('pk, 'o) circuitMap" where
  "undoDelete closing kp cm =
     (let inKey = fst kp; p = snd kp; c = cm_heap cm ! p;
          cm1 = cm\<lparr>cm_pending := AList.update inKey p (cm_pending cm),
                  cm_closed := (if inKey \<in> set closing then inKey # cm_closed cm else cm_closed cm)\<rparr>
      in if HasKeystone c
         then cm1\<lparr>cm_opened := AList.update (OutKey c) p (cm_opened cm1),
                 cm_hashIndex := addCircuitToHashIndex c (cm_hashIndex cm1)\<rparr>
         else cm1)"

definition DeleteCircuits :: "bool \<Rightarrow> CircuitKey list \<Rightarrow> ('pk, 'o) circuitMap \<Rightarrow> circuitDb \<Rightarrow>
    ('pk, 'o) circuitMap \<times> circuitDb \<times> circuit_error option" where
  "DeleteCircuits io inKeys cm db =
     (let s = fold deleteOne inKeys (cm, [], []);
          cm1 = fst s; removed = fst (snd s); closing = snd (snd s);
          disk = deleteOnDisk (map (\<lambda>(k, p). cm_heap cm1 ! p) removed) db
      in case (if io then disk else None) of
           Some db' \<Rightarrow> (cm1, db', None)
         | None \<Rightarrow> (fold (undoDelete closing) removed cm1, db,
                    Some (if disk = None then ErrCorruptedCircuitMap else ErrCircuitWrite)))"

subsection \<open>Trimming\<close>

text \<open>
  The loop counts up from \<open>start\<close> until a key has no open circuit.  It ends because each round
  removes a key.
\<close>

lemma length_delete_less: "map_of al k = Some v \<Longrightarrow> length (AList.delete k al) < length al"
  by (induction al) (auto simp: AList.delete_eq le_imp_less_Suc split: if_splits)

function trimLoop :: "ShortChannelID \<Rightarrow> u64 \<Rightarrow> ('pk, 'o) circuitMap \<Rightarrow> ('pk, 'o) circuitMap \<times> CircuitKey list" where
  "trimLoop chanID i cm =
     (let outKey = \<lparr>ck_ChanID = chanID, ck_HtlcID = i\<rparr>
      in case map_of (cm_opened cm) outKey of
           None \<Rightarrow> (cm, [])
         | Some p \<Rightarrow>
             (let cm1 = setOutgoing p None cm;
                  cm2 = cm1\<lparr>cm_opened := AList.delete outKey (cm_opened cm1),
                            cm_hashIndex := removeCircuitFromHashIndex (cm_heap cm1 ! p) (cm_hashIndex cm1)\<rparr>;
                  r = trimLoop chanID (i + 1) cm2
              in (fst r, outKey # snd r)))"
  by pat_completeness auto
termination
  by (relation "measure (\<lambda>(_, _, cm). length (cm_opened cm))") (auto simp: setOutgoing_def length_delete_less)

declare trimLoop.simps [simp del]

definition TrimOpenCircuits :: "bool \<Rightarrow> ShortChannelID \<Rightarrow> u64 \<Rightarrow> ('pk, 'o) circuitMap \<Rightarrow> circuitDb \<Rightarrow>
    ('pk, 'o) circuitMap \<times> circuitDb \<times> circuit_error option" where
  "TrimOpenCircuits io chanID start cm db =
     (let r = trimLoop chanID start cm
      in if snd r = [] then (fst r, db, None)
         else case circuitKeystones db of
                None \<Rightarrow> (fst r, db, Some ErrCorruptedCircuitMap)
              | Some b \<Rightarrow>
                  if \<not> io then (fst r, db, Some ErrCircuitWrite)
                  else (fst r, db\<lparr>circuitKeystones := Some (fold (\<lambda>k. bucketDelete (CircuitKey_Bytes k)) (snd r) b)\<rparr>, None))"

fun trimAllOpenCircuits :: "bool \<Rightarrow> activeChannel list \<Rightarrow> ('pk, 'o) circuitMap \<Rightarrow> circuitDb \<Rightarrow>
    ('pk, 'o) circuitMap \<times> circuitDb \<times> circuit_error option" where
  "trimAllOpenCircuits io [] cm db = (cm, db, None)"
| "trimAllOpenCircuits io (ch # chs) cm db =
     (if ac_IsPending ch \<or> ac_ShortChanID ch = hop_Source then trimAllOpenCircuits io chs cm db
      else case TrimOpenCircuits io (ac_ShortChanID ch) (NextLocalHtlcIndex (ac_Db ch)) cm db of
             (cm', db', Some e) \<Rightarrow> (cm', db', Some e)
           | (cm', db', None) \<Rightarrow> trimAllOpenCircuits io chs cm' db')"

subsection \<open>Starting up\<close>

definition initBuckets :: "bool \<Rightarrow> circuitDb \<Rightarrow> circuit_error + circuitDb" where
  "initBuckets io db =
     (if \<not> io then Inl ErrCircuitWrite
      else Inr \<lparr>circuitAdds = Some (case circuitAdds db of None \<Rightarrow> [] | Some b \<Rightarrow> b),
                circuitKeystones = Some (case circuitKeystones db of None \<Rightarrow> [] | Some b \<Rightarrow> b)\<rparr>)"

definition decodeCircuit :: "('pk, 'z) ext_scheme \<Rightarrow> ('pk, 'o) extracter \<Rightarrow> bytes \<Rightarrow>
    circuit_error + ('pk, 'o) PaymentCircuit" where
  "decodeCircuit x extract v =
     (case PaymentCircuit_Decode x v of
        Inl e \<Rightarrow> Inl (ErrCircuitCodec e)
      | Inr (c, _) \<Rightarrow>
          (case pc_ErrorEncrypter c of
             None \<Rightarrow> Inr c
           | Some enc \<Rightarrow> (case Reextract extract enc of
                 None \<Rightarrow> Inl ErrReextract
               | Some enc' \<Rightarrow> Inr (c\<lparr>pc_ErrorEncrypter := Some enc'\<rparr>))))"

fun decodeKeystones :: "(bytes, bytes) bucket \<Rightarrow> circuit_error + Keystone list" where
  "decodeKeystones [] = Inr []"
| "decodeKeystones ((k, v) # b) =
     (case CircuitKey_SetBytes v of
        None \<Rightarrow> Inl ErrInvalidCircuitKeyLen
      | Some inKey \<Rightarrow> (case CircuitKey_SetBytes k of
            None \<Rightarrow> Inl ErrInvalidCircuitKeyLen
          | Some outKey \<Rightarrow> (case decodeKeystones b of
                Inl e \<Rightarrow> Inl e
              | Inr kss \<Rightarrow> Inr (\<lparr>ks_InKey = inKey, ks_OutKey = outKey\<rparr> # kss))))"

fun decodeCircuits :: "('pk, 'z) ext_scheme \<Rightarrow> ('pk, 'o) extracter \<Rightarrow> (bytes, bytes) bucket \<Rightarrow>
    circuit_error + ('pk, 'o) PaymentCircuit list" where
  "decodeCircuits x extract [] = Inr []"
| "decodeCircuits x extract ((_, v) # b) =
     (case decodeCircuit x extract v of
        Inl e \<Rightarrow> Inl e
      | Inr c \<Rightarrow> (case decodeCircuits x extract b of Inl e \<Rightarrow> Inl e | Inr cs \<Rightarrow> Inr (c # cs)))"

text \<open>\<^verbatim>\<open>isClosedChannel\<close>, and the keys that \<^verbatim>\<open>cleanClosedChannels\<close> collects.\<close>

definition isClosedChannel :: "ShortChannelID list \<Rightarrow> ShortChannelID \<Rightarrow> bool" where
  "isClosedChannel closedIDs chanID \<longleftrightarrow> ToUint64 chanID \<noteq> 0 \<and> chanID \<in> set closedIDs"

definition staleKeystone :: "ShortChannelID list \<Rightarrow> Keystone \<Rightarrow> bool" where
  "staleKeystone closedIDs ks \<longleftrightarrow>
     isClosedChannel closedIDs (ck_ChanID (ks_InKey ks)) \<or> isClosedChannel closedIDs (ck_ChanID (ks_OutKey ks))"

definition cleanClosedChannels :: "('pk, 'z) ext_scheme \<Rightarrow> bool \<Rightarrow> ('pk, 'o) CircuitMapConfig \<Rightarrow> circuitDb \<Rightarrow>
    circuit_error + circuitDb" where
  "cleanClosedChannels x io cfg db =
     (case FetchClosedChannels cfg of
        None \<Rightarrow> Inl ErrFetchChannels
      | Some closedChannels \<Rightarrow>
          (let closedIDs = map ccs_ShortChanID (filter (\<lambda>c. \<not> ccs_IsPending c) closedChannels)
           in if closedIDs = [] then Inr db
              else case (circuitAdds db, circuitKeystones db) of
                     (Some adds, Some keystones) \<Rightarrow>
                       (case decodeCircuits x (ExtractErrorEncrypter cfg) adds of
                          Inl e \<Rightarrow> Inl e
                        | Inr circuits \<Rightarrow> (case decodeKeystones keystones of
                              Inl e \<Rightarrow> Inl e
                            | Inr kss \<Rightarrow>
                                (let stale = filter (staleKeystone closedIDs) kss;
                                     inKeys = map pc_Incoming (filter (\<lambda>c. isClosedChannel closedIDs (ck_ChanID (pc_Incoming c))) circuits)
                                       @ map ks_InKey stale;
                                     outKeys = map ks_OutKey stale
                                 in if \<not> io then Inl ErrCircuitWrite
                                    else Inr \<lparr>circuitAdds = Some (fold (\<lambda>k. bucketDelete (CircuitKey_Bytes k)) inKeys adds),
                                           circuitKeystones = Some (fold (\<lambda>k. bucketDelete (CircuitKey_Bytes k)) outKeys keystones)\<rparr>)))
                   | _ \<Rightarrow> Inl ErrCorruptedCircuitMap))"

text \<open>The two loops of \<^verbatim>\<open>restoreMemState\<close>: the circuits, then the keystones, with the stray ones.\<close>

definition restoreCircuit :: "('pk, 'o) PaymentCircuit \<Rightarrow> ('pk, 'o) circuitMap \<Rightarrow> ('pk, 'o) circuitMap" where
  "restoreCircuit c cm =
     cm\<lparr>cm_heap := cm_heap cm @ [c\<lparr>pc_LoadedFromDisk := True\<rparr>],
        cm_pending := AList.update (pc_Incoming c) (length (cm_heap cm)) (cm_pending cm)\<rparr>"

definition restoreKeystone :: "Keystone \<Rightarrow> ('pk, 'o) circuitMap \<times> Keystone list \<Rightarrow> ('pk, 'o) circuitMap \<times> Keystone list" where
  "restoreKeystone ks s =
     (let cm = fst s
      in case map_of (cm_pending cm) (ks_InKey ks) of
           None \<Rightarrow> (cm, snd s @ [ks])
         | Some p \<Rightarrow>
             (let cm1 = setOutgoing p (Some (ks_OutKey ks)) cm
              in (cm1\<lparr>cm_opened := AList.update (ks_OutKey ks) p (cm_opened cm1)\<rparr>, snd s)))"

definition emptyCircuitMap :: "('pk, 'o) circuitMap" where
  "emptyCircuitMap = \<lparr>cm_heap = [], cm_pending = [], cm_opened = [], cm_closed = [], cm_hashIndex = []\<rparr>"

definition restoreMemState :: "('pk, 'z) ext_scheme \<Rightarrow> bool \<Rightarrow> ('pk, 'o) CircuitMapConfig \<Rightarrow> circuitDb \<Rightarrow>
    circuit_error + ('pk, 'o) circuitMap \<times> circuitDb" where
  "restoreMemState x io cfg db =
     (case circuitAdds db of
        None \<Rightarrow> Inl ErrCorruptedCircuitMap
      | Some adds \<Rightarrow>
          (case decodeCircuits x (ExtractErrorEncrypter cfg) adds of
             Inl e \<Rightarrow> Inl e
           | Inr circuits \<Rightarrow> (case circuitKeystones db of
                 None \<Rightarrow> Inl ErrCorruptedCircuitMap
               | Some keystones \<Rightarrow> (case decodeKeystones keystones of
                   Inl e \<Rightarrow> Inl e
                 | Inr kss \<Rightarrow>
                     (let s = fold restoreKeystone kss (fold restoreCircuit circuits emptyCircuitMap, []);
                          cm = fst s;
                          strays = filter (\<lambda>ks. ck_ChanID (ks_OutKey ks) = hop_Source) (snd s);
                          db' = db\<lparr>circuitKeystones := Some (fold (\<lambda>ks. bucketDelete (CircuitKey_Bytes (ks_OutKey ks))) strays keystones)\<rparr>
                      in if \<not> io then Inl ErrCircuitWrite
                         else Inr (cm\<lparr>cm_hashIndex := fold (\<lambda>(k, p). addCircuitToHashIndex (cm_heap cm ! p)) (cm_opened cm) []\<rparr>, db'))))))"

text \<open>A transaction that committed before a later one failed stays on disk.\<close>

definition NewCircuitMap :: "('pk, 'z) ext_scheme \<Rightarrow> bool \<Rightarrow> ('pk, 'o) CircuitMapConfig \<Rightarrow> circuitDb \<Rightarrow>
    circuitDb \<times> (circuit_error + ('pk, 'o) circuitMap)" where
  "NewCircuitMap x io cfg db =
     (case initBuckets io db of
        Inl e \<Rightarrow> (db, Inl e)
      | Inr db1 \<Rightarrow> (case cleanClosedChannels x io cfg db1 of
            Inl e \<Rightarrow> (db1, Inl e)
          | Inr db2 \<Rightarrow> (case restoreMemState x io cfg db2 of
                Inl e \<Rightarrow> (db2, Inl e)
              | Inr (cm, db3) \<Rightarrow> (case FetchAllOpenChannels cfg of
                    None \<Rightarrow> (db3, Inl ErrFetchChannels)
                  | Some channels \<Rightarrow> (case trimAllOpenCircuits io channels cm db3 of
                        (_, db4, Some e) \<Rightarrow> (db4, Inl e)
                      | (cm', db4, None) \<Rightarrow> (db4, Inr cm'))))))"

end
