(* ===== verification/Htlcswitch_Invariant.thy ===== *)
theory Htlcswitch_Invariant
  imports Htlcswitch_Circuits Channeldb_Lifecycle
begin

text \<open>
  The invariant of the circuit map and its image on disk, and that every operation keeps it.
  \<open>mem_ok\<close>: a pending circuit is found under its incoming key, the open circuits are exactly the
  pending ones with a keystone, under that keystone, and each is in the hash index.  \<open>circuit_disk_ok\<close>: the
  buckets hold the encoded circuits and keystones and nothing else.
\<close>

subsection \<open>Codecs\<close>

lemma CircuitKey_SetBytes_Bytes [simp]:
  "scid_wf (ck_ChanID k) \<Longrightarrow> CircuitKey_SetBytes (CircuitKey_Bytes k) = Some k"
  by (simp add: CircuitKey_SetBytes_def CircuitKey_Bytes_def NewShortChanIDFromInt_ToUint64)

lemma PutUint64_BigEndian: "length bs = 8 \<Longrightarrow> PutUint64 (BigEndianUint64 bs) = bs"
proof -
  assume "length bs = 8"
  then obtain a b c d e f g h where bs: "bs = [a, b, c, d, e, f, g, h]"
    by (auto simp: length_Suc_conv numeral_eq_Suc)
  show ?thesis by (simp add: bs PutUint64_def; intro conjI; rule bit_word_eqI; auto simp: bit_simps dest: bit_imp_le_length)
qed

lemma CircuitKey_Bytes_SetBytes:
  assumes "CircuitKey_SetBytes b = Some k"
  shows "CircuitKey_Bytes k = b" "scid_wf (ck_ChanID k)"
proof -
  have l: "length b = 16" and k: "k = \<lparr>ck_ChanID = NewShortChanIDFromInt (BigEndianUint64 (take 8 b)),
      ck_HtlcID = BigEndianUint64 (drop 8 b)\<rparr>"
    using assms by (auto simp: CircuitKey_SetBytes_def split: if_splits)
  show "CircuitKey_Bytes k = b"
    using l by (simp add: k CircuitKey_Bytes_def ToUint64_NewShortChanIDFromInt PutUint64_BigEndian)
  show "scid_wf (ck_ChanID k)" by (simp add: k scid_wf_NewShortChanIDFromInt)
qed

lemma CircuitKey_Bytes_inject:
  "scid_wf (ck_ChanID k) \<Longrightarrow> scid_wf (ck_ChanID k') \<Longrightarrow> CircuitKey_Bytes k = CircuitKey_Bytes k' \<longleftrightarrow> k = k'"
  by (metis CircuitKey_SetBytes_Bytes option.inject)

definition circuit_wf :: "('pk, 'o) PaymentCircuit \<Rightarrow> bool" where
  "circuit_wf c \<longleftrightarrow> scid_wf (ck_ChanID (pc_Incoming c)) \<and> length (pc_PaymentHash c) = 32"

definition circuit_ser :: "('pk, 'z) ext_scheme \<Rightarrow> ('pk, 'o) PaymentCircuit \<Rightarrow> bytes" where
  "circuit_ser x c =
     PutUint64 (ar_Height (pc_AddRef c)) @ PutUint16 (ar_Index (pc_AddRef c)) @
     CircuitKey_Bytes (pc_Incoming c) @ pc_PaymentHash c @ PutUint64 (pc_IncomingAmount c) @
     PutUint64 (pc_OutgoingAmount c) @ PutUint32 (pc_AssetId c) @
     (case pc_ErrorEncrypter c of
        None \<Rightarrow> [EncrypterTypeNone]
      | Some e \<Rightarrow> EncrypterTypeSphinx # SerializeCompressed x (EphemeralKey e))"

text \<open>What is not stored: the keystone, the flag, and the unlocked part of the encrypter.\<close>

definition stored :: "('pk, 'o) PaymentCircuit \<Rightarrow> ('pk, 'o) PaymentCircuit" where
  "stored c = c\<lparr>pc_Outgoing := None, pc_LoadedFromDisk := False,
     pc_ErrorEncrypter := map_option (\<lambda>e. SphinxErrorEncrypter (EphemeralKey e) None) (pc_ErrorEncrypter c)\<rparr>"

lemma PaymentCircuit_Encode_apply [wire_simps]: "PaymentCircuit_Encode x c buf = (buf @ circuit_ser x c, None)"
  by (cases "pc_ErrorEncrypter c")
    (simp_all add: PaymentCircuit_Encode_def circuit_ser_def CircuitKey_Encode_def CircuitKey_Bytes_def
      Sphinx_Encode_def add_ref.enc_wf wire_simps)

interpretation circuit_key: wire_codec CircuitKey_Encode CircuitKey_Bytes CircuitKey_Decode "\<lambda>k. scid_wf (ck_ChanID k)"
  by unfold_locales
    (simp_all add: CircuitKey_Encode_def CircuitKey_Decode_def CircuitKey_Bytes_def rbind_def ReadFull_def rret_def
      NewShortChanIDFromInt_ToUint64 wire_simps)

lemmas CircuitKey_Decode_Bytes [wire_simps] = circuit_key.dec_ser

lemma ReadFull_1_Cons [wire_simps]: "ReadFull (Suc 0) (b # rest) = Inr ([b], rest)"
  by (simp add: ReadFull_def)

lemma PaymentCircuit_Decode_ser:
  assumes "pubkey_ok x" "circuit_wf c"
  shows "PaymentCircuit_Decode x (circuit_ser x c @ rest) = Inr (stored c, rest)"
proof -
  have wf: "scid_wf (ck_ChanID (pc_Incoming c))" "length (pc_PaymentHash c) = 32"
    using assms(2) by (simp_all add: circuit_wf_def)
  have key: "length (SerializeCompressed x k) = 33" "ParsePubKey x (SerializeCompressed x k) = Some k" for k
    using assms(1) by (simp_all add: pubkey_ok_def)
  note a = add_ref.dec_ser [simplified]
  show ?thesis
    by (cases "pc_ErrorEncrypter c")
      (simp_all add: PaymentCircuit_Decode_def circuit_ser_def wf key wire_simps a Sphinx_Decode_def Let_def
        EncrypterTypeNone_def EncrypterTypeSphinx_def stored_def)
qed

lemma circuit_ser_fields [simp]:
  "circuit_ser x (c\<lparr>pc_Outgoing := k\<rparr>) = circuit_ser x c"
  "circuit_ser x (c\<lparr>pc_LoadedFromDisk := l\<rparr>) = circuit_ser x c"
  "circuit_wf (c\<lparr>pc_Outgoing := k\<rparr>) \<longleftrightarrow> circuit_wf c"
  "circuit_wf (c\<lparr>pc_LoadedFromDisk := l\<rparr>) \<longleftrightarrow> circuit_wf c"
  by (simp_all add: circuit_ser_def circuit_wf_def)

text \<open>A circuit that is loaded again has all fields it had when it was stored.\<close>

lemma decodeCircuit_Inr:
  assumes "pubkey_ok x" "circuit_wf c" "decodeCircuit x extract (circuit_ser x c) = Inr c'"
  shows "stored c' = stored c" "pc_Outgoing c' = None" "circuit_ser x c' = circuit_ser x c"
    "pc_Incoming c' = pc_Incoming c" "circuit_wf c'"
proof -
  have d: "PaymentCircuit_Decode x (circuit_ser x c) = Inr (stored c, [])"
    using PaymentCircuit_Decode_ser [OF assms(1,2), of "[]"] by simp
  have c': "c' = stored c \<and> pc_ErrorEncrypter c = None \<or>
      (\<exists>e e'. pc_ErrorEncrypter c = Some e \<and> c' = (stored c)\<lparr>pc_ErrorEncrypter := Some e'\<rparr> \<and>
        EphemeralKey e' = EphemeralKey e)"
    using assms(3)
    by (auto simp: decodeCircuit_def d stored_def Reextract_def split: option.splits prod.splits if_splits)
  then show "stored c' = stored c" "pc_Outgoing c' = None" "circuit_ser x c' = circuit_ser x c"
    "pc_Incoming c' = pc_Incoming c" "circuit_wf c'"
    using assms(2) by (auto simp: stored_def circuit_ser_def circuit_wf_def)
qed

subsection \<open>Buckets\<close>

definition bucket_ok :: "('k::linorder, 'v) bucket \<Rightarrow> bool" where
  "bucket_ok b \<longleftrightarrow> sorted_wrt (<) (map fst b)"

lemma set_bucketPut_keys: "fst ` set (bucketPut k v b) = insert k (fst ` set b)"
  by (induction k v b rule: bucketPut.induct) auto

lemma bucket_ok_put [simp]: "bucket_ok b \<Longrightarrow> bucket_ok (bucketPut k v b)"
proof (induction k v b rule: bucketPut.induct)
  case (2 k v p b)
  have "\<forall>y \<in> fst ` set (bucketPut k v b). fst p < y" if "fst p < k"
    using 2(2) that unfolding set_bucketPut_keys by (auto simp: bucket_ok_def)
  then show ?case using 2 by (auto simp: bucket_ok_def)
qed (simp add: bucket_ok_def)

lemma bucket_ok_delete [simp]: "bucket_ok b \<Longrightarrow> bucket_ok (bucketDelete k b)"
  by (induction b) (auto simp: bucket_ok_def bucketDelete_def)

lemma map_of_bucketDelete [simp]: "map_of (bucketDelete k b) = (map_of b)(k := None)"
  by (induction b) (auto simp: bucketDelete_def fun_eq_iff)

lemma bucket_ok_Nil [simp]: "bucket_ok []" by (simp add: bucket_ok_def)

lemma bucket_ok_distinct: "bucket_ok b \<Longrightarrow> distinct (map fst b)"
  by (simp add: bucket_ok_def strict_sorted_iff)

subsection \<open>Hash index\<close>

definition indexed :: "(bytes \<times> CircuitKey list) list \<Rightarrow> bytes \<Rightarrow> CircuitKey set" where
  "indexed idx h = (case map_of idx h of None \<Rightarrow> {} | Some ks \<Rightarrow> set ks)"

lemma indexed_Nil [simp]: "indexed [] h = {}"
  by (simp add: indexed_def)

lemma indexed_add [simp]:
  "indexed (addCircuitToHashIndex c idx) h =
     (if h = pc_PaymentHash c then insert (OutKey c) (indexed idx h) else indexed idx h)"
  by (auto simp: indexed_def addCircuitToHashIndex_def update_conv' split: option.splits)

lemma indexed_remove [simp]:
  "indexed (removeCircuitFromHashIndex c idx) h =
     (if h = pc_PaymentHash c then indexed idx h - {OutKey c} else indexed idx h)"
  by (auto simp: indexed_def removeCircuitFromHashIndex_def update_conv' delete_conv' Let_def split: option.splits)
    (metis empty_iff set_empty2 set_removeAll Diff_iff singletonD)+

subsection \<open>The invariant\<close>

text \<open>
  \<open>P\<close> and \<open>Q\<close> are the maps of the pending and the open circuits, \<open>C\<close> the closed keys and \<open>I\<close> the index
  by payment hash.
\<close>

definition maps_ok :: "('pk, 'o) PaymentCircuit list \<Rightarrow> (CircuitKey \<Rightarrow> nat option) \<Rightarrow> (CircuitKey \<Rightarrow> nat option) \<Rightarrow>
    CircuitKey set \<Rightarrow> (bytes \<Rightarrow> CircuitKey set) \<Rightarrow> bool" where
  "maps_ok h P Q C I \<longleftrightarrow>
     (\<forall>k p. P k = Some p \<longrightarrow> p < length h \<and> pc_Incoming (h ! p) = k \<and> circuit_wf (h ! p)) \<and>
     (\<forall>k p. Q k = Some p \<longleftrightarrow> P (pc_Incoming (h ! p)) = Some p \<and> pc_Outgoing (h ! p) = Some k) \<and>
     (\<forall>k p. Q k = Some p \<longrightarrow> scid_wf (ck_ChanID k) \<and> ck_ChanID k \<noteq> hop_Source) \<and>
     (\<forall>k \<in> C. P k \<noteq> None) \<and>
     (\<forall>k p. Q k = Some p \<longrightarrow> k \<in> I (pc_PaymentHash (h ! p)))"

lemma maps_okD:
  assumes "maps_ok h P Q C I"
  shows "P k = Some p \<Longrightarrow> p < length h" "P k = Some p \<Longrightarrow> pc_Incoming (h ! p) = k"
    "P k = Some p \<Longrightarrow> circuit_wf (h ! p)"
    "Q k = Some p \<longleftrightarrow> P (pc_Incoming (h ! p)) = Some p \<and> pc_Outgoing (h ! p) = Some k"
    "Q k = Some p \<Longrightarrow> scid_wf (ck_ChanID k)" "Q k = Some p \<Longrightarrow> ck_ChanID k \<noteq> hop_Source"
    "k \<in> C \<Longrightarrow> P k \<noteq> None" "Q k = Some p \<Longrightarrow> k \<in> I (pc_PaymentHash (h ! p))"
  using assms unfolding maps_ok_def by blast+

lemma maps_ok_openD:
  assumes "maps_ok h P Q C I" "Q k = Some p"
  shows "P (pc_Incoming (h ! p)) = Some p" "pc_Outgoing (h ! p) = Some k" "p < length h" "circuit_wf (h ! p)"
  using maps_okD(4) [OF assms(1)] maps_okD(1,3) [OF assms(1)] assms(2) by blast+

lemma maps_okI:
  assumes "\<And>k p. P k = Some p \<Longrightarrow> p < length h \<and> pc_Incoming (h ! p) = k \<and> circuit_wf (h ! p)"
    and "\<And>k p. Q k = Some p \<Longrightarrow> P (pc_Incoming (h ! p)) = Some p \<and> pc_Outgoing (h ! p) = Some k"
    and "\<And>k p. P (pc_Incoming (h ! p)) = Some p \<Longrightarrow> pc_Outgoing (h ! p) = Some k \<Longrightarrow> Q k = Some p"
    and "\<And>k p. Q k = Some p \<Longrightarrow> scid_wf (ck_ChanID k) \<and> ck_ChanID k \<noteq> hop_Source"
    and "\<And>k. k \<in> C \<Longrightarrow> P k \<noteq> None"
    and "\<And>k p. Q k = Some p \<Longrightarrow> k \<in> I (pc_PaymentHash (h ! p))"
  shows "maps_ok h P Q C I"
  using assms unfolding maps_ok_def by blast

definition mem_ok :: "('pk, 'o) circuitMap \<Rightarrow> bool" where
  "mem_ok cm \<longleftrightarrow> distinct (map fst (cm_pending cm)) \<and> distinct (map fst (cm_opened cm)) \<and>
     maps_ok (cm_heap cm) (map_of (cm_pending cm)) (map_of (cm_opened cm)) (set (cm_closed cm)) (indexed (cm_hashIndex cm))"

lemma mem_okD:
  assumes "mem_ok cm"
  shows "distinct (map fst (cm_pending cm))" "distinct (map fst (cm_opened cm))"
    "maps_ok (cm_heap cm) (map_of (cm_pending cm)) (map_of (cm_opened cm)) (set (cm_closed cm)) (indexed (cm_hashIndex cm))"
  using assms by (simp_all add: mem_ok_def)

text \<open>A function on keys as a function on the bytes of keys.\<close>

definition on_disk :: "(CircuitKey \<Rightarrow> 'a option) \<Rightarrow> bytes \<Rightarrow> 'a option" where
  "on_disk f b = (case CircuitKey_SetBytes b of None \<Rightarrow> None | Some k \<Rightarrow> f k)"

lemma on_disk_upd: "scid_wf (ck_ChanID k) \<Longrightarrow> on_disk (f(k := v)) = (on_disk f)(CircuitKey_Bytes k := v)"
  using CircuitKey_Bytes_SetBytes by (auto simp: on_disk_def fun_eq_iff split: option.splits)

lemma on_disk_Bytes [simp]: "scid_wf (ck_ChanID k) \<Longrightarrow> on_disk f (CircuitKey_Bytes k) = f k"
  by (simp add: on_disk_def)

lemma on_disk_empty [simp]: "on_disk (\<lambda>_. None) = (\<lambda>_. None)"
  by (simp add: on_disk_def fun_eq_iff split: option.splits)

definition adds_of :: "('pk, 'z) ext_scheme \<Rightarrow> ('pk, 'o) circuitMap \<Rightarrow> CircuitKey \<Rightarrow> bytes option" where
  "adds_of x cm k = map_option (\<lambda>p. circuit_ser x (cm_heap cm ! p)) (map_of (cm_pending cm) k)"

definition keystones_of :: "('pk, 'o) circuitMap \<Rightarrow> CircuitKey \<Rightarrow> bytes option" where
  "keystones_of cm k = map_option (\<lambda>p. CircuitKey_Bytes (pc_Incoming (cm_heap cm ! p))) (map_of (cm_opened cm) k)"

definition circuit_disk_ok :: "('pk, 'z) ext_scheme \<Rightarrow> ('pk, 'o) circuitMap \<Rightarrow> circuitDb \<Rightarrow> bool" where
  "circuit_disk_ok x cm db \<longleftrightarrow> (\<exists>adds keystones. circuitAdds db = Some adds \<and> circuitKeystones db = Some keystones \<and>
     bucket_ok adds \<and> bucket_ok keystones \<and>
     map_of adds = on_disk (adds_of x cm) \<and> map_of keystones = on_disk (keystones_of cm))"

definition circuits_ok :: "('pk, 'z) ext_scheme \<Rightarrow> ('pk, 'o) circuitMap \<Rightarrow> circuitDb \<Rightarrow> bool" where
  "circuits_ok x cm db \<longleftrightarrow> mem_ok cm \<and> circuit_disk_ok x cm db"

text \<open>The open circuits follow from the pending ones, and the disk from both.\<close>

lemma opened_determined:
  assumes "mem_ok cm" "mem_ok cm'" "cm_heap cm' = cm_heap cm" "map_of (cm_pending cm') = map_of (cm_pending cm)"
  shows "map_of (cm_opened cm') = map_of (cm_opened cm)"
proof
  fix k
  have "map_of (cm_opened cm') k = Some p \<longleftrightarrow> map_of (cm_opened cm) k = Some p" for p
    using maps_okD(4) [OF mem_okD(3) [OF assms(1)]] maps_okD(4) [OF mem_okD(3) [OF assms(2)]] assms(3,4) by simp
  then show "map_of (cm_opened cm') k = map_of (cm_opened cm) k" by (metis not_Some_eq)
qed

lemma circuit_disk_ok_cong:
  assumes "circuit_disk_ok x cm db" "\<And>k. adds_of x cm' k = adds_of x cm k" "\<And>k. keystones_of cm' k = keystones_of cm k"
  shows "circuit_disk_ok x cm' db"
proof -
  have "adds_of x cm' = adds_of x cm" "keystones_of cm' = keystones_of cm" using assms(2,3) by (auto simp: fun_eq_iff)
  then show ?thesis using assms(1) by (simp add: circuit_disk_ok_def)
qed

lemma circuits_ok_disk:
  assumes "circuits_ok x cm db" "\<And>k. adds_of x cm' k = adds_of x cm k" "\<And>k. keystones_of cm' k = keystones_of cm k"
  shows "circuit_disk_ok x cm' db"
  by (rule circuit_disk_ok_cong [of x cm]) (use assms in \<open>simp_all add: circuits_ok_def\<close>)

subsection \<open>New circuits\<close>

definition fresh_circuit :: "('pk, 'o) PaymentCircuit \<Rightarrow> bool" where
  "fresh_circuit c \<longleftrightarrow> circuit_wf c \<and> pc_Outgoing c = None"

text \<open>The caller has put its circuits on the heap.\<close>

definition allocate :: "('pk, 'o) PaymentCircuit list \<Rightarrow> ('pk, 'o) circuitMap \<Rightarrow> ('pk, 'o) circuitMap" where
  "allocate cs cm = cm\<lparr>cm_heap := cm_heap cm @ cs\<rparr>"

lemma maps_ok_append:
  assumes "maps_ok h P Q C I"
  shows "maps_ok (h @ cs) P Q C I"
proof -
  have P: "(h @ cs) ! p = h ! p" "p < length (h @ cs)" if "P k = Some p" for k p
    using maps_okD(1) [OF assms that] by (simp_all add: nth_append)
  have Q: "(h @ cs) ! p = h ! p" if "Q k = Some p" for k p
    using maps_ok_openD(3) [OF assms that] by (simp add: nth_append)
  show ?thesis
  proof (rule maps_okI)
    show "Q k = Some p" if "P (pc_Incoming ((h @ cs) ! p)) = Some p" "pc_Outgoing ((h @ cs) ! p) = Some k" for k p
      using maps_okD(4) [OF assms, of k p] that P(1) [OF that(1)] by simp
    show "p < length (h @ cs) \<and> pc_Incoming ((h @ cs) ! p) = k \<and> circuit_wf ((h @ cs) ! p)" if "P k = Some p" for k p
      using maps_okD(2,3) [OF assms that] P [OF that] by simp
    show "P (pc_Incoming ((h @ cs) ! p)) = Some p \<and> pc_Outgoing ((h @ cs) ! p) = Some k" if "Q k = Some p" for k p
      using maps_ok_openD(1,2) [OF assms that] Q [OF that] by simp
    show "k \<in> I (pc_PaymentHash ((h @ cs) ! p))" if "Q k = Some p" for k p
      using maps_okD(8) [OF assms that] Q [OF that] by simp
  qed (use maps_okD(5,6,7) [OF assms] in blast)+
qed

lemma allocate_ok:
  assumes "circuits_ok x cm db"
  shows "circuits_ok x (allocate cs cm) db"
proof -
  have m: "mem_ok cm" and d: "circuit_disk_ok x cm db" using assms by (simp_all add: circuits_ok_def)
  note M = mem_okD(3) [OF m]
  have h: "map_of (cm_pending cm) k = Some p \<Longrightarrow> (cm_heap cm @ cs) ! p = cm_heap cm ! p"
    "map_of (cm_opened cm) k = Some p \<Longrightarrow> (cm_heap cm @ cs) ! p = cm_heap cm ! p" for k p
    using maps_okD(1) [OF M] maps_ok_openD(3) [OF M] by (auto simp: nth_append)
  have "mem_ok (allocate cs cm)"
    using m by (simp add: mem_ok_def allocate_def maps_ok_append)
  moreover have "circuit_disk_ok x (allocate cs cm) db"
    by (rule circuit_disk_ok_cong [OF d])
      (auto simp: adds_of_def keystones_of_def allocate_def map_option_case split: option.splits dest: h)
  ultimately show ?thesis by (simp add: circuits_ok_def)
qed

lemma maps_ok_add:
  assumes "maps_ok h P Q C I" "p < length h" "fresh_circuit (h ! p)" "P (pc_Incoming (h ! p)) = None"
  shows "maps_ok h (P(pc_Incoming (h ! p) \<mapsto> p)) Q C I"
proof -
  have "Q k = Some q \<longleftrightarrow> (P(pc_Incoming (h ! p) \<mapsto> p)) (pc_Incoming (h ! q)) = Some q \<and> pc_Outgoing (h ! q) = Some k" for k q
    using maps_okD(4) [OF assms(1), of k q] assms(3,4) by (auto simp: fresh_circuit_def)
  then show ?thesis
    unfolding maps_ok_def
    using maps_okD [OF assms(1)] assms(2,3) by (auto simp: fresh_circuit_def)
qed

lemma addOne_ok:
  assumes "circuits_ok x cm db" "p < length (cm_heap cm)" "fresh_circuit (cm_heap cm ! p)"
    "map_of (cm_pending cm) (pc_Incoming (cm_heap cm ! p)) = None" "circuitAdds db = Some adds"
  shows "circuits_ok x (cm\<lparr>cm_pending := AList.update (pc_Incoming (cm_heap cm ! p)) p (cm_pending cm)\<rparr>)
    (db\<lparr>circuitAdds := Some (bucketPut (CircuitKey_Bytes (pc_Incoming (cm_heap cm ! p))) (circuit_ser x (cm_heap cm ! p)) adds)\<rparr>)"
proof -
  let ?c = "cm_heap cm ! p" and ?cm = "cm\<lparr>cm_pending := AList.update (pc_Incoming (cm_heap cm ! p)) p (cm_pending cm)\<rparr>"
  have m: "mem_ok cm" and d: "circuit_disk_ok x cm db" using assms(1) by (simp_all add: circuits_ok_def)
  have wf: "scid_wf (ck_ChanID (pc_Incoming ?c))"
    using assms(3) by (simp add: fresh_circuit_def circuit_wf_def)
  have "mem_ok ?cm"
    using m maps_ok_add [OF mem_okD(3) [OF m] assms(2,3,4)] by (simp add: mem_ok_def update_conv' distinct_update)
  moreover have "adds_of x ?cm = (adds_of x cm)(pc_Incoming ?c := Some (circuit_ser x ?c))" "keystones_of ?cm = keystones_of cm"
    by (auto simp: adds_of_def keystones_of_def update_conv' fun_eq_iff)
  ultimately show ?thesis using d assms(5) wf by (auto simp: circuits_ok_def circuit_disk_ok_def on_disk_upd)
qed

abbreviation keyOf :: "('pk, 'o) PaymentCircuit list \<Rightarrow> nat \<Rightarrow> CircuitKey" where
  "keyOf h p \<equiv> pc_Incoming (h ! p)"

lemma commitLoop_Adds:
  assumes "commitLoop h ps pending = (pending', a, addFails)"
  shows "pending' = fold (\<lambda>p. AList.update (keyOf h p) p) (Adds a) pending \<and> set (Adds a) \<subseteq> set ps \<and>
    distinct (map (keyOf h) (Adds a)) \<and> (\<forall>p \<in> set (Adds a). map_of pending (keyOf h p) = None)"
  using assms
proof (induction h ps pending arbitrary: pending' a addFails rule: commitLoop.induct)
  case (2 h p ps pending)
  show ?case
  proof (cases "map_of pending (keyOf h p)")
    case None
    obtain r a' af where r: "commitLoop h ps (AList.update (keyOf h p) p pending) = (r, a', af)" by (metis prod_cases3)
    from 2(1) [OF None r] have "r = fold (\<lambda>p. AList.update (keyOf h p) p) (Adds a') (AList.update (keyOf h p) p pending)"
      "set (Adds a') \<subseteq> set ps" "distinct (map (keyOf h) (Adds a'))"
      "\<forall>q \<in> set (Adds a'). map_of (AList.update (keyOf h p) p pending) (keyOf h q) = None" by blast+
    moreover have "pending' = r" "Adds a = p # Adds a'" using 2(3) None r by auto
    ultimately show ?thesis using None by (auto simp: update_conv' split: if_splits)
  next
    case (Some q)
    obtain r a' af where r: "commitLoop h ps pending = (r, a', af)" by (metis prod_cases3)
    have "pending' = r" "Adds a = Adds a'" using 2(3) Some r by (auto split: if_splits)
    with 2(2) [OF Some r] show ?thesis by auto
  qed
qed simp

lemma encodeCircuits_all [simp]: "encodeCircuits x cs = Inr (map (circuit_ser x) cs)"
  by (induction cs) (simp_all add: PaymentCircuit_Encode_apply)

lemma commit_fold:
  assumes "circuits_ok x cm db" "circuitAdds db = Some adds"
    "\<And>p. p \<in> set ps \<Longrightarrow> p < length (cm_heap cm) \<and> fresh_circuit (cm_heap cm ! p)"
    "distinct (map (keyOf (cm_heap cm)) ps)" "\<forall>p \<in> set ps. map_of (cm_pending cm) (keyOf (cm_heap cm) p) = None"
  shows "circuits_ok x (cm\<lparr>cm_pending := fold (\<lambda>p. AList.update (keyOf (cm_heap cm) p) p) ps (cm_pending cm)\<rparr>)
    (db\<lparr>circuitAdds := Some (putCircuits (map ((!) (cm_heap cm)) ps) (map (circuit_ser x) (map ((!) (cm_heap cm)) ps)) adds)\<rparr>)"
  using assms
proof (induction ps arbitrary: cm db adds)
  case Nil
  then show ?case by (simp add: putCircuits_def circuits_ok_def circuit_disk_ok_def)
next
  case (Cons p ps)
  let ?cm = "cm\<lparr>cm_pending := AList.update (keyOf (cm_heap cm) p) p (cm_pending cm)\<rparr>"
  let ?adds = "bucketPut (CircuitKey_Bytes (keyOf (cm_heap cm) p)) (circuit_ser x (cm_heap cm ! p)) adds"
  have "circuits_ok x ?cm (db\<lparr>circuitAdds := Some ?adds\<rparr>)"
    using addOne_ok [OF Cons.prems(1) _ _ _ Cons.prems(2), of p] Cons.prems(3,5) by simp
  from Cons.IH [OF this, of ?adds] Cons.prems(3,4,5) show ?case
    by (simp add: putCircuits_def update_conv' image_iff) metis
qed

lemma fold_delete: "fold (\<lambda>c. AList.delete (f c)) cs al = filter (\<lambda>(k, _). k \<notin> f ` set cs) al"
  by (induction cs arbitrary: al) (auto simp: AList.delete_eq intro!: filter_cong)

lemma update_fresh: "k \<notin> fst ` set al \<Longrightarrow> AList.update k v al = al @ [(k, v)]"
  by (induction al) auto

lemma fold_update_fresh:
  "distinct (map f ps) \<Longrightarrow> \<forall>p \<in> set ps. f p \<notin> fst ` set al \<Longrightarrow>
     fold (\<lambda>p. AList.update (f p) p) ps al = al @ map (\<lambda>p. (f p, p)) ps"
proof (induction ps arbitrary: al)
  case (Cons p ps)
  have "\<forall>q \<in> set ps. f q \<notin> fst ` set (al @ [(f p, p)])" using Cons.prems by (simp add: image_iff) metis
  with Cons show ?case by (simp add: update_fresh)
qed simp

lemma commit_undo:
  assumes "distinct (map f ps)" "\<forall>p \<in> set ps. map_of al (f p) = None"
  shows "fold (\<lambda>p. AList.delete (f p)) ps (fold (\<lambda>p. AList.update (f p) p) ps al) = al"
proof -
  have n: "\<forall>p \<in> set ps. f p \<notin> fst ` set al" using assms(2) by (simp add: map_of_eq_None_iff)
  then have "filter (\<lambda>(k, _). k \<notin> f ` set ps) al = al" by (force simp: filter_id_conv)
  moreover have "filter (\<lambda>(k, _). k \<notin> f ` set ps) (map (\<lambda>p. (f p, p)) ps) = []" by (auto simp: filter_empty_conv)
  ultimately show ?thesis by (simp add: fold_delete fold_update_fresh [OF assms(1) n])
qed

lemma CommitCircuits_ok:
  assumes "circuits_ok x cm db" "\<And>p. p \<in> set ps \<Longrightarrow> p < length (cm_heap cm) \<and> fresh_circuit (cm_heap cm ! p)"
    "CommitCircuits x io ps cm db = (cm', db', a, e)"
  shows "circuits_ok x cm' db' \<and> cm_heap cm' = cm_heap cm \<and> cm_closed cm' = cm_closed cm \<and>
    dom (map_of (cm_pending cm')) = dom (map_of (cm_pending cm)) \<union> keyOf (cm_heap cm) ` set (Adds a) \<and>
    distinct (map (keyOf (cm_heap cm)) (Adds a)) \<and>
    (\<forall>p \<in> set (Adds a). map_of (cm_pending cm) (keyOf (cm_heap cm) p) = None)"
proof -
  obtain pending act af where l: "commitLoop (cm_heap cm) ps (cm_pending cm) = (pending, act, af)" by (metis prod_cases3)
  note L = commitLoop_Adds [OF l]
  obtain adds where adds: "circuitAdds db = Some adds" using assms(1) by (auto simp: circuits_ok_def circuit_disk_ok_def)
  have fold: "circuits_ok x (cm\<lparr>cm_pending := pending\<rparr>)
    (db\<lparr>circuitAdds := Some (putCircuits (map ((!) (cm_heap cm)) (Adds act))
       (map (circuit_ser x) (map ((!) (cm_heap cm)) (Adds act))) adds)\<rparr>)"
    using commit_fold [OF assms(1) adds, of "Adds act"] L assms(2) by auto
  have keys: "dom (map_of pending) = dom (map_of (cm_pending cm)) \<union> keyOf (cm_heap cm) ` set (Adds act)"
    using L fold_update_fresh [of "keyOf (cm_heap cm)" "Adds act" "cm_pending cm"]
    by (auto simp: map_of_eq_None_iff dom_map_of_conv_image_fst image_iff)
  have undo: "fold (\<lambda>c. AList.delete (pc_Incoming c)) (map ((!) (cm_heap cm)) (Adds act)) pending = cm_pending cm"
    using L commit_undo [of "keyOf (cm_heap cm)" "Adds act" "cm_pending cm"] by (simp add: fold_map comp_def)
  have nil: "pending = cm_pending cm" if "Adds act = []" using L that by simp
  have loop: "distinct (map (keyOf (cm_heap cm)) (Adds act))"
    "\<forall>p \<in> set (Adds act). map_of (cm_pending cm) (keyOf (cm_heap cm) p) = None" using L by simp_all
  show ?thesis
  proof (cases "Adds act = [] \<or> \<not> io")
    case True
    then have "cm' = cm" "db' = db" "Adds a = []"
      using assms(3) nil adds by (auto simp: CommitCircuits_def l undo Let_def split: if_splits)
    then show ?thesis using assms(1) by simp
  next
    case False
    then have "cm' = cm\<lparr>cm_pending := pending\<rparr>" "a = act" "db' = db\<lparr>circuitAdds := Some (putCircuits (map ((!) (cm_heap cm)) (Adds act))
       (map (circuit_ser x) (map ((!) (cm_heap cm)) (Adds act))) adds)\<rparr>"
      using assms(3) adds by (auto simp: CommitCircuits_def l Let_def)
    then show ?thesis using fold keys loop by simp
  qed
qed

subsection \<open>Keystones\<close>

text \<open>
  What a link guarantees of the keystones it passes: no key occurs twice, the circuits have no
  keystone yet, and the outgoing channel is a real one.
\<close>

definition keystones_ok :: "('pk, 'o) circuitMap \<Rightarrow> Keystone list \<Rightarrow> bool" where
  "keystones_ok cm kss \<longleftrightarrow> distinct (map ks_InKey kss) \<and> distinct (map ks_OutKey kss) \<and>
     (\<forall>ks \<in> set kss. scid_wf (ck_ChanID (ks_OutKey ks)) \<and> ck_ChanID (ks_OutKey ks) \<noteq> hop_Source \<and>
        (\<forall>p. map_of (cm_pending cm) (ks_InKey ks) = Some p \<longrightarrow> pc_Outgoing (cm_heap cm ! p) = None))"

lemma maps_ok_open:
  assumes ok: "maps_ok h P Q C I" and p: "P k = Some p" "pc_Outgoing (h ! p) = None" "Q out = None"
    and out: "scid_wf (ck_ChanID out)" "ck_ChanID out \<noteq> hop_Source"
    and h': "h' = h[p := (h ! p)\<lparr>pc_Outgoing := Some out\<rparr>]"
    and I': "\<And>k. I k \<subseteq> I' k" "out \<in> I' (pc_PaymentHash (h ! p))"
  shows "maps_ok h' P (Q(out \<mapsto> p)) C I'"
proof -
  have len: "p < length h" using maps_okD(1) [OF ok p(1)] .
  have nth: "h' ! q = (if q = p then (h ! p)\<lparr>pc_Outgoing := Some out\<rparr> else h ! q)" for q
    using len by (simp add: h')
  have len': "length h' = length h" by (simp add: h')
  have neq: "q \<noteq> p" if "Q k' = Some q" for k' q using maps_ok_openD(2) [OF ok that] p(2) by auto
  show ?thesis
  proof (rule maps_okI)
    show "q < length h' \<and> pc_Incoming (h' ! q) = k' \<and> circuit_wf (h' ! q)" if "P k' = Some q" for k' q
      using maps_okD(1,2,3) [OF ok that] len' by (auto simp: nth)
    show "P (pc_Incoming (h' ! q)) = Some q \<and> pc_Outgoing (h' ! q) = Some k'" if "(Q(out \<mapsto> p)) k' = Some q" for k' q
      using that maps_ok_openD(1,2) [OF ok, of k' q] p(1) maps_okD(2) [OF ok p(1)] neq [of k' q]
      by (auto simp: nth split: if_splits)
    show "(Q(out \<mapsto> p)) k' = Some q" if "P (pc_Incoming (h' ! q)) = Some q" "pc_Outgoing (h' ! q) = Some k'" for k' q
    proof (cases "q = p")
      case False
      then have "Q k' = Some q" using that maps_okD(4) [OF ok, of k' q] by (simp add: nth)
      then show ?thesis using p(3) by auto
    qed (use that in \<open>simp add: nth\<close>)
    show "k' \<in> I' (pc_PaymentHash (h' ! q))" if "(Q(out \<mapsto> p)) k' = Some q" for k' q
      using that maps_okD(8) [OF ok, of k' q] I' by (auto simp: nth split: if_splits)
    show "scid_wf (ck_ChanID k') \<and> ck_ChanID k' \<noteq> hop_Source" if "(Q(out \<mapsto> p)) k' = Some q" for k' q
      using that out maps_okD(5,6) [OF ok, of k' q] by (auto split: if_splits)
  qed (use maps_okD(7) [OF ok] in blast)
qed

lemma openOne_ok:
  assumes "circuits_ok x cm db" "map_of (cm_pending cm) (ks_InKey ks) = Some p" "pc_Outgoing (cm_heap cm ! p) = None"
    "map_of (cm_opened cm) (ks_OutKey ks) = None" "scid_wf (ck_ChanID (ks_OutKey ks))" "ck_ChanID (ks_OutKey ks) \<noteq> hop_Source"
    "circuitKeystones db = Some b"
  shows "circuits_ok x (openOne p ks cm)
    (db\<lparr>circuitKeystones := Some (bucketPut (CircuitKey_Bytes (ks_OutKey ks)) (CircuitKey_Bytes (ks_InKey ks)) b)\<rparr>)"
proof -
  have m: "mem_ok cm" and d: "circuit_disk_ok x cm db" using assms(1) by (simp_all add: circuits_ok_def)
  note M = mem_okD(3) [OF m]
  let ?h = "(cm_heap cm)[p := (cm_heap cm ! p)\<lparr>pc_Outgoing := Some (ks_OutKey ks)\<rparr>]"
  have len: "p < length (cm_heap cm)" and key: "keyOf (cm_heap cm) p = ks_InKey ks"
    using maps_okD(1,2) [OF M assms(2)] by simp_all
  have nth: "?h ! q = (if q = p then (cm_heap cm ! p)\<lparr>pc_Outgoing := Some (ks_OutKey ks)\<rparr> else cm_heap cm ! q)" for q
    using len by simp
  have "maps_ok ?h (map_of (cm_pending cm)) ((map_of (cm_opened cm))(ks_OutKey ks \<mapsto> p)) (set (cm_closed cm))
      (indexed (addCircuitToHashIndex (?h ! p) (cm_hashIndex cm)))"
    by (rule maps_ok_open [OF M assms(2-6) refl]) (use len in \<open>auto simp: OutKey_def\<close>)
  then have "mem_ok (openOne p ks cm)"
    using m by (simp add: mem_ok_def openOne_def setOutgoing_def Let_def update_conv' distinct_update)
  moreover have "adds_of x (openOne p ks cm) = adds_of x cm"
    by (auto simp: adds_of_def openOne_def setOutgoing_def Let_def fun_eq_iff nth map_option_case split: option.splits)
  moreover have "keystones_of (openOne p ks cm) = (keystones_of cm)(ks_OutKey ks := Some (CircuitKey_Bytes (ks_InKey ks)))"
    by (auto simp: keystones_of_def openOne_def setOutgoing_def Let_def fun_eq_iff nth key update_conv' map_option_case split: option.splits)
  ultimately show ?thesis using d assms(5,7) by (auto simp: circuits_ok_def circuit_disk_ok_def on_disk_upd)
qed

lemma openCheck_Inr:
  assumes "openCheck cm kss = Inr ps"
  shows "length ps = length kss \<and>
    (\<forall>(p, ks) \<in> set (zip ps kss). map_of (cm_pending cm) (ks_InKey ks) = Some p \<and> map_of (cm_opened cm) (ks_OutKey ks) = None)"
  using assms by (induction kss arbitrary: ps) (auto 0 3 split: if_splits option.splits sum.splits)

lemma openOne_simps [simp]:
  "cm_pending (openOne p ks cm) = cm_pending cm" "cm_closed (openOne p ks cm) = cm_closed cm"
  "map_of (cm_opened (openOne p ks cm)) = (map_of (cm_opened cm))(ks_OutKey ks \<mapsto> p)"
  "cm_heap (openOne p ks cm) = (cm_heap cm)[p := (cm_heap cm ! p)\<lparr>pc_Outgoing := Some (ks_OutKey ks)\<rparr>]"
  by (simp_all add: openOne_def setOutgoing_def Let_def update_conv')

lemma open_fold:
  assumes "circuits_ok x cm db" "circuitKeystones db = Some b" "length ps = length kss"
    "\<forall>(p, ks) \<in> set (zip ps kss). map_of (cm_pending cm) (ks_InKey ks) = Some p \<and> map_of (cm_opened cm) (ks_OutKey ks) = None"
    "keystones_ok cm kss"
  shows "circuits_ok x (fold (\<lambda>(p, ks). openOne p ks) (zip ps kss) cm) (db\<lparr>circuitKeystones := Some (putKeystones kss b)\<rparr>) \<and>
    cm_pending (fold (\<lambda>(p, ks). openOne p ks) (zip ps kss) cm) = cm_pending cm \<and>
    cm_closed (fold (\<lambda>(p, ks). openOne p ks) (zip ps kss) cm) = cm_closed cm"
  using assms(3,1,2,4,5)
proof (induction ps kss arbitrary: cm db b rule: list_induct2)
  case Nil
  then show ?case by (simp add: putKeystones_def circuits_ok_def circuit_disk_ok_def)
next
  case (Cons p ps ks kss)
  let ?b = "bucketPut (CircuitKey_Bytes (ks_OutKey ks)) (CircuitKey_Bytes (ks_InKey ks)) b"
  have p: "map_of (cm_pending cm) (ks_InKey ks) = Some p" "map_of (cm_opened cm) (ks_OutKey ks) = None"
    using Cons.prems(3) by simp_all
  have k: "pc_Outgoing (cm_heap cm ! p) = None" "scid_wf (ck_ChanID (ks_OutKey ks))" "ck_ChanID (ks_OutKey ks) \<noteq> hop_Source"
    using Cons.prems(4) p(1) by (simp_all add: keystones_ok_def)
  have ok: "circuits_ok x (openOne p ks cm) (db\<lparr>circuitKeystones := Some ?b\<rparr>)"
    by (rule openOne_ok [OF Cons.prems(1) p(1) k(1) p(2) k(2,3) Cons.prems(2)])
  have M: "maps_ok (cm_heap cm) (map_of (cm_pending cm)) (map_of (cm_opened cm)) (set (cm_closed cm)) (indexed (cm_hashIndex cm))"
    using Cons.prems(1) by (simp add: circuits_ok_def mem_okD(3))
  have other: "q \<noteq> p" if "ks' \<in> set kss" "map_of (cm_pending cm) (ks_InKey ks') = Some q" for q ks'
    using that Cons.prems(4) maps_okD(2) [OF M that(2)] maps_okD(2) [OF M p(1)] by (auto simp: keystones_ok_def)
  have "cm_heap (openOne p ks cm) ! q = cm_heap cm ! q"
    if "ks' \<in> set kss" "map_of (cm_pending cm) (ks_InKey ks') = Some q" for q ks'
    using other [OF that] by simp
  then have "keystones_ok (openOne p ks cm) kss"
    using Cons.prems(4) by (simp add: keystones_ok_def del: openOne_simps(4))
  moreover have "\<forall>(p', ks') \<in> set (zip ps kss). map_of (cm_pending (openOne p ks cm)) (ks_InKey ks') = Some p' \<and>
      map_of (cm_opened (openOne p ks cm)) (ks_OutKey ks') = None"
  proof clarify
    fix p' ks' assume z: "(p', ks') \<in> set (zip ps kss)"
    then have "ks_OutKey ks' \<in> ks_OutKey ` set kss" by (meson imageI set_zip_rightD)
    then have "ks_OutKey ks' \<noteq> ks_OutKey ks" using Cons.prems(4) by (auto simp: keystones_ok_def)
    moreover have "map_of (cm_pending cm) (ks_InKey ks') = Some p' \<and> map_of (cm_opened cm) (ks_OutKey ks') = None"
      using z Cons.prems(3) by auto
    ultimately show "map_of (cm_pending (openOne p ks cm)) (ks_InKey ks') = Some p' \<and>
      map_of (cm_opened (openOne p ks cm)) (ks_OutKey ks') = None" by simp
  qed
  ultimately show ?case
    using Cons.IH [OF ok, of ?b] by (simp add: putKeystones_def)
qed

lemma OpenCircuits_ok:
  assumes "circuits_ok x cm db" "keystones_ok cm kss" "OpenCircuits io kss cm db = (cm', db', e)"
  shows "circuits_ok x cm' db' \<and> cm_pending cm' = cm_pending cm \<and> cm_closed cm' = cm_closed cm"
proof (cases "openCheck cm kss")
  case (Inl e')
  then show ?thesis using assms by (auto simp: OpenCircuits_def split: if_splits)
next
  case (Inr ps)
  note c = openCheck_Inr [OF Inr]
  obtain b where b: "circuitKeystones db = Some b" using assms(1) by (auto simp: circuits_ok_def circuit_disk_ok_def)
  note F = open_fold [OF assms(1) b conjunct1 [OF c] conjunct2 [OF c] assms(2)]
  show ?thesis
  proof (cases "kss \<noteq> [] \<and> io")
    case True
    then have "cm' = fold (\<lambda>(p, ks). openOne p ks) (zip ps kss) cm" "db' = db\<lparr>circuitKeystones := Some (putKeystones kss b)\<rparr>"
      using assms(3) Inr b by (auto simp: OpenCircuits_def)
    then show ?thesis using F by simp
  next
    case False
    then have "cm' = cm" "db' = db" using assms(3) Inr b by (auto simp: OpenCircuits_def split: if_splits)
    then show ?thesis using assms(1) by simp
  qed
qed

subsection \<open>Closing circuits\<close>

lemma maps_ok_closed:
  "maps_ok h P Q C I \<Longrightarrow> (\<And>k. k \<in> C' \<Longrightarrow> P k \<noteq> None) \<Longrightarrow> maps_ok h P Q C' I"
  unfolding maps_ok_def by (elim conjE; intro conjI; assumption?) blast

lemma close_ok:
  assumes "circuits_ok x cm db" "map_of (cm_pending cm) k = Some p"
  shows "circuits_ok x (cm\<lparr>cm_closed := k # cm_closed cm\<rparr>) db"
proof -
  have m: "mem_ok cm" using assms(1) by (simp add: circuits_ok_def)
  have "maps_ok (cm_heap cm) (map_of (cm_pending cm)) (map_of (cm_opened cm)) (insert k (set (cm_closed cm))) (indexed (cm_hashIndex cm))"
    by (rule maps_ok_closed [OF mem_okD(3) [OF m]]) (use assms(2) maps_okD(7) [OF mem_okD(3) [OF m]] in auto)
  then have "mem_ok (cm\<lparr>cm_closed := k # cm_closed cm\<rparr>)" using m by (simp add: mem_ok_def)
  moreover have "circuit_disk_ok x (cm\<lparr>cm_closed := k # cm_closed cm\<rparr>) db"
    by (rule circuits_ok_disk [OF assms(1)]) (simp_all add: adds_of_def keystones_of_def)
  ultimately show ?thesis by (simp add: circuits_ok_def)
qed

text \<open>Both ways of handing out a circuit for its answer follow one contract.\<close>

locale circuit_closing =
  fixes oper :: "CircuitKey \<Rightarrow> ('pk, 'o) circuitMap \<Rightarrow> circuit_error + nat \<times> ('pk, 'o) circuitMap"
  assumes closing: "mem_ok cm \<Longrightarrow> oper k cm = Inr (p, cm') \<Longrightarrow>
    keyOf (cm_heap cm) p \<notin> set (cm_closed cm) \<and> map_of (cm_pending cm) (keyOf (cm_heap cm) p) = Some p \<and>
    cm' = cm\<lparr>cm_closed := keyOf (cm_heap cm) p # cm_closed cm\<rparr>"
begin

lemma keeps_circuits:
  assumes "circuits_ok x cm db" "oper k cm = Inr (p, cm')"
  shows "circuits_ok x cm' db"
  using closing [OF _ assms(2)] close_ok [OF assms(1)] assms(1) by (auto simp: circuits_ok_def)

end

interpretation fail_circuit: circuit_closing FailCircuit
proof unfold_locales
  fix cm cm' :: "('a, 'b) circuitMap" and k p assume "mem_ok cm" "FailCircuit k cm = Inr (p, cm')"
  moreover from this(2) have c: "map_of (cm_pending cm) k = Some p" "k \<notin> set (cm_closed cm)" "cm' = cm\<lparr>cm_closed := k # cm_closed cm\<rparr>"
    by (auto simp: FailCircuit_def split: option.splits if_splits)
  ultimately show "keyOf (cm_heap cm) p \<notin> set (cm_closed cm) \<and> map_of (cm_pending cm) (keyOf (cm_heap cm) p) = Some p \<and>
    cm' = cm\<lparr>cm_closed := keyOf (cm_heap cm) p # cm_closed cm\<rparr>"
    using maps_okD(2) [OF mem_okD(3) c(1)] by simp
qed

interpretation close_circuit: circuit_closing CloseCircuit
proof unfold_locales
  fix cm cm' :: "('a, 'b) circuitMap" and k p assume "mem_ok cm" "CloseCircuit k cm = Inr (p, cm')"
  moreover from this(2) have c: "map_of (cm_opened cm) k = Some p" "keyOf (cm_heap cm) p \<notin> set (cm_closed cm)"
    "cm' = cm\<lparr>cm_closed := keyOf (cm_heap cm) p # cm_closed cm\<rparr>"
    by (auto simp: CloseCircuit_def Let_def split: option.splits if_splits)
  ultimately show "keyOf (cm_heap cm) p \<notin> set (cm_closed cm) \<and> map_of (cm_pending cm) (keyOf (cm_heap cm) p) = Some p \<and>
    cm' = cm\<lparr>cm_closed := keyOf (cm_heap cm) p # cm_closed cm\<rparr>"
    using maps_ok_openD(1) [OF mem_okD(3) c(1)] by simp
qed

subsection \<open>Deleting circuits\<close>

abbreviation outOf :: "('pk, 'o) PaymentCircuit list \<Rightarrow> nat \<Rightarrow> CircuitKey set" where
  "outOf h p \<equiv> set_option (pc_Outgoing (h ! p))"

lemma maps_ok_delete:
  assumes ok: "maps_ok h P Q C I" and p: "P k = Some p"
    and Q': "\<And>k'. Q' k' = (if k' \<in> outOf h p then None else Q k')"
    and I': "\<And>hash. I hash - outOf h p \<subseteq> I' hash"
  shows "maps_ok h (P(k := None)) Q' (C - {k}) I'"
proof (rule maps_okI)
  have Qp: "pc_Outgoing (h ! q) = Some k' \<and> P (pc_Incoming (h ! q)) = Some q \<and> q \<noteq> p \<and> Q k' = Some q"
    if "Q' k' = Some q" for k' q
    using that maps_ok_openD [OF ok, of k' q] by (auto simp: Q' split: if_splits)
  show "(P(k := None)) (pc_Incoming (h ! q)) = Some q \<and> pc_Outgoing (h ! q) = Some k'" if "Q' k' = Some q" for k' q
    using Qp [OF that] p by auto
  show "Q' k' = Some q" if "(P(k := None)) (pc_Incoming (h ! q)) = Some q" "pc_Outgoing (h ! q) = Some k'" for k' q
  proof -
    have "P (pc_Incoming (h ! q)) = Some q" "pc_Incoming (h ! q) \<noteq> k" using that(1) by (auto split: if_splits)
    then have q: "Q k' = Some q" "q \<noteq> p" using maps_okD(4) [OF ok, of k' q] that(2) maps_okD(2) [OF ok p] by auto
    have "k' \<notin> outOf h p" using maps_okD(4) [OF ok, of k' p] q p maps_okD(2) [OF ok p] by auto
    then show ?thesis using q by (simp add: Q')
  qed
  show "k' \<in> I' (pc_PaymentHash (h ! q))" if "Q' k' = Some q" for k' q
    using Qp [OF that] maps_okD(8) [OF ok, of k' q] I' [of "pc_PaymentHash (h ! q)"] that by (auto simp: Q' split: if_splits)
  show "scid_wf (ck_ChanID k') \<and> ck_ChanID k' \<noteq> hop_Source" if "Q' k' = Some q" for k' q
    using Qp [OF that] maps_okD(5,6) [OF ok, of k' q] by blast
  show "q < length h \<and> pc_Incoming (h ! q) = k' \<and> circuit_wf (h ! q)" if "(P(k := None)) k' = Some q" for k' q
    using that maps_okD(1,2,3) [OF ok, of k' q] by (auto split: if_splits)
qed (use maps_okD(7) [OF ok] in auto)

lemma deleteOne_simps:
  assumes "map_of (cm_pending cm) k = Some p"
  shows "cm_heap (fst (deleteOne k (cm, r, cl))) = cm_heap cm"
    "cm_pending (fst (deleteOne k (cm, r, cl))) = AList.delete k (cm_pending cm)"
    "cm_closed (fst (deleteOne k (cm, r, cl))) = removeAll k (cm_closed cm)"
    "cm_opened (fst (deleteOne k (cm, r, cl))) = (case pc_Outgoing (cm_heap cm ! p) of
       None \<Rightarrow> cm_opened cm | Some out \<Rightarrow> AList.delete out (cm_opened cm))"
    "indexed (cm_hashIndex cm) hash - outOf (cm_heap cm) p \<subseteq> indexed (cm_hashIndex (fst (deleteOne k (cm, r, cl)))) hash"
    "fst (snd (deleteOne k (cm, r, cl))) = AList.update k p r"
    "snd (snd (deleteOne k (cm, r, cl))) = (if k \<in> set (cm_closed cm) then k # cl else cl)"
  using assms by (auto simp: deleteOne_def Let_def HasKeystone_def OutKey_def split: option.splits)

lemma deleteOne_ok:
  assumes "circuits_ok x cm db" "map_of (cm_pending cm) k = Some p"
  shows "\<exists>db1. deleteOnDisk [cm_heap cm ! p] db = Some db1 \<and> circuits_ok x (fst (deleteOne k (cm, r, cl))) db1"
proof -
  have m: "mem_ok cm" and d: "circuit_disk_ok x cm db" using assms(1) by (simp_all add: circuits_ok_def)
  note M = mem_okD(3) [OF m] and D = deleteOne_simps [OF assms(2), where r = r and cl = cl]
  let ?cm = "fst (deleteOne k (cm, r, cl))"
  have key: "keyOf (cm_heap cm) p = k" "scid_wf (ck_ChanID k)"
    using maps_okD(2,3) [OF M assms(2)] by (auto simp: circuit_wf_def)
  have out: "scid_wf (ck_ChanID out)" if "pc_Outgoing (cm_heap cm ! p) = Some out" for out
    using maps_okD(4,5) [OF M, of out p] that assms(2) key(1) by simp
  have Q: "map_of (cm_opened ?cm) k' = (if k' \<in> outOf (cm_heap cm) p then None else map_of (cm_opened cm) k')" for k'
    by (auto simp: D(4) delete_conv' split: option.splits)
  have "maps_ok (cm_heap cm) ((map_of (cm_pending cm))(k := None)) (map_of (cm_opened ?cm)) (set (cm_closed cm) - {k}) (indexed (cm_hashIndex ?cm))"
    by (rule maps_ok_delete [OF M assms(2) Q D(5)])
  then have "mem_ok ?cm"
    using m by (auto simp: mem_ok_def D(1-4) delete_conv' distinct_delete split: option.splits)
  obtain adds kss where b: "circuitAdds db = Some adds" "circuitKeystones db = Some kss" "bucket_ok adds" "bucket_ok kss"
    "map_of adds = on_disk (adds_of x cm)" "map_of kss = on_disk (keystones_of cm)" using d by (auto simp: circuit_disk_ok_def)
  have "adds_of x ?cm = (adds_of x cm)(k := None)" by (auto simp: adds_of_def D(1,2) delete_conv' fun_eq_iff)
  moreover have "keystones_of ?cm = (case pc_Outgoing (cm_heap cm ! p) of None \<Rightarrow> keystones_of cm
      | Some out \<Rightarrow> (keystones_of cm)(out := None))"
    by (auto simp: keystones_of_def D(1,4) delete_conv' fun_eq_iff split: option.splits)
  ultimately have "circuit_disk_ok x ?cm (the (deleteOnDisk [cm_heap cm ! p] db))"
    using b key out by (auto simp: circuit_disk_ok_def HasKeystone_def OutKey_def on_disk_upd split: option.splits)
  then show ?thesis using \<open>mem_ok ?cm\<close> b(1,2) by (auto simp: circuits_ok_def)
qed

lemma deleteOnDisk_append:
  "deleteOnDisk (cs @ ds) db = Option.bind (deleteOnDisk cs db) (deleteOnDisk ds)"
  by (induction cs arbitrary: db) auto

abbreviation circuitsAt :: "('pk, 'o) PaymentCircuit list \<Rightarrow> (CircuitKey \<times> nat) list \<Rightarrow> ('pk, 'o) PaymentCircuit list" where
  "circuitsAt h r \<equiv> map (\<lambda>(k, p). h ! p) r"

text \<open>
  While the loop runs, the removed circuits and the ones that are left make up the pending circuits it
  started with.
\<close>

lemma delete_fold:
  assumes "circuits_ok x cm db1" "deleteOnDisk (circuitsAt (cm_heap cm) r) db = Some db1" "distinct (map fst r)"
    "dom (map_of r) \<inter> dom (map_of (cm_pending cm)) = {}" "fold deleteOne ks (cm, r, cl) = (cm', r', cl')"
  shows "(\<exists>db2. deleteOnDisk (circuitsAt (cm_heap cm) r') db = Some db2 \<and> circuits_ok x cm' db2) \<and>
    cm_heap cm' = cm_heap cm \<and> map_of (cm_pending cm') = map_of (cm_pending cm) |` (- set ks) \<and>
    map_of (cm_pending cm') ++ map_of r' = map_of (cm_pending cm) ++ map_of r \<and>
    dom (map_of r') \<inter> dom (map_of (cm_pending cm')) = {} \<and> distinct (map fst r') \<and>
    set (cm_closed cm') = set (cm_closed cm) - set ks \<and> set cl' = set cl \<union> (set (cm_closed cm) \<inter> set ks)"
  using assms
proof (induction ks arbitrary: cm db1 r cl)
  case Nil
  then show ?case by auto
next
  case (Cons k ks)
  have M: "maps_ok (cm_heap cm) (map_of (cm_pending cm)) (map_of (cm_opened cm)) (set (cm_closed cm)) (indexed (cm_hashIndex cm))"
    using Cons.prems(1) by (simp add: circuits_ok_def mem_okD(3))
  show ?case
  proof (cases "map_of (cm_pending cm) k")
    case None
    then have f: "fold deleteOne ks (cm, r, cl) = (cm', r', cl')"
      using Cons.prems(5) by (simp add: deleteOne_def [of k])
    have "k \<notin> set (cm_closed cm)" using None maps_okD(7) [OF M] by blast
    then have e: "set (cm_closed cm) - set (k # ks) = set (cm_closed cm) - set ks"
      "set (cm_closed cm) \<inter> set (k # ks) = set (cm_closed cm) \<inter> set ks" by auto
    have e': "map_of (cm_pending cm) |` (- set (k # ks)) = map_of (cm_pending cm) |` (- set ks)"
      using None by (auto simp: restrict_map_def fun_eq_iff)
    show ?thesis unfolding e e' by (rule Cons.IH [OF Cons.prems(1-4) f])
  next
    case (Some p)
    note D = deleteOne_simps [OF Some, where r = r and cl = cl]
    define cm1 where "cm1 = fst (deleteOne k (cm, r, cl))"
    have cm1: "deleteOne k (cm, r, cl) = (cm1, AList.update k p r, if k \<in> set (cm_closed cm) then k # cl else cl)"
      "cm1 = fst (deleteOne k (cm, r, cl))" using D(6,7) by (simp_all add: cm1_def prod_eq_iff)
    have rk: "map_of r k = None" using Some Cons.prems(4) by blast
    then have k: "k \<notin> fst ` set r" by (simp add: map_of_eq_None_iff)
    then have r1: "AList.update k p r = r @ [(k, p)]" by (rule update_fresh)
    obtain db2 where db2: "deleteOnDisk [cm_heap cm ! p] db1 = Some db2" "circuits_ok x cm1 db2"
      using deleteOne_ok [OF Cons.prems(1) Some, of r cl] cm1(2) by auto
    have s: "cm_heap cm1 = cm_heap cm" "map_of (cm_pending cm1) = (map_of (cm_pending cm))(k := None)"
      "cm_closed cm1 = removeAll k (cm_closed cm)" using D(1-3) cm1(2) by (simp_all add: delete_conv')
    have "deleteOnDisk (circuitsAt (cm_heap cm1) (r @ [(k, p)])) db = Some db2"
      using Cons.prems(2) db2(1) by (simp add: s deleteOnDisk_append)
    moreover have "distinct (map fst (r @ [(k, p)]))" using Cons.prems(3) k by auto
    moreover have "dom (map_of (r @ [(k, p)])) \<inter> dom (map_of (cm_pending cm1)) = {}"
      using Cons.prems(4) by (auto simp: s split: if_splits)
    moreover have "fold deleteOne ks (cm1, r @ [(k, p)], if k \<in> set (cm_closed cm) then k # cl else cl) = (cm', r', cl')"
      using Cons.prems(5) cm1(1) r1 by simp
    ultimately have IH: "(\<exists>db2. deleteOnDisk (circuitsAt (cm_heap cm1) r') db = Some db2 \<and> circuits_ok x cm' db2) \<and>
      cm_heap cm' = cm_heap cm1 \<and> map_of (cm_pending cm') = map_of (cm_pending cm1) |` (- set ks) \<and>
      map_of (cm_pending cm') ++ map_of r' = map_of (cm_pending cm1) ++ map_of (r @ [(k, p)]) \<and>
      dom (map_of r') \<inter> dom (map_of (cm_pending cm')) = {} \<and> distinct (map fst r') \<and>
      set (cm_closed cm') = set (cm_closed cm1) - set ks \<and>
      set cl' = set (if k \<in> set (cm_closed cm) then k # cl else cl) \<union> (set (cm_closed cm1) \<inter> set ks)"
      by (rule Cons.IH [OF db2(2)])
    have e1: "map_of (cm_pending cm1) ++ map_of (r @ [(k, p)]) = map_of (cm_pending cm) ++ map_of r"
      using Some rk by (auto simp: s map_add_def fun_eq_iff split: option.splits)
    have e2: "map_of (cm_pending cm1) |` (- set ks) = map_of (cm_pending cm) |` (- set (k # ks))"
      by (auto simp: s restrict_map_def fun_eq_iff)
    have e3: "set (cm_closed cm1) - set ks = set (cm_closed cm) - set (k # ks)"
      "set (if k \<in> set (cm_closed cm) then k # cl else cl) \<union> (set (cm_closed cm1) \<inter> set ks) =
       set cl \<union> (set (cm_closed cm) \<inter> set (k # ks))" by (auto simp: s)
    show ?thesis using IH unfolding e1 e2 e3 s(1) .
  qed
qed

lemma maps_ok_undelete:
  assumes ok0: "maps_ok h P0 Q0 C0 I0" and ok: "maps_ok h P Q C I" and sub: "P \<subseteq>\<^sub>m P0"
    and p: "P0 k = Some p" "P k = None"
    and Q': "\<And>k'. Q' k' = (if k' \<in> outOf h p then Some p else Q k')"
    and I': "\<And>hash. I hash \<subseteq> I' hash" "outOf h p \<subseteq> I' (pc_PaymentHash (h ! p))"
    and C': "C' \<subseteq> insert k C"
  shows "maps_ok h (P(k \<mapsto> p)) Q' C' I'"
proof (rule maps_okI)
  have key: "pc_Incoming (h ! p) = k" using maps_okD(2) [OF ok0 p(1)] .
  have Q0: "Q0 k' = Some q" if "Q' k' = Some q" for k' q
    using that maps_okD(4) [OF ok0, of k' q] maps_okD(4) [OF ok, of k' q] sub p(1) key
    by (auto simp: Q' map_le_def dom_def split: if_splits)
  show "scid_wf (ck_ChanID k') \<and> ck_ChanID k' \<noteq> hop_Source" if "Q' k' = Some q" for k' q
    using maps_okD(5,6) [OF ok0 Q0 [OF that]] by simp
  show "q < length h \<and> pc_Incoming (h ! q) = k' \<and> circuit_wf (h ! q)" if "(P(k \<mapsto> p)) k' = Some q" for k' q
    using that maps_okD(1,2,3) [OF ok, of k' q] maps_okD(1,2,3) [OF ok0 p(1)] by (auto split: if_splits)
  show "(P(k \<mapsto> p)) (pc_Incoming (h ! q)) = Some q \<and> pc_Outgoing (h ! q) = Some k'" if "Q' k' = Some q" for k' q
    using that maps_ok_openD(1,2) [OF ok, of k' q] key p(2) by (auto simp: Q' split: if_splits)
  show "Q' k' = Some q" if "(P(k \<mapsto> p)) (pc_Incoming (h ! q)) = Some q" "pc_Outgoing (h ! q) = Some k'" for k' q
  proof (cases "q = p")
    case False
    then have "P (pc_Incoming (h ! q)) = Some q" using that(1) by (auto split: if_splits)
    then have q: "Q k' = Some q" using maps_okD(4) [OF ok, of k' q] that(2) by simp
    then have "Q0 k' = Some q" using maps_okD(4) [OF ok0, of k' q] maps_okD(4) [OF ok, of k' q] sub
      by (auto simp: map_le_def dom_def)
    then have "k' \<notin> outOf h p" using maps_okD(4) [OF ok0, of k' p] p(1) key False by auto
    then show ?thesis using q by (simp add: Q')
  qed (use that in \<open>simp add: Q'\<close>)
  show "k' \<in> I' (pc_PaymentHash (h ! q))" if "Q' k' = Some q" for k' q
    using that maps_okD(8) [OF ok, of k' q] I' by (auto simp: Q' split: if_splits)
  show "(P(k \<mapsto> p)) k' \<noteq> None" if "k' \<in> C'" for k'
    using that C' maps_okD(7) [OF ok, of k'] by auto
qed

lemma undoDelete_simps:
  "cm_heap (undoDelete cl (k, p) cm) = cm_heap cm"
  "cm_pending (undoDelete cl (k, p) cm) = AList.update k p (cm_pending cm)"
  "cm_closed (undoDelete cl (k, p) cm) = (if k \<in> set cl then k # cm_closed cm else cm_closed cm)"
  "map_of (cm_opened (undoDelete cl (k, p) cm)) k' = (if k' \<in> outOf (cm_heap cm) p then Some p else map_of (cm_opened cm) k')"
  "indexed (cm_hashIndex cm) hash \<subseteq> indexed (cm_hashIndex (undoDelete cl (k, p) cm)) hash"
  "outOf (cm_heap cm) p \<subseteq> indexed (cm_hashIndex (undoDelete cl (k, p) cm)) (pc_PaymentHash (cm_heap cm ! p))"
  "distinct (map fst (cm_opened cm)) \<Longrightarrow> distinct (map fst (cm_opened (undoDelete cl (k, p) cm)))"
  by (auto simp: undoDelete_def Let_def HasKeystone_def OutKey_def update_conv' distinct_update split: option.splits)

lemma undo_fold:
  assumes "mem_ok cm0" "mem_ok cm" "cm_heap cm = cm_heap cm0" "map_of (cm_pending cm) \<subseteq>\<^sub>m map_of (cm_pending cm0)"
    "\<forall>(k, p) \<in> set r. map_of (cm_pending cm0) k = Some p \<and> map_of (cm_pending cm) k = None" "distinct (map fst r)"
  shows "mem_ok (fold (undoDelete cl) r cm) \<and> cm_heap (fold (undoDelete cl) r cm) = cm_heap cm0 \<and>
    map_of (cm_pending (fold (undoDelete cl) r cm)) = map_of (cm_pending cm) ++ map_of r \<and>
    set (cm_closed (fold (undoDelete cl) r cm)) = set (cm_closed cm) \<union> (set cl \<inter> fst ` set r)"
  using assms(2-)
proof (induction r arbitrary: cm)
  case (Cons kp r)
  obtain k p where kp: "kp = (k, p)" by fastforce
  let ?cm = "undoDelete cl (k, p) cm"
  note U = undoDelete_simps [where cl = cl and k = k and p = p and cm = cm]
  have k: "map_of (cm_pending cm0) k = Some p" "map_of (cm_pending cm) k = None" using Cons.prems(4) by (simp_all add: kp)
  have "maps_ok (cm_heap cm) ((map_of (cm_pending cm))(k \<mapsto> p)) (map_of (cm_opened ?cm)) (set (cm_closed ?cm)) (indexed (cm_hashIndex ?cm))"
    using mem_okD(3) [OF assms(1)]
    by (intro maps_ok_undelete [OF _ mem_okD(3) [OF Cons.prems(1)] Cons.prems(3) k U(4,5,6)]) (auto simp: Cons.prems(2) U(3))
  then have m: "mem_ok ?cm"
    using Cons.prems(1) U(7) by (simp add: mem_ok_def U(1,2) update_conv' distinct_update)
  have le: "map_of (cm_pending ?cm) \<subseteq>\<^sub>m map_of (cm_pending cm0)"
    using Cons.prems(3) k by (auto simp: U(2) update_conv' map_le_def)
  have r: "\<forall>(k', p') \<in> set r. map_of (cm_pending cm0) k' = Some p' \<and> map_of (cm_pending ?cm) k' = None"
  proof clarify
    fix k' p' assume kp': "(k', p') \<in> set r"
    then have "k' \<in> fst ` set r" by force
    then have "k' \<noteq> k" using Cons.prems(5) by (auto simp: kp)
    then show "map_of (cm_pending cm0) k' = Some p' \<and> map_of (cm_pending ?cm) k' = None"
      using Cons.prems(4) kp' by (auto simp: U(2) update_conv')
  qed
  have "map_of r k = None" using Cons.prems(5) by (simp add: kp map_of_eq_None_iff)
  then have e1: "map_of (cm_pending ?cm) ++ map_of r = map_of (cm_pending cm) ++ map_of ((k, p) # r)"
    by (auto simp: U(2) update_conv' map_add_def fun_eq_iff split: option.splits)
  have e2: "set (cm_closed ?cm) \<union> (set cl \<inter> fst ` set r) = set (cm_closed cm) \<union> (set cl \<inter> fst ` set ((k, p) # r))"
    by (auto simp: U(3))
  show ?case
    unfolding kp fold_simps(2) e1 [symmetric] e2 [symmetric]
    by (rule Cons.IH [OF m _ le r]) (use Cons.prems(2,5) in \<open>simp_all add: U(1) kp\<close>)
qed simp

lemma DeleteCircuits_ok:
  assumes "circuits_ok x cm db" "DeleteCircuits io ks cm db = (cm', db', e)"
  shows "circuits_ok x cm' db' \<and> cm_heap cm' = cm_heap cm \<and>
    (e = None \<longrightarrow> map_of (cm_pending cm') = map_of (cm_pending cm) |` (- set ks) \<and>
       set (cm_closed cm') = set (cm_closed cm) - set ks) \<and>
    (e \<noteq> None \<longrightarrow> map_of (cm_pending cm') = map_of (cm_pending cm) \<and> set (cm_closed cm') = set (cm_closed cm) \<and> db' = db)"
proof -
  obtain cm1 r cl where f: "fold deleteOne ks (cm, [], []) = (cm1, r, cl)" by (metis prod_cases3)
  have m: "mem_ok cm" using assms(1) by (simp add: circuits_ok_def)
  obtain db2 where F: "deleteOnDisk (circuitsAt (cm_heap cm) r) db = Some db2" "circuits_ok x cm1 db2" "cm_heap cm1 = cm_heap cm"
    "map_of (cm_pending cm1) = map_of (cm_pending cm) |` (- set ks)" "map_of (cm_pending cm1) ++ map_of r = map_of (cm_pending cm)"
    "dom (map_of r) \<inter> dom (map_of (cm_pending cm1)) = {}" "distinct (map fst r)"
    "set (cm_closed cm1) = set (cm_closed cm) - set ks" "set cl = set (cm_closed cm) \<inter> set ks"
    using delete_fold [OF assms(1) _ _ _ f, of db] by auto
  show ?thesis
  proof (cases io)
    case True
    then have "cm' = cm1" "db' = db2" "e = None" using assms(2) f F(1,3) by (auto simp: DeleteCircuits_def Let_def)
    then show ?thesis using F by simp
  next
    case False
    then have c: "cm' = fold (undoDelete cl) r cm1" "db' = db" "e \<noteq> None"
      using assms(2) f F(1,3) by (auto simp: DeleteCircuits_def Let_def)
    have le: "map_of (cm_pending cm1) \<subseteq>\<^sub>m map_of (cm_pending cm)" by (simp add: F(4) map_le_def)
    have r: "map_of (cm_pending cm) k = Some p \<and> map_of (cm_pending cm1) k = None" if "(k, p) \<in> set r" for k p
    proof -
      have "map_of r k = Some p" using that F(7) by simp
      then show ?thesis using F(5,6) by (auto simp: map_add_def fun_eq_iff split: option.splits dest: spec [of _ k])
    qed
    have m1: "mem_ok cm1" using F(2) by (simp add: circuits_ok_def)
    have U: "mem_ok cm'" "cm_heap cm' = cm_heap cm" "map_of (cm_pending cm') = map_of (cm_pending cm)"
      "set (cm_closed cm') = set (cm_closed cm1) \<union> (set cl \<inter> fst ` set r)"
      using undo_fold [OF m m1 F(3) le _ F(7), of cl] r F(5) by (auto simp: c(1))
    have keys: "fst ` set r = dom (map_of (cm_pending cm)) \<inter> set ks"
    proof -
      have "dom (map_of (cm_pending cm)) = dom (map_of r) \<union> dom (map_of (cm_pending cm1))"
        by (simp flip: F(5))
      moreover have "dom (map_of (cm_pending cm1)) = dom (map_of (cm_pending cm)) - set ks" by (auto simp: F(4))
      ultimately have "dom (map_of r) = dom (map_of (cm_pending cm)) \<inter> set ks" using F(6) by blast
      then show ?thesis by (simp add: dom_map_of_conv_image_fst)
    qed
    have "set (cm_closed cm) \<subseteq> dom (map_of (cm_pending cm))" using maps_okD(7) [OF mem_okD(3) [OF m]] by auto
    then have "set (cm_closed cm') = set (cm_closed cm)" unfolding U(4) F(8,9) keys by blast
    moreover have "circuit_disk_ok x cm' db"
      using U(2,3) opened_determined [OF m U(1) U(2,3)]
      by (intro circuits_ok_disk [OF assms(1)]) (simp_all add: adds_of_def keystones_of_def)
    ultimately show ?thesis using U(1-3) c(2,3) by (auto simp: circuits_ok_def)
  qed
qed

subsection \<open>Trimming\<close>

lemma maps_ok_trim:
  assumes ok: "maps_ok h P Q C I" and p: "Q out = Some p"
    and h': "h' = h[p := (h ! p)\<lparr>pc_Outgoing := None\<rparr>]" and I': "\<And>hash. I hash - {EmptyCircuitKey} \<subseteq> I' hash"
  shows "maps_ok h' P (Q(out := None)) C I'"
proof -
  note O = maps_ok_openD [OF ok p]
  have nth: "h' ! q = (if q = p then (h ! p)\<lparr>pc_Outgoing := None\<rparr> else h ! q)" for q using O(3) by (simp add: h')
  have len: "length h' = length h" by (simp add: h')
  have Qq: "Q k = Some q \<and> q \<noteq> p" if "(Q(out := None)) k = Some q" for k q
    using that maps_ok_openD(2) [OF ok, of k q] O(2) by (auto split: if_splits)
  show ?thesis
  proof (rule maps_okI)
    show "q < length h' \<and> pc_Incoming (h' ! q) = k \<and> circuit_wf (h' ! q)" if "P k = Some q" for k q
      using maps_okD(1,2,3) [OF ok that] len by (auto simp: nth)
    show "P (pc_Incoming (h' ! q)) = Some q \<and> pc_Outgoing (h' ! q) = Some k" if "(Q(out := None)) k = Some q" for k q
      using Qq [OF that] maps_ok_openD(1,2) [OF ok, of k q] by (simp add: nth)
    show "(Q(out := None)) k = Some q" if "P (pc_Incoming (h' ! q)) = Some q" "pc_Outgoing (h' ! q) = Some k" for k q
    proof (cases "q = p")
      case False
      then have "Q k = Some q" using that maps_okD(4) [OF ok, of k q] by (simp add: nth)
      then show ?thesis using p False by auto
    qed (use that in \<open>simp add: nth\<close>)
    show "scid_wf (ck_ChanID k) \<and> ck_ChanID k \<noteq> hop_Source" if "(Q(out := None)) k = Some q" for k q
      using Qq [OF that] maps_okD(5,6) [OF ok, of k q] by blast
    show "k \<in> I' (pc_PaymentHash (h' ! q))" if "(Q(out := None)) k = Some q" for k q
    proof -
      have q: "Q k = Some q" "q \<noteq> p" using Qq [OF that] by simp_all
      have "k \<noteq> EmptyCircuitKey" using maps_okD(6) [OF ok q(1)] by (auto simp: EmptyCircuitKey_def)
      then show ?thesis using maps_okD(8) [OF ok q(1)] I' [of "pc_PaymentHash (h ! q)"] q(2) by (auto simp: nth)
    qed
  qed (use maps_okD(7) [OF ok] in blast)
qed

lemma trimOne_ok:
  assumes "circuits_ok x cm db" "map_of (cm_opened cm) out = Some p" "circuitKeystones db = Some b"
    "cm' = setOutgoing p None cm\<lparr>cm_opened := AList.delete out (cm_opened cm),
       cm_hashIndex := removeCircuitFromHashIndex (cm_heap (setOutgoing p None cm) ! p) (cm_hashIndex cm)\<rparr>"
  shows "circuits_ok x cm' (db\<lparr>circuitKeystones := Some (bucketDelete (CircuitKey_Bytes out) b)\<rparr>)"
proof -
  have m: "mem_ok cm" and d: "circuit_disk_ok x cm db" using assms(1) by (simp_all add: circuits_ok_def)
  note M = mem_okD(3) [OF m]
  note O = maps_ok_openD [OF M assms(2)]
  let ?h = "(cm_heap cm)[p := (cm_heap cm ! p)\<lparr>pc_Outgoing := None\<rparr>]"
  have nth: "?h ! q = (if q = p then (cm_heap cm ! p)\<lparr>pc_Outgoing := None\<rparr> else cm_heap cm ! q)" for q using O(3) by simp
  have "maps_ok ?h (map_of (cm_pending cm)) ((map_of (cm_opened cm))(out := None)) (set (cm_closed cm)) (indexed (cm_hashIndex cm'))"
    by (rule maps_ok_trim [OF M assms(2) refl]) (auto simp: assms(4) setOutgoing_def nth OutKey_def)
  then have "mem_ok cm'"
    using m by (simp add: mem_ok_def assms(4) setOutgoing_def delete_conv' distinct_delete)
  moreover have "adds_of x cm' = adds_of x cm"
    by (auto simp: adds_of_def assms(4) setOutgoing_def fun_eq_iff nth map_option_case split: option.splits)
  moreover have "keystones_of cm' = (keystones_of cm)(out := None)"
    by (auto simp: keystones_of_def assms(4) setOutgoing_def fun_eq_iff nth delete_conv' map_option_case split: option.splits)
  ultimately show ?thesis using d assms(3) maps_okD(5) [OF M assms(2)] by (auto simp: circuits_ok_def circuit_disk_ok_def on_disk_upd)
qed

lemma trimLoop_ok:
  assumes "circuits_ok x cm db" "circuitKeystones db = Some b"
  shows "circuits_ok x (fst (trimLoop chanID i cm))
      (db\<lparr>circuitKeystones := Some (fold (\<lambda>k. bucketDelete (CircuitKey_Bytes k)) (snd (trimLoop chanID i cm)) b)\<rparr>) \<and>
    cm_pending (fst (trimLoop chanID i cm)) = cm_pending cm \<and> cm_closed (fst (trimLoop chanID i cm)) = cm_closed cm"
  using assms
proof (induction chanID i cm arbitrary: db b rule: trimLoop.induct)
  case (1 chanID i cm)
  let ?out = "\<lparr>ck_ChanID = chanID, ck_HtlcID = i\<rparr>"
  show ?case
  proof (cases "map_of (cm_opened cm) ?out")
    case None
    then show ?thesis using 1(2,3) by (subst (1 2 3 4) trimLoop.simps) (auto simp: Let_def circuits_ok_def circuit_disk_ok_def)
  next
    case (Some p)
    let ?cm = "setOutgoing p None cm\<lparr>cm_opened := AList.delete ?out (cm_opened cm),
       cm_hashIndex := removeCircuitFromHashIndex (cm_heap (setOutgoing p None cm) ! p) (cm_hashIndex cm)\<rparr>"
    have e: "trimLoop chanID i cm = (fst (trimLoop chanID (i + 1) ?cm), ?out # snd (trimLoop chanID (i + 1) ?cm))"
      using Some by (subst trimLoop.simps) (simp add: Let_def setOutgoing_def)
    have s: "cm_pending ?cm = cm_pending cm" "cm_closed ?cm = cm_closed cm" by (simp_all add: setOutgoing_def)
    have "circuits_ok x ?cm (db\<lparr>circuitKeystones := Some (bucketDelete (CircuitKey_Bytes ?out) b)\<rparr>)"
      by (rule trimOne_ok [OF 1(2) Some 1(3) refl])
    from 1(1) [OF refl Some refl _ this] show ?thesis by (simp add: e s) (simp add: setOutgoing_def)
  qed
qed

lemma TrimOpenCircuits_ok:
  assumes "circuits_ok x cm db" "TrimOpenCircuits io chanID start cm db = (cm', db', None)"
  shows "circuits_ok x cm' db' \<and> cm_pending cm' = cm_pending cm \<and> cm_closed cm' = cm_closed cm"
proof -
  obtain b where b: "circuitKeystones db = Some b" using assms(1) by (auto simp: circuits_ok_def circuit_disk_ok_def)
  note T = trimLoop_ok [OF assms(1) b, of chanID start]
  have "cm' = fst (trimLoop chanID start cm)"
    "db' = db\<lparr>circuitKeystones := Some (fold (\<lambda>k. bucketDelete (CircuitKey_Bytes k)) (snd (trimLoop chanID start cm)) b)\<rparr>"
    using assms(2) b by (auto simp: TrimOpenCircuits_def Let_def split: if_splits)
  then show ?thesis using T by simp
qed

lemma trimAllOpenCircuits_ok:
  "circuits_ok x cm db \<Longrightarrow> trimAllOpenCircuits io chs cm db = (cm', db', None) \<Longrightarrow>
     circuits_ok x cm' db' \<and> cm_pending cm' = cm_pending cm \<and> cm_closed cm' = cm_closed cm"
proof (induction chs arbitrary: cm db)
  case (Cons ch chs)
  show ?case
  proof (cases "ac_IsPending ch \<or> ac_ShortChanID ch = hop_Source")
    case False
    obtain cm1 db1 e where t: "TrimOpenCircuits io (ac_ShortChanID ch) (NextLocalHtlcIndex (ac_Db ch)) cm db = (cm1, db1, e)"
      by (metis prod_cases3)
    then have e: "e = None" "trimAllOpenCircuits io chs cm1 db1 = (cm', db', None)"
      using Cons.prems(2) False by (auto split: option.splits)
    then show ?thesis using Cons.IH [of cm1 db1] TrimOpenCircuits_ok [OF Cons.prems(1)] t by simp
  qed (use Cons in simp)
qed simp

end
