(* ===== verification/Htlcswitch_Restart.thy ===== *)
theory Htlcswitch_Restart
  imports Htlcswitch_Invariant
begin

text \<open>
  A circuit map that is started again: what the disk holds is enough to rebuild the maps, and the
  runs of a circuit map over restarts.
\<close>

subsection \<open>Starting up\<close>

text \<open>What can be read back from disk: every keystone belongs to a circuit, and to one only.\<close>

definition disk_wf :: "'o itself \<Rightarrow> ('pk, 'z) ext_scheme \<Rightarrow> circuitDb \<Rightarrow> bool" where
  "disk_wf _ x db \<longleftrightarrow> (\<exists>adds kss. circuitAdds db = Some adds \<and> circuitKeystones db = Some kss \<and>
     bucket_ok adds \<and> bucket_ok kss \<and> distinct (map snd kss) \<and>
     (\<forall>(b, v) \<in> set adds. \<exists>c :: ('pk, 'o) PaymentCircuit. circuit_wf c \<and> b = CircuitKey_Bytes (pc_Incoming c) \<and> v = circuit_ser x c) \<and>
     (\<forall>(b, v) \<in> set kss. v \<in> fst ` set adds \<and>
        (\<exists>k. scid_wf (ck_ChanID k) \<and> ck_ChanID k \<noteq> hop_Source \<and> b = CircuitKey_Bytes k)))"

lemma disk_wfI:
  fixes x :: "('pk, 'z) ext_scheme"
  assumes "circuitAdds db = Some adds" "circuitKeystones db = Some kss" "bucket_ok adds" "bucket_ok kss" "distinct (map snd kss)"
    "\<And>b v. (b, v) \<in> set adds \<Longrightarrow> \<exists>c :: ('pk, 'o) PaymentCircuit. circuit_wf c \<and> b = CircuitKey_Bytes (pc_Incoming c) \<and> v = circuit_ser x c"
    "\<And>b v. (b, v) \<in> set kss \<Longrightarrow> v \<in> fst ` set adds"
    "\<And>b v. (b, v) \<in> set kss \<Longrightarrow> \<exists>k. scid_wf (ck_ChanID k) \<and> ck_ChanID k \<noteq> hop_Source \<and> b = CircuitKey_Bytes k"
  shows "disk_wf TYPE('o) x db"
  unfolding disk_wf_def using assms by (intro exI [of _ adds] exI [of _ kss]) blast

lemma distinct_map_ConsD: "distinct (map f (a # as)) \<Longrightarrow> b \<in> set as \<Longrightarrow> f b \<noteq> f a"
  by (metis distinct.simps(2) image_eqI list.set_map list.simps(9))

lemma on_disk_SomeD:
  assumes "on_disk f b = Some v"
  shows "\<exists>k. scid_wf (ck_ChanID k) \<and> b = CircuitKey_Bytes k \<and> f k = Some v"
proof -
  obtain k where "CircuitKey_SetBytes b = Some k" "f k = Some v" using assms by (auto simp: on_disk_def split: option.splits)
  then show ?thesis using CircuitKey_Bytes_SetBytes by blast
qed

lemma on_disk_Some_iff:
  "on_disk f b = Some v \<longleftrightarrow> (\<exists>k. scid_wf (ck_ChanID k) \<and> b = CircuitKey_Bytes k \<and> f k = Some v)"
  using on_disk_SomeD by fastforce

lemma option_fun_eqI: "(\<And>b v. f b = Some v \<longleftrightarrow> g b = Some v) \<Longrightarrow> f = g"
  by (rule ext) (metis not_Some_eq)

lemma circuits_ok_disk_wf:
  fixes cm :: "('pk, 'o) circuitMap"
  assumes "circuits_ok x cm db"
  shows "disk_wf TYPE('o) x db"
proof -
  have M: "maps_ok (cm_heap cm) (map_of (cm_pending cm)) (map_of (cm_opened cm)) (set (cm_closed cm)) (indexed (cm_hashIndex cm))"
    using assms by (simp add: circuits_ok_def mem_okD(3))
  obtain adds kss where b: "circuitAdds db = Some adds" "circuitKeystones db = Some kss" "bucket_ok adds" "bucket_ok kss"
    "map_of adds = on_disk (adds_of x cm)" "map_of kss = on_disk (keystones_of cm)"
    using assms by (auto simp: circuits_ok_def circuit_disk_ok_def)
  have a: "\<exists>c :: ('pk, 'o) PaymentCircuit. circuit_wf c \<and> b = CircuitKey_Bytes (pc_Incoming c) \<and> v = circuit_ser x c"
    if "(b, v) \<in> set adds" for b v
  proof -
    have "on_disk (adds_of x cm) b = Some v" using that bucket_ok_distinct [OF b(3)] by (simp flip: b(5))
    then obtain k p where k: "b = CircuitKey_Bytes k" "map_of (cm_pending cm) k = Some p" "v = circuit_ser x (cm_heap cm ! p)"
      by (auto dest!: on_disk_SomeD simp: adds_of_def)
    then show ?thesis using maps_okD(2,3) [OF M k(2)] by blast
  qed
  have o: "\<exists>k p. scid_wf (ck_ChanID k) \<and> b = CircuitKey_Bytes k \<and> map_of (cm_opened cm) k = Some p \<and>
      v = CircuitKey_Bytes (keyOf (cm_heap cm) p)" if "(b, v) \<in> set kss" for b v
  proof -
    have "on_disk (keystones_of cm) b = Some v" using that bucket_ok_distinct [OF b(4)] by (simp flip: b(6))
    then obtain k where k: "scid_wf (ck_ChanID k)" "b = CircuitKey_Bytes k" "keystones_of cm k = Some v"
      using on_disk_SomeD [of "keystones_of cm" b v] by auto
    then obtain p where "map_of (cm_opened cm) k = Some p" "v = CircuitKey_Bytes (keyOf (cm_heap cm) p)"
      by (auto simp: keystones_of_def)
    with k show ?thesis by blast
  qed
  have "inj_on snd (set kss)"
  proof (rule inj_onI, clarsimp)
    fix b1 b2 v assume "(b1, v) \<in> set kss" "(b2, v) \<in> set kss"
    from o [OF this(1)] o [OF this(2)] obtain k1 p1 k2 p2 where k: "b1 = CircuitKey_Bytes k1" "map_of (cm_opened cm) k1 = Some p1"
      "b2 = CircuitKey_Bytes k2" "map_of (cm_opened cm) k2 = Some p2"
      "CircuitKey_Bytes (keyOf (cm_heap cm) p1) = CircuitKey_Bytes (keyOf (cm_heap cm) p2)" by auto
    note O = maps_ok_openD [OF M k(2)] maps_ok_openD [OF M k(4)]
    have "keyOf (cm_heap cm) p1 = keyOf (cm_heap cm) p2" using k(5) O(4,8) by (simp add: circuit_wf_def CircuitKey_Bytes_inject)
    then have "p1 = p2" using O(1,5) by (metis option.inject)
    then show "b1 = b2" using O(2,6) k(1,3) by simp
  qed
  then have "distinct (map snd kss)" using bucket_ok_distinct [OF b(4)] by (simp add: distinct_map)
  moreover have "v \<in> fst ` set adds \<and> (\<exists>k. scid_wf (ck_ChanID k) \<and> ck_ChanID k \<noteq> hop_Source \<and> b = CircuitKey_Bytes k)"
    if kv: "(b, v) \<in> set kss" for b v
  proof -
    obtain k p where k: "scid_wf (ck_ChanID k)" "b = CircuitKey_Bytes k" "map_of (cm_opened cm) k = Some p"
      "v = CircuitKey_Bytes (keyOf (cm_heap cm) p)" using o [OF kv] by blast
    note O = maps_ok_openD [OF M k(3)]
    have "map_of adds v = Some (circuit_ser x (cm_heap cm ! p))"
      using O(1,4) by (simp add: b(5) k(4) circuit_wf_def adds_of_def)
    then have "v \<in> fst ` set adds" by (metis domI dom_map_of_conv_image_fst)
    then show ?thesis using k(1,2) maps_okD(6) [OF M k(3)] by blast
  qed
  ultimately show ?thesis using a by (intro disk_wfI [OF b(1,2,3,4)]) blast+
qed

lemma decodeKeystones_Inr:
  "decodeKeystones b = Inr kss \<Longrightarrow> b = map (\<lambda>ks. (CircuitKey_Bytes (ks_OutKey ks), CircuitKey_Bytes (ks_InKey ks))) kss \<and>
     (\<forall>ks \<in> set kss. scid_wf (ck_ChanID (ks_InKey ks)) \<and> scid_wf (ck_ChanID (ks_OutKey ks)))"
  by (induction b arbitrary: kss rule: decodeKeystones.induct)
    (auto simp: CircuitKey_Bytes_SetBytes split: option.splits sum.splits)

lemma decodeCircuits_Inr:
  assumes "pubkey_ok x" "decodeCircuits x extract b = Inr cs"
    "\<forall>(k, v) \<in> set b. \<exists>c :: ('pk, 'o) PaymentCircuit. circuit_wf c \<and> k = CircuitKey_Bytes (pc_Incoming c) \<and> v = circuit_ser x c"
  shows "b = map (\<lambda>c. (CircuitKey_Bytes (pc_Incoming c), circuit_ser x c)) cs \<and> (\<forall>c \<in> set (cs :: ('pk, 'o) PaymentCircuit list). fresh_circuit c)"
  using assms(2,3)
proof (induction b arbitrary: cs)
  case (Cons kv b)
  obtain k v where kv: "kv = (k, v)" by fastforce
  obtain c0 :: "('pk, 'o) PaymentCircuit" where c0: "circuit_wf c0" "k = CircuitKey_Bytes (pc_Incoming c0)" "v = circuit_ser x c0"
    using Cons.prems(2) by (auto simp: kv)
  obtain c cs' where c: "decodeCircuit x extract v = Inr c" "decodeCircuits x extract b = Inr cs'" "cs = c # cs'"
    using Cons.prems(1) by (auto simp: kv split: sum.splits)
  have "decodeCircuit x extract (circuit_ser x c0) = Inr c" using c(1) c0(3) by simp
  note D = decodeCircuit_Inr [OF assms(1) c0(1) this]
  show ?case using Cons.IH [OF c(2)] Cons.prems(2) D c0 by (simp add: kv c(3) fresh_circuit_def)
qed simp

lemma fold_bucketDelete:
  "fold (\<lambda>k. bucketDelete (f k)) ks b = filter (\<lambda>p. fst p \<notin> f ` set ks) b"
  by (induction ks arbitrary: b) (auto simp: bucketDelete_def intro!: filter_cong)

lemma bucket_ok_filter: "bucket_ok b \<Longrightarrow> bucket_ok (filter P b)"
  by (induction b) (auto simp: bucket_ok_def)

lemma distinct_map_filter_snd: "distinct (map snd b) \<Longrightarrow> distinct (map snd (filter P b))"
  by (simp add: distinct_map_filter)

lemma initBuckets_wf:
  assumes "initBuckets io db = Inr db'"
  shows "circuitAdds db = None \<Longrightarrow> circuitKeystones db = None \<Longrightarrow> disk_wf t x db'"
    "disk_wf t x db \<Longrightarrow> disk_wf t x db'"
  using assms by (auto simp: initBuckets_def disk_wf_def bucket_ok_def split: if_splits)

lemma cleanClosedChannels_wf:
  assumes "disk_wf TYPE('o) x db" "pubkey_ok x"
    "cleanClosedChannels x io (cfg :: ('pk, 'o) CircuitMapConfig) db = Inr db'"
  shows "disk_wf TYPE('o) x db'"
proof -
  obtain adds kss where b: "circuitAdds db = Some adds" "circuitKeystones db = Some kss" "bucket_ok adds" "bucket_ok kss"
    "distinct (map snd kss)"
    "\<forall>(b, v) \<in> set adds. \<exists>c :: ('pk, 'o) PaymentCircuit. circuit_wf c \<and> b = CircuitKey_Bytes (pc_Incoming c) \<and> v = circuit_ser x c"
    "\<forall>(b, v) \<in> set kss. v \<in> fst ` set adds \<and>
        (\<exists>k. scid_wf (ck_ChanID k) \<and> ck_ChanID k \<noteq> hop_Source \<and> b = CircuitKey_Bytes k)"
    using assms(1) by (auto simp: disk_wf_def)
  obtain closed where cl: "FetchClosedChannels cfg = Some closed"
    using assms(3) by (auto simp: cleanClosedChannels_def split: option.splits)
  define ids where "ids = map ccs_ShortChanID (filter (\<lambda>c. \<not> ccs_IsPending c) closed)"
  show ?thesis
  proof (cases "ids = []")
    case True
    then show ?thesis using assms(1,3) cl by (simp add: cleanClosedChannels_def Let_def ids_def)
  next
    case False
    obtain cs ks where d: "decodeCircuits x (ExtractErrorEncrypter cfg) adds = Inr cs" "decodeKeystones kss = Inr ks"
      using assms(3) cl b(1,2) False by (auto simp: cleanClosedChannels_def Let_def ids_def split: sum.splits)
    define stale where "stale = filter (staleKeystone ids) ks"
    define ins where "ins = map pc_Incoming (filter (\<lambda>c. isClosedChannel ids (ck_ChanID (pc_Incoming c))) cs) @ map ks_InKey stale"
    have db': "db' = \<lparr>circuitAdds = Some (filter (\<lambda>p. fst p \<notin> CircuitKey_Bytes ` set ins) adds),
        circuitKeystones = Some (filter (\<lambda>p. fst p \<notin> CircuitKey_Bytes ` set (map ks_OutKey stale)) kss)\<rparr>"
      using assms(3) cl b(1,2) False d
      by (simp add: cleanClosedChannels_def Let_def ids_def [symmetric] stale_def ins_def fold_bucketDelete image_Un split: if_splits)
    note A = decodeCircuits_Inr [OF assms(2) d(1) b(6)] and K = decodeKeystones_Inr [OF d(2)]
    have "v \<notin> CircuitKey_Bytes ` set ins"
      if kv: "(k, v) \<in> set kss" "k \<notin> CircuitKey_Bytes ` set (map ks_OutKey stale)" for k v
    proof
      assume "v \<in> CircuitKey_Bytes ` set ins"
      then obtain i where i: "v = CircuitKey_Bytes i" "i \<in> set ins" by blast
      obtain e where e: "e \<in> set ks" "k = CircuitKey_Bytes (ks_OutKey e)" "v = CircuitKey_Bytes (ks_InKey e)"
        using kv(1) K by auto
      have "e \<notin> set stale" using kv(2) e(2) by auto
      then have live: "\<not> staleKeystone ids e" using e(1) by (simp add: stale_def)
      have "(\<exists>c \<in> set cs. i = pc_Incoming c \<and> isClosedChannel ids (ck_ChanID i)) \<or> (\<exists>e' \<in> set stale. i = ks_InKey e')"
        using i(2) by (auto simp: ins_def)
      then show False
      proof
        assume "\<exists>c \<in> set cs. i = pc_Incoming c \<and> isClosedChannel ids (ck_ChanID i)"
        then obtain c where c: "c \<in> set cs" "i = pc_Incoming c" "isClosedChannel ids (ck_ChanID i)" by blast
        then have "scid_wf (ck_ChanID i)" using A by (auto simp: fresh_circuit_def circuit_wf_def)
        then have "i = ks_InKey e" using i(1) e K CircuitKey_Bytes_inject by metis
        then show False using live c(3) by (simp add: staleKeystone_def)
      next
        assume "\<exists>e' \<in> set stale. i = ks_InKey e'"
        then obtain e' where e': "e' \<in> set ks" "i = ks_InKey e'" "staleKeystone ids e'" by (auto simp: stale_def)
        have "(CircuitKey_Bytes (ks_OutKey e'), v) \<in> set kss" using K e'(1,2) i(1) by auto
        then have "CircuitKey_Bytes (ks_OutKey e') = k"
          using b(5) kv(1) by (metis distinct_map inj_onD prod.sel snd_conv)
        then have "k \<in> CircuitKey_Bytes ` set (map ks_OutKey stale)" using e'(1,3) by (auto simp: stale_def)
        then show False using kv(2) by blast
      qed
    qed
    note keep = this
    show ?thesis unfolding db'
    proof (rule disk_wfI [OF circuitDb.select_convs(1) circuitDb.select_convs(2)])
      fix k v
      show "\<exists>c :: ('pk, 'o) PaymentCircuit. circuit_wf c \<and> k = CircuitKey_Bytes (pc_Incoming c) \<and> v = circuit_ser x c"
        if "(k, v) \<in> set (filter (\<lambda>p. fst p \<notin> CircuitKey_Bytes ` set ins) adds)" using that b(6) by auto
      assume kv: "(k, v) \<in> set (filter (\<lambda>p. fst p \<notin> CircuitKey_Bytes ` set (map ks_OutKey stale)) kss)"
      then have "v \<notin> CircuitKey_Bytes ` set ins" using keep [of k v] by simp
      moreover have "v \<in> fst ` set adds" using kv b(7) by auto
      ultimately show "v \<in> fst ` set (filter (\<lambda>p. fst p \<notin> CircuitKey_Bytes ` set ins) adds)" by force
      show "\<exists>k'. scid_wf (ck_ChanID k') \<and> ck_ChanID k' \<noteq> hop_Source \<and> k = CircuitKey_Bytes k'" using kv b(7) by auto
    qed (simp_all only: bucket_ok_filter b(3,4) distinct_map_filter_snd b(5))
  qed
qed

text \<open>The circuits as the first loop of \<^verbatim>\<open>restoreMemState\<close> leaves them.\<close>

abbreviation loaded :: "('pk, 'o) PaymentCircuit \<Rightarrow> ('pk, 'o) PaymentCircuit" where
  "loaded c \<equiv> c\<lparr>pc_LoadedFromDisk := True\<rparr>"

lemma fold_restoreCircuit:
  "distinct (map pc_Incoming cs) \<Longrightarrow> \<forall>c \<in> set cs. pc_Incoming c \<notin> fst ` set (cm_pending cm) \<Longrightarrow>
   fold restoreCircuit cs cm = cm\<lparr>cm_heap := cm_heap cm @ map loaded cs,
     cm_pending := cm_pending cm @ zip (map pc_Incoming cs) [length (cm_heap cm)..<length (cm_heap cm) + length cs]\<rparr>"
proof (induction cs arbitrary: cm)
  case (Cons c cs)
  have "\<forall>d \<in> set cs. pc_Incoming d \<notin> fst ` set (cm_pending (restoreCircuit c cm))"
    using Cons.prems by (auto simp: restoreCircuit_def update_fresh image_iff)
  then have r: "fold restoreCircuit (c # cs) cm = (restoreCircuit c cm)\<lparr>cm_heap := cm_heap (restoreCircuit c cm) @ map loaded cs,
     cm_pending := cm_pending (restoreCircuit c cm) @ zip (map pc_Incoming cs)
       [length (cm_heap (restoreCircuit c cm))..<length (cm_heap (restoreCircuit c cm)) + length cs]\<rparr>"
    using Cons.IH [of "restoreCircuit c cm"] Cons.prems by simp
  show ?case
    unfolding r using Cons.prems by (simp add: restoreCircuit_def update_fresh upt_conv_Cons del: upt_Suc)
qed simp

lemma map_of_zip_upt:
  "distinct ks \<Longrightarrow> map_of (zip ks [0..<length ks]) k = Some p \<longleftrightarrow> p < length ks \<and> ks ! p = k"
  by (subst map_of_eq_Some_iff) (auto simp: in_set_zip)

lemma restored_circuits:
  assumes "distinct (map pc_Incoming cs)" "\<forall>c \<in> set cs. fresh_circuit c" "cm = fold restoreCircuit cs emptyCircuitMap"
  shows "maps_ok (cm_heap cm) (map_of (cm_pending cm)) (\<lambda>_. None) {} (\<lambda>_. UNIV)" "cm_heap cm = map loaded cs"
    "map_of (cm_pending cm) k = Some p \<longleftrightarrow> p < length cs \<and> pc_Incoming (cs ! p) = k"
    "distinct (map fst (cm_pending cm))" "cm_opened cm = []" "cm_closed cm = []"
proof -
  have cm: "cm = \<lparr>cm_heap = map loaded cs, cm_pending = zip (map pc_Incoming cs) [0..<length cs], cm_opened = [],
      cm_closed = [], cm_hashIndex = []\<rparr>"
    using fold_restoreCircuit [OF assms(1), of emptyCircuitMap] by (simp add: assms(3) emptyCircuitMap_def)
  have P: "map_of (cm_pending cm) k = Some p \<longleftrightarrow> p < length cs \<and> pc_Incoming (cs ! p) = k" for k p
    using map_of_zip_upt [OF assms(1), of k p] by (auto simp: cm)
  then show "map_of (cm_pending cm) k = Some p \<longleftrightarrow> p < length cs \<and> pc_Incoming (cs ! p) = k" .
  show "cm_heap cm = map loaded cs" "cm_opened cm = []" "cm_closed cm = []" by (simp_all add: cm)
  show "distinct (map fst (cm_pending cm))" using assms(1) by (simp add: cm)
  show "maps_ok (cm_heap cm) (map_of (cm_pending cm)) (\<lambda>_. None) {} (\<lambda>_. UNIV)"
    by (rule maps_okI) (use assms(2) in \<open>auto simp: P fresh_circuit_def, auto simp: cm\<close>)
qed

lemma fold_restoreKeystone:
  assumes "maps_ok (cm_heap cm) (map_of (cm_pending cm)) (map_of (cm_opened cm)) {} (\<lambda>_. UNIV)"
    "distinct (map ks_InKey kss)" "distinct (map ks_OutKey kss)"
    "\<forall>ks \<in> set kss. \<exists>p. map_of (cm_pending cm) (ks_InKey ks) = Some p \<and> pc_Outgoing (cm_heap cm ! p) = None"
    "\<forall>ks \<in> set kss. map_of (cm_opened cm) (ks_OutKey ks) = None \<and> scid_wf (ck_ChanID (ks_OutKey ks)) \<and> ck_ChanID (ks_OutKey ks) \<noteq> hop_Source"
    "distinct (map fst (cm_opened cm))" "fold restoreKeystone kss (cm, strays) = (cm', strays')"
  shows "maps_ok (cm_heap cm') (map_of (cm_pending cm')) (map_of (cm_opened cm')) {} (\<lambda>_. UNIV) \<and> strays' = strays \<and>
    distinct (map fst (cm_opened cm')) \<and> cm_pending cm' = cm_pending cm \<and> cm_closed cm' = cm_closed cm \<and>
    length (cm_heap cm') = length (cm_heap cm) \<and> (\<forall>p. (cm_heap cm' ! p)\<lparr>pc_Outgoing := None\<rparr> = (cm_heap cm ! p)\<lparr>pc_Outgoing := None\<rparr>) \<and>
    (\<forall>k. map_of (cm_opened cm') k = (case find (\<lambda>ks. ks_OutKey ks = k) kss of
        None \<Rightarrow> map_of (cm_opened cm) k | Some ks \<Rightarrow> map_of (cm_pending cm) (ks_InKey ks)))"
  using assms
proof (induction kss arbitrary: cm)
  case (Cons ks kss)
  obtain p where p: "map_of (cm_pending cm) (ks_InKey ks) = Some p" "pc_Outgoing (cm_heap cm ! p) = None"
    using Cons.prems(4) by auto
  define cm1 where "cm1 = (setOutgoing p (Some (ks_OutKey ks)) cm)\<lparr>cm_opened := AList.update (ks_OutKey ks) p (cm_opened cm)\<rparr>"
  have s: "cm_pending cm1 = cm_pending cm" "cm_closed cm1 = cm_closed cm"
    "map_of (cm_opened cm1) = (map_of (cm_opened cm))(ks_OutKey ks \<mapsto> p)"
    "cm_heap cm1 = (cm_heap cm)[p := (cm_heap cm ! p)\<lparr>pc_Outgoing := Some (ks_OutKey ks)\<rparr>]"
    by (simp_all add: cm1_def setOutgoing_def update_conv')
  have f: "fold restoreKeystone kss (cm1, strays) = (cm', strays')"
    using Cons.prems(7) p(1) by (simp add: restoreKeystone_def [of ks] cm1_def setOutgoing_def Let_def)
  have len: "p < length (cm_heap cm)" and key: "keyOf (cm_heap cm) p = ks_InKey ks"
    using maps_okD(1,2) [OF Cons.prems(1) p(1)] by simp_all
  have nth: "cm_heap cm1 ! q = (if q = p then (cm_heap cm ! p)\<lparr>pc_Outgoing := Some (ks_OutKey ks)\<rparr> else cm_heap cm ! q)" for q
    using len by (simp add: s)
  have ok: "maps_ok (cm_heap cm1) (map_of (cm_pending cm1)) (map_of (cm_opened cm1)) {} (\<lambda>_. UNIV)"
    unfolding s by (rule maps_ok_open [OF Cons.prems(1) p]) (use Cons.prems(5) in auto)
  have other: "\<forall>ks' \<in> set kss. \<exists>q. map_of (cm_pending cm1) (ks_InKey ks') = Some q \<and> pc_Outgoing (cm_heap cm1 ! q) = None"
  proof
    fix ks' assume k': "ks' \<in> set kss"
    then obtain q where q: "map_of (cm_pending cm) (ks_InKey ks') = Some q" "pc_Outgoing (cm_heap cm ! q) = None"
      using Cons.prems(4) by auto
    have "ks_InKey ks' \<noteq> ks_InKey ks" using distinct_map_ConsD [OF Cons.prems(2) k'] .
    then have "q \<noteq> p" using maps_okD(2) [OF Cons.prems(1) q(1)] key by auto
    then show "\<exists>q. map_of (cm_pending cm1) (ks_InKey ks') = Some q \<and> pc_Outgoing (cm_heap cm1 ! q) = None"
      using q by (auto simp: s(1) nth)
  qed
  have outs: "\<forall>ks' \<in> set kss. map_of (cm_opened cm1) (ks_OutKey ks') = None \<and> scid_wf (ck_ChanID (ks_OutKey ks')) \<and> ck_ChanID (ks_OutKey ks') \<noteq> hop_Source"
    using Cons.prems(5) distinct_map_ConsD [OF Cons.prems(3)] by (auto simp: s(3))
  have d: "distinct (map fst (cm_opened cm1))" using Cons.prems(6) by (simp add: cm1_def distinct_update)
  have h: "(cm_heap cm1 ! q)\<lparr>pc_Outgoing := None\<rparr> = (cm_heap cm ! q)\<lparr>pc_Outgoing := None\<rparr>" for q by (simp add: nth)
  have nf: "find (\<lambda>ks'. ks_OutKey ks' = ks_OutKey ks) kss = None"
    using distinct_map_ConsD [OF Cons.prems(3)] by (auto simp: find_None_iff)
  have ds: "distinct (map ks_InKey kss)" "distinct (map ks_OutKey kss)" using Cons.prems(2,3) by simp_all
  note IH = Cons.IH [OF ok ds other outs d f]
  show ?case
  proof (intro conjI allI)
    fix k
    have "map_of (cm_opened cm') k = (case find (\<lambda>ks. ks_OutKey ks = k) kss of
        None \<Rightarrow> map_of (cm_opened cm1) k | Some ks \<Rightarrow> map_of (cm_pending cm1) (ks_InKey ks))" using IH by blast
    then show "map_of (cm_opened cm') k = (case find (\<lambda>ks. ks_OutKey ks = k) (ks # kss) of
        None \<Rightarrow> map_of (cm_opened cm) k | Some ks \<Rightarrow> map_of (cm_pending cm) (ks_InKey ks))"
      using nf p(1) by (auto simp: s split: option.splits)
    show "(cm_heap cm' ! q)\<lparr>pc_Outgoing := None\<rparr> = (cm_heap cm ! q)\<lparr>pc_Outgoing := None\<rparr>" for q
      using IH h by metis
    show "maps_ok (cm_heap cm') (map_of (cm_pending cm')) (map_of (cm_opened cm')) {} (\<lambda>_. UNIV)" using IH by blast
    show "strays' = strays" "distinct (map fst (cm_opened cm'))" using IH by blast+
    show "cm_pending cm' = cm_pending cm" "cm_closed cm' = cm_closed cm" using IH s(1,2) by simp_all
    show "length (cm_heap cm') = length (cm_heap cm)" using IH s(4) by simp
  qed
qed simp

lemma indexed_fold:
  "indexed (fold (\<lambda>(k, p). addCircuitToHashIndex (h ! p)) ops idx) hash =
     indexed idx hash \<union> {OutKey (h ! p) | k p. (k, p) \<in> set ops \<and> pc_PaymentHash (h ! p) = hash}"
proof (induction ops arbitrary: idx)
  case (Cons kp ops)
  obtain k p where "kp = (k, p)" by fastforce
  then show ?case by (auto simp: Cons.IH)
qed simp

lemma maps_ok_index:
  assumes "maps_ok h P Q C I" "\<And>k p. Q k = Some p \<Longrightarrow> k \<in> I' (pc_PaymentHash (h ! p))"
  shows "maps_ok h P Q C I'"
  by (rule maps_okI) (use maps_okD [OF assms(1)] assms(2) in \<open>blast+\<close>)

text \<open>The circuits and keystones that are read back give a map that the disk is the image of.\<close>

lemma restoreMemState_ok:
  fixes cfg :: "('pk, 'o) CircuitMapConfig"
  assumes "disk_wf TYPE('o) x db" "pubkey_ok x" "restoreMemState x io cfg db = Inr (cm, db')"
  shows "circuits_ok x cm db \<and> db' = db \<and> cm_closed cm = [] \<and> (\<forall>k p. map_of (cm_pending cm) k = Some p \<longrightarrow> pc_LoadedFromDisk (cm_heap cm ! p))"
proof -
  obtain adds kss where b: "circuitAdds db = Some adds" "circuitKeystones db = Some kss" "bucket_ok adds" "bucket_ok kss"
    "distinct (map snd kss)"
    "\<forall>(b, v) \<in> set adds. \<exists>c :: ('pk, 'o) PaymentCircuit. circuit_wf c \<and> b = CircuitKey_Bytes (pc_Incoming c) \<and> v = circuit_ser x c"
    "\<forall>(b, v) \<in> set kss. v \<in> fst ` set adds \<and>
        (\<exists>k. scid_wf (ck_ChanID k) \<and> ck_ChanID k \<noteq> hop_Source \<and> b = CircuitKey_Bytes k)"
    using assms(1) by (auto simp: disk_wf_def)
  obtain cs ks where d: "decodeCircuits x (ExtractErrorEncrypter cfg) adds = Inr cs" "decodeKeystones kss = Inr ks"
    using assms(3) b(1,2) by (auto simp: restoreMemState_def Let_def split: sum.splits)
  note A = decodeCircuits_Inr [OF assms(2) d(1) b(6)] and K = decodeKeystones_Inr [OF d(2)]
  have fresh: "\<forall>c \<in> set cs. fresh_circuit c" and adds: "adds = map (\<lambda>c. (CircuitKey_Bytes (pc_Incoming c), circuit_ser x c)) cs"
    and kss: "kss = map (\<lambda>ks. (CircuitKey_Bytes (ks_OutKey ks), CircuitKey_Bytes (ks_InKey ks))) ks" using A K by simp_all
  have dcs: "distinct (map pc_Incoming cs)"
    using bucket_ok_distinct [OF b(3)] by (simp add: adds comp_def distinct_map inj_on_def)
  define cm0 where "cm0 = fold restoreCircuit cs (emptyCircuitMap :: ('pk, 'o) circuitMap)"
  note R = restored_circuits [OF dcs fresh cm0_def]
  obtain cm1 strays where f: "fold restoreKeystone ks (cm0, []) = (cm1, strays)" by fastforce
  have ins: "distinct (map ks_InKey ks)" using b(5) by (simp add: kss comp_def distinct_map inj_on_def)
  have outs: "distinct (map ks_OutKey ks)" using bucket_ok_distinct [OF b(4)] by (simp add: kss comp_def distinct_map inj_on_def)
  have pend: "\<forall>e \<in> set ks. \<exists>p. map_of (cm_pending cm0) (ks_InKey e) = Some p \<and> pc_Outgoing (cm_heap cm0 ! p) = None"
  proof
    fix e assume e: "e \<in> set ks"
    then have "CircuitKey_Bytes (ks_InKey e) \<in> fst ` set adds" using b(7) by (auto simp: kss)
    then obtain p where p: "p < length cs" "CircuitKey_Bytes (ks_InKey e) = CircuitKey_Bytes (pc_Incoming (cs ! p))"
      by (auto simp: adds in_set_conv_nth)
    then have "pc_Incoming (cs ! p) = ks_InKey e"
      using K e fresh nth_mem [OF p(1)] by (auto simp: CircuitKey_Bytes_inject fresh_circuit_def circuit_wf_def)
    then show "\<exists>p. map_of (cm_pending cm0) (ks_InKey e) = Some p \<and> pc_Outgoing (cm_heap cm0 ! p) = None"
      using p(1) fresh nth_mem [OF p(1)] by (auto simp: R(2,3) fresh_circuit_def)
  qed
  have real: "\<forall>e \<in> set ks. map_of (cm_opened cm0) (ks_OutKey e) = None \<and> scid_wf (ck_ChanID (ks_OutKey e)) \<and> ck_ChanID (ks_OutKey e) \<noteq> hop_Source"
  proof
    fix e assume e: "e \<in> set ks"
    then obtain k where k: "scid_wf (ck_ChanID k)" "ck_ChanID k \<noteq> hop_Source" "CircuitKey_Bytes (ks_OutKey e) = CircuitKey_Bytes k"
      using b(7) by (auto simp: kss)
    then have "ks_OutKey e = k" using K e by (auto simp: CircuitKey_Bytes_inject)
    then show "map_of (cm_opened cm0) (ks_OutKey e) = None \<and> scid_wf (ck_ChanID (ks_OutKey e)) \<and> ck_ChanID (ks_OutKey e) \<noteq> hop_Source"
      using k by (simp add: R(5))
  qed
  have M0: "maps_ok (cm_heap cm0) (map_of (cm_pending cm0)) (map_of (cm_opened cm0)) {} (\<lambda>_. UNIV)" using R(1,5) by simp
  have G: "distinct (map fst (cm_opened cm0))" by (simp add: R(5))
  note G = fold_restoreKeystone [OF M0 ins outs pend real this f]
  have F: "maps_ok (cm_heap cm1) (map_of (cm_pending cm1)) (map_of (cm_opened cm1)) {} (\<lambda>_. UNIV)" "strays = []"
    "distinct (map fst (cm_opened cm1))" "cm_pending cm1 = cm_pending cm0" using G by blast+
  have closed: "cm_closed cm1 = []" using G R(6) by simp
  have heap: "(cm_heap cm1 ! p)\<lparr>pc_Outgoing := None\<rparr> = (cm_heap cm0 ! p)\<lparr>pc_Outgoing := None\<rparr>" for p using G by blast
  have opened: "map_of (cm_opened cm1) k = (case find (\<lambda>e. ks_OutKey e = k) ks of
        None \<Rightarrow> map_of (cm_opened cm0) k | Some e \<Rightarrow> map_of (cm_pending cm0) (ks_InKey e))" for k using G by blast
  have cm: "cm = cm1\<lparr>cm_hashIndex := fold (\<lambda>(k, p). addCircuitToHashIndex (cm_heap cm1 ! p)) (cm_opened cm1) []\<rparr>" and db': "db' = db"
    using assms(3) b(1,2) d f F(2) by (auto simp: restoreMemState_def Let_def cm0_def split: if_splits)
  have ser: "circuit_ser x (cm_heap cm1 ! p) = circuit_ser x (cs ! p)" "keyOf (cm_heap cm1) p = pc_Incoming (cs ! p)"
    "pc_LoadedFromDisk (cm_heap cm1 ! p)" if "p < length cs" for p
  proof -
    have e: "(cm_heap cm1 ! p)\<lparr>pc_Outgoing := None\<rparr> = (loaded (cs ! p))\<lparr>pc_Outgoing := None\<rparr>" using heap [of p] that by (simp add: R(2))
    show "circuit_ser x (cm_heap cm1 ! p) = circuit_ser x (cs ! p)"
      using arg_cong [OF e, of "circuit_ser x"] by simp
    show "keyOf (cm_heap cm1) p = pc_Incoming (cs ! p)" using arg_cong [OF e, of pc_Incoming] by simp
    show "pc_LoadedFromDisk (cm_heap cm1 ! p)" using arg_cong [OF e, of pc_LoadedFromDisk] by simp
  qed
  have "k \<in> indexed (cm_hashIndex cm) (pc_PaymentHash (cm_heap cm1 ! p))" if "map_of (cm_opened cm1) k = Some p" for k p
    using map_of_SomeD [OF that] maps_ok_openD(2) [OF F(1) that] by (auto simp: cm indexed_fold OutKey_def intro!: exI [of _ k])
      (force simp: OutKey_def)
  from maps_ok_index [where I' = "indexed (cm_hashIndex cm)", OF F(1) this] have "mem_ok cm"
    using R(4) F(3,4) closed by (simp add: mem_ok_def cm)
  moreover have "map_of adds = on_disk (adds_of x cm)"
  proof (rule option_fun_eqI)
    fix b v
    have "map_of adds b = Some v \<longleftrightarrow> (\<exists>p < length cs. b = CircuitKey_Bytes (pc_Incoming (cs ! p)) \<and> v = circuit_ser x (cs ! p))"
      unfolding map_of_eq_Some_iff [OF bucket_ok_distinct [OF b(3)]] by (force simp: adds in_set_conv_nth)
    also have "\<dots> \<longleftrightarrow> (\<exists>k p. scid_wf (ck_ChanID k) \<and> b = CircuitKey_Bytes k \<and> p < length cs \<and> pc_Incoming (cs ! p) = k \<and> v = circuit_ser x (cs ! p))"
      using fresh nth_mem unfolding fresh_circuit_def circuit_wf_def by metis
    also have "\<dots> \<longleftrightarrow> on_disk (adds_of x cm) b = Some v"
      using ser(1) by (auto simp: on_disk_Some_iff adds_of_def cm F(4) R(3))
    finally show "map_of adds b = Some v \<longleftrightarrow> on_disk (adds_of x cm) b = Some v" .
  qed
  moreover have "map_of kss = on_disk (keystones_of cm)"
  proof (rule option_fun_eqI)
    fix b v
    have find: "find (\<lambda>e'. ks_OutKey e' = ks_OutKey e) ks = Some e" if "e \<in> set ks" for e
      using that outs by (induction ks) (auto dest: imageI [of _ _ ks_OutKey])
    have key: "keyOf (cm_heap cm) p = k" if "map_of (cm_pending cm0) k = Some p" for k p
      using maps_okD(2) [OF F(1), of k p] that by (simp add: F(4) cm)
    have opens: "map_of (cm_opened cm) k = Some p \<longleftrightarrow> (\<exists>e \<in> set ks. ks_OutKey e = k \<and> map_of (cm_pending cm0) (ks_InKey e) = Some p)" for k p
      using find by (auto simp: cm opened R(5) find_Some_iff find_None_iff split: option.splits) (metis find option.inject nth_mem)
    have "map_of kss b = Some v \<longleftrightarrow> (\<exists>e \<in> set ks. b = CircuitKey_Bytes (ks_OutKey e) \<and> v = CircuitKey_Bytes (ks_InKey e))"
      unfolding map_of_eq_Some_iff [OF bucket_ok_distinct [OF b(4)]] by (auto simp: kss)
    also have "\<dots> \<longleftrightarrow> on_disk (keystones_of cm) b = Some v"
      unfolding on_disk_Some_iff keystones_of_def map_option_eq_Some opens
    proof (intro iffI; elim bexE exE conjE)
      fix e assume e: "e \<in> set ks" "b = CircuitKey_Bytes (ks_OutKey e)" "v = CircuitKey_Bytes (ks_InKey e)"
      moreover obtain p where p: "map_of (cm_pending cm0) (ks_InKey e) = Some p" using pend e(1) by blast
      moreover have "keyOf (cm_heap cm) p = ks_InKey e" "scid_wf (ck_ChanID (ks_OutKey e))" using key [OF p] K e(1) by auto
      ultimately show "\<exists>k. scid_wf (ck_ChanID k) \<and> b = CircuitKey_Bytes k \<and>
        (\<exists>z. (\<exists>e \<in> set ks. ks_OutKey e = k \<and> map_of (cm_pending cm0) (ks_InKey e) = Some z) \<and> CircuitKey_Bytes (keyOf (cm_heap cm) z) = v)"
        by (intro exI [of _ "ks_OutKey e"] conjI exI [of _ p] bexI [of _ e]) simp_all
    qed (use key in auto)
    finally show "map_of kss b = Some v \<longleftrightarrow> on_disk (keystones_of cm) b = Some v" .
  qed
  ultimately show ?thesis
    using b(1-4) ser(3) closed by (auto simp: circuits_ok_def circuit_disk_ok_def db' cm F(4) R(3))
qed

text \<open>So a map that starts matches its disk, whatever it removed from it first.\<close>

lemma NewCircuitMap_ok:
  fixes cfg :: "('pk, 'o) CircuitMapConfig"
  assumes "pubkey_ok x" "disk_wf TYPE('o) x db \<or> circuitAdds db = None \<and> circuitKeystones db = None"
    "NewCircuitMap x io cfg db = (db', Inr cm)"
  shows "circuits_ok x cm db' \<and> cm_closed cm = []"
proof -
  obtain db1 where i: "initBuckets io db = Inr db1" using assms(3) by (auto simp: NewCircuitMap_def split: sum.splits)
  obtain db2 where c: "cleanClosedChannels x io cfg db1 = Inr db2" using assms(3) i by (auto simp: NewCircuitMap_def split: sum.splits)
  obtain cm3 db3 where r: "restoreMemState x io cfg db2 = Inr (cm3, db3)" using assms(3) i c by (auto simp: NewCircuitMap_def split: sum.splits)
  obtain chs where t: "trimAllOpenCircuits io chs cm3 db3 = (cm, db', None)"
    using assms(3) i c r by (auto simp: NewCircuitMap_def split: option.splits prod.splits)
  have "disk_wf TYPE('o) x db1" using initBuckets_wf [OF i] assms(2) by blast
  then have "disk_wf TYPE('o) x db2" using cleanClosedChannels_wf [OF _ assms(1) c] by blast
  from restoreMemState_ok [OF this assms(1) r] have "circuits_ok x cm3 db3" "cm_closed cm3 = []" by auto
  then show ?thesis using trimAllOpenCircuits_ok [OF _ t, of x] by simp
qed

subsection \<open>What a restart keeps\<close>

text \<open>Two maps over the same disk hold the same circuits.\<close>

lemma circuits_ok_lookup:
  fixes cm cm' :: "('pk, 'o) circuitMap"
  assumes "circuits_ok x cm db" "circuits_ok x cm' db"
  shows "adds_of x cm' k = adds_of x cm k" "keystones_of cm' k = keystones_of cm k"
proof -
  have M: "mem_ok cm" "mem_ok cm'" using assms by (simp_all add: circuits_ok_def)
  have d: "on_disk (adds_of x cm') = on_disk (adds_of x cm)" "on_disk (keystones_of cm') = on_disk (keystones_of cm)"
    using assms by (auto simp: circuits_ok_def circuit_disk_ok_def)
  have no: "adds_of x m k = None \<and> keystones_of m k = None" if m: "mem_ok m" "\<not> scid_wf (ck_ChanID k)" for m :: "('pk, 'o) circuitMap"
  proof -
    note D = maps_okD [OF mem_okD(3) [OF m(1)]]
    have "map_of (cm_pending m) k = None" using D(2,3) m(2) circuit_wf_def by (metis not_Some_eq)
    moreover have "map_of (cm_opened m) k = None" using D(5) m(2) by (metis not_Some_eq)
    ultimately show ?thesis by (simp add: adds_of_def keystones_of_def)
  qed
  have "adds_of x cm' k = adds_of x cm k \<and> keystones_of cm' k = keystones_of cm k"
  proof (cases "scid_wf (ck_ChanID k)")
    case True
    then show ?thesis using fun_cong [OF d(1), of "CircuitKey_Bytes k"] fun_cong [OF d(2), of "CircuitKey_Bytes k"] by simp
  qed (use no M in simp)
  then show "adds_of x cm' k = adds_of x cm k" "keystones_of cm' k = keystones_of cm k" by simp_all
qed

lemma circuit_ser_stored:
  assumes "pubkey_ok x" "circuit_wf c" "circuit_wf c'" "circuit_ser x c = circuit_ser x c'"
  shows "stored c = stored c'"
  using PaymentCircuit_Decode_ser [OF assms(1,2), of "[]"] PaymentCircuit_Decode_ser [OF assms(1,3), of "[]"] assms(4) by simp

text \<open>What a lookup by the incoming and by the outgoing key finds.\<close>

definition found :: "('pk, 'o) circuitMap \<Rightarrow> CircuitKey \<Rightarrow> ('pk, 'o) PaymentCircuit option" where
  "found cm k = map_option (\<lambda>p. stored (cm_heap cm ! p)) (LookupCircuit cm k)"

definition foundOpen :: "('pk, 'o) circuitMap \<Rightarrow> CircuitKey \<Rightarrow> ('pk, 'o) PaymentCircuit option" where
  "foundOpen cm k = map_option (\<lambda>p. stored (cm_heap cm ! p)) (LookupOpenCircuit cm k)"

lemma same_disk_found:
  fixes cm cm' :: "('pk, 'o) circuitMap"
  assumes "pubkey_ok x" "circuits_ok x cm db" "circuits_ok x cm' db"
  shows "found cm' k = found cm k" "foundOpen cm' k = foundOpen cm k"
proof -
  have m: "maps_ok (cm_heap cm) (map_of (cm_pending cm)) (map_of (cm_opened cm)) (set (cm_closed cm)) (indexed (cm_hashIndex cm))"
    "maps_ok (cm_heap cm') (map_of (cm_pending cm')) (map_of (cm_opened cm')) (set (cm_closed cm')) (indexed (cm_hashIndex cm'))"
    using assms by (simp_all add: circuits_ok_def mem_okD(3))
  show F: "found cm' k = found cm k" for k
  proof (cases "map_of (cm_pending cm) k")
    case None
    then show ?thesis using circuits_ok_lookup(1) [OF assms(2,3), of k] by (simp add: found_def LookupCircuit_def adds_of_def)
  next
    case (Some p)
    obtain q where q: "map_of (cm_pending cm') k = Some q" "circuit_ser x (cm_heap cm' ! q) = circuit_ser x (cm_heap cm ! p)"
      using circuits_ok_lookup(1) [OF assms(2,3), of k] Some by (auto simp: adds_of_def map_option_case split: option.splits)
    have "stored (cm_heap cm' ! q) = stored (cm_heap cm ! p)"
      by (rule circuit_ser_stored [OF assms(1) maps_okD(3) [OF m(2) q(1)] maps_okD(3) [OF m(1) Some] q(2)])
    then show ?thesis using Some q(1) by (simp add: found_def LookupCircuit_def)
  qed
  show "foundOpen cm' k = foundOpen cm k"
  proof (cases "map_of (cm_opened cm) k")
    case None
    then show ?thesis using circuits_ok_lookup(2) [OF assms(2,3), of k]
      by (simp add: foundOpen_def LookupOpenCircuit_def keystones_of_def)
  next
    case (Some p)
    obtain q where q: "map_of (cm_opened cm') k = Some q" "CircuitKey_Bytes (keyOf (cm_heap cm') q) = CircuitKey_Bytes (keyOf (cm_heap cm) p)"
      using circuits_ok_lookup(2) [OF assms(2,3), of k] Some by (auto simp: keystones_of_def map_option_case split: option.splits)
    note O = maps_ok_openD [OF m(1) Some] maps_ok_openD [OF m(2) q(1)]
    have "keyOf (cm_heap cm') q = keyOf (cm_heap cm) p" using q(2) O(4,8) by (simp add: circuit_wf_def CircuitKey_Bytes_inject)
    then show ?thesis using F [of "keyOf (cm_heap cm) p"] O(1,5) Some q(1)
      by (simp add: foundOpen_def LookupOpenCircuit_def found_def LookupCircuit_def)
  qed
qed

text \<open>Starting succeeds when the onion library gives the encrypters back.\<close>

definition extracts :: "('pk, 'o) extracter \<Rightarrow> bool" where
  "extracts extract \<longleftrightarrow> (\<forall>k. \<exists>e. extract k = (Some e, 0))"

lemma decodeCircuits_total:
  assumes "pubkey_ok x" "extracts extract"
    "\<forall>(k, v) \<in> set b. \<exists>c :: ('pk, 'o) PaymentCircuit. circuit_wf c \<and> k = CircuitKey_Bytes (pc_Incoming c) \<and> v = circuit_ser x c"
  shows "\<exists>cs :: ('pk, 'o) PaymentCircuit list. decodeCircuits x extract b = Inr cs"
  using assms(3)
proof (induction b)
  case (Cons kv b)
  obtain k v where kv: "kv = (k, v)" by fastforce
  obtain c :: "('pk, 'o) PaymentCircuit" where c: "circuit_wf c" "v = circuit_ser x c" using Cons.prems by (auto simp: kv)
  have d: "PaymentCircuit_Decode x v = Inr (stored c, [])"
    using PaymentCircuit_Decode_ser [OF assms(1) c(1), of "[]"] c(2) by simp
  have "\<exists>c'. decodeCircuit x extract v = Inr c'"
  proof (cases "pc_ErrorEncrypter (stored c)")
    case (Some e)
    obtain e' where "extract (EphemeralKey e) = (Some e', 0)" using assms(2) by (auto simp: extracts_def)
    then show ?thesis using d Some by (simp add: decodeCircuit_def Reextract_def)
  qed (simp add: decodeCircuit_def d)
  then show ?case using Cons by (auto simp: kv)
qed simp

lemma decodeKeystones_total:
  "\<forall>(k, v) \<in> set b. CircuitKey_SetBytes k \<noteq> None \<and> CircuitKey_SetBytes v \<noteq> None \<Longrightarrow> \<exists>kss. decodeKeystones b = Inr kss"
  by (induction b) auto

lemma restoreMemState_total:
  fixes cfg :: "('pk, 'o) CircuitMapConfig"
  assumes "disk_wf TYPE('o) x db" "pubkey_ok x" "extracts (ExtractErrorEncrypter cfg)"
  shows "\<exists>cm. restoreMemState x True cfg db = Inr (cm, db)"
proof -
  obtain adds kss where b: "circuitAdds db = Some adds" "circuitKeystones db = Some kss"
    "\<forall>(b, v) \<in> set adds. \<exists>c :: ('pk, 'o) PaymentCircuit. circuit_wf c \<and> b = CircuitKey_Bytes (pc_Incoming c) \<and> v = circuit_ser x c"
    "\<forall>(b, v) \<in> set kss. v \<in> fst ` set adds \<and>
        (\<exists>k. scid_wf (ck_ChanID k) \<and> ck_ChanID k \<noteq> hop_Source \<and> b = CircuitKey_Bytes k)"
    using assms(1) by (auto simp: disk_wf_def)
  obtain cs where cs: "decodeCircuits x (ExtractErrorEncrypter cfg) adds = Inr cs"
    using decodeCircuits_total [OF assms(2,3) b(3)] by blast
  have "CircuitKey_SetBytes v \<noteq> None" if "v \<in> fst ` set adds" for v
    using that b(3) by (fastforce simp: circuit_wf_def)
  then have "\<forall>(k, v) \<in> set kss. CircuitKey_SetBytes k \<noteq> None \<and> CircuitKey_SetBytes v \<noteq> None"
    using b(4) by fastforce
  then obtain ks where ks: "decodeKeystones kss = Inr ks" using decodeKeystones_total by blast
  obtain cm db' where r: "restoreMemState x True cfg db = Inr (cm, db')"
    by (simp add: restoreMemState_def b(1,2) cs ks Let_def)
  then show ?thesis using restoreMemState_ok [OF assms(1,2) r] by simp
qed

lemma trimLoop_stop: "map_of (cm_opened cm) \<lparr>ck_ChanID = chanID, ck_HtlcID = i\<rparr> = None \<Longrightarrow> trimLoop chanID i cm = (cm, [])"
  by (subst trimLoop.simps) (simp add: Let_def)

lemma trimAll_nothing:
  "(\<And>ch. ch \<in> set chs \<Longrightarrow> map_of (cm_opened cm) \<lparr>ck_ChanID = ac_ShortChanID ch, ck_HtlcID = NextLocalHtlcIndex (ac_Db ch)\<rparr> = None) \<Longrightarrow>
     trimAllOpenCircuits io chs cm db = (cm, db, None)"
proof (induction chs)
  case (Cons ch chs)
  have "trimLoop (ac_ShortChanID ch) (NextLocalHtlcIndex (ac_Db ch)) cm = (cm, [])"
    using Cons.prems [of ch] by (simp add: trimLoop_stop)
  then show ?case using Cons by (simp add: TrimOpenCircuits_def Let_def)
qed simp

end
