(* ===== verification/Htlcswitch_Correct.thy ===== *)
theory Htlcswitch_Correct
  imports Htlcswitch_Restart Wire_Sample
begin

text \<open>
  The runs of a circuit map over restarts, and what they guarantee: the disk always holds the circuits
  of the map, a restart brings them back, and a circuit is answered once for each time it was added.
\<close>

subsection \<open>Runs\<close>

text \<open>
  A run keeps two histories, both since the last start: the keys of the circuits that were added
  (those that were loaded count as added), and the keys of the circuits that were handed out to be
  answered.  New circuits come without a keystone, keystones with a channel of this node, and each
  keystone is for another circuit that has none.
\<close>

inductive circuit_run :: "('pk, 'z) ext_scheme \<Rightarrow> ('pk, 'o) circuitMap \<Rightarrow> circuitDb \<Rightarrow> CircuitKey list \<Rightarrow>
    CircuitKey list \<Rightarrow> bool" for x where
  first_start: "NewCircuitMap x io cfg \<lparr>circuitAdds = None, circuitKeystones = None\<rparr> = (db, Inr cm) \<Longrightarrow>
     circuit_run x cm db (map fst (cm_pending cm)) []"
| restart: "circuit_run x cm0 db0 adds closes \<Longrightarrow> NewCircuitMap x io cfg db0 = (db, Inr cm) \<Longrightarrow>
     circuit_run x cm db (map fst (cm_pending cm)) []"
| commit: "circuit_run x cm0 db0 adds closes \<Longrightarrow> list_all fresh_circuit cs \<Longrightarrow>
     CommitCircuits x io [length (cm_heap cm0)..<length (cm_heap cm0) + length cs] (allocate cs cm0) db0 = (cm, db, a, e) \<Longrightarrow>
     circuit_run x cm db (map (\<lambda>p. pc_Incoming (cm_heap cm ! p)) (Adds a) @ adds) closes"
| opens: "circuit_run x cm0 db0 adds closes \<Longrightarrow> keystones_ok cm0 kss \<Longrightarrow>
     OpenCircuits io kss cm0 db0 = (cm, db, e) \<Longrightarrow> circuit_run x cm db adds closes"
| fail: "circuit_run x cm0 db adds closes \<Longrightarrow> FailCircuit k cm0 = Inr (p, cm) \<Longrightarrow>
     circuit_run x cm db adds (pc_Incoming (cm_heap cm ! p) # closes)"
| close: "circuit_run x cm0 db adds closes \<Longrightarrow> CloseCircuit k cm0 = Inr (p, cm) \<Longrightarrow>
     circuit_run x cm db adds (pc_Incoming (cm_heap cm ! p) # closes)"
| delete: "circuit_run x cm0 db0 adds closes \<Longrightarrow> DeleteCircuits io ks cm0 db0 = (cm, db, e) \<Longrightarrow>
     circuit_run x cm db adds closes"
| trim: "circuit_run x cm0 db0 adds closes \<Longrightarrow> TrimOpenCircuits io chanID start cm0 db0 = (cm, db, None) \<Longrightarrow>
     circuit_run x cm db adds closes"

definition answers_ok :: "('pk, 'o) circuitMap \<Rightarrow> CircuitKey list \<Rightarrow> CircuitKey list \<Rightarrow> bool" where
  "answers_ok cm adds closes \<longleftrightarrow> (\<forall>k. count_list closes k +
     (if map_of (cm_pending cm) k \<noteq> None \<and> k \<notin> set (cm_closed cm) then 1 else 0) \<le> count_list adds k)"

lemma answers_ok_restart:
  assumes "mem_ok cm"
  shows "answers_ok cm (map fst (cm_pending cm)) []"
proof -
  have "1 \<le> count_list (map fst (cm_pending cm)) k" if "map_of (cm_pending cm) k = Some p" for k p
    using that by (metis One_nat_def Suc_leI count_list_0_iff fst_conv image_eqI list.set_map map_of_SomeD neq0_conv)
  then show ?thesis by (auto simp: answers_ok_def)
qed

lemma answers_ok_shrink:
  assumes "answers_ok cm0 adds closes"
    "\<And>k p. map_of (cm_pending cm) k = Some p \<Longrightarrow> k \<notin> set (cm_closed cm) \<Longrightarrow> map_of (cm_pending cm0) k \<noteq> None \<and> k \<notin> set (cm_closed cm0)"
  shows "answers_ok cm adds closes"
  unfolding answers_ok_def
proof
  fix k
  show "count_list closes k + (if map_of (cm_pending cm) k \<noteq> None \<and> k \<notin> set (cm_closed cm) then 1 else 0) \<le> count_list adds k"
    using assms(1) [unfolded answers_ok_def, rule_format, of k] assms(2) [of k] by (auto split: if_splits)
qed

lemma answers_ok_close:
  assumes "answers_ok cm adds closes" "map_of (cm_pending cm) k = Some p" "k \<notin> set (cm_closed cm)"
  shows "answers_ok (cm\<lparr>cm_closed := k # cm_closed cm\<rparr>) adds (k # closes)"
  unfolding answers_ok_def
proof
  fix j
  show "count_list (k # closes) j + (if map_of (cm_pending (cm\<lparr>cm_closed := k # cm_closed cm\<rparr>)) j \<noteq> None \<and>
      j \<notin> set (cm_closed (cm\<lparr>cm_closed := k # cm_closed cm\<rparr>)) then 1 else 0) \<le> count_list adds j"
    using assms(1) [unfolded answers_ok_def, rule_format, of j] assms(2,3) by (auto split: if_splits)
qed

context circuit_closing
begin

lemma keeps_answers:
  assumes "circuits_ok x cm0 db" "answers_ok cm0 adds closes" "oper k cm0 = Inr (p, cm)"
  shows "answers_ok cm adds (keyOf (cm_heap cm) p # closes)"
  using closing [OF _ assms(3)] answers_ok_close [OF assms(2)] assms(1) by (auto simp: circuits_ok_def)

end

lemma count_distinct_map: "distinct (map f ps) \<Longrightarrow> count_list (map f ps) k = (if k \<in> f ` set ps then 1 else 0)"
  by (induction ps) auto

lemma answers_ok_commit:
  assumes "answers_ok cm0 adds closes" "mem_ok cm0" "cm_closed cm = cm_closed cm0"
    "dom (map_of (cm_pending cm)) = dom (map_of (cm_pending cm0)) \<union> f ` set as" "distinct (map f as)"
    "\<And>p. p \<in> set as \<Longrightarrow> map_of (cm_pending cm0) (f p) = None"
  shows "answers_ok cm (map f as @ adds) closes"
  unfolding answers_ok_def
proof
  fix k
  have "k \<in> set (cm_closed cm0) \<Longrightarrow> map_of (cm_pending cm0) k \<noteq> None"
    using maps_okD(7) [OF mem_okD(3) [OF assms(2)], of k] .
  moreover have "map_of (cm_pending cm) k \<noteq> None \<longleftrightarrow> map_of (cm_pending cm0) k \<noteq> None \<or> k \<in> f ` set as"
    using assms(4) by blast
  moreover have "k \<in> f ` set as \<Longrightarrow> map_of (cm_pending cm0) k = None" using assms(6) by auto
  ultimately show "count_list closes k + (if map_of (cm_pending cm) k \<noteq> None \<and> k \<notin> set (cm_closed cm) then 1 else 0)
      \<le> count_list (map f as @ adds) k"
    using assms(1) [unfolded answers_ok_def, rule_format, of k] by (auto simp: assms(3) count_distinct_map [OF assms(5)] split: if_splits)
qed

lemma circuit_run_ok:
  fixes cm :: "('pk, 'o) circuitMap"
  assumes "circuit_run x cm db adds closes" "pubkey_ok x"
  shows "circuits_ok x cm db \<and> answers_ok cm adds closes"
  using assms(1)
proof induction
  case (first_start io cfg db cm)
  then show ?case using NewCircuitMap_ok [OF assms(2) _ first_start] answers_ok_restart by (auto simp: circuits_ok_def)
next
  case (restart cm0 db0 adds closes io cfg db cm)
  then show ?case using NewCircuitMap_ok [OF assms(2) _ restart(2)] circuits_ok_disk_wf answers_ok_restart by (auto simp: circuits_ok_def)
next
  case (commit cm0 db0 adds closes cs io cm db a e)
  let ?cm = "allocate cs cm0"
  have ok: "circuits_ok x ?cm db0" using commit allocate_ok by blast
  have fresh: "p < length (cm_heap ?cm) \<and> fresh_circuit (cm_heap ?cm ! p)"
    if "p \<in> set [length (cm_heap cm0)..<length (cm_heap cm0) + length cs]" for p
    using that commit(2) by (auto simp: allocate_def nth_append list_all_length)
  note C = CommitCircuits_ok [OF ok fresh commit(3)]
  have heap: "cm_heap cm = cm_heap ?cm" using C by blast
  have "answers_ok cm (map (keyOf (cm_heap ?cm)) (Adds a) @ adds) closes"
  proof (rule answers_ok_commit)
    show "answers_ok ?cm adds closes" using commit by (simp add: answers_ok_def allocate_def)
    show "mem_ok ?cm" using ok by (simp add: circuits_ok_def)
  qed (use C in blast)+
  then show ?case using C by (simp add: heap)
next
  case (opens cm0 db0 adds closes kss io cm db e)
  then show ?case using OpenCircuits_ok [of x cm0 db0 kss io cm db e] by (auto intro: answers_ok_shrink)
next
  case (fail cm0 db adds closes k p cm)
  then show ?case using fail_circuit.keeps_circuits fail_circuit.keeps_answers by blast
next
  case (close cm0 db adds closes k p cm)
  then show ?case using close_circuit.keeps_circuits close_circuit.keeps_answers by blast
next
  case (delete cm0 db0 adds closes io ks cm db e)
  then have ok: "circuits_ok x cm0 db0" "answers_ok cm0 adds closes" by simp_all
  note D = DeleteCircuits_ok [OF ok(1) delete(2)]
  have "answers_ok cm adds closes"
    using D by (intro answers_ok_shrink [OF ok(2)], cases e) (auto simp: restrict_map_def split: if_splits)
  then show ?case using D by simp
next
  case (trim cm0 db0 adds closes io chanID start cm db)
  then show ?case using TrimOpenCircuits_ok [OF _ trim(2), of x] by (auto intro: answers_ok_shrink)
qed

subsection \<open>Properties\<close>


text \<open>
  C8: A restart with no closed channel, and with nothing open at the next index of an active channel,
  succeeds, leaves the disk as it is, and finds the same circuits under the same incoming and outgoing
  keys as before; all of them are marked as loaded from disk.
\<close>

theorem restart_restores_circuits:
  fixes cfg :: "('pk, 'o) CircuitMapConfig"
  assumes "circuit_run x cm db adds closes" "pubkey_ok x" "extracts (ExtractErrorEncrypter cfg)"
    "FetchClosedChannels cfg = Some closed" "list_all ccs_IsPending closed" "FetchAllOpenChannels cfg = Some chs"
    "list_all (\<lambda>ch. LookupOpenCircuit cm \<lparr>ck_ChanID = ac_ShortChanID ch, ck_HtlcID = NextLocalHtlcIndex (ac_Db ch)\<rparr> = None) chs"
  shows "\<exists>cm'. NewCircuitMap x True cfg db = (db, Inr cm') \<and> (\<forall>k. found cm' k = found cm k \<and> foundOpen cm' k = foundOpen cm k) \<and>
    list_all (\<lambda>(k, p). pc_LoadedFromDisk (cm_heap cm' ! p)) (cm_pending cm')"
proof -
  have ok: "circuits_ok x cm db" using circuit_run_ok [OF assms(1,2)] by simp
  then have wf: "disk_wf TYPE('o) x db" by (rule circuits_ok_disk_wf)
  obtain cm' where r: "restoreMemState x True cfg db = Inr (cm', db)" using restoreMemState_total [OF wf assms(2,3)] by blast
  note R = restoreMemState_ok [OF wf assms(2) r]
  have ok': "circuits_ok x cm' db" using R by simp
  note same = same_disk_found [OF assms(2) ok ok']
  have "initBuckets True db = Inr db" using ok by (auto simp: initBuckets_def circuits_ok_def circuit_disk_ok_def)
  moreover have "cleanClosedChannels x True cfg db = Inr db"
    using assms(4,5) by (simp add: cleanClosedChannels_def Let_def filter_empty_conv list_all_iff)
  moreover have "trimAllOpenCircuits True chs cm' db = (cm', db, None)"
  proof (rule trimAll_nothing)
    fix ch assume "ch \<in> set chs"
    then have "foundOpen cm \<lparr>ck_ChanID = ac_ShortChanID ch, ck_HtlcID = NextLocalHtlcIndex (ac_Db ch)\<rparr> = None"
      using assms(7) by (simp add: foundOpen_def list_all_iff)
    then show "map_of (cm_opened cm') \<lparr>ck_ChanID = ac_ShortChanID ch, ck_HtlcID = NextLocalHtlcIndex (ac_Db ch)\<rparr> = None"
      unfolding same(2) [symmetric] by (simp add: foundOpen_def LookupOpenCircuit_def)
  qed
  ultimately have "NewCircuitMap x True cfg db = (db, Inr cm')" using r assms(6) by (simp add: NewCircuitMap_def)
  moreover have "list_all (\<lambda>(k, p). pc_LoadedFromDisk (cm_heap cm' ! p)) (cm_pending cm')"
  proof -
    have "distinct (map fst (cm_pending cm'))" using ok' by (simp add: circuits_ok_def mem_ok_def)
    then show ?thesis using R by (auto simp: list_all_iff)
  qed
  ultimately show ?thesis using same by blast
qed

text \<open>
  C7: Since the last start, \<^verbatim>\<open>FailCircuit\<close> and \<^verbatim>\<open>CloseCircuit\<close> together have handed out the circuit
  of an incoming key at most as often as \<^verbatim>\<open>CommitCircuits\<close> has added one (or the start has loaded one):
  a forwarded HTLC is answered once, also when a failed deletion puts circuits back.
\<close>

theorem circuit_answered_once:
  assumes "circuit_run x cm db adds closes" "pubkey_ok x"
  shows "count_list closes k \<le> count_list adds k"
  using circuit_run_ok [OF assms] by (auto simp: answers_ok_def dest: spec [of _ k])

text \<open>
  In every state a run reaches, \<^verbatim>\<open>LookupByPaymentHash\<close> finds each open circuit under its payment hash.
\<close>

theorem LookupByPaymentHash_complete:
  assumes "circuit_run x cm db adds closes" "pubkey_ok x" "LookupOpenCircuit cm out = Some p"
  shows "p \<in> set (LookupByPaymentHash cm (pc_PaymentHash (cm_heap cm ! p)))"
proof -
  have "maps_ok (cm_heap cm) (map_of (cm_pending cm)) (map_of (cm_opened cm)) (set (cm_closed cm)) (indexed (cm_hashIndex cm))"
    using circuit_run_ok [OF assms(1,2)] by (simp add: circuits_ok_def mem_okD(3))
  from maps_okD(8) [OF this] have "out \<in> indexed (cm_hashIndex cm) (pc_PaymentHash (cm_heap cm ! p))"
    using assms(3) by (simp add: LookupOpenCircuit_def)
  then show ?thesis using assms(3)
    by (force simp: LookupByPaymentHash_def indexed_def LookupOpenCircuit_def List.map_filter_def split: option.splits)
qed

subsection \<open>A run\<close>

text \<open>Two circuits are added; the first is opened, and its keystone trimmed; the second takes the key.\<close>

definition sample_circuit :: "byte \<Rightarrow> (unit, unit) PaymentCircuit" where
  "sample_circuit b = \<lparr>pc_AddRef = \<lparr>ar_Height = 0, ar_Index = 0\<rparr>,
     pc_Incoming = \<lparr>ck_ChanID = \<lparr>BlockHeight = 1, TxIndex = 1, TxPosition = 1\<rparr>, ck_HtlcID = ucast b\<rparr>,
     pc_Outgoing = None, pc_PaymentHash = replicate 32 b, pc_IncomingAmount = 5, pc_OutgoingAmount = 4,
     pc_AssetId = 0, pc_ErrorEncrypter = Some (SphinxErrorEncrypter () (Some ())), pc_LoadedFromDisk = False\<rparr>"

definition circuit_cfg :: "(unit, unit) CircuitMapConfig" where
  "circuit_cfg = \<lparr>FetchAllOpenChannels = Some [], FetchClosedChannels = Some [],
     ExtractErrorEncrypter = (\<lambda>_. (Some (SphinxErrorEncrypter () (Some ())), 0))\<rparr>"

definition sample_out :: CircuitKey where
  "sample_out = \<lparr>ck_ChanID = \<lparr>BlockHeight = 2, TxIndex = 1, TxPosition = 1\<rparr>, ck_HtlcID = 7\<rparr>"

definition sample_keystone :: "byte \<Rightarrow> Keystone" where
  "sample_keystone b = \<lparr>ks_InKey = pc_Incoming (sample_circuit b), ks_OutKey = sample_out\<rparr>"

definition sample_committed :: "(unit, unit) circuitMap \<times> circuitDb \<times> CircuitFwdActions \<times> circuit_error option" where
  "sample_committed = CommitCircuits sample_ext True [0, 1] (allocate [sample_circuit 1, sample_circuit 2] emptyCircuitMap)
     \<lparr>circuitAdds = Some [], circuitKeystones = Some []\<rparr>"

definition sample_opened :: "(unit, unit) circuitMap \<times> circuitDb \<times> circuit_error option" where
  "sample_opened = OpenCircuits True [sample_keystone 1] (fst sample_committed) (fst (snd sample_committed))"

definition sample_trimmed :: "(unit, unit) circuitMap \<times> circuitDb \<times> circuit_error option" where
  "sample_trimmed = TrimOpenCircuits True (ck_ChanID sample_out) 7 (fst sample_opened) (fst (snd sample_opened))"

definition sample_reused :: "(unit, unit) circuitMap \<times> circuitDb \<times> circuit_error option" where
  "sample_reused = OpenCircuits True [sample_keystone 2] (fst sample_trimmed) (fst (snd sample_trimmed))"

lemma sample_committed_eq:
  "fst sample_committed = \<lparr>cm_heap = [sample_circuit 1, sample_circuit 2],
     cm_pending = [(pc_Incoming (sample_circuit 1), 0), (pc_Incoming (sample_circuit 2), 1)], cm_opened = [], cm_closed = [], cm_hashIndex = []\<rparr>"
  by code_simp

lemma sample_opened_eq:
  "fst sample_opened = \<lparr>cm_heap = [(sample_circuit 1)\<lparr>pc_Outgoing := Some sample_out\<rparr>, sample_circuit 2],
     cm_pending = [(pc_Incoming (sample_circuit 1), 0), (pc_Incoming (sample_circuit 2), 1)], cm_opened = [(sample_out, 0)], cm_closed = [],
     cm_hashIndex = [(replicate 32 1, [sample_out])]\<rparr>"
  by code_simp

lemma sample_committed_actions: "Adds (fst (snd (snd sample_committed))) = [0, 1]"
  by code_simp

lemma sample_trimLoop:
  "trimLoop (ck_ChanID sample_out) 7 (fst sample_opened) =
     (\<lparr>cm_heap = [sample_circuit 1, sample_circuit 2],
     cm_pending = [(pc_Incoming (sample_circuit 1), 0), (pc_Incoming (sample_circuit 2), 1)], cm_opened = [], cm_closed = [],
     cm_hashIndex = [(replicate 32 1, [sample_out])]\<rparr>, [sample_out])"
proof -
  have out: "\<lparr>ck_ChanID = ck_ChanID sample_out, ck_HtlcID = 7\<rparr> = sample_out" "pc_Outgoing (sample_circuit 1) = None"
    "(sample_circuit 1)\<lparr>pc_Outgoing := None\<rparr> = sample_circuit 1" "EmptyCircuitKey \<noteq> sample_out" "pc_PaymentHash (sample_circuit 1) = replicate 32 1"
    by (simp_all add: sample_out_def sample_circuit_def EmptyCircuitKey_def)
  show ?thesis
    unfolding sample_opened_eq
    by (subst trimLoop.simps)
      (simp add: Let_def out trimLoop_stop setOutgoing_def removeCircuitFromHashIndex_def OutKey_def AList.delete_eq)
qed

lemma sample_trimmed_eq:
  "fst sample_trimmed = \<lparr>cm_heap = [sample_circuit 1, sample_circuit 2],
     cm_pending = [(pc_Incoming (sample_circuit 1), 0), (pc_Incoming (sample_circuit 2), 1)], cm_opened = [], cm_closed = [],
     cm_hashIndex = [(replicate 32 1, [sample_out])]\<rparr>" "snd (snd sample_trimmed) = None" "circuitKeystones (fst (snd sample_trimmed)) \<noteq> None"
proof -
  have "circuitKeystones (fst (snd sample_opened)) \<noteq> None" by code_simp
  then show "fst sample_trimmed = \<lparr>cm_heap = [sample_circuit 1, sample_circuit 2],
     cm_pending = [(pc_Incoming (sample_circuit 1), 0), (pc_Incoming (sample_circuit 2), 1)], cm_opened = [], cm_closed = [],
     cm_hashIndex = [(replicate 32 1, [sample_out])]\<rparr>" "snd (snd sample_trimmed) = None" "circuitKeystones (fst (snd sample_trimmed)) \<noteq> None"
    by (auto simp: sample_trimmed_def TrimOpenCircuits_def Let_def sample_trimLoop)
qed

lemma sample_started: "NewCircuitMap sample_ext True circuit_cfg \<lparr>circuitAdds = None, circuitKeystones = None\<rparr> =
   (\<lparr>circuitAdds = Some [], circuitKeystones = Some []\<rparr>, Inr emptyCircuitMap)"
  by code_simp

lemma sample_keystones_ok:
  "keystones_ok (fst sample_committed) [sample_keystone 1]" "keystones_ok (fst sample_trimmed) [sample_keystone 2]"
  unfolding sample_committed_eq sample_trimmed_eq
  by (simp_all add: keystones_ok_def sample_keystone_def sample_out_def sample_circuit_def scid_wf_def hop_Source_def)

lemma run_opens:
  "circuit_run x cm db adds closes \<Longrightarrow> keystones_ok cm kss \<Longrightarrow> OpenCircuits io kss cm db = r \<Longrightarrow>
     circuit_run x (fst r) (fst (snd r)) adds closes"
  by (rule circuit_run.opens [where e = "snd (snd r)"]) auto

abbreviation sample_adds :: "CircuitKey list" where
  "sample_adds \<equiv> [pc_Incoming (sample_circuit 1), pc_Incoming (sample_circuit 2)]"

lemma sample_run_committed: "circuit_run sample_ext (fst sample_committed) (fst (snd sample_committed)) sample_adds []"
proof -
  let ?db = "\<lparr>circuitAdds = Some [], circuitKeystones = Some []\<rparr>"
  have "circuit_run sample_ext (emptyCircuitMap :: (unit, unit) circuitMap) ?db [] []"
    using circuit_run.first_start [OF sample_started] by (simp add: emptyCircuitMap_def)
  moreover have "list_all fresh_circuit [sample_circuit 1, sample_circuit 2]"
    by (simp add: fresh_circuit_def circuit_wf_def sample_circuit_def scid_wf_def)
  moreover have "CommitCircuits sample_ext True [length (cm_heap (emptyCircuitMap :: (unit, unit) circuitMap))..<
      length (cm_heap (emptyCircuitMap :: (unit, unit) circuitMap)) + length [sample_circuit 1, sample_circuit 2]]
      (allocate [sample_circuit 1, sample_circuit 2] emptyCircuitMap) ?db =
      (fst sample_committed, fst (snd sample_committed), fst (snd (snd sample_committed)), snd (snd (snd sample_committed)))"
    by (simp add: sample_committed_def emptyCircuitMap_def upt_rec)
  ultimately have "circuit_run sample_ext (fst sample_committed) (fst (snd sample_committed))
      (map (\<lambda>p. pc_Incoming (cm_heap (fst sample_committed) ! p)) (Adds (fst (snd (snd sample_committed)))) @ []) []"
    by (rule circuit_run.commit)
  then show ?thesis by (simp add: sample_committed_actions sample_committed_eq)
qed

lemma sample_run_opened: "circuit_run sample_ext (fst sample_opened) (fst (snd sample_opened)) sample_adds []"
  by (rule run_opens [OF sample_run_committed sample_keystones_ok(1) sample_opened_def [symmetric]])

lemma sample_run_reused: "circuit_run sample_ext (fst sample_reused) (fst (snd sample_reused)) sample_adds []"
proof -
  have "TrimOpenCircuits True (ck_ChanID sample_out) 7 (fst sample_opened) (fst (snd sample_opened)) =
      (fst sample_trimmed, fst (snd sample_trimmed), None)"
    using sample_trimmed_eq(2) unfolding sample_trimmed_def by (metis prod.collapse)
  from circuit_run.trim [OF sample_run_opened this]
  show ?thesis by (rule run_opens [OF _ sample_keystones_ok(2) sample_reused_def [symmetric]])
qed



theorem restart_restores_circuits_witness:
  "\<exists>cm'. NewCircuitMap sample_ext True circuit_cfg (fst (snd sample_opened)) = (fst (snd sample_opened), Inr cm') \<and>
     foundOpen cm' sample_out = Some (stored (sample_circuit 1))"
proof -
  have "foundOpen (fst sample_opened) sample_out = Some (stored (sample_circuit 1))"
    by (simp add: foundOpen_def LookupOpenCircuit_def sample_opened_eq stored_def)
  moreover have "extracts (ExtractErrorEncrypter circuit_cfg)" "FetchClosedChannels circuit_cfg = Some []" "FetchAllOpenChannels circuit_cfg = Some []"
    by (simp_all add: extracts_def circuit_cfg_def)
  ultimately show ?thesis
    using restart_restores_circuits [OF sample_run_opened pubkey_ok_sample, of circuit_cfg "[]" "[]"] by auto
qed

theorem circuit_answered_once_witness:
  "\<exists>p cm. CloseCircuit sample_out (fst sample_opened) = Inr (p, cm) \<and>
     count_list [pc_Incoming (sample_circuit 1)] (pc_Incoming (sample_circuit 1)) \<le> count_list sample_adds (pc_Incoming (sample_circuit 1))"
proof -
  let ?cm = "(fst sample_opened)\<lparr>cm_closed := [pc_Incoming (sample_circuit 1)]\<rparr>"
  have c: "CloseCircuit sample_out (fst sample_opened) = Inr (0, ?cm)"
    by (simp add: CloseCircuit_def Let_def sample_opened_eq)
  have "circuit_run sample_ext ?cm (fst (snd sample_opened)) sample_adds [pc_Incoming (sample_circuit 1)]"
    using circuit_run.close [OF sample_run_opened c] by (simp add: sample_opened_eq)
  from circuit_answered_once [OF this pubkey_ok_sample] show ?thesis using c by blast
qed

theorem LookupByPaymentHash_complete_witness:
  "0 \<in> set (LookupByPaymentHash (fst sample_opened) (replicate 32 1))"
proof -
  have "LookupOpenCircuit (fst sample_opened) sample_out = Some 0" by (simp add: sample_opened_eq LookupOpenCircuit_def)
  moreover have "pc_PaymentHash (cm_heap (fst sample_opened) ! 0) = replicate 32 1" by (simp add: sample_opened_eq sample_circuit_def)
  ultimately show ?thesis using LookupByPaymentHash_complete [OF sample_run_opened pubkey_ok_sample] by metis
qed

end
