(* ===== verification/Htlcswitch_Sequencer.thy ===== *)
theory Htlcswitch_Sequencer
  imports Channeldb_Commit
begin

text \<open>
  \<^verbatim>\<open>htlcswitch/sequencer.go\<close>: the identifiers of payments that start here.  They are taken from batches
  of 1000, and only the end of the batch is written to disk.
\<close>

definition defaultSequenceBatchSize :: u64 where
  "defaultSequenceBatchSize = 1000"

record persistentSequencer =
  sq_nextID :: u64
  sq_horizonID :: u64

datatype sequencer_error = ErrSequencerCorrupted | ErrSequencerWrite

text \<open>The disk: the sequence of the bucket, if it was created.\<close>

type_synonym sequencerDb = "u64 option"

definition sq_initDB :: "bool \<Rightarrow> sequencerDb \<Rightarrow> sequencer_error + sequencerDb" where
  "sq_initDB io db = (if io then Inr (Some (case db of None \<Rightarrow> 0 | Some s \<Rightarrow> s)) else Inl ErrSequencerWrite)"

definition NewPersistentSequencer :: "bool \<Rightarrow> sequencerDb \<Rightarrow> sequencer_error + persistentSequencer \<times> sequencerDb" where
  "NewPersistentSequencer io db =
     (case sq_initDB io db of
        Inl e \<Rightarrow> Inl e
      | Inr db' \<Rightarrow> Inr (\<lparr>sq_nextID = 0, sq_horizonID = 0\<rparr>, db'))"

definition NextID :: "bool \<Rightarrow> persistentSequencer \<Rightarrow> sequencerDb \<Rightarrow>
    (sequencer_error + u64) \<times> persistentSequencer \<times> sequencerDb" where
  "NextID io s db =
     (if sq_nextID s < sq_horizonID s
      then (Inr (sq_nextID s), s\<lparr>sq_nextID := sq_nextID s + 1\<rparr>, db)
      else case db of
             None \<Rightarrow> (Inl ErrSequencerCorrupted, s, db)
           | Some seq \<Rightarrow>
               if \<not> io then (Inl ErrSequencerWrite, s, db)
               else (let nextHorizonID = seq + defaultSequenceBatchSize;
                         nextID = (if seq = 0 then seq + 1 else seq)
                     in (Inr nextID, \<lparr>sq_nextID = nextID + 1, sq_horizonID = nextHorizonID\<rparr>, Some nextHorizonID)))"

text \<open>
  The identifiers that were given out, over restarts and failed writes.  The sequence on disk does not
  reach the end of the 64-bit integers.
\<close>

inductive sequencer_run :: "persistentSequencer \<Rightarrow> sequencerDb \<Rightarrow> u64 list \<Rightarrow> bool" where
  first_start: "NewPersistentSequencer io None = Inr (s, db) \<Longrightarrow> sequencer_run s db []"
| restart: "sequencer_run s0 db0 ids \<Longrightarrow> NewPersistentSequencer io db0 = Inr (s, db) \<Longrightarrow> sequencer_run s db ids"
| next_id: "sequencer_run s0 db0 ids \<Longrightarrow> db0 = Some seq \<Longrightarrow> unat seq + 1000 < 2 ^ 64 \<Longrightarrow>
     NextID io s0 db0 = (Inr i, s, db) \<Longrightarrow> sequencer_run s db (i # ids)"
| next_error: "sequencer_run s0 db0 ids \<Longrightarrow> NextID io s0 db0 = (Inl e, s, db) \<Longrightarrow> sequencer_run s db ids"

definition sequencer_ok :: "persistentSequencer \<Rightarrow> sequencerDb \<Rightarrow> u64 list \<Rightarrow> bool" where
  "sequencer_ok s db ids \<longleftrightarrow> (\<exists>seq. db = Some seq \<and> sq_horizonID s \<le> seq \<and> distinct ids \<and>
     (\<forall>i \<in> set ids. 0 < i \<and> i < seq \<and> (sq_nextID s < sq_horizonID s \<longrightarrow> i < sq_nextID s)) \<and>
     (sq_nextID s < sq_horizonID s \<longrightarrow> 0 < sq_nextID s))"

lemma batch_bounds:
  fixes seq :: u64
  assumes "unat seq + 1000 < 2 ^ 64"
  shows "seq < seq + 1000" "seq + 1 < seq + 1000" "seq + 2 < seq + 1000"
  using assms by (simp_all add: word_less_nat_alt unat_word_ariths)

lemma nextID_less_Suc:
  assumes "(a :: u64) < b"
  shows "a < a + 1"
proof -
  have "unat b < 2 ^ 64" using unsigned_less [where ?'a = nat and w = b] by simp
  then show ?thesis using assms by (simp add: word_less_nat_alt unat_word_ariths)
qed

lemma sequencer_run_ok: "sequencer_run s db ids \<Longrightarrow> sequencer_ok s db ids"
proof (induction rule: sequencer_run.induct)
  case (next_id s0 db0 ids seq io i s db)
  note ok = next_id.IH [unfolded sequencer_ok_def]
  show ?case
  proof (cases "sq_nextID s0 < sq_horizonID s0")
    case True
    then have n: "sq_nextID s0 < sq_nextID s0 + 1" "i = sq_nextID s0" "s = s0\<lparr>sq_nextID := sq_nextID s0 + 1\<rparr>" "db = db0"
      using next_id.hyps(4) nextID_less_Suc [OF True] by (auto simp: NextID_def)
    then show ?thesis using ok True by (auto simp: sequencer_ok_def intro: less_trans order.strict_trans2)
  next
    case False
    note b = batch_bounds [OF next_id.hyps(3)]
    have n: "i = (if seq = 0 then 1 else seq)" "s = \<lparr>sq_nextID = i + 1, sq_horizonID = seq + 1000\<rparr>" "db = Some (seq + 1000)"
      using next_id.hyps(2,4) False by (auto simp: NextID_def Let_def defaultSequenceBatchSize_def split: if_splits)
    have "i < i + 1" "i < seq + 1000" "0 < i" "seq \<le> i"
      using b next_id.hyps(3) by (auto simp: n(1) word_less_nat_alt unat_word_ariths unat_gt_0)
    then show ?thesis using ok b(1) next_id.hyps(2) by (auto simp: sequencer_ok_def n(2,3) intro: less_trans)
  qed
qed (auto simp: sequencer_ok_def NewPersistentSequencer_def sq_initDB_def NextID_def Let_def split: if_splits option.splits)

text \<open>
  C37: Over restarts and failed writes, no identifier is given out twice, and none is zero, the
  identifier that an empty circuit key has.
\<close>

theorem NextID_unique:
  assumes "sequencer_run s db ids"
  shows "distinct ids \<and> 0 \<notin> set ids"
  using sequencer_run_ok [OF assms] by (auto simp: sequencer_ok_def)

theorem NextID_unique_witness: "distinct [1000, 2, 1 :: u64] \<and> 0 \<notin> set [1000, 2, 1 :: u64]"
proof -
  have s: "sequencer_run \<lparr>sq_nextID = 0, sq_horizonID = 0\<rparr> (Some 0) []"
    by (rule sequencer_run.first_start [of True]) (simp add: NewPersistentSequencer_def sq_initDB_def)
  have a: "sequencer_run \<lparr>sq_nextID = 2, sq_horizonID = 1000\<rparr> (Some 1000) [1]"
    by (rule sequencer_run.next_id [OF s refl, of True]) (simp_all add: NextID_def defaultSequenceBatchSize_def)
  have b: "sequencer_run \<lparr>sq_nextID = 3, sq_horizonID = 1000\<rparr> (Some 1000) [2, 1]"
    by (rule sequencer_run.next_id [OF a refl, of True]) (simp_all add: NextID_def)
  have r: "sequencer_run \<lparr>sq_nextID = 0, sq_horizonID = 0\<rparr> (Some 1000) [2, 1]"
    by (rule sequencer_run.restart [OF b, of True]) (simp add: NewPersistentSequencer_def sq_initDB_def)
  have "sequencer_run \<lparr>sq_nextID = 1001, sq_horizonID = 2000\<rparr> (Some 2000) [1000, 2, 1]"
    by (rule sequencer_run.next_id [OF r refl, of True]) (simp_all add: NextID_def defaultSequenceBatchSize_def)
  then show ?thesis using NextID_unique by blast
qed

end
