(* ===== verification/Lnwallet_CoinSelect.thy ===== *)
theory Lnwallet_CoinSelect
  imports Lnwallet_Fees Omni_Opreturn
begin

text \<open>
  The weight estimator of \<^verbatim>\<open>input/size.go\<close> and the coin selection of
  \<^verbatim>\<open>lnwallet/chanfunding/coin_select.go\<close>.  The selection goes round until the coins it took pay for
  their own fees, so the loops are partial functions: \<open>None\<close> if they never end.
\<close>

subsection \<open>Weight estimates\<close>

definition NestedP2WPKHSize :: int64 where "NestedP2WPKHSize = 1 + P2WPKHSize"
definition NestedP2WSHSize :: int64 where "NestedP2WSHSize = 1 + P2WSHSize"
definition P2PKHSize :: int64 where "P2PKHSize = 25"
definition P2PKHOutputSize :: int64 where "P2PKHOutputSize = 8 + 1 + P2PKHSize"
definition P2WKHOutputSize :: int64 where "P2WKHOutputSize = 8 + 1 + P2WPKHSize"
definition P2WSHOutputSize :: int64 where "P2WSHOutputSize = 8 + 1 + P2WSHSize"
definition P2SHSize :: int64 where "P2SHSize = 23"
definition P2SHOutputSize :: int64 where "P2SHOutputSize = 8 + 1 + P2SHSize"
definition P2PKHScriptSigSize :: int64 where "P2PKHScriptSigSize = 1 + 73 + 1 + 33"
definition P2WKHWitnessSize :: int64 where "P2WKHWitnessSize = 1 + 1 + 73 + 1 + 33"
definition BaseTxSize :: int64 where "BaseTxSize = 4 + 4"

record TxWeightEstimator =
  hasWitness :: bool
  inputCount :: u32
  outputCount :: u32
  inputSize :: int64
  inputWitnessSize :: int64
  outputSize :: int64

definition emptyEstimator :: TxWeightEstimator where
  "emptyEstimator = \<lparr>hasWitness = False, inputCount = 0, outputCount = 0, inputSize = 0,
     inputWitnessSize = 0, outputSize = 0\<rparr>"

definition AddP2PKHInput :: "TxWeightEstimator \<Rightarrow> TxWeightEstimator" where
  "AddP2PKHInput twe = twe\<lparr>inputSize := inputSize twe + (InputSize + P2PKHScriptSigSize),
     inputWitnessSize := inputWitnessSize twe + 1, inputCount := inputCount twe + 1\<rparr>"

definition AddWitnessInput :: "int64 \<Rightarrow> TxWeightEstimator \<Rightarrow> TxWeightEstimator" where
  "AddWitnessInput witnessSize twe = twe\<lparr>inputSize := inputSize twe + InputSize,
     inputWitnessSize := inputWitnessSize twe + witnessSize, inputCount := inputCount twe + 1, hasWitness := True\<rparr>"

definition AddP2WKHInput :: "TxWeightEstimator \<Rightarrow> TxWeightEstimator" where
  "AddP2WKHInput twe = AddWitnessInput P2WKHWitnessSize twe"

definition AddNestedP2WKHInput :: "TxWeightEstimator \<Rightarrow> TxWeightEstimator" where
  "AddNestedP2WKHInput twe = twe\<lparr>inputSize := inputSize twe + (InputSize + NestedP2WPKHSize),
     inputWitnessSize := inputWitnessSize twe + P2WKHWitnessSize, inputCount := inputCount twe + 1, hasWitness := True\<rparr>"

definition AddNestedP2WSHInput :: "int64 \<Rightarrow> TxWeightEstimator \<Rightarrow> TxWeightEstimator" where
  "AddNestedP2WSHInput witnessSize twe = twe\<lparr>inputSize := inputSize twe + (InputSize + NestedP2WSHSize),
     inputWitnessSize := inputWitnessSize twe + witnessSize, inputCount := inputCount twe + 1, hasWitness := True\<rparr>"

definition addOutput :: "int64 \<Rightarrow> TxWeightEstimator \<Rightarrow> TxWeightEstimator" where
  "addOutput n twe = twe\<lparr>outputSize := outputSize twe + n, outputCount := outputCount twe + 1\<rparr>"

definition AddP2PKHOutput :: "TxWeightEstimator \<Rightarrow> TxWeightEstimator" where
  "AddP2PKHOutput twe = addOutput P2PKHOutputSize twe"

definition AddP2WKHOutput :: "TxWeightEstimator \<Rightarrow> TxWeightEstimator" where
  "AddP2WKHOutput twe = addOutput P2WKHOutputSize twe"

definition AddP2WSHOutput :: "TxWeightEstimator \<Rightarrow> TxWeightEstimator" where
  "AddP2WSHOutput twe = addOutput P2WSHOutputSize twe"

definition AddOpreturnSize :: "TxWeightEstimator \<Rightarrow> TxWeightEstimator" where
  "AddOpreturnSize twe = addOutput 30 twe"

definition AddP2SHOutput :: "TxWeightEstimator \<Rightarrow> TxWeightEstimator" where
  "AddP2SHOutput twe = addOutput P2SHOutputSize twe"

text \<open>
  What the libraries give: sizes on the wire, script classes, the script of an address, and the fee of
  a weight at a rate.
\<close>

record 'a funding_ext =
  VarIntSerializeSize :: "u64 \<Rightarrow> int64"
  TxOut_SerializeSize :: "TxOut \<Rightarrow> int64"
  isPubKeyHashTy :: "bytes \<Rightarrow> bool"
  PayToAddrScript :: "'a \<Rightarrow> bytes option"
  lnd_FeeForWeight :: "SatPerKWeight \<Rightarrow> int64 \<Rightarrow> Amount"

definition AddTxOutput :: "'a funding_ext \<Rightarrow> TxOut \<Rightarrow> TxWeightEstimator \<Rightarrow> TxWeightEstimator" where
  "AddTxOutput x txOut twe = addOutput (TxOut_SerializeSize x txOut) twe"

definition twe_Weight :: "'a funding_ext \<Rightarrow> TxWeightEstimator \<Rightarrow> int64" where
  "twe_Weight x twe =
     (let txSizeStripped = BaseTxSize + VarIntSerializeSize x (ucast (inputCount twe)) + inputSize twe +
            VarIntSerializeSize x (ucast (outputCount twe)) + outputSize twe;
          weight = txSizeStripped * witnessScaleFactor
      in if hasWitness twe then weight + (WitnessHeaderSize + inputWitnessSize twe) else weight)"

definition twe_VSize :: "'a funding_ext \<Rightarrow> TxWeightEstimator \<Rightarrow> int64" where
  "twe_VSize x twe = sdiv64 (twe_Weight x twe + witnessScaleFactor - 1) witnessScaleFactor"

subsection \<open>Coin selection\<close>

datatype 'a coin_error =
    ErrInsufficientFunds Amount Amount "'a option"
  | ErrPayToAddrScript
  | ErrOnlyPubKeyHash
  | ErrFeeTooHigh Amount Amount
  | ErrOutputBelowDust Amount Amount Amount

record Coin =
  cn_TxOut :: TxOut
  cn_OutPoint :: OutPoint

definition cn_Value :: "Coin \<Rightarrow> Amount" where "cn_Value c = to_Value (cn_TxOut c)"
definition cn_PkScript :: "Coin \<Rightarrow> bytes" where "cn_PkScript c = to_PkScript (cn_TxOut c)"

fun selectLoop :: "Amount \<Rightarrow> Amount \<Rightarrow> Coin list \<Rightarrow> Coin list \<Rightarrow> 'a coin_error + Amount \<times> Coin list" where
  "selectLoop amt satSelected taken [] = Inl (ErrInsufficientFunds amt satSelected None)"
| "selectLoop amt satSelected taken (coin # coins) =
     (let sat = satSelected + cn_Value coin
      in if \<not> sless64 sat amt then Inr (sat, taken @ [coin]) else selectLoop amt sat (taken @ [coin]) coins)"

definition selectInputs :: "Amount \<Rightarrow> Coin list \<Rightarrow> 'a coin_error + Amount \<times> Coin list" where
  "selectInputs amt coins = selectLoop amt 0 [] coins"

fun selectByAddressLoop :: "'a \<Rightarrow> bytes \<Rightarrow> Amount \<Rightarrow> Amount \<Rightarrow> Coin list \<Rightarrow> Coin list \<Rightarrow> 'a coin_error + Amount \<times> Coin list" where
  "selectByAddressLoop owner script amt satSelected coinSelected [] = Inl (ErrInsufficientFunds amt satSelected (Some owner))"
| "selectByAddressLoop owner script amt satSelected coinSelected (coin # coins) =
     (if cn_PkScript coin = script
      then (let sat = satSelected + cn_Value coin; selected = coinSelected @ [coin]
            in if \<not> sless64 sat amt then Inr (sat, selected)
               else selectByAddressLoop owner script amt sat selected coins)
      else selectByAddressLoop owner script amt satSelected coinSelected coins)"

definition selectInputsByAddress :: "'a funding_ext \<Rightarrow> Amount \<Rightarrow> 'a \<Rightarrow> Coin list \<Rightarrow> 'a coin_error + Amount \<times> Coin list" where
  "selectInputsByAddress x amt ownerAddress coins =
     (case PayToAddrScript x ownerAddress of
        None \<Rightarrow> Inl ErrPayToAddrScript
      | Some payToScript \<Rightarrow> selectByAddressLoop ownerAddress payToScript amt 0 [] coins)"

text \<open>The asset is not looked at.\<close>

definition calculateFees :: "'a funding_ext \<Rightarrow> u32 \<Rightarrow> Coin list \<Rightarrow> SatPerKWeight \<Rightarrow> 'a coin_error + Amount \<times> Amount" where
  "calculateFees x assetId utxos feeRate =
     (if list_ex (\<lambda>utxo. \<not> isPubKeyHashTy x (cn_PkScript utxo)) utxos then Inl ErrOnlyPubKeyHash
      else (let noChange = AddP2SHOutput (fold (\<lambda>_. AddP2PKHInput) utxos emptyEstimator);
                withChange = AddP2PKHOutput noChange
            in Inr (lnd_FeeForWeight x feeRate (twe_Weight x noChange), lnd_FeeForWeight x feeRate (twe_Weight x withChange))))"

definition sanityCheckFee :: "Amount \<Rightarrow> Amount \<Rightarrow> 'a coin_error option" where
  "sanityCheckFee totalOut fee =
     (if sless64 (sdiv64 totalOut 5) fee then Some (ErrFeeTooHigh fee totalOut) else None)"

text \<open>The end of a round of \<^verbatim>\<open>CoinSelect\<close>: the change, and the check of the fee.\<close>

definition selectChange :: "Amount \<Rightarrow> Amount \<Rightarrow> Amount \<Rightarrow> Coin list \<Rightarrow> Amount \<Rightarrow> 'a coin_error + Coin list \<times> Amount" where
  "selectChange amt dustLimit totalSat selectedUtxos requiredFeeWithChange =
     (let overShootAmt = totalSat - amt;
          change = (if sless64 requiredFeeWithChange overShootAmt then overShootAmt - requiredFeeWithChange else 0);
          changeAmt = (if sless64 change dustLimit then 0 else change);
          totalOut = amt + changeAmt
      in case sanityCheckFee totalOut (totalSat - totalOut) of
           Some e \<Rightarrow> Inl e
         | None \<Rightarrow> Inr (selectedUtxos, changeAmt))"

partial_function (option) CoinSelectRound :: "'a funding_ext \<Rightarrow> u32 \<Rightarrow> SatPerKWeight \<Rightarrow> Amount \<Rightarrow> Amount \<Rightarrow>
    Coin list \<Rightarrow> Amount \<Rightarrow> ('a coin_error + Coin list \<times> Amount) option" where
  "CoinSelectRound x assetId feeRate amt dustLimit coins amtNeeded =
     (case selectInputs amtNeeded coins of
        Inl e \<Rightarrow> Some (Inl e)
      | Inr (totalSat, selectedUtxos) \<Rightarrow>
          (case calculateFees x assetId selectedUtxos feeRate of
             Inl e \<Rightarrow> Some (Inl e)
           | Inr (requiredFeeNoChange, requiredFeeWithChange) \<Rightarrow>
               if sless64 (totalSat - amt) requiredFeeNoChange
               then CoinSelectRound x assetId feeRate amt dustLimit coins (amt + requiredFeeNoChange)
               else Some (selectChange amt dustLimit totalSat selectedUtxos requiredFeeWithChange)))"

definition CoinSelect :: "'a funding_ext \<Rightarrow> u32 \<Rightarrow> SatPerKWeight \<Rightarrow> Amount \<Rightarrow> Amount \<Rightarrow> Coin list \<Rightarrow>
    ('a coin_error + Coin list \<times> Amount) option" where
  "CoinSelect x assetId feeRate amt dustLimit coins = CoinSelectRound x assetId feeRate amt dustLimit coins amt"

partial_function (option) CoinSelectByAddressRound :: "'a funding_ext \<Rightarrow> u32 \<Rightarrow> SatPerKWeight \<Rightarrow> Amount \<Rightarrow> Amount \<Rightarrow>
    'a \<Rightarrow> Coin list \<Rightarrow> Amount \<Rightarrow> ('a coin_error + Coin list \<times> Amount) option" where
  "CoinSelectByAddressRound x assetId feeRate amt dustLimit fromAddress coins amtNeeded =
     (case selectInputsByAddress x amtNeeded fromAddress coins of
        Inl e \<Rightarrow> Some (Inl e)
      | Inr (totalSat, selectedUtxos) \<Rightarrow>
          (case calculateFees x assetId selectedUtxos feeRate of
             Inl e \<Rightarrow> Some (Inl e)
           | Inr (requiredFeeNoChange, requiredFeeWithChange) \<Rightarrow>
               if sless64 (totalSat - amt) requiredFeeNoChange
               then CoinSelectByAddressRound x assetId feeRate amt dustLimit fromAddress coins (amt + requiredFeeNoChange)
               else Some (selectChange amt dustLimit totalSat selectedUtxos requiredFeeWithChange)))"

definition CoinSelectByAddress :: "'a funding_ext \<Rightarrow> u32 \<Rightarrow> SatPerKWeight \<Rightarrow> Amount \<Rightarrow> Amount \<Rightarrow> 'a \<Rightarrow> Coin list \<Rightarrow>
    ('a coin_error + Coin list \<times> Amount) option" where
  "CoinSelectByAddress x assetId feeRate amt dustLimit fromAddress coins =
     CoinSelectByAddressRound x assetId feeRate amt dustLimit fromAddress coins amt"

definition CoinSelectSubtractFees :: "'a funding_ext \<Rightarrow> u32 \<Rightarrow> SatPerKWeight \<Rightarrow> Amount \<Rightarrow> Amount \<Rightarrow> Coin list \<Rightarrow>
    'a coin_error + Coin list \<times> Amount \<times> Amount" where
  "CoinSelectSubtractFees x assetId feeRate amt dustLimit coins =
     (case selectInputs amt coins of
        Inl e \<Rightarrow> Inl e
      | Inr (totalSat, selectedUtxos) \<Rightarrow>
          (case calculateFees x assetId selectedUtxos feeRate of
             Inl e \<Rightarrow> Inl e
           | Inr (requiredFeeNoChange, requiredFeeWithChange) \<Rightarrow>
               (let outputAmt = totalSat - requiredFeeNoChange
                in if sless64 outputAmt dustLimit
                   then Inl (ErrOutputBelowDust outputAmt requiredFeeNoChange dustLimit)
                   else (let newOutput = amt - requiredFeeWithChange;
                             newChange = totalSat - amt;
                             both = \<not> sless64 newChange dustLimit \<and> \<not> sless64 newOutput dustLimit;
                             outputAmt' = (if both then newOutput else outputAmt);
                             changeAmt = (if both then newChange else 0);
                             totalOut = outputAmt' + changeAmt
                         in case sanityCheckFee totalOut (totalSat - totalOut) of
                              Some e \<Rightarrow> Inl e
                            | None \<Rightarrow> Inr (selectedUtxos, outputAmt', changeAmt)))))"

subsection \<open>Prefixes of the coins\<close>

text \<open>What \<open>k\<close> coins are worth, as an integer, and what they cost.\<close>

definition worth :: "Coin list \<Rightarrow> int" where
  "worth coins = sum_list (map (\<lambda>c. sint (cn_Value c)) coins)"

definition feeNoChange :: "'a funding_ext \<Rightarrow> SatPerKWeight \<Rightarrow> nat \<Rightarrow> Amount" where
  "feeNoChange x feeRate k = lnd_FeeForWeight x feeRate (twe_Weight x (AddP2SHOutput ((AddP2PKHInput ^^ k) emptyEstimator)))"

definition feeWithChange :: "'a funding_ext \<Rightarrow> SatPerKWeight \<Rightarrow> nat \<Rightarrow> Amount" where
  "feeWithChange x feeRate k =
     lnd_FeeForWeight x feeRate (twe_Weight x (AddP2PKHOutput (AddP2SHOutput ((AddP2PKHInput ^^ k) emptyEstimator))))"

definition amount_ok :: "Amount \<Rightarrow> bool" where
  "amount_ok a \<longleftrightarrow> 0 \<le> sint a \<and> sint a < 2 ^ 60"

text \<open>All coins together are worth less than \<open>2 ^ 60\<close>; there are \<open>21 \<cdot> 10 ^ 14\<close> units.\<close>

definition coins_ok :: "Coin list \<Rightarrow> bool" where
  "coins_ok coins \<longleftrightarrow> list_all (\<lambda>c. 0 \<le> sint (cn_Value c)) coins \<and> worth coins < 2 ^ 60"

definition fees_ok :: "'a funding_ext \<Rightarrow> SatPerKWeight \<Rightarrow> nat \<Rightarrow> bool" where
  "fees_ok x feeRate n \<longleftrightarrow> list_all (\<lambda>k. amount_ok (feeNoChange x feeRate k) \<and> amount_ok (feeWithChange x feeRate k)) [0..<Suc n]"

lemma sint_add_small: "\<bar>sint (a :: int64)\<bar> < 2 ^ 61 \<Longrightarrow> \<bar>sint b\<bar> < 2 ^ 61 \<Longrightarrow> sint (a + b) = sint a + sint b"
  "\<bar>sint (a :: int64)\<bar> < 2 ^ 61 \<Longrightarrow> \<bar>sint b\<bar> < 2 ^ 61 \<Longrightarrow> sint (a - b) = sint a - sint b"
  by (simp_all add: sint_word_ariths signed_take_bit_int_eq_self)

lemma worth_simps [simp]: "worth [] = 0" "worth (c # cs) = sint (cn_Value c) + worth cs" "worth (cs @ ds) = worth cs + worth ds"
  by (simp_all add: worth_def)

lemma worth_nonneg: "list_all (\<lambda>c. 0 \<le> sint (cn_Value c)) coins \<Longrightarrow> 0 \<le> worth coins"
  by (induction coins) auto

lemma worth_take_mono:
  assumes "list_all (\<lambda>c. 0 \<le> sint (cn_Value c)) coins" "j \<le> k"
  shows "worth (take j coins) \<le> worth (take k coins)" "0 \<le> worth (take j coins)" "worth (take k coins) \<le> worth coins"
proof -
  have n: "0 \<le> worth (take i (drop m coins))" for i m
    using assms(1) by (intro worth_nonneg) (auto simp: list_all_iff dest: in_set_takeD in_set_dropD)
  have "take k coins = take j coins @ take (k - j) (drop j coins)" using assms(2) by (metis le_add_diff_inverse take_add)
  then show "worth (take j coins) \<le> worth (take k coins)" using n [of "k - j" j] by simp
  show "0 \<le> worth (take j coins)" using n [of j 0] by simp
  have "coins = take k coins @ take (length coins) (drop k coins)" by simp
  then show "worth (take k coins) \<le> worth coins" using n [of "length coins" k] by (metis le_add_same_cancel1 worth_simps(3))
qed

definition select_ok :: "Amount \<Rightarrow> Coin list \<Rightarrow> 'a coin_error + Amount \<times> Coin list \<Rightarrow> bool" where
  "select_ok amt coins r \<longleftrightarrow> (case r of
      Inl e \<Rightarrow> \<exists>s. e = ErrInsufficientFunds amt s None \<and> sint s = worth coins \<and> (coins \<noteq> [] \<longrightarrow> sint s < sint amt)
    | Inr (t, sel) \<Rightarrow> \<exists>k. 0 < k \<and> k \<le> length coins \<and> sel = take k coins \<and> sint t = worth sel \<and> sint amt \<le> sint t)"

lemma selectLoop_ok:
  assumes "coins_ok (taken @ coins)" "sint sat = worth taken" "\<And>j. 0 < j \<Longrightarrow> j \<le> length taken \<Longrightarrow> worth (take j taken) < sint amt"
  shows "select_ok amt (taken @ coins) (selectLoop amt sat taken coins)"
  using assms
proof (induction amt sat taken coins rule: selectLoop.induct)
  case (1 amt sat taken)
  then show ?case using "1.prems"(3) [of "length taken"] by (auto simp: select_ok_def)
next
  case (2 amt sat taken coin coins)
  have nn: "list_all (\<lambda>c. 0 \<le> sint (cn_Value c)) (taken @ coin # coins)" and b: "worth (taken @ coin # coins) < 2 ^ 60"
    using "2.prems"(1) by (simp_all add: coins_ok_def)
  have "0 \<le> worth taken" "0 \<le> worth coins" "0 \<le> sint (cn_Value coin)" using nn by (auto intro!: worth_nonneg)
  then have s: "sint (sat + cn_Value coin) = worth (taken @ [coin])"
    using b "2.prems"(2) by (simp add: sint_add_small)
  show ?case
  proof (cases "sless64 (sat + cn_Value coin) amt")
    case True
    have "worth (take j (taken @ [coin])) < sint amt" if "0 < j" "j \<le> length (taken @ [coin])" for j
      using "2.prems"(3) [of j] that True s by (cases "j \<le> length taken") (auto simp: sless64_def)
    from "2.IH" [OF refl _ _ s this] show ?thesis using True "2.prems"(1) by (simp add: Let_def)
  next
    case False
    then show ?thesis using s by (auto simp: Let_def sless64_def select_ok_def intro!: exI [of _ "Suc (length taken)"])
  qed
qed

lemma selectInputs_ok: "coins_ok coins \<Longrightarrow> select_ok amt coins (selectInputs amt coins)"
  using selectLoop_ok [of "[]" coins 0 amt] by (simp add: selectInputs_def)

lemma fold_inputs: "fold (\<lambda>_. AddP2PKHInput) utxos e = (AddP2PKHInput ^^ length utxos) e"
  by (induction utxos arbitrary: e) (simp_all add: funpow_swap1)

lemma calculateFees_eq:
  "calculateFees x assetId utxos feeRate =
     (if list_all (\<lambda>u. isPubKeyHashTy x (cn_PkScript u)) utxos
      then Inr (feeNoChange x feeRate (length utxos), feeWithChange x feeRate (length utxos)) else Inl ErrOnlyPubKeyHash)"
  by (auto simp: calculateFees_def Let_def fold_inputs feeNoChange_def feeWithChange_def list_all_iff list_ex_iff)

subsection \<open>The outcome of a selection\<close>

text \<open>
  A selection that succeeds takes the first coins, and what they are worth is the amount, the change
  and a fee: with change exactly the fee of a transaction that has it, and the change is no dust;
  without change at least the fee of a transaction without.  At most a fifth of the outputs goes to
  the fee.  A selection fails for lack of funds only if all coins are worth less than the amount with
  the fee for some of them.
\<close>

definition selection_ok :: "'a funding_ext \<Rightarrow> SatPerKWeight \<Rightarrow> Amount \<Rightarrow> Amount \<Rightarrow> Coin list \<Rightarrow>
    'a coin_error + Coin list \<times> Amount \<Rightarrow> bool" where
  "selection_ok x feeRate amt dustLimit coins r \<longleftrightarrow> (case r of
      Inr (sel, change) \<Rightarrow> (\<exists>k fee. 0 < k \<and> k \<le> length coins \<and> sel = take k coins \<and>
        worth sel = sint amt + sint change + fee \<and> 5 * fee \<le> sint amt + sint change \<and>
        (if change = 0 then sint (feeNoChange x feeRate k) \<le> fee
         else 0 < sint change \<and> sint dustLimit \<le> sint change \<and> fee = sint (feeWithChange x feeRate k)))
    | Inl (ErrInsufficientFunds need s a) \<Rightarrow> sint s = worth coins \<and> (coins \<noteq> [] \<longrightarrow> worth coins < sint need) \<and>
        (need = amt \<or> (\<exists>k \<le> length coins. sint need = sint amt + sint (feeNoChange x feeRate k)))
    | Inl _ \<Rightarrow> True)"

lemma sint_sdiv64_5: "0 \<le> sint t \<Longrightarrow> sint (sdiv64 t 5) = sint t div 5"
proof -
  assume t: "0 \<le> sint t"
  have b: "sint t < 2 ^ 63" using sint_lt [of t] by simp
  have "sint t sdiv 5 = sint t div 5" using t by (cases "sint t = 0") (simp_all add: signed_divide_int_def)
  then show ?thesis using t b
    by (simp add: sdiv64_def sint_sbintrunc' signed_take_bit_63 pos_imp_zdiv_nonneg_iff)
qed

text \<open>What a passed check of the fee means.\<close>

lemma sanityCheckFee_None:
  assumes "sanityCheckFee totalOut fee = None" "0 \<le> sint totalOut"
  shows "5 * sint fee \<le> sint totalOut"
  using assms sint_sdiv64_5 [OF assms(2)] by (auto simp: sanityCheckFee_def sless64_def split: if_splits)

lemma selectChange_ok:
  assumes "coins_ok coins" "amount_ok amt" "amount_ok (feeWithChange x feeRate k)" "0 < k" "k \<le> length coins"
    "sint t = worth (take k coins)" "sint amt \<le> sint t" "sint (feeNoChange x feeRate k) \<le> sint t - sint amt"
  shows "selection_ok x feeRate amt dustLimit coins (selectChange amt dustLimit t (take k coins) (feeWithChange x feeRate k))"
proof -
  let ?f = "feeWithChange x feeRate k"
  have tb: "0 \<le> sint t" "sint t < 2 ^ 60"
    using assms(6) worth_take_mono [OF _ order_refl, of coins k] assms(1) by (auto simp: coins_ok_def)
  have ab: "0 \<le> sint amt" "sint amt < 2 ^ 60" "0 \<le> sint ?f" "sint ?f < 2 ^ 60" using assms(2,3) by (simp_all add: amount_ok_def)
  have over: "sint (t - amt) = sint t - sint amt" using tb ab by (simp add: sint_add_small)
  define change where "change = (if sless64 ?f (t - amt) then t - amt - ?f else 0)"
  define changeAmt where "changeAmt = (if sless64 change dustLimit then 0 else change)"
  have c: "sint change = (if sint ?f < sint t - sint amt then sint t - sint amt - sint ?f else 0)"
    using over tb ab assms(7) by (simp add: change_def sless64_def sint_add_small)
  have cb: "0 \<le> sint changeAmt" "sint amt + sint changeAmt \<le> sint t" using c assms(7) ab by (auto simp: changeAmt_def)
  then have out: "sint (amt + changeAmt) = sint amt + sint changeAmt" using tb ab by (simp add: sint_add_small)
  then have fee: "sint (t - (amt + changeAmt)) = sint t - sint amt - sint changeAmt" using tb ab cb by (simp add: sint_add_small)
  have z: "changeAmt = 0 \<or> sint ?f < sint t - sint amt \<and> changeAmt = change \<and> sint dustLimit \<le> sint changeAmt"
    by (auto simp: changeAmt_def change_def sless64_def over)
  have r: "selectChange amt dustLimit t (take k coins) ?f =
      (case sanityCheckFee (amt + changeAmt) (t - (amt + changeAmt)) :: 'a coin_error option of
         Some e \<Rightarrow> Inl e | None \<Rightarrow> Inr (take k coins, changeAmt))"
    unfolding selectChange_def Let_def change_def [symmetric] changeAmt_def [symmetric] ..
  show ?thesis
  proof (cases "sanityCheckFee (amt + changeAmt) (t - (amt + changeAmt)) :: 'a coin_error option")
    case None
    note five = sanityCheckFee_None [OF None, unfolded out fee]
    have "\<exists>fee. worth (take k coins) = sint amt + sint changeAmt + fee \<and> 5 * fee \<le> sint amt + sint changeAmt \<and>
        (if changeAmt = 0 then sint (feeNoChange x feeRate k) \<le> fee
         else 0 < sint changeAmt \<and> sint dustLimit \<le> sint changeAmt \<and> fee = sint ?f)"
      using five z c cb ab assms(6,8) by (intro exI [of _ "sint t - sint amt - sint changeAmt"]) auto
    then have "\<exists>j fee. 0 < j \<and> j \<le> length coins \<and> take k coins = take j coins \<and>
        worth (take k coins) = sint amt + sint changeAmt + fee \<and> 5 * fee \<le> sint amt + sint changeAmt \<and>
        (if changeAmt = 0 then sint (feeNoChange x feeRate j) \<le> fee
         else 0 < sint changeAmt \<and> sint dustLimit \<le> sint changeAmt \<and> fee = sint (feeWithChange x feeRate j))"
      using assms(4,5) by blast
    then show ?thesis unfolding r by (simp add: None selection_ok_def)
  next
    case (Some e)
    then show ?thesis unfolding r by (auto simp: selection_ok_def sanityCheckFee_def split: if_splits)
  qed
qed

lemma CoinSelectRound_ok:
  assumes "coins_ok coins" "fees_ok x feeRate (length coins)" "amount_ok amt"
    "need = amt \<or> (\<exists>k \<le> length coins. need = amt + feeNoChange x feeRate k)"
    "\<And>j. 0 < j \<Longrightarrow> j \<le> m \<Longrightarrow> worth (take j coins) < sint need"
  shows "\<exists>r. CoinSelectRound x assetId feeRate amt dustLimit coins need = Some r \<and> selection_ok x feeRate amt dustLimit coins r"
  using assms(4,5)
proof (induction "length coins - m" arbitrary: m need rule: less_induct)
  case less
  have fee: "amount_ok (feeNoChange x feeRate k)" "amount_ok (feeWithChange x feeRate k)" if "k \<le> length coins" for k
    using assms(2) that by (simp_all add: fees_ok_def list_all_iff del: upt_Suc)
  have need: "sint (amt + feeNoChange x feeRate k) = sint amt + sint (feeNoChange x feeRate k)" "sint amt \<le> sint (amt + feeNoChange x feeRate k)"
    if "k \<le> length coins" for k
    using fee [OF that] assms(3) by (simp_all add: amount_ok_def sint_add_small)
  have amt: "sint amt \<le> sint need" using less.prems(1) need by auto
  show ?case
  proof (cases "selectInputs need coins :: 'a coin_error + Amount \<times> Coin list")
    case (Inl e)
    then show ?thesis using selectInputs_ok [OF assms(1), of need, where ?'a = 'a] less.prems(1) need(1)
      by (subst CoinSelectRound.simps) (auto simp: select_ok_def selection_ok_def)
  next
    case (Inr ts)
    then obtain t k where r: "selectInputs need coins = (Inr (t, take k coins) :: 'a coin_error + Amount \<times> Coin list)" "0 < k" "k \<le> length coins"
      "sint t = worth (take k coins)" "sint need \<le> sint t"
      using selectInputs_ok [OF assms(1), of need, where ?'a = 'a] by (auto simp: select_ok_def split: prod.splits)
    let ?fee = "feeNoChange x feeRate k"
    have tb: "0 \<le> sint t" "sint t < 2 ^ 60"
      using r(4) worth_take_mono [OF _ order_refl, of coins k] assms(1) by (auto simp: coins_ok_def)
    then have over: "sint (t - amt) = sint t - sint amt" using assms(3) by (simp add: amount_ok_def sint_add_small)
    show ?thesis
    proof (cases "list_all (\<lambda>u. isPubKeyHashTy x (cn_PkScript u)) (take k coins)")
      case False
      then show ?thesis using r(1)
        by (subst CoinSelectRound.simps) (simp add: calculateFees_eq selection_ok_def)
    next
      case True
      then have step: "CoinSelectRound x assetId feeRate amt dustLimit coins need =
          (if sless64 (t - amt) ?fee then CoinSelectRound x assetId feeRate amt dustLimit coins (amt + ?fee)
           else Some (selectChange amt dustLimit t (take k coins) (feeWithChange x feeRate k)))"
        using r(1,3) by (subst CoinSelectRound.simps) (simp add: calculateFees_eq min_absorb2)
      show ?thesis
      proof (cases "sless64 (t - amt) ?fee")
        case True
        then have lt: "worth (take k coins) < sint (amt + ?fee)" using over need(1) [OF r(3)] r(4) by (simp add: sless64_def)
        have km: "m < k" using less.prems(2) [of k] r(2,4,5) by (cases "m < k") auto
        have "worth (take j coins) < sint (amt + ?fee)" if "0 < j" "j \<le> k" for j
          using worth_take_mono(1) [OF _ that(2), of coins] assms(1) lt by (auto simp: coins_ok_def)
        moreover have "length coins - k < length coins - m" using km r(3) by linarith
        ultimately have "\<exists>r. CoinSelectRound x assetId feeRate amt dustLimit coins (amt + ?fee) = Some r \<and>
            selection_ok x feeRate amt dustLimit coins r" using less.hyps [of k "amt + ?fee"] r(3) by blast
        then show ?thesis using True unfolding step by simp
      next
        case False
        then have "sint ?fee \<le> sint t - sint amt" using over by (simp add: sless64_def)
        then show ?thesis
          using selectChange_ok [OF assms(1,3) fee(2) [OF r(3)] r(2,3,4) _ ] False amt r(5) unfolding step by simp
      qed
    qed
  qed
qed

text \<open>
  C14: Coin selection ends: with coins of non-negative value and fees in range it returns, each round
  takes more coins than the one before, and it reports missing funds only if all coins together are
  worth less than the amount, or than the amount and the fee for some of the coins.
\<close>

theorem CoinSelect_terminates:
  assumes "coins_ok coins" "fees_ok x feeRate (length coins)" "amount_ok amt"
  shows "\<exists>r. CoinSelect x assetId feeRate amt dustLimit coins = Some r \<and>
    (\<forall>need s a. r = Inl (ErrInsufficientFunds need s a) \<longrightarrow> sint s = worth coins \<and> (coins \<noteq> [] \<longrightarrow> worth coins < sint need) \<and>
       (need = amt \<or> (\<exists>k \<le> length coins. sint need = sint amt + sint (feeNoChange x feeRate k))))"
proof -
  obtain r where r: "CoinSelectRound x assetId feeRate amt dustLimit coins amt = Some r" "selection_ok x feeRate amt dustLimit coins r"
    using CoinSelectRound_ok [OF assms, of amt 0 assetId dustLimit] by auto
  have "sint s = worth coins \<and> (coins \<noteq> [] \<longrightarrow> worth coins < sint need) \<and>
       (need = amt \<or> (\<exists>k \<le> length coins. sint need = sint amt + sint (feeNoChange x feeRate k)))"
    if "r = Inl (ErrInsufficientFunds need s a)" for need s a
    using r(2) unfolding selection_ok_def that by simp
  then show ?thesis using r(1) by (auto simp: CoinSelect_def)
qed


subsection \<open>Coins of one address\<close>

fun forAddress :: "'a \<Rightarrow> 'a coin_error + 'b \<Rightarrow> 'a coin_error + 'b" where
  "forAddress a (Inl (ErrInsufficientFunds need s _)) = Inl (ErrInsufficientFunds need s (Some a))"
| "forAddress a r = r"

lemma selectByAddressLoop_eq:
  "selectByAddressLoop a script amt sat taken coins =
     forAddress a (selectLoop amt sat taken (filter (\<lambda>c. cn_PkScript c = script) coins))"
  by (induction coins arbitrary: sat taken) (auto simp: Let_def)

lemma selectInputs_Inl: "selectInputs amt coins = Inl e \<Longrightarrow> \<exists>s. e = ErrInsufficientFunds amt s None"
proof -
  have "selectLoop amt sat taken coins = Inl e \<Longrightarrow> \<exists>s. e = ErrInsufficientFunds amt s None" for sat taken
    by (induction coins arbitrary: sat taken) (auto simp: Let_def split: if_splits)
  then show "selectInputs amt coins = Inl e \<Longrightarrow> ?thesis" by (simp add: selectInputs_def)
qed

lemma selectInputsByAddress_eq:
  "PayToAddrScript x a = Some script \<Longrightarrow> selectInputsByAddress x amt a coins =
     forAddress a (selectInputs amt (filter (\<lambda>c. cn_PkScript c = script) coins))"
  by (simp add: selectInputsByAddress_def selectInputs_def selectByAddressLoop_eq)

lemma forAddress_other:
  "calculateFees x assetId utxos feeRate = Inl e \<Longrightarrow> forAddress a (Inl e) = Inl e"
  "forAddress a (selectChange amt dustLimit t sel f) = selectChange amt dustLimit t sel f"
  by (auto simp: calculateFees_def selectChange_def sanityCheckFee_def Let_def split: if_splits)

text \<open>The two loops go through the same rounds.\<close>

lemmas CoinSelectRound_induct = CoinSelectRound.raw_induct
  [of P "((((((x, assetId), feeRate), amt), dustLimit), coins), need)" r for P x assetId feeRate amt dustLimit coins need r,
   unfolded prod.case, rotated, consumes 1, case_names round]

lemmas CoinSelectByAddressRound_induct = CoinSelectByAddressRound.raw_induct
  [of P "(((((((x, assetId), feeRate), amt), dustLimit), a), coins), need)" r for P x assetId feeRate amt dustLimit a coins need r,
   unfolded prod.case, rotated, consumes 1, case_names round]

lemma CoinSelectRound_ByAddress:
  "CoinSelectRound x assetId feeRate amt dustLimit mine need = Some r \<Longrightarrow> PayToAddrScript x a = Some script \<Longrightarrow>
     mine = filter (\<lambda>c. cn_PkScript c = script) coins \<Longrightarrow>
     CoinSelectByAddressRound x assetId feeRate amt dustLimit a coins need = Some (forAddress a r)"
proof (induction rule: CoinSelectRound_induct)
  case (round rec x assetId feeRate amt dustLimit mine need r)
  note sel = selectInputsByAddress_eq [OF round.prems(1), of need coins, folded round.prems(2)]
  show ?case
  proof (cases "selectInputs need mine :: 'a coin_error + Amount \<times> Coin list")
    case (Inl e)
    then show ?thesis using round.hyps selectInputs_Inl [OF Inl] sel by (subst CoinSelectByAddressRound.simps) auto
  next
    case (Inr ts)
    then obtain t utxos where ts: "selectInputs need mine = (Inr (t, utxos) :: 'a coin_error + Amount \<times> Coin list)" by (cases ts) simp
    show ?thesis
    proof (cases "calculateFees x assetId utxos feeRate")
      case (Inl e)
      then show ?thesis using round.hyps ts sel by (subst CoinSelectByAddressRound.simps) (auto simp: forAddress_other(1) [OF Inl])
    next
      case (Inr fs)
      then obtain f g where fs: "calculateFees x assetId utxos feeRate = Inr (f, g)" by (cases fs) simp
      show ?thesis
        using round.hyps ts fs sel round.IH [OF _ round.prems]
        by (subst CoinSelectByAddressRound.simps) (auto simp: forAddress_other(2) split: if_splits)
    qed
  qed
qed

lemma CoinSelectByAddressRound_Some:
  "CoinSelectByAddressRound x assetId feeRate amt dustLimit a coins need = Some r \<Longrightarrow> PayToAddrScript x a = Some script \<Longrightarrow>
     mine = filter (\<lambda>c. cn_PkScript c = script) coins \<Longrightarrow>
     \<exists>r. CoinSelectRound x assetId feeRate amt dustLimit mine need = Some r"
proof (induction rule: CoinSelectByAddressRound_induct)
  case (round rec x assetId feeRate amt dustLimit a coins need r)
  note sel = selectInputsByAddress_eq [OF round.prems(1), of need coins, folded round.prems(2)]
  show ?case
  proof (cases "selectInputs need mine :: 'a coin_error + Amount \<times> Coin list")
    case (Inl e)
    then show ?thesis by (subst CoinSelectRound.simps) simp
  next
    case (Inr ts)
    then obtain t utxos where ts: "selectInputs need mine = (Inr (t, utxos) :: 'a coin_error + Amount \<times> Coin list)" by (cases ts) simp
    show ?thesis
      using round.hyps ts sel round.IH [OF _ round.prems]
      by (subst CoinSelectRound.simps) (auto split: if_splits sum.splits prod.splits)
  qed
qed

text \<open>
  C38: Selecting coins of an address is selecting from the coins that pay to its script; only the error
  for missing funds names the address.  It holds also for selections that do not end.
\<close>

theorem CoinSelectByAddress_filters:
  assumes "PayToAddrScript x a = Some script"
  shows "CoinSelectByAddress x assetId feeRate amt dustLimit a coins =
    map_option (forAddress a) (CoinSelect x assetId feeRate amt dustLimit (filter (\<lambda>c. cn_PkScript c = script) coins))"
proof (cases "CoinSelect x assetId feeRate amt dustLimit (filter (\<lambda>c. cn_PkScript c = script) coins)")
  case None
  then show ?thesis
    using CoinSelectByAddressRound_Some [OF _ assms refl] by (fastforce simp: CoinSelect_def CoinSelectByAddress_def)
next
  case (Some r)
  then show ?thesis
    using CoinSelectRound_ByAddress [OF _ assms refl] by (simp add: CoinSelect_def CoinSelectByAddress_def)
qed

subsection \<open>Fees taken from the amount\<close>

text \<open>
  What \<^verbatim>\<open>CoinSelectSubtractFees\<close> returns adds up: the coins are worth the output, the change and a
  fee, the output and the change (if there is one) are not below the dust limit, at most a fifth goes to the fee.  With
  change, output and fee are the amount, and the fee is the fee for a transaction with change;
  without, the fee is the fee for a transaction without change.
\<close>

theorem CoinSelectSubtractFees_splits:
  assumes "coins_ok coins" "fees_ok x feeRate (length coins)" "amount_ok amt" "amount_ok dustLimit"
    "CoinSelectSubtractFees x assetId feeRate amt dustLimit coins = Inr (sel, out, change)"
  shows "\<exists>k fee. 0 < k \<and> k \<le> length coins \<and> sel = take k coins \<and> worth sel = sint out + sint change + fee \<and>
    sint dustLimit \<le> sint out \<and> 5 * fee \<le> sint out + sint change \<and>
    (change = 0 \<and> fee = sint (feeNoChange x feeRate k) \<or>
     sint dustLimit \<le> sint change \<and> sint out + fee = sint amt \<and> fee = sint (feeWithChange x feeRate k))"
proof -
  obtain t k where sel: "selectInputs amt coins = (Inr (t, take k coins) :: 'a coin_error + Amount \<times> Coin list)" "0 < k" "k \<le> length coins"
      "sint t = worth (take k coins)" "sint amt \<le> sint t"
    using selectInputs_ok [OF assms(1), of amt, where ?'a = 'a] assms(5)
    by (auto simp: select_ok_def CoinSelectSubtractFees_def split: sum.splits prod.splits)
  let ?f = "feeNoChange x feeRate k" and ?g = "feeWithChange x feeRate k"
  have bounds: "0 \<le> sint t" "sint t < 2 ^ 60" "0 \<le> sint amt" "0 \<le> sint ?f" "sint ?f < 2 ^ 60" "0 \<le> sint ?g" "sint ?g < 2 ^ 60"
    "0 \<le> sint dustLimit"
    using sel(3,4) worth_take_mono [OF _ order_refl, of coins k] assms(1-4)
    by (auto simp: coins_ok_def fees_ok_def amount_ok_def list_all_iff simp del: upt_Suc)
  have diffs: "sint (t - ?f) = sint t - sint ?f" "sint (amt - ?g) = sint amt - sint ?g" "sint (t - amt) = sint t - sint amt"
    using bounds sel(5) by (simp_all add: sint_add_small)
  define both where "both \<longleftrightarrow> \<not> sless64 (t - amt) dustLimit \<and> \<not> sless64 (amt - ?g) dustLimit"
  have r: "sel = take k coins" "out = (if both then amt - ?g else t - ?f)" "change = (if both then t - amt else 0)"
    "\<not> sless64 (t - ?f) dustLimit" "sanityCheckFee (out + change) (t - (out + change)) = (None :: 'a coin_error option)"
    using assms(5) sel(1,3)
    by (auto simp: CoinSelectSubtractFees_def Let_def calculateFees_eq both_def min_absorb2 split: if_splits option.splits)
  have out: "0 \<le> sint out" "sint dustLimit \<le> sint out" "sint out \<le> sint t" "0 \<le> sint change" "sint out + sint change \<le> sint t"
    using r(2,3,4) bounds diffs sel(5) by (auto simp: both_def sless64_def)
  then have sums: "sint (out + change) = sint out + sint change" "sint (t - (out + change)) = sint t - sint out - sint change"
    using bounds by (simp_all add: sint_add_small)
  have five: "5 * (sint t - sint out - sint change) \<le> sint out + sint change"
    using sanityCheckFee_None [OF r(5)] out sums by simp
  show ?thesis
    using five r(1-3) out sel(2-4) diffs
    by (intro exI [of _ k] exI [of _ "sint t - sint out - sint change"]) (auto simp: both_def sless64_def)
qed

subsection \<open>Samples\<close>

definition sample_funding :: "bytes funding_ext" where
  "sample_funding = \<lparr>VarIntSerializeSize = (\<lambda>n. if n < 253 then 1 else if n \<le> 65535 then 3 else if n \<le> 4294967295 then 5 else 9),
     TxOut_SerializeSize = (\<lambda>out. 9 + word_of_nat (length (to_PkScript out))), isPubKeyHashTy = (\<lambda>s. length s = 25),
     PayToAddrScript = (\<lambda>a. if length a = 25 then Some a else None), lnd_FeeForWeight = FeeForWeight\<rparr>"

definition sample_coin :: "u64 \<Rightarrow> byte \<Rightarrow> Coin" where
  "sample_coin v b = \<lparr>cn_TxOut = \<lparr>to_Value = v, to_PkScript = replicate 25 b\<rparr>,
     cn_OutPoint = \<lparr>op_Hash = replicate 32 b, op_Index = 0\<rparr>\<rparr>"

abbreviation sample_coins :: "Coin list" where
  "sample_coins \<equiv> [sample_coin 60000 1, sample_coin 50000 2, sample_coin 70000 1]"

lemma sample_fees:
  "map (feeNoChange sample_funding 500) [0, 1, 2, 3] = [84, 382, 680, 978]"
  "map (feeWithChange sample_funding 500) [0, 1, 2, 3] = [152, 450, 748, 1046]"
  by code_simp+

lemma sample_coins_ok: "coins_ok sample_coins" "fees_ok sample_funding 500 (length sample_coins)" "coins_ok [sample_coin 100000 1]"
  "fees_ok sample_funding 500 (length [sample_coin 100000 1])" "amount_ok 109900" "amount_ok 573" "amount_ok 600"
  using sample_fees
  by (simp_all add: coins_ok_def worth_def sample_coin_def cn_Value_def amount_ok_def fees_ok_def upt_rec eval_nat_numeral)

text \<open>The first two coins are worth enough, but not with the fee: a second round takes the third.\<close>

lemma sample_rounds:
  "selectInputs 109900 sample_coins = (Inr (110000, take 2 sample_coins) :: bytes coin_error + Amount \<times> Coin list)"
  "selectInputs 110580 sample_coins = (Inr (180000, sample_coins) :: bytes coin_error + Amount \<times> Coin list)"
  "calculateFees sample_funding 0 (take 2 sample_coins) 500 = Inr (680, 748)"
  "calculateFees sample_funding 0 sample_coins 500 = Inr (978, 1046)"
  "selectChange 109900 573 180000 sample_coins 1046 = (Inr (sample_coins, 69054) :: bytes coin_error + Coin list \<times> Amount)"
  by code_simp+

lemma sample_selection: "CoinSelect sample_funding 0 500 109900 573 sample_coins = Some (Inr (sample_coins, 69054))"
  unfolding CoinSelect_def
  by (subst CoinSelectRound.simps, simp only: sample_rounds sum.case prod.case, subst CoinSelectRound.simps)
    (simp add: sample_rounds [simplified] sless64_def)

theorem CoinSelect_terminates_witness: "\<exists>r. CoinSelect sample_funding 0 500 109900 573 sample_coins = Some r"
  using CoinSelect_terminates [OF sample_coins_ok(1,2,5), of 0 573] by blast


theorem CoinSelectByAddress_filters_witness:
  "CoinSelectByAddress sample_funding 0 500 50000 573 (replicate 25 1) sample_coins =
     map_option (forAddress (replicate 25 1)) (CoinSelect sample_funding 0 500 50000 573 (filter (\<lambda>c. cn_PkScript c = replicate 25 1) sample_coins))"
  by (rule CoinSelectByAddress_filters) (simp add: sample_funding_def)


theorem CoinSelectSubtractFees_splits_witness:
  "\<exists>k fee. worth (take k [sample_coin 100000 1]) = 99618 + fee \<and> fee = sint (feeNoChange sample_funding 500 k)"
proof -
  have "CoinSelectSubtractFees sample_funding 0 500 600 573 [sample_coin 100000 1] = Inr ([sample_coin 100000 1], 99618, 0)" by code_simp
  from CoinSelectSubtractFees_splits [OF sample_coins_ok(3,4,7,6) this] obtain k fee where
    "[sample_coin 100000 1] = take k [sample_coin 100000 1]" "worth [sample_coin 100000 1] = sint (99618 :: Amount) + sint (0 :: Amount) + fee"
    "fee = sint (feeNoChange sample_funding 500 k) \<or> sint (99618 :: Amount) + fee = sint (600 :: Amount)" "0 < k" by blast
  then show ?thesis
    by (intro exI [of _ k] exI [of _ fee]) (cases k, auto simp: sample_coin_def cn_Value_def)
qed

end
