(* ===== verification/Spec2Isabelle.thy ===== *)
theory Spec2Isabelle
  imports Feature_Deps Wire_Elements Wire_Protocol Omni_Opreturn Lnwallet_Correct Lnwallet_Agree
    Channeldb_Lifecycle Wire_Signature Lnwallet_Relay Wire_OnionError Htlcswitch_Correct
    Htlcswitch_Sequencer Lnwallet_CoinSelect
begin

text \<open>
  A verification of \<^verbatim>\<open>obd-go-bindings\<close>, the Go packages of a Lightning node that carries Omni assets
  besides Bitcoin.  The program has four layers that matter for the safety of funds: the wire
  protocol (\<^verbatim>\<open>lnwire\<close>, \<^verbatim>\<open>feature\<close>), the asset payload of a transaction (\<^verbatim>\<open>lnwallet/omnicore/op\<close>),
  the channel state machine with its database (\<^verbatim>\<open>lnwallet\<close>, \<^verbatim>\<open>channeldb/channel.go\<close>,
  \<^verbatim>\<open>channeldb/forwarding_package.go\<close>), and the switch, invoice, payment and graph stores around
  it (\<^verbatim>\<open>htlcswitch\<close>, \<^verbatim>\<open>channeldb\<close>).  The theories below model the first three, and of the fourth the
  circuits that lead the answer to a forwarded HTLC back.

  \<^bold>\<open>Conventions.\<close>  Machine integers are words of their width, so arithmetic wraps as in Go;
  signed comparisons and divisions are written with \<open>sint\<close>.  A byte slice is a \<open>byte list\<close>, a
  fixed array a list whose length the well-formedness predicates state.  A writer maps the buffer
  to the buffer and an optional error (it may have written before it fails); a reader maps the
  input to an error or a value and the rest.  An operation that fails returns \<open>Inl\<close>; one that can
  write through pointers before failing returns the new state in either case.  A nil dereference
  or an index out of range is an error value of its own.  Code outside the repository
  (\<^verbatim>\<open>btcec\<close>, \<^verbatim>\<open>txscript\<close>, \<^verbatim>\<open>lnd/tlv\<close>, \<^verbatim>\<open>zlib\<close>, base32, hashes) is a parameter: the records \<open>ext\<close> and
  \<open>crypto\<close> and the argument \<open>sha256\<close>, with what is documented of it as named hypotheses, for which
  \<open>sample_ext\<close> and \<open>sample_crypto\<close> are instances.

  \<^bold>\<open>Theories.\<close>
  \<^item> \<open>Obd_Prelude\<close>: bytes and big-endian integers, writers and readers with their laws, generic
    lemmas.
  \<^item> \<open>Wire_Features\<close> (\<^verbatim>\<open>lnwire/features.go\<close>) and \<open>Feature_Deps\<close> (\<^verbatim>\<open>feature/*.go\<close>): feature
    vectors, their codecs and set operations; the dependency check, whose recursion terminates
    because the dependency graph has no cycle; the manager that builds the sets of a node.
  \<^item> \<open>Wire_Ids\<close> (\<^verbatim>\<open>msat.go\<close>, \<^verbatim>\<open>channel_id.go\<close>, \<^verbatim>\<open>short_channel_id.go\<close>): amounts and identifiers.
  \<^item> \<open>Wire_Primitives\<close>, \<open>Wire_Addrs\<close>, \<open>Wire_Elements\<close> (\<^verbatim>\<open>writer.go\<close>, \<^verbatim>\<open>lnwire.go\<close>): the codecs of
    the fields, in the typed form and in the form of the type switches.
  \<^item> \<open>Wire_Scids\<close> (\<^verbatim>\<open>query_short_chan_ids.go\<close>), \<open>Wire_Msg_Update\<close>, \<open>Wire_Msg_Channel\<close>,
    \<open>Wire_Msg_Gossip\<close>: the messages; each is an instance of the locale of message codecs.
    \<open>Wire_Protocol\<close> (\<^verbatim>\<open>message.go\<close>): dispatch, \<^verbatim>\<open>WriteMessage\<close> and \<^verbatim>\<open>ReadMessage\<close>.
  \<^item> \<open>Omni_Opreturn\<close> (\<^verbatim>\<open>opreturn.go\<close>): the payload that assigns amounts of an asset to outputs.
  \<^item> \<open>Lnwallet_UpdateLog\<close>, \<open>Lnwallet_Fees\<close>, \<open>Lnwallet_View\<close>, \<open>Lnwallet_Channel\<close>
    (\<^verbatim>\<open>lnwallet/channel.go\<close>, \<^verbatim>\<open>commitment.go\<close>): the two update logs with their indexes and their
    compaction; fees and dust; the channel, its commitment chains and the evaluation of the logs;
    the operations that add, settle and fail HTLCs and update the fee.
  \<^item> \<open>Lnwallet_Ledger\<close>, \<open>Lnwallet_Balance\<close>, \<open>Lnwallet_Conserve\<close>, \<open>Lnwallet_Invariant\<close>: the effect of
    an evaluation on logs and balances as closed formulas, and the invariant of the pair of logs.
  \<^item> \<open>Lnwallet_Steps\<close>: the step relation of a channel; the five operations that remove an HTLC are
    instances of one locale.  \<open>Lnwallet_Book\<close>: the abstract books of HTLCs the logs refine.
    \<open>Lnwallet_Correct\<close>: the theorems on channels, and a channel to evaluate them on.
  \<^item> \<open>Input_Scripts\<close> (\<^verbatim>\<open>input/script_utils.go\<close>): the scripts of the outputs of a channel, the witnesses
    that spend them, and the derivation of keys.  \<open>Input_Exec\<close>: what a script means, as an
    interpreter for the operations that the scripts use, and who can spend an output when.
  \<^item> \<open>Lnwallet_Keys\<close> (\<^verbatim>\<open>commitment.go\<close>, \<^verbatim>\<open>transactions.go\<close>, \<^verbatim>\<open>btcwallet/signer.go\<close>): the keys and
    scripts of a commitment, second-level transactions, the state hint, and the tweaks of the signer.
    \<open>Lnwallet_CommitTx\<close> (\<^verbatim>\<open>commitment.go\<close>, \<^verbatim>\<open>commit_sort.go\<close>): the commitment transaction with its asset
    payload.  \<open>Lnwallet_Agree\<close>: both parties build the same one.
  \<^item> \<open>Wire_Signature\<close> (\<^verbatim>\<open>lnwire/signature.go\<close>): signatures of 64 bytes and their DER form.
  \<^item> \<open>Channeldb_Fwd\<close> (\<^verbatim>\<open>channeldb/forwarding_package.go\<close>): packages of locked-in updates, their filters
    and buckets; \<open>Channeldb_Lifecycle\<close>: every run of operations refines the sets of what was
    acknowledged.  \<open>Channeldb_Commit\<close> (\<^verbatim>\<open>channeldb/channel.go\<close>): the commitments of a channel in memory
    and on disk and the three transitions on them.
  \<^item> \<open>Lnwallet_Dance\<close> (\<^verbatim>\<open>lnwallet/channel.go\<close>, \<^verbatim>\<open>sigpool.go\<close>): signing, receiving and revoking
    commitments.  \<open>Lnwallet_Annotate\<close>: an evaluation writes heights and scripts and nothing else.
    \<open>Lnwallet_Forward\<close>: the runs of a channel and its database as an inductive relation that records
    what was handed on, with its invariant.  \<open>Lnwallet_Relay\<close>: the theorems on these runs, and a run
    to evaluate them on.
  \<^item> \<open>Wire_OnionError\<close> (\<^verbatim>\<open>lnwire/onion_error.go\<close>): the failures that travel back through the onion.
  \<^item> \<open>Htlcswitch_Circuits\<close> (\<^verbatim>\<open>htlcswitch/circuit.go\<close>, \<^verbatim>\<open>circuit_map.go\<close>, \<^verbatim>\<open>packet.go\<close>,
    \<^verbatim>\<open>hop/error_encryptor.go\<close>): payment circuits, with the heap that the maps of the switch share, and
    their buckets.  \<open>Htlcswitch_Invariant\<close>: the invariant of maps and disk, kept by every operation,
    failed writes included; the two operations that hand out a circuit are instances of one locale.
    \<open>Htlcswitch_Restart\<close>: what a restart brings back.  \<open>Htlcswitch_Correct\<close>: the runs of a circuit
    map over restarts and the theorems on them.  \<open>Htlcswitch_Sequencer\<close> (\<^verbatim>\<open>sequencer.go\<close>): the
    identifiers of local payments.
  \<^item> \<open>Lnwallet_CoinSelect\<close> (\<^verbatim>\<open>input/size.go\<close>, \<^verbatim>\<open>lnwallet/chanfunding/coin_select.go\<close>): weight
    estimates and the choice of coins; its loops are partial functions that are proved to return.

  \<^bold>\<open>What is shown.\<close>  Messages survive the wire and the writer is all or nothing.  Feature
  sets that are handed out are closed under dependencies.  A payload assigns to every output the
  amount collected for its script.  A channel keeps its logs consistent over every sequence of
  operations, refines two books of HTLCs in which an HTLC is offered once and resolved once, an
  evaluation neither creates nor destroys funds, compaction never follows a dangling pointer,
  and HTLCs in Bitcoin stay within the limits of the channel (for assets the code checks none,
  which is a theorem too).  The hypothesis \<open>has_room\<close> of the steps says that a 64-bit counter of a
  log has not reached its last value.  Both parties build the same commitment transaction from
  mirrored states; an HTLC output needs the preimage or the expiry; the witnesses the code builds
  spend the outputs; and a revoked commitment can be taken by the peer.  Over every run of the
  commitment dance an update of the peer is handed on once, when it is in both commitments and the
  older ones are revoked; the database agrees with the memory and finds every revoked commitment;
  and a commitment that is built pays every HTLC.  The hypothesis \<open>heights_left\<close> of the runs says that
  a 64-bit height has not reached its last value.  Over every run of the switch's circuit map, with
  restarts and failed writes, memory and disk agree, a restart finds the same circuits, and a circuit
  is answered once; its index by payment hash may lead astray after a trim, which is a theorem too.
  Coin selection ends and pays its fees (for amounts below \<open>2 ^ 60\<close>, far above all coins that can
  exist).  A failure fits the onion and is read back, unless a signature looks like a message type.

  \<^bold>\<open>Not modelled.\<close>  The byte formats of the database and bbolt itself (a bucket is its content, and
  whether a transaction commits is a parameter), the stores of invoices, payments and the graph, the
  links and mailboxes of the switch, wallets and key stores, the chain backends, and generated RPC code.  Error texts and logging are left out
  everywhere.
\<close>

end
